(* ===== verification/Prelude.thy ===== *)
theory Prelude
  imports Complex_Main "HOL-Library.AList" "HOL-Library.Sublist" "HOL-Library.Char_ord"
    "HOL-Library.List_Lexorder"
begin

text \<open>
  The part of the JavaScript language and standard library that the components share:
  the values of type \<open>unknown\<close>, the insertion-ordered \<open>Map\<close>, the string methods the
  sources call, decimal rendering, and the capped array that every log of the program is.
  The collections \<open>js_map\<close> and \<open>js_string\<close> gather the rewrite rules the component
  theories use.

  A JavaScript string is modelled as a list of Isabelle characters, that is of code units
  below 256; \<open>trim\<close>, \<open>toLowerCase\<close> and \<open>toUpperCase\<close> are written for that range
  (case mapping for ASCII letters only).
\<close>

named_theorems js_map \<open>insertion-ordered maps\<close>
named_theorems js_string \<open>string methods\<close>

section \<open>Values\<close>

text \<open>
  A number is an exact rational or one of the three non-finite doubles; rounding to double
  precision is not modelled. An object is its list of own properties in insertion order.
\<close>

datatype jsnum = NaN | PosInf | NegInf | Fin rat

datatype jsval =
    JUndefined
  | JNull
  | JBool bool
  | JNum jsnum
  | JStr string
  | JArr "jsval list"
  | JObj "(string \<times> jsval) list"

text \<open>\<open>a < b\<close> on numbers: every comparison with \<open>NaN\<close> is false.\<close>

fun num_lt :: "jsnum \<Rightarrow> jsnum \<Rightarrow> bool" where
  "num_lt NaN _ = False"
| "num_lt _ NaN = False"
| "num_lt (Fin a) (Fin b) = (a < b)"
| "num_lt NegInf b = (b \<noteq> NegInf)"
| "num_lt PosInf _ = False"
| "num_lt (Fin _) b = (b = PosInf)"

abbreviation jint :: "int \<Rightarrow> jsval" where
  "jint i \<equiv> JNum (Fin (of_int i))"

text \<open>Reading a property of an object; a missing property is \<open>undefined\<close>.\<close>

definition getprop :: "(string \<times> jsval) list \<Rightarrow> string \<Rightarrow> jsval" where
  "getprop ps k = (case map_of ps k of None \<Rightarrow> JUndefined | Some v \<Rightarrow> v)"

text \<open>What a value that is not an object has of its own is none of the properties read here.\<close>

fun members :: "jsval \<Rightarrow> (string \<times> jsval) list" where
  "members (JObj ps) = ps"
| "members _ = []"

definition nullish :: "jsval \<Rightarrow> bool" where
  "nullish v \<longleftrightarrow> v = JUndefined \<or> v = JNull"

text \<open>\<open>v ?? d\<close>\<close>

definition nullish_or :: "jsval \<Rightarrow> jsval \<Rightarrow> jsval" where
  "nullish_or v d = (if nullish v then d else v)"

text \<open>\<open>Boolean(v)\<close>: the test a condition makes on a value.\<close>

fun truthy :: "jsval \<Rightarrow> bool" where
  "truthy JUndefined = False"
| "truthy JNull = False"
| "truthy (JBool b) = b"
| "truthy (JNum n) = (n \<noteq> NaN \<and> n \<noteq> Fin 0)"
| "truthy (JStr s) = (s \<noteq> [])"
| "truthy (JArr _) = True"
| "truthy (JObj _) = True"

text \<open>The same test on an optional string (\<open>null\<close>, \<open>undefined\<close> and the empty string fail).\<close>

definition truthy_str :: "string option \<Rightarrow> bool" where
  "truthy_str s \<longleftrightarrow> s \<noteq> None \<and> s \<noteq> Some []"

lemma truthy_str_simps [simp]:
  "truthy_str None = False" "truthy_str (Some s) = (s \<noteq> [])"
  by (auto simp: truthy_str_def)

lemma truthy_strE: "truthy_str s \<Longrightarrow> (\<And>x. s = Some x \<Longrightarrow> x \<noteq> [] \<Longrightarrow> P) \<Longrightarrow> P"
  by (cases s) auto

section \<open>Insertion-ordered maps\<close>

text \<open>
  A JavaScript \<open>Map\<close> iterates in insertion order, and setting an existing key keeps its
  place: \<open>AList.update\<close> and \<open>AList.delete\<close> on an association list.
\<close>

type_synonym ('k, 'v) jmap = "('k \<times> 'v) list"

abbreviation jget :: "('k, 'v) jmap \<Rightarrow> 'k \<Rightarrow> 'v option" where
  "jget m k \<equiv> map_of m k"

abbreviation jhas :: "('k, 'v) jmap \<Rightarrow> 'k \<Rightarrow> bool" where
  "jhas m k \<equiv> map_of m k \<noteq> None"

abbreviation jset :: "('k, 'v) jmap \<Rightarrow> 'k \<Rightarrow> 'v \<Rightarrow> ('k, 'v) jmap" where
  "jset m k v \<equiv> AList.update k v m"

abbreviation jdel :: "('k, 'v) jmap \<Rightarrow> 'k \<Rightarrow> ('k, 'v) jmap" where
  "jdel m k \<equiv> AList.delete k m"

abbreviation jvalues :: "('k, 'v) jmap \<Rightarrow> 'v list" where
  "jvalues m \<equiv> map snd m"

abbreviation jkeys :: "('k, 'v) jmap \<Rightarrow> 'k list" where
  "jkeys m \<equiv> map fst m"

definition jmap_wf :: "('k, 'v) jmap \<Rightarrow> bool" where
  "jmap_wf m \<longleftrightarrow> distinct (jkeys m)"

text \<open>
  What a client of a keyed store may rely on. Stated once, it gives the map algebra that the
  connector, session and plugin tables use.
\<close>

locale keyed_store =
  fixes empty :: "'m"
    and get :: "'m \<Rightarrow> 'k \<Rightarrow> 'v option"
    and put :: "'m \<Rightarrow> 'k \<Rightarrow> 'v \<Rightarrow> 'm"
    and del :: "'m \<Rightarrow> 'k \<Rightarrow> 'm"
    and wf :: "'m \<Rightarrow> bool"
  assumes get_empty: "get empty k = None"
    and get_put: "get (put m k v) k' = (if k' = k then Some v else get m k')"
    and get_del: "get (del m k) k' = (if k' = k then None else get m k')"
    and wf_empty: "wf empty"
    and wf_put: "wf m \<Longrightarrow> wf (put m k v)"
    and wf_del: "wf m \<Longrightarrow> wf (del m k)"
begin

lemma get_put_same: "get (put m k v) k = Some v"
  by (simp add: get_put)

lemma get_del_same: "get (del m k) k = None"
  by (simp add: get_del)

lemma del_put_fresh: "get m k = None \<Longrightarrow> get (del (put m k v) k) = get m"
  by (rule ext) (simp add: get_put get_del)

lemma get_foldl_del: "get (foldl del m ks) k = (if k \<in> set ks then None else get m k)"
  by (induction ks arbitrary: m) (auto simp: get_del)

lemma wf_foldl_del: "wf m \<Longrightarrow> wf (foldl del m ks)"
  by (induction ks arbitrary: m) (auto simp: wf_del)

lemma get_foldl_put:
  "distinct (map fst kvs) \<Longrightarrow>
    get (foldl (\<lambda>m (k, v). put m k v) m kvs) k
      = (case map_of kvs k of None \<Rightarrow> get m k | Some v \<Rightarrow> Some v)"
proof (induction kvs arbitrary: m)
  case Nil
  then show ?case by simp
next
  case (Cons kv kvs)
  then have "fst kv \<notin> dom (map_of kvs)"
    by (simp add: dom_map_of_conv_image_fst)
  with Cons show ?case
    by (cases kv) (auto simp: get_put split: option.split)
qed

lemma wf_foldl_put: "wf m \<Longrightarrow> wf (foldl (\<lambda>m (k, v). put m k v) m kvs)"
  by (induction kvs arbitrary: m) (auto simp: wf_put)

end

interpretation jm: keyed_store "[] :: ('k, 'v) jmap" map_of "\<lambda>m k v. jset m k v"
  "\<lambda>m k. jdel m k" jmap_wf
  by unfold_locales
    (auto simp: update_conv' delete_conv' jmap_wf_def distinct_update distinct_delete)

lemma jget_jset [simp, js_map]:
  "jget (jset m k v) k' = (if k' = k then Some v else jget m k')"
  by (rule jm.get_put)

lemma jget_jdel [simp, js_map]:
  "jget (jdel m k) k' = (if k' = k then None else jget m k')"
  by (rule jm.get_del)

lemma jmap_wf_Nil [simp, js_map]: "jmap_wf []"
  by (rule jm.wf_empty)

lemma jmap_wf_jset [simp, intro, js_map]: "jmap_wf m \<Longrightarrow> jmap_wf (jset m k v)"
  by (rule jm.wf_put)

lemma jmap_wf_jdel [simp, intro, js_map]: "jmap_wf m \<Longrightarrow> jmap_wf (jdel m k)"
  by (rule jm.wf_del)

lemma jset_fresh: "jget m k = None \<Longrightarrow> jset m k v = m @ [(k, v)]"
  by (induction m) (auto split: if_splits)

lemma set_jkeys_jset [simp]: "fst ` set (jset m k v) = insert k (fst ` set m)"
  using dom_update [of k v m] by (simp add: dom_map_of_conv_image_fst)

lemma jmap_wf_lookup: "jmap_wf m \<Longrightarrow> (k, v) \<in> set m \<longleftrightarrow> jget m k = Some v"
  by (simp add: jmap_wf_def map_of_eq_Some_iff)

lemma jvalues_jset_subset: "set (jvalues (jset m k v)) \<subseteq> insert v (set (jvalues m))"
  by (induction m) auto

lemma set_jset_entry: "(k', v') \<in> set (jset m k v) \<Longrightarrow> (k' = k \<and> v' = v) \<or> (k', v') \<in> set m"
  by (induction m) (auto split: if_splits)

section \<open>Strings\<close>

abbreviation char_code :: "char \<Rightarrow> nat" where
  "char_code c \<equiv> of_char c"

definition js_ws :: "char \<Rightarrow> bool" where
  "js_ws c \<longleftrightarrow> List.member [9, 10, 11, 12, 13, 32, 160] (char_code c)"

definition trim :: "string \<Rightarrow> string" where
  "trim s = rev (dropWhile js_ws (rev (dropWhile js_ws s)))"

text \<open>A string between single quotes.\<close>

abbreviation quoted :: "string \<Rightarrow> string" where
  "quoted s \<equiv> CHR 0x27 # s @ [CHR 0x27]"

text \<open>\<open>s.includes(t)\<close>\<close>

abbreviation str_includes :: "string \<Rightarrow> string \<Rightarrow> bool" where
  "str_includes s t \<equiv> sublist t s"

text \<open>\<open>s.split(c)\<close> for a one-character separator: never empty.\<close>

fun split_on :: "char \<Rightarrow> string \<Rightarrow> string list" where
  "split_on c [] = [[]]"
| "split_on c (x # xs) =
     (if x = c then [] # split_on c xs
      else (case split_on c xs of [] \<Rightarrow> [[x]] | p # ps \<Rightarrow> (x # p) # ps))"

text \<open>\<open>parts.join(sep)\<close>\<close>

fun join :: "string \<Rightarrow> string list \<Rightarrow> string" where
  "join sep [] = []"
| "join sep [p] = p"
| "join sep (p # q # ps) = p @ sep @ join sep (q # ps)"

lemma split_on_nonempty [simp]: "split_on c s \<noteq> []"
  by (induction s) (auto split: list.split)

lemma join_Cons: "ps \<noteq> [] \<Longrightarrow> join sep (p # ps) = p @ sep @ join sep ps"
  by (cases ps) auto

lemma join_split [js_string]: "join [c] (split_on c s) = s"
proof (induction s)
  case Nil
  then show ?case by simp
next
  case (Cons x s)
  obtain p ps where "split_on c s = p # ps"
    by (cases "split_on c s") auto
  with Cons show ?case
    by (cases ps) (auto simp: join_Cons)
qed

lemma split_on_no_sep [js_string]: "c \<notin> set s \<Longrightarrow> split_on c s = [s]"
  by (induction s) auto

lemma split_on_append_sep:
  "c \<notin> set p \<Longrightarrow> split_on c (p @ c # s) = p # split_on c s"
  by (induction p) auto

lemma split_join [js_string]:
  "ps \<noteq> [] \<Longrightarrow> \<forall>p \<in> set ps. c \<notin> set p \<Longrightarrow> split_on c (join [c] ps) = ps"
proof (induction ps)
  case Nil
  then show ?case by simp
next
  case (Cons p ps)
  then show ?case
    by (cases ps) (auto simp: split_on_no_sep split_on_append_sep)
qed

lemma split_on_no_sep_in: "p \<in> set (split_on c s) \<Longrightarrow> c \<notin> set p"
proof (induction s arbitrary: p)
  case Nil
  then show ?case by simp
next
  case (Cons x s)
  then show ?case
    by (cases "split_on c s") (auto split: if_splits)
qed

lemma join_inject:
  assumes "ps \<noteq> []" "qs \<noteq> []" "\<forall>p \<in> set ps. c \<notin> set p" "\<forall>q \<in> set qs. c \<notin> set q"
    and "join [c] ps = join [c] qs"
  shows "ps = qs"
proof -
  have "ps = split_on c (join [c] ps)"
    using assms(1,3) by (simp add: split_join)
  also have "\<dots> = qs"
    using assms(2,4,5) by (simp add: split_join)
  finally show ?thesis .
qed

lemma trim_eq_Nil: "trim s = [] \<longleftrightarrow> (\<forall>c \<in> set s. js_ws c)"
proof
  assume "trim s = []"
  then have *: "\<forall>c \<in> set (dropWhile js_ws s). js_ws c"
    by (simp add: trim_def)
  have "dropWhile js_ws s = []"
  proof (rule ccontr)
    assume ne: "dropWhile js_ws s \<noteq> []"
    then have "\<not> js_ws (hd (dropWhile js_ws s))" by (rule hd_dropWhile)
    with ne * show False by simp
  qed
  then show "\<forall>c \<in> set s. js_ws c" by simp
next
  assume "\<forall>c \<in> set s. js_ws c"
  then show "trim s = []" by (auto simp: trim_def dest: set_dropWhileD)
qed

lemma trim_Nil [simp]: "trim [] = []"
  by (simp add: trim_def)

text \<open>Case mapping of ASCII letters.\<close>

definition upper_char :: "char \<Rightarrow> char" where
  "upper_char c =
     (if 97 \<le> char_code c \<and> char_code c \<le> 122 then char_of (char_code c - 32) else c)"

definition lower_char :: "char \<Rightarrow> char" where
  "lower_char c =
     (if 65 \<le> char_code c \<and> char_code c \<le> 90 then char_of (char_code c + 32) else c)"

abbreviation toUpperCase :: "string \<Rightarrow> string" where
  "toUpperCase \<equiv> map upper_char"

abbreviation toLowerCase :: "string \<Rightarrow> string" where
  "toLowerCase \<equiv> map lower_char"

section \<open>Decimal numbers\<close>

definition is_digit :: "char \<Rightarrow> bool" where
  "is_digit c \<longleftrightarrow> 48 \<le> char_code c \<and> char_code c \<le> 57"

definition digit_val :: "char \<Rightarrow> nat" where
  "digit_val c = of_char c - 48"

definition digit_char :: "nat \<Rightarrow> char" where
  "digit_char d = char_of (48 + d)"

text \<open>\<open>String(n)\<close> for a natural number.\<close>

fun show_nat :: "nat \<Rightarrow> string" where
  "show_nat n = (if n < 10 then [digit_char n] else show_nat (n div 10) @ [digit_char (n mod 10)])"

declare show_nat.simps [simp del]

text \<open>The value of a string of decimal digits.\<close>

definition dec_val :: "string \<Rightarrow> nat" where
  "dec_val s = foldl (\<lambda>v c. 10 * v + digit_val c) 0 s"

text \<open>\<open>parseInt(s, 10)\<close>: leading whitespace, an optional sign, the longest run of digits;
  \<open>None\<close> stands for \<open>NaN\<close>.\<close>

definition parseInt10 :: "string \<Rightarrow> int option" where
  "parseInt10 s =
     (let t = dropWhile js_ws s;
          (sg, u) = (case t of [] \<Rightarrow> (1, [])
                     | c # cs \<Rightarrow> if c = CHR ''-'' then (-1, cs)
                                else if c = CHR ''+'' then (1, cs) else (1, t));
          ds = takeWhile is_digit u
      in if ds = [] then None else Some (sg * int (dec_val ds)))"

lemma of_char_digit_char: "d < 10 \<Longrightarrow> of_char (digit_char d) = 48 + d"
  by (simp add: digit_char_def)

lemma is_digit_digit_char [simp]: "d < 10 \<Longrightarrow> is_digit (digit_char d)"
  by (simp add: is_digit_def of_char_digit_char)

lemma digit_val_digit_char [simp]: "d < 10 \<Longrightarrow> digit_val (digit_char d) = d"
  by (simp add: digit_val_def of_char_digit_char)

lemma digit_char_digit_val [simp]: "is_digit c \<Longrightarrow> digit_char (digit_val c) = c"
  by (simp add: digit_char_def digit_val_def is_digit_def)

lemma digit_val_less [simp]: "is_digit c \<Longrightarrow> digit_val c < 10"
  by (auto simp: digit_val_def is_digit_def)

lemma show_nat_nonempty [simp]: "show_nat n \<noteq> []"
  by (subst show_nat.simps) simp

lemma show_nat_digits: "c \<in> set (show_nat n) \<Longrightarrow> is_digit c"
proof (induction n rule: show_nat.induct)
  case (1 n)
  then show ?case
    by (subst (asm) (2) show_nat.simps) (auto split: if_splits)
qed

lemma dec_val_snoc [simp]: "dec_val (s @ [c]) = 10 * dec_val s + digit_val c"
  by (simp add: dec_val_def)

lemma dec_val_show_nat [simp]: "dec_val (show_nat n) = n"
proof (induction n rule: show_nat.induct)
  case (1 n)
  then show ?case
    by (subst show_nat.simps) (auto simp: dec_val_def)
qed

lemma show_nat_inject [simp]: "show_nat m = show_nat n \<longleftrightarrow> m = n"
  by (metis dec_val_show_nat)

lemma show_nat_eq_single: "n < 10 \<Longrightarrow> show_nat n = [digit_char n]"
  by (simp add: show_nat.simps [of n])

lemma is_digit_not_ws: "is_digit c \<Longrightarrow> \<not> js_ws c"
  by (auto simp: is_digit_def js_ws_def)

lemma is_digit_not_sign: "is_digit c \<Longrightarrow> c \<noteq> CHR ''-'' \<and> c \<noteq> CHR ''+''"
  by (auto simp: is_digit_def)

lemma parseInt10_digits:
  assumes "s \<noteq> []" and "\<forall>c \<in> set s. is_digit c"
  shows "parseInt10 s = Some (int (dec_val s))"
proof -
  obtain c cs where s: "s = c # cs" using assms(1) by (cases s) auto
  have t: "takeWhile is_digit cs = cs"
    using assms(2) by (auto simp: takeWhile_eq_all_conv s)
  have w: "\<not> js_ws c" and d: "is_digit c"
    using assms(2) by (auto simp: s is_digit_not_ws)
  show ?thesis
    using is_digit_not_sign [OF d] by (simp add: parseInt10_def Let_def s t w d)
qed

lemma parseInt10_show_nat: "parseInt10 (show_nat n) = Some (int n)"
  using parseInt10_digits [of "show_nat n"] show_nat_digits by auto

definition show_int :: "int \<Rightarrow> string" where
  "show_int i = (if i < 0 then CHR ''-'' # show_nat (nat (- i)) else show_nat (nat i))"

section \<open>Capped arrays\<close>

text \<open>
  Every log of the program is an array that is appended to and loses its oldest entry once
  it holds more than a maximum: \<open>push\<close>, then \<open>shift\<close> if \<open>length > max\<close>.
\<close>

definition push_capped :: "nat \<Rightarrow> 'a list \<Rightarrow> 'a \<Rightarrow> 'a list" where
  "push_capped cap es e =
     (let es' = es @ [e] in if length es' > cap then tl es' else es')"

text \<open>
  The contract of such a log: after any number of pushes it holds the last \<open>cap\<close> entries.
\<close>

locale capped_log =
  fixes cap :: nat
    and entries :: "'s \<Rightarrow> 'e list"
    and push :: "'s \<Rightarrow> 'e \<Rightarrow> 's"
  assumes entries_push: "entries (push s e) = push_capped cap (entries s) e"
begin

lemma length_push: "length (entries s) \<le> cap \<Longrightarrow> length (entries (push s e)) \<le> cap"
  by (auto simp: entries_push push_capped_def Let_def)

lemma length_pushes:
  "length (entries s) \<le> cap \<Longrightarrow> length (entries (foldl push s es)) \<le> cap"
  by (induction es arbitrary: s) (auto intro: length_push)

lemma entries_pushes:
  "length (entries s) \<le> cap \<Longrightarrow>
    entries (foldl push s es)
      = drop (length (entries s) + length es - cap) (entries s @ es)"
proof (induction es arbitrary: s)
  case Nil
  then show ?case by simp
next
  case (Cons e es)
  have IH: "entries (foldl push (push s e) es)
      = drop (length (entries (push s e)) + length es - cap) (entries (push s e) @ es)"
    using Cons.prems by (intro Cons.IH length_push)
  show ?case
  proof (cases "length (entries s) < cap")
    case True
    then have "entries (push s e) = entries s @ [e]"
      by (simp add: entries_push push_capped_def)
    with IH show ?thesis by simp
  next
    case False
    with Cons.prems have full: "length (entries s) = cap" by simp
    then have "entries (push s e) = tl (entries s @ [e])"
      by (simp add: entries_push push_capped_def)
    with IH full show ?thesis
      by (cases "entries s") (auto simp: drop_Suc)
  qed
qed

end

interpretation capped_list: capped_log cap "\<lambda>es. es" "push_capped cap" for cap
  by unfold_locales simp

lemma last_push_capped: "0 < cap \<Longrightarrow> last (push_capped cap es e) = e"
  by (cases es) (auto simp: push_capped_def Let_def)

end
