(* ===== verification/ConnectorCore.thy ===== *)
theory ConnectorCore
  imports Prelude
begin

text \<open>
  \<open>src/connectors/core/types.ts\<close> and \<open>src/connectors/core/base-connector.ts\<close>: the data the
  protocol connectors exchange with the rest of the program, and the lifecycle that the
  abstract class \<open>BaseConnector\<close> implements once for all protocols.

  Managed connections are mutable objects that the table \<open>connections\<close>, timers, handshakes
  and reads in flight all refer to, so they live in an explicit heap and everything else
  holds addresses. A removed connection leaves the table, not the heap: a callback that was
  created before still reaches it. The event loop is explicit too: the active intervals and
  timeouts, the handshakes and the reads in flight are lists, and an event of the
  environment takes one entry.

  The abstract methods of the class are the fields of a record \<open>vtable\<close>; the theories of
  the protocols fill it in. The step relation \<open>conn_step\<close> runs a connector with its
  environment: API calls in any order, handshakes and reads that end well or badly, timers
  that fire.

  A method that throws returns \<open>Some message\<close> with the state it left behind; the callback
  registered with \<open>onValueUpdate\<close> and the methods of a client library are taken not to
  throw. Dates and their ISO strings are both milliseconds.
\<close>

section \<open>Data\<close>

datatype conn_state = Connected | Disconnected | ConnError
datatype quality = Good | Bad
datatype level = LInfo | LWarn | LError | LDebug

record connection_config =
  cfg_id :: string
  cfg_type :: string
  cfg_name :: string
  cfg_params :: jsval
  cfg_pollingIntervalMs :: int
  cfg_reconnectIntervalMs :: int
  cfg_enabled :: bool
  cfg_createdAt :: string

record mapping =
  map_id :: string
  map_connectionId :: string
  map_nodeId :: "string option"
  map_deviceAddress :: string
  map_description :: "string option"
  map_createdAt :: string

record value_update =
  upd_nodeId :: string
  upd_value :: jsval
  upd_quality :: quality
  upd_timestamp :: int

record connection_status =
  cs_connectionId :: string
  cs_state :: conn_state
  cs_lastPollAt :: "int option"
  cs_errorMessage :: "string option"

record current_value =
  cv_nodeId :: "string option"
  cv_deviceAddress :: string
  cv_connectionId :: string
  cv_value :: jsval
  cv_quality :: quality
  cv_timestamp :: int

text \<open>What a client library hands to an error callback: a string or an object with a message.\<close>

datatype js_error = ErrStr string | ErrObj "string option"

text \<open>
  \<open>typeof err === 'string' ? err : err?.message || 'Connection failed'\<close>
\<close>

fun error_message :: "js_error \<Rightarrow> string" where
  "error_message (ErrStr s) = s"
| "error_message (ErrObj m) =
     (case m of Some s \<Rightarrow> if s = [] then ''Connection failed'' else s
      | None \<Rightarrow> ''Connection failed'')"

text \<open>
  A log message. The values that a template string renders are kept beside the template, and
  the summary of a poll keeps the addresses and values it lists.
\<close>

datatype log_text =
    Msg string
  | MsgWith string "jsval list"
  | ReadSummary string "(string \<times> jsval) list"

record log_line =
  ll_level :: level
  ll_source :: string
  ll_text :: log_text

record own_log_entry =
  ol_timestamp :: int
  ol_level :: level
  ol_connectionName :: string
  ol_text :: log_text

text \<open>
  \<open>BaseManagedConnection\<close>; the fields a protocol adds are the component \<open>m_proto\<close>. Clients
  and timers are handles.
\<close>

type_synonym addr = nat
type_synonym handle = nat

record 'p managed =
  m_config :: connection_config
  m_proto :: 'p
  m_client :: "handle option"
  m_state :: conn_state
  m_lastPollAt :: "int option"
  m_errorMessage :: "string option"
  m_pollingTimer :: "handle option"
  m_reconnectTimer :: "handle option"
  m_mappings :: "(string, mapping) jmap"
  m_connecting :: bool

text \<open>The calls the connectors make on a client of a protocol library.\<close>

datatype client_op =
    AddItems "string list"
  | RemoveItems string
  | SetUnit jsval
  | CloseClient
  | ReadRequest

text \<open>
  A read in flight: all items of the poll list (\<open>nodes7\<close>, \<open>nodepccc\<close>), a batch of tags with
  the mappings they were requested for, or one register of a poll that goes on with the
  mappings not yet visited.
\<close>

datatype pending_read =
    PendAll addr
  | PendTags addr "mapping list"
  | PendOne addr mapping "string list" "value_update list"

fun pend_addr :: "pending_read \<Rightarrow> addr" where
  "pend_addr (PendAll a) = a"
| "pend_addr (PendTags a _) = a"
| "pend_addr (PendOne a _ _ _) = a"

text \<open>
  The kinds of failure the \<open>ethernet-ip\<close> library distinguishes by class; the other
  connectors do not look at it.
\<close>

datatype error_class = ConnectionErr | SessionErr | TimeoutErr | CipErr | OtherErr

record item =
  item_value :: jsval
  item_ok :: bool

text \<open>A tag of \<open>ethernet-ip\<close> reads as a \<open>bigint\<close>, a \<open>Buffer\<close> or a plain value.\<close>

datatype tag_value = TagBigInt int | TagBuffer "nat list" | TagPlain jsval

datatype read_result =
    ReadFailed error_class js_error
  | ReadValues "(string \<times> jsval) list"
  | ReadTagValues "tag_value list"
  | ReadItems bool "(string \<times> item) list"
  | ReadRegisters "jsval list"

text \<open>The connector and its event loop.\<close>

record 'p connector =
  c_type :: string
  heap :: "addr \<Rightarrow> 'p managed"
  next_addr :: addr
  next_handle :: handle
  connections :: "(string, addr) jmap"
  running :: bool
  callback_set :: bool
  currentValues :: "(string, current_value) jmap"
  own_log :: "own_log_entry list option"
  clock :: int
  intervals :: "(handle \<times> addr) list"
  timeouts :: "(handle \<times> addr) list"
  handshakes :: "(addr \<times> handle) list"
  reads :: "pending_read list"
  delivered :: "value_update list list"
  sys_log :: "log_line list"
  client_ops :: "(handle \<times> client_op) list"

type_synonym 'p call_result = "string option \<times> 'p connector"

section \<open>Small steps on the state\<close>

definition modify :: "addr \<Rightarrow> ('p managed \<Rightarrow> 'p managed) \<Rightarrow> 'p connector \<Rightarrow> 'p connector" where
  "modify a f s = s\<lparr>heap := (heap s)(a := f (heap s a))\<rparr>"

definition getLogPrefix :: "string \<Rightarrow> string" where
  "getLogPrefix t =
     (if t = ''s7'' then ''S7''
      else if t = ''modbus-tcp'' then ''Modbus''
      else if t = ''ethernet-ip'' then ''EthernetIP''
      else if t = ''pccc'' then ''PCCC''
      else t)"

definition MAX_LOG_ENTRIES :: nat where
  "MAX_LOG_ENTRIES = 1000"

text \<open>
  \<open>log\<close>: a connector that overrides it (\<open>own_log = Some _\<close>) also keeps the entry in its own
  capped buffer.
\<close>

definition push_own :: "own_log_entry list option \<Rightarrow> own_log_entry \<Rightarrow> own_log_entry list option" where
  "push_own l e = map_option (\<lambda>es. push_capped MAX_LOG_ENTRIES es e) l"

definition log_text_at :: "level \<Rightarrow> string \<Rightarrow> log_text \<Rightarrow> 'p connector \<Rightarrow> 'p connector" where
  "log_text_at lv name txt s = s\<lparr>
     own_log := push_own (own_log s)
       \<lparr>ol_timestamp = clock s, ol_level = lv, ol_connectionName = name, ol_text = txt\<rparr>,
     sys_log := sys_log s
       @ [\<lparr>ll_level = lv, ll_source = getLogPrefix (c_type s) @ '':'' @ name, ll_text = txt\<rparr>]\<rparr>"

abbreviation log_at :: "level \<Rightarrow> string \<Rightarrow> string \<Rightarrow> 'p connector \<Rightarrow> 'p connector" where
  "log_at lv name msg \<equiv> log_text_at lv name (Msg msg)"

definition client_call :: "handle \<Rightarrow> client_op \<Rightarrow> 'p connector \<Rightarrow> 'p connector" where
  "client_call c p s = s\<lparr>client_ops := client_ops s @ [(c, p)]\<rparr>"

definition cacheValue :: "string \<Rightarrow> current_value \<Rightarrow> 'p connector \<Rightarrow> 'p connector" where
  "cacheValue i v s = s\<lparr>currentValues := jset (currentValues s) i v\<rparr>"

definition emitValueUpdates :: "value_update list \<Rightarrow> 'p connector \<Rightarrow> 'p connector" where
  "emitValueUpdates us s =
     (if callback_set s \<and> us \<noteq> [] then s\<lparr>delivered := delivered s @ [us]\<rparr> else s)"

section \<open>Timers\<close>

definition stopPolling :: "addr \<Rightarrow> 'p connector \<Rightarrow> 'p connector" where
  "stopPolling a s =
     (case m_pollingTimer (heap s a) of
        None \<Rightarrow> s
      | Some t \<Rightarrow> modify a (\<lambda>m. m\<lparr>m_pollingTimer := None\<rparr>)
                   (s\<lparr>intervals := filter (\<lambda>p. fst p \<noteq> t) (intervals s)\<rparr>))"

text \<open>\<open>managed.pollingTimer = setInterval(...)\<close>\<close>

definition setPolling :: "addr \<Rightarrow> 'p connector \<Rightarrow> 'p connector" where
  "setPolling a s =
     (let t = next_handle s in
      modify a (\<lambda>m. m\<lparr>m_pollingTimer := Some t\<rparr>)
        (s\<lparr>intervals := intervals s @ [(t, a)], next_handle := Suc t\<rparr>))"

definition clearReconnect :: "addr \<Rightarrow> 'p connector \<Rightarrow> 'p connector" where
  "clearReconnect a s =
     (case m_reconnectTimer (heap s a) of
        None \<Rightarrow> s
      | Some t \<Rightarrow> modify a (\<lambda>m. m\<lparr>m_reconnectTimer := None\<rparr>)
                   (s\<lparr>timeouts := filter (\<lambda>p. fst p \<noteq> t) (timeouts s)\<rparr>))"

definition setReconnect :: "addr \<Rightarrow> 'p connector \<Rightarrow> 'p connector" where
  "setReconnect a s =
     (let t = next_handle s in
      modify a (\<lambda>m. m\<lparr>m_reconnectTimer := Some t\<rparr>)
        (s\<lparr>timeouts := timeouts s @ [(t, a)], next_handle := Suc t\<rparr>))"

definition scheduleReconnect :: "addr \<Rightarrow> 'p connector \<Rightarrow> 'p connector" where
  "scheduleReconnect a s =
     (let cfg = m_config (heap s a);
          s1 = clearReconnect a s;
          s2 = log_at LWarn (cfg_name cfg)
                 (''Reconnecting in '' @ show_int (cfg_reconnectIntervalMs cfg) @ ''ms...'') s1
      in setReconnect a s2)"

section \<open>Quality updates and errors\<close>

text \<open>The first loop of \<open>emitQualityUpdate\<close>: every mapping's cached value.\<close>

definition quality_step ::
  "string \<Rightarrow> quality \<Rightarrow> int \<Rightarrow> (string, current_value) jmap \<Rightarrow> mapping \<Rightarrow> (string, current_value) jmap"
where
  "quality_step conn_id q t cvs m =
     (case jget cvs (map_id m) of
        Some cv \<Rightarrow> jset cvs (map_id m) (cv\<lparr>cv_quality := q, cv_timestamp := t\<rparr>)
      | None \<Rightarrow>
          if q = Bad then
            jset cvs (map_id m)
              \<lparr>cv_nodeId = map_nodeId m, cv_deviceAddress = map_deviceAddress m,
               cv_connectionId = conn_id, cv_value = JUndefined, cv_quality = Bad,
               cv_timestamp = t\<rparr>
          else cvs)"

definition quality_updates :: "quality \<Rightarrow> int \<Rightarrow> mapping list \<Rightarrow> value_update list" where
  "quality_updates q t ms =
     map (\<lambda>m. \<lparr>upd_nodeId = the (map_nodeId m), upd_value = JUndefined, upd_quality = q,
               upd_timestamp = t\<rparr>)
       (filter (\<lambda>m. truthy_str (map_nodeId m)) ms)"

definition emitQualityUpdate :: "addr \<Rightarrow> quality \<Rightarrow> 'p connector \<Rightarrow> 'p connector" where
  "emitQualityUpdate a q s =
     (let m = heap s a;
          ms = jvalues (m_mappings m);
          s1 = s\<lparr>currentValues :=
                 foldl (quality_step (cfg_id (m_config m)) q (clock s)) (currentValues s) ms\<rparr>
      in if \<not> callback_set s1 then s1
         else if ms = [] then s1
         else (let us = quality_updates q (clock s) ms
               in if us \<noteq> [] then s1\<lparr>delivered := delivered s1 @ [us]\<rparr> else s1))"

definition handleConnectionError :: "addr \<Rightarrow> js_error \<Rightarrow> 'p connector \<Rightarrow> 'p connector" where
  "handleConnectionError a err s =
     (let wasConnected = (m_state (heap s a) = Connected);
          s1 = modify a (\<lambda>m. m\<lparr>m_state := (if wasConnected then Disconnected else ConnError),
                               m_errorMessage := Some (error_message err)\<rparr>) s;
          s2 = log_at LError (cfg_name (m_config (heap s1 a))) (error_message err) s1;
          s3 = stopPolling a s2;
          s4 = emitQualityUpdate a Bad s3
      in if running s4 then scheduleReconnect a s4 else s4)"

section \<open>The abstract methods\<close>

record 'p vtable =
  vt_extractParams :: "connection_config \<Rightarrow> string + 'p"
  vt_applyParams :: "'p \<Rightarrow> 'p \<Rightarrow> 'p"
  vt_initiate :: "addr \<Rightarrow> 'p connector \<Rightarrow> 'p connector"
  vt_closeClient :: "addr \<Rightarrow> 'p connector \<Rightarrow> 'p connector"
  vt_addMapping :: "mapping \<Rightarrow> 'p connector \<Rightarrow> 'p call_result"
  vt_removeMapping :: "string \<Rightarrow> 'p connector \<Rightarrow> 'p call_result"
  vt_onConnect :: "addr \<Rightarrow> handle \<Rightarrow> js_error option \<Rightarrow> 'p connector \<Rightarrow> 'p connector"
  vt_poll :: "addr \<Rightarrow> 'p connector \<Rightarrow> 'p connector"
  vt_onRead :: "pending_read \<Rightarrow> read_result \<Rightarrow> 'p connector \<Rightarrow> 'p connector"

text \<open>The object every \<open>createManagedConnection\<close> returns, given the protocol's own fields.\<close>

definition new_managed :: "connection_config \<Rightarrow> 'p \<Rightarrow> 'p managed" where
  "new_managed cfg p =
     \<lparr>m_config = cfg, m_proto = p, m_client = None, m_state = Disconnected,
      m_lastPollAt = None, m_errorMessage = None, m_pollingTimer = None,
      m_reconnectTimer = None, m_mappings = [], m_connecting = False\<rparr>"

section \<open>Operations of the base class\<close>

definition disconnectAndCleanup :: "'p vtable \<Rightarrow> addr \<Rightarrow> 'p connector \<Rightarrow> 'p connector" where
  "disconnectAndCleanup vt a s =
     (let s1 = stopPolling a s;
          s2 = clearReconnect a s1;
          s3 = vt_closeClient vt a s2
      in modify a (\<lambda>m. m\<lparr>m_client := None, m_state := Disconnected, m_connecting := False,
                          m_errorMessage := None\<rparr>) s3)"

definition onValueUpdate :: "'p connector \<Rightarrow> 'p connector" where
  "onValueUpdate s = s\<lparr>callback_set := True\<rparr>"

definition addConnection :: "'p vtable \<Rightarrow> connection_config \<Rightarrow> 'p connector \<Rightarrow> 'p call_result" where
  "addConnection vt cfg s =
     (if jhas (connections s) (cfg_id cfg) then
        (Some (''Connection with id '' @ quoted (cfg_id cfg) @ '' already exists''), s)
      else
        (case vt_extractParams vt cfg of
           Inl e \<Rightarrow> (Some e, s)
         | Inr p \<Rightarrow>
             (let a = next_addr s;
                  s1 = s\<lparr>heap := (heap s)(a := new_managed cfg p), next_addr := Suc a,
                         connections := jset (connections s) (cfg_id cfg) a\<rparr>
              in (None, if running s1 \<and> cfg_enabled cfg then vt_initiate vt a s1 else s1))))"

definition not_found :: "string \<Rightarrow> string \<Rightarrow> string" where
  "not_found what i = what @ '' with id '' @ quoted i @ '' not found''"

definition removeConnection :: "'p vtable \<Rightarrow> string \<Rightarrow> 'p connector \<Rightarrow> 'p call_result" where
  "removeConnection vt i s =
     (case jget (connections s) i of
        None \<Rightarrow> (Some (not_found ''Connection'' i), s)
      | Some a \<Rightarrow>
          (let s1 = disconnectAndCleanup vt a s
           in (None, s1\<lparr>connections := jdel (connections s1) i\<rparr>)))"

definition updateConnection ::
  "'p vtable \<Rightarrow> connection_config \<Rightarrow> 'p connector \<Rightarrow> 'p call_result" where
  "updateConnection vt cfg s =
     (case jget (connections s) (cfg_id cfg) of
        None \<Rightarrow> addConnection vt cfg s
      | Some a \<Rightarrow>
          (let s1 = disconnectAndCleanup vt a s
           in (case vt_extractParams vt cfg of
                 Inl e \<Rightarrow> (Some e, s1)
               | Inr p \<Rightarrow>
                   (let s2 = modify a (\<lambda>m. m\<lparr>m_config := cfg,
                                             m_proto := vt_applyParams vt (m_proto m) p\<rparr>) s1
                    in (None, if running s2 \<and> cfg_enabled cfg then vt_initiate vt a s2 else s2)))))"

text \<open>The base versions of the two mapping methods.\<close>

definition put_mapping :: "addr \<Rightarrow> mapping \<Rightarrow> 'p connector \<Rightarrow> 'p connector" where
  "put_mapping a mp s =
     modify a (\<lambda>m. m\<lparr>m_mappings := jset (m_mappings m) (map_id mp) mp\<rparr>) s"

definition addMapping :: "mapping \<Rightarrow> 'p connector \<Rightarrow> 'p call_result" where
  "addMapping mp s =
     (case jget (connections s) (map_connectionId mp) of
        None \<Rightarrow> (Some (not_found ''Connection'' (map_connectionId mp)), s)
      | Some a \<Rightarrow> (None, put_mapping a mp s))"

text \<open>The first connection, in table order, that has the mapping.\<close>

definition find_mapping :: "'p connector \<Rightarrow> string \<Rightarrow> addr option" where
  "find_mapping s i = find (\<lambda>a. jhas (m_mappings (heap s a)) i) (jvalues (connections s))"

definition drop_mapping :: "addr \<Rightarrow> string \<Rightarrow> 'p connector \<Rightarrow> 'p connector" where
  "drop_mapping a i s = modify a (\<lambda>m. m\<lparr>m_mappings := jdel (m_mappings m) i\<rparr>) s"

definition uncache :: "string \<Rightarrow> 'p connector \<Rightarrow> 'p connector" where
  "uncache i s = s\<lparr>currentValues := jdel (currentValues s) i\<rparr>"

definition removeMapping :: "string \<Rightarrow> 'p connector \<Rightarrow> 'p call_result" where
  "removeMapping i s =
     (case find_mapping s i of
        None \<Rightarrow> (Some (not_found ''Mapping'' i), s)
      | Some a \<Rightarrow> (None, uncache i (drop_mapping a i s)))"

definition getCurrentValues :: "'p connector \<Rightarrow> current_value list" where
  "getCurrentValues s = jvalues (currentValues s)"

definition status_of :: "'p managed \<Rightarrow> connection_status" where
  "status_of m =
     \<lparr>cs_connectionId = cfg_id (m_config m), cs_state = m_state m,
      cs_lastPollAt = m_lastPollAt m,
      cs_errorMessage = (if truthy_str (m_errorMessage m) then m_errorMessage m else None)\<rparr>"

definition getStatus :: "'p connector \<Rightarrow> connection_status list" where
  "getStatus s = map (\<lambda>a. status_of (heap s a)) (jvalues (connections s))"

definition start_one :: "'p vtable \<Rightarrow> 'p connector \<Rightarrow> addr \<Rightarrow> 'p connector" where
  "start_one vt s a = (if cfg_enabled (m_config (heap s a)) then vt_initiate vt a s else s)"

definition start :: "'p vtable \<Rightarrow> 'p connector \<Rightarrow> 'p connector" where
  "start vt s =
     (if running s then s
      else foldl (start_one vt) (s\<lparr>running := True\<rparr>) (jvalues (connections s)))"

definition stop :: "'p vtable \<Rightarrow> 'p connector \<Rightarrow> 'p connector" where
  "stop vt s =
     (if \<not> running s then s
      else foldl (\<lambda>s a. disconnectAndCleanup vt a s) (s\<lparr>running := False\<rparr>)
             (jvalues (connections s)))"

text \<open>The callback of the timer that \<open>scheduleReconnect\<close> sets.\<close>

definition fire_reconnect :: "'p vtable \<Rightarrow> handle \<Rightarrow> addr \<Rightarrow> 'p connector \<Rightarrow> 'p connector" where
  "fire_reconnect vt t a s =
     (let s0 = s\<lparr>timeouts := filter (\<lambda>p. fst p \<noteq> t) (timeouts s)\<rparr>;
          s1 = modify a (\<lambda>m. m\<lparr>m_reconnectTimer := None\<rparr>) s0
      in if \<not> running s1 then s1
         else (let s2 = vt_closeClient vt a s1;
                   s3 = modify a (\<lambda>m. m\<lparr>m_client := None, m_state := Disconnected\<rparr>) s2
               in vt_initiate vt a s3))"

section \<open>Readings\<close>

text \<open>What the polls do with a value read for a mapping.\<close>

definition reading :: "addr \<Rightarrow> mapping \<Rightarrow> jsval \<Rightarrow> quality \<Rightarrow> 'p connector \<Rightarrow> current_value" where
  "reading a mp v q s =
     \<lparr>cv_nodeId = map_nodeId mp, cv_deviceAddress = map_deviceAddress mp,
      cv_connectionId = cfg_id (m_config (heap s a)), cv_value = v, cv_quality = q,
      cv_timestamp = clock s\<rparr>"

definition reading_update :: "mapping \<Rightarrow> jsval \<Rightarrow> quality \<Rightarrow> int \<Rightarrow> value_update list" where
  "reading_update mp v q t =
     (if truthy_str (map_nodeId mp) then
        [\<lparr>upd_nodeId = the (map_nodeId mp), upd_value = v, upd_quality = q, upd_timestamp = t\<rparr>]
      else [])"

fun cache_readings ::
  "addr \<Rightarrow> (mapping \<times> jsval \<times> quality) list \<Rightarrow> 'p connector \<Rightarrow> 'p connector" where
  "cache_readings a [] s = s"
| "cache_readings a ((mp, v, q) # rs) s =
     cache_readings a rs (cacheValue (map_id mp) (reading a mp v q s) s)"

definition readings_updates :: "int \<Rightarrow> (mapping \<times> jsval \<times> quality) list \<Rightarrow> value_update list" where
  "readings_updates t rs = concat (map (\<lambda>(mp, v, q). reading_update mp v q t) rs)"

text \<open>The summary a poll logs: each update under the address of the first mapping with its node.\<close>

definition read_summary :: "string \<Rightarrow> mapping list \<Rightarrow> value_update list \<Rightarrow> log_text" where
  "read_summary unit ms us =
     ReadSummary unit
       (map (\<lambda>u. (case find (\<lambda>m. map_nodeId m = Some (upd_nodeId u)) ms of
                    Some m \<Rightarrow> map_deviceAddress m | None \<Rightarrow> upd_nodeId u,
                  upd_value u)) us)"

section \<open>Steps the four protocols share\<close>

text \<open>A new client of the protocol library, and the handshake it starts.\<close>

definition open_client :: "addr \<Rightarrow> 'p connector \<Rightarrow> 'p connector" where
  "open_client a s =
     (let c = next_handle s;
          s1 = modify a (\<lambda>m. m\<lparr>m_connecting := True, m_client := Some c\<rparr>)
                 (s\<lparr>next_handle := Suc c\<rparr>)
      in s1\<lparr>handshakes := handshakes s1 @ [(a, c)]\<rparr>)"

definition mark_connected :: "addr \<Rightarrow> 'p connector \<Rightarrow> 'p connector" where
  "mark_connected a s = modify a (\<lambda>m. m\<lparr>m_state := Connected, m_errorMessage := None\<rparr>) s"

definition request_read :: "handle \<Rightarrow> pending_read \<Rightarrow> 'p connector \<Rightarrow> 'p connector" where
  "request_read c p s = client_call c ReadRequest (s\<lparr>reads := reads s @ [p]\<rparr>)"

text \<open>\<open>startPolling\<close>: one poll now, then one per interval.\<close>

definition start_polling_with ::
  "(addr \<Rightarrow> 'p connector \<Rightarrow> 'p connector) \<Rightarrow> addr \<Rightarrow> 'p connector \<Rightarrow> 'p connector" where
  "start_polling_with poll a s =
     (if m_pollingTimer (heap s a) \<noteq> None then s else setPolling a (poll a s))"

text \<open>Reading the host of parameters that are \<open>null\<close> throws; of anything else but an object it is undefined.\<close>

definition null_params :: string where
  "null_params = ''Cannot read properties of null (reading '' @ quoted ''host'' @ '')''"

definition host_required :: "string \<Rightarrow> connection_config \<Rightarrow> string" where
  "host_required what cfg =
     what @ '' connection '' @ quoted (cfg_name cfg) @ '' requires a '' @ quoted ''host''
       @ '' parameter''"

section \<open>Runs\<close>

datatype api_call =
    AddConnection connection_config
  | RemoveConnection string
  | UpdateConnection connection_config
  | AddMapping mapping
  | RemoveMapping string
  | OnValueUpdate
  | Start
  | Stop

fun exec_api :: "'p vtable \<Rightarrow> api_call \<Rightarrow> 'p connector \<Rightarrow> 'p call_result" where
  "exec_api vt (AddConnection cfg) s = addConnection vt cfg s"
| "exec_api vt (RemoveConnection i) s = removeConnection vt i s"
| "exec_api vt (UpdateConnection cfg) s = updateConnection vt cfg s"
| "exec_api vt (AddMapping mp) s = vt_addMapping vt mp s"
| "exec_api vt (RemoveMapping i) s = vt_removeMapping vt i s"
| "exec_api vt OnValueUpdate s = (None, onValueUpdate s)"
| "exec_api vt Start s = (None, start vt s)"
| "exec_api vt Stop s = (None, stop vt s)"

text \<open>An event of the environment, and what the connector does on it.\<close>

datatype event =
    ApiCall api_call
  | HandshakeDone addr handle "js_error option"
  | ReconnectTimer handle addr
  | PollTimer handle addr
  | ReadDone pending_read read_result
  | ClockTick nat

text \<open>Can the event happen?\<close>

fun event_enabled :: "'p connector \<Rightarrow> event \<Rightarrow> bool" where
  "event_enabled s (ApiCall c) = True"
| "event_enabled s (HandshakeDone a c r) = List.member (handshakes s) (a, c)"
| "event_enabled s (ReconnectTimer t a) = List.member (timeouts s) (t, a)"
| "event_enabled s (PollTimer t a) = List.member (intervals s) (t, a)"
| "event_enabled s (ReadDone r x) = List.member (reads s) r"
| "event_enabled s (ClockTick n) = True"

fun apply_event :: "'p vtable \<Rightarrow> event \<Rightarrow> 'p connector \<Rightarrow> 'p connector" where
  "apply_event vt (ApiCall c) s = snd (exec_api vt c s)"
| "apply_event vt (HandshakeDone a c r) s =
     vt_onConnect vt a c r (s\<lparr>handshakes := remove1 (a, c) (handshakes s)\<rparr>)"
| "apply_event vt (ReconnectTimer t a) s = fire_reconnect vt t a s"
| "apply_event vt (PollTimer t a) s = vt_poll vt a s"
| "apply_event vt (ReadDone r x) s = vt_onRead vt r x (s\<lparr>reads := remove1 r (reads s)\<rparr>)"
| "apply_event vt (ClockTick n) s = s\<lparr>clock := clock s + int n\<rparr>"

inductive conn_step :: "'p vtable \<Rightarrow> 'p connector \<Rightarrow> event \<Rightarrow> 'p connector \<Rightarrow> bool"
  for vt where
  step: "event_enabled s e \<Longrightarrow> conn_step vt s e (apply_event vt e s)"

text \<open>A freshly constructed connector of a type; \<open>logs\<close> says whether it keeps a log of its own.\<close>

definition new_connector :: "string \<Rightarrow> bool \<Rightarrow> 'p managed \<Rightarrow> 'p connector" where
  "new_connector ty logs blank =
     \<lparr>c_type = ty, heap = (\<lambda>_. blank), next_addr = 0, next_handle = 0, connections = [],
      running = False, callback_set = False, currentValues = [],
      own_log = (if logs then Some [] else None), clock = 0, intervals = [], timeouts = [],
      handshakes = [], reads = [], delivered = [], sys_log = [], client_ops = []\<rparr>"

text \<open>
  States reachable from a state by events that satisfy \<open>ok\<close> where they happen.
\<close>

inductive reach ::
  "'p vtable \<Rightarrow> ('p connector \<Rightarrow> event \<Rightarrow> bool) \<Rightarrow> 'p connector \<Rightarrow> 'p connector \<Rightarrow> bool"
  for vt ok s0 where
  init: "reach vt ok s0 s0"
| step: "reach vt ok s0 s \<Longrightarrow> conn_step vt s e s' \<Longrightarrow> ok s e \<Longrightarrow> reach vt ok s0 s'"

text \<open>
  Running a list of events; \<open>None\<close> if one of them cannot happen or is not \<open>ok\<close>.
\<close>

fun run ::
  "'p vtable \<Rightarrow> ('p connector \<Rightarrow> event \<Rightarrow> bool) \<Rightarrow> event list \<Rightarrow> 'p connector \<Rightarrow> 'p connector option"
where
  "run vt ok [] s = Some s"
| "run vt ok (e # es) s =
     (if event_enabled s e \<and> ok s e then run vt ok es (apply_event vt e s) else None)"

inductive_cases conn_stepE: "conn_step vt s e s'"
inductive_simps conn_step_iff: "conn_step vt s e s'"

lemma run_reach_from:
  "run vt ok es s = Some s' \<Longrightarrow> reach vt ok s0 s \<Longrightarrow> reach vt ok s0 s'"
proof (induction es arbitrary: s)
  case Nil
  then show ?case by simp
next
  case (Cons e es)
  then have en: "event_enabled s e" "ok s e" and r: "run vt ok es (apply_event vt e s) = Some s'"
    by (auto split: if_splits)
  from en(1) have "conn_step vt s e (apply_event vt e s)"
    by (rule conn_step.step)
  with Cons.prems(2) en(2) have "reach vt ok s0 (apply_event vt e s)"
    by (blast intro: reach.step)
  with r show ?case by (rule Cons.IH)
qed

lemmas run_reach = run_reach_from [OF _ reach.init]

lemma reach_mono:
  assumes "reach vt ok s0 s" and "\<And>s e. ok s e \<Longrightarrow> ok' s e"
  shows "reach vt ok' s0 s"
  using assms(1) by induction (auto intro: reach.intros assms(2))
end
