(* ===== verification/Lifecycle.thy ===== *)
theory Lifecycle
  imports ConnectorCore
begin

text \<open>
  The lifecycle invariant of a connector and the contract its abstract methods have to meet.

  \<open>linv\<close> says how the table, the cells, the timers and the event loop agree: the table has
  distinct keys and addresses, every interval and every timeout in the event loop is the one
  its managed connection refers to, a connected cell has a client and a polling timer, and
  the cells of a stopped connector's table are idle. \<open>progress\<close> says that an enabled
  connection of a running connector is connected, being connected, or due to be reconnected.

  The locale \<open>protocol\<close> fixes a \<open>vtable\<close> and assumes that each of its methods keeps \<open>linv\<close>;
  every operation of the base class and every run of the event loop then keeps it. The locale
  \<open>calm_protocol\<close> adds the laws for \<open>progress\<close>. The protocol theories interpret both.
\<close>

section \<open>Invariants\<close>

definition timers_at :: "(handle \<times> addr) list \<Rightarrow> addr \<Rightarrow> handle list" where
  "timers_at ts a = map fst (filter (\<lambda>p. snd p = a) ts)"

definition olist :: "'a option \<Rightarrow> 'a list" where
  "olist x = (case x of None \<Rightarrow> [] | Some y \<Rightarrow> [y])"

lemma olist_simps [simp]:
  "olist None = []" "olist (Some x) = [x]" "olist y = [] \<longleftrightarrow> y = None"
  by (auto simp: olist_def split: option.split)

lemma set_olist [simp]: "x \<in> set (olist y) \<longleftrightarrow> y = Some x"
  by (auto simp: olist_def split: option.split)

definition handles_ok :: "(handle \<times> addr) list \<Rightarrow> handle \<Rightarrow> bool" where
  "handles_ok ts n \<longleftrightarrow> distinct (map fst ts) \<and> (\<forall>p \<in> set ts. fst p < n)"

definition timers_ok :: "'p connector \<Rightarrow> bool" where
  "timers_ok s \<longleftrightarrow>
     handles_ok (intervals s) (next_handle s) \<and> handles_ok (timeouts s) (next_handle s) \<and>
     (\<forall>a. timers_at (intervals s) a = olist (m_pollingTimer (heap s a))) \<and>
     (\<forall>a. timers_at (timeouts s) a = olist (m_reconnectTimer (heap s a))) \<and>
     (\<forall>a \<ge> next_addr s. m_pollingTimer (heap s a) = None \<and> m_reconnectTimer (heap s a) = None)"

definition mapped :: "'p connector \<Rightarrow> addr set" where
  "mapped s = set (jvalues (connections s))"

definition table_ok :: "'p connector \<Rightarrow> bool" where
  "table_ok s \<longleftrightarrow>
     jmap_wf (connections s) \<and> distinct (jvalues (connections s)) \<and>
     (\<forall>(i, a) \<in> set (connections s). a < next_addr s \<and> cfg_id (m_config (heap s a)) = i)"

definition pending_ok :: "'p connector \<Rightarrow> bool" where
  "pending_ok s \<longleftrightarrow>
     (\<forall>p \<in> set (handshakes s). fst p < next_addr s) \<and>
     (\<forall>r \<in> set (reads s). pend_addr r < next_addr s)"

definition idle_cell :: "'p managed \<Rightarrow> bool" where
  "idle_cell m \<longleftrightarrow>
     m_client m = None \<and> \<not> m_connecting m \<and> m_pollingTimer m = None \<and>
     m_reconnectTimer m = None \<and> m_state m \<noteq> Connected"

text \<open>A connected cell has a client, and (unless excepted) a polling timer.\<close>

definition cell_ok :: "bool \<Rightarrow> 'p managed \<Rightarrow> bool" where
  "cell_ok polled m \<longleftrightarrow>
     (m_state m = Connected \<longrightarrow> m_client m \<noteq> None \<and> (polled \<longrightarrow> m_pollingTimer m \<noteq> None))"

definition linv_but :: "addr set \<Rightarrow> 'p connector \<Rightarrow> bool" where
  "linv_but E s \<longleftrightarrow>
     table_ok s \<and> timers_ok s \<and> pending_ok s \<and>
     (\<forall>a < next_addr s. cell_ok (a \<notin> E) (heap s a)) \<and>
     (\<forall>a \<in> mapped s. \<not> running s \<longrightarrow> idle_cell (heap s a))"

abbreviation linv :: "'p connector \<Rightarrow> bool" where
  "linv s \<equiv> linv_but {} s"

text \<open>An address whose cell may hold a client or a timer.\<close>

definition active :: "addr \<Rightarrow> 'p connector \<Rightarrow> bool" where
  "active a s \<longleftrightarrow> running s \<or> a \<notin> mapped s"

section \<open>Output operations keep everything\<close>

text \<open>The part of the state the invariants read.\<close>

definition core where
  "core s = (heap s, next_addr s, next_handle s, connections s, running s, intervals s,
             timeouts s, handshakes s, reads s)"

named_theorems core_simps \<open>operations that only write outputs\<close>

lemma core_log_text_at [core_simps]: "core (log_text_at lv n t s) = core s"
  by (simp add: core_def log_text_at_def)

lemma core_client_call [core_simps]: "core (client_call c p s) = core s"
  by (simp add: core_def client_call_def)

lemma core_cacheValue [core_simps]: "core (cacheValue i v s) = core s"
  by (simp add: core_def cacheValue_def)

lemma core_uncache [core_simps]: "core (uncache i s) = core s"
  by (simp add: core_def uncache_def)

lemma core_emitValueUpdates [core_simps]: "core (emitValueUpdates us s) = core s"
  by (simp add: core_def emitValueUpdates_def)

lemma core_emitQualityUpdate [core_simps]: "core (emitQualityUpdate a q s) = core s"
  by (simp add: core_def emitQualityUpdate_def Let_def)

lemma core_onValueUpdate [core_simps]: "core (onValueUpdate s) = core s"
  by (simp add: core_def onValueUpdate_def)

lemma core_cache_readings [core_simps]: "core (cache_readings a rs s) = core s"
  by (induction a rs s rule: cache_readings.induct) (simp_all add: core_simps)

lemma core_clock [core_simps]: "core (s\<lparr>clock := t\<rparr>) = core s"
  by (simp add: core_def)

lemma coreD:
  assumes "core s = core t"
  shows "heap s = heap t" "next_addr s = next_addr t" "next_handle s = next_handle t"
    "connections s = connections t" "running s = running t" "intervals s = intervals t"
    "timeouts s = timeouts t" "handshakes s = handshakes t" "reads s = reads t"
  using assms by (simp_all add: core_def)

lemma linv_but_core: "core s = core t \<Longrightarrow> linv_but E s = linv_but E t"
  by (simp add: core_def linv_but_def table_ok_def timers_ok_def pending_ok_def mapped_def)

lemma active_core: "core s = core t \<Longrightarrow> active a s = active a t"
  by (simp add: core_def active_def mapped_def)

lemmas output_heap [simp] = core_simps [THEN coreD(1)]
lemmas output_next [simp] = core_simps [THEN coreD(2)] core_simps [THEN coreD(3)]
lemmas output_connections [simp] = core_simps [THEN coreD(4)]
lemmas output_running [simp] = core_simps [THEN coreD(5)]
lemmas output_timers [simp] = core_simps [THEN coreD(6)] core_simps [THEN coreD(7)]
lemmas output_pending [simp] = core_simps [THEN coreD(8)] core_simps [THEN coreD(9)]
lemmas output_linv [simp] = core_simps [THEN linv_but_core]
lemmas output_active [simp] = core_simps [THEN active_core]

section \<open>Steps on one cell\<close>

lemma modify_simps [simp]:
  "heap (modify a f s) = (heap s)(a := f (heap s a))"
  "next_addr (modify a f s) = next_addr s" "next_handle (modify a f s) = next_handle s"
  "connections (modify a f s) = connections s" "running (modify a f s) = running s"
  "intervals (modify a f s) = intervals s" "timeouts (modify a f s) = timeouts s"
  "handshakes (modify a f s) = handshakes s" "reads (modify a f s) = reads s"
  "clock (modify a f s) = clock s" "currentValues (modify a f s) = currentValues s"
  "callback_set (modify a f s) = callback_set s" "delivered (modify a f s) = delivered s"
  by (simp_all add: modify_def)

lemma mapped_modify [simp]: "mapped (modify a f s) = mapped s"
  by (simp add: mapped_def)

lemma active_modify [simp]: "active b (modify a f s) = active b s"
  by (simp add: active_def)

text \<open>Does \<open>f\<close> leave the identity and the timers of the cell alone?\<close>

definition keeps_timers :: "('p managed \<Rightarrow> 'p managed) \<Rightarrow> 'p managed \<Rightarrow> bool" where
  "keeps_timers f m \<longleftrightarrow>
     cfg_id (m_config (f m)) = cfg_id (m_config m) \<and>
     m_pollingTimer (f m) = m_pollingTimer m \<and> m_reconnectTimer (f m) = m_reconnectTimer m"

lemma linv_modify:
  assumes "linv_but E s" and "keeps_timers f (heap s a)"
    and "cell_ok (a \<notin> E) (f (heap s a))"
    and "active a s \<or> idle_cell (f (heap s a))"
  shows "linv_but E (modify a f s)"
  using assms
  by (auto simp: linv_but_def table_ok_def timers_ok_def pending_ok_def keeps_timers_def
      active_def mapped_def)

lemma linv_mono: "linv_but E s \<Longrightarrow> E \<subseteq> F \<Longrightarrow> linv_but F s"
  by (auto simp: linv_but_def cell_ok_def)

lemma linv_table: "linv_but E s \<Longrightarrow> a \<in> mapped s \<Longrightarrow> a < next_addr s"
  by (auto simp: linv_but_def table_ok_def mapped_def)

lemma linv_idle: "linv_but E s \<Longrightarrow> \<not> active a s \<Longrightarrow> idle_cell (heap s a)"
  by (auto simp: linv_but_def active_def)

lemma linv_client_active: "linv_but E s \<Longrightarrow> m_client (heap s a) \<noteq> None \<Longrightarrow> active a s"
  using linv_idle by (fastforce simp: idle_cell_def)

lemma linv_lookup:
  "linv_but E s \<Longrightarrow> jget (connections s) i = Some a \<Longrightarrow>
    a \<in> mapped s \<and> a < next_addr s \<and> cfg_id (m_config (heap s a)) = i"
  by (force simp: linv_but_def table_ok_def mapped_def dest!: map_of_SomeD)

lemma linv_cell: "linv_but E s \<Longrightarrow> a < next_addr s \<Longrightarrow> cell_ok (a \<notin> E) (heap s a)"
  by (simp add: linv_but_def)

lemma linv_timer_addr:
  assumes "linv_but E s" and "m_pollingTimer (heap s a) \<noteq> None \<or> m_reconnectTimer (heap s a) \<noteq> None"
  shows "a < next_addr s"
proof (rule ccontr)
  assume "\<not> a < next_addr s"
  moreover have "\<forall>a \<ge> next_addr s. m_pollingTimer (heap s a) = None \<and> m_reconnectTimer (heap s a) = None"
    using assms(1) by (simp add: linv_but_def timers_ok_def)
  ultimately show False using assms(2) by auto
qed

lemma linv_pending:
  "linv_but E s \<Longrightarrow> (a, c) \<in> set (handshakes s) \<Longrightarrow> a < next_addr s"
  "linv_but E s \<Longrightarrow> p \<in> set (reads s) \<Longrightarrow> pend_addr p < next_addr s"
  by (force simp: linv_but_def pending_ok_def)+

section \<open>Timers\<close>

lemma timers_at_append [simp]:
  "timers_at (ts @ [(t, b)]) a = timers_at ts a @ (if b = a then [t] else [])"
  by (simp add: timers_at_def)

lemma in_timers_at: "t \<in> set (timers_at ts a) \<longleftrightarrow> (t, a) \<in> set ts"
  by (force simp: timers_at_def)

lemma timers_at_remove:
  assumes "handles_ok ts n" and "timers_at ts a = [t]"
  shows "timers_at (filter (\<lambda>p. fst p \<noteq> t) ts) b = (if b = a then [] else timers_at ts b)"
proof -
  from assms(2) have ta: "(t, a) \<in> set ts"
    by (simp flip: in_timers_at)
  have only: "snd p = a" if "p \<in> set ts" "fst p = t" for p
  proof -
    from that have "(t, snd p) \<in> set ts" by (metis prod.collapse)
    with ta assms(1) show ?thesis
      by (auto simp: handles_ok_def intro: eq_key_imp_eq_value)
  qed
  show ?thesis
  proof (cases "b = a")
    case True
    have "filter (\<lambda>p. snd p = a) (filter (\<lambda>p. fst p \<noteq> t) ts) = []"
    proof -
      have "fst p = t" if "p \<in> set ts" "snd p = a" for p
      proof -
        from that have "fst p \<in> set (timers_at ts a)"
          by (simp add: timers_at_def)
        with assms(2) show ?thesis by simp
      qed
      then show ?thesis by (auto simp: filter_empty_conv)
    qed
    with True show ?thesis by (simp add: timers_at_def)
  next
    case False
    have "filter (\<lambda>p. snd p = b) (filter (\<lambda>p. fst p \<noteq> t) ts) = filter (\<lambda>p. snd p = b) ts"
      using only False by (auto simp: filter_filter intro!: filter_cong)
    with False show ?thesis by (simp add: timers_at_def)
  qed
qed

lemma handles_ok_remove: "handles_ok ts n \<Longrightarrow> handles_ok (filter P ts) n"
  by (auto simp: handles_ok_def distinct_map_filter)

lemma handles_ok_add: "handles_ok ts n \<Longrightarrow> handles_ok (ts @ [(n, a)]) (Suc n)"
  by (auto simp: handles_ok_def)

lemma handles_ok_Suc: "handles_ok ts n \<Longrightarrow> handles_ok ts (Suc n)"
  by (auto simp: handles_ok_def less_Suc_eq)

lemma linv_stopPolling:
  assumes "linv_but E s" and "m_state (heap s a) \<noteq> Connected \<or> a \<in> E"
  shows "linv_but E (stopPolling a s)"
proof (cases "m_pollingTimer (heap s a)")
  case None
  with assms show ?thesis by (simp add: stopPolling_def)
next
  case (Some t)
  with assms(1) have ta: "timers_at (intervals s) a = [t]"
    by (simp add: linv_but_def timers_ok_def)
  have al: "active a s"
    using linv_idle [OF assms(1)] Some by (fastforce simp: idle_cell_def)
  show ?thesis
    using assms Some al
    by (auto simp: stopPolling_def linv_but_def table_ok_def timers_ok_def pending_ok_def
        handles_ok_remove timers_at_remove [OF _ ta] cell_ok_def active_def mapped_def)
qed

lemma linv_clearReconnect:
  assumes "linv_but E s"
  shows "linv_but E (clearReconnect a s)"
proof (cases "m_reconnectTimer (heap s a)")
  case None
  with assms show ?thesis by (simp add: clearReconnect_def)
next
  case (Some t)
  with assms have ta: "timers_at (timeouts s) a = [t]"
    by (simp add: linv_but_def timers_ok_def)
  have al: "active a s"
    using linv_idle [OF assms(1)] Some by (fastforce simp: idle_cell_def)
  show ?thesis
    using assms Some al
    by (auto simp: clearReconnect_def linv_but_def table_ok_def timers_ok_def pending_ok_def
        handles_ok_remove timers_at_remove [OF _ ta] cell_ok_def active_def mapped_def)
qed

lemma linv_setPolling:
  assumes "linv_but (insert a E) s" and "a < next_addr s" and "active a s"
    and "m_pollingTimer (heap s a) = None"
    and "m_client (heap s a) \<noteq> None \<or> m_state (heap s a) \<noteq> Connected"
  shows "linv_but E (setPolling a s)"
  using assms
  by (auto simp: setPolling_def Let_def linv_but_def table_ok_def timers_ok_def pending_ok_def
      handles_ok_add handles_ok_Suc cell_ok_def active_def mapped_def)

lemma linv_setReconnect:
  assumes "linv_but E s" and "a < next_addr s" and "active a s"
    and "m_reconnectTimer (heap s a) = None"
  shows "linv_but E (setReconnect a s)"
  using assms
  by (auto simp: setReconnect_def Let_def linv_but_def table_ok_def timers_ok_def pending_ok_def
      handles_ok_add handles_ok_Suc cell_ok_def active_def mapped_def)

lemma timer_ops_heap [simp]:
  "heap (stopPolling a s) = (heap s)(a := (heap s a)\<lparr>m_pollingTimer := None\<rparr>)"
  "heap (setPolling a s) = (heap s)(a := (heap s a)\<lparr>m_pollingTimer := Some (next_handle s)\<rparr>)"
  "heap (clearReconnect a s) = (heap s)(a := (heap s a)\<lparr>m_reconnectTimer := None\<rparr>)"
  "heap (setReconnect a s) = (heap s)(a := (heap s a)\<lparr>m_reconnectTimer := Some (next_handle s)\<rparr>)"
  by (auto simp: stopPolling_def setPolling_def clearReconnect_def setReconnect_def Let_def
      split: option.split)

lemma timer_ops_fields [simp]:
  "next_addr (stopPolling a s) = next_addr s" "connections (stopPolling a s) = connections s"
  "running (stopPolling a s) = running s" "next_addr (setPolling a s) = next_addr s"
  "connections (setPolling a s) = connections s" "running (setPolling a s) = running s"
  "next_addr (clearReconnect a s) = next_addr s"
  "connections (clearReconnect a s) = connections s"
  "running (clearReconnect a s) = running s" "next_addr (setReconnect a s) = next_addr s"
  "connections (setReconnect a s) = connections s" "running (setReconnect a s) = running s"
  "next_handle (clearReconnect a s) = next_handle s"
  "next_handle (stopPolling a s) = next_handle s"
  by (auto simp: stopPolling_def setPolling_def clearReconnect_def setReconnect_def Let_def
      split: option.split)

lemma active_cong: "running s' = running s \<Longrightarrow> connections s' = connections s \<Longrightarrow>
    active a s' = active a s"
  by (simp add: active_def mapped_def)

lemma timer_ops_active [simp]:
  "active b (stopPolling a s) = active b s" "active b (setPolling a s) = active b s"
  "active b (clearReconnect a s) = active b s" "active b (setReconnect a s) = active b s"
  by (rule active_cong; simp)+

lemma scheduleReconnect_simps [simp]:
  "heap (scheduleReconnect a s)
     = (heap s)(a := (heap s a)\<lparr>m_reconnectTimer := Some (next_handle s)\<rparr>)"
  "next_addr (scheduleReconnect a s) = next_addr s"
  "connections (scheduleReconnect a s) = connections s"
  "running (scheduleReconnect a s) = running s"
  by (auto simp: scheduleReconnect_def Let_def)

lemma linv_scheduleReconnect:
  assumes "linv_but E s" and "a < next_addr s" and "active a s"
  shows "linv_but E (scheduleReconnect a s)"
  using assms
  by (auto simp: scheduleReconnect_def Let_def intro!: linv_setReconnect linv_clearReconnect)

section \<open>Failing connections\<close>

text \<open>The new cell and the frame of \<open>handleConnectionError\<close>.\<close>

definition failed_cell :: "js_error \<Rightarrow> handle option \<Rightarrow> 'p managed \<Rightarrow> 'p managed" where
  "failed_cell err t m = m\<lparr>
     m_state := (if m_state m = Connected then Disconnected else ConnError),
     m_errorMessage := Some (error_message err), m_pollingTimer := None,
     m_reconnectTimer := t\<rparr>"

lemma handleConnectionError_simps [simp]:
  "heap (handleConnectionError a err s)
     = (heap s)(a := failed_cell err
         (if running s then Some (next_handle s) else m_reconnectTimer (heap s a)) (heap s a))"
  "next_addr (handleConnectionError a err s) = next_addr s"
  "connections (handleConnectionError a err s) = connections s"
  "running (handleConnectionError a err s) = running s"
  by (auto simp: handleConnectionError_def Let_def failed_cell_def)

lemma linv_handleConnectionError:
  assumes "linv_but E s" and "a < next_addr s"
  shows "linv_but E (handleConnectionError a err s)"
proof -
  let ?f = "\<lambda>m. m\<lparr>m_state := (if m_state (heap s a) = Connected then Disconnected else ConnError),
                  m_errorMessage := Some (error_message err)\<rparr>"
  have 1: "linv_but E (modify a ?f s)"
  proof (rule linv_modify [OF assms(1)])
    show "active a s \<or> idle_cell (?f (heap s a))"
      using linv_idle [OF assms(1), of a] by (auto simp: idle_cell_def)
  qed (simp_all add: keeps_timers_def cell_ok_def)
  let ?s2 = "log_at LError (cfg_name (m_config (heap (modify a ?f s) a))) (error_message err)
               (modify a ?f s)"
  have "linv_but E (stopPolling a ?s2)"
    by (rule linv_stopPolling) (simp_all add: 1)
  then have 2: "linv_but E (emitQualityUpdate a Bad (stopPolling a ?s2))"
    by simp
  have 3: "running s \<Longrightarrow> linv_but E (scheduleReconnect a (emitQualityUpdate a Bad (stopPolling a ?s2)))"
    by (rule linv_scheduleReconnect [OF 2]) (simp_all add: assms(2) active_def)
  from 2 3 show ?thesis
    by (simp add: handleConnectionError_def Let_def)
qed

section \<open>Switching a connector on and off\<close>

text \<open>
  The operations that take connections down do not read \<open>running\<close>, so they can be followed
  on the state with \<open>running\<close> set, where no cell has to be idle.
\<close>

lemma linv_on: "linv_but E s \<Longrightarrow> linv_but E (s\<lparr>running := True\<rparr>)"
  by (auto simp: linv_but_def table_ok_def timers_ok_def pending_ok_def)

lemma linv_off:
  "linv_but E (s\<lparr>running := True\<rparr>) \<Longrightarrow> \<forall>a \<in> mapped s. running s \<or> idle_cell (heap s a) \<Longrightarrow>
    linv_but E s"
  by (auto simp: linv_but_def table_ok_def timers_ok_def pending_ok_def mapped_def)

lemma linv_shrink:
  "linv_but (insert a E) s \<Longrightarrow> cell_ok True (heap s a) \<Longrightarrow> linv_but E s"
  by (auto simp: linv_but_def cell_ok_def)

lemma timer_ops_on:
  "(stopPolling a s)\<lparr>running := True\<rparr> = stopPolling a (s\<lparr>running := True\<rparr>)"
  "(clearReconnect a s)\<lparr>running := True\<rparr> = clearReconnect a (s\<lparr>running := True\<rparr>)"
  "(modify a f s)\<lparr>running := True\<rparr> = modify a f (s\<lparr>running := True\<rparr>)"
  by (auto simp: stopPolling_def clearReconnect_def modify_def split: option.split)

text \<open>The cell \<open>disconnectAndCleanup\<close> leaves.\<close>

definition cleaned_cell :: "'p managed \<Rightarrow> 'p managed" where
  "cleaned_cell m = m\<lparr>m_client := None, m_state := Disconnected, m_errorMessage := None,
     m_pollingTimer := None, m_reconnectTimer := None, m_connecting := False\<rparr>"

lemma idle_cleaned_cell [simp]: "idle_cell (cleaned_cell m)"
  by (simp add: idle_cell_def cleaned_cell_def)

lemma config_cleaned_cell [simp]: "m_config (cleaned_cell m) = m_config m"
  by (simp add: cleaned_cell_def)

lemma linv_drop:
  assumes "linv_but E s" and sub: "set m \<subseteq> set (connections s)"
    and "jmap_wf m" and "distinct (jvalues m)"
  shows "linv_but E (s\<lparr>connections := m\<rparr>)"
proof -
  have "table_ok (s\<lparr>connections := m\<rparr>)"
    using assms subsetD [OF sub] by (fastforce simp: linv_but_def table_ok_def)
  moreover have "timers_ok (s\<lparr>connections := m\<rparr>)" "pending_ok (s\<lparr>connections := m\<rparr>)"
    using assms(1) by (simp_all add: linv_but_def timers_ok_def pending_ok_def)
  moreover have "a \<in> mapped s" if "a \<in> mapped (s\<lparr>connections := m\<rparr>)" for a
    using sub that by (auto simp: mapped_def)
  ultimately show ?thesis
    using assms(1) by (simp add: linv_but_def)
qed

section \<open>The contract of the abstract methods\<close>

locale protocol =
  fixes vt :: "'p vtable"
  assumes close_core: "core (vt_closeClient vt a s) = core s"
    and initiate_frame: "connections (vt_initiate vt a s) = connections s"
      "running (vt_initiate vt a s) = running s" "next_addr (vt_initiate vt a s) = next_addr s"
      "b \<noteq> a \<Longrightarrow> heap (vt_initiate vt a s) b = heap s b"
      "m_config (heap (vt_initiate vt a s) a) = m_config (heap s a)"
    and initiate_linv:
      "linv s \<Longrightarrow> a < next_addr s \<Longrightarrow> active a s \<Longrightarrow> linv (vt_initiate vt a s)"
    and addMapping_linv: "linv s \<Longrightarrow> linv (snd (vt_addMapping vt mp s))"
    and removeMapping_linv: "linv s \<Longrightarrow> linv (snd (vt_removeMapping vt i s))"
    and onConnect_linv: "linv s \<Longrightarrow> a < next_addr s \<Longrightarrow> linv (vt_onConnect vt a c r s)"
    and poll_linv: "linv s \<Longrightarrow> a < next_addr s \<Longrightarrow> linv (vt_poll vt a s)"
    and onRead_linv: "linv s \<Longrightarrow> pend_addr p < next_addr s \<Longrightarrow> linv (vt_onRead vt p x s)"
begin

lemma close_fields [simp]:
  "heap (vt_closeClient vt a s) = heap s" "next_addr (vt_closeClient vt a s) = next_addr s"
  "connections (vt_closeClient vt a s) = connections s"
  "running (vt_closeClient vt a s) = running s"
  using coreD [OF close_core] by auto

lemma close_linv [simp]: "linv_but E (vt_closeClient vt a s) = linv_but E s"
  by (rule linv_but_core [OF close_core])

lemma close_linv_on:
  "linv_but E ((vt_closeClient vt a s)\<lparr>running := True\<rparr>) = linv_but E (s\<lparr>running := True\<rparr>)"
  by (rule linv_but_core) (use close_core [of a s] in \<open>simp add: core_def\<close>)

lemma cleanup_fields [simp]:
  "heap (disconnectAndCleanup vt a s) = (heap s)(a := cleaned_cell (heap s a))"
  "next_addr (disconnectAndCleanup vt a s) = next_addr s"
  "connections (disconnectAndCleanup vt a s) = connections s"
  "running (disconnectAndCleanup vt a s) = running s"
  by (cases "heap s a"; simp add: disconnectAndCleanup_def Let_def cleaned_cell_def)+

lemma cleanup_linv_on:
  assumes "linv_but E (s\<lparr>running := True\<rparr>)"
  shows "linv_but E ((disconnectAndCleanup vt a s)\<lparr>running := True\<rparr>)"
proof -
  have "linv_but (insert a E) (s\<lparr>running := True\<rparr>)"
    using assms by (rule linv_mono) auto
  then have "linv_but (insert a E) ((clearReconnect a (stopPolling a s))\<lparr>running := True\<rparr>)"
    unfolding timer_ops_on by (intro linv_clearReconnect linv_stopPolling) auto
  then have 1: "linv_but (insert a E)
      ((vt_closeClient vt a (clearReconnect a (stopPolling a s)))\<lparr>running := True\<rparr>)"
    by (simp add: close_linv_on)
  have "linv_but (insert a E) ((disconnectAndCleanup vt a s)\<lparr>running := True\<rparr>)"
    unfolding disconnectAndCleanup_def Let_def timer_ops_on
    by (rule linv_modify [OF 1]) (simp_all add: keeps_timers_def cell_ok_def active_def)
  then show ?thesis
    by (rule linv_shrink) (simp add: cell_ok_def cleaned_cell_def)
qed

lemma cleanup_linv: "linv s \<Longrightarrow> linv (disconnectAndCleanup vt a s)"
  by (rule linv_off [OF cleanup_linv_on [OF linv_on]])
    (auto simp: linv_but_def mapped_def)

lemma cleanup_idle: "idle_cell (heap (disconnectAndCleanup vt a s) a)"
  by simp

section \<open>Operations of the base class keep the invariant\<close>

lemma add_linv:
  assumes "linv s"
  shows "linv (snd (addConnection vt cfg s))"
proof (cases "jhas (connections s) (cfg_id cfg)")
  case True
  with assms show ?thesis by (simp add: addConnection_def)
next
  case fresh: False
  show ?thesis
  proof (cases "vt_extractParams vt cfg")
    case (Inl e)
    with assms fresh show ?thesis by (simp add: addConnection_def)
  next
    case (Inr p)
    let ?a = "next_addr s"
    let ?s = "s\<lparr>heap := (heap s)(?a := new_managed cfg p), next_addr := Suc ?a,
                connections := jset (connections s) (cfg_id cfg) ?a\<rparr>"
    have tab: "connections ?s = connections s @ [(cfg_id cfg, ?a)]"
      using fresh by (simp add: jset_fresh)
    have new: "cfg_id cfg \<notin> fst ` set (connections s)" "?a \<notin> mapped s"
      using fresh linv_table [OF assms] by (auto simp: map_of_eq_None_iff)
    have low: "a < ?a" if "(i, a) \<in> set (connections s)" for i a
      using assms that by (auto simp: linv_but_def table_ok_def)
    have 1: "linv ?s"
      using assms new tab low
      by (fastforce simp: linv_but_def table_ok_def timers_ok_def pending_ok_def mapped_def
          jmap_wf_def new_managed_def idle_cell_def cell_ok_def less_Suc_eq)
    have "linv (vt_initiate vt ?a ?s)" if "running s"
      by (rule initiate_linv [OF 1]) (simp_all add: that active_def)
    with 1 fresh Inr show ?thesis
      by (simp add: addConnection_def Let_def)
  qed
qed

lemma remove_linv:
  assumes "linv s"
  shows "linv (snd (removeConnection vt i s))"
proof (cases "jget (connections s) i")
  case None
  with assms show ?thesis by (simp add: removeConnection_def)
next
  case (Some a)
  let ?s = "disconnectAndCleanup vt a s"
  have 1: "linv ?s" by (rule cleanup_linv [OF assms])
  have "linv (?s\<lparr>connections := jdel (connections s) i\<rparr>)"
  proof (rule linv_drop [OF 1])
    show "distinct (jvalues (jdel (connections s) i))"
      using assms by (auto simp: linv_but_def table_ok_def AList.delete_eq distinct_map_filter)
  qed (use assms in \<open>auto simp: AList.delete_eq linv_but_def table_ok_def jmap_wf_def
         distinct_map_filter\<close>)
  with Some show ?thesis
    by (simp add: removeConnection_def Let_def)
qed

lemma update_linv:
  assumes "linv s"
  shows "linv (snd (updateConnection vt cfg s))"
proof (cases "jget (connections s) (cfg_id cfg)")
  case None
  with add_linv [OF assms] show ?thesis by (simp add: updateConnection_def)
next
  case (Some a)
  let ?s = "disconnectAndCleanup vt a s"
  have a: "a < next_addr s" "cfg_id (m_config (heap s a)) = cfg_id cfg"
    using linv_lookup [OF assms Some] by auto
  have 1: "linv ?s" by (rule cleanup_linv [OF assms])
  show ?thesis
  proof (cases "vt_extractParams vt cfg")
    case (Inl e)
    with Some 1 show ?thesis by (simp add: updateConnection_def Let_def)
  next
    case (Inr p)
    let ?f = "\<lambda>m. m\<lparr>m_config := cfg, m_proto := vt_applyParams vt (m_proto m) p\<rparr>"
    have 2: "linv (modify a ?f ?s)"
      by (rule linv_modify [OF 1])
        (simp_all add: keeps_timers_def a cell_ok_def idle_cell_def cleaned_cell_def)
    have "linv (vt_initiate vt a (modify a ?f ?s))" if "running s"
      by (rule initiate_linv [OF 2]) (simp_all add: a that active_def)
    with 2 Some Inr show ?thesis
      by (simp add: updateConnection_def Let_def)
  qed
qed

lemma start_fold:
  "linv s \<Longrightarrow> running s \<Longrightarrow> set as \<subseteq> mapped s \<Longrightarrow>
    linv (foldl (start_one vt) s as)
    \<and> connections (foldl (start_one vt) s as) = connections s
    \<and> running (foldl (start_one vt) s as)"
proof (induction as arbitrary: s)
  case Nil
  then show ?case by simp
next
  case (Cons a as)
  have "linv (start_one vt s a)" "running (start_one vt s a)"
    "connections (start_one vt s a) = connections s" "mapped (start_one vt s a) = mapped s"
    using Cons.prems linv_table [OF Cons.prems(1), of a]
    by (auto simp: start_one_def initiate_frame active_def mapped_def intro!: initiate_linv)
  with Cons.IH [of "start_one vt s a"] Cons.prems show ?case by simp
qed

lemma start_linv: "linv s \<Longrightarrow> linv (start vt s)"
  using start_fold [of "s\<lparr>running := True\<rparr>" "jvalues (connections s)"]
  by (auto simp: start_def linv_on mapped_def)

lemma stop_fold_fields [simp]:
  "connections (foldl (\<lambda>s a. disconnectAndCleanup vt a s) s as) = connections s"
  "running (foldl (\<lambda>s a. disconnectAndCleanup vt a s) s as) = running s"
  by (induction as arbitrary: s) simp_all

lemma cleaned_cell_idem [simp]: "cleaned_cell (cleaned_cell m) = cleaned_cell m"
  by (simp add: cleaned_cell_def)

lemma stop_fold_heap:
  "heap (foldl (\<lambda>s a. disconnectAndCleanup vt a s) s as) b
     = (if b \<in> set as then cleaned_cell (heap s b) else heap s b)"
  by (induction as arbitrary: s) simp_all

lemma stop_fold_linv_on:
  "linv (s\<lparr>running := True\<rparr>) \<Longrightarrow>
    linv ((foldl (\<lambda>s a. disconnectAndCleanup vt a s) s as)\<lparr>running := True\<rparr>)"
  by (induction as arbitrary: s) (simp_all add: cleanup_linv_on)

lemma stop_cleans:
  assumes "running s"
  shows "\<not> running (stop vt s)" "connections (stop vt s) = connections s"
    "heap (stop vt s) a = (if a \<in> mapped s then cleaned_cell (heap s a) else heap s a)"
  using assms by (simp_all add: stop_def stop_fold_heap mapped_def)

lemma stop_linv:
  assumes "linv s"
  shows "linv (stop vt s)"
proof (cases "running s")
  case True
  have "linv ((stop vt s)\<lparr>running := True\<rparr>)"
    using True linv_on [OF assms] by (simp add: stop_def stop_fold_linv_on)
  then show ?thesis
    by (rule linv_off) (simp add: stop_cleans True mapped_def)
next
  case False
  with assms show ?thesis by (simp add: stop_def)
qed

lemma fire_reconnect_linv:
  assumes "linv s" and "(t, a) \<in> set (timeouts s)"
  shows "linv (fire_reconnect vt t a s)"
proof -
  let ?s1 = "modify a (\<lambda>m. m\<lparr>m_reconnectTimer := None\<rparr>)
               (s\<lparr>timeouts := filter (\<lambda>p. fst p \<noteq> t) (timeouts s)\<rparr>)"
  have "t \<in> set (timers_at (timeouts s) a)"
    using assms(2) by (simp add: in_timers_at)
  then have rt: "m_reconnectTimer (heap s a) = Some t"
    using assms(1) by (simp add: linv_but_def timers_ok_def)
  then have eq: "?s1 = clearReconnect a s"
    by (simp add: clearReconnect_def)
  have low: "a < next_addr s"
    using rt by (simp add: linv_timer_addr [OF assms(1)])
  have act: "active a s"
    using rt linv_idle [OF assms(1), of a] by (fastforce simp: idle_cell_def)
  have 1: "linv ?s1" unfolding eq by (rule linv_clearReconnect [OF assms(1)])
  let ?s3 = "modify a (\<lambda>m. m\<lparr>m_client := None, m_state := Disconnected\<rparr>)
               (vt_closeClient vt a ?s1)"
  have "linv ?s3" if "running s"
  proof (rule linv_modify)
    show "linv (vt_closeClient vt a ?s1)" using 1 by simp
  qed (use that in \<open>simp_all add: keeps_timers_def cell_ok_def active_def\<close>)
  then have "linv (vt_initiate vt a ?s3)" if "running s"
    by (rule initiate_linv) (use that low in \<open>simp_all add: active_def\<close>)
  with 1 show ?thesis
    by (simp add: fire_reconnect_def Let_def)
qed

section \<open>Every run keeps the invariant\<close>

lemma exec_api_linv: "linv s \<Longrightarrow> linv (snd (exec_api vt c s))"
  by (cases c)
    (auto intro: add_linv remove_linv update_linv addMapping_linv removeMapping_linv
      start_linv stop_linv)

lemma linv_pending_remove:
  "linv s \<Longrightarrow> linv (s\<lparr>handshakes := remove1 p (handshakes s)\<rparr>)"
  "linv s \<Longrightarrow> linv (s\<lparr>reads := remove1 r (reads s)\<rparr>)"
  by (auto simp: linv_but_def table_ok_def timers_ok_def pending_ok_def mapped_def
      dest: notin_set_remove1)

lemma event_linv:
  assumes "linv s" and "event_enabled s e"
  shows "linv (apply_event vt e s)"
proof (cases e)
  case (PollTimer t a)
  then have "t \<in> set (timers_at (intervals s) a)"
    using assms(2) by (simp add: in_timers_at)
  then have "m_pollingTimer (heap s a) \<noteq> None"
    using assms(1) by (simp add: linv_but_def timers_ok_def)
  then have "a < next_addr s"
    by (simp add: linv_timer_addr [OF assms(1)])
  with PollTimer assms show ?thesis by (simp add: poll_linv)
next
  case (ApiCall c)
  with assms(1) show ?thesis by (simp add: exec_api_linv)
next
  case (HandshakeDone a c r)
  with assms show ?thesis
    by (auto intro!: onConnect_linv linv_pending_remove dest: linv_pending(1))
next
  case (ReconnectTimer t a)
  with assms show ?thesis by (simp add: fire_reconnect_linv)
next
  case (ReadDone p x)
  with assms show ?thesis
    by (auto intro!: onRead_linv linv_pending_remove dest: linv_pending(2))
next
  case (ClockTick n)
  with assms(1) show ?thesis by simp
qed

lemma step_linv: "conn_step vt s e s' \<Longrightarrow> linv s \<Longrightarrow> linv s'"
  by (auto simp: conn_step_iff event_linv)

lemma reach_linv: "reach vt ok s0 s \<Longrightarrow> linv s0 \<Longrightarrow> linv s"
  by (induction rule: reach.induct) (auto intro: step_linv)

end

lemma linv_new_connector:
  "m_pollingTimer blank = None \<Longrightarrow> m_reconnectTimer blank = None \<Longrightarrow>
    linv (new_connector ty logs blank)"
  by (auto simp: new_connector_def linv_but_def table_ok_def timers_ok_def pending_ok_def
      handles_ok_def timers_at_def mapped_def)

section \<open>No enabled connection is abandoned\<close>

text \<open>
  A callback is calm if it comes from the client the connection has now, and a read if the
  connection is still connected; an update is calm if its parameters can be extracted. Under
  calm events an enabled connection of a running connector is always connected, connecting,
  or has its reconnection scheduled.
\<close>

definition calm :: "'p vtable \<Rightarrow> 'p connector \<Rightarrow> event \<Rightarrow> bool" where
  "calm vt s e =
     (case e of
        HandshakeDone a c r \<Rightarrow> m_client (heap s a) = Some c
      | ReadDone p x \<Rightarrow> m_state (heap s (pend_addr p)) = Connected
      | ApiCall (UpdateConnection cfg) \<Rightarrow>
          (case vt_extractParams vt cfg of Inl _ \<Rightarrow> False | Inr _ \<Rightarrow> True)
      | _ \<Rightarrow> True)"

definition serviced :: "'p managed \<Rightarrow> bool" where
  "serviced m \<longleftrightarrow> m_state m = Connected \<or> m_connecting m \<or> m_reconnectTimer m \<noteq> None"

definition connecting_ok :: "'p managed \<Rightarrow> bool" where
  "connecting_ok m \<longleftrightarrow>
     (m_connecting m \<longrightarrow>
        m_reconnectTimer m = None \<and> m_client m \<noteq> None \<and> m_state m \<noteq> Connected)"

definition all_served :: "'p connector \<Rightarrow> nat set \<Rightarrow> bool" where
  "all_served s D \<longleftrightarrow> (\<forall>b \<in> D. running s \<and> cfg_enabled (m_config (heap s b)) \<longrightarrow> serviced (heap s b))"

definition progress :: "'p connector \<Rightarrow> bool" where
  "progress s \<longleftrightarrow>
     (\<forall>a < next_addr s. connecting_ok (heap s a)) \<and>
     (\<forall>a \<in> mapped s. running s \<and> cfg_enabled (m_config (heap s a)) \<longrightarrow> serviced (heap s a))"

definition one_cell :: "addr \<Rightarrow> 'p connector \<Rightarrow> 'p connector \<Rightarrow> bool" where
  "one_cell a s s' \<longleftrightarrow>
     connections s' = connections s \<and> running s' = running s \<and> next_addr s' = next_addr s \<and>
     (\<forall>b. b \<noteq> a \<longrightarrow> heap s' b = heap s b) \<and>
     m_config (heap s' a) = m_config (heap s a)"

text \<open>The fields \<open>progress\<close> reads, of all cells.\<close>

definition same_life :: "'p connector \<Rightarrow> 'p connector \<Rightarrow> bool" where
  "same_life s s' \<longleftrightarrow>
     connections s' = connections s \<and> running s' = running s \<and> next_addr s' = next_addr s \<and>
     (\<forall>a. m_config (heap s' a) = m_config (heap s a) \<and> m_client (heap s' a) = m_client (heap s a)
        \<and> m_state (heap s' a) = m_state (heap s a)
        \<and> m_reconnectTimer (heap s' a) = m_reconnectTimer (heap s a)
        \<and> m_connecting (heap s' a) = m_connecting (heap s a))"

lemma same_life_refl [simp]: "same_life s s"
  by (simp add: same_life_def)

lemma same_life_trans: "same_life s t \<Longrightarrow> same_life t u \<Longrightarrow> same_life s u"
  by (simp add: same_life_def)

lemma same_life_core: "core s = core t \<Longrightarrow> same_life u s = same_life u t"
  by (simp add: same_life_def core_def)

lemma progress_same_life: "same_life s s' \<Longrightarrow> progress s \<Longrightarrow> progress s'"
  by (simp add: same_life_def progress_def serviced_def connecting_ok_def mapped_def)

lemma progress_one_cell:
  assumes "progress s" and "one_cell a s s'" and "connecting_ok (heap s' a)"
    and "running s \<Longrightarrow> serviced (heap s' a)"
  shows "progress s'"
  unfolding progress_def
proof (intro conjI allI ballI impI)
  fix b assume "b < next_addr s'"
  with assms show "connecting_ok (heap s' b)"
    by (cases "b = a") (auto simp: progress_def one_cell_def)
next
  fix b assume "b \<in> mapped s'" "running s' \<and> cfg_enabled (m_config (heap s' b))"
  with assms show "serviced (heap s' b)"
    by (cases "b = a") (auto simp: progress_def one_cell_def mapped_def)
qed

text \<open>What a callback leaves behind: a live connection, or one that will be retried.\<close>

definition settled :: "bool \<Rightarrow> 'p managed \<Rightarrow> bool" where
  "settled on m \<longleftrightarrow>
     \<not> m_connecting m \<and> (m_state m = Connected \<or> (on \<longrightarrow> m_reconnectTimer m \<noteq> None))"

lemma settled_progress:
  "progress s \<Longrightarrow> one_cell a s s' \<Longrightarrow> settled (running s) (heap s' a) \<Longrightarrow> progress s'"
  by (erule progress_one_cell) (auto simp: settled_def connecting_ok_def serviced_def)

locale calm_protocol = protocol +
  assumes initiate_cell:
      "\<not> m_connecting (heap s a) \<Longrightarrow>
        \<exists>c. heap (vt_initiate vt a s) a = (heap s a)\<lparr>m_connecting := True, m_client := Some c\<rparr>"
    and onConnect_settles:
      "linv s \<Longrightarrow> a < next_addr s \<Longrightarrow> m_client (heap s a) \<noteq> None \<Longrightarrow>
        one_cell a s (vt_onConnect vt a c r s)
        \<and> settled (running s) (heap (vt_onConnect vt a c r s) a)"
    and onRead_settles:
      "pend_addr p = a \<Longrightarrow> m_state (heap s a) = Connected \<Longrightarrow> \<not> m_connecting (heap s a) \<Longrightarrow>
        one_cell a s (vt_onRead vt p x s)
        \<and> settled (running s) (heap (vt_onRead vt p x s) a)"
    and poll_unconnected: "m_state (heap s a) \<noteq> Connected \<Longrightarrow> vt_poll vt a s = s"
    and poll_settles:
      "m_state (heap s a) = Connected \<Longrightarrow> \<not> m_connecting (heap s a) \<Longrightarrow>
        one_cell a s (vt_poll vt a s) \<and> settled (running s) (heap (vt_poll vt a s) a)"
    and mapping_life: "same_life s (snd (vt_addMapping vt mp s))"
      "same_life s (snd (vt_removeMapping vt i s))"
begin

lemma initiate_one_cell: "one_cell a s (vt_initiate vt a s)"
  by (simp add: one_cell_def initiate_frame)

lemma initiate_progress:
  assumes "progress (s\<lparr>running := False\<rparr>)"
    and "\<forall>b \<in> mapped s. b \<noteq> a \<and> running s \<and> cfg_enabled (m_config (heap s b)) \<longrightarrow> serviced (heap s b)"
    and "\<not> m_connecting (heap s a)" "m_reconnectTimer (heap s a) = None"
      "m_state (heap s a) \<noteq> Connected"
  shows "progress (vt_initiate vt a s)"
proof -
  obtain c where c: "heap (vt_initiate vt a s) a = (heap s a)\<lparr>m_connecting := True, m_client := Some c\<rparr>"
    using initiate_cell [OF assms(3)] by blast
  show ?thesis
    unfolding progress_def
  proof (intro conjI allI ballI impI)
    fix b assume "b < next_addr (vt_initiate vt a s)"
    with assms c show "connecting_ok (heap (vt_initiate vt a s) b)"
      by (cases "b = a") (auto simp: progress_def initiate_frame connecting_ok_def)
  next
    fix b assume "b \<in> mapped (vt_initiate vt a s)"
      "running (vt_initiate vt a s) \<and> cfg_enabled (m_config (heap (vt_initiate vt a s) b))"
    with assms(2) c show "serviced (heap (vt_initiate vt a s) b)"
      by (cases "b = a") (auto simp: initiate_frame serviced_def mapped_def)
  qed
qed

lemma progress_off: "progress s \<Longrightarrow> progress (s\<lparr>running := False\<rparr>)"
  by (simp add: progress_def)

lemma cleanup_progress_off:
  "progress (s\<lparr>running := False\<rparr>) \<Longrightarrow>
    progress ((disconnectAndCleanup vt a s)\<lparr>running := False\<rparr>)"
  by (simp add: progress_def connecting_ok_def cleaned_cell_def)

lemma add_progress:
  assumes "linv s" "progress s"
  shows "progress (snd (addConnection vt cfg s))"
proof (cases "jhas (connections s) (cfg_id cfg)")
  case True
  with assms show ?thesis by (simp add: addConnection_def)
next
  case fresh: False
  show ?thesis
  proof (cases "vt_extractParams vt cfg")
    case (Inl e)
    with assms fresh show ?thesis by (simp add: addConnection_def)
  next
    case (Inr p)
    let ?a = "next_addr s"
    let ?s = "s\<lparr>heap := (heap s)(?a := new_managed cfg p), next_addr := Suc ?a,
                connections := jset (connections s) (cfg_id cfg) ?a\<rparr>"
    have tab: "connections ?s = connections s @ [(cfg_id cfg, ?a)]"
      using fresh by (simp add: jset_fresh)
    have off: "progress (?s\<lparr>running := False\<rparr>)"
      using assms(2) by (auto simp: progress_def connecting_ok_def new_managed_def less_Suc_eq)
    have old: "b \<noteq> ?a \<Longrightarrow> b \<in> mapped ?s \<Longrightarrow> b \<in> mapped s" for b
      using tab by (auto simp: mapped_def)
    have rest: "\<forall>b \<in> mapped ?s. b \<noteq> ?a \<and> running ?s \<and> cfg_enabled (m_config (heap ?s b)) \<longrightarrow>
        serviced (heap ?s b)"
    proof (intro ballI impI)
      fix b assume "b \<in> mapped ?s" "b \<noteq> ?a \<and> running ?s \<and> cfg_enabled (m_config (heap ?s b))"
      with old [of b] assms(2) show "serviced (heap ?s b)"
        by (cases "b = ?a") (simp_all add: progress_def)
    qed
    have "progress (vt_initiate vt ?a ?s)"
      by (rule initiate_progress [OF off rest]) (simp_all add: new_managed_def)
    moreover have "progress ?s" if idle: "\<not> (running s \<and> cfg_enabled cfg)"
      unfolding progress_def
    proof (intro conjI allI ballI impI)
      fix b assume "b < next_addr ?s"
      with off show "connecting_ok (heap ?s b)" by (simp add: progress_def)
    next
      fix b assume "b \<in> mapped ?s" "running ?s \<and> cfg_enabled (m_config (heap ?s b))"
      with rest idle show "serviced (heap ?s b)"
        by (cases "b = ?a") (auto simp: new_managed_def)
    qed
    ultimately show ?thesis
      using fresh Inr by (auto simp: addConnection_def Let_def)
  qed
qed

lemma remove_progress:
  assumes "linv s" "progress s"
  shows "progress (snd (removeConnection vt i s))"
proof (cases "jget (connections s) i")
  case None
  with assms show ?thesis by (simp add: removeConnection_def)
next
  case (Some a)
  have sub: "b \<in> mapped s \<and> b \<noteq> a" if b: "b \<in> snd ` set (jdel (connections s) i)" for b
  proof -
    from b obtain j where j: "(j, b) \<in> set (connections s)" "j \<noteq> i"
      by (auto simp: AList.delete_eq)
    from assms(1) have d: "distinct (jvalues (connections s))"
      by (simp add: linv_but_def table_ok_def)
    have ia: "(i, a) \<in> set (connections s)" using Some by (rule map_of_SomeD)
    have "inj_on snd (set (connections s))" using d by (simp add: distinct_map)
    then have "b \<noteq> a" using inj_onD [of snd _ "(j, b)" "(i, a)"] j ia by auto
    with j show ?thesis by (force simp: mapped_def)
  qed
  let ?s = "(disconnectAndCleanup vt a s)\<lparr>connections := jdel (connections s) i\<rparr>"
  have "progress ?s"
    unfolding progress_def
  proof (intro conjI allI ballI impI)
    fix b assume "b < next_addr ?s"
    with assms(2) show "connecting_ok (heap ?s b)"
      by (simp add: progress_def connecting_ok_def cleaned_cell_def)
  next
    fix b assume b: "b \<in> mapped ?s" "running ?s \<and> cfg_enabled (m_config (heap ?s b))"
    then have "b \<in> mapped s" "b \<noteq> a" using sub [of b] by (auto simp: mapped_def)
    with b assms(2) show "serviced (heap ?s b)" by (simp add: progress_def)
  qed
  with Some show ?thesis
    by (simp add: removeConnection_def Let_def)
qed

lemma update_progress:
  assumes "linv s" "progress s" "vt_extractParams vt cfg = Inr p"
  shows "progress (snd (updateConnection vt cfg s))"
proof (cases "jget (connections s) (cfg_id cfg)")
  case None
  with add_progress [OF assms(1,2)] show ?thesis by (simp add: updateConnection_def)
next
  case (Some a)
  let ?f = "\<lambda>m. m\<lparr>m_config := cfg, m_proto := vt_applyParams vt (m_proto m) p\<rparr>"
  let ?s = "modify a ?f (disconnectAndCleanup vt a s)"
  have off: "progress (?s\<lparr>running := False\<rparr>)"
    using assms(2) by (simp add: progress_def connecting_ok_def cleaned_cell_def)
  have rest: "\<forall>b \<in> mapped ?s. b \<noteq> a \<and> running ?s \<and> cfg_enabled (m_config (heap ?s b)) \<longrightarrow>
      serviced (heap ?s b)"
    using assms(2) by (auto simp: progress_def mapped_def)
  have "progress (vt_initiate vt a ?s)"
    by (rule initiate_progress [OF off rest]) (simp_all add: cleaned_cell_def)
  moreover have "progress ?s" if "\<not> (running s \<and> cfg_enabled cfg)"
    using that off rest by (auto simp: progress_def)
  ultimately show ?thesis
    using Some assms(3) by (auto simp: updateConnection_def Let_def)
qed

lemma initiate_one_progress:
  assumes "idle_cell (heap t a)" "progress (t\<lparr>running := False\<rparr>)" "all_served t D"
  shows "progress ((vt_initiate vt a t)\<lparr>running := False\<rparr>)" "all_served (vt_initiate vt a t) (insert a D)"
proof -
  obtain c where c: "heap (vt_initiate vt a t) a = (heap t a)\<lparr>m_connecting := True, m_client := Some c\<rparr>"
    using initiate_cell [of t a] assms(1) by (auto simp: idle_cell_def)
  show "progress ((vt_initiate vt a t)\<lparr>running := False\<rparr>)"
    unfolding progress_def
  proof (intro conjI allI ballI impI)
    fix b assume "b < next_addr ((vt_initiate vt a t)\<lparr>running := False\<rparr>)"
    with c assms(1,2) show "connecting_ok (heap ((vt_initiate vt a t)\<lparr>running := False\<rparr>) b)"
      by (cases "b = a") (auto simp: initiate_frame progress_def connecting_ok_def idle_cell_def)
  qed simp
  show "all_served (vt_initiate vt a t) (insert a D)"
    unfolding all_served_def
  proof (intro ballI impI)
    fix b assume "b \<in> insert a D" "running (vt_initiate vt a t) \<and>
      cfg_enabled (m_config (heap (vt_initiate vt a t) b))"
    with c assms(3) show "serviced (heap (vt_initiate vt a t) b)"
      by (cases "b = a") (auto simp: initiate_frame serviced_def all_served_def)
  qed
qed

lemma start_all_progress:
  assumes "progress (t\<lparr>running := False\<rparr>)" "all_served t D" "distinct as"
    "\<forall>a \<in> set as. idle_cell (heap t a) \<and> a \<notin> D"
  shows "progress ((foldl (start_one vt) t as)\<lparr>running := False\<rparr>) \<and>
    all_served (foldl (start_one vt) t as) (D \<union> set as)"
  using assms
proof (induction as arbitrary: t D)
  case Nil
  then show ?case by simp
next
  case (Cons a as)
  show ?case
  proof (cases "cfg_enabled (m_config (heap t a))")
    case False
    then have "all_served t (insert a D)" using Cons.prems(2) by (simp add: all_served_def)
    with False Cons.IH [of t "insert a D"] Cons.prems show ?thesis
      by (auto simp: start_one_def)
  next
    case True
    have "\<forall>b \<in> set as. idle_cell (heap (vt_initiate vt a t) b) \<and> b \<notin> insert a D"
    proof
      fix b assume "b \<in> set as"
      with Cons.prems(3,4) show "idle_cell (heap (vt_initiate vt a t) b) \<and> b \<notin> insert a D"
        by (cases "b = a") (auto simp: initiate_frame)
    qed
    with Cons.IH [OF initiate_one_progress [of t a D]] Cons.prems True show ?thesis
      by (simp add: start_one_def)
  qed
qed

lemma start_progress:
  assumes "linv s" "progress s"
  shows "progress (start vt s)"
proof (cases "running s")
  case True
  with assms show ?thesis by (simp add: start_def)
next
  case stopped: False
  let ?s = "foldl (start_one vt) (s\<lparr>running := True\<rparr>) (jvalues (connections s))"
  have conn: "connections (foldl (start_one vt) t as) = connections t \<and>
      running (foldl (start_one vt) t as) = running t" for t as
    by (induction as arbitrary: t) (auto simp: start_one_def initiate_frame)
  have "progress (?s\<lparr>running := False\<rparr>) \<and> all_served ?s ({} \<union> set (jvalues (connections s)))"
    by (rule start_all_progress)
      (use assms stopped in \<open>auto simp: progress_def linv_but_def table_ok_def mapped_def all_served_def\<close>)
  with stopped conn show ?thesis
    by (auto simp: start_def progress_def mapped_def all_served_def)
qed

lemma stop_progress:
  assumes "progress s"
  shows "progress (stop vt s)"
proof (cases "running s")
  case True
  have "next_addr (foldl (\<lambda>s a. disconnectAndCleanup vt a s) t as) = next_addr t" for t as
    by (induction as arbitrary: t) simp_all
  with True assms show ?thesis
    by (auto simp: progress_def stop_cleans stop_def stop_fold_heap connecting_ok_def
        cleaned_cell_def)
next
  case False
  with assms show ?thesis by (simp add: stop_def)
qed

lemma fire_reconnect_progress:
  assumes "linv s" "progress s" "(t, a) \<in> set (timeouts s)"
  shows "progress (fire_reconnect vt t a s)"
proof -
  have "t \<in> set (timers_at (timeouts s) a)"
    using assms(3) by (simp add: in_timers_at)
  then have rt: "m_reconnectTimer (heap s a) = Some t"
    using assms(1) by (simp add: linv_but_def timers_ok_def)
  have "a < next_addr s"
    using rt by (simp add: linv_timer_addr [OF assms(1)])
  then have nc: "\<not> m_connecting (heap s a)"
    using rt assms(2) by (auto simp: progress_def connecting_ok_def)
  let ?s1 = "modify a (\<lambda>m. m\<lparr>m_reconnectTimer := None\<rparr>)
               (s\<lparr>timeouts := filter (\<lambda>p. fst p \<noteq> t) (timeouts s)\<rparr>)"
  let ?s3 = "modify a (\<lambda>m. m\<lparr>m_client := None, m_state := Disconnected\<rparr>)
               (vt_closeClient vt a ?s1)"
  have "progress (vt_initiate vt a ?s3)"
  proof (rule initiate_progress)
    show "progress (?s3\<lparr>running := False\<rparr>)"
      using assms(2) nc by (simp add: progress_def connecting_ok_def)
    show "\<forall>b \<in> mapped ?s3. b \<noteq> a \<and> running ?s3 \<and> cfg_enabled (m_config (heap ?s3 b)) \<longrightarrow>
        serviced (heap ?s3 b)"
      using assms(2) by (simp add: progress_def mapped_def)
  qed (use nc in simp_all)
  moreover have "progress ?s1" if "\<not> running s"
    using that assms(2) nc by (simp add: progress_def connecting_ok_def)
  ultimately show ?thesis
    by (simp add: fire_reconnect_def Let_def)
qed

lemma poll_not_connecting:
  assumes "linv s" "progress s" "event_enabled s (PollTimer t a)" "m_state (heap s a) = Connected"
  shows "\<not> m_connecting (heap s a)"
proof -
  have "t \<in> set (timers_at (intervals s) a)"
    using assms(3) by (simp add: in_timers_at)
  then have "m_pollingTimer (heap s a) \<noteq> None"
    using assms(1) by (simp add: linv_but_def timers_ok_def)
  then have "a < next_addr s"
    by (simp add: linv_timer_addr [OF assms(1)])
  with assms(2,4) show ?thesis by (auto simp: progress_def connecting_ok_def)
qed

lemma api_progress:
  assumes "linv s" "progress s" "calm vt s (ApiCall c)"
  shows "progress (apply_event vt (ApiCall c) s)"
proof (cases c)
  case (UpdateConnection cfg)
  with assms(3) obtain p where "vt_extractParams vt cfg = Inr p"
    by (auto simp: calm_def split: sum.splits)
  with assms UpdateConnection show ?thesis by (simp add: update_progress)
next
  case (AddMapping mp)
  with assms show ?thesis by (simp add: progress_same_life [OF mapping_life(1)])
next
  case (RemoveMapping i)
  with assms show ?thesis by (simp add: progress_same_life [OF mapping_life(2)])
next
  case OnValueUpdate
  with assms show ?thesis by (simp add: onValueUpdate_def progress_def mapped_def)
qed (use assms in \<open>simp_all add: add_progress remove_progress start_progress stop_progress\<close>)

lemma event_progress:
  assumes "linv s" "progress s" "event_enabled s e" "calm vt s e"
  shows "progress (apply_event vt e s)"
proof (cases e)
  case (ApiCall c)
  with assms api_progress show ?thesis by blast
next
  case (HandshakeDone a c r)
  let ?s = "s\<lparr>handshakes := remove1 (a, c) (handshakes s)\<rparr>"
  have "linv ?s" "progress ?s" "a < next_addr ?s" "m_client (heap ?s a) \<noteq> None"
    using assms HandshakeDone linv_pending(1) [OF assms(1)]
    by (auto simp: calm_def progress_def mapped_def intro: linv_pending_remove)
  with onConnect_settles [of ?s a c r] HandshakeDone show ?thesis
    by (auto intro: settled_progress)
next
  case (ReconnectTimer t a)
  with assms show ?thesis by (simp add: fire_reconnect_progress)
next
  case (PollTimer t a)
  show ?thesis
  proof (cases "m_state (heap s a) = Connected")
    case True
    with poll_not_connecting assms(1-3) PollTimer have "\<not> m_connecting (heap s a)" by blast
    with True PollTimer assms(2) show ?thesis
      by (auto intro: settled_progress dest: poll_settles)
  next
    case False
    with PollTimer assms(2) show ?thesis by (simp add: poll_unconnected)
  qed
next
  case (ReadDone p x)
  let ?s = "s\<lparr>reads := remove1 p (reads s)\<rparr>"
  have st: "m_state (heap ?s (pend_addr p)) = Connected" "progress ?s" "pend_addr p < next_addr s"
    using assms ReadDone linv_pending(2) [OF assms(1)]
    by (auto simp: calm_def progress_def mapped_def)
  then have "\<not> m_connecting (heap ?s (pend_addr p))"
    by (auto simp: progress_def connecting_ok_def)
  with onRead_settles [of p "pend_addr p" ?s x] st ReadDone show ?thesis
    by (auto intro: settled_progress)
next
  case (ClockTick n)
  with assms show ?thesis by (simp add: progress_def mapped_def)
qed

lemma calm_reach_progress:
  assumes "reach vt (calm vt) s0 s" "linv s0" "progress s0"
  shows "linv s \<and> progress s"
  using assms(1)
proof induction
  case init
  with assms show ?case by simp
next
  case (step s e s')
  then show ?case
    by (auto simp: conn_step_iff intro: event_linv event_progress)
qed

end

lemma progress_new_connector:
  "progress (new_connector ty logs blank)"
  by (simp add: new_connector_def progress_def mapped_def)
end
