(* ===== verification/ProtocolSteps.thy ===== *)
theory ProtocolSteps
  imports Lifecycle
begin

text \<open>
  What the steps shared by the protocols do to the lifecycle invariant, stated once for the
  interpretations of \<open>protocol\<close> and \<open>calm_protocol\<close> in the theories of the protocols.
\<close>

section \<open>Fields\<close>

lemma open_client_simps [simp]:
  "heap (open_client a s)
     = (heap s)(a := (heap s a)\<lparr>m_connecting := True, m_client := Some (next_handle s)\<rparr>)"
  "connections (open_client a s) = connections s" "running (open_client a s) = running s"
  "next_addr (open_client a s) = next_addr s"
  by (simp_all add: open_client_def Let_def)

lemma opened_cell_ex [simp]:
  "\<exists>c. m\<lparr>m_connecting := True, m_client := Some h\<rparr> = m\<lparr>m_connecting := True, m_client := Some c\<rparr>"
  by blast

lemma mark_connected_simps [simp]:
  "heap (mark_connected a s)
     = (heap s)(a := (heap s a)\<lparr>m_state := Connected, m_errorMessage := None\<rparr>)"
  "connections (mark_connected a s) = connections s"
  "running (mark_connected a s) = running s" "next_addr (mark_connected a s) = next_addr s"
  "active b (mark_connected a s) = active b s"
  by (simp_all add: mark_connected_def)

lemma request_read_simps [simp]:
  "heap (request_read c p s) = heap s" "connections (request_read c p s) = connections s"
  "running (request_read c p s) = running s" "next_addr (request_read c p s) = next_addr s"
  "clock (request_read c p s) = clock s"
  by (simp_all add: request_read_def client_call_def)

lemma active_request_read [simp]: "active b (request_read c p s) = active b s"
  by (rule active_cong; simp)

section \<open>The invariant\<close>

lemma linv_open_client:
  assumes "linv s" and "a < next_addr s" and "active a s" and "\<not> m_connecting (heap s a)"
  shows "linv (open_client a s)"
proof -
  have 1: "linv (s\<lparr>next_handle := Suc (next_handle s)\<rparr>)"
    using assms(1)
    by (simp add: linv_but_def table_ok_def timers_ok_def pending_ok_def mapped_def
        handles_ok_Suc)
  have "linv (modify a (\<lambda>m. m\<lparr>m_connecting := True, m_client := Some (next_handle s)\<rparr>)
              (s\<lparr>next_handle := Suc (next_handle s)\<rparr>))"
    by (rule linv_modify [OF 1])
      (use assms linv_cell [OF assms(1,2)] in
        \<open>simp_all add: keeps_timers_def cell_ok_def active_def mapped_def\<close>)
  with assms(2) show ?thesis
    by (simp add: open_client_def Let_def linv_but_def table_ok_def timers_ok_def pending_ok_def
        mapped_def)
qed

lemma linv_request_read [simp]:
  "linv_but E s \<Longrightarrow> pend_addr p < next_addr s \<Longrightarrow> linv_but E (request_read c p s)"
  by (simp add: request_read_def linv_but_def table_ok_def timers_ok_def pending_ok_def
      mapped_def)

lemma linv_set_connecting:
  "linv_but E s \<Longrightarrow> a < next_addr s \<Longrightarrow>
    linv_but E (modify a (\<lambda>m. m\<lparr>m_connecting := False\<rparr>) s)"
  using linv_idle [of E s a] linv_cell [of E s a]
  by (intro linv_modify) (auto simp: keeps_timers_def cell_ok_def idle_cell_def)

lemma linv_set_lastPoll:
  "linv_but E s \<Longrightarrow> a < next_addr s \<Longrightarrow>
    linv_but E (modify a (\<lambda>m. m\<lparr>m_lastPollAt := t\<rparr>) s)"
  using linv_idle [of E s a] linv_cell [of E s a]
  by (intro linv_modify) (auto simp: keeps_timers_def cell_ok_def idle_cell_def)

lemma linv_set_proto:
  "linv_but E s \<Longrightarrow> a < next_addr s \<Longrightarrow>
    linv_but E (modify a (\<lambda>m. m\<lparr>m_proto := f (m_proto m)\<rparr>) s)"
  using linv_idle [of E s a] linv_cell [of E s a]
  by (intro linv_modify) (auto simp: keeps_timers_def cell_ok_def idle_cell_def)

lemma linv_set_mappings:
  "linv_but E s \<Longrightarrow> a < next_addr s \<Longrightarrow>
    linv_but E (modify a (\<lambda>m. m\<lparr>m_mappings := f (m_mappings m)\<rparr>) s)"
  using linv_idle [of E s a] linv_cell [of E s a]
  by (intro linv_modify) (auto simp: keeps_timers_def cell_ok_def idle_cell_def)

lemma linv_mark_connected:
  assumes "linv s" and "m_client (heap s a) \<noteq> None"
  shows "linv_but {a} (mark_connected a s)"
proof -
  have "linv_but {a} s" using assms(1) by (rule linv_mono) simp
  moreover have "active a s" by (rule linv_client_active [OF assms])
  ultimately show ?thesis
    unfolding mark_connected_def using assms(2)
    by (intro linv_modify) (auto simp: keeps_timers_def cell_ok_def)
qed

text \<open>Connecting ends with polling, which closes the gap in the invariant.\<close>

lemma linv_start_polling:
  assumes "linv_but {a} s" and "a < next_addr s" and "m_client (heap s a) \<noteq> None"
    and "linv_but {a} (poll a s)" and "next_addr (poll a s) = next_addr s"
    and "m_pollingTimer (heap s a) = None \<Longrightarrow> m_pollingTimer (heap (poll a s) a) = None"
    and "m_client (heap (poll a s) a) = m_client (heap s a)"
  shows "linv (start_polling_with poll a s)"
proof (cases "m_pollingTimer (heap s a)")
  case None
  have "linv (setPolling a (poll a s))"
  proof (rule linv_setPolling)
    show "active a (poll a s)"
      by (rule linv_client_active [OF assms(4)]) (simp add: assms)
  qed (use None assms in simp_all)
  with None show ?thesis by (simp add: start_polling_with_def)
next
  case (Some t)
  have "linv s"
    by (rule linv_shrink [OF assms(1)])
      (use Some assms(3) in \<open>simp add: cell_ok_def\<close>)
  with Some show ?thesis by (simp add: start_polling_with_def)
qed

lemma linv_put_mapping:
  "linv_but E s \<Longrightarrow> a < next_addr s \<Longrightarrow> linv_but E (put_mapping a mp s)"
  unfolding put_mapping_def by (rule linv_set_mappings)

lemma put_mapping_fields [simp]:
  "heap (put_mapping a mp s)
     = (heap s)(a := (heap s a)\<lparr>m_mappings := jset (m_mappings (heap s a)) (map_id mp) mp\<rparr>)"
  "connections (put_mapping a mp s) = connections s" "running (put_mapping a mp s) = running s"
  "next_addr (put_mapping a mp s) = next_addr s"
  by (simp_all add: put_mapping_def)

lemma linv_addMapping: "linv s \<Longrightarrow> linv (snd (addMapping mp s))"
  by (auto simp: addMapping_def dest: linv_lookup intro!: linv_put_mapping split: option.split)

lemma find_mapping_mapped:
  "find_mapping s i = Some a \<Longrightarrow> a \<in> mapped s \<and> jhas (m_mappings (heap s a)) i"
  by (auto simp: find_mapping_def find_Some_iff mapped_def intro!: imageI)

lemma linv_drop_mapping:
  "linv_but E s \<Longrightarrow> a < next_addr s \<Longrightarrow> linv_but E (drop_mapping a i s)"
  by (simp add: drop_mapping_def linv_set_mappings)

lemma drop_mapping_fields [simp]:
  "heap (drop_mapping a i s) = (heap s)(a := (heap s a)\<lparr>m_mappings := jdel (m_mappings (heap s a)) i\<rparr>)"
  "connections (drop_mapping a i s) = connections s" "running (drop_mapping a i s) = running s"
  "next_addr (drop_mapping a i s) = next_addr s"
  by (simp_all add: drop_mapping_def)

lemma linv_removeMapping: "linv s \<Longrightarrow> linv (snd (removeMapping i s))"
  by (auto simp: removeMapping_def split: option.split
      dest!: find_mapping_mapped intro!: linv_drop_mapping dest: linv_table)

section \<open>Settling\<close>

text \<open>
  What a poll may do to a connection: leave it as it is but for the time of the poll and the
  protocol's own fields, or fail it.
\<close>

definition polled_cell :: "bool \<Rightarrow> 'p managed \<Rightarrow> 'p managed \<Rightarrow> bool" where
  "polled_cell on m m' \<longleftrightarrow>
     (\<exists>t p. m' = m\<lparr>m_lastPollAt := t, m_proto := p\<rparr>) \<or>
     (\<exists>e t. m' = failed_cell e t m \<and> (on \<longrightarrow> t \<noteq> None))"

lemma polled_cell_refl [simp]: "polled_cell on m m"
  unfolding polled_cell_def
  by (rule disjI1) (rule exI [of _ "m_lastPollAt m"], rule exI [of _ "m_proto m"], simp)

lemma polled_cell_lastPoll [simp]: "polled_cell on m (m\<lparr>m_lastPollAt := t\<rparr>)"
  unfolding polled_cell_def
  by (rule disjI1) (rule exI [of _ t], rule exI [of _ "m_proto m"], simp)

lemma polled_cell_proto [simp]: "polled_cell on m (m\<lparr>m_proto := p\<rparr>)"
  unfolding polled_cell_def
  by (rule disjI1) (rule exI [of _ "m_lastPollAt m"], rule exI [of _ p], simp)

lemma polled_cell_failed [simp]:
  "(on \<longrightarrow> t \<noteq> None) \<Longrightarrow> polled_cell on m (failed_cell e t m)"
  unfolding polled_cell_def by blast

lemma polled_cell_fields:
  assumes "polled_cell on m m'"
  shows "m_config m' = m_config m" "m_client m' = m_client m"
    "m_connecting m' = m_connecting m" "m_pollingTimer m = None \<Longrightarrow> m_pollingTimer m' = None"
    "m_state m = Connected \<Longrightarrow> \<not> m_connecting m \<Longrightarrow> settled on m'"
  using assms by (auto simp: polled_cell_def failed_cell_def settled_def)

lemma settled_failed_cell [simp]:
  "settled on (failed_cell err t m) \<longleftrightarrow> \<not> m_connecting m \<and> (on \<longrightarrow> t \<noteq> None)"
  by (simp add: settled_def failed_cell_def)

lemma failed_cell_config [simp]: "m_config (failed_cell err t m) = m_config m"
  by (simp add: failed_cell_def)

lemma one_cell_error: "one_cell a s (handleConnectionError a err s)"
  by (simp add: one_cell_def)

lemma settled_error:
  "\<not> m_connecting (heap s a) \<Longrightarrow>
    settled (running s) (heap (handleConnectionError a err s) a)"
  by simp

lemma same_life_addMapping: "same_life s (snd (addMapping mp s))"
  by (simp add: addMapping_def same_life_def split: option.split)

lemma same_life_removeMapping: "same_life s (snd (removeMapping i s))"
  by (simp add: removeMapping_def same_life_def split: option.split)

section \<open>What an error does\<close>

lemma quality_step_get:
  "jget (quality_step i Bad t cvs m) k =
     (if k = map_id m
      then Some (case jget cvs k of
                   Some cv \<Rightarrow> cv\<lparr>cv_quality := Bad, cv_timestamp := t\<rparr>
                 | None \<Rightarrow>
                     \<lparr>cv_nodeId = map_nodeId m, cv_deviceAddress = map_deviceAddress m,
                      cv_connectionId = i, cv_value = JUndefined, cv_quality = Bad,
                      cv_timestamp = t\<rparr>)
      else jget cvs k)"
  by (auto simp: quality_step_def split: option.split)

definition bad_since :: "int \<Rightarrow> current_value option \<Rightarrow> bool" where
  "bad_since t x \<longleftrightarrow> (case x of None \<Rightarrow> False | Some cv \<Rightarrow> cv_quality cv = Bad \<and> cv_timestamp cv = t)"

lemma bad_since_step:
  "bad_since t (jget cvs k) \<or> k = map_id m \<Longrightarrow> bad_since t (jget (quality_step i Bad t cvs m) k)"
  by (auto simp: bad_since_def quality_step_get split: option.splits)

lemma bad_since_fold_keep:
  "bad_since t (jget cvs k) \<Longrightarrow> bad_since t (jget (foldl (quality_step i Bad t) cvs ms) k)"
  by (induction ms arbitrary: cvs) (simp_all add: bad_since_step)

lemma bad_since_fold:
  "k \<in> map_id ` set ms \<Longrightarrow> bad_since t (jget (foldl (quality_step i Bad t) cvs ms) k)"
  by (induction ms arbitrary: cvs) (auto intro: bad_since_fold_keep bad_since_step)

lemma quality_fold_other:
  "k \<notin> map_id ` set ms \<Longrightarrow> jget (foldl (quality_step i Bad t) cvs ms) k = jget cvs k"
  by (induction ms arbitrary: cvs) (auto simp: quality_step_get)

lemma scheduleReconnect_outputs:
  "currentValues (scheduleReconnect a s) = currentValues s"
  "delivered (scheduleReconnect a s) = delivered s"
  by (simp_all add: scheduleReconnect_def setReconnect_def clearReconnect_def modify_def
      log_text_at_def Let_def split: option.split)

lemma stopPolling_outputs:
  "currentValues (stopPolling a s) = currentValues s" "clock (stopPolling a s) = clock s"
  "delivered (stopPolling a s) = delivered s"
  "callback_set (stopPolling a s) = callback_set s"
  by (simp_all add: stopPolling_def modify_def split: option.split)

lemma stopPolling_cell:
  "m_mappings (heap (stopPolling a s) b) = m_mappings (heap s b)"
  "m_config (heap (stopPolling a s) b) = m_config (heap s b)"
  by (simp_all add: stopPolling_def modify_def split: option.split)

lemma error_currentValues:
  "currentValues (handleConnectionError a err s) =
     foldl (quality_step (cfg_id (m_config (heap s a))) Bad (clock s)) (currentValues s)
       (jvalues (m_mappings (heap s a)))"
  by (simp add: handleConnectionError_def Let_def scheduleReconnect_outputs emitQualityUpdate_def
      stopPolling_outputs stopPolling_cell)
    (simp add: modify_def log_text_at_def)

lemma error_delivered:
  "delivered (handleConnectionError a err s) =
     delivered s @
       (let us = quality_updates Bad (clock s) (jvalues (m_mappings (heap s a)))
        in if callback_set s \<and> us \<noteq> [] then [us] else [])"
  by (auto simp: handleConnectionError_def Let_def scheduleReconnect_outputs emitQualityUpdate_def
      stopPolling_outputs stopPolling_cell)
    (auto simp: modify_def log_text_at_def quality_updates_def)

text \<open>Losing a connection marks the cached value of each of its mappings bad, with the current
  time, and keeps every other cached value; it takes the connection's polling timer out of the
  event loop, schedules a reconnection exactly if the connector runs, and the connection ends
  disconnected if it was connected, failed otherwise.\<close>

lemma connection_error_effect:
  assumes "linv s" and "a < next_addr s"
  shows "let s' = handleConnectionError a err s;
             ids = map_id ` set (jvalues (m_mappings (heap s a)))
    in (\<forall>k. if k \<in> ids then bad_since (clock s) (jget (currentValues s') k)
            else jget (currentValues s') k = jget (currentValues s) k)
     \<and> timers_at (intervals s') a = []
     \<and> (timers_at (timeouts s') a \<noteq> [] \<longleftrightarrow> running s \<or> m_reconnectTimer (heap s a) \<noteq> None)
     \<and> m_state (heap s' a) = (if m_state (heap s a) = Connected then Disconnected else ConnError)"
proof -
  let ?s' = "handleConnectionError a err s"
  have "linv ?s'" using assms by (rule linv_handleConnectionError)
  then have t: "timers_at (intervals ?s') a = olist (m_pollingTimer (heap ?s' a))"
    "timers_at (timeouts ?s') a = olist (m_reconnectTimer (heap ?s' a))"
    by (simp_all add: linv_but_def timers_ok_def)
  have "m_pollingTimer (heap ?s' a) = None"
    "m_reconnectTimer (heap ?s' a) \<noteq> None \<longleftrightarrow> running s \<or> m_reconnectTimer (heap s a) \<noteq> None"
    "m_state (heap ?s' a) = (if m_state (heap s a) = Connected then Disconnected else ConnError)"
    by (simp_all add: failed_cell_def)
  with t show ?thesis
    by (simp add: Let_def error_currentValues bad_since_fold quality_fold_other)
qed

section \<open>What a read does\<close>

lemma cache_readings_other:
  "k \<notin> (\<lambda>r. map_id (fst r)) ` set rs \<Longrightarrow>
    jget (currentValues (cache_readings a rs s)) k = jget (currentValues s) k"
  by (induction a rs s rule: cache_readings.induct) (auto simp: cacheValue_def)

lemma cache_readings_get:
  "distinct (map (\<lambda>r. map_id (fst r)) rs) \<Longrightarrow> (mp, v, q) \<in> set rs \<Longrightarrow>
    jget (currentValues (cache_readings a rs s)) (map_id mp) = Some (reading a mp v q s)"
proof (induction a rs s rule: cache_readings.induct)
  case (1 a s)
  then show ?case by simp
next
  case (2 a mp' v' q' rs s)
  have "reading a mp v q (cacheValue i x s) = reading a mp v q s" for i x
    by (simp add: reading_def cacheValue_def)
  with 2 show ?case
    by (auto simp: cache_readings_other cacheValue_def)
qed

end
