(* ===== verification/S7.thy ===== *)
theory S7
  imports ProtocolSteps
begin

text \<open>
  \<open>src/connectors/protocols/s7/index.ts\<close>: the Siemens S7 connector. A poll asks \<open>nodes7\<close>
  for every item of its poll list; several reads may be in flight at a time. The theory
  interprets the two protocol contracts, and follows three runs the contracts do not exclude.
\<close>

section \<open>The connector\<close>

record s7_fields =
  s7_host :: jsval
  s7_rack :: jsval
  s7_slot :: jsval

type_synonym s7_connector = "s7_fields connector"

definition s7_extractParams :: "connection_config \<Rightarrow> string + s7_fields" where
  "s7_extractParams cfg =
     (let ps = members (cfg_params cfg);
          host = getprop ps ''host'';
          rack = nullish_or (getprop ps ''rack'') (jint 0);
          slot = nullish_or (getprop ps ''slot'') (jint 1)
      in if cfg_params cfg = JNull then Inl null_params
         else if \<not> truthy host then Inl (host_required ''S7'' cfg)
         else Inr \<lparr>s7_host = host, s7_rack = rack, s7_slot = slot\<rparr>)"

definition s7_applyParams :: "s7_fields \<Rightarrow> s7_fields \<Rightarrow> s7_fields" where
  "s7_applyParams old p =
     old\<lparr>s7_host := s7_host p, s7_rack := s7_rack p, s7_slot := s7_slot p\<rparr>"

definition s7_closeClient :: "addr \<Rightarrow> s7_connector \<Rightarrow> s7_connector" where
  "s7_closeClient a s =
     (case m_client (heap s a) of None \<Rightarrow> s | Some c \<Rightarrow> client_call c CloseClient s)"

definition s7_addMapping :: "mapping \<Rightarrow> s7_connector \<Rightarrow> s7_fields call_result" where
  "s7_addMapping mp s =
     (case jget (connections s) (map_connectionId mp) of
        None \<Rightarrow> (Some (not_found ''Connection'' (map_connectionId mp)), s)
      | Some a \<Rightarrow>
          (let s1 = put_mapping a mp s
           in (None,
               (case m_client (heap s1 a) of
                  Some c \<Rightarrow> if m_state (heap s1 a) = Connected
                            then client_call c (AddItems [map_deviceAddress mp]) s1 else s1
                | None \<Rightarrow> s1))))"

definition s7_removeMapping :: "string \<Rightarrow> s7_connector \<Rightarrow> s7_fields call_result" where
  "s7_removeMapping i s =
     (case find_mapping s i of
        None \<Rightarrow> (Some (not_found ''Mapping'' i), s)
      | Some a \<Rightarrow>
          (let mp = the (jget (m_mappings (heap s a)) i);
               s1 = drop_mapping a i s;
               s2 = (case m_client (heap s1 a) of
                       Some c \<Rightarrow> if m_state (heap s1 a) = Connected
                                 then client_call c (RemoveItems (map_deviceAddress mp)) s1 else s1
                     | None \<Rightarrow> s1)
           in (None, uncache i s2)))"

definition s7_initiateConnection :: "addr \<Rightarrow> s7_connector \<Rightarrow> s7_connector" where
  "s7_initiateConnection a s = (if m_connecting (heap s a) then s else open_client a s)"

text \<open>The function \<open>poll\<close> inside \<open>startPolling\<close>.\<close>

definition s7_poll :: "addr \<Rightarrow> s7_connector \<Rightarrow> s7_connector" where
  "s7_poll a s =
     (let m = heap s a in
      case m_client m of
        None \<Rightarrow> s
      | Some c \<Rightarrow>
          if m_state m \<noteq> Connected then s
          else if m_mappings m = [] then s
          else request_read c (PendAll a) s)"

definition s7_startPolling :: "addr \<Rightarrow> s7_connector \<Rightarrow> s7_connector" where
  "s7_startPolling = start_polling_with s7_poll"

text \<open>The callback of \<open>client.initiateConnection\<close>.\<close>

definition s7_onConnect :: "addr \<Rightarrow> handle \<Rightarrow> js_error option \<Rightarrow> s7_connector \<Rightarrow> s7_connector" where
  "s7_onConnect a h err s =
     (let s1 = modify a (\<lambda>m. m\<lparr>m_connecting := False\<rparr>) s in
      case err of
        Some e \<Rightarrow> handleConnectionError a e s1
      | None \<Rightarrow>
          (case m_client (heap s1 a) of
             None \<Rightarrow>
               log_at LWarn (cfg_name (m_config (heap s1 a)))
                 ''Connection succeeded but client was already cleaned up - ignoring'' s1
           | Some c \<Rightarrow>
               (let s2 = mark_connected a s1;
                    s3 = log_at LInfo (cfg_name (m_config (heap s2 a)))
                           ''Connected successfully'' s2;
                    addresses = map map_deviceAddress (jvalues (m_mappings (heap s3 a)));
                    s4 = (if addresses \<noteq> [] then client_call c (AddItems addresses) s3 else s3);
                    s5 = emitQualityUpdate a Good s4
                in s7_startPolling a s5)))"

text \<open>The mappings a read has a value for.\<close>

definition s7_readings ::
  "(string \<times> jsval) list \<Rightarrow> mapping list \<Rightarrow> (mapping \<times> jsval \<times> quality) list" where
  "s7_readings vs ms =
     map (\<lambda>m. (m, getprop vs (map_deviceAddress m), Good))
       (filter (\<lambda>m. getprop vs (map_deviceAddress m) \<noteq> JUndefined) ms)"

text \<open>The callback of \<open>client.readAllItems\<close>.\<close>

fun s7_onRead :: "pending_read \<Rightarrow> read_result \<Rightarrow> s7_connector \<Rightarrow> s7_connector" where
  "s7_onRead (PendAll a) (ReadFailed _ e) s = handleConnectionError a e s"
| "s7_onRead (PendAll a) (ReadValues vs) s =
     (let s1 = modify a (\<lambda>m. m\<lparr>m_lastPollAt := Some (clock s)\<rparr>) s;
          ms = jvalues (m_mappings (heap s1 a));
          rs = s7_readings vs ms;
          s2 = cache_readings a rs s1;
          us = readings_updates (clock s) rs
      in if us \<noteq> []
         then emitValueUpdates us
                (log_text_at LDebug (cfg_name (m_config (heap s2 a)))
                   (read_summary ''var(s)'' ms us) s2)
         else s2)"
| "s7_onRead _ _ s = s"

definition s7_vtable :: "s7_fields vtable" where
  "s7_vtable =
     \<lparr>vt_extractParams = s7_extractParams, vt_applyParams = s7_applyParams,
      vt_initiate = s7_initiateConnection, vt_closeClient = s7_closeClient,
      vt_addMapping = s7_addMapping, vt_removeMapping = s7_removeMapping,
      vt_onConnect = s7_onConnect, vt_poll = s7_poll, vt_onRead = s7_onRead\<rparr>"

lemma s7_vtable_simps [simp]:
  "vt_extractParams s7_vtable = s7_extractParams" "vt_applyParams s7_vtable = s7_applyParams"
  "vt_initiate s7_vtable = s7_initiateConnection" "vt_closeClient s7_vtable = s7_closeClient"
  "vt_addMapping s7_vtable = s7_addMapping" "vt_removeMapping s7_vtable = s7_removeMapping"
  "vt_onConnect s7_vtable = s7_onConnect" "vt_poll s7_vtable = s7_poll"
  "vt_onRead s7_vtable = s7_onRead"
  by (simp_all add: s7_vtable_def)

text \<open>A fresh S7 connector.\<close>

definition s7_new :: s7_connector where
  "s7_new = new_connector ''s7'' True
     (new_managed \<lparr>cfg_id = [], cfg_type = ''s7'', cfg_name = [], cfg_params = JNull,
        cfg_pollingIntervalMs = 0, cfg_reconnectIntervalMs = 0, cfg_enabled = False,
        cfg_createdAt = []\<rparr>
        \<lparr>s7_host = JUndefined, s7_rack = JUndefined, s7_slot = JUndefined\<rparr>)"

lemma s7_new_linv: "linv s7_new"
  by (simp add: s7_new_def new_managed_def linv_new_connector)

lemma s7_new_progress: "progress s7_new"
  by (simp add: s7_new_def progress_new_connector)

section \<open>The contracts hold\<close>

lemma s7_poll_fields [simp]:
  "heap (s7_poll a s) = heap s" "connections (s7_poll a s) = connections s"
  "running (s7_poll a s) = running s" "next_addr (s7_poll a s) = next_addr s"
  by (auto simp: s7_poll_def Let_def split: option.split)

lemma s7_poll_linv: "linv_but E s \<Longrightarrow> a < next_addr s \<Longrightarrow> linv_but E (s7_poll a s)"
  by (auto simp: s7_poll_def Let_def split: option.split)

lemma s7_startPolling_fields [simp]:
  "connections (s7_startPolling a s) = connections s"
  "running (s7_startPolling a s) = running s" "next_addr (s7_startPolling a s) = next_addr s"
  "b \<noteq> a \<Longrightarrow> heap (s7_startPolling a s) b = heap s b"
  "m_config (heap (s7_startPolling a s) a) = m_config (heap s a)"
  "m_connecting (heap (s7_startPolling a s) a) = m_connecting (heap s a)"
  "m_state (heap (s7_startPolling a s) a) = m_state (heap s a)"
  by (auto simp: s7_startPolling_def start_polling_with_def)

lemma s7_startPolling_linv:
  "linv_but {a} s \<Longrightarrow> a < next_addr s \<Longrightarrow> m_client (heap s a) \<noteq> None \<Longrightarrow>
    linv (s7_startPolling a s)"
  unfolding s7_startPolling_def
  by (rule linv_start_polling) (simp_all add: s7_poll_linv)

lemma s7_onConnect_linv:
  assumes "linv s" and "a < next_addr s"
  shows "linv (s7_onConnect a h r s)"
proof (cases r)
  case (Some e)
  with assms show ?thesis
    by (simp add: s7_onConnect_def linv_handleConnectionError linv_set_connecting)
next
  case None
  show ?thesis
  proof (cases "m_client (heap s a)")
    case None
    with assms \<open>r = None\<close> show ?thesis
      by (simp add: s7_onConnect_def linv_set_connecting)
  next
    case (Some c)
    have "linv_but {a} (mark_connected a (modify a (\<lambda>m. m\<lparr>m_connecting := False\<rparr>) s))"
      by (rule linv_mark_connected) (use assms Some in \<open>simp_all add: linv_set_connecting\<close>)
    with assms \<open>r = None\<close> Some show ?thesis
      by (auto simp: s7_onConnect_def Let_def intro!: s7_startPolling_linv)
  qed
qed

lemma s7_onRead_linv:
  "linv s \<Longrightarrow> pend_addr p < next_addr s \<Longrightarrow> linv (s7_onRead p x s)"
  by (induction p x s rule: s7_onRead.induct)
    (simp_all add: linv_handleConnectionError linv_set_lastPoll Let_def)

lemma s7_addMapping_linv: "linv s \<Longrightarrow> linv (snd (s7_addMapping mp s))"
  by (auto simp: s7_addMapping_def Let_def dest: linv_lookup intro!: linv_put_mapping
      split: option.split)

lemma s7_removeMapping_linv: "linv s \<Longrightarrow> linv (snd (s7_removeMapping i s))"
  by (auto simp: s7_removeMapping_def Let_def dest!: find_mapping_mapped dest: linv_table
      intro!: linv_drop_mapping split: option.split)

lemma s7_initiate_linv:
  "linv s \<Longrightarrow> a < next_addr s \<Longrightarrow> active a s \<Longrightarrow> linv (s7_initiateConnection a s)"
  by (simp add: s7_initiateConnection_def linv_open_client)

interpretation s7: protocol s7_vtable
  by unfold_locales
    (auto simp: s7_closeClient_def core_client_call s7_initiateConnection_def linv_open_client
      s7_addMapping_linv s7_removeMapping_linv s7_onConnect_linv s7_poll_linv s7_onRead_linv
      split: option.split)

lemma s7_onConnect_settles:
  assumes "m_client (heap s a) \<noteq> None"
  shows "one_cell a s (s7_onConnect a h r s) \<and> settled (running s) (heap (s7_onConnect a h r s) a)"
  using assms
  by (auto simp: s7_onConnect_def Let_def one_cell_def settled_def failed_cell_def
      split: option.split)

lemma s7_onRead_settles:
  "pend_addr p = a \<Longrightarrow> m_state (heap s a) = Connected \<Longrightarrow> \<not> m_connecting (heap s a) \<Longrightarrow>
    one_cell a s (s7_onRead p x s) \<and> settled (running s) (heap (s7_onRead p x s) a)"
  by (induction p x s rule: s7_onRead.induct)
    (auto simp: one_cell_def settled_def failed_cell_def Let_def)

interpretation s7_calm: calm_protocol s7_vtable
proof
  fix a :: addr and s :: s7_connector
  show "m_state (heap s a) \<noteq> Connected \<Longrightarrow> vt_poll s7_vtable a s = s"
    by (simp add: s7_poll_def Let_def split: option.split)
next
  fix a :: addr and s :: s7_connector
  assume "m_state (heap s a) = Connected" "\<not> m_connecting (heap s a)"
  then show "one_cell a s (vt_poll s7_vtable a s)
      \<and> settled (running s) (heap (vt_poll s7_vtable a s) a)"
    by (simp add: one_cell_def settled_def)
next
  fix mp and s :: s7_connector
  show "same_life s (snd (vt_addMapping s7_vtable mp s))"
    by (auto simp: s7_addMapping_def Let_def same_life_def split: option.split)
next
  fix i and s :: s7_connector
  show "same_life s (snd (vt_removeMapping s7_vtable i s))"
    by (auto simp: s7_removeMapping_def Let_def same_life_def split: option.split)
qed (simp_all add: s7_initiateConnection_def s7_onConnect_settles s7_onRead_settles)

section \<open>Runs outside the calm ones\<close>

definition demo_config :: connection_config where
  "demo_config = \<lparr>cfg_id = ''c1'', cfg_type = ''s7'', cfg_name = ''PLC'',
     cfg_params = JObj [(''host'', JStr ''10.0.0.1'')], cfg_pollingIntervalMs = 1000,
     cfg_reconnectIntervalMs = 5000, cfg_enabled = True, cfg_createdAt = []\<rparr>"

definition demo_mapping :: mapping where
  "demo_mapping = \<lparr>map_id = ''m1'', map_connectionId = ''c1'', map_nodeId = Some ''n1'',
     map_deviceAddress = ''DB1,REAL0'', map_description = None, map_createdAt = []\<rparr>"

definition plc_error :: js_error where
  "plc_error = ErrObj (Some ''read failed'')"

text \<open>
  An enabled connection of a running connector that nothing will bring back: it is not
  connected, not being connected, not due to be reconnected, and the event loop holds no
  callback for it.
\<close>

definition abandoned :: "'p connector \<Rightarrow> bool" where
  "abandoned s \<longleftrightarrow>
     running s \<and>
     list_ex (\<lambda>a. cfg_enabled (m_config (heap s a)) \<and> m_state (heap s a) \<noteq> Connected
                  \<and> \<not> m_connecting (heap s a) \<and> m_reconnectTimer (heap s a) = None)
       (jvalues (connections s)) \<and>
     timeouts s = [] \<and> intervals s = [] \<and> handshakes s = [] \<and> reads s = []"

text \<open>
  Two reads of one connection fail, the second after the handshake of the reconnection has
  started: the reconnection it schedules takes the client away from the handshake.
\<close>

definition stale_read_run :: "event list" where
  "stale_read_run =
     [ApiCall (AddConnection demo_config), ApiCall (AddMapping demo_mapping), ApiCall Start,
      HandshakeDone 0 0 None, PollTimer 1 0,
      ReadDone (PendAll 0) (ReadFailed OtherErr plc_error), ReconnectTimer 2 0,
      ReadDone (PendAll 0) (ReadFailed OtherErr plc_error), ReconnectTimer 4 0,
      HandshakeDone 0 3 None]"

text \<open>A connection that is removed while its handshake runs, and whose handshake fails.\<close>

definition removed_run :: "event list" where
  "removed_run =
     [ApiCall (AddConnection demo_config), ApiCall (AddMapping demo_mapping), ApiCall Start,
      ApiCall (RemoveConnection ''c1''), HandshakeDone 0 0 (Some plc_error), ReconnectTimer 1 0,
      HandshakeDone 0 2 None, ApiCall Stop]"

definition run_ends ::
  "'p vtable \<Rightarrow> event list \<Rightarrow> 'p connector \<Rightarrow> ('p connector \<Rightarrow> bool) \<Rightarrow> bool" where
  "run_ends vt es s P = (case run vt (\<lambda>_ _. True) es s of None \<Rightarrow> False | Some t \<Rightarrow> P t)"

lemma run_ends_reach:
  "run_ends vt es s P \<Longrightarrow> \<exists>t. reach vt (\<lambda>_ _. True) s t \<and> P t"
  by (auto simp: run_ends_def split: option.splits dest: run_reach)

named_theorems s7_run \<open>the definitions a run of the connector computes with\<close>

lemmas [s7_run] =
  run_ends_def s7_new_def new_connector_def new_managed_def demo_config_def demo_mapping_def
  plc_error_def addConnection_def s7_addMapping_def removeConnection_def start_def start_one_def
  stop_def disconnectAndCleanup_def fire_reconnect_def handleConnectionError_def
  scheduleReconnect_def emitQualityUpdate_def quality_step_def quality_updates_def
  stopPolling_def setPolling_def clearReconnect_def setReconnect_def modify_def
  log_text_at_def push_own_def push_capped_def client_call_def put_mapping_def
  s7_extractParams_def s7_initiateConnection_def s7_closeClient_def s7_poll_def
  s7_startPolling_def start_polling_with_def s7_onConnect_def open_client_def
  mark_connected_def request_read_def getprop_def nullish_or_def nullish_def Let_def

text \<open>The update of a connected connection by a configuration without a host.\<close>

definition rejected_update_run :: "event list" where
  "rejected_update_run =
     [ApiCall (AddConnection demo_config), ApiCall Start, HandshakeDone 0 0 None,
      ApiCall (UpdateConnection (demo_config\<lparr>cfg_params := JNull\<rparr>))]"

text \<open>A connection that delivers a value and is then removed.\<close>

definition removed_with_value_run :: "event list" where
  "removed_with_value_run =
     [ApiCall (AddConnection demo_config), ApiCall (AddMapping demo_mapping), ApiCall Start,
      HandshakeDone 0 0 None, ReadDone (PendAll 0) (ReadValues [(''DB1,REAL0'', jint 7)]),
      ApiCall (RemoveConnection ''c1'')]"

lemmas [s7_run] =
  updateConnection_def removeMapping_def s7_applyParams_def s7_readings_def reading_def
  readings_updates_def reading_update_def read_summary_def cacheValue_def
  emitValueUpdates_def host_required_def null_params_def MAX_LOG_ENTRIES_def abandoned_def getCurrentValues_def

text \<open>A run of the S7 connector in which two reads of one connection fail, the second one
  after the handshake of the reconnection has started, ends with an enabled connection of a
  running connector that is neither connected nor being connected nor due to be reconnected,
  while no callback is pending: nothing but an API call brings it back.\<close>

lemma s7_stale_read_abandons:
  "\<exists>s. reach s7_vtable (\<lambda>_ _. True) s7_new s \<and> abandoned s"
proof -
  have "run_ends s7_vtable stale_read_run s7_new abandoned"
    by (simp add: s7_run stale_read_run_def)
  then show ?thesis by (rule run_ends_reach)
qed

text \<open>A run of the S7 connector in which a connection is removed while its handshake runs and
  the handshake then fails ends, after \<open>stop\<close>, with a stopped connector that has no
  connection and yet a polling timer: the removed connection reconnected and polls.\<close>

lemma s7_removed_connection_polls:
  "\<exists>s. reach s7_vtable (\<lambda>_ _. True) s7_new s \<and>
       \<not> running s \<and> connections s = [] \<and> intervals s \<noteq> [] \<and> reads s \<noteq> []"
proof -
  have "run_ends s7_vtable removed_run s7_new
      (\<lambda>s. \<not> running s \<and> connections s = [] \<and> intervals s \<noteq> [] \<and> reads s \<noteq> [])"
    by (simp add: s7_run removed_run_def)
  then show ?thesis by (rule run_ends_reach)
qed

text \<open>Updating a connected S7 connection with a configuration that has no host throws and
  leaves the connection abandoned, with the configuration it had before.\<close>

lemma s7_rejected_update_abandons:
  "run_ends s7_vtable rejected_update_run s7_new
     (\<lambda>s. abandoned s \<and> getStatus s = [\<lparr>cs_connectionId = ''c1'', cs_state = Disconnected,
            cs_lastPollAt = None, cs_errorMessage = None\<rparr>]
          \<and> cfg_params (m_config (heap s 0)) = JObj [(''host'', JStr ''10.0.0.1'')])"
  by (simp add: s7_run rejected_update_run_def getStatus_def status_of_def)

text \<open>A removed connection's values stay among the current values, with quality good.\<close>

lemma s7_removed_connection_leaves_values:
  "run_ends s7_vtable removed_with_value_run s7_new
     (\<lambda>s. connections s = [] \<and>
          map (\<lambda>v. (cv_connectionId v, cv_quality v)) (getCurrentValues s) = [(''c1'', Good)])"
  by (simp add: s7_run removed_with_value_run_def)

text \<open>A connector with one connected connection and one mapping whose value was read.\<close>

definition connected_run :: "event list" where
  "connected_run =
     [ApiCall (AddConnection demo_config), ApiCall (AddMapping demo_mapping), ApiCall Start,
      HandshakeDone 0 0 None, ReadDone (PendAll 0) (ReadValues [(''DB1,REAL0'', jint 7)])]"

lemma connection_error_effect_witness:
  "\<exists>s. reach s7_vtable (\<lambda>_ _. True) s7_new s \<and> timers_at (intervals s) 0 \<noteq> []
    \<and> (let s' = handleConnectionError 0 plc_error s in
        timers_at (intervals s') 0 = [] \<and> timers_at (timeouts s') 0 \<noteq> []
        \<and> m_state (heap s' 0) = Disconnected
        \<and> bad_since (clock s) (jget (currentValues s') ''m1''))"
proof -
  have "run_ends s7_vtable connected_run s7_new (\<lambda>s. timers_at (intervals s) 0 \<noteq> [] \<and> running s
      \<and> m_state (heap s 0) = Connected \<and> 0 < next_addr s
      \<and> ''m1'' \<in> map_id ` set (jvalues (m_mappings (heap s 0))))"
    by (simp add: s7_run connected_run_def timers_at_def)
  from run_ends_reach [OF this] obtain s
    where s: "reach s7_vtable (\<lambda>_ _. True) s7_new s" "timers_at (intervals s) 0 \<noteq> []"
      "running s" "m_state (heap s 0) = Connected" "0 < next_addr s"
      "''m1'' \<in> map_id ` set (jvalues (m_mappings (heap s 0)))"
    by (elim exE conjE)
  have "linv s" using s(1) by (rule s7.reach_linv) (simp add: s7_new_def linv_new_connector new_managed_def)
  note effect = connection_error_effect [OF this s(5), of plc_error, unfolded Let_def]
  have "bad_since (clock s) (jget (currentValues (handleConnectionError 0 plc_error s)) ''m1'')"
    using conjunct1 [OF effect, THEN spec, of "''m1''"] s(6) by (simp only: if_True)
  with conjunct2 [OF effect] s(1-4) show ?thesis
    by (intro exI [of _ s]) (simp only: Let_def if_True simp_thms)
qed

end
