(* ===== verification/ModbusTcp.thy ===== *)
theory ModbusTcp
  imports ProtocolSteps
begin

text \<open>
  \<open>src/connectors/protocols/modbus-tcp/index.ts\<close>: the Modbus TCP connector. Device addresses
  are parsed here, and a poll is an asynchronous loop that reads one mapping after the other;
  every \<open>await\<close> of the loop is an event of its own. The loop iterates the live map of
  mappings: it continues with the first entry it has not visited, and an entry that is
  removed and added again counts as not visited.
\<close>

section \<open>Device addresses\<close>

datatype register_type = HR | IR | CO | DI

record parsed_address =
  pa_type :: register_type
  pa_address :: int
  pa_count :: int

definition bad_address :: "string \<Rightarrow> string \<Rightarrow> string \<Rightarrow> string" where
  "bad_address pre address post = pre @ quoted address @ post"

definition register_count :: "string list \<Rightarrow> int option" where
  "register_count parts =
     (case parts of
        _ # _ # p # _ \<Rightarrow> if p = [] then Some 1 else parseInt10 p
      | _ \<Rightarrow> Some 1)"

definition parseDeviceAddress :: "string \<Rightarrow> string + parsed_address" where
  "parseDeviceAddress address =
     (let parts = split_on CHR '':'' address in
      if length parts < 2 \<or> length parts > 3 then
        Inl (bad_address ''Invalid Modbus device address format: '' address
               (''. Expected '' @ CHR 0x22 # ''TYPE:address[:count]'' @ [CHR 0x22]))
      else
        (let ty = toUpperCase (parts ! 0) in
         case parseInt10 (parts ! 1) of
           None \<Rightarrow> Inl (bad_address ''Invalid Modbus address number in '' address
                          '': must be a non-negative integer'')
         | Some addr \<Rightarrow>
             if addr < 0 then
               Inl (bad_address ''Invalid Modbus address number in '' address
                      '': must be a non-negative integer'')
             else if ty = ''HR'' \<or> ty = ''IR'' then
               (case register_count parts of
                  None \<Rightarrow> Inl (bad_address ''Invalid register count in '' address
                                 '': must be a positive integer'')
                | Some count \<Rightarrow>
                    if count < 1 then
                      Inl (bad_address ''Invalid register count in '' address
                             '': must be a positive integer'')
                    else Inr \<lparr>pa_type = (if ty = ''HR'' then HR else IR),
                              pa_address = addr, pa_count = count\<rparr>)
             else if ty = ''CO'' \<or> ty = ''DI'' then
               Inr \<lparr>pa_type = (if ty = ''CO'' then CO else DI), pa_address = addr, pa_count = 1\<rparr>
             else Inl (''Unknown Modbus register type '' @ quoted ty @ '' in address ''
                         @ quoted address @ ''. Expected HR, IR, CO, or DI'')))"

text \<open>The canonical spelling of a parsed address.\<close>

fun show_type :: "register_type \<Rightarrow> string" where
  "show_type HR = ''HR''"
| "show_type IR = ''IR''"
| "show_type CO = ''CO''"
| "show_type DI = ''DI''"

definition show_address :: "parsed_address \<Rightarrow> string" where
  "show_address p =
     (if pa_type p = HR \<or> pa_type p = IR then
        join '':'' [show_type (pa_type p), show_int (pa_address p), show_int (pa_count p)]
      else join '':'' [show_type (pa_type p), show_int (pa_address p)])"

definition valid_address :: "parsed_address \<Rightarrow> bool" where
  "valid_address p \<longleftrightarrow>
     0 \<le> pa_address p \<and> 1 \<le> pa_count p \<and>
     (pa_type p = CO \<or> pa_type p = DI \<longrightarrow> pa_count p = 1)"

section \<open>The connector\<close>

record modbus_fields =
  mb_host :: jsval
  mb_port :: jsval
  mb_unitId :: jsval

type_synonym modbus_connector = "modbus_fields connector"

definition modbus_extractParams :: "connection_config \<Rightarrow> string + modbus_fields" where
  "modbus_extractParams cfg =
     (let ps = members (cfg_params cfg);
          host = getprop ps ''host'';
          port = nullish_or (getprop ps ''port'') (jint 502);
          unitId = nullish_or (getprop ps ''unitId'') (jint 1)
      in if cfg_params cfg = JNull then Inl null_params
         else if \<not> truthy host then Inl (host_required ''Modbus'' cfg)
         else Inr \<lparr>mb_host = host, mb_port = port, mb_unitId = unitId\<rparr>)"

definition modbus_applyParams :: "modbus_fields \<Rightarrow> modbus_fields \<Rightarrow> modbus_fields" where
  "modbus_applyParams old p =
     old\<lparr>mb_host := mb_host p, mb_port := mb_port p, mb_unitId := mb_unitId p\<rparr>"

definition modbus_closeClient :: "addr \<Rightarrow> modbus_connector \<Rightarrow> modbus_connector" where
  "modbus_closeClient a s =
     (case m_client (heap s a) of None \<Rightarrow> s | Some c \<Rightarrow> client_call c CloseClient s)"

definition modbus_addMapping :: "mapping \<Rightarrow> modbus_connector \<Rightarrow> modbus_fields call_result" where
  "modbus_addMapping mp s =
     (case jget (connections s) (map_connectionId mp) of
        None \<Rightarrow> (Some (not_found ''Connection'' (map_connectionId mp)), s)
      | Some a \<Rightarrow>
          (case parseDeviceAddress (map_deviceAddress mp) of
             Inl e \<Rightarrow> (Some e, s)
           | Inr _ \<Rightarrow> (None, put_mapping a mp s)))"

text \<open>
  \<open>removeMapping\<close> is the method of the base class; deleting the entry also takes it out of the
  entries that the polls in flight have visited.
\<close>

fun unvisit :: "addr \<Rightarrow> string \<Rightarrow> pending_read \<Rightarrow> pending_read" where
  "unvisit a i (PendOne b mp seen us) =
     (if b = a then PendOne b mp (removeAll i seen) us else PendOne b mp seen us)"
| "unvisit a i p = p"

definition modbus_removeMapping :: "string \<Rightarrow> modbus_connector \<Rightarrow> modbus_fields call_result" where
  "modbus_removeMapping i s =
     (case find_mapping s i of
        None \<Rightarrow> removeMapping i s
      | Some a \<Rightarrow>
          (let (r, s1) = removeMapping i s
           in (r, s1\<lparr>reads := map (unvisit a i) (reads s1)\<rparr>)))"

definition modbus_initiateConnection :: "addr \<Rightarrow> modbus_connector \<Rightarrow> modbus_connector" where
  "modbus_initiateConnection a s = (if m_connecting (heap s a) then s else open_client a s)"

text \<open>The failures that mean the connection is lost: the message contains one of these.\<close>

definition connection_failures :: "string list" where
  "connection_failures =
     [''port not open'', ''timed out'', ''econnrefused'', ''econnreset'', ''ehostunreach'',
      ''enetunreach'', ''not connected'']"

text \<open>\<open>err?.message?.toLowerCase() || ''\<close>: a string has no message.\<close>

fun raw_message :: "js_error \<Rightarrow> string" where
  "raw_message (ErrStr s) = []"
| "raw_message (ErrObj m) = (case m of Some s \<Rightarrow> s | None \<Rightarrow> [])"

definition isConnectionError :: "js_error \<Rightarrow> bool" where
  "isConnectionError err =
     list_ex (\<lambda>f. str_includes (toLowerCase (raw_message err)) f) connection_failures"

definition read_failed_message :: "mapping \<Rightarrow> js_error \<Rightarrow> string" where
  "read_failed_message mp err =
     (let msg = (if raw_message err = [] then ''Read failed'' else raw_message err)
      in ''Failed to read '' @ map_deviceAddress mp @ '': '' @ msg)"

text \<open>The method \<open>readAddress\<close> calls, and what calling it on a client that is gone throws.\<close>

fun read_method :: "register_type \<Rightarrow> string" where
  "read_method HR = ''readHoldingRegisters''"
| "read_method IR = ''readInputRegisters''"
| "read_method CO = ''readCoils''"
| "read_method DI = ''readDiscreteInputs''"

definition null_client_error :: "parsed_address \<Rightarrow> js_error" where
  "null_client_error p =
     ErrObj (Some (''Cannot read properties of null (reading '' @ quoted (read_method (pa_type p))
       @ '')''))"

text \<open>
  The loop of a poll from the entries not yet visited: an entry whose address does not parse,
  or that is reached when the client is gone, runs into the inner \<open>catch\<close>, which logs a
  warning and gives up on a connection failure; the first other entry is requested. After the
  last entry the updates are sent.
\<close>

definition modbus_finish ::
  "addr \<Rightarrow> value_update list \<Rightarrow> modbus_connector \<Rightarrow> modbus_connector" where
  "modbus_finish a us s =
     (if us \<noteq> [] then
        (let s1 = modify a (\<lambda>m. m\<lparr>m_lastPollAt := Some (clock s)\<rparr>) s;
             ms = jvalues (m_mappings (heap s1 a));
             s2 = log_text_at LDebug (cfg_name (m_config (heap s1 a)))
                    (read_summary ''var(s)'' ms us) s1
         in emitValueUpdates us s2)
      else s)"

definition modbus_warn :: "addr \<Rightarrow> mapping \<Rightarrow> js_error \<Rightarrow> modbus_connector \<Rightarrow> modbus_connector" where
  "modbus_warn a mp e s =
     log_at LWarn (cfg_name (m_config (heap s a))) (read_failed_message mp e) s"

fun modbus_loop ::
  "addr \<Rightarrow> mapping list \<Rightarrow> string list \<Rightarrow> value_update list \<Rightarrow> modbus_connector \<Rightarrow> modbus_connector"
where
  "modbus_loop a [] seen us s = modbus_finish a us s"
| "modbus_loop a (mp # ms) seen us s =
     (let request =
        (case parseDeviceAddress (map_deviceAddress mp) of
           Inl e \<Rightarrow> Inl (ErrObj (Some e))
         | Inr p \<Rightarrow>
             (case m_client (heap s a) of None \<Rightarrow> Inl (null_client_error p) | Some c \<Rightarrow> Inr c))
      in case request of
           Inl e \<Rightarrow>
             (if isConnectionError e then handleConnectionError a e (modbus_warn a mp e s)
              else modbus_loop a ms (map_id mp # seen) us (modbus_warn a mp e s))
         | Inr c \<Rightarrow> request_read c (PendOne a mp (map_id mp # seen) us) s)"

definition unvisited :: "modbus_connector \<Rightarrow> addr \<Rightarrow> string list \<Rightarrow> mapping list" where
  "unvisited s a seen =
     map snd (filter (\<lambda>p. \<not> List.member seen (fst p)) (m_mappings (heap s a)))"

definition modbus_poll :: "addr \<Rightarrow> modbus_connector \<Rightarrow> modbus_connector" where
  "modbus_poll a s =
     (let m = heap s a in
      case m_client m of
        None \<Rightarrow> s
      | Some c \<Rightarrow>
          if m_state m \<noteq> Connected then s
          else if m_mappings m = [] then s
          else modbus_loop a (jvalues (m_mappings m)) []  []
                 (client_call c (SetUnit (mb_unitId (m_proto m))) s))"

definition modbus_startPolling :: "addr \<Rightarrow> modbus_connector \<Rightarrow> modbus_connector" where
  "modbus_startPolling = start_polling_with modbus_poll"

text \<open>
  The two callbacks of \<open>client.connectTCP\<close>; \<open>h\<close> is the client the handshake belongs to.
\<close>

definition modbus_onConnect ::
  "addr \<Rightarrow> handle \<Rightarrow> js_error option \<Rightarrow> modbus_connector \<Rightarrow> modbus_connector" where
  "modbus_onConnect a h err s =
     (let s1 = modify a (\<lambda>m. m\<lparr>m_connecting := False\<rparr>) s in
      case err of
        Some e \<Rightarrow> handleConnectionError a e s1
      | None \<Rightarrow>
          (case m_client (heap s1 a) of
             None \<Rightarrow>
               log_at LWarn (cfg_name (m_config (heap s1 a)))
                 ''Connection succeeded but client was already cleaned up - ignoring'' s1
           | Some c \<Rightarrow>
               (let s2 = mark_connected a s1;
                    p = m_proto (heap s2 a);
                    s3 = client_call h (SetUnit (mb_unitId p)) s2;
                    s4 = log_text_at LInfo (cfg_name (m_config (heap s3 a)))
                           (MsgWith ''Connected to {}:{} (unit {})''
                              [mb_host p, mb_port p, mb_unitId p]) s3;
                    s5 = emitQualityUpdate a Good s4
                in modbus_startPolling a s5)))"

text \<open>\<open>readAddress\<close>: the registers read, as one value or an array.\<close>

definition register_value :: "parsed_address \<Rightarrow> jsval list \<Rightarrow> jsval" where
  "register_value p vs =
     (let first = (case vs of [] \<Rightarrow> JUndefined | v # _ \<Rightarrow> v)
      in case pa_type p of
           HR \<Rightarrow> if pa_count p = 1 then first else JArr vs
         | IR \<Rightarrow> if pa_count p = 1 then first else JArr vs
         | CO \<Rightarrow> first
         | DI \<Rightarrow> first)"

text \<open>The continuation of a read inside the loop.\<close>

fun modbus_onRead :: "pending_read \<Rightarrow> read_result \<Rightarrow> modbus_connector \<Rightarrow> modbus_connector" where
  "modbus_onRead (PendOne a mp seen us) (ReadRegisters vs) s =
     (case parseDeviceAddress (map_deviceAddress mp) of
        Inl e \<Rightarrow> s
      | Inr p \<Rightarrow>
          (let v = register_value p vs;
               us' = us @ reading_update mp v Good (clock s);
               s1 = cacheValue (map_id mp) (reading a mp v Good s) s
           in modbus_loop a (unvisited s1 a seen) seen us' s1))"
| "modbus_onRead (PendOne a mp seen us) (ReadFailed _ e) s =
     (let s1 = modbus_warn a mp e s
      in if isConnectionError e then handleConnectionError a e s1
         else modbus_loop a (unvisited s1 a seen) seen us s1)"
| "modbus_onRead _ _ s = s"

definition modbus_vtable :: "modbus_fields vtable" where
  "modbus_vtable =
     \<lparr>vt_extractParams = modbus_extractParams, vt_applyParams = modbus_applyParams,
      vt_initiate = modbus_initiateConnection, vt_closeClient = modbus_closeClient,
      vt_addMapping = modbus_addMapping, vt_removeMapping = modbus_removeMapping,
      vt_onConnect = modbus_onConnect, vt_poll = modbus_poll, vt_onRead = modbus_onRead\<rparr>"

lemma modbus_vtable_simps [simp]:
  "vt_extractParams modbus_vtable = modbus_extractParams"
  "vt_applyParams modbus_vtable = modbus_applyParams"
  "vt_initiate modbus_vtable = modbus_initiateConnection"
  "vt_closeClient modbus_vtable = modbus_closeClient"
  "vt_addMapping modbus_vtable = modbus_addMapping"
  "vt_removeMapping modbus_vtable = modbus_removeMapping"
  "vt_onConnect modbus_vtable = modbus_onConnect" "vt_poll modbus_vtable = modbus_poll"
  "vt_onRead modbus_vtable = modbus_onRead"
  by (simp_all add: modbus_vtable_def)

definition modbus_new :: modbus_connector where
  "modbus_new = new_connector ''modbus-tcp'' True
     (new_managed \<lparr>cfg_id = [], cfg_type = ''modbus-tcp'', cfg_name = [], cfg_params = JNull,
        cfg_pollingIntervalMs = 0, cfg_reconnectIntervalMs = 0, cfg_enabled = False,
        cfg_createdAt = []\<rparr>
        \<lparr>mb_host = JUndefined, mb_port = JUndefined, mb_unitId = JUndefined\<rparr>)"

lemma modbus_new_linv: "linv modbus_new"
  by (simp add: modbus_new_def new_managed_def linv_new_connector)

lemma modbus_new_progress: "progress modbus_new"
  by (simp add: modbus_new_def progress_new_connector)

section \<open>The contracts hold\<close>

lemma modbus_finish_simps [simp]:
  "connections (modbus_finish a us s) = connections s"
  "running (modbus_finish a us s) = running s" "next_addr (modbus_finish a us s) = next_addr s"
  "heap (modbus_finish a us s)
     = (heap s)(a := (heap s a)\<lparr>m_lastPollAt := if us \<noteq> [] then Some (clock s)
                                              else m_lastPollAt (heap s a)\<rparr>)"
  by (simp_all add: modbus_finish_def Let_def)

lemma modbus_finish_linv: "linv_but E s \<Longrightarrow> a < next_addr s \<Longrightarrow> linv_but E (modbus_finish a us s)"
  by (simp add: modbus_finish_def Let_def linv_set_lastPoll)

lemma core_modbus_warn: "core (modbus_warn a mp e s) = core s"
  by (simp add: modbus_warn_def core_log_text_at)

lemmas modbus_warn_simps [simp] =
  core_modbus_warn [THEN coreD(1)] core_modbus_warn [THEN coreD(2)]
  core_modbus_warn [THEN coreD(4)] core_modbus_warn [THEN coreD(5)]
  core_modbus_warn [THEN linv_but_core] core_modbus_warn [THEN active_core]

lemma modbus_loop_frame:
  "connections (modbus_loop a ms seen us s) = connections s
   \<and> running (modbus_loop a ms seen us s) = running s
   \<and> next_addr (modbus_loop a ms seen us s) = next_addr s
   \<and> (\<forall>b. b \<noteq> a \<longrightarrow> heap (modbus_loop a ms seen us s) b = heap s b)
   \<and> polled_cell (running s) (heap s a) (heap (modbus_loop a ms seen us s) a)"
proof (induction a ms seen us s rule: modbus_loop.induct)
  case (1 a seen us s)
  show ?case by simp
next
  case (2 a mp ms seen us s)
  show ?case
  proof (cases "parseDeviceAddress (map_deviceAddress mp)")
    case (Inl e)
    with "2.IH" show ?thesis by auto
  next
    case (Inr p)
    with "2.IH" show ?thesis
      by (cases "m_client (heap s a)") auto
  qed
qed

lemma modbus_loop_simps [simp]:
  "connections (modbus_loop a ms seen us s) = connections s"
  "running (modbus_loop a ms seen us s) = running s"
  "next_addr (modbus_loop a ms seen us s) = next_addr s"
  "b \<noteq> a \<Longrightarrow> heap (modbus_loop a ms seen us s) b = heap s b"
  using modbus_loop_frame [of a ms seen us s] by auto

lemma modbus_loop_settles:
  assumes "core s1 = core s" and "m_state (heap s a) = Connected" "\<not> m_connecting (heap s a)"
  shows "one_cell a s (modbus_loop a ms seen us s1)
    \<and> settled (running s) (heap (modbus_loop a ms seen us s1) a)"
  using modbus_loop_frame [of a ms seen us s1] coreD [OF assms(1)] assms(2,3)
  by (auto simp: one_cell_def dest: polled_cell_fields)

lemma modbus_loop_linv:
  "linv_but E s \<Longrightarrow> a < next_addr s \<Longrightarrow> linv_but E (modbus_loop a ms seen us s)"
proof (induction a ms seen us s rule: modbus_loop.induct)
  case (1 a seen us s)
  then show ?case by (simp add: modbus_finish_linv)
next
  case (2 a mp ms seen us s)
  then show ?case
    by (auto simp: Let_def linv_handleConnectionError split: sum.split option.split)
qed

lemma modbus_poll_frame:
  "connections (modbus_poll a s) = connections s \<and> running (modbus_poll a s) = running s
   \<and> next_addr (modbus_poll a s) = next_addr s
   \<and> (\<forall>b. b \<noteq> a \<longrightarrow> heap (modbus_poll a s) b = heap s b)
   \<and> polled_cell (running s) (heap s a) (heap (modbus_poll a s) a)"
proof -
  have "polled_cell (running s) (heap s a) (heap (modbus_loop a ms seen us (client_call c p s)) a)"
    for ms seen us c p
    using modbus_loop_frame [of a ms seen us "client_call c p s"] by simp
  then show ?thesis
    by (auto simp: modbus_poll_def Let_def split: option.split)
qed

lemma modbus_poll_linv: "linv_but E s \<Longrightarrow> a < next_addr s \<Longrightarrow> linv_but E (modbus_poll a s)"
  by (auto simp: modbus_poll_def Let_def intro!: modbus_loop_linv split: option.split)

lemma modbus_startPolling_linv:
  "linv_but {a} s \<Longrightarrow> a < next_addr s \<Longrightarrow> m_client (heap s a) \<noteq> None \<Longrightarrow>
    linv (modbus_startPolling a s)"
  unfolding modbus_startPolling_def using modbus_poll_frame [of a s]
  by (intro linv_start_polling) (auto simp: modbus_poll_linv dest: polled_cell_fields)

lemma modbus_onConnect_linv:
  assumes "linv s" and "a < next_addr s"
  shows "linv (modbus_onConnect a h r s)"
proof (cases r)
  case (Some e)
  with assms show ?thesis
    by (simp add: modbus_onConnect_def linv_handleConnectionError linv_set_connecting)
next
  case None
  show ?thesis
  proof (cases "m_client (heap s a)")
    case None
    with assms \<open>r = None\<close> show ?thesis
      by (simp add: modbus_onConnect_def linv_set_connecting)
  next
    case (Some c)
    have "linv_but {a} (mark_connected a (modify a (\<lambda>m. m\<lparr>m_connecting := False\<rparr>) s))"
      by (rule linv_mark_connected) (use assms Some in \<open>simp_all add: linv_set_connecting\<close>)
    with assms \<open>r = None\<close> Some show ?thesis
      by (auto simp: modbus_onConnect_def Let_def intro!: modbus_startPolling_linv)
  qed
qed

lemma modbus_onRead_linv:
  "linv s \<Longrightarrow> pend_addr p < next_addr s \<Longrightarrow> linv (modbus_onRead p x s)"
  by (induction p x s rule: modbus_onRead.induct)
    (auto simp: Let_def linv_handleConnectionError intro!: modbus_loop_linv split: sum.split)

lemma modbus_addMapping_linv: "linv s \<Longrightarrow> linv (snd (modbus_addMapping mp s))"
  by (auto simp: modbus_addMapping_def dest: linv_lookup intro!: linv_put_mapping
      split: option.split sum.split)

lemma pend_addr_unvisit [simp]: "pend_addr (unvisit a i p) = pend_addr p"
  by (cases p) auto

lemma modbus_removeMapping_linv:
  assumes "linv s"
  shows "linv (snd (modbus_removeMapping i s))"
proof -
  have "linv s' \<Longrightarrow> linv (s'\<lparr>reads := map (unvisit a i) (reads s')\<rparr>)" for s' a
    by (simp add: linv_but_def table_ok_def timers_ok_def pending_ok_def mapped_def)
  with linv_removeMapping [OF assms, of i] show ?thesis
    by (auto simp: modbus_removeMapping_def split: option.split prod.split)
qed

interpretation modbus: protocol modbus_vtable
  by unfold_locales
    (auto simp: modbus_closeClient_def core_client_call modbus_initiateConnection_def
      linv_open_client modbus_addMapping_linv modbus_removeMapping_linv modbus_onConnect_linv
      modbus_poll_linv modbus_onRead_linv split: option.split)

lemma modbus_startPolling_fields:
  "connections (modbus_startPolling a s) = connections s
   \<and> running (modbus_startPolling a s) = running s
   \<and> next_addr (modbus_startPolling a s) = next_addr s
   \<and> (\<forall>b. b \<noteq> a \<longrightarrow> heap (modbus_startPolling a s) b = heap s b)
   \<and> m_config (heap (modbus_startPolling a s) a) = m_config (heap s a)
   \<and> (m_state (heap s a) = Connected \<longrightarrow> \<not> m_connecting (heap s a) \<longrightarrow>
        settled (running s) (heap (modbus_startPolling a s) a))"
  using modbus_poll_frame [of a s]
  by (auto simp: modbus_startPolling_def start_polling_with_def settled_def
      dest: polled_cell_fields)

lemma modbus_onConnect_settles:
  assumes "m_client (heap s a) \<noteq> None"
  shows "one_cell a s (modbus_onConnect a h r s)
    \<and> settled (running s) (heap (modbus_onConnect a h r s) a)"
proof (cases r)
  case (Some e)
  then show ?thesis
    by (simp add: modbus_onConnect_def one_cell_def)
next
  case None
  let ?s2 = "mark_connected a (modify a (\<lambda>m. m\<lparr>m_connecting := False\<rparr>) s)"
  from assms obtain c where c: "m_client (heap s a) = Some c" by auto
  obtain s5 where s5: "modbus_onConnect a h r s = modbus_startPolling a s5" "core s5 = core ?s2"
    using None c by (auto simp: modbus_onConnect_def Let_def core_simps)
  show ?thesis
    unfolding s5(1) using modbus_startPolling_fields [of a s5] coreD [OF s5(2)]
    by (simp add: one_cell_def)
qed

lemma modbus_onRead_settles:
  "pend_addr p = a \<Longrightarrow> m_state (heap s a) = Connected \<Longrightarrow> \<not> m_connecting (heap s a) \<Longrightarrow>
    one_cell a s (modbus_onRead p x s) \<and> settled (running s) (heap (modbus_onRead p x s) a)"
proof (induction p x s rule: modbus_onRead.induct)
  case (1 b mp seen us vs s)
  then show ?case
    by (auto simp: Let_def one_cell_def settled_def split: sum.split
        dest!: modbus_loop_settles [OF core_cacheValue])
next
  case (2 b mp seen us cl e s)
  then show ?case
    by (auto simp: Let_def one_cell_def settled_def failed_cell_def
        dest!: modbus_loop_settles [OF core_modbus_warn])
qed (auto simp: one_cell_def settled_def)

interpretation modbus_calm: calm_protocol modbus_vtable
proof
  fix a :: addr and s :: modbus_connector
  show "m_state (heap s a) \<noteq> Connected \<Longrightarrow> vt_poll modbus_vtable a s = s"
    by (simp add: modbus_poll_def Let_def split: option.split)
next
  fix a :: addr and s :: modbus_connector
  assume "m_state (heap s a) = Connected" "\<not> m_connecting (heap s a)"
  then show "one_cell a s (vt_poll modbus_vtable a s)
      \<and> settled (running s) (heap (vt_poll modbus_vtable a s) a)"
    using modbus_poll_frame [of a s] by (auto simp: one_cell_def dest: polled_cell_fields)
next
  fix mp and s :: modbus_connector
  show "same_life s (snd (vt_addMapping modbus_vtable mp s))"
    by (simp add: modbus_addMapping_def same_life_def split: option.split sum.split)
next
  fix i and s :: modbus_connector
  have "same_life s s' \<Longrightarrow> same_life s (s'\<lparr>reads := rs\<rparr>)" for s' rs
    by (simp add: same_life_def)
  then show "same_life s (snd (vt_removeMapping modbus_vtable i s))"
    using same_life_removeMapping [of s i]
    by (auto simp: modbus_removeMapping_def split: option.split prod.split)
qed (simp_all add: modbus_initiateConnection_def modbus_onConnect_settles modbus_onRead_settles)

section \<open>Parsing addresses\<close>

lemma parseDeviceAddress_valid: "parseDeviceAddress s = Inr p \<Longrightarrow> valid_address p"
  by (auto simp: parseDeviceAddress_def valid_address_def Let_def
      split: if_splits option.splits)

lemma upper_show_type [simp]: "toUpperCase (show_type t) = show_type t"
  by (cases t) (simp_all add: upper_char_def)

lemma colon_not_digit: "c \<in> set (show_nat n) \<Longrightarrow> c \<noteq> CHR '':''"
  using show_nat_digits [of c n] by (auto simp: is_digit_def)

lemma colon_show_int: "0 \<le> i \<Longrightarrow> CHR '':'' \<notin> set (show_int i)"
  by (auto simp: show_int_def dest: colon_not_digit)

lemma colon_show_type: "CHR '':'' \<notin> set (show_type t)"
  by (cases t) simp_all

lemma show_address_parts:
  assumes "valid_address p"
  shows "split_on CHR '':'' (show_address p) =
    (if pa_type p = HR \<or> pa_type p = IR
     then [show_type (pa_type p), show_int (pa_address p), show_int (pa_count p)]
     else [show_type (pa_type p), show_int (pa_address p)])"
proof -
  let ?three = "[show_type (pa_type p), show_int (pa_address p), show_int (pa_count p)]"
  let ?two = "[show_type (pa_type p), show_int (pa_address p)]"
  have "\<forall>s \<in> set ?three. CHR '':'' \<notin> set s" "\<forall>s \<in> set ?two. CHR '':'' \<notin> set s"
    using assms by (simp_all add: valid_address_def colon_show_int colon_show_type)
  then have "split_on CHR '':'' (join '':'' ?three) = ?three"
    "split_on CHR '':'' (join '':'' ?two) = ?two"
    by (simp_all only: split_join list.distinct not_False_eq_True simp_thms)
  then show ?thesis
    by (simp only: show_address_def split: if_split) simp
qed

lemma show_nat_not_Nil: "show_nat n \<noteq> []"
  using parseInt10_show_nat [of n] by (auto simp: parseInt10_def Let_def)

lemma canonical_address:
  assumes "valid_address p"
  shows "parseDeviceAddress (show_address p) = Inr p"
proof -
  have n: "parseInt10 (show_int i) = Some i" if "0 \<le> i" for i
    using that by (simp add: show_int_def parseInt10_show_nat)
  have v: "0 \<le> pa_address p" "1 \<le> pa_count p" "pa_type p = CO \<or> pa_type p = DI \<Longrightarrow> pa_count p = 1"
    using assms by (auto simp: valid_address_def)
  then have "show_int (pa_count p) \<noteq> []" by (simp add: show_int_def show_nat_not_Nil)
  then show ?thesis
    using v n [OF v(1)] n [of "pa_count p"]
    unfolding parseDeviceAddress_def Let_def show_address_parts [OF assms]
    by (cases p; cases "pa_type p") (simp_all add: register_count_def upper_char_def)
qed

text \<open>C20: Parsing a Modbus address yields a register type, an address that is not negative and a
  count of at least one, which is one for coils and discrete inputs; every such triple is the
  parse of its canonical spelling, so that parsing is onto and idempotent through spelling.\<close>

theorem modbus_address_round_trip:
  "(parseDeviceAddress s = Inr p \<longrightarrow> valid_address p \<and> parseDeviceAddress (show_address p) = Inr p)
   \<and> (valid_address p \<longrightarrow> (\<exists>s'. parseDeviceAddress s' = Inr p))"
  using parseDeviceAddress_valid [of s p] canonical_address [of p] by blast

lemma modbus_address_round_trip_witness:
  "parseDeviceAddress ''hr:007:2x'' = Inr \<lparr>pa_type = HR, pa_address = 7, pa_count = 2\<rparr>
   \<and> parseDeviceAddress (show_address \<lparr>pa_type = HR, pa_address = 7, pa_count = 2\<rparr>)
       = Inr \<lparr>pa_type = HR, pa_address = 7, pa_count = 2\<rparr>"
proof -
  have "parseDeviceAddress ''hr:007:2x'' = Inr \<lparr>pa_type = HR, pa_address = 7, pa_count = 2\<rparr>"
    by code_simp
  with modbus_address_round_trip [of "''hr:007:2x''" "\<lparr>pa_type = HR, pa_address = 7, pa_count = 2\<rparr>"]
  show ?thesis by blast
qed

end
