(* ===== verification/EthernetIp.thy ===== *)
theory EthernetIp
  imports ProtocolSteps
begin

text \<open>
  \<open>src/connectors/protocols/ethernet-ip/index.ts\<close>: the EtherNet/IP connector. A poll reads
  all tags of the mappings the connection has when it starts, and the answer is matched with
  that snapshot by position; the flag \<open>pollInProgress\<close> keeps polls of one connection apart.
  An error of a read either starts a reconnection or only marks the values bad.
\<close>

section \<open>The connector\<close>

record eip_fields =
  eip_host :: jsval
  eip_port :: jsval
  eip_slot :: jsval
  eip_pollInProgress :: bool

type_synonym eip_connector = "eip_fields connector"

definition eip_extractParams :: "connection_config \<Rightarrow> string + eip_fields" where
  "eip_extractParams cfg =
     (let ps = members (cfg_params cfg);
          host = getprop ps ''host'';
          port = nullish_or (getprop ps ''port'') (jint 44818);
          slot = nullish_or (getprop ps ''slot'') (jint 0)
      in if cfg_params cfg = JNull then Inl null_params
         else if \<not> truthy host then Inl (host_required ''EtherNet/IP'' cfg)
         else Inr \<lparr>eip_host = host, eip_port = port, eip_slot = slot, eip_pollInProgress = False\<rparr>)"

definition eip_applyParams :: "eip_fields \<Rightarrow> eip_fields \<Rightarrow> eip_fields" where
  "eip_applyParams old p =
     old\<lparr>eip_host := eip_host p, eip_port := eip_port p, eip_slot := eip_slot p\<rparr>"

definition eip_closeClient :: "addr \<Rightarrow> eip_connector \<Rightarrow> eip_connector" where
  "eip_closeClient a s =
     (case m_client (heap s a) of None \<Rightarrow> s | Some c \<Rightarrow> client_call c CloseClient s)"

definition eip_addMapping :: "mapping \<Rightarrow> eip_connector \<Rightarrow> eip_fields call_result" where
  "eip_addMapping mp s =
     (case jget (connections s) (map_connectionId mp) of
        None \<Rightarrow> (Some (not_found ''Connection'' (map_connectionId mp)), s)
      | Some a \<Rightarrow> (None, put_mapping a mp s))"

definition eip_initiateConnection :: "addr \<Rightarrow> eip_connector \<Rightarrow> eip_connector" where
  "eip_initiateConnection a s =
     (if m_connecting (heap s a) then s
      else (let p = m_proto (heap s a)
            in open_client a
                 (log_text_at LInfo (cfg_name (m_config (heap s a)))
                    (MsgWith ''Connecting to {}:{} slot {}...'' [eip_host p, eip_port p, eip_slot p])
                    s)))"

definition set_poll_in_progress :: "bool \<Rightarrow> addr \<Rightarrow> eip_connector \<Rightarrow> eip_connector" where
  "set_poll_in_progress b a s =
     modify a (\<lambda>m. m\<lparr>m_proto := (m_proto m)\<lparr>eip_pollInProgress := b\<rparr>\<rparr>) s"

text \<open>The first part of \<open>pollTags\<close>, up to the read; the rest is \<open>eip_onRead\<close>.\<close>

definition eip_pollTags :: "addr \<Rightarrow> eip_connector \<Rightarrow> eip_connector" where
  "eip_pollTags a s =
     (case m_client (heap s a) of
        None \<Rightarrow> s
      | Some c \<Rightarrow>
          request_read c (PendTags a (jvalues (m_mappings (heap s a)))) (set_poll_in_progress True a s))"

definition eip_poll :: "addr \<Rightarrow> eip_connector \<Rightarrow> eip_connector" where
  "eip_poll a s =
     (let m = heap s a in
      if m_state m \<noteq> Connected \<or> m_client m = None then s
      else if m_mappings m = [] then s
      else if eip_pollInProgress (m_proto m) then s
      else eip_pollTags a s)"

definition eip_startPolling :: "addr \<Rightarrow> eip_connector \<Rightarrow> eip_connector" where
  "eip_startPolling = start_polling_with eip_poll"

text \<open>The two callbacks of \<open>plc.connect\<close>.\<close>

definition eip_onConnect ::
  "addr \<Rightarrow> handle \<Rightarrow> js_error option \<Rightarrow> eip_connector \<Rightarrow> eip_connector" where
  "eip_onConnect a h err s =
     (let s1 = modify a (\<lambda>m. m\<lparr>m_connecting := False\<rparr>) s in
      case err of
        Some e \<Rightarrow> handleConnectionError a e s1
      | None \<Rightarrow>
          if m_client (heap s1 a) = None then
            log_at LWarn (cfg_name (m_config (heap s1 a)))
              ''Connection succeeded but PLC was already cleaned up - ignoring'' s1
          else (let s2 = mark_connected a s1;
                    s3 = log_at LInfo (cfg_name (m_config (heap s2 a)))
                           ''Connected successfully'' s2
                in eip_startPolling a (emitQualityUpdate a Good s3)))"

fun normalizeTagValue :: "tag_value \<Rightarrow> jsval" where
  "normalizeTagValue (TagBigInt i) = jint i"
| "normalizeTagValue (TagBuffer bs) = JArr (map (\<lambda>b. jint (int b)) bs)"
| "normalizeTagValue (TagPlain v) = v"

text \<open>
  The mappings with the values at their positions; a position past the end of the answer
  reads as \<open>undefined\<close>, and an undefined value is skipped.
\<close>

fun eip_readings :: "mapping list \<Rightarrow> tag_value list \<Rightarrow> (mapping \<times> jsval \<times> quality) list" where
  "eip_readings (mp # ms) (v # vs) =
     (if v = TagPlain JUndefined then eip_readings ms vs
      else (mp, normalizeTagValue v, Good) # eip_readings ms vs)"
| "eip_readings _ _ = []"

definition eip_values_read ::
  "addr \<Rightarrow> mapping list \<Rightarrow> tag_value list \<Rightarrow> eip_connector \<Rightarrow> eip_connector" where
  "eip_values_read a ms vs s =
     (let s1 = modify a (\<lambda>m. m\<lparr>m_lastPollAt := Some (clock s)\<rparr>) s;
          rs = eip_readings ms vs;
          s2 = cache_readings a rs s1;
          us = readings_updates (clock s) rs;
          s3 = (if us \<noteq> [] then
                  emitValueUpdates us
                    (log_text_at LDebug (cfg_name (m_config (heap s2 a)))
                       (read_summary ''tag(s)'' ms us) s2)
                else s2)
      in set_poll_in_progress False a s3)"

text \<open>\<open>(err as Error)?.message ?? 'Unknown error'\<close>: a string has no message.\<close>

fun poll_error_message :: "js_error \<Rightarrow> string" where
  "poll_error_message (ErrStr s) = ''Unknown error''"
| "poll_error_message (ErrObj m) = (case m of Some s \<Rightarrow> s | None \<Rightarrow> ''Unknown error'')"

text \<open>\<open>(err as Error).message\<close> in the branches of the library's own error classes.\<close>

fun class_error_message :: "js_error \<Rightarrow> string" where
  "class_error_message (ErrStr s) = ''undefined''"
| "class_error_message (ErrObj m) = (case m of Some s \<Rightarrow> s | None \<Rightarrow> ''undefined'')"

definition socket_failures :: "string list" where
  "socket_failures = [''ECONNRESET'', ''EPIPE'', ''socket'', ''Not connected'', ''Connection lost'']"

text \<open>Does the error of a read mean that the connection is lost?\<close>

definition lost_connection :: "error_class \<Rightarrow> js_error \<Rightarrow> bool" where
  "lost_connection cl e =
     (case cl of
        ConnectionErr \<Rightarrow> True
      | SessionErr \<Rightarrow> True
      | TimeoutErr \<Rightarrow> False
      | CipErr \<Rightarrow> False
      | OtherErr \<Rightarrow> list_ex (str_includes (poll_error_message e)) socket_failures)"

definition read_warning :: "error_class \<Rightarrow> js_error \<Rightarrow> string" where
  "read_warning cl e =
     (case cl of
        TimeoutErr \<Rightarrow> ''Read timeout: '' @ class_error_message e
      | CipErr \<Rightarrow> ''CIP error reading tags: '' @ class_error_message e
      | _ \<Rightarrow> ''Poll error: '' @ poll_error_message e)"

definition eip_read_failed ::
  "addr \<Rightarrow> error_class \<Rightarrow> js_error \<Rightarrow> eip_connector \<Rightarrow> eip_connector" where
  "eip_read_failed a cl e s =
     (let s1 = set_poll_in_progress False a s
      in if lost_connection cl e then handleConnectionError a e s1
         else emitQualityUpdate a Bad
                (log_at LWarn (cfg_name (m_config (heap s1 a))) (read_warning cl e) s1))"

fun eip_onRead :: "pending_read \<Rightarrow> read_result \<Rightarrow> eip_connector \<Rightarrow> eip_connector" where
  "eip_onRead (PendTags a ms) (ReadTagValues vs) s = eip_values_read a ms vs s"
| "eip_onRead (PendTags a ms) (ReadFailed cl e) s = eip_read_failed a cl e s"
| "eip_onRead _ _ s = s"

definition eip_vtable :: "eip_fields vtable" where
  "eip_vtable =
     \<lparr>vt_extractParams = eip_extractParams, vt_applyParams = eip_applyParams,
      vt_initiate = eip_initiateConnection, vt_closeClient = eip_closeClient,
      vt_addMapping = eip_addMapping, vt_removeMapping = removeMapping,
      vt_onConnect = eip_onConnect, vt_poll = eip_poll, vt_onRead = eip_onRead\<rparr>"

lemma eip_vtable_simps [simp]:
  "vt_extractParams eip_vtable = eip_extractParams" "vt_applyParams eip_vtable = eip_applyParams"
  "vt_initiate eip_vtable = eip_initiateConnection"
  "vt_closeClient eip_vtable = eip_closeClient" "vt_addMapping eip_vtable = eip_addMapping"
  "vt_removeMapping eip_vtable = removeMapping" "vt_onConnect eip_vtable = eip_onConnect"
  "vt_poll eip_vtable = eip_poll" "vt_onRead eip_vtable = eip_onRead"
  by (simp_all add: eip_vtable_def)

definition eip_new :: eip_connector where
  "eip_new = new_connector ''ethernet-ip'' False
     (new_managed \<lparr>cfg_id = [], cfg_type = ''ethernet-ip'', cfg_name = [], cfg_params = JNull,
        cfg_pollingIntervalMs = 0, cfg_reconnectIntervalMs = 0, cfg_enabled = False,
        cfg_createdAt = []\<rparr>
        \<lparr>eip_host = JUndefined, eip_port = JUndefined, eip_slot = JUndefined,
         eip_pollInProgress = False\<rparr>)"

lemma eip_new_linv: "linv eip_new"
  by (simp add: eip_new_def new_managed_def linv_new_connector)

lemma eip_new_progress: "progress eip_new"
  by (simp add: eip_new_def progress_new_connector)

section \<open>The contracts hold\<close>

lemma set_poll_in_progress_simps [simp]:
  "heap (set_poll_in_progress b a s)
     = (heap s)(a := (heap s a)\<lparr>m_proto := (m_proto (heap s a))\<lparr>eip_pollInProgress := b\<rparr>\<rparr>)"
  "connections (set_poll_in_progress b a s) = connections s"
  "running (set_poll_in_progress b a s) = running s"
  "next_addr (set_poll_in_progress b a s) = next_addr s"
  "clock (set_poll_in_progress b a s) = clock s"
  by (simp_all add: set_poll_in_progress_def modify_def)

lemma linv_set_poll_in_progress:
  "linv_but E s \<Longrightarrow> a < next_addr s \<Longrightarrow> linv_but E (set_poll_in_progress b a s)"
  unfolding set_poll_in_progress_def by (rule linv_set_proto)

lemma eip_poll_frame:
  "connections (eip_poll a s) = connections s \<and> running (eip_poll a s) = running s
   \<and> next_addr (eip_poll a s) = next_addr s
   \<and> (\<forall>b. b \<noteq> a \<longrightarrow> heap (eip_poll a s) b = heap s b)
   \<and> polled_cell (running s) (heap s a) (heap (eip_poll a s) a)"
  by (auto simp: eip_poll_def eip_pollTags_def Let_def split: option.split)

lemma eip_poll_linv: "linv_but E s \<Longrightarrow> a < next_addr s \<Longrightarrow> linv_but E (eip_poll a s)"
  by (auto simp: eip_poll_def eip_pollTags_def Let_def intro!: linv_request_read
      linv_set_poll_in_progress split: option.split)

lemma eip_startPolling_linv:
  "linv_but {a} s \<Longrightarrow> a < next_addr s \<Longrightarrow> m_client (heap s a) \<noteq> None \<Longrightarrow>
    linv (eip_startPolling a s)"
  unfolding eip_startPolling_def using eip_poll_frame [of a s]
  by (intro linv_start_polling) (auto simp: eip_poll_linv dest: polled_cell_fields)

lemma eip_onConnect_linv:
  assumes "linv s" and "a < next_addr s"
  shows "linv (eip_onConnect a h r s)"
proof (cases r)
  case (Some e)
  with assms show ?thesis
    by (simp add: eip_onConnect_def linv_handleConnectionError linv_set_connecting)
next
  case None
  show ?thesis
  proof (cases "m_client (heap s a)")
    case None
    with assms \<open>r = None\<close> show ?thesis
      by (simp add: eip_onConnect_def linv_set_connecting)
  next
    case (Some c)
    have "linv_but {a} (mark_connected a (modify a (\<lambda>m. m\<lparr>m_connecting := False\<rparr>) s))"
      by (rule linv_mark_connected) (use assms Some in \<open>simp_all add: linv_set_connecting\<close>)
    with assms \<open>r = None\<close> Some show ?thesis
      by (auto simp: eip_onConnect_def Let_def intro!: eip_startPolling_linv)
  qed
qed

lemma eip_values_read_fields [simp]:
  "connections (eip_values_read a ms vs s) = connections s"
  "running (eip_values_read a ms vs s) = running s"
  "next_addr (eip_values_read a ms vs s) = next_addr s"
  "b \<noteq> a \<Longrightarrow> heap (eip_values_read a ms vs s) b = heap s b"
  "m_config (heap (eip_values_read a ms vs s) a) = m_config (heap s a)"
  "m_connecting (heap (eip_values_read a ms vs s) a) = m_connecting (heap s a)"
  "m_state (heap (eip_values_read a ms vs s) a) = m_state (heap s a)"
  by (auto simp: eip_values_read_def Let_def)

lemma eip_values_read_linv:
  "linv s \<Longrightarrow> a < next_addr s \<Longrightarrow> linv (eip_values_read a ms vs s)"
  by (auto simp: eip_values_read_def Let_def linv_set_lastPoll intro!: linv_set_poll_in_progress)

lemma eip_read_failed_linv:
  "linv s \<Longrightarrow> a < next_addr s \<Longrightarrow> linv (eip_read_failed a cl e s)"
  by (simp add: eip_read_failed_def Let_def linv_set_poll_in_progress linv_handleConnectionError)

lemma eip_onRead_linv:
  "linv s \<Longrightarrow> pend_addr p < next_addr s \<Longrightarrow> linv (eip_onRead p x s)"
  by (induction p x s rule: eip_onRead.induct)
    (simp_all add: eip_values_read_linv eip_read_failed_linv)

lemma eip_addMapping_linv: "linv s \<Longrightarrow> linv (snd (eip_addMapping mp s))"
  by (auto simp: eip_addMapping_def dest: linv_lookup intro!: linv_put_mapping split: option.split)

interpretation eip: protocol eip_vtable
  by unfold_locales
    (auto simp: eip_closeClient_def core_client_call eip_initiateConnection_def Let_def
      linv_open_client eip_addMapping_linv linv_removeMapping eip_onConnect_linv
      eip_poll_linv eip_onRead_linv split: option.split)

lemma eip_startPolling_fields:
  "connections (eip_startPolling a s) = connections s
   \<and> running (eip_startPolling a s) = running s
   \<and> next_addr (eip_startPolling a s) = next_addr s
   \<and> (\<forall>b. b \<noteq> a \<longrightarrow> heap (eip_startPolling a s) b = heap s b)
   \<and> m_config (heap (eip_startPolling a s) a) = m_config (heap s a)
   \<and> (m_state (heap s a) = Connected \<longrightarrow> \<not> m_connecting (heap s a) \<longrightarrow>
        settled (running s) (heap (eip_startPolling a s) a))"
  using eip_poll_frame [of a s]
  by (auto simp: eip_startPolling_def start_polling_with_def settled_def
      dest: polled_cell_fields)

lemma eip_onConnect_settles:
  assumes "m_client (heap s a) \<noteq> None"
  shows "one_cell a s (eip_onConnect a h r s)
    \<and> settled (running s) (heap (eip_onConnect a h r s) a)"
proof (cases r)
  case (Some e)
  then show ?thesis
    by (simp add: eip_onConnect_def one_cell_def)
next
  case None
  let ?s2 = "mark_connected a (modify a (\<lambda>m. m\<lparr>m_connecting := False\<rparr>) s)"
  obtain s5 where s5: "eip_onConnect a h r s = eip_startPolling a s5" "core s5 = core ?s2"
    using None assms by (auto simp: eip_onConnect_def Let_def core_simps)
  show ?thesis
    unfolding s5(1) using eip_startPolling_fields [of a s5] coreD [OF s5(2)]
    by (simp add: one_cell_def)
qed

lemma eip_onRead_settles:
  "pend_addr p = a \<Longrightarrow> m_state (heap s a) = Connected \<Longrightarrow> \<not> m_connecting (heap s a) \<Longrightarrow>
    one_cell a s (eip_onRead p x s) \<and> settled (running s) (heap (eip_onRead p x s) a)"
  by (induction p x s rule: eip_onRead.induct)
    (auto simp: one_cell_def settled_def failed_cell_def eip_read_failed_def Let_def)

interpretation eip_calm: calm_protocol eip_vtable
proof
  fix a :: addr and s :: eip_connector
  show "m_state (heap s a) \<noteq> Connected \<Longrightarrow> vt_poll eip_vtable a s = s"
    by (simp add: eip_poll_def Let_def)
next
  fix a :: addr and s :: eip_connector
  assume "m_state (heap s a) = Connected" "\<not> m_connecting (heap s a)"
  then show "one_cell a s (vt_poll eip_vtable a s)
      \<and> settled (running s) (heap (vt_poll eip_vtable a s) a)"
    using eip_poll_frame [of a s] by (auto simp: one_cell_def dest: polled_cell_fields)
next
  fix mp and s :: eip_connector
  show "same_life s (snd (vt_addMapping eip_vtable mp s))"
    by (simp add: eip_addMapping_def same_life_def split: option.split)
next
  fix i and s :: eip_connector
  show "same_life s (snd (vt_removeMapping eip_vtable i s))"
    by (simp add: same_life_removeMapping)
qed (simp_all add: eip_initiateConnection_def Let_def eip_onConnect_settles eip_onRead_settles)

end
