(* ===== verification/Regex.thy ===== *)
theory Regex
  imports Prelude
begin

text \<open>
  The regular expressions of the sources, as trees, with a matcher by derivatives and the
  rules that read a match off its parts. Only whole-string expressions (\<open>/^...$/\<close>) are used.
\<close>

section \<open>Expressions and matching\<close>

datatype rx =
    NoMatch
  | Empty
  | Cls "char \<Rightarrow> bool"
  | Seq rx rx
  | Alt rx rx
  | Star rx

fun nullable :: "rx \<Rightarrow> bool" where
  "nullable NoMatch = False"
| "nullable Empty = True"
| "nullable (Cls p) = False"
| "nullable (Seq r t) = (nullable r \<and> nullable t)"
| "nullable (Alt r t) = (nullable r \<or> nullable t)"
| "nullable (Star r) = True"

text \<open>Constructors that drop dead branches, so that derivatives stay small.\<close>

fun seq :: "rx \<Rightarrow> rx \<Rightarrow> rx" where
  "seq NoMatch t = NoMatch"
| "seq Empty t = t"
| "seq r t = Seq r t"

fun alt :: "rx \<Rightarrow> rx \<Rightarrow> rx" where
  "alt NoMatch t = t"
| "alt r NoMatch = r"
| "alt r t = Alt r t"

fun deriv :: "char \<Rightarrow> rx \<Rightarrow> rx" where
  "deriv c NoMatch = NoMatch"
| "deriv c Empty = NoMatch"
| "deriv c (Cls p) = (if p c then Empty else NoMatch)"
| "deriv c (Seq r t) =
     (if nullable r then alt (seq (deriv c r) t) (deriv c t) else seq (deriv c r) t)"
| "deriv c (Alt r t) = alt (deriv c r) (deriv c t)"
| "deriv c (Star r) = seq (deriv c r) (Star r)"

fun rx_test :: "rx \<Rightarrow> string \<Rightarrow> bool" where
  "rx_test r [] = nullable r"
| "rx_test r (c # s) = rx_test (deriv c r) s"

text \<open>The abbreviations of the notation.\<close>

abbreviation Opt :: "rx \<Rightarrow> rx" where
  "Opt r \<equiv> Alt r Empty"

abbreviation Plus :: "rx \<Rightarrow> rx" where
  "Plus r \<equiv> Seq r (Star r)"

abbreviation Chr :: "char \<Rightarrow> rx" where
  "Chr c \<equiv> Cls (\<lambda>x. x = c)"

fun lit_ci :: "string \<Rightarrow> rx" where
  "lit_ci [] = Empty"
| "lit_ci (c # s) = Seq (Cls (\<lambda>x. upper_char x = c)) (lit_ci s)"

fun alts :: "rx list \<Rightarrow> rx" where
  "alts [] = NoMatch"
| "alts (r # rs) = Alt r (alts rs)"

text \<open>\<open>{1,n}\<close>\<close>

fun upto_times :: "nat \<Rightarrow> rx \<Rightarrow> rx" where
  "upto_times 0 r = NoMatch"
| "upto_times (Suc 0) r = r"
| "upto_times (Suc n) r = Seq r (Opt (upto_times n r))"

section \<open>Reading a match\<close>

lemma rx_test_NoMatch [simp]: "\<not> rx_test NoMatch s"
  by (induction s) auto

lemma rx_test_Empty [simp]: "rx_test Empty s \<longleftrightarrow> s = []"
  by (cases s) auto

lemma rx_test_Cls [simp]: "rx_test (Cls p) s \<longleftrightarrow> (\<exists>c. s = [c] \<and> p c)"
  by (cases s) auto

lemma alt_NoMatch [simp]: "alt r NoMatch = r"
  by (cases r) auto

lemma nullable_alt [simp]: "nullable (alt r t) \<longleftrightarrow> nullable r \<or> nullable t"
  by (induction r t rule: alt.induct) auto

lemma deriv_alt [simp]: "deriv c (alt r t) = alt (deriv c r) (deriv c t)"
  by (induction r t rule: alt.induct) auto

lemma rx_test_alt [simp]: "rx_test (alt r t) s \<longleftrightarrow> rx_test r s \<or> rx_test t s"
  by (induction s arbitrary: r t) auto

lemma rx_test_Alt [simp]: "rx_test (Alt r t) s \<longleftrightarrow> rx_test r s \<or> rx_test t s"
  by (cases s) auto

lemma rx_test_seq: "rx_test (seq r t) s \<longleftrightarrow> rx_test (Seq r t) s"
proof (cases r)
  case Empty
  then show ?thesis by (cases s) auto
qed (cases s; simp)+

lemma rx_test_Seq:
  "rx_test (Seq r t) s \<longleftrightarrow> (\<exists>u v. s = u @ v \<and> rx_test r u \<and> rx_test t v)"
proof (induction s arbitrary: r)
  case Nil
  then show ?case by simp
next
  case (Cons c s)
  have "(\<exists>u v. c # s = u @ v \<and> rx_test r u \<and> rx_test t v) \<longleftrightarrow>
      (nullable r \<and> rx_test t (c # s)) \<or>
      (\<exists>u v. s = u @ v \<and> rx_test r (c # u) \<and> rx_test t v)"
    by (auto simp: Cons_eq_append_conv simp del: rx_test.simps(2)) force+
  then show ?case
    by (auto simp: rx_test_seq Cons.IH)
qed

lemma rx_test_Seq_Cls [simp]:
  "rx_test (Seq (Cls p) t) s \<longleftrightarrow> (\<exists>c v. s = c # v \<and> p c \<and> rx_test t v)"
  by (cases s) (auto simp: rx_test_Seq)

lemma rx_test_Star_Cls [simp]: "rx_test (Star (Cls p)) s \<longleftrightarrow> (\<forall>c \<in> set s. p c)"
proof (induction s)
  case Nil
  then show ?case by simp
next
  case (Cons c s)
  then show ?case by (auto simp: rx_test_seq rx_test_Seq)
qed

lemma rx_test_Plus_Cls [simp]:
  "rx_test (Plus (Cls p)) s \<longleftrightarrow> s \<noteq> [] \<and> (\<forall>c \<in> set s. p c)"
  by (cases s) auto

lemma rx_test_lit_ci: "rx_test (lit_ci w) s \<longleftrightarrow> toUpperCase s = w"
  by (induction w arbitrary: s) auto

lemma rx_test_alts: "rx_test (alts rs) s \<longleftrightarrow> (\<exists>r \<in> set rs. rx_test r s)"
  by (induction rs) auto

lemma rx_test_upto_times_Cls:
  "rx_test (upto_times n (Cls p)) s \<longleftrightarrow> 1 \<le> length s \<and> length s \<le> n \<and> (\<forall>c \<in> set s. p c)"
proof (induction n "Cls p" arbitrary: s rule: upto_times.induct)
  case 1
  then show ?case by auto
next
  case 2
  then show ?case by (cases s; cases "tl s") auto
next
  case (3 n)
  have "rx_test (upto_times (Suc (Suc n)) (Cls p)) s \<longleftrightarrow>
      (\<exists>c v. s = c # v \<and> p c \<and> (rx_test (upto_times (Suc n) (Cls p)) v \<or> v = []))"
    by simp
  also have "\<dots> \<longleftrightarrow> (\<exists>c v. s = c # v \<and> p c \<and> length v \<le> Suc n \<and> (\<forall>c \<in> set v. p c))"
    unfolding "3.hyps" by (auto simp: Suc_le_eq)
  finally show ?case by (cases s) auto
qed

end
