(* ===== verification/Pccc.thy ===== *)
theory Pccc
  imports ProtocolSteps Regex
begin

text \<open>
  \<open>src/connectors/protocols/pccc/index.ts\<close>: the connector for legacy Allen-Bradley PLCs. An
  address is checked against a regular expression and registered with \<open>nodepccc\<close> as soon as
  the connection has a client; a poll reads all registered items, and each item carries its
  own quality.
\<close>

section \<open>Addresses\<close>

definition is_letter :: "char \<Rightarrow> bool" where
  "is_letter c \<longleftrightarrow> 65 \<le> char_code (upper_char c) \<and> char_code (upper_char c) \<le> 90"

definition is_word_char :: "char \<Rightarrow> bool" where
  "is_word_char c \<longleftrightarrow> is_letter c \<or> is_digit c \<or> c = CHR ''_''"

definition bit_names :: "string list" where
  "bit_names =
     [''DN'', ''EN'', ''TT'', ''ACC'', ''PRE'', ''LEN'', ''POS'', ''CU'', ''CD'', ''OV'', ''UN'',
      ''UA'']"

definition PCCC_ADDRESS_REGEX :: rx where
  "PCCC_ADDRESS_REGEX =
     Seq (upto_times 2 (Cls is_letter))
    (Seq (Opt (Plus (Cls is_digit)))
    (Seq (Chr CHR '':'')
    (Seq (Plus (Cls is_digit))
    (Seq (Opt (Seq (Chr CHR ''/'') (alts (Plus (Cls is_digit) # map lit_ci bit_names))))
    (Seq (Opt (Seq (Chr CHR ''.'') (Plus (Cls is_word_char))))
         (Opt (Seq (Chr CHR '','') (Plus (Cls is_digit)))))))))"

definition invalid_pccc_address :: "string \<Rightarrow> string" where
  "invalid_pccc_address address =
     ''Invalid PCCC address '' @ quoted address @
     ''. Expected format: <FileType><FileNumber>:<Element>[/<Bit>][.SubElement][,ArrayLength]'' @
     '' (e.g., N7:0, F8:1, B3:0/5, T4:0.ACC)''"

section \<open>The connector\<close>

record pccc_fields =
  pccc_host :: jsval
  pccc_port :: jsval
  pccc_slot :: jsval
  pccc_routing :: jsval
  pccc_pollInProgress :: bool

type_synonym pccc_connector = "pccc_fields connector"

definition pccc_extractParams :: "connection_config \<Rightarrow> string + pccc_fields" where
  "pccc_extractParams cfg =
     (let ps = members (cfg_params cfg);
          host = getprop ps ''host'';
          port = nullish_or (getprop ps ''port'') (jint 44818);
          slot = nullish_or (getprop ps ''slot'') (jint 0);
          routing = getprop ps ''routing''
      in if cfg_params cfg = JNull then Inl null_params
         else if \<not> truthy host then Inl (host_required ''PCCC'' cfg)
         else Inr \<lparr>pccc_host = host, pccc_port = port, pccc_slot = slot, pccc_routing = routing,
                   pccc_pollInProgress = False\<rparr>)"

definition pccc_applyParams :: "pccc_fields \<Rightarrow> pccc_fields \<Rightarrow> pccc_fields" where
  "pccc_applyParams old p =
     old\<lparr>pccc_host := pccc_host p, pccc_port := pccc_port p, pccc_slot := pccc_slot p,
         pccc_routing := pccc_routing p\<rparr>"

definition pccc_closeClient :: "addr \<Rightarrow> pccc_connector \<Rightarrow> pccc_connector" where
  "pccc_closeClient a s =
     (case m_client (heap s a) of None \<Rightarrow> s | Some c \<Rightarrow> client_call c CloseClient s)"

definition pccc_addMapping :: "mapping \<Rightarrow> pccc_connector \<Rightarrow> pccc_fields call_result" where
  "pccc_addMapping mp s =
     (case jget (connections s) (map_connectionId mp) of
        None \<Rightarrow> (Some (not_found ''Connection'' (map_connectionId mp)), s)
      | Some a \<Rightarrow>
          if \<not> rx_test PCCC_ADDRESS_REGEX (map_deviceAddress mp) then
            (Some (invalid_pccc_address (map_deviceAddress mp)), s)
          else (let s1 = put_mapping a mp s
                in (None,
                    (case m_client (heap s1 a) of
                       Some c \<Rightarrow> client_call c (AddItems [map_deviceAddress mp]) s1
                     | None \<Rightarrow> s1))))"

definition pccc_removeMapping :: "string \<Rightarrow> pccc_connector \<Rightarrow> pccc_fields call_result" where
  "pccc_removeMapping i s =
     (case find_mapping s i of
        None \<Rightarrow> (Some (not_found ''Mapping'' i), s)
      | Some a \<Rightarrow>
          (let mp = the (jget (m_mappings (heap s a)) i);
               s1 = (case m_client (heap s a) of
                       Some c \<Rightarrow> client_call c (RemoveItems (map_deviceAddress mp)) s
                     | None \<Rightarrow> s)
           in (None, uncache i (drop_mapping a i s1))))"

definition pccc_initiateConnection :: "addr \<Rightarrow> pccc_connector \<Rightarrow> pccc_connector" where
  "pccc_initiateConnection a s =
     (if m_connecting (heap s a) then s
      else (let p = m_proto (heap s a)
            in open_client a
                 (log_text_at LInfo (cfg_name (m_config (heap s a)))
                    (MsgWith ''Connecting to {}:{}...'' [pccc_host p, pccc_port p]) s)))"

definition set_in_progress :: "bool \<Rightarrow> addr \<Rightarrow> pccc_connector \<Rightarrow> pccc_connector" where
  "set_in_progress b a s =
     modify a (\<lambda>m. m\<lparr>m_proto := (m_proto m)\<lparr>pccc_pollInProgress := b\<rparr>\<rparr>) s"

text \<open>The first part of \<open>pollAddresses\<close>, up to the read; the rest is \<open>pccc_onRead\<close>.\<close>

definition pccc_pollAddresses :: "addr \<Rightarrow> pccc_connector \<Rightarrow> pccc_connector" where
  "pccc_pollAddresses a s =
     (case m_client (heap s a) of
        None \<Rightarrow> s
      | Some c \<Rightarrow> request_read c (PendAll a) (set_in_progress True a s))"

definition pccc_poll :: "addr \<Rightarrow> pccc_connector \<Rightarrow> pccc_connector" where
  "pccc_poll a s =
     (let m = heap s a in
      if m_state m \<noteq> Connected \<or> m_client m = None then s
      else if m_mappings m = [] then s
      else if pccc_pollInProgress (m_proto m) then s
      else pccc_pollAddresses a s)"

definition pccc_startPolling :: "addr \<Rightarrow> pccc_connector \<Rightarrow> pccc_connector" where
  "pccc_startPolling = start_polling_with pccc_poll"

text \<open>The callback of \<open>plc.initiateConnection\<close>; here the guard comes first.\<close>

definition pccc_onConnect ::
  "addr \<Rightarrow> handle \<Rightarrow> js_error option \<Rightarrow> pccc_connector \<Rightarrow> pccc_connector" where
  "pccc_onConnect a h err s =
     (let s1 = modify a (\<lambda>m. m\<lparr>m_connecting := False\<rparr>) s in
      if m_client (heap s1 a) = None then
        log_at LWarn (cfg_name (m_config (heap s1 a)))
          ''Connection callback fired but PLC was already cleaned up - ignoring'' s1
      else (case err of
              Some e \<Rightarrow> handleConnectionError a e s1
            | None \<Rightarrow>
                (let s2 = mark_connected a s1;
                     s3 = log_at LInfo (cfg_name (m_config (heap s2 a)))
                            ''Connected successfully'' s2
                 in pccc_startPolling a (emitQualityUpdate a Good s3))))"

text \<open>The mappings \<open>findItem\<close> finds an item for.\<close>

definition item_quality :: "item \<Rightarrow> quality" where
  "item_quality it = (if item_ok it then Good else Bad)"

fun pccc_readings ::
  "(string \<times> item) list \<Rightarrow> mapping list \<Rightarrow> (mapping \<times> jsval \<times> quality) list" where
  "pccc_readings its [] = []"
| "pccc_readings its (mp # ms) =
     (case map_of its (map_deviceAddress mp) of
        None \<Rightarrow> pccc_readings its ms
      | Some it \<Rightarrow> (mp, item_value it, item_quality it) # pccc_readings its ms)"

definition all_bad :: "(string \<times> item) list \<Rightarrow> mapping list \<Rightarrow> bool" where
  "all_bad its ms \<longleftrightarrow>
     \<not> list_ex (\<lambda>mp. case map_of its (map_deviceAddress mp) of
                       Some it \<Rightarrow> item_ok it | None \<Rightarrow> False) ms"

definition pccc_items_read ::
  "addr \<Rightarrow> bool \<Rightarrow> (string \<times> item) list \<Rightarrow> pccc_connector \<Rightarrow> pccc_connector" where
  "pccc_items_read a anythingBad its s =
     (let s1 = set_in_progress False a s in
      if m_client (heap s1 a) = None then s1
      else (let ms = jvalues (m_mappings (heap s1 a)) in
            if anythingBad \<and> all_bad its ms then
              handleConnectionError a (ErrStr ''All items returned bad quality'') s1
            else (let s2 = modify a (\<lambda>m. m\<lparr>m_lastPollAt := Some (clock s1)\<rparr>) s1;
                      rs = pccc_readings its ms;
                      s3 = cache_readings a rs s2;
                      us = readings_updates (clock s1) rs
                  in if us \<noteq> [] then emitValueUpdates us s3 else s3)))"

text \<open>\<open>readAllItems\<close> has no error argument: it always answers with items.\<close>

fun pccc_onRead :: "pending_read \<Rightarrow> read_result \<Rightarrow> pccc_connector \<Rightarrow> pccc_connector" where
  "pccc_onRead (PendAll a) (ReadItems bad its) s = pccc_items_read a bad its s"
| "pccc_onRead _ _ s = s"

definition pccc_vtable :: "pccc_fields vtable" where
  "pccc_vtable =
     \<lparr>vt_extractParams = pccc_extractParams, vt_applyParams = pccc_applyParams,
      vt_initiate = pccc_initiateConnection, vt_closeClient = pccc_closeClient,
      vt_addMapping = pccc_addMapping, vt_removeMapping = pccc_removeMapping,
      vt_onConnect = pccc_onConnect, vt_poll = pccc_poll, vt_onRead = pccc_onRead\<rparr>"

lemma pccc_vtable_simps [simp]:
  "vt_extractParams pccc_vtable = pccc_extractParams"
  "vt_applyParams pccc_vtable = pccc_applyParams"
  "vt_initiate pccc_vtable = pccc_initiateConnection"
  "vt_closeClient pccc_vtable = pccc_closeClient" "vt_addMapping pccc_vtable = pccc_addMapping"
  "vt_removeMapping pccc_vtable = pccc_removeMapping"
  "vt_onConnect pccc_vtable = pccc_onConnect" "vt_poll pccc_vtable = pccc_poll"
  "vt_onRead pccc_vtable = pccc_onRead"
  by (simp_all add: pccc_vtable_def)

definition pccc_new :: pccc_connector where
  "pccc_new = new_connector ''pccc'' False
     (new_managed \<lparr>cfg_id = [], cfg_type = ''pccc'', cfg_name = [], cfg_params = JNull,
        cfg_pollingIntervalMs = 0, cfg_reconnectIntervalMs = 0, cfg_enabled = False,
        cfg_createdAt = []\<rparr>
        \<lparr>pccc_host = JUndefined, pccc_port = JUndefined, pccc_slot = JUndefined,
         pccc_routing = JUndefined, pccc_pollInProgress = False\<rparr>)"

lemma pccc_new_linv: "linv pccc_new"
  by (simp add: pccc_new_def new_managed_def linv_new_connector)

lemma pccc_new_progress: "progress pccc_new"
  by (simp add: pccc_new_def progress_new_connector)

section \<open>The contracts hold\<close>

lemma set_in_progress_simps [simp]:
  "heap (set_in_progress b a s)
     = (heap s)(a := (heap s a)\<lparr>m_proto := (m_proto (heap s a))\<lparr>pccc_pollInProgress := b\<rparr>\<rparr>)"
  "connections (set_in_progress b a s) = connections s"
  "running (set_in_progress b a s) = running s"
  "next_addr (set_in_progress b a s) = next_addr s"
  "clock (set_in_progress b a s) = clock s"
  by (simp_all add: set_in_progress_def modify_def)

lemma linv_set_in_progress:
  "linv_but E s \<Longrightarrow> a < next_addr s \<Longrightarrow> linv_but E (set_in_progress b a s)"
  unfolding set_in_progress_def by (rule linv_set_proto)

lemma pccc_poll_frame:
  "connections (pccc_poll a s) = connections s \<and> running (pccc_poll a s) = running s
   \<and> next_addr (pccc_poll a s) = next_addr s
   \<and> (\<forall>b. b \<noteq> a \<longrightarrow> heap (pccc_poll a s) b = heap s b)
   \<and> polled_cell (running s) (heap s a) (heap (pccc_poll a s) a)"
  by (auto simp: pccc_poll_def pccc_pollAddresses_def Let_def split: option.split)

lemma pccc_poll_linv: "linv_but E s \<Longrightarrow> a < next_addr s \<Longrightarrow> linv_but E (pccc_poll a s)"
  by (auto simp: pccc_poll_def pccc_pollAddresses_def Let_def intro!: linv_request_read
      linv_set_in_progress split: option.split)

lemma pccc_startPolling_linv:
  "linv_but {a} s \<Longrightarrow> a < next_addr s \<Longrightarrow> m_client (heap s a) \<noteq> None \<Longrightarrow>
    linv (pccc_startPolling a s)"
  unfolding pccc_startPolling_def using pccc_poll_frame [of a s]
  by (intro linv_start_polling) (auto simp: pccc_poll_linv dest: polled_cell_fields)

lemma pccc_onConnect_linv:
  assumes "linv s" and "a < next_addr s"
  shows "linv (pccc_onConnect a h r s)"
proof (cases r)
  case (Some e)
  with assms show ?thesis
    by (simp add: pccc_onConnect_def Let_def linv_handleConnectionError linv_set_connecting)
next
  case None
  show ?thesis
  proof (cases "m_client (heap s a)")
    case None
    with assms \<open>r = None\<close> show ?thesis
      by (simp add: pccc_onConnect_def linv_set_connecting)
  next
    case (Some c)
    have "linv_but {a} (mark_connected a (modify a (\<lambda>m. m\<lparr>m_connecting := False\<rparr>) s))"
      by (rule linv_mark_connected) (use assms Some in \<open>simp_all add: linv_set_connecting\<close>)
    with assms \<open>r = None\<close> Some show ?thesis
      by (auto simp: pccc_onConnect_def Let_def intro!: pccc_startPolling_linv)
  qed
qed

lemma pccc_items_read_linv:
  "linv s \<Longrightarrow> a < next_addr s \<Longrightarrow> linv (pccc_items_read a b its s)"
  by (simp add: pccc_items_read_def Let_def linv_set_lastPoll linv_set_in_progress
      linv_handleConnectionError)

lemma pccc_onRead_linv:
  "linv s \<Longrightarrow> pend_addr p < next_addr s \<Longrightarrow> linv (pccc_onRead p x s)"
  by (induction p x s rule: pccc_onRead.induct) (simp_all add: pccc_items_read_linv)

lemma pccc_removeMapping_linv: "linv s \<Longrightarrow> linv (snd (pccc_removeMapping i s))"
  by (auto simp: pccc_removeMapping_def Let_def dest!: find_mapping_mapped dest: linv_table
      intro!: linv_drop_mapping split: option.split)

lemma pccc_addMapping_linv: "linv s \<Longrightarrow> linv (snd (pccc_addMapping mp s))"
  by (auto simp: pccc_addMapping_def Let_def dest: linv_lookup intro!: linv_put_mapping
      split: option.split)

interpretation pccc: protocol pccc_vtable
  by unfold_locales
    (auto simp: pccc_closeClient_def core_client_call pccc_initiateConnection_def Let_def
      linv_open_client pccc_addMapping_linv pccc_removeMapping_linv pccc_onConnect_linv
      pccc_poll_linv pccc_onRead_linv split: option.split)

lemma pccc_startPolling_fields:
  "connections (pccc_startPolling a s) = connections s
   \<and> running (pccc_startPolling a s) = running s
   \<and> next_addr (pccc_startPolling a s) = next_addr s
   \<and> (\<forall>b. b \<noteq> a \<longrightarrow> heap (pccc_startPolling a s) b = heap s b)
   \<and> m_config (heap (pccc_startPolling a s) a) = m_config (heap s a)
   \<and> (m_state (heap s a) = Connected \<longrightarrow> \<not> m_connecting (heap s a) \<longrightarrow>
        settled (running s) (heap (pccc_startPolling a s) a))"
  using pccc_poll_frame [of a s]
  by (auto simp: pccc_startPolling_def start_polling_with_def settled_def
      dest: polled_cell_fields)

lemma pccc_onConnect_settles:
  assumes "m_client (heap s a) \<noteq> None"
  shows "one_cell a s (pccc_onConnect a h r s)
    \<and> settled (running s) (heap (pccc_onConnect a h r s) a)"
proof (cases r)
  case (Some e)
  then show ?thesis
    using assms by (auto simp: pccc_onConnect_def Let_def one_cell_def)
next
  case None
  let ?s2 = "mark_connected a (modify a (\<lambda>m. m\<lparr>m_connecting := False\<rparr>) s)"
  obtain s5 where s5: "pccc_onConnect a h r s = pccc_startPolling a s5" "core s5 = core ?s2"
    using None assms by (auto simp: pccc_onConnect_def Let_def core_simps)
  show ?thesis
    unfolding s5(1) using pccc_startPolling_fields [of a s5] coreD [OF s5(2)]
    by (simp add: one_cell_def)
qed

lemma pccc_onRead_settles:
  "pend_addr p = a \<Longrightarrow> m_state (heap s a) = Connected \<Longrightarrow> \<not> m_connecting (heap s a) \<Longrightarrow>
    one_cell a s (pccc_onRead p x s) \<and> settled (running s) (heap (pccc_onRead p x s) a)"
  by (induction p x s rule: pccc_onRead.induct)
    (auto simp: one_cell_def settled_def failed_cell_def pccc_items_read_def Let_def)

interpretation pccc_calm: calm_protocol pccc_vtable
proof
  fix a :: addr and s :: pccc_connector
  show "m_state (heap s a) \<noteq> Connected \<Longrightarrow> vt_poll pccc_vtable a s = s"
    by (simp add: pccc_poll_def Let_def)
next
  fix a :: addr and s :: pccc_connector
  assume "m_state (heap s a) = Connected" "\<not> m_connecting (heap s a)"
  then show "one_cell a s (vt_poll pccc_vtable a s)
      \<and> settled (running s) (heap (vt_poll pccc_vtable a s) a)"
    using pccc_poll_frame [of a s] by (auto simp: one_cell_def dest: polled_cell_fields)
next
  fix mp and s :: pccc_connector
  show "same_life s (snd (vt_addMapping pccc_vtable mp s))"
    by (auto simp: pccc_addMapping_def Let_def same_life_def split: option.split)
next
  fix i and s :: pccc_connector
  show "same_life s (snd (vt_removeMapping pccc_vtable i s))"
    by (auto simp: pccc_removeMapping_def Let_def same_life_def split: option.split)
qed (simp_all add: pccc_initiateConnection_def Let_def pccc_onConnect_settles pccc_onRead_settles)

end
