(* ===== verification/Handshakes.thy ===== *)
theory Handshakes
  imports S7 ModbusTcp EthernetIp Pccc
begin

text \<open>
  A connection whose flag \<open>connecting\<close> is set waits for a handshake that is pending, of the
  client it holds: the flag alone would not bring the connection on. The contract of a protocol
  is extended by what its methods do to the pending handshakes (locale \<open>handshaking\<close>), and the
  four protocols are shown to meet it.
\<close>

section \<open>Pending handshakes\<close>

definition awaited :: "'p connector \<Rightarrow> addr \<Rightarrow> bool" where
  "awaited s a \<longleftrightarrow> (\<exists>c. m_client (heap s a) = Some c \<and> (a, c) \<in> set (handshakes s))"

definition awaiting :: "'p connector \<Rightarrow> bool" where
  "awaiting s \<longleftrightarrow> (\<forall>a. m_connecting (heap s a) \<longrightarrow> awaited s a)"

text \<open>No handshake is forgotten, and a cell that is connecting was so before or is awaited now.\<close>

definition keeps_awaiting :: "'p connector \<Rightarrow> 'p connector \<Rightarrow> bool" where
  "keeps_awaiting s s' \<longleftrightarrow>
     set (handshakes s) \<subseteq> set (handshakes s') \<and>
     (\<forall>a. m_connecting (heap s' a) \<longrightarrow>
        m_connecting (heap s a) \<and> m_client (heap s' a) = m_client (heap s a) \<or> awaited s' a)"

lemma keeps_awaiting: "keeps_awaiting s s' \<Longrightarrow> awaiting s \<Longrightarrow> awaiting s'"
  unfolding keeps_awaiting_def awaiting_def awaited_def by (metis subsetD)

lemma keeps_awaiting_refl [simp]: "keeps_awaiting s s"
  by (simp add: keeps_awaiting_def)

lemma keeps_awaiting_trans:
  "keeps_awaiting s t \<Longrightarrow> keeps_awaiting t u \<Longrightarrow> keeps_awaiting s u"
  unfolding keeps_awaiting_def awaited_def by (metis subset_trans subsetD)

lemma keeps_awaiting_one_cell:
  assumes "set (handshakes s) \<subseteq> set (handshakes s')" and "\<And>b. b \<noteq> a \<Longrightarrow> heap s' b = heap s b"
    and "\<not> m_connecting (heap s' a)"
  shows "keeps_awaiting s s'"
  unfolding keeps_awaiting_def
proof (intro conjI allI impI)
  fix b assume "m_connecting (heap s' b)"
  with assms(2,3) show "m_connecting (heap s b) \<and> m_client (heap s' b) = m_client (heap s b)
      \<or> awaited s' b"
    by (cases "b = a") simp_all
qed (rule assms(1))

lemma keeps_awaiting_same_life:
  "same_life s s' \<Longrightarrow> handshakes s' = handshakes s \<Longrightarrow> keeps_awaiting s s'"
  by (simp add: keeps_awaiting_def same_life_def)

section \<open>The operations of the base class\<close>

named_theorems hs_simps \<open>operations that leave the pending handshakes alone\<close>

lemma handshakes_timers [hs_simps]:
  "handshakes (stopPolling a s) = handshakes s" "handshakes (setPolling a s) = handshakes s"
  "handshakes (clearReconnect a s) = handshakes s" "handshakes (setReconnect a s) = handshakes s"
  by (simp_all add: stopPolling_def setPolling_def clearReconnect_def setReconnect_def Let_def
      split: option.split)

lemma handshakes_outputs [hs_simps]:
  "handshakes (log_text_at lv n t s) = handshakes s" "handshakes (client_call c p s) = handshakes s"
  "handshakes (cacheValue i v s) = handshakes s" "handshakes (emitValueUpdates us s) = handshakes s"
  "handshakes (emitQualityUpdate a q s) = handshakes s"
  "handshakes (mark_connected a s) = handshakes s" "handshakes (request_read c r s) = handshakes s"
  by (simp_all add: log_text_at_def client_call_def cacheValue_def emitValueUpdates_def
      emitQualityUpdate_def mark_connected_def request_read_def Let_def)

lemma handshakes_readings [hs_simps]: "handshakes (cache_readings a rs s) = handshakes s"
  by (induction a rs s rule: cache_readings.induct) (simp_all add: hs_simps)

lemma handshakes_error [hs_simps]: "handshakes (handleConnectionError a e s) = handshakes s"
  by (simp add: handleConnectionError_def scheduleReconnect_def hs_simps Let_def)

lemma handshakes_mappings [hs_simps]:
  "handshakes (put_mapping a mp s) = handshakes s" "handshakes (drop_mapping a i s) = handshakes s"
  "handshakes (uncache i s) = handshakes s"
  "handshakes (snd (addMapping mp s)) = handshakes s"
  "handshakes (snd (removeMapping i s)) = handshakes s"
  by (simp_all add: put_mapping_def drop_mapping_def uncache_def addMapping_def removeMapping_def
      split: option.split)

lemma handshakes_start_polling [hs_simps]:
  "(\<And>s. handshakes (poll a s) = handshakes s) \<Longrightarrow>
    handshakes (start_polling_with poll a s) = handshakes s"
  by (simp add: start_polling_with_def hs_simps)

section \<open>The contract\<close>

locale handshaking = calm_protocol +
  assumes initiate_idle: "m_connecting (heap s a) \<Longrightarrow> vt_initiate vt a s = s"
    and initiate_handshake:
      "\<not> m_connecting (heap s a) \<Longrightarrow>
        handshakes (vt_initiate vt a s)
          = handshakes s @ [(a, the (m_client (heap (vt_initiate vt a s) a)))]"
    and handshakes_kept:
      "handshakes (vt_onConnect vt a c r s) = handshakes s"
      "handshakes (vt_onRead vt p x s) = handshakes s"
      "handshakes (vt_poll vt a s) = handshakes s"
      "handshakes (snd (vt_addMapping vt mp s)) = handshakes s"
      "handshakes (snd (vt_removeMapping vt i s)) = handshakes s"
begin

lemma initiate_keeps: "keeps_awaiting s (vt_initiate vt a s)"
proof (cases "m_connecting (heap s a)")
  case True
  then show ?thesis by (simp add: initiate_idle)
next
  case False
  obtain c where c: "heap (vt_initiate vt a s) a = (heap s a)\<lparr>m_connecting := True, m_client := Some c\<rparr>"
    using initiate_cell [OF False] by blast
  then have h: "handshakes (vt_initiate vt a s) = handshakes s @ [(a, c)]"
    using initiate_handshake [OF False] by simp
  show ?thesis
    unfolding keeps_awaiting_def
  proof (intro conjI allI impI)
    fix b assume "m_connecting (heap (vt_initiate vt a s) b)"
    with c h show "m_connecting (heap s b) \<and> m_client (heap (vt_initiate vt a s) b) = m_client (heap s b)
        \<or> awaited (vt_initiate vt a s) b"
      by (cases "b = a") (simp_all add: awaited_def initiate_frame)
  qed (auto simp: h)
qed

lemma close_handshakes [hs_simps]: "handshakes (vt_closeClient vt a s) = handshakes s"
  using coreD [OF close_core] by blast

lemma cleanup_keeps: "keeps_awaiting s (disconnectAndCleanup vt a s)"
proof (rule keeps_awaiting_one_cell [of _ _ a])
  show "set (handshakes s) \<subseteq> set (handshakes (disconnectAndCleanup vt a s))"
    by (simp add: disconnectAndCleanup_def hs_simps Let_def)
qed (simp_all add: cleaned_cell_def)

lemma add_keeps: "keeps_awaiting s (snd (addConnection vt cfg s))"
proof (cases "jhas (connections s) (cfg_id cfg)")
  case True
  then show ?thesis by (simp add: addConnection_def)
next
  case fresh: False
  show ?thesis
  proof (cases "vt_extractParams vt cfg")
    case (Inl e)
    with fresh show ?thesis by (simp add: addConnection_def)
  next
    case (Inr p)
    let ?a = "next_addr s"
    let ?s = "s\<lparr>heap := (heap s)(?a := new_managed cfg p), next_addr := Suc ?a,
                connections := jset (connections s) (cfg_id cfg) ?a\<rparr>"
    have "keeps_awaiting s ?s"
      by (rule keeps_awaiting_one_cell [of _ _ ?a]) (simp_all add: new_managed_def)
    with fresh Inr keeps_awaiting_trans [OF this initiate_keeps [of ?s ?a]] show ?thesis
      by (simp add: addConnection_def Let_def)
  qed
qed

lemma remove_keeps: "keeps_awaiting s (snd (removeConnection vt i s))"
proof -
  have "keeps_awaiting s ((disconnectAndCleanup vt a s)\<lparr>connections := cs\<rparr>)" for a cs
    using cleanup_keeps [of s a] by (simp add: keeps_awaiting_def awaited_def)
  then show ?thesis
    by (simp add: removeConnection_def Let_def split: option.split)
qed

lemma update_keeps: "keeps_awaiting s (snd (updateConnection vt cfg s))"
proof (cases "jget (connections s) (cfg_id cfg)")
  case None
  then show ?thesis by (simp add: updateConnection_def add_keeps)
next
  case (Some a)
  let ?d = "disconnectAndCleanup vt a s"
  have "keeps_awaiting ?d (modify a (\<lambda>m. m\<lparr>m_config := cfg, m_proto := p m\<rparr>) ?d)" for p
    by (rule keeps_awaiting_one_cell [of _ _ a]) (simp_all add: cleaned_cell_def)
  then have "keeps_awaiting s (modify a (\<lambda>m. m\<lparr>m_config := cfg, m_proto := p m\<rparr>) ?d)" for p
    by (rule keeps_awaiting_trans [OF cleanup_keeps])
  with Some show ?thesis
    by (auto simp: updateConnection_def Let_def cleanup_keeps split: sum.split
        intro: keeps_awaiting_trans [OF _ initiate_keeps])
qed

lemma start_keeps: "keeps_awaiting s (start vt s)"
proof -
  have "keeps_awaiting t (foldl (start_one vt) t as)" for t as
  proof (induction as arbitrary: t)
    case Nil
    then show ?case by simp
  next
    case (Cons a as)
    have "keeps_awaiting t (start_one vt t a)"
      by (simp add: start_one_def initiate_keeps)
    with Cons show ?case by (auto intro: keeps_awaiting_trans)
  qed
  from this [of "s\<lparr>running := True\<rparr>" "jvalues (connections s)"] show ?thesis
    by (simp add: start_def keeps_awaiting_def awaited_def)
qed

lemma stop_keeps: "keeps_awaiting s (stop vt s)"
proof -
  have "keeps_awaiting t (foldl (\<lambda>s a. disconnectAndCleanup vt a s) t as)" for t as
  proof (induction as arbitrary: t)
    case Nil
    then show ?case by simp
  next
    case (Cons a as)
    then show ?case by (auto intro: keeps_awaiting_trans cleanup_keeps)
  qed
  from this [of "s\<lparr>running := False\<rparr>" "jvalues (connections s)"] show ?thesis
    by (simp add: stop_def keeps_awaiting_def awaited_def)
qed

lemma fire_reconnect_keeps:
  assumes "\<not> m_connecting (heap s a)"
  shows "keeps_awaiting s (fire_reconnect vt t a s)"
proof -
  let ?s1 = "modify a (\<lambda>m. m\<lparr>m_reconnectTimer := None\<rparr>)
               (s\<lparr>timeouts := filter (\<lambda>p. fst p \<noteq> t) (timeouts s)\<rparr>)"
  let ?s3 = "modify a (\<lambda>m. m\<lparr>m_client := None, m_state := Disconnected\<rparr>)
               (vt_closeClient vt a ?s1)"
  have "keeps_awaiting s ?s1" "keeps_awaiting s ?s3"
    using assms by (auto intro!: keeps_awaiting_one_cell [of _ _ a] simp: hs_simps)
  with keeps_awaiting_trans [OF _ initiate_keeps] show ?thesis
    by (simp add: fire_reconnect_def Let_def)
qed

lemma settled_keeps:
  "one_cell a s s' \<Longrightarrow> settled on (heap s' a) \<Longrightarrow> handshakes s' = handshakes s \<Longrightarrow>
    keeps_awaiting s s'"
  by (rule keeps_awaiting_one_cell [of _ _ a]) (auto simp: one_cell_def settled_def)

lemma handshake_awaiting:
  assumes "linv s" "awaiting s" "event_enabled s (HandshakeDone a c r)" "calm vt s (HandshakeDone a c r)"
  shows "awaiting (apply_event vt (HandshakeDone a c r) s)"
proof -
  let ?s = "s\<lparr>handshakes := remove1 (a, c) (handshakes s)\<rparr>"
  let ?s1 = "apply_event vt (HandshakeDone a c r) s"
  have "linv ?s" "a < next_addr ?s" "m_client (heap ?s a) \<noteq> None"
    using assms linv_pending(1) [OF assms(1)]
    by (auto simp: calm_def intro: linv_pending_remove)
  from onConnect_settles [OF this, of c r] have
    new: "one_cell a ?s (vt_onConnect vt a c r ?s)"
      "\<not> m_connecting (heap (vt_onConnect vt a c r ?s) a)"
    by (auto simp: settled_def)
  show ?thesis
    unfolding awaiting_def
  proof (intro allI impI)
    fix b assume m: "m_connecting (heap ?s1 b)"
    with new have "b \<noteq> a" by auto
    with new m have same: "heap ?s1 b = heap s b" by (simp add: one_cell_def)
    with m assms(2) obtain d where "m_client (heap s b) = Some d" "(b, d) \<in> set (handshakes s)"
      by (auto simp: awaiting_def awaited_def)
    with same \<open>b \<noteq> a\<close> show "awaited ?s1 b" by (auto simp: awaited_def handshakes_kept)
  qed
qed

lemma retry_awaiting:
  assumes "linv s" "progress s" "awaiting s" "event_enabled s (ReconnectTimer t a)"
  shows "awaiting (apply_event vt (ReconnectTimer t a) s)"
proof -
  have "t \<in> set (timers_at (timeouts s) a)" using assms(4) by (simp add: in_timers_at)
  then have rt: "m_reconnectTimer (heap s a) = Some t"
    using assms(1) by (simp add: linv_but_def timers_ok_def)
  then have "a < next_addr s" by (simp add: linv_timer_addr [OF assms(1)])
  with rt assms(2) have "\<not> m_connecting (heap s a)"
    by (auto simp: progress_def connecting_ok_def)
  with assms(3) show ?thesis by (auto intro: keeps_awaiting fire_reconnect_keeps)
qed

lemma event_awaiting:
  assumes "linv s" "progress s" "awaiting s" "event_enabled s e" "calm vt s e"
  shows "awaiting (apply_event vt e s)"
proof (cases e)
  case (ApiCall c)
  have "keeps_awaiting s (snd (exec_api vt c s))"
    by (cases c) (simp_all add: add_keeps remove_keeps update_keeps start_keeps stop_keeps
        keeps_awaiting_same_life mapping_life handshakes_kept onValueUpdate_def
        keeps_awaiting_def [of s "s\<lparr>callback_set := True\<rparr>"])
  with ApiCall assms(3) show ?thesis by (simp add: keeps_awaiting)
next
  case (HandshakeDone a c r)
  with assms handshake_awaiting show ?thesis by blast
next
  case (ReconnectTimer t a)
  with assms retry_awaiting show ?thesis by blast
next
  case (PollTimer t a)
  show ?thesis
  proof (cases "m_state (heap s a) = Connected")
    case True
    with poll_not_connecting assms(1,2,4) PollTimer have "\<not> m_connecting (heap s a)" by blast
    with poll_settles [OF True this] have "keeps_awaiting s (vt_poll vt a s)"
      by (auto intro: settled_keeps handshakes_kept)
    with PollTimer assms(3) show ?thesis by (auto intro: keeps_awaiting)
  next
    case False
    with PollTimer assms(3) show ?thesis by (simp add: poll_unconnected)
  qed
next
  case (ReadDone p x)
  let ?s = "s\<lparr>reads := remove1 p (reads s)\<rparr>" and ?a = "pend_addr p"
  have st: "m_state (heap ?s ?a) = Connected" "?a < next_addr s" "awaiting ?s"
    using assms ReadDone linv_pending(2) [OF assms(1)]
    by (auto simp: calm_def awaiting_def awaited_def)
  with assms(2) have "\<not> m_connecting (heap ?s ?a)"
    by (auto simp: progress_def connecting_ok_def)
  from onRead_settles [OF refl st(1) this, of x] have "keeps_awaiting ?s (vt_onRead vt p x ?s)"
    by (auto intro: settled_keeps handshakes_kept)
  with st(3) ReadDone show ?thesis by (auto intro: keeps_awaiting)
next
  case (ClockTick n)
  with assms(3) show ?thesis by (simp add: awaiting_def awaited_def)
qed

lemma calm_reach_awaiting:
  assumes "reach vt (calm vt) s0 s" "linv s0" "progress s0" "awaiting s0"
  shows "awaiting s"
  using assms(1)
proof induction
  case init
  with assms show ?case by simp
next
  case (step s e s')
  then show ?case
    using calm_reach_progress [OF step(1) assms(2,3)] by (auto simp: conn_step_iff intro: event_awaiting)
qed

end

section \<open>The four protocols\<close>

lemma open_client_handshakes:
  "handshakes (open_client a s) = handshakes s @ [(a, the (m_client (heap (open_client a s) a)))]"
  by (simp add: open_client_def Let_def)

lemma s7_handshakes [hs_simps]:
  "handshakes (s7_poll a s) = handshakes s" "handshakes (s7_startPolling a s) = handshakes s"
  "handshakes (s7_onConnect a h r s) = handshakes s"
  "handshakes (snd (s7_addMapping mp s)) = handshakes s"
  "handshakes (snd (s7_removeMapping i s)) = handshakes s"
proof -
  show poll: "handshakes (s7_poll a s) = handshakes s" for a and s :: s7_connector
    by (simp add: s7_poll_def hs_simps Let_def split: option.split)
  show start: "handshakes (s7_startPolling a s) = handshakes s" for a and s :: s7_connector
    by (simp add: s7_startPolling_def hs_simps poll)
  show "handshakes (s7_onConnect a h r s) = handshakes s"
    by (simp add: s7_onConnect_def hs_simps start Let_def split: option.split)
qed (simp_all add: s7_addMapping_def s7_removeMapping_def hs_simps Let_def split: option.split)

lemma s7_onRead_handshakes [hs_simps]: "handshakes (s7_onRead p x s) = handshakes s"
  by (induction p x s rule: s7_onRead.induct) (simp_all add: hs_simps Let_def)

interpretation s7_handshakes: handshaking s7_vtable
  by unfold_locales
    (simp_all add: s7_initiateConnection_def open_client_handshakes hs_simps)

lemma modbus_loop_handshakes [hs_simps]:
  "handshakes (modbus_loop a ms seen us s) = handshakes s"
  by (induction a ms seen us s rule: modbus_loop.induct)
    (auto simp: modbus_finish_def modbus_warn_def hs_simps Let_def split: sum.split option.split)

lemma modbus_handshakes [hs_simps]:
  "handshakes (modbus_poll a s) = handshakes s" "handshakes (modbus_startPolling a s) = handshakes s"
  "handshakes (modbus_onConnect a h r s) = handshakes s"
  "handshakes (snd (modbus_addMapping mp s)) = handshakes s"
  "handshakes (snd (modbus_removeMapping i s)) = handshakes s"
proof -
  show poll: "handshakes (modbus_poll a s) = handshakes s" for a and s :: modbus_connector
    by (simp add: modbus_poll_def hs_simps Let_def split: option.split)
  show start: "handshakes (modbus_startPolling a s) = handshakes s" for a and s :: modbus_connector
    by (simp add: modbus_startPolling_def hs_simps poll)
  show "handshakes (modbus_onConnect a h r s) = handshakes s"
    by (simp add: modbus_onConnect_def hs_simps start Let_def split: option.split)
  show "handshakes (snd (modbus_removeMapping i s)) = handshakes s"
    using handshakes_mappings(5) [of i s]
    by (auto simp: modbus_removeMapping_def split: option.split prod.split)
qed (simp add: modbus_addMapping_def hs_simps split: option.split sum.split)

lemma modbus_onRead_handshakes [hs_simps]: "handshakes (modbus_onRead p x s) = handshakes s"
  by (induction p x s rule: modbus_onRead.induct)
    (simp_all add: modbus_warn_def hs_simps Let_def split: sum.split)

interpretation modbus_handshakes: handshaking modbus_vtable
  by unfold_locales
    (simp_all add: modbus_initiateConnection_def open_client_handshakes hs_simps)

lemma eip_handshakes [hs_simps]:
  "handshakes (eip_poll a s) = handshakes s" "handshakes (eip_startPolling a s) = handshakes s"
  "handshakes (eip_onConnect a h r s) = handshakes s"
  "handshakes (snd (eip_addMapping mp s)) = handshakes s"
proof -
  show poll: "handshakes (eip_poll a s) = handshakes s" for a and s :: eip_connector
    by (simp add: eip_poll_def eip_pollTags_def set_poll_in_progress_def hs_simps Let_def
        split: option.split)
  show start: "handshakes (eip_startPolling a s) = handshakes s" for a and s :: eip_connector
    by (simp add: eip_startPolling_def hs_simps poll)
  show "handshakes (eip_onConnect a h r s) = handshakes s"
    by (simp add: eip_onConnect_def hs_simps start Let_def split: option.split)
qed (simp add: eip_addMapping_def hs_simps split: option.split)

lemma eip_onRead_handshakes [hs_simps]: "handshakes (eip_onRead p x s) = handshakes s"
  by (induction p x s rule: eip_onRead.induct)
    (simp_all add: eip_values_read_def eip_read_failed_def set_poll_in_progress_def hs_simps Let_def)

interpretation eip_handshakes: handshaking eip_vtable
  by unfold_locales
    (simp_all add: eip_initiateConnection_def open_client_handshakes hs_simps Let_def)

lemma pccc_handshakes [hs_simps]:
  "handshakes (pccc_poll a s) = handshakes s" "handshakes (pccc_startPolling a s) = handshakes s"
  "handshakes (pccc_onConnect a h r s) = handshakes s"
  "handshakes (snd (pccc_addMapping mp s)) = handshakes s"
  "handshakes (snd (pccc_removeMapping i s)) = handshakes s"
proof -
  show poll: "handshakes (pccc_poll a s) = handshakes s" for a and s :: pccc_connector
    by (simp add: pccc_poll_def pccc_pollAddresses_def set_in_progress_def hs_simps Let_def
        split: option.split)
  show start: "handshakes (pccc_startPolling a s) = handshakes s" for a and s :: pccc_connector
    by (simp add: pccc_startPolling_def hs_simps poll)
  show "handshakes (pccc_onConnect a h r s) = handshakes s"
    by (simp add: pccc_onConnect_def hs_simps start Let_def split: option.split)
qed (simp_all add: pccc_addMapping_def pccc_removeMapping_def hs_simps Let_def split: option.split)

lemma pccc_onRead_handshakes [hs_simps]: "handshakes (pccc_onRead p x s) = handshakes s"
  by (induction p x s rule: pccc_onRead.induct)
    (simp_all add: pccc_items_read_def set_in_progress_def hs_simps Let_def)

interpretation pccc_handshakes: handshaking pccc_vtable
  by unfold_locales
    (simp_all add: pccc_initiateConnection_def open_client_handshakes hs_simps Let_def)

lemma awaiting_new_connector: "\<not> m_connecting blank \<Longrightarrow> awaiting (new_connector ty logs blank)"
  by (simp add: new_connector_def awaiting_def)

end
