(* ===== verification/Csv.thy ===== *)
theory Csv
  imports Prelude
begin

text \<open>
  \<open>src/utils/csv.ts\<close>: the CSV escaping and the line parser that the import and export of
  nodes and of mappings share. The parser's index loop is the recursion on the rest of the
  line; the fields pushed, the field being read and the quote flag are its arguments.
\<close>

abbreviation dquote :: char where
  "dquote \<equiv> CHR 0x22"

definition needs_quotes :: "string \<Rightarrow> bool" where
  "needs_quotes v \<longleftrightarrow>
     str_includes v '','' \<or> str_includes v [dquote] \<or> str_includes v [CHR 0x0A]
     \<or> str_includes v [CHR 0x0D]"

text \<open>\<open>value.replace(/"/g, '""')\<close>\<close>

definition double_quotes :: "string \<Rightarrow> string" where
  "double_quotes v = concat (map (\<lambda>c. if c = dquote then [dquote, dquote] else [c]) v)"

definition escapeCsvField :: "string \<Rightarrow> string" where
  "escapeCsvField v = (if needs_quotes v then dquote # double_quotes v @ [dquote] else v)"

fun parse_csv :: "string list \<Rightarrow> string \<Rightarrow> bool \<Rightarrow> string \<Rightarrow> string list" where
  "parse_csv fields current inQuotes [] = fields @ [current]"
| "parse_csv fields current True (c # cs) =
     (if c = dquote then
        (case cs of
           d # ds \<Rightarrow> if d = dquote then parse_csv fields (current @ [dquote]) True ds
                     else parse_csv fields current False cs
         | [] \<Rightarrow> parse_csv fields current False cs)
      else parse_csv fields (current @ [c]) True cs)"
| "parse_csv fields current False (c # cs) =
     (if c = dquote then parse_csv fields current True cs
      else if c = CHR '','' then parse_csv (fields @ [current]) [] False cs
      else parse_csv fields (current @ [c]) False cs)"

definition parseCsvLine :: "string \<Rightarrow> string list" where
  "parseCsvLine line = parse_csv [] [] False line"

section \<open>Escaped fields parse back\<close>

lemma sublist_single [simp]: "sublist [c] s \<longleftrightarrow> c \<in> set s"
proof
  assume "sublist [c] s"
  then show "c \<in> set s" by (auto simp: sublist_def)
next
  assume "c \<in> set s"
  then obtain u v where "s = u @ c # v" by (meson split_list)
  then show "sublist [c] s" by (auto simp: sublist_def)
qed

lemma parse_plain:
  "CHR '','' \<notin> set v \<Longrightarrow> dquote \<notin> set v \<Longrightarrow>
    parse_csv fs cur False (v @ r) = parse_csv fs (cur @ v) False r"
  by (induction v arbitrary: cur) auto

lemma double_quotes_simps [simp]:
  "double_quotes [] = []"
  "double_quotes (c # v) = (if c = dquote then [dquote, dquote] else [c]) @ double_quotes v"
  by (simp_all add: double_quotes_def)

lemma parse_quoted:
  "(case r of [] \<Rightarrow> True | c # _ \<Rightarrow> c \<noteq> dquote) \<Longrightarrow>
    parse_csv fs cur True (double_quotes v @ dquote # r) = parse_csv fs (cur @ v) False r"
  by (induction v arbitrary: cur) (auto split: list.split)

lemma parse_field:
  "(case r of [] \<Rightarrow> True | c # _ \<Rightarrow> c \<noteq> dquote) \<Longrightarrow>
    parse_csv fs [] False (escapeCsvField v @ r) = parse_csv fs v False r"
  using parse_quoted [of r fs "[]" v]
  by (auto simp: escapeCsvField_def needs_quotes_def parse_plain)

lemma parse_fields:
  "vs \<noteq> [] \<Longrightarrow>
    parse_csv fs [] False (join '','' (map escapeCsvField vs)) = fs @ vs"
proof (induction vs arbitrary: fs)
  case Nil
  then show ?case by simp
next
  case step: (Cons v vs)
  show ?case
  proof (cases vs)
    case Nil
    then show ?thesis using parse_field [of "[]" fs v] by simp
  next
    case (Cons w ws)
    define r where "r = join '','' (map escapeCsvField vs)"
    from Cons have "join '','' (map escapeCsvField (v # vs)) = escapeCsvField v @ CHR '','' # r"
      by (simp add: r_def)
    moreover have "parse_csv fs [] False (escapeCsvField v @ CHR '','' # r)
        = parse_csv fs v False (CHR '','' # r)"
      by (rule parse_field) simp
    moreover have "parse_csv (fs @ [v]) [] False r = (fs @ [v]) @ vs"
      unfolding r_def using Cons by (intro step.IH) simp
    ultimately show ?thesis by simp
  qed
qed

text \<open>A line of exported fields parses back to exactly these fields, whatever commas, quotes
  and line breaks they contain.\<close>

lemma csv_round_trip:
  "vs \<noteq> [] \<Longrightarrow> parseCsvLine (join '','' (map escapeCsvField vs)) = vs"
  using parse_fields [of vs "[]"] by (simp add: parseCsvLine_def)

lemma csv_round_trip_witness:
  "parseCsvLine (join '','' (map escapeCsvField [''a,b'', dquote # ''x'', []]))
     = [''a,b'', dquote # ''x'', []]"
  by (rule csv_round_trip) simp

text \<open>
  An escaped field has a line break only inside its quotes; a caller that splits a file into
  lines first still breaks such a field apart.
\<close>

lemma escape_no_break:
  "CHR 0x0A \<in> set (escapeCsvField v) \<longleftrightarrow> CHR 0x0A \<in> set v"
  by (auto simp: escapeCsvField_def double_quotes_def)

end
