(* ===== verification/ParamsValidator.thy ===== *)
theory ParamsValidator
  imports Prelude
begin

text \<open>
  \<open>src/connectors/core/params-validator.ts\<close>: checking the parameters of a connection against
  the schema in the metadata of its connector, and the language's \<open>Number(string)\<close> it uses.
  Two things the sources take from the engine are parameters: \<open>rt\<close>, whether a string matches
  a pattern given as text, and \<open>nt\<close>, how a number prints inside a message.
\<close>

section \<open>Data\<close>

datatype field_type = TText | TNumber | TBoolean | TSelect

record param_field =
  pf_key :: string
  pf_label :: string
  pf_type :: field_type
  pf_required :: bool
  pf_min :: "rat option"
  pf_max :: "rat option"
  pf_options :: "(string list) option"
  pf_pattern :: "string option"
  pf_patternMessage :: "string option"

record field_error =
  fe_field :: string
  fe_message :: string

record validation_result =
  vr_valid :: bool
  vr_errors :: "field_error list"

section \<open>Number of a string\<close>

text \<open>A run of digits in a base, to the end of the string.\<close>

definition hex_val :: "char \<Rightarrow> nat option" where
  "hex_val c =
     (if is_digit c then Some (digit_val c)
      else let l = lower_char c in
           if 97 \<le> char_code l \<and> char_code l \<le> 102 then Some (char_code l - 87) else None)"

fun in_base :: "nat \<Rightarrow> nat \<Rightarrow> string \<Rightarrow> nat option" where
  "in_base b v [] = Some v"
| "in_base b v (c # cs) =
     (case hex_val c of
        None \<Rightarrow> None
      | Some d \<Rightarrow> if d < b then in_base b (b * v + d) cs else None)"

definition based_number :: "nat \<Rightarrow> string \<Rightarrow> jsnum" where
  "based_number b cs =
     (if cs = [] then NaN
      else case in_base b 0 cs of None \<Rightarrow> NaN | Some v \<Rightarrow> Fin (of_nat v))"

text \<open>The exponent part: nothing, or \<open>e\<close>, an optional sign, and digits to the end.\<close>

definition exponent :: "string \<Rightarrow> int option" where
  "exponent s =
     (case s of
        [] \<Rightarrow> Some 0
      | c # cs \<Rightarrow>
          if c = CHR ''e'' \<or> c = CHR ''E'' then
            (let (neg, ds) = (case cs of [] \<Rightarrow> (False, [])
                              | d # ds \<Rightarrow> if d = CHR ''-'' then (True, ds)
                                         else if d = CHR ''+'' then (False, ds) else (False, cs))
             in if ds = [] \<or> \<not> list_all is_digit ds then None
                else Some (if neg then - int (dec_val ds) else int (dec_val ds)))
          else None)"

definition pow10 :: "int \<Rightarrow> rat" where
  "pow10 k = (if 0 \<le> k then 10 ^ nat k else 1 / 10 ^ nat (- k))"

definition unsigned_decimal :: "string \<Rightarrow> jsnum" where
  "unsigned_decimal s =
     (if s = ''Infinity'' then PosInf
      else let whole = takeWhile is_digit s;
               rest = dropWhile is_digit s;
               (frac, tail) = (case rest of
                   c # cs \<Rightarrow> if c = CHR ''.'' then (takeWhile is_digit cs, dropWhile is_digit cs)
                             else ([], rest)
                 | [] \<Rightarrow> ([], []))
           in if whole = [] \<and> frac = [] then NaN
              else case exponent tail of
                     None \<Rightarrow> NaN
                   | Some e \<Rightarrow> Fin (of_nat (dec_val (whole @ frac)) * pow10 (e - int (length frac))))"

fun num_neg :: "jsnum \<Rightarrow> jsnum" where
  "num_neg NaN = NaN"
| "num_neg PosInf = NegInf"
| "num_neg NegInf = PosInf"
| "num_neg (Fin q) = Fin (- q)"

definition Number_of :: "string \<Rightarrow> jsnum" where
  "Number_of str =
     (let s = trim str in
      case s of
        [] \<Rightarrow> Fin 0
      | c # cs \<Rightarrow>
          if c = CHR ''-'' then num_neg (unsigned_decimal cs)
          else if c = CHR ''+'' then unsigned_decimal cs
          else if c = CHR ''0'' \<and> cs \<noteq> [] \<and> lower_char (hd cs) = CHR ''x''
            then based_number 16 (tl cs)
          else if c = CHR ''0'' \<and> cs \<noteq> [] \<and> lower_char (hd cs) = CHR ''o''
            then based_number 8 (tl cs)
          else if c = CHR ''0'' \<and> cs \<noteq> [] \<and> lower_char (hd cs) = CHR ''b''
            then based_number 2 (tl cs)
          else unsigned_decimal s)"

section \<open>Validation\<close>

type_synonym pattern_test = "string \<Rightarrow> string \<Rightarrow> bool"
type_synonym number_text = "rat \<Rightarrow> string"

definition field_error :: "param_field \<Rightarrow> string \<Rightarrow> field_error" where
  "field_error f post = \<lparr>fe_field = pf_key f, fe_message = pf_label f @ post\<rparr>"

definition validateText :: "pattern_test \<Rightarrow> param_field \<Rightarrow> jsval \<Rightarrow> field_error list" where
  "validateText rt f v =
     (case v of
        JStr s \<Rightarrow>
          (case pf_pattern f of
             None \<Rightarrow> []
           | Some p \<Rightarrow>
               if p = [] then []
               else if \<not> rt p s then
                 [(case pf_patternMessage f of
                     Some m \<Rightarrow> \<lparr>fe_field = pf_key f, fe_message = m\<rparr>
                   | None \<Rightarrow> field_error f '' does not match the required pattern'')]
               else [])
      | _ \<Rightarrow> [field_error f '' must be a string''])"

definition range_errors :: "number_text \<Rightarrow> param_field \<Rightarrow> jsnum \<Rightarrow> field_error list" where
  "range_errors nt f n =
     (case pf_min f of
        Some lo \<Rightarrow> if num_lt n (Fin lo)
                   then [field_error f ('' must be at least '' @ nt lo)] else []
      | None \<Rightarrow> []) @
     (case pf_max f of
        Some hi \<Rightarrow> if num_lt (Fin hi) n
                   then [field_error f ('' must be at most '' @ nt hi)] else []
      | None \<Rightarrow> [])"

definition validateNumber :: "number_text \<Rightarrow> param_field \<Rightarrow> jsval \<Rightarrow> field_error list" where
  "validateNumber nt f v =
     (case v of
        JNum n \<Rightarrow> range_errors nt f n
      | JStr s \<Rightarrow>
          (let n = Number_of s
           in if n = NaN then [field_error f '' must be a valid number''] else range_errors nt f n)
      | _ \<Rightarrow> [field_error f '' must be a valid number''])"

definition validateBoolean :: "param_field \<Rightarrow> jsval \<Rightarrow> field_error list" where
  "validateBoolean f v =
     (case v of
        JBool b \<Rightarrow> []
      | JStr s \<Rightarrow> if s = ''true'' \<or> s = ''false'' then []
                  else [field_error f '' must be a boolean'']
      | _ \<Rightarrow> [field_error f '' must be a boolean''])"

definition validateSelect :: "param_field \<Rightarrow> jsval \<Rightarrow> field_error list" where
  "validateSelect f v =
     (case v of
        JStr s \<Rightarrow>
          (let allowed = (case pf_options f of None \<Rightarrow> [] | Some os \<Rightarrow> os)
           in if \<not> List.member allowed s then
                [field_error f ('' must be one of: '' @ join '', '' allowed)]
              else [])
      | _ \<Rightarrow> [field_error f '' must be a string''])"

definition absent :: "jsval \<Rightarrow> bool" where
  "absent v \<longleftrightarrow> v = JUndefined \<or> v = JNull \<or> v = JStr []"

definition validate_field ::
  "pattern_test \<Rightarrow> number_text \<Rightarrow> (string \<times> jsval) list \<Rightarrow> param_field \<Rightarrow> field_error list" where
  "validate_field rt nt params f =
     (let v = getprop params (pf_key f) in
      if pf_required f \<and> absent v then [field_error f '' is required'']
      else if absent v then []
      else case pf_type f of
             TText \<Rightarrow> validateText rt f v
           | TNumber \<Rightarrow> validateNumber nt f v
           | TBoolean \<Rightarrow> validateBoolean f v
           | TSelect \<Rightarrow> validateSelect f v)"

definition validateParams ::
  "pattern_test \<Rightarrow> number_text \<Rightarrow> (string \<times> jsval) list \<Rightarrow> param_field list \<Rightarrow> validation_result"
where
  "validateParams rt nt params schema =
     (let errors = concat (map (validate_field rt nt params) schema)
      in \<lparr>vr_valid = (errors = []), vr_errors = errors\<rparr>)"

section \<open>What a valid result means\<close>

text \<open>A value is a number, or a string that reads as one, and it lies in the field's range.\<close>

definition in_range :: "param_field \<Rightarrow> jsnum \<Rightarrow> bool" where
  "in_range f n \<longleftrightarrow>
     (\<forall>lo. pf_min f = Some lo \<longrightarrow> \<not> num_lt n (Fin lo)) \<and>
     (\<forall>hi. pf_max f = Some hi \<longrightarrow> \<not> num_lt (Fin hi) n)"

definition accepts :: "pattern_test \<Rightarrow> param_field \<Rightarrow> jsval \<Rightarrow> bool" where
  "accepts rt f v \<longleftrightarrow>
     (case pf_type f of
        TText \<Rightarrow> (\<exists>s. v = JStr s \<and> (\<forall>p. pf_pattern f = Some p \<and> p \<noteq> [] \<longrightarrow> rt p s))
      | TNumber \<Rightarrow> (\<exists>n. v = JNum n \<and> in_range f n) \<or>
                   (\<exists>s. v = JStr s \<and> Number_of s \<noteq> NaN \<and> in_range f (Number_of s))
      | TBoolean \<Rightarrow> (\<exists>b. v = JBool b) \<or> v = JStr ''true'' \<or> v = JStr ''false''
      | TSelect \<Rightarrow> (\<exists>s. v = JStr s \<and> s \<in> set (case pf_options f of None \<Rightarrow> [] | Some os \<Rightarrow> os)))"

lemma range_errors_Nil: "range_errors nt f n = [] \<longleftrightarrow> in_range f n"
  by (auto simp: range_errors_def in_range_def split: option.splits)

lemma validate_field_Nil:
  "validate_field rt nt params f = [] \<longleftrightarrow>
     (let v = getprop params (pf_key f) in
      if absent v then \<not> pf_required f else accepts rt f v)"
  by (cases "getprop params (pf_key f)"; cases "pf_type f")
    (auto simp: validate_field_def Let_def accepts_def validateText_def validateNumber_def
      validateBoolean_def validateSelect_def range_errors_Nil absent_def
      split: option.splits if_splits)

text \<open>C19: A connection's parameters are accepted exactly if every required field is present and
  every field that is present has a value its type, range, pattern or options accept.\<close>

theorem validateParams_valid:
  "vr_valid (validateParams rt nt params schema) =
     (\<forall>f \<in> set schema. let v = getprop params (pf_key f) in
        if absent v then \<not> pf_required f else accepts rt f v)"
  by (simp add: validateParams_def Let_def validate_field_Nil [unfolded Let_def])

lemma validate_field_key:
  "e \<in> set (validate_field rt nt params f) \<Longrightarrow> fe_field e = pf_key f"
  by (cases "getprop params (pf_key f)"; cases "pf_type f")
    (auto simp: validate_field_def Let_def validateText_def validateNumber_def field_error_def
      validateBoolean_def validateSelect_def range_errors_def
      split: option.splits if_splits)

lemma errors_are_about_fields:
  "e \<in> set (vr_errors (validateParams rt nt params schema)) \<Longrightarrow> fe_field e \<in> pf_key ` set schema"
  by (auto simp: validateParams_def Let_def dest: validate_field_key)

text \<open>What the parameters of a valid connection look like at a required text field.\<close>

lemma valid_required_text:
  assumes "vr_valid (validateParams rt nt params schema)"
    and "f \<in> set schema" "pf_required f" "pf_type f = TText"
  shows "\<exists>s. getprop params (pf_key f) = JStr s \<and> s \<noteq> []"
proof -
  from assms(1,2) have "validate_field rt nt params f = []"
    by (simp add: validateParams_def Let_def)
  with assms(3,4) show ?thesis
    by (auto simp: validate_field_Nil [unfolded Let_def] accepts_def absent_def split: if_splits)
qed

text \<open>A schema with a required host and an optional port, and parameters that fit it.\<close>

lemma validateParams_valid_witness:
  "let host = \<lparr>pf_key = ''host'', pf_label = ''Host'', pf_type = TText, pf_required = True,
         pf_min = None, pf_max = None, pf_options = None,
         pf_pattern = None, pf_patternMessage = None\<rparr>;
       params = [(''host'', JStr ''plc'')]
   in vr_valid (validateParams (\<lambda>_ _. False) (\<lambda>_. []) params [host])
    \<and> \<not> vr_valid (validateParams (\<lambda>_ _. False) (\<lambda>_. []) [] [host])"
  unfolding Let_def validateParams_valid
  by (simp add: absent_def accepts_def getprop_def)

end
