(* ===== verification/Json.thy ===== *)
theory Json
  imports ConnectorCore
begin

text \<open>
  \<open>JSON.stringify\<close> on the values the program sends, and the objects it makes of connection
  statuses, current values and value updates. How a number prints is the parameter \<open>nt\<close>, how
  a time prints (\<open>toISOString\<close>) is the parameter \<open>ts\<close>; what the lemmas need of them is that
  neither prints a line break.
\<close>

type_synonym text_of_number = "rat \<Rightarrow> string"
type_synonym text_of_time = "int \<Rightarrow> string"

section \<open>Text\<close>

definition hex_char :: "nat \<Rightarrow> char" where
  "hex_char d = (if d < 10 then digit_char d else char_of (87 + d))"

definition json_char :: "char \<Rightarrow> string" where
  "json_char c =
     (if c = CHR 0x22 then [CHR 0x5C, CHR 0x22]
      else if c = CHR 0x5C then [CHR 0x5C, CHR 0x5C]
      else if c = CHR 0x08 then [CHR 0x5C, CHR ''b'']
      else if c = CHR 0x0C then [CHR 0x5C, CHR ''f'']
      else if c = CHR 0x0A then [CHR 0x5C, CHR ''n'']
      else if c = CHR 0x0D then [CHR 0x5C, CHR ''r'']
      else if c = CHR 0x09 then [CHR 0x5C, CHR ''t'']
      else if char_code c < 32 then
        CHR 0x5C # ''u00'' @ [hex_char (char_code c div 16), hex_char (char_code c mod 16)]
      else [c])"

definition json_string :: "string \<Rightarrow> string" where
  "json_string s = CHR 0x22 # concat (map json_char s) @ [CHR 0x22]"

text \<open>
  An undefined value prints as \<open>null\<close> inside an array and its property is left out of an
  object; numbers that are not finite print as \<open>null\<close>.
\<close>

fun json :: "text_of_number \<Rightarrow> jsval \<Rightarrow> string"
  and json_elems :: "text_of_number \<Rightarrow> jsval list \<Rightarrow> string list"
  and json_members :: "text_of_number \<Rightarrow> (string \<times> jsval) list \<Rightarrow> string list" where
  "json nt JUndefined = ''undefined''"
| "json nt JNull = ''null''"
| "json nt (JBool b) = (if b then ''true'' else ''false'')"
| "json nt (JNum n) = (case n of Fin q \<Rightarrow> nt q | _ \<Rightarrow> ''null'')"
| "json nt (JStr s) = json_string s"
| "json nt (JArr vs) = ''['' @ join '','' (json_elems nt vs) @ '']''"
| "json nt (JObj ps) = ''{'' @ join '','' (json_members nt ps) @ ''}''"
| "json_elems nt [] = []"
| "json_elems nt (v # vs) = (if v = JUndefined then ''null'' else json nt v) # json_elems nt vs"
| "json_members nt [] = []"
| "json_members nt (p # ps) =
     (if snd p = JUndefined then json_members nt ps
      else (json_string (fst p) @ '':'' @ json nt (snd p)) # json_members nt ps)"

section \<open>No line break in the text\<close>

abbreviation lf :: char where
  "lf \<equiv> CHR 0x0A"

lemma lf_join: "lf \<notin> set sep \<Longrightarrow> \<forall>p \<in> set ps. lf \<notin> set p \<Longrightarrow> lf \<notin> set (join sep ps)"
  by (induction sep ps rule: join.induct) auto

lemma hex_char_not_lf: "d < 16 \<Longrightarrow> hex_char d \<noteq> lf"
proof
  assume "d < 16" "hex_char d = lf"
  then have "of_char (hex_char d) = (10 :: nat)" by simp
  with \<open>d < 16\<close> show False
    by (auto simp: hex_char_def digit_char_def split: if_splits)
qed

lemma lf_json_char: "lf \<notin> set (json_char c)"
proof (cases "char_code c < 32")
  case True
  then have "char_code c div 16 < 16" "char_code c mod 16 < 16" by auto
  with hex_char_not_lf [of "char_code c div 16"] hex_char_not_lf [of "char_code c mod 16"]
  show ?thesis by (auto simp: json_char_def)
next
  case False
  then show ?thesis by (auto simp: json_char_def)
qed

lemma lf_json_string: "lf \<notin> set (json_string s)"
  using lf_json_char by (auto simp: json_string_def)

definition one_line_numbers :: "text_of_number \<Rightarrow> bool" where
  "one_line_numbers nt \<longleftrightarrow> (\<forall>q. lf \<notin> set (nt q))"

lemma json_one_line:
  shows "one_line_numbers nt \<Longrightarrow> lf \<notin> set (json nt v)"
    and "one_line_numbers nt \<Longrightarrow> \<forall>t \<in> set (json_elems nt vs). lf \<notin> set t"
    and "one_line_numbers nt \<Longrightarrow> \<forall>t \<in> set (json_members nt ps). lf \<notin> set t"
  by (induction nt v and nt vs and nt ps rule: json_json_elems_json_members.induct)
    (auto simp: lf_json_string lf_join one_line_numbers_def split: jsnum.split)

section \<open>A value read back\<close>

text \<open>
  \<open>JSON.parse(JSON.stringify(v))\<close> for a value other than \<open>undefined\<close>: what is left of a value
  that was stored as text.
\<close>

fun json_copy :: "jsval \<Rightarrow> jsval"
  and copy_members :: "(string \<times> jsval) list \<Rightarrow> (string \<times> jsval) list" where
  "json_copy JUndefined = JNull"
| "json_copy JNull = JNull"
| "json_copy (JBool b) = JBool b"
| "json_copy (JNum n) = (case n of Fin q \<Rightarrow> JNum (Fin q) | _ \<Rightarrow> JNull)"
| "json_copy (JStr s) = JStr s"
| "json_copy (JArr vs) = JArr (map json_copy vs)"
| "json_copy (JObj ps) = JObj (copy_members ps)"
| "copy_members [] = []"
| "copy_members (p # ps) =
     (if snd p = JUndefined then copy_members ps
      else (fst p, json_copy (snd p)) # copy_members ps)"

lemma json_copy_defined: "json_copy v \<noteq> JUndefined"
  by (cases v) (auto split: jsnum.split)

lemma json_copy_idem:
  "json_copy (json_copy v) = json_copy v"
  "copy_members (copy_members ps) = copy_members ps"
  by (induction v and ps rule: json_copy_copy_members.induct)
    (auto simp: json_copy_defined split: jsnum.split)

section \<open>The objects sent\<close>

definition state_text :: "conn_state \<Rightarrow> string" where
  "state_text st =
     (case st of Connected \<Rightarrow> ''connected'' | Disconnected \<Rightarrow> ''disconnected''
      | ConnError \<Rightarrow> ''error'')"

definition quality_text :: "quality \<Rightarrow> string" where
  "quality_text q = (case q of Good \<Rightarrow> ''good'' | Bad \<Rightarrow> ''bad'')"

definition opt_str :: "string option \<Rightarrow> jsval" where
  "opt_str s = (case s of None \<Rightarrow> JUndefined | Some t \<Rightarrow> JStr t)"

definition status_json :: "text_of_time \<Rightarrow> connection_status \<Rightarrow> jsval" where
  "status_json ts st =
     JObj [(''connectionId'', JStr (cs_connectionId st)), (''state'', JStr (state_text (cs_state st))),
           (''lastPollAt'', opt_str (map_option ts (cs_lastPollAt st))),
           (''errorMessage'', opt_str (cs_errorMessage st))]"

definition current_value_json :: "text_of_time \<Rightarrow> current_value \<Rightarrow> jsval" where
  "current_value_json ts v =
     JObj [(''nodeId'', (case cv_nodeId v of None \<Rightarrow> JNull | Some n \<Rightarrow> JStr n)),
           (''deviceAddress'', JStr (cv_deviceAddress v)),
           (''connectionId'', JStr (cv_connectionId v)), (''value'', cv_value v),
           (''quality'', JStr (quality_text (cv_quality v))),
           (''timestamp'', JStr (ts (cv_timestamp v)))]"

definition update_json :: "text_of_time \<Rightarrow> value_update \<Rightarrow> jsval" where
  "update_json ts u =
     JObj [(''nodeId'', JStr (upd_nodeId u)), (''value'', upd_value u),
           (''quality'', JStr (quality_text (upd_quality u))),
           (''timestamp'', JStr (ts (upd_timestamp u)))]"

end
