(* ===== verification/SseHub.thy ===== *)
theory SseHub
  imports Json
begin

text \<open>
  \<open>src/api/sse-hub.ts\<close>: the clients of the server-sent event stream. A response is a handle;
  what is written to it is an output of the model, and whether a write or an \<open>end\<close> throws is
  the parameter \<open>throws\<close> (the response belongs to \<open>express\<close>). Deleting the entry at hand from
  the map being iterated does not disturb the iteration, so the loops run over the entries
  the map has when they start.
\<close>

section \<open>The hub\<close>

record sse_client =
  sc_id :: string
  sc_res :: nat
  sc_connectedAt :: int

datatype hub_event = ClientAdded string | ClientRemoved string

record sse_hub =
  hub_clients :: "(string, sse_client) jmap"
  hub_heartbeat :: bool
  hub_emitted :: "hub_event list"
  hub_written :: "(nat \<times> string) list"
  hub_ended :: "nat list"

definition new_hub :: sse_hub where
  "new_hub = \<lparr>hub_clients = [], hub_heartbeat = False, hub_emitted = [], hub_written = [],
              hub_ended = []\<rparr>"

definition emit :: "hub_event \<Rightarrow> sse_hub \<Rightarrow> sse_hub" where
  "emit e h = h\<lparr>hub_emitted := hub_emitted h @ [e]\<rparr>"

definition addClient :: "string \<Rightarrow> nat \<Rightarrow> int \<Rightarrow> sse_hub \<Rightarrow> sse_hub" where
  "addClient i res now h =
     emit (ClientAdded i)
       (h\<lparr>hub_clients := jset (hub_clients h) i
            \<lparr>sc_id = i, sc_res = res, sc_connectedAt = now\<rparr>\<rparr>)"

definition removeClient :: "string \<Rightarrow> sse_hub \<Rightarrow> sse_hub" where
  "removeClient i h =
     (if \<not> jhas (hub_clients h) i then h
      else emit (ClientRemoved i) (h\<lparr>hub_clients := jdel (hub_clients h) i\<rparr>))"

definition formatEvent :: "text_of_number \<Rightarrow> string \<Rightarrow> jsval \<Rightarrow> string" where
  "formatEvent nt ty d = ''event: '' @ ty @ [lf] @ ''data: '' @ json nt d @ [lf, lf]"

text \<open>One write; a client whose write throws is removed.\<close>

definition write_to ::
  "(nat \<Rightarrow> bool) \<Rightarrow> string \<Rightarrow> sse_hub \<Rightarrow> string \<times> sse_client \<Rightarrow> sse_hub" where
  "write_to throws payload h e =
     (if throws (sc_res (snd e)) then removeClient (fst e) h
      else h\<lparr>hub_written := hub_written h @ [(sc_res (snd e), payload)]\<rparr>)"

definition broadcast ::
  "(nat \<Rightarrow> bool) \<Rightarrow> text_of_number \<Rightarrow> string \<Rightarrow> jsval \<Rightarrow> sse_hub \<Rightarrow> sse_hub" where
  "broadcast throws nt ty d h =
     foldl (write_to throws (formatEvent nt ty d)) h (hub_clients h)"

definition sendToClient ::
  "(nat \<Rightarrow> bool) \<Rightarrow> text_of_number \<Rightarrow> string \<Rightarrow> string \<Rightarrow> jsval \<Rightarrow> sse_hub \<Rightarrow> sse_hub" where
  "sendToClient throws nt i ty d h =
     (case jget (hub_clients h) i of
        None \<Rightarrow> h
      | Some c \<Rightarrow> write_to throws (formatEvent nt ty d) h (i, c))"

definition startHeartbeat :: "sse_hub \<Rightarrow> sse_hub" where
  "startHeartbeat h = (if hub_heartbeat h then h else h\<lparr>hub_heartbeat := True\<rparr>)"

definition heartbeat_text :: string where
  "heartbeat_text = '':heartbeat'' @ [lf, lf]"

text \<open>The callback of the heartbeat interval.\<close>

definition sendHeartbeat :: "(nat \<Rightarrow> bool) \<Rightarrow> sse_hub \<Rightarrow> sse_hub" where
  "sendHeartbeat throws h = foldl (write_to throws heartbeat_text) h (hub_clients h)"

definition end_client ::
  "(nat \<Rightarrow> bool) \<Rightarrow> sse_hub \<Rightarrow> string \<times> sse_client \<Rightarrow> sse_hub" where
  "end_client throws h e =
     (let h1 = (if throws (sc_res (snd e)) then h
                else h\<lparr>hub_ended := hub_ended h @ [sc_res (snd e)]\<rparr>)
      in h1\<lparr>hub_clients := jdel (hub_clients h1) (fst e)\<rparr>)"

definition shutdown :: "(nat \<Rightarrow> bool) \<Rightarrow> sse_hub \<Rightarrow> sse_hub" where
  "shutdown throws h =
     (let h1 = h\<lparr>hub_heartbeat := False\<rparr> in foldl (end_client throws) h1 (hub_clients h1))"

definition getClientCount :: "sse_hub \<Rightarrow> nat" where
  "getClientCount h = length (hub_clients h)"

section \<open>Invariant and effects\<close>

definition hub_ok :: "sse_hub \<Rightarrow> bool" where
  "hub_ok h \<longleftrightarrow> jmap_wf (hub_clients h) \<and> (\<forall>i c. jget (hub_clients h) i = Some c \<longrightarrow> sc_id c = i)"

lemma set_jdel: "set (jdel m k) = {e \<in> set m. fst e \<noteq> k}"
  by (induction m) auto

lemma hub_ok_addClient: "hub_ok h \<Longrightarrow> hub_ok (addClient i r t h)"
  by (auto simp: hub_ok_def addClient_def emit_def)

lemma hub_ok_removeClient: "hub_ok h \<Longrightarrow> hub_ok (removeClient i h)"
  by (auto simp: hub_ok_def removeClient_def emit_def split: if_splits)

lemma hub_ok_write: "hub_ok h \<Longrightarrow> hub_ok (write_to throws p h e)"
  using hub_ok_removeClient [of h] by (auto simp: write_to_def hub_ok_def)

lemma hub_ok_fold: "hub_ok h \<Longrightarrow> hub_ok (foldl (write_to throws p) h es)"
  by (induction es arbitrary: h) (auto intro: hub_ok_write)

lemma write_fold:
  assumes "distinct (map fst es)" and "\<forall>e \<in> set es. e \<in> set (hub_clients h)"
    and "jmap_wf (hub_clients h)"
  shows "set (hub_clients (foldl (write_to throws p) h es))
           = {e \<in> set (hub_clients h). \<not> (e \<in> set es \<and> throws (sc_res (snd e)))}
       \<and> hub_written (foldl (write_to throws p) h es)
           = hub_written h @ map (\<lambda>e. (sc_res (snd e), p))
               (filter (\<lambda>e. \<not> throws (sc_res (snd e))) es)
       \<and> hub_emitted (foldl (write_to throws p) h es)
           = hub_emitted h @ map (\<lambda>e. ClientRemoved (fst e))
               (filter (\<lambda>e. throws (sc_res (snd e))) es)"
  using assms
proof (induction es arbitrary: h)
  case Nil
  then show ?case by auto
next
  case (Cons e es)
  have e: "e \<in> set (hub_clients h)" and wf: "jmap_wf (hub_clients h)"
    and new: "fst e \<notin> fst ` set es" using Cons.prems by auto
  show ?case
  proof (cases "throws (sc_res (snd e))")
    case False
    with Cons show ?thesis by (auto simp: write_to_def)
  next
    case True
    have has: "jhas (hub_clients h) (fst e)"
      using jmap_wf_lookup [OF wf, of "fst e" "snd e"] e by simp
    then have w: "write_to throws p h e
        = emit (ClientRemoved (fst e)) (h\<lparr>hub_clients := jdel (hub_clients h) (fst e)\<rparr>)"
      using True by (simp add: write_to_def removeClient_def)
    have same: "fst x = fst e \<longleftrightarrow> x = e" if "x \<in> set (hub_clients h)" for x
      using jmap_wf_lookup [OF wf, of "fst e"] that e by (metis option.inject prod.collapse)
    let ?h = "write_to throws p h e"
    have h: "set (hub_clients ?h) = set (hub_clients h) - {e}" "jmap_wf (hub_clients ?h)"
      "hub_written ?h = hub_written h" "hub_emitted ?h = hub_emitted h @ [ClientRemoved (fst e)]"
      using wf same by (auto simp: w emit_def set_jdel)
    have "e \<notin> set es" using new by auto
    then have "\<forall>x \<in> set es. x \<in> set (hub_clients ?h)"
      using Cons.prems(2) by (auto simp: h(1))
    from Cons.IH [OF _ this h(2)] Cons.prems(1)
    show ?thesis using True \<open>e \<notin> set es\<close> by (auto simp: h(1,3,4))
  qed
qed

text \<open>A broadcast writes the frame once to every client whose response takes it, in the order
  the clients were added, and removes exactly the clients whose response throws, announcing
  each removal.\<close>

lemma broadcast_effect:
  assumes "hub_ok h"
  shows "let ok = \<lambda>e. \<not> throws (sc_res (snd e)); h' = broadcast throws nt ty d h
    in set (hub_clients h') = {e \<in> set (hub_clients h). ok e}
     \<and> hub_written h' = hub_written h
         @ map (\<lambda>e. (sc_res (snd e), formatEvent nt ty d)) (filter ok (hub_clients h))
     \<and> hub_emitted h' = hub_emitted h
         @ map (\<lambda>e. ClientRemoved (fst e)) (filter (\<lambda>e. \<not> ok e) (hub_clients h))
     \<and> hub_ok h'"
  using write_fold [of "hub_clients h" h throws "formatEvent nt ty d"] hub_ok_fold [OF assms] assms
  by (auto simp: broadcast_def Let_def hub_ok_def jmap_wf_def)

definition demo_hub :: sse_hub where
  "demo_hub = addClient ''b'' 8 0 (addClient ''a'' 7 0 new_hub)"

lemma demo_hub_ok: "hub_ok demo_hub"
proof -
  have "hub_ok new_hub" by (simp add: hub_ok_def new_hub_def)
  then show ?thesis unfolding demo_hub_def by (intro hub_ok_addClient)
qed

lemma demo_hub_clients:
  "hub_clients demo_hub = [(''a'', \<lparr>sc_id = ''a'', sc_res = 7, sc_connectedAt = 0\<rparr>),
                           (''b'', \<lparr>sc_id = ''b'', sc_res = 8, sc_connectedAt = 0\<rparr>)]"
  by (simp add: demo_hub_def addClient_def emit_def new_hub_def)

lemma broadcast_effect_witness:
  "set (hub_clients (broadcast (\<lambda>r. r = 7) (\<lambda>_. ''0'') ''log:entry'' JNull demo_hub))
     = {(''b'', \<lparr>sc_id = ''b'', sc_res = 8, sc_connectedAt = 0\<rparr>)}"
proof -
  have "set (hub_clients (broadcast (\<lambda>r. r = 7) (\<lambda>_. ''0'') ''log:entry'' JNull demo_hub))
      = {e \<in> set (hub_clients demo_hub). \<not> sc_res (snd e) = 7}"
    using broadcast_effect [OF demo_hub_ok, of "\<lambda>r. r = 7" "\<lambda>_. ''0''" "''log:entry''" JNull]
    unfolding Let_def by (rule conjunct1)
  also have "\<dots> = {(''b'', \<lparr>sc_id = ''b'', sc_res = 8, sc_connectedAt = 0\<rparr>)}"
    by (auto simp: demo_hub_clients)
  finally show ?thesis .
qed

text \<open>A frame is one event line, one data line and the empty line that ends it, whatever the data
  contain: a client that splits the stream at line breaks finds the event name and the text
  of the data again.\<close>

lemma frame_lines:
  assumes "one_line_numbers nt" and "lf \<notin> set ty"
  shows "split_on lf (formatEvent nt ty d)
           = [''event: '' @ ty, ''data: '' @ json nt d, [], []]"
proof -
  have "lf \<notin> set (json nt d)" using assms(1) by (rule json_one_line)
  with assms(2) have "split_on lf (join [lf] [''event: '' @ ty, ''data: '' @ json nt d, [], []])
      = [''event: '' @ ty, ''data: '' @ json nt d, [], []]"
    by (intro split_join) auto
  then show ?thesis by (simp add: formatEvent_def)
qed

lemma frame_lines_witness:
  "split_on lf (formatEvent (\<lambda>_. ''1'') ''log:entry'' (JStr [lf]))
     = [''event: '' @ ''log:entry'', ''data: '' @ json (\<lambda>_. ''1'') (JStr [lf]), [], []]"
  by (rule frame_lines) (simp_all add: one_line_numbers_def)

lemma end_fold:
  "hub_clients (foldl (end_client throws) h es) = filter (\<lambda>e. fst e \<notin> fst ` set es) (hub_clients h)"
proof (induction es arbitrary: h)
  case Nil
  then show ?case by simp
next
  case (Cons e es)
  have "jdel m k = filter (\<lambda>e. fst e \<noteq> k) m" for m :: "(string \<times> sse_client) list" and k
    by (induction m) auto
  with Cons show ?case by (auto simp: end_client_def Let_def intro: filter_cong)
qed

lemma shutdown_closes:
  "hub_clients (shutdown throws h) = []" "\<not> hub_heartbeat (shutdown throws h)"
proof -
  show "hub_clients (shutdown throws h) = []"
    by (simp add: shutdown_def Let_def end_fold filter_empty_conv)
  have "hub_heartbeat (foldl (end_client throws) g es) = hub_heartbeat g" for g es
    by (induction es arbitrary: g) (simp_all add: end_client_def Let_def)
  then show "\<not> hub_heartbeat (shutdown throws h)"
    by (simp add: shutdown_def Let_def)
qed

end
