(* ===== verification/LogService.thy ===== *)
theory LogService
  imports ConnectorCore
begin

text \<open>
  \<open>src/log/index.ts\<close>: the log of the program, an array of at most 1000 entries in memory, and
  the filters of its query. The entries handed to the event hub are an output.
\<close>

record log_entry =
  le_timestamp :: string
  le_level :: level
  le_source :: string
  le_message :: string

definition MAX_ENTRIES :: nat where
  "MAX_ENTRIES = 1000"

record log_service =
  ls_entries :: "log_entry list"
  ls_hub :: bool
  ls_broadcast :: "log_entry list"

definition new_log :: log_service where
  "new_log = \<lparr>ls_entries = [], ls_hub = False, ls_broadcast = []\<rparr>"

definition log_setSseHub :: "log_service \<Rightarrow> log_service" where
  "log_setSseHub s = s\<lparr>ls_hub := True\<rparr>"

text \<open>\<open>log\<close>, given the entry made of the time of the call and the arguments.\<close>

definition log_push :: "log_service \<Rightarrow> log_entry \<Rightarrow> log_service" where
  "log_push s e =
     (let es = ls_entries s @ [e];
          s1 = s\<lparr>ls_entries := (if length es > MAX_ENTRIES then tl es else es)\<rparr>
      in if ls_hub s1 then s1\<lparr>ls_broadcast := ls_broadcast s1 @ [e]\<rparr> else s1)"

definition log_write :: "string \<Rightarrow> level \<Rightarrow> string \<Rightarrow> string \<Rightarrow> log_service \<Rightarrow> log_service" where
  "log_write now lv src msg s =
     log_push s \<lparr>le_timestamp = now, le_level = lv, le_source = src, le_message = msg\<rparr>"

abbreviation log_info :: "string \<Rightarrow> string \<Rightarrow> string \<Rightarrow> log_service \<Rightarrow> log_service" where
  "log_info now \<equiv> log_write now LInfo"

abbreviation log_warn :: "string \<Rightarrow> string \<Rightarrow> string \<Rightarrow> log_service \<Rightarrow> log_service" where
  "log_warn now \<equiv> log_write now LWarn"

abbreviation log_error :: "string \<Rightarrow> string \<Rightarrow> string \<Rightarrow> log_service \<Rightarrow> log_service" where
  "log_error now \<equiv> log_write now LError"

abbreviation log_debug :: "string \<Rightarrow> string \<Rightarrow> string \<Rightarrow> log_service \<Rightarrow> log_service" where
  "log_debug now \<equiv> log_write now LDebug"

fun level_text :: "level \<Rightarrow> string" where
  "level_text LInfo = ''info''"
| "level_text LWarn = ''warn''"
| "level_text LError = ''error''"
| "level_text LDebug = ''debug''"

text \<open>The query: \<open>since\<close> compares timestamps as strings, the others are comma-separated lists.\<close>

record log_query =
  lq_since :: "string option"
  lq_level :: "string option"
  lq_source :: "string option"

definition getEntries :: "log_query \<Rightarrow> log_service \<Rightarrow> log_entry list" where
  "getEntries q s =
     (let r0 = ls_entries s;
          r1 = (if truthy_str (lq_since q) then filter (\<lambda>e. the (lq_since q) < le_timestamp e) r0
                else r0);
          r2 = (if truthy_str (lq_level q) then
                  (let levels = split_on CHR '','' (the (lq_level q))
                   in filter (\<lambda>e. List.member levels (level_text (le_level e))) r1)
                else r1);
          r3 = (if truthy_str (lq_source q) then
                  (let sources = split_on CHR '','' (the (lq_source q))
                   in filter (\<lambda>e. List.member sources (le_source e)) r2)
                else r2)
      in r3)"

definition log_clear :: "log_service \<Rightarrow> log_service" where
  "log_clear s = s\<lparr>ls_entries := []\<rparr>"

section \<open>The log is a capped log\<close>

interpretation system_log: capped_log MAX_ENTRIES ls_entries log_push
  by unfold_locales (simp add: log_push_def push_capped_def Let_def)

lemma pushes_hub:
  "ls_hub (foldl log_push s es) = ls_hub s"
  "ls_broadcast (foldl log_push s es) = ls_broadcast s @ (if ls_hub s then es else [])"
  by (induction es arbitrary: s) (simp_all add: log_push_def Let_def)

text \<open>C21: After any number of entries the log holds the last 1000 of those written since it was
  cleared, in order, while the hub, once set, has been handed every one of them.\<close>

theorem log_holds_last_entries:
  "let s' = foldl log_push (log_clear s) es in
     ls_entries s' = drop (length es - 1000) es
   \<and> ls_broadcast s' = ls_broadcast s @ (if ls_hub s then es else [])"
  using system_log.entries_pushes [of "log_clear s" es]
  by (simp add: Let_def pushes_hub log_clear_def MAX_ENTRIES_def)

definition selected :: "log_query \<Rightarrow> log_entry \<Rightarrow> bool" where
  "selected q e \<longleftrightarrow>
     (truthy_str (lq_since q) \<longrightarrow> the (lq_since q) < le_timestamp e) \<and>
     (truthy_str (lq_level q) \<longrightarrow>
        level_text (le_level e) \<in> set (split_on CHR '','' (the (lq_level q)))) \<and>
     (truthy_str (lq_source q) \<longrightarrow>
        le_source e \<in> set (split_on CHR '','' (the (lq_source q))))"

lemma getEntries_filter: "getEntries q s = filter (selected q) (ls_entries s)"
  by (auto simp: getEntries_def Let_def selected_def intro: filter_cong)

text \<open>
  Polling the log: asking again with the timestamp of the last entry seen returns the entries
  written since, provided timestamps grow.
\<close>

lemma getEntries_since_split:
  assumes "ls_entries s = old @ new" and "old \<noteq> []" and "le_timestamp (last old) \<noteq> []"
    and "sorted_wrt (\<lambda>a b. le_timestamp a \<le> le_timestamp b) (ls_entries s)"
    and "\<forall>e \<in> set new. le_timestamp (last old) < le_timestamp e"
  shows "getEntries \<lparr>lq_since = Some (le_timestamp (last old)), lq_level = None, lq_source = None\<rparr> s
           = new"
proof -
  have "le_timestamp e \<le> le_timestamp (last old)" if "e \<in> set old" for e
  proof -
    have "sorted_wrt (\<lambda>a b. le_timestamp a \<le> le_timestamp b) (butlast old @ [last old])"
      using assms(1,2,4) by (simp add: sorted_wrt_append)
    then have "\<forall>a \<in> set (butlast old). le_timestamp a \<le> le_timestamp (last old)"
      by (simp add: sorted_wrt_append)
    with that assms(2) show ?thesis
      by (metis UnE append_butlast_last_id empty_iff empty_set insert_iff list.simps(15) order_refl
          set_append)
  qed
  with assms(1,3,5) show ?thesis
    by (auto simp: getEntries_filter selected_def filter_empty_conv filter_id_conv leD)
qed

end
