(* ===== verification/Registry.thy ===== *)
theory Registry
  imports Json ParamsValidator
begin

text \<open>
  \<open>src/connectors/core/connector-registry.ts\<close>: the table of all connectors, started and stopped
  together, their statuses and values joined, and the changes broadcast to the event hub.

  A connector is an object behind the interface \<open>Connector\<close>: the registry's operations take a
  record \<open>ops\<close> of the methods it calls. What is broadcast, and what is forwarded to the
  registered callback, are outputs.
\<close>

section \<open>The interface of a connector\<close>

record 'c connector_ops =
  op_type :: "'c \<Rightarrow> string"
  op_start :: "'c \<Rightarrow> 'c"
  op_stop :: "'c \<Rightarrow> 'c"
  op_onValueUpdate :: "'c \<Rightarrow> 'c"
  op_status :: "'c \<Rightarrow> connection_status list"
  op_values :: "'c \<Rightarrow> current_value list"

record connector_metadata =
  md_type :: string
  md_displayName :: string
  md_description :: "string option"
  md_paramsSchema :: "param_field list"

section \<open>The registry\<close>

record 'c registry =
  reg_connectors :: "(string, 'c) jmap"
  reg_metadata :: "(string, connector_metadata) jmap"
  reg_callback :: bool
  reg_hub :: bool
  reg_polling :: bool
  reg_snapshot :: string
  reg_broadcasts :: "(string \<times> jsval) list"
  reg_forwarded :: "value_update list list"

definition new_registry :: "'c registry" where
  "new_registry =
     \<lparr>reg_connectors = [], reg_metadata = [], reg_callback = False, reg_hub = False,
      reg_polling = False, reg_snapshot = ''[]'', reg_broadcasts = [], reg_forwarded = []\<rparr>"

definition reg_setSseHub :: "'c registry \<Rightarrow> 'c registry" where
  "reg_setSseHub r = r\<lparr>reg_hub := True\<rparr>"

definition register ::
  "'c connector_ops \<Rightarrow> 'c \<Rightarrow> connector_metadata option \<Rightarrow> 'c registry \<Rightarrow> 'c registry" where
  "register ops c md r =
     (let r1 = r\<lparr>reg_connectors :=
                  jset (reg_connectors r) (op_type ops c) (op_onValueUpdate ops c)\<rparr>
      in case md of
           None \<Rightarrow> r1
         | Some m \<Rightarrow> r1\<lparr>reg_metadata := jset (reg_metadata r1) (op_type ops c) m\<rparr>)"

definition getAggregatedStatus :: "'c connector_ops \<Rightarrow> 'c registry \<Rightarrow> connection_status list" where
  "getAggregatedStatus ops r = concat (map (op_status ops) (jvalues (reg_connectors r)))"

definition getAggregatedValues :: "'c connector_ops \<Rightarrow> 'c registry \<Rightarrow> current_value list" where
  "getAggregatedValues ops r = concat (map (op_values ops) (jvalues (reg_connectors r)))"

definition getConnector :: "string \<Rightarrow> 'c registry \<Rightarrow> 'c option" where
  "getConnector ty r = jget (reg_connectors r) ty"

definition getProtocolsMetadata :: "'c registry \<Rightarrow> connector_metadata list" where
  "getProtocolsMetadata r = jvalues (reg_metadata r)"

definition getProtocolMetadata :: "string \<Rightarrow> 'c registry \<Rightarrow> connector_metadata option" where
  "getProtocolMetadata ty r = jget (reg_metadata r) ty"

definition getParamsSchema :: "string \<Rightarrow> 'c registry \<Rightarrow> param_field list option" where
  "getParamsSchema ty r = map_option md_paramsSchema (jget (reg_metadata r) ty)"

definition reg_onValueUpdate :: "'c registry \<Rightarrow> 'c registry" where
  "reg_onValueUpdate r = r\<lparr>reg_callback := True\<rparr>"

definition status_list_json :: "text_of_time \<Rightarrow> connection_status list \<Rightarrow> jsval" where
  "status_list_json ts sts = JArr (map (status_json ts) sts)"

definition send :: "string \<Rightarrow> jsval \<Rightarrow> 'c registry \<Rightarrow> 'c registry" where
  "send ty d r = (if reg_hub r then r\<lparr>reg_broadcasts := reg_broadcasts r @ [(ty, d)]\<rparr> else r)"

definition startStatusPolling ::
  "text_of_number \<Rightarrow> text_of_time \<Rightarrow> 'c connector_ops \<Rightarrow> 'c registry \<Rightarrow> 'c registry" where
  "startStatusPolling nt ts ops r =
     (if reg_polling r then r
      else r\<lparr>reg_snapshot := json nt (status_list_json ts (getAggregatedStatus ops r)),
             reg_polling := True\<rparr>)"

definition stopStatusPolling :: "'c registry \<Rightarrow> 'c registry" where
  "stopStatusPolling r = (if reg_polling r then r\<lparr>reg_polling := False\<rparr> else r)"

text \<open>The callback of the status interval.\<close>

definition checkAndBroadcastStatus ::
  "text_of_number \<Rightarrow> text_of_time \<Rightarrow> 'c connector_ops \<Rightarrow> 'c registry \<Rightarrow> 'c registry" where
  "checkAndBroadcastStatus nt ts ops r =
     (let current = status_list_json ts (getAggregatedStatus ops r);
          text = json nt current
      in if text \<noteq> reg_snapshot r then
           send ''connector:status'' current (r\<lparr>reg_snapshot := text\<rparr>)
         else r)"

definition broadcastStatus ::
  "text_of_number \<Rightarrow> text_of_time \<Rightarrow> 'c connector_ops \<Rightarrow> 'c registry \<Rightarrow> 'c registry" where
  "broadcastStatus nt ts ops r =
     (if \<not> reg_hub r then r
      else (let current = status_list_json ts (getAggregatedStatus ops r)
            in send ''connector:status'' current (r\<lparr>reg_snapshot := json nt current\<rparr>)))"

definition broadcastValues ::
  "text_of_time \<Rightarrow> 'c connector_ops \<Rightarrow> 'c registry \<Rightarrow> 'c registry" where
  "broadcastValues ts ops r =
     (if \<not> reg_hub r then r
      else if \<not> list_ex (\<lambda>st. cs_state st = Connected) (getAggregatedStatus ops r) then r
      else send ''connector:values''
             (JArr (map (current_value_json ts) (getAggregatedValues ops r))) r)"

text \<open>The callback \<open>register\<close> gives to a connector, called with a batch of updates.\<close>

definition connector_updates ::
  "text_of_time \<Rightarrow> 'c connector_ops \<Rightarrow> value_update list \<Rightarrow> 'c registry \<Rightarrow> 'c registry" where
  "connector_updates ts ops us r =
     broadcastValues ts ops
       (if reg_callback r then r\<lparr>reg_forwarded := reg_forwarded r @ [us]\<rparr> else r)"

definition map_connectors :: "('c \<Rightarrow> 'c) \<Rightarrow> 'c registry \<Rightarrow> 'c registry" where
  "map_connectors f r = r\<lparr>reg_connectors := map (\<lambda>(k, c). (k, f c)) (reg_connectors r)\<rparr>"

definition startAll ::
  "text_of_number \<Rightarrow> text_of_time \<Rightarrow> 'c connector_ops \<Rightarrow> 'c registry \<Rightarrow> 'c registry" where
  "startAll nt ts ops r = startStatusPolling nt ts ops (map_connectors (op_start ops) r)"

definition stopAll ::
  "text_of_number \<Rightarrow> text_of_time \<Rightarrow> 'c connector_ops \<Rightarrow> 'c registry \<Rightarrow> 'c registry" where
  "stopAll nt ts ops r =
     broadcastStatus nt ts ops (map_connectors (op_stop ops) (stopStatusPolling r))"

section \<open>Broadcasting changes\<close>

lemma send_fields [simp]:
  "reg_connectors (send ty d r) = reg_connectors r" "reg_snapshot (send ty d r) = reg_snapshot r"
  "reg_polling (send ty d r) = reg_polling r" "reg_hub (send ty d r) = reg_hub r"
  by (simp_all add: send_def)

lemma aggregated_send [simp]: "getAggregatedStatus ops (send ty d r) = getAggregatedStatus ops r"
  by (simp add: getAggregatedStatus_def)

lemma check_snapshot:
  "reg_snapshot (checkAndBroadcastStatus nt ts ops r)
     = json nt (status_list_json ts (getAggregatedStatus ops r))"
  by (simp add: checkAndBroadcastStatus_def Let_def)

lemma check_connectors:
  "reg_connectors (checkAndBroadcastStatus nt ts ops r) = reg_connectors r"
  by (simp add: checkAndBroadcastStatus_def Let_def)

text \<open>The periodic check broadcasts the joined status exactly when its text differs from the
  last one, remembers the new text, and checking again without a change broadcasts nothing.\<close>

lemma status_check_broadcasts_changes:
  "let r' = checkAndBroadcastStatus nt ts ops r;
       current = status_list_json ts (getAggregatedStatus ops r)
   in reg_snapshot r' = json nt current
    \<and> reg_broadcasts r' = reg_broadcasts r @
        (if reg_hub r \<and> json nt current \<noteq> reg_snapshot r
         then [(''connector:status'', current)] else [])
    \<and> checkAndBroadcastStatus nt ts ops r' = r'"
proof -
  have "getAggregatedStatus ops (checkAndBroadcastStatus nt ts ops r) = getAggregatedStatus ops r"
    by (simp add: getAggregatedStatus_def check_connectors)
  then have "checkAndBroadcastStatus nt ts ops (checkAndBroadcastStatus nt ts ops r)
      = checkAndBroadcastStatus nt ts ops r"
    by (subst checkAndBroadcastStatus_def) (simp add: check_snapshot Let_def)
  then show ?thesis
    by (auto simp: Let_def check_snapshot) (auto simp: checkAndBroadcastStatus_def send_def Let_def)
qed

section \<open>Connectors that stop\<close>

text \<open>What the registry relies on when it stops its connectors.\<close>

locale stoppable_connector =
  fixes ops :: "'c connector_ops"
    and ok :: "'c \<Rightarrow> bool"
  assumes ok_start: "ok c \<Longrightarrow> ok (op_start ops c)"
    and ok_stop: "ok c \<Longrightarrow> ok (op_stop ops c)"
    and ok_callback: "ok c \<Longrightarrow> ok (op_onValueUpdate ops c)"
    and stop_disconnects:
      "ok c \<Longrightarrow> st \<in> set (op_status ops (op_stop ops c)) \<Longrightarrow> cs_state st \<noteq> Connected"
begin

definition reg_ok :: "'c registry \<Rightarrow> bool" where
  "reg_ok r \<longleftrightarrow> (\<forall>k c. (k, c) \<in> set (reg_connectors r) \<longrightarrow> ok c)"

lemma reg_ok_register: "reg_ok r \<Longrightarrow> ok c \<Longrightarrow> reg_ok (register ops c md r)"
  by (auto simp: reg_ok_def register_def Let_def dest!: set_jset_entry intro: ok_callback
      split: option.split)

lemma reg_ok_startAll: "reg_ok r \<Longrightarrow> reg_ok (startAll nt ts ops r)"
  by (auto simp: reg_ok_def startAll_def startStatusPolling_def map_connectors_def
      intro: ok_start)

lemma broadcastStatus_connectors:
  "reg_connectors (broadcastStatus nt ts ops r) = reg_connectors r"
  by (simp add: broadcastStatus_def Let_def)

lemma stopAll_connectors:
  "reg_connectors (stopAll nt ts ops r)
     = map (\<lambda>(k, c). (k, op_stop ops c)) (reg_connectors r)"
  by (simp add: stopAll_def broadcastStatus_connectors map_connectors_def stopStatusPolling_def)

lemma stopAll_disconnects:
  "reg_ok r \<Longrightarrow> st \<in> set (getAggregatedStatus ops (stopAll nt ts ops r)) \<Longrightarrow>
    cs_state st \<noteq> Connected"
  by (fastforce simp: getAggregatedStatus_def stopAll_connectors reg_ok_def dest: stop_disconnects)

lemma no_values_after_stopAll:
  "reg_ok r \<Longrightarrow>
    broadcastValues ts ops (stopAll nt ts ops r) = stopAll nt ts ops r"
  using stopAll_disconnects [of r]
  by (auto simp: broadcastValues_def list_ex_iff)

end

end
