(* ===== verification/Connectors.thy ===== *)
theory Connectors
  imports S7 ModbusTcp EthernetIp Pccc Registry
begin

text \<open>
  The four connectors of the repository as one type, with the methods the registry and the
  API call on them, and the parameter schemas of their metadata. The theory interprets the
  registry's contract of a connector on them, so that what \<open>stopAll\<close> promises holds for the
  registry of the program.
\<close>

section \<open>One type for the connectors\<close>

datatype any_connector =
    S7C s7_connector
  | ModbusC modbus_connector
  | EipC eip_connector
  | PcccC pccc_connector

fun any_type :: "any_connector \<Rightarrow> string" where
  "any_type (S7C s) = c_type s"
| "any_type (ModbusC s) = c_type s"
| "any_type (EipC s) = c_type s"
| "any_type (PcccC s) = c_type s"

fun any_start :: "any_connector \<Rightarrow> any_connector" where
  "any_start (S7C s) = S7C (start s7_vtable s)"
| "any_start (ModbusC s) = ModbusC (start modbus_vtable s)"
| "any_start (EipC s) = EipC (start eip_vtable s)"
| "any_start (PcccC s) = PcccC (start pccc_vtable s)"

fun any_stop :: "any_connector \<Rightarrow> any_connector" where
  "any_stop (S7C s) = S7C (stop s7_vtable s)"
| "any_stop (ModbusC s) = ModbusC (stop modbus_vtable s)"
| "any_stop (EipC s) = EipC (stop eip_vtable s)"
| "any_stop (PcccC s) = PcccC (stop pccc_vtable s)"

fun any_onValueUpdate :: "any_connector \<Rightarrow> any_connector" where
  "any_onValueUpdate (S7C s) = S7C (onValueUpdate s)"
| "any_onValueUpdate (ModbusC s) = ModbusC (onValueUpdate s)"
| "any_onValueUpdate (EipC s) = EipC (onValueUpdate s)"
| "any_onValueUpdate (PcccC s) = PcccC (onValueUpdate s)"

fun any_status :: "any_connector \<Rightarrow> connection_status list" where
  "any_status (S7C s) = getStatus s"
| "any_status (ModbusC s) = getStatus s"
| "any_status (EipC s) = getStatus s"
| "any_status (PcccC s) = getStatus s"

fun any_values :: "any_connector \<Rightarrow> current_value list" where
  "any_values (S7C s) = getCurrentValues s"
| "any_values (ModbusC s) = getCurrentValues s"
| "any_values (EipC s) = getCurrentValues s"
| "any_values (PcccC s) = getCurrentValues s"

fun any_api :: "api_call \<Rightarrow> any_connector \<Rightarrow> string option \<times> any_connector" where
  "any_api c (S7C s) = (let (e, s') = exec_api s7_vtable c s in (e, S7C s'))"
| "any_api c (ModbusC s) = (let (e, s') = exec_api modbus_vtable c s in (e, ModbusC s'))"
| "any_api c (EipC s) = (let (e, s') = exec_api eip_vtable c s in (e, EipC s'))"
| "any_api c (PcccC s) = (let (e, s') = exec_api pccc_vtable c s in (e, PcccC s'))"

definition any_ops :: "any_connector connector_ops" where
  "any_ops = \<lparr>op_type = any_type, op_start = any_start, op_stop = any_stop,
              op_onValueUpdate = any_onValueUpdate, op_status = any_status,
              op_values = any_values\<rparr>"

text \<open>The lifecycle invariant, for whichever connector it is.\<close>

fun any_linv :: "any_connector \<Rightarrow> bool" where
  "any_linv (S7C s) = linv s"
| "any_linv (ModbusC s) = linv s"
| "any_linv (EipC s) = linv s"
| "any_linv (PcccC s) = linv s"

section \<open>Stopping\<close>

lemma linv_onValueUpdate: "linv (onValueUpdate s) = linv s"
  by (rule linv_but_core) (simp add: core_simps)

lemma idle_status:
  "linv s \<Longrightarrow> \<not> running s \<Longrightarrow> st \<in> set (getStatus s) \<Longrightarrow> cs_state st \<noteq> Connected"
  by (auto simp: getStatus_def status_of_def linv_but_def mapped_def idle_cell_def)

context protocol
begin

lemma stopped_status:
  assumes "linv s" "st \<in> set (getStatus (stop vt s))"
  shows "cs_state st \<noteq> Connected"
proof -
  have "\<not> running (stop vt s)"
    by (cases "running s") (simp_all add: stop_cleans stop_def)
  then show ?thesis using assms stop_linv by (blast dest: idle_status)
qed

lemma api_linv: "linv s \<Longrightarrow> linv (snd (exec_api vt c s))"
  using event_linv [of s "ApiCall c"] by simp

end

lemma any_linv_start: "any_linv c \<Longrightarrow> any_linv (any_start c)"
  using s7.start_linv modbus.start_linv eip.start_linv pccc.start_linv by (cases c) auto

lemma any_linv_stop: "any_linv c \<Longrightarrow> any_linv (any_stop c)"
  using s7.stop_linv modbus.stop_linv eip.stop_linv pccc.stop_linv by (cases c) auto

lemma any_linv_api: "any_linv c \<Longrightarrow> any_linv (snd (any_api call c))"
  by (cases c)
    (simp_all add: split_beta s7.api_linv modbus.api_linv eip.api_linv pccc.api_linv)

interpretation connectors: stoppable_connector any_ops any_linv
proof
  fix c st
  assume "any_linv c" "st \<in> set (op_status any_ops (op_stop any_ops c))"
  then show "cs_state st \<noteq> Connected"
    using s7.stopped_status modbus.stopped_status eip.stopped_status pccc.stopped_status
    by (cases c) (auto simp: any_ops_def)
next
  fix c
  assume "any_linv c"
  then show "any_linv (op_onValueUpdate any_ops c)"
    by (cases c) (simp_all add: any_ops_def linv_onValueUpdate)
qed (simp_all add: any_ops_def any_linv_start any_linv_stop)

text \<open>The registry the program builds: the four connectors, each registered once.\<close>

definition program_registry :: "any_connector registry" where
  "program_registry =
     foldl (\<lambda>r c. register any_ops c None r) new_registry
       [S7C s7_new, ModbusC modbus_new, EipC eip_new, PcccC pccc_new]"

text \<open>C3: Once every connector of the registry has been stopped, no connection of any protocol is
  reported as connected, and no values are broadcast any more.\<close>

theorem stopAll_disconnects_all:
  assumes "\<forall>k c. (k, c) \<in> set (reg_connectors r) \<longrightarrow> any_linv c"
  shows "(\<forall>st \<in> set (getAggregatedStatus any_ops (stopAll nt ts any_ops r)).
            cs_state st \<noteq> Connected)
       \<and> broadcastValues ts any_ops (stopAll nt ts any_ops r) = stopAll nt ts any_ops r"
proof -
  have "connectors.reg_ok r" using assms by (simp add: connectors.reg_ok_def)
  then show ?thesis
    by (simp add: connectors.stopAll_disconnects connectors.no_values_after_stopAll)
qed

lemma program_registry_ok:
  "\<forall>k c. (k, c) \<in> set (reg_connectors program_registry) \<longrightarrow> any_linv c"
proof -
  have "any_linv (S7C s7_new)" "any_linv (ModbusC modbus_new)" "any_linv (EipC eip_new)"
    "any_linv (PcccC pccc_new)"
    by (simp_all add: s7_new_linv modbus_new_linv eip_new_linv pccc_new_linv)
  moreover have "connectors.reg_ok new_registry"
    by (simp add: connectors.reg_ok_def new_registry_def)
  ultimately have "connectors.reg_ok program_registry"
    by (simp add: program_registry_def connectors.reg_ok_register)
  then show ?thesis by (simp add: connectors.reg_ok_def)
qed

lemma stopAll_disconnects_all_witness:
  "\<exists>r. Connected \<in> cs_state ` set (getAggregatedStatus any_ops r) \<and>
       Connected \<notin> cs_state `
         set (getAggregatedStatus any_ops (stopAll (\<lambda>_. []) (\<lambda>_. []) any_ops r))"
proof -
  have "run_ends s7_vtable connected_run s7_new
      (\<lambda>s. Connected \<in> cs_state ` set (getStatus s))"
    by (simp add: s7_run connected_run_def getStatus_def status_of_def)
  from run_ends_reach [OF this] obtain s where
    s: "reach s7_vtable (\<lambda>_ _. True) s7_new s" "Connected \<in> cs_state ` set (getStatus s)"
    by (elim exE conjE)
  let ?r = "new_registry\<lparr>reg_connectors := [(''s7'', S7C s)]\<rparr>"
  have "linv s" using s(1) s7_new_linv by (rule s7.reach_linv)
  then have ok: "\<forall>k c. (k, c) \<in> set (reg_connectors ?r) \<longrightarrow> any_linv c"
    by simp
  have "Connected \<in> cs_state ` set (getAggregatedStatus any_ops ?r)"
    using s(2) by (simp add: getAggregatedStatus_def any_ops_def)
  moreover have "Connected \<notin> cs_state `
      set (getAggregatedStatus any_ops (stopAll (\<lambda>_. []) (\<lambda>_. []) any_ops ?r))"
    using conjunct1 [OF stopAll_disconnects_all [OF ok]] by (simp only: image_iff) metis
  ultimately show ?thesis by blast
qed

section \<open>Metadata\<close>

definition text_field :: "string \<Rightarrow> string \<Rightarrow> bool \<Rightarrow> param_field" where
  "text_field k l req =
     \<lparr>pf_key = k, pf_label = l, pf_type = TText, pf_required = req, pf_min = None,
      pf_max = None, pf_options = None, pf_pattern = None, pf_patternMessage = None\<rparr>"

definition number_field ::
  "string \<Rightarrow> string \<Rightarrow> bool \<Rightarrow> rat option \<Rightarrow> rat option \<Rightarrow> param_field" where
  "number_field k l req lo hi =
     \<lparr>pf_key = k, pf_label = l, pf_type = TNumber, pf_required = req, pf_min = lo,
      pf_max = hi, pf_options = None, pf_pattern = None, pf_patternMessage = None\<rparr>"

definition s7_getMetadata :: connector_metadata where
  "s7_getMetadata =
     \<lparr>md_type = ''s7'', md_displayName = ''Siemens S7'',
      md_description = Some ''Connect to S7-300/400/1200/1500 PLCs via ISO-on-TCP'',
      md_paramsSchema = [text_field ''host'' ''Host'' True,
                         number_field ''rack'' ''Rack'' False (Some 0) None,
                         number_field ''slot'' ''Slot'' False (Some 0) None]\<rparr>"

definition modbus_getMetadata :: connector_metadata where
  "modbus_getMetadata =
     \<lparr>md_type = ''modbus-tcp'', md_displayName = ''Modbus TCP'', md_description = None,
      md_paramsSchema = [text_field ''host'' ''Host'' True,
                         number_field ''port'' ''Port'' True (Some 1) (Some 65535),
                         number_field ''unitId'' ''Unit ID'' True (Some 0) (Some 255)]\<rparr>"

definition eip_getMetadata :: connector_metadata where
  "eip_getMetadata =
     \<lparr>md_type = ''ethernet-ip'', md_displayName = ''EtherNet/IP'',
      md_description = Some ''Connect to Rockwell/Allen-Bradley PLCs via EtherNet/IP (CIP)'',
      md_paramsSchema = [text_field ''host'' ''Host'' True,
                         number_field ''port'' ''Port'' False (Some 1) (Some 65535),
                         number_field ''slot'' ''Slot'' False (Some 0) None]\<rparr>"

definition pccc_getMetadata :: connector_metadata where
  "pccc_getMetadata =
     \<lparr>md_type = ''pccc'', md_displayName = ''PCCC'', md_description = None,
      md_paramsSchema = [text_field ''host'' ''Host'' True,
                         number_field ''port'' ''Port'' False (Some 1) (Some 65535),
                         number_field ''slot'' ''Slot'' False (Some 0) None]\<rparr>"

text \<open>C18: A configuration whose parameters pass the validation against a connector's schema is never
  refused by that connector for its parameters.\<close>

theorem validated_params_accepted:
  "(vr_valid (validateParams rt nt (members (cfg_params cfg)) (md_paramsSchema s7_getMetadata)) \<longrightarrow>
      (\<exists>p. s7_extractParams cfg = Inr p))
   \<and> (vr_valid (validateParams rt nt (members (cfg_params cfg)) (md_paramsSchema modbus_getMetadata)) \<longrightarrow>
      (\<exists>p. modbus_extractParams cfg = Inr p))
   \<and> (vr_valid (validateParams rt nt (members (cfg_params cfg)) (md_paramsSchema eip_getMetadata)) \<longrightarrow>
      (\<exists>p. eip_extractParams cfg = Inr p))
   \<and> (vr_valid (validateParams rt nt (members (cfg_params cfg)) (md_paramsSchema pccc_getMetadata)) \<longrightarrow>
      (\<exists>p. pccc_extractParams cfg = Inr p))"
proof -
  have host: "truthy (getprop (members (cfg_params cfg)) ''host'') \<and> cfg_params cfg \<noteq> JNull"
    if "vr_valid (validateParams rt nt (members (cfg_params cfg)) (text_field ''host'' l True # fs))" for l fs
    using valid_required_text [OF that, of "text_field ''host'' l True"]
    by (cases "cfg_params cfg") (auto simp: text_field_def getprop_def)
  then have host: "truthy (getprop (members (cfg_params cfg)) ''host'')" "cfg_params cfg \<noteq> JNull"
    if "vr_valid (validateParams rt nt (members (cfg_params cfg)) (text_field ''host'' l True # fs))" for l fs
    using that by blast+
  show ?thesis
    using host
    by (simp add: s7_getMetadata_def modbus_getMetadata_def eip_getMetadata_def
        pccc_getMetadata_def s7_extractParams_def modbus_extractParams_def
        eip_extractParams_def pccc_extractParams_def Let_def)
qed

lemma validated_params_accepted_witness:
  "\<exists>p. modbus_extractParams (demo_config\<lparr>cfg_params := JObj [(''host'', JStr ''plc''), (''port'', jint 502),
        (''unitId'', JStr ''7'')]\<rparr>) = Inr p"
proof -
  let ?ps = "[(''host'', JStr ''plc''), (''port'', jint 502), (''unitId'', JStr ''7'')]"
  have "vr_valid (validateParams (\<lambda>_ _. False) (\<lambda>_. []) ?ps (md_paramsSchema modbus_getMetadata))"
    by code_simp
  then show ?thesis
    using validated_params_accepted [of "\<lambda>_ _. False" "\<lambda>_. []" "demo_config\<lparr>cfg_params := JObj ?ps\<rparr>"]
    by simp
qed

end
