(* ===== verification/PluginLoader.thy ===== *)
theory PluginLoader
  imports Registry
begin

text \<open>
  \<open>src/connectors/core/plugin-loader.ts\<close>: finding connector plugins in directories. The file
  system and the modules in it are data of the model: a directory lists subdirectories, an
  entry point is a module or an import failure, and an export that can be called carries
  what constructing it yields the first and the following times.
\<close>

section \<open>Modules\<close>

text \<open>
  A method that is there throws a message or returns; what \<open>getMetadata\<close> returns may be
  \<open>undefined\<close>.
\<close>

record 'c instance_view =
  iv_connector :: 'c
  iv_getType :: "(string + string) option"
  iv_getMetadata :: "(string + connector_metadata option) option"

text \<open>\<open>Callable f\<close>: the n-th construction throws a message or yields an instance.\<close>

datatype 'c export = NotCallable | Callable "nat \<Rightarrow> string + 'c instance_view"

record 'c plugin_module =
  pm_default :: "'c export option"
  pm_named :: "(string \<times> 'c export) list"

record 'c plugin_dir =
  pd_name :: string
  pd_index_js :: "(string + 'c plugin_module) option"
  pd_index_ts :: "(string + 'c plugin_module) option"

datatype plugin_source = BuiltIn | External

record 'c plugin_info =
  pl_type :: string
  pl_displayName :: string
  pl_source :: plugin_source
  pl_connector :: 'c
  pl_metadata :: connector_metadata

record skipped_plugin =
  sk_directory :: string
  sk_reason :: string

section \<open>Validating a module\<close>

definition candidates :: "'c plugin_module \<Rightarrow> 'c export list" where
  "candidates m =
     (case pm_default m of None \<Rightarrow> [] | Some e \<Rightarrow> [e]) @
     filter (\<lambda>e. case e of Callable _ \<Rightarrow> True | NotCallable \<Rightarrow> False)
       (map snd (filter (\<lambda>p. fst p \<noteq> ''default'') (pm_named m)))"

definition missing_getMetadata :: string where
  "missing_getMetadata = ''missing getMetadata method''"

definition no_connector :: string where
  "no_connector = ''no valid Connector export found''"

text \<open>The first loop: \<open>None\<close> when it ends without a verdict.\<close>

fun first_loop ::
  "'c export list \<Rightarrow> (string + (nat \<Rightarrow> string + 'c instance_view)) option" where
  "first_loop [] = None"
| "first_loop (NotCallable # es) = first_loop es"
| "first_loop (Callable f # es) =
     (case f 0 of
        Inl _ \<Rightarrow> first_loop es
      | Inr i \<Rightarrow>
          if iv_getType i = None then first_loop es
          else if iv_getMetadata i = None then Some (Inl missing_getMetadata)
          else Some (Inr f))"

text \<open>The second loop constructs every candidate again.\<close>

fun second_loop :: "'c export list \<Rightarrow> string option" where
  "second_loop [] = None"
| "second_loop (NotCallable # es) = second_loop es"
| "second_loop (Callable f # es) =
     (case f 1 of
        Inl _ \<Rightarrow> second_loop es
      | Inr i \<Rightarrow>
          if iv_getType i \<noteq> None \<and> iv_getMetadata i = None then Some missing_getMetadata
          else second_loop es)"

definition validateConnectorModule ::
  "'c plugin_module \<Rightarrow> string + (nat \<Rightarrow> string + 'c instance_view)" where
  "validateConnectorModule m =
     (let cs = candidates m in
      if cs = [] then Inl no_connector
      else case first_loop cs of
             Some r \<Rightarrow> r
           | None \<Rightarrow> Inl (case second_loop cs of Some reason \<Rightarrow> reason | None \<Rightarrow> no_connector))"

section \<open>Scanning\<close>

record 'c scan_state =
  ss_types :: "(string, string) jmap"
  ss_loaded :: "'c plugin_info list"
  ss_skipped :: "skipped_plugin list"
  ss_warnings :: "string list"

definition skip :: "string \<Rightarrow> string \<Rightarrow> 'c scan_state \<Rightarrow> 'c scan_state" where
  "skip name reason s =
     s\<lparr>ss_skipped := ss_skipped s @ [\<lparr>sk_directory = name, sk_reason = reason\<rparr>]\<rparr>"

definition entry_point :: "'c plugin_dir \<Rightarrow> (string + 'c plugin_module) option" where
  "entry_point d = (case pd_index_js d of Some m \<Rightarrow> Some m | None \<Rightarrow> pd_index_ts d)"

definition already_registered :: "string \<Rightarrow> string \<Rightarrow> string" where
  "already_registered ty dir =
     ''type '' @ quoted ty @ '' already registered by '' @ quoted dir"

definition no_displayName :: string where
  "no_displayName = ''Cannot read properties of undefined (reading '' @ quoted ''displayName'' @ '')''"

text \<open>
  The body of the loop over the subdirectories, with what it throws: the type is asked for and the
  name to display is read outside of every \<open>try\<close>, the latter when the type has been noted already.
\<close>

definition scan_entry ::
  "plugin_source \<Rightarrow> 'c scan_state \<Rightarrow> 'c plugin_dir \<Rightarrow> string option \<times> 'c scan_state" where
  "scan_entry src s d =
     (let name = pd_name d; skipped = (\<lambda>reason. (None, skip name reason s)) in
      case entry_point d of
        None \<Rightarrow> skipped ''no entry point found''
      | Some (Inl msg) \<Rightarrow> skipped (''failed to import: '' @ msg)
      | Some (Inr m) \<Rightarrow>
          (case validateConnectorModule m of
             Inl reason \<Rightarrow> skipped reason
           | Inr f \<Rightarrow>
               (case f 1 of
                  Inl msg \<Rightarrow> skipped (''failed to instantiate: '' @ msg)
                | Inr i \<Rightarrow>
                    (case iv_getMetadata i of
                       None \<Rightarrow> skipped ''getMetadata() threw: connector.getMetadata is not a function''
                     | Some (Inl msg) \<Rightarrow> skipped (''getMetadata() threw: '' @ msg)
                     | Some (Inr metadata) \<Rightarrow>
                         (case iv_getType i of
                            None \<Rightarrow> (Some ''connector.getType is not a function'', s)
                          | Some (Inl msg) \<Rightarrow> (Some msg, s)
                          | Some (Inr ty) \<Rightarrow>
                              (case jget (ss_types s) ty of
                                 Some dir \<Rightarrow> skipped (already_registered ty dir)
                               | None \<Rightarrow>
                                   (let s1 = s\<lparr>ss_types := jset (ss_types s) ty name\<rparr> in
                                    case metadata of
                                      None \<Rightarrow> (Some no_displayName, s1)
                                    | Some md \<Rightarrow>
                                        (None, s1\<lparr>ss_loaded := ss_loaded s1 @
                                          [\<lparr>pl_type = ty, pl_displayName = md_displayName md,
                                            pl_source = src, pl_connector = iv_connector i,
                                            pl_metadata = md\<rparr>]\<rparr>))))))))"

fun scan_entries ::
  "plugin_source \<Rightarrow> 'c plugin_dir list \<Rightarrow> 'c scan_state \<Rightarrow> string option \<times> 'c scan_state" where
  "scan_entries src [] s = (None, s)"
| "scan_entries src (d # ds) s =
     (case scan_entry src s d of
        (Some m, s1) \<Rightarrow> (Some m, s1)
      | (None, s1) \<Rightarrow> scan_entries src ds s1)"

text \<open>A directory that cannot be read is a warning.\<close>

definition warn :: "string \<Rightarrow> 'c scan_state \<Rightarrow> 'c scan_state" where
  "warn msg s = s\<lparr>ss_warnings := ss_warnings s @ [msg]\<rparr>"

definition scanDirectory ::
  "plugin_source \<Rightarrow> string + 'c plugin_dir list \<Rightarrow> 'c scan_state \<Rightarrow> string option \<times> 'c scan_state" where
  "scanDirectory src listing s =
     (case listing of
        Inl msg \<Rightarrow> (None, warn (''Cannot read directory: '' @ msg) s)
      | Inr ds \<Rightarrow> scan_entries src ds s)"

text \<open>The external path: not configured, not accessible, not a directory, or a directory.\<close>

datatype 'c external_path =
    NoExternal
  | NotAccessible string
  | NotDirectory
  | Directory "string + 'c plugin_dir list"

definition empty_scan :: "'c scan_state" where
  "empty_scan = \<lparr>ss_types = [], ss_loaded = [], ss_skipped = [], ss_warnings = []\<rparr>"

definition not_accessible :: "string \<Rightarrow> string" where
  "not_accessible msg = ''External plugins directory not accessible: '' @ msg"

text \<open>What scanning the external directory throws is reported as the directory not being there.\<close>

definition loadPlugins ::
  "string + 'c plugin_dir list \<Rightarrow> 'c external_path \<Rightarrow> string + 'c scan_state" where
  "loadPlugins builtin ext =
     (case scanDirectory BuiltIn builtin empty_scan of
        (Some m, _) \<Rightarrow> Inl m
      | (None, s) \<Rightarrow>
          Inr (case ext of
                 NoExternal \<Rightarrow> s
               | NotAccessible msg \<Rightarrow> warn (not_accessible msg) s
               | NotDirectory \<Rightarrow> warn ''External plugins path is not a directory'' s
               | Directory listing \<Rightarrow>
                   (case scanDirectory External listing s of
                      (Some m, s1) \<Rightarrow> warn (not_accessible m) s1
                    | (None, s1) \<Rightarrow> s1)))"

section \<open>What is loaded\<close>

text \<open>
  The second loop of the validation never finds anything when constructing a class yields the
  same kind of object every time.
\<close>

lemma second_loop_dead:
  assumes "\<forall>f. Callable f \<in> set es \<longrightarrow> f 1 = f 0" and "first_loop es = None"
  shows "second_loop es = None"
  using assms
proof (induction es rule: first_loop.induct)
  case (3 f es)
  then have "f 1 = f 0" by simp
  with 3 show ?case
    by (auto split: sum.splits if_splits)
qed simp_all

definition scan_ok :: "'c scan_state \<Rightarrow> bool" where
  "scan_ok s \<longleftrightarrow>
     distinct (map pl_type (ss_loaded s)) \<and> set (map pl_type (ss_loaded s)) \<subseteq> set (jkeys (ss_types s))"

text \<open>Scanning only appends: what is loaded first stays, and there is one entry per subdirectory
  that has been passed.\<close>

lemma scan_entry_extends:
  "\<exists>ls ks. ss_loaded (snd (scan_entry src s d)) = ss_loaded s @ ls
     \<and> ss_skipped (snd (scan_entry src s d)) = ss_skipped s @ ks
     \<and> ss_warnings (snd (scan_entry src s d)) = ss_warnings s
     \<and> (\<forall>p \<in> set ls. pl_source p = src)
     \<and> length ls + length ks = (if fst (scan_entry src s d) = None then 1 else 0)"
  by (auto simp: scan_entry_def Let_def skip_def split: option.split sum.split)

lemma scan_ok_entry:
  assumes "scan_ok s"
  shows "scan_ok (snd (scan_entry src s d))"
proof -
  have fresh: False if "jget (ss_types s) (pl_type x) = None" "x \<in> set (ss_loaded s)" for x
    using that assms by (auto simp: scan_ok_def map_of_eq_None_iff)
  show ?thesis
    using assms
    by (auto simp: scan_ok_def scan_entry_def Let_def skip_def split: option.split sum.split dest: fresh)
qed

lemma scan_entries_extends:
  "\<exists>ls ks. ss_loaded (snd (scan_entries src ds s)) = ss_loaded s @ ls
     \<and> ss_skipped (snd (scan_entries src ds s)) = ss_skipped s @ ks
     \<and> ss_warnings (snd (scan_entries src ds s)) = ss_warnings s
     \<and> (\<forall>p \<in> set ls. pl_source p = src)
     \<and> (fst (scan_entries src ds s) = None \<longrightarrow> length ls + length ks = length ds)
     \<and> (scan_ok s \<longrightarrow> scan_ok (snd (scan_entries src ds s)))"
proof (induction ds arbitrary: s)
  case Nil
  show ?case by simp
next
  case (Cons d ds)
  obtain x s1 where e: "scan_entry src s d = (x, s1)" by (cases "scan_entry src s d")
  obtain ls ks where 1: "ss_loaded s1 = ss_loaded s @ ls" "ss_skipped s1 = ss_skipped s @ ks"
    "ss_warnings s1 = ss_warnings s" "\<forall>p \<in> set ls. pl_source p = src"
    "length ls + length ks = (if x = None then 1 else 0)"
    using scan_entry_extends [of src s d] e by auto
  have ok: "scan_ok s \<longrightarrow> scan_ok s1" using scan_ok_entry [of s src d] e by simp
  show ?case
  proof (cases x)
    case (Some m)
    with e 1 ok show ?thesis by auto
  next
    case None
    obtain ls' ks' where 2: "ss_loaded (snd (scan_entries src ds s1)) = ss_loaded s1 @ ls'"
      "ss_skipped (snd (scan_entries src ds s1)) = ss_skipped s1 @ ks'"
      "ss_warnings (snd (scan_entries src ds s1)) = ss_warnings s1" "\<forall>p \<in> set ls'. pl_source p = src"
      "fst (scan_entries src ds s1) = None \<longrightarrow> length ls' + length ks' = length ds"
      "scan_ok s1 \<longrightarrow> scan_ok (snd (scan_entries src ds s1))"
      using Cons.IH by blast
    show ?thesis
      by (rule exI [of _ "ls @ ls'"], rule exI [of _ "ks @ ks'"]) (use None e 1 2 ok in auto)
  qed
qed

text \<open>A subdirectory whose connector tells its type and has metadata, where it gets that far.\<close>

definition orderly :: "'c plugin_dir \<Rightarrow> bool" where
  "orderly d \<longleftrightarrow>
     (case entry_point d of
        Some (Inr m) \<Rightarrow>
          (case validateConnectorModule m of
             Inr f \<Rightarrow>
               (case f 1 of
                  Inr i \<Rightarrow> (case iv_getType i of Some (Inr _) \<Rightarrow> True | _ \<Rightarrow> False) \<and> iv_getMetadata i \<noteq> Some (Inr None)
                | Inl _ \<Rightarrow> True)
           | Inl _ \<Rightarrow> True)
      | _ \<Rightarrow> True)"

lemma orderly_entry: "orderly d \<Longrightarrow> fst (scan_entry src s d) = None"
  by (auto simp: orderly_def scan_entry_def Let_def split: option.splits sum.splits)

lemma orderly_entries: "list_all orderly ds \<Longrightarrow> fst (scan_entries src ds s) = None"
proof (induction ds arbitrary: s)
  case (Cons d ds)
  then show ?case using orderly_entry [of d src s] by (cases "scan_entry src s d") simp
qed simp

text \<open>C22: Unless loading the built-in plugins throws, no two loaded plugins have the same type, and the
  built-in ones come first, exactly those that are loaded without the external directory, so that
  an external plugin never takes the place of a built-in one. If every connector that can be
  constructed tells its type and has metadata, nothing throws, and every subdirectory of the two
  directories is either loaded or skipped.\<close>

theorem loadPlugins_types:
  "(\<forall>r. loadPlugins (Inr builtin) (Directory (Inr external)) = Inr r \<longrightarrow>
      distinct (map pl_type (ss_loaded r))
      \<and> (\<exists>bs es b. ss_loaded r = bs @ es \<and> (\<forall>p \<in> set bs. pl_source p = BuiltIn)
              \<and> (\<forall>p \<in> set es. pl_source p = External)
              \<and> loadPlugins (Inr builtin) NoExternal = Inr b \<and> ss_loaded b = bs))
   \<and> (list_all orderly (builtin @ external) \<longrightarrow>
      (\<exists>r. loadPlugins (Inr builtin) (Directory (Inr external)) = Inr r \<and> ss_warnings r = []
         \<and> length (ss_loaded r) + length (ss_skipped r) = length builtin + length external))"
proof -
  obtain x s where b: "scan_entries BuiltIn builtin empty_scan = (x, s)" by fastforce
  obtain y s1 where e: "scan_entries External external s = (y, s1)" by fastforce
  have "scan_ok empty_scan" by (simp add: scan_ok_def empty_scan_def)
  then obtain bs bk where 1: "ss_loaded s = bs" "ss_skipped s = bk" "ss_warnings s = []"
    "\<forall>p \<in> set bs. pl_source p = BuiltIn" "x = None \<longrightarrow> length bs + length bk = length builtin" "scan_ok s"
    using scan_entries_extends [of BuiltIn builtin empty_scan] b by (auto simp: empty_scan_def)
  then obtain es ek where 2: "ss_loaded s1 = bs @ es" "ss_skipped s1 = bk @ ek" "ss_warnings s1 = []"
    "\<forall>p \<in> set es. pl_source p = External" "y = None \<longrightarrow> length es + length ek = length external" "scan_ok s1"
    using scan_entries_extends [of External external s] e by auto
  have r: "loadPlugins (Inr builtin) (Directory (Inr external)) = (case x of Some m \<Rightarrow> Inl m
      | None \<Rightarrow> Inr (case y of Some m \<Rightarrow> warn (not_accessible m) s1 | None \<Rightarrow> s1))"
    "loadPlugins (Inr builtin) NoExternal = (case x of Some m \<Rightarrow> Inl m | None \<Rightarrow> Inr s)"
    by (simp_all add: loadPlugins_def scanDirectory_def b e split: option.split)
  have "x = None \<and> y = None" if "list_all orderly (builtin @ external)"
    using that orderly_entries [of builtin BuiltIn empty_scan] orderly_entries [of external External s] b e
    by simp
  with 1 2 show ?thesis
    by (auto simp: r scan_ok_def warn_def split: option.splits)
qed

definition demo_metadata :: connector_metadata where
  "demo_metadata = \<lparr>md_type = ''s7'', md_displayName = ''S7'', md_description = None,
                    md_paramsSchema = []\<rparr>"

definition demo_instance :: "nat instance_view" where
  "demo_instance = \<lparr>iv_connector = 0, iv_getType = Some (Inr ''s7''),
                    iv_getMetadata = Some (Inr (Some demo_metadata))\<rparr>"

definition demo_plugin_of :: "nat instance_view \<Rightarrow> nat plugin_dir" where
  "demo_plugin_of i = \<lparr>pd_name = ''s7'',
     pd_index_js = Some (Inr \<lparr>pm_default = None, pm_named = [(''S7'', Callable (\<lambda>_. Inr i))]\<rparr>),
     pd_index_ts = None\<rparr>"

definition demo_plugin :: "nat plugin_dir" where
  "demo_plugin = demo_plugin_of demo_instance"

lemma loadPlugins_types_witness:
  "\<exists>r. loadPlugins (Inr [demo_plugin]) (Directory (Inr [demo_plugin])) = Inr r
     \<and> distinct (map pl_type (ss_loaded r)) \<and> length (ss_loaded r) + length (ss_skipped r) = 2"
proof -
  have "list_all orderly ([demo_plugin] @ [demo_plugin])" by code_simp
  with loadPlugins_types [of "[demo_plugin]" "[demo_plugin]"] show ?thesis by auto
qed

text \<open>
  A plugin whose \<open>getType\<close> throws, or that has no metadata, is not skipped: it ends the scan, and
  the plugins after it are neither loaded nor skipped. Among the built-in ones it ends the loading,
  of an external one the log says that the directory is not accessible.
\<close>

lemma broken_plugin_ends_scan:
  fixes bad :: "nat plugin_dir"
  assumes "bad \<in> {demo_plugin_of (demo_instance\<lparr>iv_getType := Some (Inl ''no type'')\<rparr>),
    demo_plugin_of (demo_instance\<lparr>iv_getMetadata := Some (Inr None)\<rparr>)}"
  shows "\<exists>m r. loadPlugins (Inr [bad, demo_plugin]) NoExternal = Inl m
    \<and> loadPlugins (Inr []) (Directory (Inr [bad, demo_plugin])) = Inr r
    \<and> ss_loaded r = [] \<and> ss_skipped r = [] \<and> ss_warnings r = [not_accessible m]"
  using assms
  by (auto simp: loadPlugins_def scanDirectory_def scan_entry_def demo_plugin_of_def entry_point_def
      validateConnectorModule_def candidates_def demo_instance_def empty_scan_def warn_def Let_def)

end
