(* ===== verification/ProcessManager.thy ===== *)
theory ProcessManager
  imports Json
begin

text \<open>
  \<open>src/process-manager/index.ts\<close> and \<open>validate-sessions.ts\<close>: the life of the OPC UA runtime
  as a child process. Children are numbered as they are spawned. What the operating system
  and the runtime do are events: a spawn with or without a process id, an exit, an error, the
  output pipes. The host name, the parsed \<open>status.json\<close> and the platform are the record
  \<open>pm_env\<close>; signals, writes and broadcasts are outputs.
\<close>

section \<open>Client sessions\<close>

datatype session_state = SCreated | SActivated | SClosing

record client_session =
  cl_applicationName :: string
  cl_applicationUri :: string
  cl_securityPolicyUri :: string
  cl_clientAddress :: string
  cl_connectTime :: string
  cl_sessionState :: session_state

definition session_state_of :: "string \<Rightarrow> session_state option" where
  "session_state_of s =
     (if s = ''Created'' then Some SCreated
      else if s = ''Activated'' then Some SActivated
      else if s = ''Closing'' then Some SClosing
      else None)"

fun str_of :: "jsval \<Rightarrow> string option" where
  "str_of (JStr s) = Some s"
| "str_of _ = None"

text \<open>One entry of \<open>sessions\<close>; \<open>valid_date\<close> is whether \<open>new Date(s)\<close> is a time.\<close>

definition session_of :: "(string \<Rightarrow> bool) \<Rightarrow> jsval \<Rightarrow> client_session option" where
  "session_of valid_date entry =
     (case entry of
        JObj ps \<Rightarrow>
          (case (str_of (getprop ps ''applicationName''), str_of (getprop ps ''applicationUri''),
                 str_of (getprop ps ''securityPolicyUri''), str_of (getprop ps ''clientAddress''),
                 str_of (getprop ps ''connectTime''), str_of (getprop ps ''sessionState'')) of
             (Some n, Some u, Some p, Some a, Some t, Some st) \<Rightarrow>
               (case session_state_of st of
                  None \<Rightarrow> None
                | Some ss \<Rightarrow>
                    if valid_date t then
                      Some \<lparr>cl_applicationName = n, cl_applicationUri = u,
                            cl_securityPolicyUri = p, cl_clientAddress = a, cl_connectTime = t,
                            cl_sessionState = ss\<rparr>
                    else None)
           | _ \<Rightarrow> None)
      | _ \<Rightarrow> None)"

definition validateSessions :: "(string \<Rightarrow> bool) \<Rightarrow> jsval \<Rightarrow> client_session list" where
  "validateSessions valid_date raw =
     (case raw of JArr es \<Rightarrow> List.map_filter (session_of valid_date) es | _ \<Rightarrow> [])"

fun session_state_text :: "session_state \<Rightarrow> string" where
  "session_state_text SCreated = ''Created''"
| "session_state_text SActivated = ''Activated''"
| "session_state_text SClosing = ''Closing''"

definition session_json :: "client_session \<Rightarrow> jsval" where
  "session_json c =
     JObj [(''applicationName'', JStr (cl_applicationName c)),
           (''applicationUri'', JStr (cl_applicationUri c)),
           (''securityPolicyUri'', JStr (cl_securityPolicyUri c)),
           (''clientAddress'', JStr (cl_clientAddress c)),
           (''connectTime'', JStr (cl_connectTime c)),
           (''sessionState'', JStr (session_state_text (cl_sessionState c)))]"

definition sessions_json :: "client_session list \<Rightarrow> jsval" where
  "sessions_json cs = JArr (map session_json cs)"

lemma session_state_of_text [simp]: "session_state_of (session_state_text s) = Some s"
  by (cases s) (simp_all add: session_state_of_def)

text \<open>Validating the sessions of a status file keeps exactly the well-formed ones in order: what
  it returns, written out again, validates to itself.\<close>

lemma validateSessions_idempotent:
  "validateSessions vd (sessions_json (validateSessions vd raw)) = validateSessions vd raw"
proof -
  have 1: "session_of vd (session_json c) = Some c" if "session_of vd e = Some c" for e c
    using that
    by (auto simp: session_of_def session_json_def getprop_def
        split: jsval.splits option.splits if_splits prod.splits)
  have "List.map_filter (session_of vd) (map session_json (List.map_filter (session_of vd) es))
      = List.map_filter (session_of vd) es" for es
    by (induction es) (auto simp: List.map_filter_simps 1 split: option.split)
  then show ?thesis
    by (simp add: validateSessions_def sessions_json_def List.map_filter_simps split: jsval.split)
qed

section \<open>State\<close>

datatype pm_run_state = Running | Stopped | Failed

record child =
  ch_id :: nat
  ch_pid :: int

record server_status =
  st_state :: pm_run_state
  st_hostname :: string
  st_uptime :: "int option"
  st_pid :: "int option"
  st_connectedClients :: "jsnum option"
  st_lastError :: "string option"

datatype pm_broadcast = StatusEvent server_status | ClientsEvent "client_session list"
datatype pm_signal = SigTerm | SigKill | SigUsr1 | TaskKill | NamedPipe

text \<open>A call of \<open>stop\<close>: the child it waits for, and which of its three handlers are still set.\<close>

record stop_call =
  sw_child :: nat
  sw_exit :: bool
  sw_error :: bool
  sw_timer :: bool

record process_manager =
  pm_process :: "child option"
  pm_state :: pm_run_state
  pm_startedAt :: "int option"
  pm_lastError :: "string option"
  pm_connectedClients :: int
  pm_stopping :: bool
  pm_stderr :: string
  pm_hub :: bool
  pm_timer :: bool
  pm_previousSessions :: string
  pm_stops :: "stop_call list"
  pm_spawned :: nat
  pm_clock :: int
  pm_crashes :: "string list"
  pm_signals :: "(int \<times> pm_signal) list"
  pm_stdin :: "(nat \<times> string) list"
  pm_broadcasts :: "pm_broadcast list"

definition new_manager :: process_manager where
  "new_manager =
     \<lparr>pm_process = None, pm_state = Stopped, pm_startedAt = None, pm_lastError = None,
      pm_connectedClients = 0, pm_stopping = False, pm_stderr = [], pm_hub = False,
      pm_timer = False, pm_previousSessions = ''[]'', pm_stops = [], pm_spawned = 0,
      pm_clock = 0, pm_crashes = [], pm_signals = [], pm_stdin = [], pm_broadcasts = []\<rparr>"

record pm_env =
  env_hostname :: string
  env_status_file :: "jsval option"
  env_valid_date :: "string \<Rightarrow> bool"
  env_number_text :: text_of_number
  env_windows :: bool

section \<open>Reading\<close>

text \<open>A property of the parsed file; anything that is not an object has none.\<close>

definition file_prop :: "pm_env \<Rightarrow> string \<Rightarrow> jsval" where
  "file_prop env k =
     (case env_status_file env of Some (JObj ps) \<Rightarrow> getprop ps k | _ \<Rightarrow> JUndefined)"

definition readConnectedClients :: "pm_env \<Rightarrow> jsnum" where
  "readConnectedClients env =
     (case file_prop env ''connectedClients'' of JNum n \<Rightarrow> n | _ \<Rightarrow> Fin 0)"

definition pm_getStatus :: "pm_env \<Rightarrow> process_manager \<Rightarrow> server_status" where
  "pm_getStatus env s =
     (let on = (pm_state s = Running \<and> pm_startedAt s \<noteq> None) in
      \<lparr>st_state = pm_state s, st_hostname = env_hostname env,
       st_uptime = (if on then Some ((pm_clock s - the (pm_startedAt s)) div 1000) else None),
       st_pid = (if on then map_option ch_pid (pm_process s) else None),
       st_connectedClients = (if on then Some (readConnectedClients env) else None),
       st_lastError = (if truthy_str (pm_lastError s) then pm_lastError s else None)\<rparr>)"

definition readClientSessions :: "pm_env \<Rightarrow> process_manager \<Rightarrow> client_session list" where
  "readClientSessions env s =
     (if pm_state s \<noteq> Running then []
      else validateSessions (env_valid_date env) (file_prop env ''sessions''))"

section \<open>Operations\<close>

definition pm_setSseHub :: "process_manager \<Rightarrow> process_manager" where
  "pm_setSseHub s = s\<lparr>pm_hub := True\<rparr>"

definition pm_send :: "pm_broadcast \<Rightarrow> process_manager \<Rightarrow> process_manager" where
  "pm_send b s = (if pm_hub s then s\<lparr>pm_broadcasts := pm_broadcasts s @ [b]\<rparr> else s)"

definition pm_broadcastStatus :: "pm_env \<Rightarrow> process_manager \<Rightarrow> process_manager" where
  "pm_broadcastStatus env s = pm_send (StatusEvent (pm_getStatus env s)) s"

definition pm_broadcastClients :: "client_session list \<Rightarrow> process_manager \<Rightarrow> process_manager" where
  "pm_broadcastClients cs s = pm_send (ClientsEvent cs) s"

definition not_running :: string where
  "not_running = ''Process is not running''"

text \<open>\<open>start\<close>, given the process id the spawn assigns, if any.\<close>

definition pm_start ::
  "pm_env \<Rightarrow> int option \<Rightarrow> process_manager \<Rightarrow> (string + int \<times> int) \<times> process_manager" where
  "pm_start env pid s =
     (if pm_state s = Running \<and> pm_process s \<noteq> None then
        (Inl ''Process is already running'', s)
      else
        (let s1 = s\<lparr>pm_stopping := False, pm_lastError := None, pm_stderr := [],
                    pm_spawned := Suc (pm_spawned s)\<rparr>
         in case pid of
              None \<Rightarrow>
                (let e = ''Failed to spawn process: no PID assigned''
                 in (Inl e, s1\<lparr>pm_state := Failed, pm_lastError := Some e\<rparr>))
            | Some p \<Rightarrow>
                (let s2 = s1\<lparr>pm_process := Some \<lparr>ch_id = pm_spawned s, ch_pid = p\<rparr>,
                             pm_state := Running, pm_startedAt := Some (pm_clock s),
                             pm_connectedClients := 0\<rparr>;
                     s3 = pm_broadcastStatus env s2;
                     s4 = (if pm_timer s3 then s3 else s3\<lparr>pm_timer := True\<rparr>)
                 in (Inr (p, pm_clock s), s4))))"

definition pm_stop :: "pm_env \<Rightarrow> process_manager \<Rightarrow> string option \<times> process_manager" where
  "pm_stop env s =
     (case pm_process s of
        None \<Rightarrow> (Some not_running, s)
      | Some c \<Rightarrow>
          if pm_state s \<noteq> Running then (Some not_running, s)
          else (None, s\<lparr>pm_stopping := True,
                        pm_stops := pm_stops s @ [\<lparr>sw_child = ch_id c, sw_exit = True,
                                                   sw_error = True, sw_timer = True\<rparr>],
                        pm_signals := pm_signals s
                          @ [(ch_pid c, if env_windows env then TaskKill else SigTerm)]\<rparr>))"

text \<open>\<open>reload\<close>; \<open>fails\<close> is the message of a named pipe that cannot be written, or of \<open>process.kill\<close>.\<close>

definition pm_reload ::
  "pm_env \<Rightarrow> string option \<Rightarrow> process_manager \<Rightarrow> string option \<times> process_manager" where
  "pm_reload env fails s =
     (case pm_process s of
        None \<Rightarrow> (Some not_running, s)
      | Some c \<Rightarrow>
          if pm_state s \<noteq> Running then (Some not_running, s)
          else if env_windows env then
            (case fails of
               Some m \<Rightarrow> (Some (''Failed to send reload signal via named pipe: '' @ m), s)
             | None \<Rightarrow>
                 (None, pm_broadcastStatus env
                          (s\<lparr>pm_signals := pm_signals s @ [(ch_pid c, NamedPipe)]\<rparr>)))
          else
            (case fails of
               Some m \<Rightarrow> (Some m, s)
             | None \<Rightarrow>
                 (None, pm_broadcastStatus env
                          (s\<lparr>pm_signals := pm_signals s @ [(ch_pid c, SigUsr1)]\<rparr>))))"

text \<open>\<open>writeToStdin\<close>; \<open>writable\<close> is whether the pipe can be written, \<open>taken\<close> what \<open>write\<close> returns.\<close>

definition writeToStdin ::
  "bool \<Rightarrow> bool \<Rightarrow> string \<Rightarrow> process_manager \<Rightarrow> (string + bool) \<times> process_manager" where
  "writeToStdin writable taken data s =
     (case pm_process s of
        None \<Rightarrow> (Inl not_running, s)
      | Some c \<Rightarrow>
          if pm_state s \<noteq> Running then (Inl not_running, s)
          else if \<not> writable then (Inr False, s)
          else (Inr taken, s\<lparr>pm_stdin := pm_stdin s @ [(ch_id c, data)]\<rparr>))"

definition updateConnectedClients :: "int \<Rightarrow> process_manager \<Rightarrow> process_manager" where
  "updateConnectedClients n s = s\<lparr>pm_connectedClients := n\<rparr>"

definition pm_cleanup :: "process_manager \<Rightarrow> process_manager" where
  "pm_cleanup s =
     s\<lparr>pm_timer := False, pm_state := Stopped, pm_process := None, pm_startedAt := None,
       pm_connectedClients := 0, pm_stopping := False, pm_stderr := [],
       pm_previousSessions := ''[]''\<rparr>"

section \<open>Events of the child\<close>

datatype exit_info = BySignal string | ByCode string

definition exit_reason :: "exit_info \<Rightarrow> string \<Rightarrow> string" where
  "exit_reason x stderr =
     (case x of
        BySignal g \<Rightarrow> ''Process killed by signal: '' @ g
      | ByCode c \<Rightarrow> ''Process exited with code: '' @ c) @
     (if trim stderr \<noteq> [] then lf # ''stderr: '' @ trim stderr else [])"

definition pm_crash :: "string \<Rightarrow> process_manager \<Rightarrow> process_manager" where
  "pm_crash reason s =
     s\<lparr>pm_state := Failed, pm_lastError := Some reason, pm_process := None,
       pm_crashes := pm_crashes s @ [reason]\<rparr>"

text \<open>The handlers a call of \<open>stop\<close> registered for \<open>exit\<close> and \<open>error\<close>, each run at most once.\<close>

definition stop_exit :: "pm_env \<Rightarrow> nat \<Rightarrow> process_manager \<Rightarrow> stop_call \<Rightarrow> process_manager" where
  "stop_exit env c s w =
     (if sw_child w = c \<and> sw_exit w then
        pm_broadcastClients [] (pm_broadcastStatus env (pm_cleanup s))
      else s)"

definition stop_error :: "nat \<Rightarrow> process_manager \<Rightarrow> stop_call \<Rightarrow> process_manager" where
  "stop_error c s w = (if sw_child w = c \<and> sw_error w then pm_cleanup s else s)"

definition clear_exit :: "nat \<Rightarrow> stop_call \<Rightarrow> stop_call" where
  "clear_exit c w = (if sw_child w = c then w\<lparr>sw_exit := False, sw_timer := False\<rparr> else w)"

definition clear_error :: "nat \<Rightarrow> stop_call \<Rightarrow> stop_call" where
  "clear_error c w = (if sw_child w = c then w\<lparr>sw_error := False, sw_timer := False\<rparr> else w)"

definition on_exit :: "pm_env \<Rightarrow> nat \<Rightarrow> exit_info \<Rightarrow> process_manager \<Rightarrow> process_manager" where
  "on_exit env c x s =
     (let s1 = (if \<not> pm_stopping s then pm_crash (exit_reason x (pm_stderr s)) s else s);
          s2 = foldl (stop_exit env c) s1 (pm_stops s1)
      in s2\<lparr>pm_stops := map (clear_exit c) (pm_stops s2)\<rparr>)"

definition on_error :: "nat \<Rightarrow> string \<Rightarrow> process_manager \<Rightarrow> process_manager" where
  "on_error c msg s =
     (let s1 = (if \<not> pm_stopping s then pm_crash (''Process error: '' @ msg) s else s);
          s2 = foldl (stop_error c) s1 (pm_stops s1)
      in s2\<lparr>pm_stops := map (clear_error c) (pm_stops s2)\<rparr>)"

definition on_stdin_error :: "string \<Rightarrow> string \<Rightarrow> process_manager \<Rightarrow> process_manager" where
  "on_stdin_error code msg s =
     (if code \<noteq> ''EPIPE'' then s\<lparr>pm_lastError := Some (''stdin error: '' @ msg)\<rparr> else s)"

definition on_stderr :: "string \<Rightarrow> process_manager \<Rightarrow> process_manager" where
  "on_stderr d s = (if trim d \<noteq> [] then s\<lparr>pm_stderr := pm_stderr s @ trim d @ [lf]\<rparr> else s)"

text \<open>\<open>/^clients:(\d+)$/\<close>\<close>

definition clients_line :: "string \<Rightarrow> nat option" where
  "clients_line l =
     (let ds = drop 8 l in
      if take 8 l = ''clients:'' \<and> ds \<noteq> [] \<and> list_all is_digit ds then Some (dec_val ds) else None)"

definition parseStdout :: "string \<Rightarrow> process_manager \<Rightarrow> process_manager" where
  "parseStdout out s =
     foldl (\<lambda>s l. case clients_line l of
                    Some n \<Rightarrow> s\<lparr>pm_connectedClients := int n\<rparr> | None \<Rightarrow> s)
       s (split_on lf out)"

text \<open>The callback of the status interval.\<close>

definition on_timer :: "pm_env \<Rightarrow> process_manager \<Rightarrow> process_manager" where
  "on_timer env s =
     (let s1 = pm_broadcastStatus env s;
          cs = readClientSessions env s1;
          text = json (env_number_text env) (sessions_json cs)
      in if text \<noteq> pm_previousSessions s1 then
           pm_broadcastClients cs (s1\<lparr>pm_previousSessions := text\<rparr>)
         else s1)"

text \<open>The ten seconds of a call of \<open>stop\<close> are over.\<close>

definition on_kill_timeout :: "int \<Rightarrow> nat \<Rightarrow> process_manager \<Rightarrow> process_manager" where
  "on_kill_timeout pid n s =
     s\<lparr>pm_signals := pm_signals s @ [(pid, SigKill)],
       pm_stops := (pm_stops s)[n := (pm_stops s ! n)\<lparr>sw_timer := False\<rparr>]\<rparr>"

datatype pm_event =
    PStart "int option"
  | PStop
  | PReload "string option"
  | PWrite bool bool string
  | PClients int
  | PHub
  | PExit nat exit_info
  | PError nat string
  | PStdinError string string
  | PStderr string
  | PStdout string
  | PTimer
  | PKillTimeout int nat
  | PTick nat

text \<open>
  Can the event happen? A child reports only after it was spawned; in which order and how often
  the children of a manager report is left open.
\<close>

fun pm_enabled :: "process_manager \<Rightarrow> pm_event \<Rightarrow> bool" where
  "pm_enabled s (PExit c x) = (c < pm_spawned s)"
| "pm_enabled s (PError c m) = (c < pm_spawned s)"
| "pm_enabled s PTimer = pm_timer s"
| "pm_enabled s (PKillTimeout p n) = (n < length (pm_stops s) \<and> sw_timer (pm_stops s ! n))"
| "pm_enabled s _ = True"

fun pm_apply :: "pm_env \<Rightarrow> pm_event \<Rightarrow> process_manager \<Rightarrow> process_manager" where
  "pm_apply env (PStart pid) s = snd (pm_start env pid s)"
| "pm_apply env PStop s = snd (pm_stop env s)"
| "pm_apply env (PReload f) s = snd (pm_reload env f s)"
| "pm_apply env (PWrite op ok d) s = snd (writeToStdin op ok d s)"
| "pm_apply env (PClients n) s = updateConnectedClients n s"
| "pm_apply env PHub s = pm_setSseHub s"
| "pm_apply env (PExit c x) s = on_exit env c x s"
| "pm_apply env (PError c m) s = on_error c m s"
| "pm_apply env (PStdinError code m) s = on_stdin_error code m s"
| "pm_apply env (PStderr d) s = on_stderr d s"
| "pm_apply env (PStdout d) s = parseStdout d s"
| "pm_apply env PTimer s = on_timer env s"
| "pm_apply env (PKillTimeout p n) s = on_kill_timeout p n s"
| "pm_apply env (PTick n) s = s\<lparr>pm_clock := pm_clock s + int n\<rparr>"

inductive pm_reach :: "process_manager \<Rightarrow> bool" where
  init: "pm_reach new_manager"
| step: "pm_reach s \<Longrightarrow> pm_enabled s e \<Longrightarrow> pm_reach (pm_apply env e s)"

fun pm_run :: "pm_env \<Rightarrow> pm_event list \<Rightarrow> process_manager \<Rightarrow> process_manager option" where
  "pm_run env [] s = Some s"
| "pm_run env (e # es) s = (if pm_enabled s e then pm_run env es (pm_apply env e s) else None)"

lemma pm_run_reach: "pm_run env es s = Some t \<Longrightarrow> pm_reach s \<Longrightarrow> pm_reach t"
  by (induction es arbitrary: s) (auto split: if_splits intro: pm_reach.step)

section \<open>Invariant\<close>

text \<open>
  The manager says it runs exactly when it holds a child; then it knows since when and its
  status timer is on. While it is stopping, it holds the child it waits for.
\<close>

definition pm_ok :: "process_manager \<Rightarrow> bool" where
  "pm_ok s \<longleftrightarrow>
     (pm_state s = Running \<longleftrightarrow> pm_process s \<noteq> None) \<and>
     (pm_state s = Running \<longrightarrow> pm_startedAt s \<noteq> None \<and> pm_timer s) \<and>
     (pm_stopping s \<longrightarrow> pm_state s = Running)"

lemma pm_ok_send [simp]: "pm_ok (pm_send b s) = pm_ok s"
  by (simp add: pm_ok_def pm_send_def)

lemma pm_ok_broadcasts [simp]:
  "pm_ok (pm_broadcastStatus env s) = pm_ok s" "pm_ok (pm_broadcastClients cs s) = pm_ok s"
  by (simp_all add: pm_broadcastStatus_def pm_broadcastClients_def)

lemma pm_ok_cleanup [simp]: "pm_ok (pm_cleanup s)"
  by (simp add: pm_ok_def pm_cleanup_def)

lemma pm_ok_fold_exit: "pm_ok s \<Longrightarrow> pm_ok (foldl (stop_exit env c) s ws)"
  by (induction ws arbitrary: s) (simp_all add: stop_exit_def)

lemma pm_ok_fold_error: "pm_ok s \<Longrightarrow> pm_ok (foldl (stop_error c) s ws)"
  by (induction ws arbitrary: s) (simp_all add: stop_error_def)

lemma pm_ok_stops [simp]: "pm_ok (s\<lparr>pm_stops := ws\<rparr>) = pm_ok s"
  by (simp add: pm_ok_def)

lemma pm_ok_crash: "\<not> pm_stopping s \<Longrightarrow> pm_ok (pm_crash r s)"
  by (simp add: pm_ok_def pm_crash_def)

lemma pm_send_fields [simp]:
  "pm_process (pm_send b s) = pm_process s" "pm_state (pm_send b s) = pm_state s"
  "pm_startedAt (pm_send b s) = pm_startedAt s" "pm_timer (pm_send b s) = pm_timer s"
  "pm_stopping (pm_send b s) = pm_stopping s"
  by (simp_all add: pm_send_def)

lemma pm_ok_start: "pm_ok s \<Longrightarrow> pm_ok (snd (pm_start env pid s))"
  by (auto simp: pm_start_def pm_ok_def pm_broadcastStatus_def Let_def split: option.split)

lemma pm_ok_parseStdout: "pm_ok s \<Longrightarrow> pm_ok (parseStdout d s)"
proof -
  have "pm_ok s \<Longrightarrow> pm_ok (foldl (\<lambda>s l. case clients_line l of
      Some n \<Rightarrow> s\<lparr>pm_connectedClients := int n\<rparr> | None \<Rightarrow> s) s ls)" for ls
    by (induction ls arbitrary: s) (auto simp: pm_ok_def split: option.split)
  then show "pm_ok s \<Longrightarrow> pm_ok (parseStdout d s)" by (simp add: parseStdout_def)
qed

lemma pm_ok_apply: "pm_ok s \<Longrightarrow> pm_ok (pm_apply env e s)"
proof (cases e)
  case (PExit c x)
  assume "pm_ok s"
  then show ?thesis
    unfolding PExit by (auto simp: on_exit_def Let_def intro!: pm_ok_fold_exit pm_ok_crash)
next
  case (PError c m)
  assume "pm_ok s"
  then show ?thesis
    unfolding PError by (auto simp: on_error_def Let_def intro!: pm_ok_fold_error pm_ok_crash)
qed (auto simp: pm_ok_start pm_ok_parseStdout on_timer_def Let_def, auto simp: pm_ok_def
    pm_stop_def pm_reload_def writeToStdin_def updateConnectedClients_def pm_setSseHub_def
    on_stdin_error_def on_stderr_def on_kill_timeout_def pm_broadcastStatus_def
    pm_broadcastClients_def split: option.split)

text \<open>C4: Whatever the callers, the operating system and the runtime do, the process manager says it
  runs exactly when it holds a child process, and a stop in progress always has a child to
  wait for.\<close>

theorem process_manager_invariant: "pm_reach s \<Longrightarrow> pm_ok s"
  by (induction rule: pm_reach.induct) (simp_all add: pm_ok_apply, simp add: pm_ok_def new_manager_def)

definition demo_env :: pm_env where
  "demo_env = \<lparr>env_hostname = ''10.0.0.5'', env_status_file = None, env_valid_date = \<lambda>_. True,
               env_number_text = \<lambda>_. [], env_windows = False\<rparr>"

lemma process_manager_invariant_witness:
  "pm_ok (pm_apply demo_env (PStart (Some 42)) new_manager)"
  by (rule process_manager_invariant, rule pm_reach.step [OF pm_reach.init]) simp

section \<open>Stopping and crashing\<close>

definition halted :: "process_manager \<Rightarrow> bool" where
  "halted s \<longleftrightarrow> pm_state s = Stopped \<and> pm_process s = None \<and> pm_startedAt s = None \<and> \<not> pm_timer s"

lemma halted_send [simp]: "halted (pm_send b s) = halted s"
  by (simp add: halted_def)

lemma halted_stop_exit:
  "halted s \<or> sw_child w = c \<and> sw_exit w \<Longrightarrow> halted (stop_exit env c s w)"
  by (auto simp: stop_exit_def pm_broadcastStatus_def pm_broadcastClients_def)
    (simp_all add: halted_def pm_cleanup_def)

lemma halted_fold_exit:
  "halted s \<or> (\<exists>w \<in> set ws. sw_child w = c \<and> sw_exit w) \<Longrightarrow>
    halted (foldl (stop_exit env c) s ws)"
proof (induction ws arbitrary: s)
  case Nil
  then show ?case by simp
next
  case (Cons w ws)
  then show ?case using halted_stop_exit [of s w c env] by auto
qed

lemma crashes_fold_exit: "pm_crashes (foldl (stop_exit env c) s ws) = pm_crashes s"
  by (induction ws arbitrary: s)
    (simp_all add: stop_exit_def pm_broadcastStatus_def pm_broadcastClients_def pm_send_def
      pm_cleanup_def)

lemma fold_exit_none:
  "\<forall>w \<in> set ws. \<not> (sw_child w = c \<and> sw_exit w) \<Longrightarrow> foldl (stop_exit env c) s ws = s"
  by (induction ws arbitrary: s) (auto simp: stop_exit_def)

text \<open>A runtime that exits, for whatever reason, after it was asked to stop leaves the manager
  stopped, with no child, no start time and no status timer, and is not reported as a crash.\<close>

lemma exit_after_stop:
  assumes "pm_ok s" and "pm_process s = Some c"
  shows "let s' = on_exit env (ch_id c) x (snd (pm_stop env s)) in
           halted s' \<and> pm_crashes s' = pm_crashes s"
proof -
  let ?s = "snd (pm_stop env s)"
  have "pm_state s = Running" using assms by (simp add: pm_ok_def)
  then have s: "pm_stopping ?s" "pm_crashes ?s = pm_crashes s"
    "\<exists>w \<in> set (pm_stops ?s). sw_child w = ch_id c \<and> sw_exit w"
    using assms(2) by (auto simp: pm_stop_def)
  then have "halted (foldl (stop_exit env (ch_id c)) ?s (pm_stops ?s))"
    by (intro halted_fold_exit) blast
  with s show ?thesis
    by (simp add: on_exit_def Let_def crashes_fold_exit) (simp add: halted_def)
qed

text \<open>A runtime that exits without having been asked to leaves the manager failed, with no
  child; the crash handlers are told a reason, and it is the error the status reports.\<close>

lemma exit_is_crash:
  assumes "\<not> pm_stopping s" and "\<forall>w \<in> set (pm_stops s). sw_child w = c \<longrightarrow> \<not> sw_exit w"
  shows "let s' = on_exit env c x s; reason = exit_reason x (pm_stderr s) in
           pm_state s' = Failed \<and> pm_process s' = None \<and> pm_crashes s' = pm_crashes s @ [reason]
           \<and> st_lastError (pm_getStatus env s') = Some reason"
proof -
  have "foldl (stop_exit env c) (pm_crash r s) (pm_stops s) = pm_crash r s" for r
    using assms(2) by (intro fold_exit_none) auto
  moreover have "exit_reason x t \<noteq> []" for t
    by (simp add: exit_reason_def split: exit_info.split)
  ultimately show ?thesis
    using assms(1) by (simp add: on_exit_def Let_def pm_crash_def pm_getStatus_def)
qed

definition started :: process_manager where
  "started = pm_apply demo_env (PStart (Some 42)) new_manager"

lemma started_fields:
  "pm_ok started" "pm_process started = Some \<lparr>ch_id = 0, ch_pid = 42\<rparr>" "\<not> pm_stopping started"
  "pm_stops started = []" "pm_crashes started = []" "pm_stderr started = []"
proof -
  have "pm_ok new_manager" by (simp add: pm_ok_def new_manager_def)
  then show "pm_ok started" unfolding started_def by (rule pm_ok_apply)
qed (simp_all add: started_def pm_start_def new_manager_def pm_broadcastStatus_def pm_send_def
    Let_def)

lemma exit_after_stop_witness:
  "halted (on_exit demo_env 0 (ByCode ''0'') (snd (pm_stop demo_env started)))"
  using exit_after_stop [OF started_fields(1,2), of demo_env "ByCode ''0''"]
  by (simp add: Let_def)

lemma exit_is_crash_witness:
  "pm_crashes (on_exit demo_env 0 (BySignal ''SIGSEGV'') started)
     = [''Process killed by signal: SIGSEGV'']"
  using exit_is_crash [of started 0 demo_env "BySignal ''SIGSEGV''"]
  by (simp add: Let_def started_fields exit_reason_def)

text \<open>An exit that a former child reports late takes the current child away: after an error of
  the first child and a new start, the exit of the first child leaves the manager failed and
  without a process, although the second child was spawned and never reported anything.\<close>

lemma stale_exit_loses_child:
  "\<exists>s. pm_run demo_env [PStart (Some 41), PError 0 ''kill EPERM'', PStart (Some 42),
         PExit 0 (ByCode ''1'')] new_manager = Some s
     \<and> pm_state s = Failed \<and> pm_process s = None \<and> pm_spawned s = 2"
  by (simp add: pm_start_def new_manager_def pm_broadcastStatus_def pm_send_def Let_def
      on_error_def on_exit_def pm_crash_def)

end
