(* ===== verification/Database.thy ===== *)
theory Database
  imports Json
begin

text \<open>
  \<open>src/db/schema.sql\<close> and \<open>src/db/database.ts\<close>: the tables with the constraints the schema
  declares, the migrations, and the class that gives the repositories read access with a
  cache to fall back on, and write access.

  A table is the list of its rows in the order they were inserted. A statement computes the
  new tables and is then checked against the declared constraints (\<open>checked\<close>): a statement
  that would break one is refused and changes nothing, which is what SQLite does with a
  single statement. Several statements inside one \<open>write\<close> are not a transaction: what the
  earlier ones did stays when a later one fails.
\<close>

section \<open>Rows\<close>

record namespace_row =
  ns_id :: string
  ns_name :: string
  ns_description :: "string option"
  ns_uri :: string
  ns_created :: string
  ns_updated :: string

record object_row =
  on_id :: string
  on_namespace :: string
  on_parent :: "string option"
  on_name :: string
  on_created :: string

record node_row =
  nd_id :: string
  nd_namespace :: string
  nd_object :: "string option"
  nd_name :: string
  nd_dataType :: string
  nd_initial :: "jsval option"
  nd_description :: "string option"
  nd_created :: string
  nd_updated :: string

record security_row =
  sec_mode :: string
  sec_certificate :: "string option"
  sec_key :: "string option"
  sec_updated :: string

record s7_connection_row =
  s7c_id :: string
  s7c_name :: string
  s7c_host :: string
  s7c_rack :: int
  s7c_slot :: int
  s7c_polling :: int
  s7c_reconnect :: int
  s7c_enabled :: bool
  s7c_created :: string

record s7_mapping_row =
  s7m_id :: string
  s7m_connection :: string
  s7m_node :: string
  s7m_address :: string
  s7m_description :: "string option"
  s7m_created :: string

text \<open>The tables \<open>connections\<close> and \<open>mappings\<close> hold the domain objects of the connectors.\<close>

record tables =
  t_namespaces :: "namespace_row list"
  t_objects :: "object_row list"
  t_nodes :: "node_row list"
  t_security :: "security_row option"
  t_s7_connections :: "s7_connection_row list"
  t_s7_mappings :: "s7_mapping_row list"
  t_connections :: "connection_config list"
  t_mappings :: "mapping list"
  t_version :: nat

section \<open>Constraints\<close>

datatype sql_error = NotNullFailed | UniqueFailed | ForeignKeyFailed

definition CURRENT_SCHEMA_VERSION :: nat where
  "CURRENT_SCHEMA_VERSION = 5"

text \<open>Before version 5 a mapping must have a node, and a node at most one mapping.\<close>

definition notnull_ok :: "tables \<Rightarrow> bool" where
  "notnull_ok t \<longleftrightarrow>
     (t_version t < 5 \<longrightarrow> list_all (\<lambda>m. map_nodeId m \<noteq> None) (t_mappings t))"

definition unique_ok :: "tables \<Rightarrow> bool" where
  "unique_ok t \<longleftrightarrow>
     distinct (map ns_id (t_namespaces t)) \<and> distinct (map ns_name (t_namespaces t)) \<and>
     distinct (map ns_uri (t_namespaces t)) \<and>
     distinct (map on_id (t_objects t)) \<and>
     distinct (map (\<lambda>r. (on_namespace r, on_parent r, on_name r)) (t_objects t)) \<and>
     distinct (map nd_id (t_nodes t)) \<and>
     distinct (map (\<lambda>r. (nd_namespace r, nd_name r)) (t_nodes t)) \<and>
     distinct (map cfg_id (t_connections t)) \<and>
     distinct (map map_id (t_mappings t)) \<and>
     distinct (map (\<lambda>m. (map_connectionId m, map_deviceAddress m)) (t_mappings t)) \<and>
     (t_version t < 5 \<longrightarrow> distinct (map map_nodeId (t_mappings t)))"

definition ref_ok :: "string option \<Rightarrow> string list \<Rightarrow> bool" where
  "ref_ok r ids \<longleftrightarrow> (case r of None \<Rightarrow> True | Some i \<Rightarrow> List.member ids i)"

definition foreign_ok :: "tables \<Rightarrow> bool" where
  "foreign_ok t \<longleftrightarrow>
     list_all (\<lambda>r. ref_ok (Some (on_namespace r)) (map ns_id (t_namespaces t))
                  \<and> ref_ok (on_parent r) (map on_id (t_objects t))) (t_objects t) \<and>
     list_all (\<lambda>r. ref_ok (Some (nd_namespace r)) (map ns_id (t_namespaces t))
                  \<and> ref_ok (nd_object r) (map on_id (t_objects t))) (t_nodes t) \<and>
     list_all (\<lambda>m. ref_ok (Some (map_connectionId m)) (map cfg_id (t_connections t))
                  \<and> ref_ok (map_nodeId m) (map nd_id (t_nodes t))) (t_mappings t)"

definition integrity :: "tables \<Rightarrow> bool" where
  "integrity t \<longleftrightarrow> notnull_ok t \<and> unique_ok t \<and> foreign_ok t"

definition checked :: "tables \<Rightarrow> sql_error + tables" where
  "checked t =
     (if \<not> notnull_ok t then Inl NotNullFailed
      else if \<not> unique_ok t then Inl UniqueFailed
      else if \<not> foreign_ok t then Inl ForeignKeyFailed
      else Inr t)"

lemma checked_Inr: "checked t = Inr t' \<longleftrightarrow> t' = t \<and> integrity t"
  by (auto simp: checked_def integrity_def)

lemma checked_ok: "integrity t \<Longrightarrow> checked t = Inr t"
  by (simp add: checked_Inr)

section \<open>Deleting with the declared actions\<close>

text \<open>\<open>ON DELETE CASCADE\<close> and \<open>ON DELETE SET NULL\<close>.\<close>

definition clear_ref :: "string list \<Rightarrow> string option \<Rightarrow> string option" where
  "clear_ref gone r = (case r of None \<Rightarrow> None | Some i \<Rightarrow> if List.member gone i then None else r)"

definition drop_nodes :: "(node_row \<Rightarrow> bool) \<Rightarrow> tables \<Rightarrow> tables" where
  "drop_nodes p t =
     (let gone = map nd_id (filter p (t_nodes t))
      in t\<lparr>t_nodes := filter (\<lambda>r. \<not> p r) (t_nodes t),
           t_mappings := filter (\<lambda>m. \<not> (case map_nodeId m of None \<Rightarrow> False
                                                        | Some i \<Rightarrow> List.member gone i))
                           (t_mappings t)\<rparr>)"

definition drop_objects :: "(object_row \<Rightarrow> bool) \<Rightarrow> tables \<Rightarrow> tables" where
  "drop_objects p t =
     (let gone = map on_id (filter p (t_objects t))
      in t\<lparr>t_objects := map (\<lambda>r. r\<lparr>on_parent := clear_ref gone (on_parent r)\<rparr>)
                          (filter (\<lambda>r. \<not> p r) (t_objects t)),
           t_nodes := map (\<lambda>r. r\<lparr>nd_object := clear_ref gone (nd_object r)\<rparr>) (t_nodes t)\<rparr>)"

text \<open>
  The containers of a namespace are deleted one after the other, in the order of the rows. Each
  deletion sets the parent of what is left in the container to \<open>NULL\<close> at once, also of containers
  whose turn is still to come, and the index on the names without a parent is checked then: the
  whole statement fails if one of them has the name of another container at the top.
\<close>

definition names_apart :: "tables \<Rightarrow> bool" where
  "names_apart t \<longleftrightarrow> distinct (map (\<lambda>r. (on_namespace r, on_parent r, on_name r)) (t_objects t))"

fun drop_each :: "string list \<Rightarrow> tables \<Rightarrow> sql_error + tables" where
  "drop_each [] t = Inr t"
| "drop_each (i # is) t =
     (let t' = drop_objects (\<lambda>r. on_id r = i) t
      in if names_apart t' then drop_each is t' else Inl UniqueFailed)"

definition drop_namespace :: "string \<Rightarrow> tables \<Rightarrow> sql_error + tables" where
  "drop_namespace i t =
     drop_each (map on_id (filter (\<lambda>r. on_namespace r = i) (t_objects t)))
       (drop_nodes (\<lambda>r. nd_namespace r = i)
          (t\<lparr>t_namespaces := filter (\<lambda>r. ns_id r \<noteq> i) (t_namespaces t)\<rparr>))"

text \<open>If it does not fail, the order does not matter.\<close>

lemma clear_ref_twice:
  "set c = set a \<union> set b \<Longrightarrow> clear_ref b (clear_ref a r) = clear_ref c r"
  by (cases r) (auto simp: clear_ref_def)

lemma drop_objects_twice:
  "drop_objects (\<lambda>r. on_id r \<in> S) (drop_objects (\<lambda>r. on_id r = i) t)
     = drop_objects (\<lambda>r. on_id r \<in> insert i S) t"
proof -
  let ?os = "t_objects t"
  let ?a = "map on_id (filter (\<lambda>r. on_id r = i) ?os)"
  let ?b = "map on_id (filter (\<lambda>r. on_id r \<in> S) (filter (\<lambda>r. on_id r \<noteq> i) ?os))"
  let ?c = "map on_id (filter (\<lambda>r. on_id r = i \<or> on_id r \<in> S) ?os)"
  have b: "map on_id (filter (\<lambda>r. on_id r \<in> S) (map (\<lambda>r. r\<lparr>on_parent := f r\<rparr>) (filter (\<lambda>r. on_id r \<noteq> i) ?os))) = ?b"
    for f by (simp add: filter_map o_def)
  have "clear_ref ?b (clear_ref ?a r) = clear_ref ?c r" for r
    by (rule clear_ref_twice) auto
  then show ?thesis
    by (simp add: drop_objects_def Let_def b filter_map o_def conj_commute)
qed

lemma drop_each_result:
  "drop_each is t = Inr t' \<Longrightarrow> t' = drop_objects (\<lambda>r. on_id r \<in> set is) t"
proof (induction "is" arbitrary: t)
  case Nil
  have "clear_ref [] = (\<lambda>r. r)" by (auto simp: clear_ref_def split: option.split)
  with Nil show ?case by (simp add: drop_objects_def)
next
  case (Cons i "is")
  then have "t' = drop_objects (\<lambda>r. on_id r \<in> set is) (drop_objects (\<lambda>r. on_id r = i) t)"
    by (auto simp: Let_def split: if_splits)
  then show ?case by (simp add: drop_objects_twice)
qed

lemma drop_each_ok:
  assumes "\<And>S. S \<subseteq> set is \<Longrightarrow> names_apart (drop_objects (\<lambda>r. on_id r \<in> S) t)"
  shows "drop_each is t = Inr (drop_objects (\<lambda>r. on_id r \<in> set is) t)"
  using assms
proof (induction "is" arbitrary: t)
  case Nil
  have "clear_ref [] = (\<lambda>r. r)" by (auto simp: clear_ref_def split: option.split)
  then show ?case by (simp add: drop_objects_def)
next
  case (Cons i "is")
  let ?t = "drop_objects (\<lambda>r. on_id r = i) t"
  have "names_apart (drop_objects (\<lambda>r. on_id r \<in> S) ?t)" if "S \<subseteq> set is" for S
    using Cons.prems [of "insert i S"] that by (auto simp: drop_objects_twice)
  from Cons.IH [OF this] Cons.prems [of "{i}"] show ?case
    by (simp add: drop_objects_twice)
qed

definition drop_connection :: "string \<Rightarrow> tables \<Rightarrow> tables" where
  "drop_connection i t =
     t\<lparr>t_connections := filter (\<lambda>c. cfg_id c \<noteq> i) (t_connections t),
       t_mappings := filter (\<lambda>m. map_connectionId m \<noteq> i) (t_mappings t)\<rparr>"

section \<open>Schema and migrations\<close>

text \<open>What \<open>schema.sql\<close> leaves in a new file: version 4.\<close>

definition fresh_tables :: tables where
  "fresh_tables =
     \<lparr>t_namespaces = [], t_objects = [], t_nodes = [],
      t_security = Some \<lparr>sec_mode = ''None'', sec_certificate = None, sec_key = None, sec_updated = []\<rparr>,
      t_s7_connections = [], t_s7_mappings = [], t_connections = [], t_mappings = [],
      t_version = 4\<rparr>"

definition migrate_connection :: "s7_connection_row \<Rightarrow> connection_config" where
  "migrate_connection r =
     \<lparr>cfg_id = s7c_id r, cfg_type = ''s7'', cfg_name = s7c_name r,
      cfg_params = JObj [(''host'', JStr (s7c_host r)), (''rack'', jint (s7c_rack r)),
                         (''slot'', jint (s7c_slot r))],
      cfg_pollingIntervalMs = s7c_polling r, cfg_reconnectIntervalMs = s7c_reconnect r,
      cfg_enabled = s7c_enabled r, cfg_createdAt = s7c_created r\<rparr>"

definition migrate_mapping :: "s7_mapping_row \<Rightarrow> mapping" where
  "migrate_mapping r =
     \<lparr>map_id = s7m_id r, map_connectionId = s7m_connection r, map_nodeId = Some (s7m_node r),
      map_deviceAddress = s7m_address r, map_description = s7m_description r,
      map_createdAt = s7m_created r\<rparr>"

text \<open>
  Migrations 2, 3 and 5 rename tables and columns, add a nullable column and relax two
  constraints of \<open>mappings\<close>: the rows stay. Migration 4 moves the S7 tables.
\<close>

definition migrate_step :: "tables \<Rightarrow> tables" where
  "migrate_step t =
     (let v = Suc (t_version t);
          t1 = (if v = 4 then
                  t\<lparr>t_connections := t_connections t @ map migrate_connection (t_s7_connections t),
                    t_mappings := t_mappings t @ map migrate_mapping (t_s7_mappings t),
                    t_s7_connections := [], t_s7_mappings := []\<rparr>
                else t)
      in t1\<lparr>t_version := v\<rparr>)"

function migrate :: "tables \<Rightarrow> tables" where
  "migrate t = (if t_version t < CURRENT_SCHEMA_VERSION then migrate (migrate_step t) else t)"
  by pat_completeness auto

termination migrate
  by (relation "measure (\<lambda>t. CURRENT_SCHEMA_VERSION - t_version t)")
    (auto simp: migrate_step_def Let_def)

declare migrate.simps [simp del]

text \<open>Opening a file: a new one gets the schema, an existing one its pending migrations.\<close>

definition applySchema :: "tables option \<Rightarrow> tables" where
  "applySchema file = (case file of None \<Rightarrow> fresh_tables | Some t \<Rightarrow> migrate t)"

text \<open>The constraints of the S7 tables before version 4.\<close>

definition legacy_ok :: "tables \<Rightarrow> bool" where
  "legacy_ok t \<longleftrightarrow>
     t_connections t = [] \<and> t_mappings t = [] \<and>
     distinct (map s7c_id (t_s7_connections t)) \<and> distinct (map s7m_id (t_s7_mappings t)) \<and>
     distinct (map (\<lambda>m. (s7m_connection m, s7m_address m)) (t_s7_mappings t)) \<and>
     distinct (map s7m_node (t_s7_mappings t)) \<and>
     list_all (\<lambda>m. List.member (map s7c_id (t_s7_connections t)) (s7m_connection m)
                  \<and> List.member (map nd_id (t_nodes t)) (s7m_node m)) (t_s7_mappings t)"

lemma migrate_current: "5 \<le> t_version t \<Longrightarrow> migrate t = t"
  by (simp add: migrate.simps [of t] CURRENT_SCHEMA_VERSION_def)

lemma migrate_from_4:
  assumes "t_version t = 4"
  shows "migrate t = t\<lparr>t_version := 5\<rparr>"
proof -
  have "migrate t = migrate (migrate_step t)"
    using assms by (simp add: migrate.simps [of t] CURRENT_SCHEMA_VERSION_def)
  also have "migrate_step t = t\<lparr>t_version := 5\<rparr>"
    using assms by (simp add: migrate_step_def)
  finally show ?thesis by (simp add: migrate_current)
qed

lemma migrate_from_3:
  assumes "t_version t = 3"
  shows "migrate t = t\<lparr>t_connections := t_connections t @ map migrate_connection (t_s7_connections t),
    t_mappings := t_mappings t @ map migrate_mapping (t_s7_mappings t),
    t_s7_connections := [], t_s7_mappings := [], t_version := 5\<rparr>"
proof -
  have "migrate t = migrate (migrate_step t)"
    using assms by (simp add: migrate.simps [of t] CURRENT_SCHEMA_VERSION_def)
  also have "\<dots> = (migrate_step t)\<lparr>t_version := 5\<rparr>"
    using assms by (intro migrate_from_4) (simp add: migrate_step_def Let_def)
  finally show ?thesis using assms by (simp add: migrate_step_def Let_def)
qed

lemma migrate_early:
  assumes "t_version t \<le> 3"
  shows "migrate t = migrate (t\<lparr>t_version := 3\<rparr>)"
  using assms
proof (induction "3 - t_version t" arbitrary: t)
  case 0
  then have "t\<lparr>t_version := 3\<rparr> = t" by simp
  then show ?case by simp
next
  case (Suc n)
  then have "t_version t < 3" by simp
  then have "migrate_step t = t\<lparr>t_version := Suc (t_version t)\<rparr>"
    and "migrate t = migrate (migrate_step t)"
    by (simp_all add: migrate_step_def migrate.simps [of t] CURRENT_SCHEMA_VERSION_def)
  with Suc \<open>t_version t < 3\<close> show ?case by simp
qed

text \<open>C17: Opening a file that an early version of the program wrote moves every S7 connection and
  every S7 mapping to the general tables and leaves a file of the current version that
  satisfies all constraints.\<close>

theorem migration_keeps_everything:
  assumes "t_version t \<le> 3" and "integrity t" and "legacy_ok t"
  shows "let t' = applySchema (Some t) in
      t_version t' = CURRENT_SCHEMA_VERSION \<and> integrity t'
    \<and> t_connections t' = map migrate_connection (t_s7_connections t)
    \<and> t_mappings t' = map migrate_mapping (t_s7_mappings t)
    \<and> t_namespaces t' = t_namespaces t \<and> t_objects t' = t_objects t \<and> t_nodes t' = t_nodes t"
proof -
  have m: "migrate t = t\<lparr>t_version := 5,
      t_connections := map migrate_connection (t_s7_connections t),
      t_mappings := map migrate_mapping (t_s7_mappings t),
      t_s7_connections := [], t_s7_mappings := []\<rparr>"
    using assms(3) by (simp add: migrate_early [OF assms(1)] migrate_from_3 legacy_ok_def)
  have "inj_on migrate_mapping A" for A
    by (rule inj_onI) (simp add: migrate_mapping_def)
  have comp: "map_id \<circ> migrate_mapping = s7m_id" "cfg_id \<circ> migrate_connection = s7c_id"
    "(\<lambda>m. (map_connectionId m, map_deviceAddress m)) \<circ> migrate_mapping
       = (\<lambda>m. (s7m_connection m, s7m_address m))"
    by (auto simp: migrate_mapping_def migrate_connection_def)
  have "integrity (migrate t)"
    using assms(2,3) comp
    by (auto simp: m integrity_def notnull_ok_def unique_ok_def foreign_ok_def legacy_ok_def
        list_all_iff ref_ok_def migrate_mapping_def)
  then show ?thesis
    by (simp add: applySchema_def m Let_def CURRENT_SCHEMA_VERSION_def)
qed

text \<open>A new database is not of the current version: until it is opened a second time it refuses
  a mapping without a node, which the current version accepts.\<close>

lemma fresh_database_refuses_unmapped:
  "let t = fresh_tables\<lparr>t_connections := [c]\<rparr>;
       m = \<lparr>map_id = i, map_connectionId = cfg_id c, map_nodeId = None, map_deviceAddress = a,
            map_description = None, map_createdAt = now\<rparr>;
       add = \<lambda>t. checked (t\<lparr>t_mappings := t_mappings t @ [m]\<rparr>)
   in t_version (applySchema None) \<noteq> CURRENT_SCHEMA_VERSION
    \<and> add t = Inl NotNullFailed
    \<and> add (applySchema (Some t)) = Inr (applySchema (Some t)\<lparr>t_mappings := [m]\<rparr>)"
proof -
  have "applySchema (Some (fresh_tables\<lparr>t_connections := [c]\<rparr>))
      = fresh_tables\<lparr>t_connections := [c], t_version := 5\<rparr>"
    by (simp add: applySchema_def migrate_from_4 fresh_tables_def)
  then show ?thesis
    by (simp add: Let_def checked_def notnull_ok_def unique_ok_def foreign_ok_def ref_ok_def
        applySchema_def fresh_tables_def CURRENT_SCHEMA_VERSION_def)
qed

lemma migration_keeps_everything_witness:
  "t_connections (applySchema (Some (fresh_tables\<lparr>t_version := 1, t_s7_connections :=
       [\<lparr>s7c_id = ''c'', s7c_name = ''PLC'', s7c_host = ''plc'', s7c_rack = 0, s7c_slot = 1,
         s7c_polling = 1000, s7c_reconnect = 5000, s7c_enabled = True, s7c_created = []\<rparr>]\<rparr>)))
     = [\<lparr>cfg_id = ''c'', cfg_type = ''s7'', cfg_name = ''PLC'',
         cfg_params = JObj [(''host'', JStr ''plc''), (''rack'', jint 0), (''slot'', jint 1)],
         cfg_pollingIntervalMs = 1000, cfg_reconnectIntervalMs = 5000, cfg_enabled = True,
         cfg_createdAt = []\<rparr>]"
  (is "t_connections (applySchema (Some ?t)) = _")
proof -
  have "t_version ?t \<le> 3" "integrity ?t" "legacy_ok ?t"
    by (simp_all add: integrity_def notnull_ok_def unique_ok_def foreign_ok_def legacy_ok_def
        fresh_tables_def)
  from migration_keeps_everything [OF this] show ?thesis
    by (simp add: Let_def migrate_connection_def)
qed

section \<open>The class Database\<close>

datatype obj_tree = ObjTree object_row "obj_tree list"

record namespace =
  nsp_row :: namespace_row
  nsp_nodeCount :: "nat option"

text \<open>What the cache holds, by the kind of query that put it there.\<close>

datatype cached =
    CNamespace namespace
  | CCount nat
  | CTree obj_tree
  | CNode node_row
  | CSecurity security_row
  | CCertificatePath "string option"
  | CConnection connection_config
  | CMapping mapping

datatype db_error =
    Unavailable string
  | SqlError sql_error
  | ValidationError string
  | DuplicateError string
  | NotFoundError string
  | OtherError string

text \<open>
  \<open>db_open\<close>: the connection object exists; \<open>db_alive\<close>: statements succeed (the file system is
  not under the program's control); \<open>db_accessible\<close>: what the last check found.
\<close>

record database =
  db_tables :: tables
  db_open :: bool
  db_alive :: bool
  db_accessible :: bool
  db_cache :: "(string, cached list) jmap"

type_synonym query = "tables \<Rightarrow> cached list"

definition open_database :: "tables option \<Rightarrow> database" where
  "open_database file =
     \<lparr>db_tables = applySchema file, db_open = True, db_alive = True, db_accessible = True,
      db_cache = []\<rparr>"

definition isAccessible :: "database \<Rightarrow> bool \<times> database" where
  "isAccessible d =
     (let ok = db_open d \<and> db_alive d in (ok, d\<lparr>db_accessible := ok\<rparr>))"

definition getConnection :: "database \<Rightarrow> db_error + tables" where
  "getConnection d =
     (if \<not> db_open d \<or> \<not> db_accessible d then Inl (Unavailable ''Database is not accessible'')
      else Inr (db_tables d))"

text \<open>A statement prepared on that connection; it throws when the file is gone.\<close>

definition try_select :: "(tables \<Rightarrow> 'a option) \<Rightarrow> database \<Rightarrow> 'a option" where
  "try_select q d =
     (case getConnection d of
        Inl _ \<Rightarrow> None
      | Inr t \<Rightarrow> if db_alive d then q t else None)"

definition getSchemaVersion :: "database \<Rightarrow> nat" where
  "getSchemaVersion d = (if db_open d \<and> db_alive d then t_version (db_tables d) else 0)"

definition updateCache :: "string \<Rightarrow> cached list \<Rightarrow> database \<Rightarrow> database" where
  "updateCache k v d = d\<lparr>db_cache := jset (db_cache d) k v\<rparr>"

definition getFromCache :: "string \<Rightarrow> database \<Rightarrow> cached list option" where
  "getFromCache k d = jget (db_cache d) k"

definition clearCache :: "database \<Rightarrow> database" where
  "clearCache d = d\<lparr>db_cache := []\<rparr>"

definition no_cached_data :: db_error where
  "no_cached_data = Unavailable ''Database is not accessible and no cached data is available''"

definition readWithCache :: "string \<Rightarrow> query \<Rightarrow> database \<Rightarrow> (db_error + cached list) \<times> database" where
  "readWithCache k q d =
     (let (ok, d1) = isAccessible d in
      if ok then (let r = q (db_tables d1) in (Inr r, updateCache k r d1))
      else (case getFromCache k d1 of
              Some r \<Rightarrow> (Inr r, d1)
            | None \<Rightarrow> (Inl no_cached_data, d1)))"

text \<open>
  The function \<open>write\<close> is given may throw after it has changed tables; the cache is cleared
  only when it returns.
\<close>

definition db_write ::
  "(tables \<Rightarrow> (db_error + 'a) \<times> tables) \<Rightarrow> database \<Rightarrow> (db_error + 'a) \<times> database" where
  "db_write f d =
     (let (ok, d1) = isAccessible d in
      if \<not> ok then
        (Inl (Unavailable ''Database is not accessible. Write operations are unavailable.''), d1)
      else (case f (db_tables d1) of
              (Inl e, t) \<Rightarrow> (Inl e, d1\<lparr>db_tables := t\<rparr>)
            | (Inr x, t) \<Rightarrow> (Inr x, clearCache (d1\<lparr>db_tables := t\<rparr>))))"

definition db_close :: "database \<Rightarrow> database" where
  "db_close d = (if db_open d then d\<lparr>db_open := False, db_accessible := False\<rparr> else d)"

text \<open>What a repository answers when a request is refused; anything else it throws.\<close>

record domain_error =
  de_code :: string
  de_message :: string
  de_details :: "(string \<times> string) list"

type_synonym 'a answer = "(db_error + (domain_error + 'a)) \<times> database"

text \<open>A query that asks for one row, and what its caller takes out of the answer.\<close>

definition first_of :: "db_error + cached list \<Rightarrow> db_error + cached option" where
  "first_of r = (case r of Inl e \<Rightarrow> Inl e | Inr [] \<Rightarrow> Inr None | Inr (x # _) \<Rightarrow> Inr (Some x))"

text \<open>One statement of a write: \<open>f\<close> computes the tables it asks for.\<close>

definition execute :: "(tables \<Rightarrow> tables) \<Rightarrow> tables \<Rightarrow> (db_error + unit) \<times> tables" where
  "execute f t = (case checked (f t) of Inl e \<Rightarrow> (Inl (SqlError e), t) | Inr t' \<Rightarrow> (Inr (), t'))"

lemma execute_integrity: "integrity t \<Longrightarrow> integrity (snd (execute f t))"
  by (auto simp: execute_def checked_Inr split: sum.split)

lemma execute_fails: "fst (execute f t) = Inl e \<Longrightarrow> snd (execute f t) = t"
  by (auto simp: execute_def split: sum.splits)

lemma execute_ok: "integrity (f t) \<Longrightarrow> execute f t = (Inr (), f t)"
  by (simp add: execute_def checked_ok)

section \<open>Fresh reads\<close>

text \<open>
  A repository asks for a family of queries, each under its own key. Then what a cached read
  returns is what the query would return on the tables as they are, whether the database can
  be reached or not: the cache is dropped on every successful write, and a failed one must
  leave the tables alone.
\<close>

locale cached_queries =
  fixes queries :: "(string \<times> query) set"
  assumes one_query_per_key: "(k, q) \<in> queries \<Longrightarrow> (k, q') \<in> queries \<Longrightarrow> q = q'"
begin

definition coherent :: "database \<Rightarrow> bool" where
  "coherent d \<longleftrightarrow>
     (\<forall>k q r. (k, q) \<in> queries \<longrightarrow> jget (db_cache d) k = Some r \<longrightarrow> q (db_tables d) = r)"

lemma coherent_empty: "db_cache d = [] \<Longrightarrow> coherent d"
  by (simp add: coherent_def)

lemma coherent_alive [simp]:
  "coherent (d\<lparr>db_alive := b\<rparr>) = coherent d" "coherent (d\<lparr>db_accessible := b\<rparr>) = coherent d"
  "coherent (d\<lparr>db_open := b\<rparr>) = coherent d"
  by (simp_all add: coherent_def)

lemma read_coherent:
  assumes "coherent d" and "(k, q) \<in> queries"
  shows "coherent (snd (readWithCache k q d))"
proof (cases "db_open d \<and> db_alive d")
  case True
  then have r: "snd (readWithCache k q d)
      = d\<lparr>db_accessible := True, db_cache := jset (db_cache d) k (q (db_tables d))\<rparr>"
    by (simp add: readWithCache_def isAccessible_def updateCache_def Let_def)
  show ?thesis
    unfolding r coherent_def
  proof (intro allI impI)
    fix k' q' r'
    assume "(k', q') \<in> queries"
      and "jget (db_cache (d\<lparr>db_accessible := True,
            db_cache := jset (db_cache d) k (q (db_tables d))\<rparr>)) k' = Some r'"
    with assms one_query_per_key [OF assms(2), of q']
    show "q' (db_tables (d\<lparr>db_accessible := True,
            db_cache := jset (db_cache d) k (q (db_tables d))\<rparr>)) = r'"
      by (cases "k' = k") (auto simp: coherent_def)
  qed
next
  case False
  then have "snd (readWithCache k q d) = d\<lparr>db_accessible := False\<rparr>"
    by (auto simp: readWithCache_def isAccessible_def Let_def split: option.split)
  with assms(1) show ?thesis by simp
qed

lemma read_fresh:
  assumes "coherent d" and "(k, q) \<in> queries" and "fst (readWithCache k q d) = Inr r"
  shows "r = q (db_tables d)"
  using assms
  by (auto simp: readWithCache_def isAccessible_def getFromCache_def coherent_def Let_def
      split: option.splits if_splits)

lemma read_tables: "db_tables (snd (readWithCache k q d)) = db_tables d"
  by (auto simp: readWithCache_def isAccessible_def updateCache_def Let_def split: option.split)

lemma write_coherent:
  assumes "coherent d"
    and "\<And>e t. f (db_tables d) = (Inl e, t) \<Longrightarrow> t = db_tables d"
  shows "coherent (snd (db_write f d))"
  using assms
  by (auto simp: db_write_def isAccessible_def clearCache_def coherent_def Let_def
      split: sum.split prod.split)

end

section \<open>What the repositories use\<close>

text \<open>The end of an operation: an answer, or what the write threw.\<close>

definition answer :: "(db_error + 'a) \<times> database \<Rightarrow> 'a answer" where
  "answer r = (case r of (Inl e, d) \<Rightarrow> (Inl e, d) | (Inr x, d) \<Rightarrow> (Inr (Inr x), d))"

text \<open>A refusal that is answered, and the value a field of a request gives a column.\<close>

definition refuse :: "domain_error \<Rightarrow> database \<Rightarrow> 'a answer" where
  "refuse e d = (Inr (Inl e), d)"

definition upd :: "'a option \<Rightarrow> 'a \<Rightarrow> 'a" where
  "upd x old = (case x of None \<Rightarrow> old | Some v \<Rightarrow> v)"

lemma read_keeps_tables [simp]: "db_tables (snd (readWithCache k q d)) = db_tables d"
  by (auto simp: readWithCache_def isAccessible_def updateCache_def Let_def split: option.split)

lemma read_keeps_alive [simp]:
  "db_open (snd (readWithCache k q d)) = db_open d" "db_alive (snd (readWithCache k q d)) = db_alive d"
  by (auto simp: readWithCache_def isAccessible_def updateCache_def Let_def split: option.split)

lemma read_accessible [simp]:
  "db_accessible (snd (readWithCache k q d)) = (db_open d \<and> db_alive d)"
  by (auto simp: readWithCache_def isAccessible_def updateCache_def Let_def split: option.split)

lemma read_alive:
  "db_open d \<Longrightarrow> db_alive d \<Longrightarrow> fst (readWithCache k q d) = Inr (q (db_tables d))"
  by (simp add: readWithCache_def isAccessible_def Let_def)

lemma db_write_tables:
  "db_tables (snd (db_write f d))
     = (if db_open d \<and> db_alive d then snd (f (db_tables d)) else db_tables d)"
  by (auto simp: db_write_def isAccessible_def clearCache_def Let_def split: prod.split sum.split)

lemma db_write_alive:
  "db_open d \<Longrightarrow> db_alive d \<Longrightarrow> fst (db_write f d) = fst (f (db_tables d))"
  by (auto simp: db_write_def isAccessible_def clearCache_def Let_def split: prod.split sum.split)

lemma answer_simps [simp]:
  "snd (answer r) = snd r" "fst (answer r) = map_sum id Inr (fst r)"
  by (auto simp: answer_def split: prod.split sum.split)

lemma refuse_simps [simp]: "fst (refuse e d) = Inr (Inl e)" "snd (refuse e d) = d"
  by (simp_all add: refuse_def)

lemma try_select_alive:
  "db_open d \<Longrightarrow> db_alive d \<Longrightarrow> db_accessible d \<Longrightarrow> try_select q d = q (db_tables d)"
  by (simp add: try_select_def getConnection_def)

lemma find_None: "find P xs = None \<longleftrightarrow> (\<forall>x \<in> set xs. \<not> P x)"
  by (induction xs) auto

lemma find_SomeD: "find P xs = Some x \<Longrightarrow> x \<in> set xs \<and> P x"
  by (induction xs) (auto split: if_splits)

lemma find_by_key:
  "distinct (map f xs) \<Longrightarrow> x \<in> set xs \<Longrightarrow> f x = i \<Longrightarrow> find (\<lambda>x. f x = i) xs = Some x"
  by (induction xs) (auto simp: rev_image_eqI)

text \<open>An id or a name inside a message.\<close>

definition dquoted :: "string \<Rightarrow> string" where
  "dquoted s = CHR 0x22 # s @ [CHR 0x22]"

definition not_found_error :: "string \<Rightarrow> string \<Rightarrow> domain_error" where
  "not_found_error what i =
     \<lparr>de_code = ''NOT_FOUND'', de_message = what @ '' with id '' @ dquoted i @ '' not found'',
      de_details = []\<rparr>"

text \<open>The rows of a family after an \<open>UPDATE ... WHERE\<close>.\<close>

definition update_rows :: "('a \<Rightarrow> bool) \<Rightarrow> ('a \<Rightarrow> 'a) \<Rightarrow> 'a list \<Rightarrow> 'a list" where
  "update_rows p f rows = map (\<lambda>r. if p r then f r else r) rows"

text \<open>One statement, then the \<open>SELECT\<close> of the row it was about.\<close>

definition statement ::
  "(tables \<Rightarrow> tables) \<Rightarrow> (tables \<Rightarrow> 'a option) \<Rightarrow> tables \<Rightarrow> (db_error + 'a) \<times> tables" where
  "statement f sel t =
     (case execute f t of
        (Inl e, t1) \<Rightarrow> (Inl e, t1)
      | (Inr _, t1) \<Rightarrow>
          (case sel t1 of
             None \<Rightarrow> (Inl (OtherError ''Cannot read properties of undefined''), t1)
           | Some r \<Rightarrow> (Inr r, t1)))"

lemma statement_tables: "snd (statement f sel t) = snd (execute f t)"
  by (auto simp: statement_def split: prod.split sum.split option.split)

lemma execute_cases:
  "integrity (f t) \<and> execute f t = (Inr (), f t)
   \<or> (\<exists>e. execute f t = (Inl (SqlError e), t)) \<and> \<not> integrity (f t)"
proof (cases "checked (f t)")
  case (Inl e)
  then have "\<not> integrity (f t)" by (auto simp: checked_ok)
  with Inl show ?thesis by (simp add: execute_def)
next
  case (Inr t')
  then have "integrity (f t)" by (simp add: checked_Inr)
  then show ?thesis by (simp add: execute_ok)
qed

lemma statement_outcome:
  "statement f sel t =
     (if integrity (f t)
      then (case sel (f t) of
              None \<Rightarrow> (Inl (OtherError ''Cannot read properties of undefined''), f t)
            | Some r \<Rightarrow> (Inr r, f t))
      else (fst (statement f sel t), t))"
  using execute_cases [of f t] by (auto simp: statement_def split: option.split)

lemma statement_refused: "\<not> integrity (f t) \<Longrightarrow> \<exists>e. statement f sel t = (Inl (SqlError e), t)"
  using execute_cases [of f t] by (auto simp: statement_def)

text \<open>An exception ends a method; otherwise the next step has the value.\<close>

definition and_then ::
  "(db_error + 'a) \<times> database \<Rightarrow> ('a \<Rightarrow> database \<Rightarrow> (db_error + 'b) \<times> database)
     \<Rightarrow> (db_error + 'b) \<times> database" where
  "and_then r f = (case r of (Inl e, d) \<Rightarrow> (Inl e, d) | (Inr x, d) \<Rightarrow> f x d)"

lemma and_then_simps [simp]:
  "and_then (Inl e, d) f = (Inl e, d)" "and_then (Inr x, d) f = f x d"
  by (simp_all add: and_then_def)

lemma and_then_alive:
  "fst r = Inr x \<Longrightarrow> and_then r f = f x (snd r)"
  by (cases r) simp

lemma and_then_read:
  "db_open d \<Longrightarrow> db_alive d \<Longrightarrow>
    and_then (readWithCache k q d) f = f (q (db_tables d)) (snd (readWithCache k q d))"
  by (rule and_then_alive) (rule read_alive)

lemma and_then_snd:
  assumes "P (snd r)" and "\<And>x d. r = (Inr x, d) \<Longrightarrow> P d \<Longrightarrow> P (snd (f x d))"
  shows "P (snd (and_then r f))"
proof (cases r)
  case (Pair y d)
  with assms show ?thesis by (cases y) simp_all
qed

lemma and_then_cases:
  obtains (throws) e d where "r = (Inl e, d)" "and_then r f = (Inl e, d)"
    | (returns) x d where "r = (Inr x, d)" "and_then r f = f x d"
proof (cases r)
  case (Pair y d)
  then show thesis by (cases y) (use that in auto)
qed

end
