(* ===== verification/ObjectNodes.thy ===== *)
theory ObjectNodes
  imports Database "HOL-Library.Multiset"
begin

text \<open>
  \<open>src/db/repositories/object-node-repository.ts\<close>: the containers of the address space, a
  hierarchy of at most five levels. The walk up to the root is a loop that would not end on a
  cycle, so it is a partial function; that it ends is proved from the invariant \<open>hier_ok\<close>,
  which every operation keeps.
\<close>

section \<open>Operations\<close>

definition MAX_DEPTH :: nat where
  "MAX_DEPTH = 5"

definition find_object :: "object_row list \<Rightarrow> string \<Rightarrow> object_row option" where
  "find_object rows i = find (\<lambda>r. on_id r = i) rows"

partial_function (option) depth_loop :: "object_row list \<Rightarrow> string \<Rightarrow> nat \<Rightarrow> nat option" where
  "depth_loop rows i depth =
     (if i = [] then Some depth
      else (case find_object rows i of
              None \<Rightarrow> Some depth
            | Some r \<Rightarrow>
                (case on_parent r of
                   None \<Rightarrow> Some depth
                 | Some p \<Rightarrow> depth_loop rows p (Suc depth))))"

definition computeDepth :: "object_row list \<Rightarrow> string \<Rightarrow> nat option" where
  "computeDepth rows i = depth_loop rows i 1"

definition missing_namespace :: "string \<Rightarrow> db_error" where
  "missing_namespace i = ValidationError (''Namespace with id '' @ quoted i @ '' does not exist'')"

definition missing_parent :: "string \<Rightarrow> db_error" where
  "missing_parent i =
     ValidationError (''Parent object node with id '' @ quoted i @ '' does not exist'')"

definition too_deep :: db_error where
  "too_deep = ValidationError ''Maximum nesting depth of 5 levels exceeded''"

definition duplicate_object :: "string \<Rightarrow> db_error" where
  "duplicate_object name =
     DuplicateError (''An object node named '' @ quoted name @ '' already exists in this location'')"

text \<open>\<open>create\<close>, with the fresh id and the time of the insertion.\<close>

definition insert_object ::
  "string \<Rightarrow> string \<Rightarrow> string \<Rightarrow> string option \<Rightarrow> string \<Rightarrow> tables \<Rightarrow> (db_error + object_row) \<times> tables"
where
  "insert_object i now ns parent name t =
     (let row = \<lparr>on_id = i, on_namespace = ns, on_parent = parent, on_name = name, on_created = now\<rparr>
      in case execute (\<lambda>t. t\<lparr>t_objects := t_objects t @ [row]\<rparr>) t of
           (Inl e, t') \<Rightarrow> (Inl (if e = SqlError UniqueFailed then duplicate_object name else e), t')
         | (Inr _, t') \<Rightarrow> (Inr row, t'))"

definition create_object_body ::
  "string \<Rightarrow> string \<Rightarrow> string \<Rightarrow> string option \<Rightarrow> string \<Rightarrow> tables
     \<Rightarrow> ((db_error + object_row) \<times> tables) option"
where
  "create_object_body i now ns parent name t =
     (if \<not> list_ex (\<lambda>r. ns_id r = ns) (t_namespaces t) then
        Some (Inl (missing_namespace ns), t)
      else (case parent of
              None \<Rightarrow> Some (insert_object i now ns parent name t)
            | Some p \<Rightarrow>
                (if find_object (t_objects t) p = None then Some (Inl (missing_parent p), t)
                 else (case computeDepth (t_objects t) p of
                         None \<Rightarrow> None
                       | Some depth \<Rightarrow>
                           if depth \<ge> MAX_DEPTH then Some (Inl too_deep, t)
                           else Some (insert_object i now ns parent name t)))))"

text \<open>A write whose body may not end; \<open>None\<close> would be a walk that never does.\<close>

definition object_create ::
  "string \<Rightarrow> string \<Rightarrow> string \<Rightarrow> string option \<Rightarrow> string \<Rightarrow> database
     \<Rightarrow> ((db_error + object_row) \<times> database) option"
where
  "object_create i now ns parent name d =
     (if \<not> fst (isAccessible d) then Some (db_write (\<lambda>t. (Inl (missing_namespace ns), t)) d)
      else map_option (\<lambda>r. db_write (\<lambda>_. r) d)
             (create_object_body i now ns parent name (db_tables d)))"

text \<open>
  \<open>buildTree\<close>: the children of a row are the rows that name it as their parent, in the order
  of the rows; a row without a parent, or with one that is not among the rows, is a root. No
  chain of distinct rows is longer than their number, which bounds the depth built.
\<close>

definition children_of :: "object_row list \<Rightarrow> object_row \<Rightarrow> object_row list" where
  "children_of rows r = filter (\<lambda>c. on_parent c = Some (on_id r)) rows"

fun subtree :: "nat \<Rightarrow> object_row list \<Rightarrow> object_row \<Rightarrow> obj_tree" where
  "subtree 0 rows r = ObjTree r []"
| "subtree (Suc n) rows r = ObjTree r (map (subtree n rows) (children_of rows r))"

definition is_root :: "object_row list \<Rightarrow> object_row \<Rightarrow> bool" where
  "is_root rows r \<longleftrightarrow>
     (case on_parent r of None \<Rightarrow> True | Some p \<Rightarrow> find_object rows p = None)"

definition buildTree :: "object_row list \<Rightarrow> obj_tree list" where
  "buildTree rows = map (subtree (length rows) rows) (filter (is_root rows) rows)"

definition object_rows :: "string \<Rightarrow> tables \<Rightarrow> object_row list" where
  "object_rows ns t = sort_key on_name (filter (\<lambda>r. on_namespace r = ns) (t_objects t))"

definition tree_query :: "string \<Rightarrow> query" where
  "tree_query ns t = map CTree (buildTree (object_rows ns t))"

definition findTreeByNamespace :: "string \<Rightarrow> database \<Rightarrow> (db_error + cached list) \<times> database" where
  "findTreeByNamespace ns d = readWithCache (''object-nodes:tree:'' @ ns) (tree_query ns) d"

text \<open>The three statements of \<open>delete\<close>.\<close>

definition move_nodes :: "string \<Rightarrow> string option \<Rightarrow> tables \<Rightarrow> tables" where
  "move_nodes i parent t =
     t\<lparr>t_nodes := map (\<lambda>r. if nd_object r = Some i then r\<lparr>nd_object := parent\<rparr> else r) (t_nodes t)\<rparr>"

definition move_objects :: "string \<Rightarrow> string option \<Rightarrow> tables \<Rightarrow> tables" where
  "move_objects i parent t =
     t\<lparr>t_objects := map (\<lambda>r. if on_parent r = Some i then r\<lparr>on_parent := parent\<rparr> else r)
                       (t_objects t)\<rparr>"

definition delete_object_body :: "string \<Rightarrow> tables \<Rightarrow> (db_error + unit) \<times> tables" where
  "delete_object_body i t =
     (case find_object (t_objects t) i of
        None \<Rightarrow> (Inl (NotFoundError (''Object node with id '' @ quoted i @ '' not found'')), t)
      | Some r \<Rightarrow>
          (case execute (move_nodes i (on_parent r)) t of
             (Inl e, t1) \<Rightarrow> (Inl e, t1)
           | (Inr _, t1) \<Rightarrow>
               (case execute (move_objects i (on_parent r)) t1 of
                  (Inl e, t2) \<Rightarrow> (Inl e, t2)
                | (Inr _, t2) \<Rightarrow> execute (drop_objects (\<lambda>r. on_id r = i)) t2)))"

definition object_delete :: "string \<Rightarrow> database \<Rightarrow> (db_error + unit) \<times> database" where
  "object_delete i d = db_write (delete_object_body i) d"

section \<open>Depth\<close>

text \<open>The row of an id is so many levels below the root.\<close>

inductive at_depth :: "object_row list \<Rightarrow> string \<Rightarrow> nat \<Rightarrow> bool" for rows where
  root: "r \<in> set rows \<Longrightarrow> on_parent r = None \<Longrightarrow> at_depth rows (on_id r) (Suc 0)"
| child: "r \<in> set rows \<Longrightarrow> on_parent r = Some p \<Longrightarrow> at_depth rows p n \<Longrightarrow>
    at_depth rows (on_id r) (Suc n)"

inductive_cases at_depthE: "at_depth rows i n"

definition hier_ok :: "object_row list \<Rightarrow> bool" where
  "hier_ok rows \<longleftrightarrow>
     distinct (map on_id rows) \<and> (\<forall>r \<in> set rows. on_id r \<noteq> []) \<and>
     (\<forall>r \<in> set rows. \<exists>n \<le> MAX_DEPTH. at_depth rows (on_id r) n)"

lemma find_object_iff:
  "distinct (map on_id rows) \<Longrightarrow>
    find_object rows i = Some r \<longleftrightarrow> r \<in> set rows \<and> on_id r = i"
  by (induction rows) (auto simp: find_object_def)

lemma find_object_None: "find_object rows i = None \<longleftrightarrow> i \<notin> on_id ` set rows"
  by (induction rows) (auto simp: find_object_def)

lemma id_inject:
  "distinct (map on_id rows) \<Longrightarrow> r \<in> set rows \<Longrightarrow> s \<in> set rows \<Longrightarrow> on_id r = on_id s \<Longrightarrow> r = s"
  by (simp add: distinct_map inj_on_def)

lemma at_depth_row: "at_depth rows i n \<Longrightarrow> \<exists>r \<in> set rows. on_id r = i"
  by (cases rule: at_depth.cases) auto

lemma at_depth_pos: "at_depth rows i n \<Longrightarrow> 0 < n"
  by (cases rule: at_depth.cases) auto

lemma at_depth_unique:
  assumes "distinct (map on_id rows)" and "at_depth rows i n" and "at_depth rows i m"
  shows "n = m"
  using assms(2,3)
proof (induction arbitrary: m)
  case (root r)
  from root(3) show ?case
    by (rule at_depthE) (use root(1,2) id_inject [OF assms(1)] in force)+
next
  case (child r p n)
  from child(5) show ?case
  proof (rule at_depthE)
    fix s assume "on_id r = on_id s" "m = Suc 0" "s \<in> set rows" "on_parent s = None"
    with child(1,2) id_inject [OF assms(1)] show ?thesis by force
  next
    fix s q k
    assume s: "on_id r = on_id s" "m = Suc k" "s \<in> set rows" "on_parent s = Some q" "at_depth rows q k"
    with child(1) id_inject [OF assms(1)] have "s = r" by metis
    with s child(2,4) show ?thesis by simp
  qed
qed

text \<open>The walk ends, and counts the levels.\<close>

lemma depth_loop_ends:
  assumes "distinct (map on_id rows)" and "\<forall>r \<in> set rows. on_id r \<noteq> []"
    and "at_depth rows i n"
  shows "depth_loop rows i d = Some (d + n - 1)"
  using assms(3)
proof (induction arbitrary: d)
  case (root r)
  with assms(1,2) show ?case
    by (simp add: depth_loop.simps [of rows "on_id r"] find_object_iff [OF assms(1), THEN iffD2])
next
  case (child r p n)
  then have "depth_loop rows (on_id r) d = depth_loop rows p (Suc d)"
    using assms(1,2)
    by (simp add: depth_loop.simps [of rows "on_id r"] find_object_iff [OF assms(1), THEN iffD2])
  with child show ?case using at_depth_pos [OF child(3)] by simp
qed

lemma computeDepth_ends:
  "hier_ok rows \<Longrightarrow> find_object rows i \<noteq> None \<Longrightarrow>
    \<exists>n. computeDepth rows i = Some n \<and> at_depth rows i n \<and> n \<le> MAX_DEPTH"
proof -
  assume h: "hier_ok rows" and "find_object rows i \<noteq> None"
  then obtain r where "r \<in> set rows" "on_id r = i"
    by (auto simp: find_object_None)
  with h obtain n where n: "n \<le> MAX_DEPTH" "at_depth rows i n"
    by (auto simp: hier_ok_def)
  with h show ?thesis
    by (auto simp: computeDepth_def hier_ok_def depth_loop_ends)
qed

section \<open>The hierarchy is kept\<close>

lemma at_depth_mono: "at_depth rows i n \<Longrightarrow> set rows \<subseteq> set rows' \<Longrightarrow> at_depth rows' i n"
  by (induction rule: at_depth.induct) (auto intro: at_depth.intros)

lemma hier_ok_insert:
  assumes "hier_ok rows" and "on_id r \<notin> on_id ` set rows" and "on_id r \<noteq> []"
    and "\<And>p. on_parent r = Some p \<Longrightarrow> \<exists>n < MAX_DEPTH. at_depth rows p n"
  shows "hier_ok (rows @ [r])"
proof -
  have "\<exists>n \<le> MAX_DEPTH. at_depth (rows @ [r]) (on_id r) n"
  proof (cases "on_parent r")
    case None
    then have "at_depth (rows @ [r]) (on_id r) (Suc 0)" by (intro at_depth.root) auto
    then show ?thesis by (intro exI [of _ 1]) (simp add: MAX_DEPTH_def)
  next
    case (Some p)
    then obtain n where n: "n < MAX_DEPTH" "at_depth rows p n" using assms(4) by blast
    then have "at_depth (rows @ [r]) (on_id r) (Suc n)"
      using Some at_depth_mono [OF n(2), of "rows @ [r]"] by (intro at_depth.child) auto
    with n(1) show ?thesis by (intro exI [of _ "Suc n"]) simp
  qed
  moreover have "\<exists>n \<le> MAX_DEPTH. at_depth (rows @ [r]) (on_id s) n" if "s \<in> set rows" for s
  proof -
    from assms(1) that obtain n where "n \<le> MAX_DEPTH" "at_depth rows (on_id s) n"
      by (auto simp: hier_ok_def)
    then show ?thesis using at_depth_mono [of rows "on_id s" n "rows @ [r]"] by auto
  qed
  ultimately show ?thesis
    using assms(1-3) by (auto simp: hier_ok_def)
qed

text \<open>Rows may go, and what pointed at a row that went points at something higher up.\<close>

lemma hier_ok_shrink:
  assumes h: "hier_ok rows" and d: "distinct (map on_id rows')"
    and s: "\<And>r'. r' \<in> set rows' \<Longrightarrow> \<exists>r \<in> set rows. on_id r' = on_id r \<and> up rows r (on_parent r')"
    and up: "\<And>r q n. up rows r (Some q) \<Longrightarrow> r \<in> set rows \<Longrightarrow> at_depth rows (on_id r) n \<Longrightarrow>
       \<exists>m < n. at_depth rows q m \<and> q \<in> on_id ` set rows'"
  shows "hier_ok rows'"
proof -
  have main: "\<exists>m \<le> n. at_depth rows' i m"
    if "at_depth rows i n" "i \<in> on_id ` set rows'" for i n
    using that
  proof (induction n arbitrary: i rule: less_induct)
    case (less n)
    then obtain r' r where r: "r' \<in> set rows'" "on_id r' = i" "r \<in> set rows" "on_id r = i"
      "up rows r (on_parent r')"
      using s by fastforce
    show ?case
    proof (cases "on_parent r'")
      case None
      with r have "at_depth rows' i (Suc 0)" using at_depth.root by fastforce
      with at_depth_pos [OF less(2)] show ?thesis by (intro exI [of _ 1]) auto
    next
      case (Some q)
      with r up less(2) obtain m where m: "m < n" "at_depth rows q m" "q \<in> on_id ` set rows'"
        by metis
      from less.IH [OF this] obtain k where "k \<le> m" "at_depth rows' q k" by blast
      with Some r m(1) show ?thesis
        using at_depth.child [of r' rows' q k] by (intro exI [of _ "Suc k"]) auto
    qed
  qed
  show ?thesis
    unfolding hier_ok_def
  proof (intro conjI ballI)
    show "distinct (map on_id rows')" by (rule d)
  next
    fix r' assume "r' \<in> set rows'"
    with s h show "on_id r' \<noteq> []" by (metis hier_ok_def)
  next
    fix r' assume r': "r' \<in> set rows'"
    with s obtain r where "r \<in> set rows" "on_id r' = on_id r" by blast
    with h obtain n where "n \<le> MAX_DEPTH" "at_depth rows (on_id r') n"
      by (auto simp: hier_ok_def)
    with main [of "on_id r'" n] r' show "\<exists>n \<le> MAX_DEPTH. at_depth rows' (on_id r') n"
      by (meson imageI order_trans)
  qed
qed

definition moved :: "string \<Rightarrow> string option \<Rightarrow> object_row \<Rightarrow> object_row" where
  "moved i parent r = (if on_parent r = Some i then r\<lparr>on_parent := parent\<rparr> else r)"

lemma moved_id [simp]: "on_id (moved i p r) = on_id r"
  by (simp add: moved_def)

lemma at_depth_parent:
  assumes "distinct (map on_id rows)" "r \<in> set rows" "on_parent r = Some q"
    and "at_depth rows (on_id r) n"
  shows "\<exists>m. n = Suc m \<and> at_depth rows q m"
  using assms(4)
proof (rule at_depthE)
  fix s assume "on_id r = on_id s" "s \<in> set rows" "on_parent s = None"
  with assms(1-3) show ?thesis using id_inject by fastforce
next
  fix s p k
  assume s: "on_id r = on_id s" "n = Suc k" "s \<in> set rows" "on_parent s = Some p" "at_depth rows p k"
  with id_inject [OF assms(1,2)] have "s = r" by metis
  with s assms(3) show ?thesis by simp
qed

lemma hier_ok_move:
  assumes h: "hier_ok rows" and r: "r \<in> set rows"
  shows "hier_ok (map (moved (on_id r) (on_parent r)) rows)"
proof (rule hier_ok_shrink [OF h, where up = "\<lambda>rows s x.
    x = (if on_parent s = Some (on_id r) then on_parent r else on_parent s)"])
  have d: "distinct (map on_id rows)" using h by (simp add: hier_ok_def)
  then show "distinct (map on_id (map (moved (on_id r) (on_parent r)) rows))"
    by (simp add: comp_def)
  fix r' assume "r' \<in> set (map (moved (on_id r) (on_parent r)) rows)"
  then show "\<exists>s \<in> set rows. on_id r' = on_id s \<and>
      on_parent r' = (if on_parent s = Some (on_id r) then on_parent r else on_parent s)"
    by (auto simp: moved_def)
next
  fix s q n
  assume q: "Some q = (if on_parent s = Some (on_id r) then on_parent r else on_parent s)"
    and s: "s \<in> set rows" "at_depth rows (on_id s) n"
  have d: "distinct (map on_id rows)" using h by (simp add: hier_ok_def)
  have ids: "on_id ` set (map (moved (on_id r) (on_parent r)) rows) = on_id ` set rows"
    by (simp add: image_image)
  have "\<exists>m < n. at_depth rows q m"
  proof (cases "on_parent s = Some (on_id r)")
    case False
    with q at_depth_parent [OF d s(1) _ s(2)] show ?thesis by (metis lessI)
  next
    case True
    with at_depth_parent [OF d s(1) _ s(2)] obtain m where m: "n = Suc m" "at_depth rows (on_id r) m"
      by blast
    with at_depth_parent [OF d r _ m(2)] q True show ?thesis by (metis less_Suc_eq less_SucI)
  qed
  then show "\<exists>m < n. at_depth rows q m \<and> q \<in> on_id ` set (map (moved (on_id r) (on_parent r)) rows)"
    unfolding ids using at_depth_row by blast
qed

lemma clear_ref_Some: "clear_ref gone x = Some q \<longleftrightarrow> x = Some q \<and> q \<notin> set gone"
  by (cases x) (auto simp: clear_ref_def)

lemma hier_ok_drop:
  fixes p :: "object_row \<Rightarrow> bool" and rows :: "object_row list"
  assumes h: "hier_ok rows"
  defines "gone \<equiv> map on_id (filter p rows)"
  shows "hier_ok (map (\<lambda>r. r\<lparr>on_parent := clear_ref gone (on_parent r)\<rparr>) (filter (\<lambda>r. \<not> p r) rows))"
    (is "hier_ok ?rows'")
proof (rule hier_ok_shrink [OF h, where up = "\<lambda>rows s x. x = clear_ref gone (on_parent s)"])
  have d: "distinct (map on_id rows)" using h by (simp add: hier_ok_def)
  then show "distinct (map on_id ?rows')" by (simp add: comp_def distinct_map_filter)
  fix r' assume "r' \<in> set ?rows'"
  then show "\<exists>s \<in> set rows. on_id r' = on_id s \<and> on_parent r' = clear_ref gone (on_parent s)"
    by auto
next
  fix s q n
  assume q: "Some q = clear_ref gone (on_parent s)"
    and s: "s \<in> set rows" "at_depth rows (on_id s) n"
  have d: "distinct (map on_id rows)" using h by (simp add: hier_ok_def)
  from q have q': "on_parent s = Some q" "q \<notin> set gone" by (metis clear_ref_Some)+
  with at_depth_parent [OF d s(1) _ s(2)] obtain m where m: "n = Suc m" "at_depth rows q m"
    by blast
  then obtain r where r: "r \<in> set rows" "on_id r = q" using at_depth_row by blast
  with q'(2) have "r \<in> set (filter (\<lambda>r. \<not> p r) rows)" by (auto simp: gone_def)
  then have "q \<in> on_id ` set ?rows'" using r(2) by (simp add: image_image image_iff) blast
  with m show "\<exists>m < n. at_depth rows q m \<and> q \<in> on_id ` set ?rows'" by blast
qed

text \<open>What one statement does to the hierarchy.\<close>

definition objects_ok :: "tables \<Rightarrow> bool" where
  "objects_ok t \<longleftrightarrow> hier_ok (t_objects t)"

lemma objects_ok_execute:
  "objects_ok t \<Longrightarrow> (objects_ok t \<Longrightarrow> integrity (f t) \<Longrightarrow> objects_ok (f t)) \<Longrightarrow>
    objects_ok (snd (execute f t))"
  by (auto simp: execute_def checked_Inr split: sum.split)

lemma objects_ok_move_nodes: "objects_ok (move_nodes i p t) = objects_ok t"
  by (simp add: objects_ok_def move_nodes_def)

lemma objects_ok_move_objects:
  "objects_ok t \<Longrightarrow> r \<in> set (t_objects t) \<Longrightarrow>
    objects_ok (move_objects (on_id r) (on_parent r) t)"
  using hier_ok_move [of "t_objects t" r]
  by (simp add: objects_ok_def move_objects_def moved_def [abs_def])

lemma objects_ok_drop_objects: "objects_ok t \<Longrightarrow> objects_ok (drop_objects p t)"
  using hier_ok_drop [of "t_objects t" p]
  by (simp add: objects_ok_def drop_objects_def Let_def)

lemma objects_ok_drop_nodes: "objects_ok (drop_nodes p t) = objects_ok t"
  by (simp add: objects_ok_def drop_nodes_def Let_def)

lemma objects_ok_drop_namespace:
  "objects_ok t \<Longrightarrow> drop_namespace i t = Inr t' \<Longrightarrow> objects_ok t'"
  unfolding drop_namespace_def
  by (drule drop_each_result, simp only:, intro objects_ok_drop_objects)
    (simp add: objects_ok_drop_nodes, simp add: objects_ok_def)

lemma t_objects_move_nodes [simp]: "t_objects (move_nodes i p t) = t_objects t"
  by (simp add: move_nodes_def)

lemma execute_tables: "snd (execute f t) = t \<or> snd (execute f t) = f t"
  by (auto simp: execute_def checked_Inr split: sum.split)

lemma objects_ok_delete:
  assumes "objects_ok t"
  shows "objects_ok (snd (delete_object_body i t))"
proof (cases "find_object (t_objects t) i")
  case None
  with assms show ?thesis by (simp add: delete_object_body_def)
next
  case (Some r)
  have d: "distinct (map on_id (t_objects t))" using assms by (simp add: objects_ok_def hier_ok_def)
  from Some have r: "r \<in> set (t_objects t)" "on_id r = i" by (simp_all add: find_object_iff [OF d])
  define t1 where "t1 = snd (execute (move_nodes i (on_parent r)) t)"
  define t2 where "t2 = snd (execute (move_objects i (on_parent r)) t1)"
  have o1: "objects_ok t1" "t_objects t1 = t_objects t"
    using execute_tables [of "move_nodes i (on_parent r)" t] assms
    by (auto simp: t1_def objects_ok_move_nodes)
  have o2: "objects_ok t2"
    unfolding t2_def
    by (rule objects_ok_execute) (use o1 r objects_ok_move_objects [of t1 r] in auto)
  have o3: "objects_ok (snd (execute (drop_objects (\<lambda>r. on_id r = i)) t2))"
    by (rule objects_ok_execute) (use o2 in \<open>auto intro: objects_ok_drop_objects\<close>)
  show ?thesis
    using o1(1) o2 o3 Some unfolding t2_def t1_def
    by (auto simp: delete_object_body_def split: prod.split sum.split)
qed

lemma objects_ok_insert:
  assumes "objects_ok t" and "i \<noteq> []"
    and "\<And>p. parent = Some p \<Longrightarrow> \<exists>n < MAX_DEPTH. at_depth (t_objects t) p n"
  shows "objects_ok (snd (insert_object i now ns parent name t))"
proof -
  let ?r = "\<lparr>on_id = i, on_namespace = ns, on_parent = parent, on_name = name, on_created = now\<rparr>"
  have "objects_ok (snd (execute (\<lambda>t. t\<lparr>t_objects := t_objects t @ [?r]\<rparr>) t))"
  proof (rule objects_ok_execute [OF assms(1)])
    assume "integrity (t\<lparr>t_objects := t_objects t @ [?r]\<rparr>)"
    then have "i \<notin> on_id ` set (t_objects t)" by (auto simp: integrity_def unique_ok_def)
    with assms show "objects_ok (t\<lparr>t_objects := t_objects t @ [?r]\<rparr>)"
      using hier_ok_insert [of "t_objects t" ?r] by (auto simp: objects_ok_def)
  qed
  then show ?thesis by (auto simp: insert_object_def Let_def split: prod.split sum.split)
qed

lemma create_body_ok:
  assumes "objects_ok t" and "i \<noteq> []"
  shows "\<exists>r t'. create_object_body i now ns parent name t = Some (r, t') \<and> objects_ok t'"
proof (cases "list_ex (\<lambda>r. ns_id r = ns) (t_namespaces t)")
  case False
  with assms show ?thesis by (simp add: create_object_body_def)
next
  case ns: True
  show ?thesis
  proof (cases parent)
    case None
    then have "objects_ok (snd (insert_object i now ns parent name t))"
      by (intro objects_ok_insert assms) simp
    with ns None show ?thesis by (auto simp: create_object_body_def intro: prod.exhaust_sel)
  next
    case (Some p)
    show ?thesis
    proof (cases "find_object (t_objects t) p")
      case None
      with ns Some assms show ?thesis by (simp add: create_object_body_def)
    next
      case (Some r)
      then obtain n where n: "computeDepth (t_objects t) p = Some n" "at_depth (t_objects t) p n"
        using computeDepth_ends [of "t_objects t" p] assms(1) by (auto simp: objects_ok_def)
      have "objects_ok (snd (insert_object i now ns parent name t))" if "n < MAX_DEPTH"
        by (rule objects_ok_insert) (use assms \<open>parent = Some p\<close> n(2) that in auto)
      with ns Some \<open>parent = Some p\<close> n(1) assms show ?thesis
        by (cases "n < MAX_DEPTH") (auto simp: create_object_body_def intro: prod.exhaust_sel)
    qed
  qed
qed

text \<open>As long as every container has at most five levels above it and none is above itself,
  creating a container ends (the walk up to the root reaches it) and keeps that so, and so does
  deleting one, whether the operation succeeds or fails.\<close>

lemma object_hierarchy_kept:
  assumes "objects_ok (db_tables d)" and "i \<noteq> []"
  shows "(\<exists>r d'. object_create i now ns parent name d = Some (r, d') \<and> objects_ok (db_tables d'))
    \<and> objects_ok (db_tables (snd (object_delete j d)))"
proof
  obtain r t where t: "create_object_body i now ns parent name (db_tables d) = Some (r, t)"
    "objects_ok t"
    using create_body_ok [OF assms] by blast
  show "\<exists>r d'. object_create i now ns parent name d = Some (r, d') \<and> objects_ok (db_tables d')"
  proof (cases "fst (isAccessible d)")
    case False
    let ?w = "db_write (\<lambda>t. (Inl (missing_namespace ns) :: db_error + object_row, t)) d"
    have "object_create i now ns parent name d = Some (fst ?w, snd ?w)"
      using False by (simp only: object_create_def prod.collapse) simp
    moreover have "objects_ok (db_tables (snd ?w))"
      using assms(1) by (simp add: db_write_tables)
    ultimately show ?thesis by blast
  next
    case True
    let ?w = "db_write (\<lambda>_. (r, t)) d"
    have "object_create i now ns parent name d = Some (fst ?w, snd ?w)"
      using True t(1) by (simp only: object_create_def prod.collapse) simp
    moreover have "objects_ok (db_tables (snd ?w))"
      using assms(1) t(2) by (simp add: db_write_tables)
    ultimately show ?thesis by blast
  qed
  show "objects_ok (db_tables (snd (object_delete j d)))"
    using assms(1) by (simp add: object_delete_def db_write_tables objects_ok_delete)
qed

lemma object_hierarchy_kept_witness:
  "objects_ok (db_tables (snd (object_delete ''a'' (open_database None))))"
proof -
  have "objects_ok (db_tables (open_database None))"
    by (simp add: objects_ok_def hier_ok_def open_database_def applySchema_def fresh_tables_def)
  from object_hierarchy_kept [OF this, of "''x''"] show ?thesis by simp
qed

section \<open>Deleting is not atomic\<close>

definition demo_objects :: tables where
  "demo_objects = fresh_tables\<lparr>
     t_namespaces := [\<lparr>ns_id = ''ns'', ns_name = ''Plant'', ns_description = None, ns_uri = ''urn:p'',
                       ns_created = [], ns_updated = []\<rparr>],
     t_objects := [\<lparr>on_id = ''a'', on_namespace = ''ns'', on_parent = None, on_name = ''Pump'',
                    on_created = []\<rparr>,
                   \<lparr>on_id = ''b'', on_namespace = ''ns'', on_parent = Some ''a'', on_name = ''Pump'',
                    on_created = []\<rparr>],
     t_nodes := [\<lparr>nd_id = ''v'', nd_namespace = ''ns'', nd_object = Some ''a'', nd_name = ''Speed'',
                  nd_dataType = ''Float'', nd_initial = None, nd_description = None,
                  nd_created = [], nd_updated = []\<rparr>]\<rparr>"

text \<open>Deleting a container whose child has the name of a sibling of the container fails on the
  uniqueness of names, but the variables of the container have been moved out of it, and the
  cached reads from before stay.\<close>

lemma failed_delete_moves_nodes:
  "let (r, t) = delete_object_body ''a'' demo_objects in
     integrity demo_objects \<and> r = Inl (SqlError UniqueFailed)
   \<and> map nd_object (t_nodes demo_objects) = [Some ''a''] \<and> map nd_object (t_nodes t) = [None]
   \<and> t_objects t = t_objects demo_objects"
  by (simp add: delete_object_body_def demo_objects_def fresh_tables_def find_object_def
      execute_def checked_def integrity_def notnull_ok_def unique_ok_def foreign_ok_def ref_ok_def
      move_nodes_def move_objects_def)

section \<open>The tree\<close>

fun flatten :: "obj_tree \<Rightarrow> object_row list" where
  "flatten (ObjTree r ts) = r # concat (map flatten ts)"

text \<open>The level of a row among the rows given: a root of the tree is at level 0.\<close>

inductive level :: "object_row list \<Rightarrow> object_row \<Rightarrow> nat \<Rightarrow> bool" for rows where
  root: "r \<in> set rows \<Longrightarrow> is_root rows r \<Longrightarrow> level rows r 0"
| child: "c \<in> set rows \<Longrightarrow> on_parent c = Some (on_id r) \<Longrightarrow> level rows r n \<Longrightarrow>
    level rows c (Suc n)"

inductive_cases level_E: "level rows r n"

definition rooted :: "object_row list \<Rightarrow> bool" where
  "rooted rows \<longleftrightarrow> distinct (map on_id rows) \<and> (\<forall>r \<in> set rows. \<exists>n. level rows r n)"

definition at_level :: "object_row list \<Rightarrow> nat \<Rightarrow> object_row list" where
  "at_level rows n = filter (\<lambda>r. level rows r n) rows"

lemma level_row: "level rows r n \<Longrightarrow> r \<in> set rows"
  by (cases rule: level.cases) auto

lemma level_0: "level rows r 0 \<longleftrightarrow> r \<in> set rows \<and> is_root rows r"
  by (auto intro: level.root elim: level_E)

lemma level_Suc:
  "level rows c (Suc n) \<longleftrightarrow>
     c \<in> set rows \<and> (\<exists>r. on_parent c = Some (on_id r) \<and> level rows r n)"
  by (auto intro: level.child elim: level_E)

lemma level_unique:
  assumes "distinct (map on_id rows)"
  shows "level rows r n \<Longrightarrow> level rows r m \<Longrightarrow> n = m"
proof (induction n arbitrary: r m)
  case 0
  then have "is_root rows r" by (simp add: level_0)
  with 0 show ?case
    by (cases m) (auto simp: level_Suc is_root_def find_object_None dest: level_row)
next
  case (Suc n)
  then obtain p where p: "on_parent r = Some (on_id p)" "level rows p n" by (auto simp: level_Suc)
  show ?case
  proof (cases m)
    case 0
    with Suc p show ?thesis
      by (auto simp: level_0 is_root_def find_object_None dest: level_row)
  next
    case (Suc k)
    with Suc.prems obtain q where q: "on_parent r = Some (on_id q)" "level rows q k"
      by (auto simp: level_Suc)
    with p have "q = p" by (metis id_inject [OF assms] level_row option.inject)
    with Suc.IH p q Suc show ?thesis by blast
  qed
qed

lemma filter_mset_disjoint:
  "(\<And>x. x \<in># M \<Longrightarrow> \<not> (P x \<and> Q x)) \<Longrightarrow>
    filter_mset (\<lambda>x. P x \<or> Q x) M = filter_mset P M + filter_mset Q M"
  by (induction M) auto

lemma children_of_level:
  assumes "distinct (map on_id rows)"
  shows "mset (concat (map (children_of rows) (at_level rows n))) = mset (at_level rows (Suc n))"
proof -
  have *: "mset (concat (map (children_of rows) rs))
      = mset (filter (\<lambda>c. \<exists>r \<in> set rs. on_parent c = Some (on_id r)) rows)"
    if "distinct (map on_id rs)" for rs
    using that
  proof (induction rs)
    case Nil
    then show ?case by simp
  next
    case (Cons r rs)
    have "filter_mset (\<lambda>c. on_parent c = Some (on_id r) \<or> (\<exists>s \<in> set rs. on_parent c = Some (on_id s)))
          (mset rows)
        = filter_mset (\<lambda>c. on_parent c = Some (on_id r)) (mset rows)
          + filter_mset (\<lambda>c. \<exists>s \<in> set rs. on_parent c = Some (on_id s)) (mset rows)"
      by (rule filter_mset_disjoint) (use Cons.prems in auto)
    with Cons show ?case by (simp add: children_of_def)
  qed
  have dl: "distinct (map on_id (at_level rows n))"
    using assms by (simp add: at_level_def distinct_map_filter)
  have lv: "filter (\<lambda>c. \<exists>r \<in> set (at_level rows n). on_parent c = Some (on_id r)) rows
      = at_level rows (Suc n)"
    unfolding at_level_def by (rule filter_cong) (auto simp: level_Suc dest: level_row)
  show ?thesis using * [OF dl] unfolding lv .
qed

lemma mset_concat_nested:
  "mset (concat (map (\<lambda>r. r # concat (map f (g r))) rs))
     = mset rs + mset (concat (map f (concat (map g rs))))"
  by (induction rs) auto

lemma mset_concat_map_cong:
  "mset rs = mset rs' \<Longrightarrow> mset (concat (map g rs)) = mset (concat (map g rs'))"
proof -
  have *: "mset (concat (map g rs)) = sum_mset (image_mset (\<lambda>r. mset (g r)) (mset rs))" for rs
    by (induction rs) auto
  assume "mset rs = mset rs'"
  then show ?thesis by (simp add: *)
qed

lemma flatten_forest:
  assumes "distinct (map on_id rows)" and "mset rs = mset (at_level rows k)"
  shows "mset (concat (map (\<lambda>r. flatten (subtree n rows r)) rs))
           = (\<Sum>j\<in>{k..k + n}. mset (at_level rows j))"
  using assms(2)
proof (induction n arbitrary: k rs)
  case 0
  have "concat (map (\<lambda>r. [r]) rs) = rs" by (induction rs) auto
  with 0 show ?case by simp
next
  case (Suc n)
  let ?cs = "concat (map (children_of rows) rs)"
  have cs: "mset ?cs = mset (at_level rows (Suc k))"
    using mset_concat_map_cong [OF Suc.prems, of "children_of rows"]
      children_of_level [OF assms(1), of k] by simp
  have "mset (concat (map (\<lambda>r. flatten (subtree (Suc n) rows r)) rs))
      = mset rs + mset (concat (map (\<lambda>r. flatten (subtree n rows r)) ?cs))"
    using mset_concat_nested [of "\<lambda>r. flatten (subtree n rows r)" "children_of rows" rs]
    by (simp add: comp_def)
  also have "\<dots> = mset (at_level rows k) + (\<Sum>j\<in>{Suc k..Suc k + n}. mset (at_level rows j))"
    using Suc.IH [OF cs] Suc.prems by simp
  also have "\<dots> = (\<Sum>j\<in>{k..k + Suc n}. mset (at_level rows j))"
    by (subst (2) sum.atLeast_Suc_atMost) auto
  finally show ?case .
qed

lemma levels_sum:
  assumes "distinct (map on_id rows)"
  shows "(\<Sum>j\<in>{..<N}. mset (at_level rows j)) = mset (filter (\<lambda>r. \<exists>j < N. level rows r j) rows)"
proof (induction N)
  case 0
  show ?case by simp
next
  case (Suc N)
  have "filter_mset (\<lambda>r. (\<exists>j < N. level rows r j) \<or> level rows r N) (mset rows)
      = filter_mset (\<lambda>r. \<exists>j < N. level rows r j) (mset rows)
        + filter_mset (\<lambda>r. level rows r N) (mset rows)"
    by (rule filter_mset_disjoint) (use level_unique [OF assms] in blast)
  moreover have "(\<lambda>r. \<exists>j < Suc N. level rows r j)
      = (\<lambda>r. (\<exists>j < N. level rows r j) \<or> level rows r N)"
    by (auto simp: less_Suc_eq)
  ultimately show ?case using Suc by (simp add: at_level_def)
qed

lemma lower_levels: "level rows r n \<Longrightarrow> j \<le> n \<Longrightarrow> at_level rows j \<noteq> []"
proof (induction rule: level.induct)
  case (root r)
  then show ?case by (auto simp: at_level_def level_0 filter_empty_conv)
next
  case (child c r n)
  then have "level rows c (Suc n)" by (intro level.child)
  with child show ?case by (cases "j = Suc n") (auto simp: at_level_def filter_empty_conv)
qed

lemma level_less:
  assumes "distinct (map on_id rows)" and "level rows r n"
  shows "n < length rows"
proof -
  have "m \<le> size (\<Sum>j\<in>{..<m}. mset (at_level rows j))" if "m \<le> Suc n" for m
    using that
  proof (induction m)
    case (Suc m)
    then have "at_level rows m \<noteq> []" using lower_levels [OF assms(2)] by simp
    with Suc show ?case by (cases "at_level rows m") auto
  qed simp
  then have "Suc n \<le> size (\<Sum>j\<in>{..<Suc n}. mset (at_level rows j))" by blast
  also have "\<dots> \<le> length rows"
    unfolding levels_sum [OF assms(1)] size_mset by (rule length_filter_le)
  finally show ?thesis by simp
qed

lemma buildTree_complete:
  assumes "rooted rows"
  shows "mset (concat (map flatten (buildTree rows))) = mset rows"
proof -
  have d: "distinct (map on_id rows)" using assms by (simp add: rooted_def)
  have "filter (is_root rows) rows = at_level rows 0"
    by (auto simp: at_level_def level_0 intro: filter_cong)
  then have "mset (concat (map flatten (buildTree rows)))
      = (\<Sum>j\<in>{0..0 + length rows}. mset (at_level rows j))"
    using flatten_forest [OF d, of "filter (is_root rows) rows" 0 "length rows"]
    by (simp add: buildTree_def comp_def)
  also have "{0..0 + length rows} = {..<Suc (length rows)}" by auto
  also have "(\<Sum>j\<in>{..<Suc (length rows)}. mset (at_level rows j)) = mset rows"
  proof -
    have "\<exists>j < Suc (length rows). level rows r j" if "r \<in> set rows" for r
      using assms that level_less [OF d] by (meson less_SucI rooted_def)
    then show ?thesis unfolding levels_sum [OF d] by (simp add: filter_True del: mset_filter)
  qed
  finally show ?thesis .
qed

lemma rooted_sub:
  assumes "hier_ok rows"
  shows "rooted (sort_key on_name (filter p rows))"
proof -
  let ?rs = "sort_key on_name (filter p rows)"
  have d: "distinct (map on_id rows)" using assms by (simp add: hier_ok_def)
  have "distinct (map on_id ?rs)"
    using d by (simp add: distinct_map inj_on_def)
  moreover have "\<exists>k. level ?rs r k"
    if "at_depth rows (on_id r) n" "r \<in> set ?rs" for r n
    using that
  proof (induction n arbitrary: r rule: less_induct)
    case (less n)
    show ?case
    proof (cases "is_root ?rs r")
      case True
      with less(3) show ?thesis by (blast intro: level.root)
    next
      case False
      then obtain q where q: "on_parent r = Some (on_id q)" "q \<in> set ?rs"
        by (auto simp: is_root_def find_object_None split: option.splits)
      from less(3) have "r \<in> set rows" by simp
      from at_depth_parent [OF d this q(1) less(2)] obtain m where "n = Suc m" "at_depth rows (on_id q) m"
        by blast
      with less.IH q obtain k where "level ?rs q k" by blast
      with q less(3) show ?thesis by (blast intro: level.child)
    qed
  qed
  ultimately show ?thesis
    using assms by (fastforce simp: rooted_def hier_ok_def)
qed

text \<open>C16: The tree of a namespace contains every container of the namespace exactly once, and nothing
  else.\<close>

theorem tree_contains_each_object_once:
  assumes "objects_ok t"
  shows "mset (concat (map flatten (buildTree (object_rows ns t))))
           = mset (filter (\<lambda>r. on_namespace r = ns) (t_objects t))"
  using buildTree_complete [OF rooted_sub [of "t_objects t" "\<lambda>r. on_namespace r = ns"]] assms
  by (simp add: object_rows_def objects_ok_def)

lemma demo_objects_ok: "objects_ok demo_objects"
proof -
  let ?rows = "t_objects demo_objects"
  have a: "at_depth ?rows ''a'' (Suc 0)"
    using at_depth.root [of "hd ?rows" ?rows] by (simp add: demo_objects_def)
  then have b: "at_depth ?rows ''b'' (Suc (Suc 0))"
    using at_depth.child [of "hd (tl ?rows)" ?rows "''a''"] by (simp add: demo_objects_def)
  show ?thesis
    unfolding objects_ok_def hier_ok_def
  proof (intro conjI ballI)
    fix r assume "r \<in> set ?rows"
    then have "on_id r = ''a'' \<or> on_id r = ''b''" by (auto simp: demo_objects_def)
    then show "\<exists>n \<le> MAX_DEPTH. at_depth ?rows (on_id r) n"
    proof
      assume "on_id r = ''a''"
      with a show ?thesis by (intro exI [of _ "Suc 0"]) (simp add: MAX_DEPTH_def)
    next
      assume "on_id r = ''b''"
      with b show ?thesis by (intro exI [of _ "Suc (Suc 0)"]) (simp add: MAX_DEPTH_def)
    qed
  qed (auto simp: demo_objects_def)
qed

lemma tree_contains_each_object_once_witness:
  "mset (concat (map flatten (buildTree (object_rows ''ns'' demo_objects))))
     = mset (filter (\<lambda>r. on_namespace r = ''ns'') (t_objects demo_objects))"
  by (rule tree_contains_each_object_once [OF demo_objects_ok])

end
