(* ===== verification/Nodes.thy ===== *)
theory Nodes
  imports Database
begin

text \<open>
  \<open>src/db/repositories/node-repository.ts\<close>: the variables of the address space. A fresh id
  (\<open>uuid\<close>) and the time of a statement are arguments. A field of an update request that is
  \<open>undefined\<close> is \<open>None\<close>; for the container, \<open>Some None\<close> is \<open>null\<close>.
\<close>

section \<open>Requests and validation\<close>

definition SUPPORTED_DATA_TYPES :: "string list" where
  "SUPPORTED_DATA_TYPES =
     [''Boolean'', ''Int16'', ''Int32'', ''Int64'', ''UInt16'', ''UInt32'', ''UInt64'', ''Float'',
      ''Double'', ''String'', ''DateTime'', ''ByteString'']"

record create_node_request =
  cr_name :: string
  cr_namespaceId :: string
  cr_objectNodeId :: "string option"
  cr_dataType :: string
  cr_initialValue :: jsval
  cr_description :: "string option"

record update_node_request =
  ur_name :: "string option"
  ur_objectNodeId :: "string option option"
  ur_dataType :: "string option"
  ur_initialValue :: jsval
  ur_description :: "string option"

definition unsupported :: "string \<Rightarrow> string" where
  "unsupported ty = ''Unsupported data type: '' @ quoted ty @ ''. Supported types: ''
     @ join '', '' SUPPORTED_DATA_TYPES"

definition validateCreate :: "create_node_request \<Rightarrow> (string \<times> string) list" where
  "validateCreate r =
     (if cr_name r = [] \<or> trim (cr_name r) = [] then [(''name'', ''Name is required'')] else []) @
     (if cr_namespaceId r = [] \<or> trim (cr_namespaceId r) = []
      then [(''namespaceId'', ''Namespace ID is required'')] else []) @
     (if cr_dataType r = [] then [(''dataType'', ''Data type is required'')]
      else if \<not> List.member SUPPORTED_DATA_TYPES (cr_dataType r)
      then [(''dataType'', unsupported (cr_dataType r))] else [])"

definition validateUpdate :: "update_node_request \<Rightarrow> (string \<times> string) list" where
  "validateUpdate r =
     (case ur_name r of
        Some n \<Rightarrow> if trim n = [] then [(''name'', ''Name cannot be empty'')] else []
      | None \<Rightarrow> []) @
     (case ur_dataType r of
        Some ty \<Rightarrow> if \<not> List.member SUPPORTED_DATA_TYPES ty
                   then [(''dataType'', unsupported ty)] else []
      | None \<Rightarrow> [])"

definition validation_failed :: "(string \<times> string) list \<Rightarrow> domain_error" where
  "validation_failed errors =
     \<lparr>de_code = ''VALIDATION_ERROR'',
      de_message = ''Validation failed: '' @ join ''; '' (map (\<lambda>(f, m). f @ '': '' @ m) errors),
      de_details = errors\<rparr>"

definition duplicate_node :: "string \<Rightarrow> string \<Rightarrow> domain_error" where
  "duplicate_node name ns =
     \<lparr>de_code = ''DUPLICATE_ERROR'',
      de_message = ''Duplicate node name '' @ quoted name @ '' within namespace '' @ quoted ns,
      de_details = [(''name'', ''Node name '' @ quoted name @ '' already exists in this namespace'')]\<rparr>"

definition node_not_found :: "string \<Rightarrow> domain_error" where
  "node_not_found i =
     \<lparr>de_code = ''NOT_FOUND'', de_message = ''Node with id '' @ quoted i @ '' not found'',
      de_details = []\<rparr>"

section \<open>Queries\<close>

definition all_nodes_query :: query where
  "all_nodes_query t = map CNode (sort_key nd_name (t_nodes t))"

definition ns_nodes_query :: "string \<Rightarrow> query" where
  "ns_nodes_query ns t =
     map CNode (sort_key nd_name (filter (\<lambda>r. nd_namespace r = ns) (t_nodes t)))"

definition find_node :: "tables \<Rightarrow> string \<Rightarrow> node_row option" where
  "find_node t i = find (\<lambda>r. nd_id r = i) (t_nodes t)"

definition node_query :: "string \<Rightarrow> query" where
  "node_query i t = (case find_node t i of None \<Rightarrow> [] | Some r \<Rightarrow> [CNode r])"

definition lookup_query :: "string \<Rightarrow> string \<Rightarrow> query" where
  "lookup_query name ns t =
     (case find (\<lambda>r. nd_name r = name \<and> nd_namespace r = ns) (t_nodes t) of
        None \<Rightarrow> [] | Some r \<Rightarrow> [CNode r])"

definition node_findAll :: "string option \<Rightarrow> database \<Rightarrow> (db_error + cached list) \<times> database" where
  "node_findAll ns d =
     (if truthy_str ns then readWithCache (''nodes:ns:'' @ the ns) (ns_nodes_query (the ns)) d
      else readWithCache ''nodes:all'' all_nodes_query d)"

fun as_node :: "cached option \<Rightarrow> node_row option" where
  "as_node (Some (CNode r)) = Some r"
| "as_node _ = None"

definition node_findById :: "string \<Rightarrow> database \<Rightarrow> (db_error + node_row option) \<times> database" where
  "node_findById i d =
     (let (r, d1) = readWithCache (''nodes:'' @ i) (node_query i) d
      in (map_sum id as_node (first_of r), d1))"

definition findByNameInNamespace ::
  "string \<Rightarrow> string \<Rightarrow> database \<Rightarrow> (db_error + node_row option) \<times> database" where
  "findByNameInNamespace name ns d =
     (let (r, d1) = readWithCache (''nodes:lookup:'' @ ns @ '':'' @ name) (lookup_query name ns) d
      in (map_sum id as_node (first_of r), d1))"

section \<open>Operations\<close>

definition new_node :: "string \<Rightarrow> string \<Rightarrow> create_node_request \<Rightarrow> node_row" where
  "new_node i now r =
     \<lparr>nd_id = i, nd_namespace = cr_namespaceId r, nd_object = cr_objectNodeId r,
      nd_name = cr_name r, nd_dataType = cr_dataType r,
      nd_initial = (if cr_initialValue r = JUndefined then None
                    else Some (json_copy (cr_initialValue r))),
      nd_description = cr_description r, nd_created = now, nd_updated = now\<rparr>"

definition insert_node :: "node_row \<Rightarrow> tables \<Rightarrow> (db_error + node_row) \<times> tables" where
  "insert_node row t =
     (case execute (\<lambda>t. t\<lparr>t_nodes := t_nodes t @ [row]\<rparr>) t of
        (Inl e, t') \<Rightarrow> (Inl e, t') | (Inr _, t') \<Rightarrow> (Inr row, t'))"

definition node_create :: "string \<Rightarrow> string \<Rightarrow> create_node_request \<Rightarrow> database \<Rightarrow> node_row answer" where
  "node_create i now r d =
     (let errors = validateCreate r in
      if errors \<noteq> [] then (Inr (Inl (validation_failed errors)), d)
      else (case findByNameInNamespace (cr_name r) (cr_namespaceId r) d of
              (Inl e, d1) \<Rightarrow> (Inl e, d1)
            | (Inr (Some _), d1) \<Rightarrow> (Inr (Inl (duplicate_node (cr_name r) (cr_namespaceId r))), d1)
            | (Inr None, d1) \<Rightarrow> answer (db_write (insert_node (new_node i now r)) d1)))"

definition set_fields :: "string \<Rightarrow> update_node_request \<Rightarrow> node_row \<Rightarrow> node_row" where
  "set_fields now r row =
     row\<lparr>nd_name := upd (ur_name r) (nd_name row),
         nd_object := upd (ur_objectNodeId r) (nd_object row),
         nd_dataType := upd (ur_dataType r) (nd_dataType row),
         nd_initial := (if ur_initialValue r = JUndefined then nd_initial row
                        else Some (json_copy (ur_initialValue r))),
         nd_description := (case ur_description r of None \<Rightarrow> nd_description row | Some x \<Rightarrow> Some x),
         nd_updated := now\<rparr>"

definition no_fields :: "update_node_request \<Rightarrow> bool" where
  "no_fields r \<longleftrightarrow>
     ur_name r = None \<and> ur_objectNodeId r = None \<and> ur_dataType r = None
     \<and> ur_initialValue r = JUndefined \<and> ur_description r = None"

definition update_node_body ::
  "string \<Rightarrow> string \<Rightarrow> update_node_request \<Rightarrow> tables \<Rightarrow> (db_error + node_row) \<times> tables" where
  "update_node_body i now r t =
     (let (e, t1) = (if no_fields r then (Inr (), t)
                     else execute (\<lambda>t. t\<lparr>t_nodes := map (\<lambda>row. if nd_id row = i
                            then set_fields now r row else row) (t_nodes t)\<rparr>) t)
      in case e of
           Inl x \<Rightarrow> (Inl x, t1)
         | Inr _ \<Rightarrow>
             (case find_node t1 i of
                None \<Rightarrow> (Inl (OtherError ''Cannot read properties of undefined''), t1)
              | Some row \<Rightarrow> (Inr row, t1)))"

definition node_update ::
  "string \<Rightarrow> string \<Rightarrow> update_node_request \<Rightarrow> database \<Rightarrow> node_row answer" where
  "node_update i now r d =
     (case node_findById i d of
        (Inl e, d1) \<Rightarrow> (Inl e, d1)
      | (Inr None, d1) \<Rightarrow> (Inr (Inl (node_not_found i)), d1)
      | (Inr (Some existing), d1) \<Rightarrow>
          (let errors = validateUpdate r;
               write = (\<lambda>d. answer (db_write (update_node_body i now r) d))
           in if errors \<noteq> [] then (Inr (Inl (validation_failed errors)), d1)
              else if truthy_str (ur_name r) \<and> ur_name r \<noteq> Some (nd_name existing) then
                (case findByNameInNamespace (the (ur_name r)) (nd_namespace existing) d1 of
                   (Inl e, d2) \<Rightarrow> (Inl e, d2)
                 | (Inr (Some _), d2) \<Rightarrow>
                     (Inr (Inl (duplicate_node (the (ur_name r)) (nd_namespace existing))), d2)
                 | (Inr None, d2) \<Rightarrow> write d2)
              else write d1))"

definition delete_node_body :: "string \<Rightarrow> tables \<Rightarrow> (db_error + bool) \<times> tables" where
  "delete_node_body i t =
     (case execute (drop_nodes (\<lambda>r. nd_id r = i)) t of
        (Inl e, t') \<Rightarrow> (Inl e, t')
      | (Inr _, t') \<Rightarrow> (Inr (find_node t i \<noteq> None), t'))"

definition node_delete :: "string \<Rightarrow> database \<Rightarrow> unit answer" where
  "node_delete i d =
     (case db_write (delete_node_body i) d of
        (Inl e, d1) \<Rightarrow> (Inl e, d1)
      | (Inr True, d1) \<Rightarrow> (Inr (Inr ()), d1)
      | (Inr False, d1) \<Rightarrow> (Inr (Inl (node_not_found i)), d1))"

section \<open>What the operations do to the tables\<close>

lemma lookup_fields [simp]:
  "db_tables (snd (findByNameInNamespace n ns d)) = db_tables d"
  "db_open (snd (findByNameInNamespace n ns d)) = db_open d"
  "db_alive (snd (findByNameInNamespace n ns d)) = db_alive d"
  by (simp_all add: findByNameInNamespace_def split_beta)

lemma find_fields [simp]:
  "db_tables (snd (node_findById i d)) = db_tables d"
  "db_open (snd (node_findById i d)) = db_open d"
  "db_alive (snd (node_findById i d)) = db_alive d"
  by (simp_all add: node_findById_def split_beta)

lemma lookup_alive:
  "db_open d \<Longrightarrow> db_alive d \<Longrightarrow>
    fst (findByNameInNamespace n ns d)
      = Inr (find (\<lambda>r. nd_name r = n \<and> nd_namespace r = ns) (t_nodes (db_tables d)))"
  by (auto simp: findByNameInNamespace_def split_beta read_alive lookup_query_def first_of_def
      split: option.split)

lemma insert_node_result:
  "insert_node row t =
     (case checked (t\<lparr>t_nodes := t_nodes t @ [row]\<rparr>) of
        Inl e \<Rightarrow> (Inl (SqlError e), t) | Inr t' \<Rightarrow> (Inr row, t'))"
  by (auto simp: insert_node_def execute_def split: sum.split)

text \<open>What an insertion needs besides a free name.\<close>

definition node_fits :: "tables \<Rightarrow> node_row \<Rightarrow> bool" where
  "node_fits t row \<longleftrightarrow>
     find_node t (nd_id row) = None \<and>
     list_ex (\<lambda>n. ns_id n = nd_namespace row) (t_namespaces t) \<and>
     (case nd_object row of None \<Rightarrow> True
      | Some p \<Rightarrow> list_ex (\<lambda>o'. on_id o' = p) (t_objects t))"

lemma unique_insert_node:
  assumes "unique_ok t"
    and "find (\<lambda>r. nd_name r = nd_name row \<and> nd_namespace r = nd_namespace row) (t_nodes t) = None"
  shows "unique_ok (t\<lparr>t_nodes := t_nodes t @ [row]\<rparr>) \<longleftrightarrow> find_node t (nd_id row) = None"
proof -
  have "(nd_namespace row, nd_name row) \<notin> (\<lambda>r. (nd_namespace r, nd_name r)) ` set (t_nodes t)"
    using assms(2) by (force simp: find_None)
  moreover have "find_node t (nd_id row) = None \<longleftrightarrow> nd_id row \<notin> nd_id ` set (t_nodes t)"
    unfolding find_node_def find_None image_iff by metis
  ultimately show ?thesis using assms(1) by (simp add: unique_ok_def)
qed

lemma ref_ok_simps [simp]:
  "ref_ok None ids" "ref_ok (Some i) ids \<longleftrightarrow> i \<in> set ids"
  by (simp_all add: ref_ok_def)

lemma ref_ok_mono: "ref_ok r ids \<Longrightarrow> set ids \<subseteq> set ids' \<Longrightarrow> ref_ok r ids'"
  by (cases r) auto

lemma ref_ok_snoc: "ref_ok r ids \<Longrightarrow> ref_ok r (ids @ [x])"
  by (rule ref_ok_mono) auto

lemma foreign_insert_node:
  assumes "foreign_ok t"
  shows "foreign_ok (t\<lparr>t_nodes := t_nodes t @ [row]\<rparr>) \<longleftrightarrow>
    list_ex (\<lambda>n. ns_id n = nd_namespace row) (t_namespaces t) \<and>
     (case nd_object row of None \<Rightarrow> True | Some p \<Rightarrow> list_ex (\<lambda>o'. on_id o' = p) (t_objects t))"
proof -
  have L: "list_ex (\<lambda>n. ns_id n = nd_namespace row) (t_namespaces t)
      \<longleftrightarrow> nd_namespace row \<in> set (map ns_id (t_namespaces t))"
    "list_ex (\<lambda>o'. on_id o' = p) (t_objects t) \<longleftrightarrow> p \<in> set (map on_id (t_objects t))" for p
    by (force simp: list_ex_iff)+
  show ?thesis
    using assms L by (cases "nd_object row") (auto simp: foreign_ok_def list_all_iff intro: ref_ok_snoc)
qed

lemma integrity_insert_node:
  assumes "integrity t"
    and "find (\<lambda>r. nd_name r = nd_name row \<and> nd_namespace r = nd_namespace row) (t_nodes t) = None"
  shows "integrity (t\<lparr>t_nodes := t_nodes t @ [row]\<rparr>) \<longleftrightarrow> node_fits t row"
proof -
  have "notnull_ok (t\<lparr>t_nodes := t_nodes t @ [row]\<rparr>) = notnull_ok t"
    by (simp add: notnull_ok_def)
  then show ?thesis
    using assms unique_insert_node [of t row] foreign_insert_node [of t row]
    unfolding integrity_def node_fits_def by blast
qed

lemma node_create_result:
  assumes "integrity (db_tables d)" and "db_open d" and "db_alive d"
  shows "let t = db_tables d; row = new_node i now r; (res, d') = node_create i now r d;
      taken = (\<exists>n \<in> set (t_nodes t). nd_name n = cr_name r \<and> nd_namespace n = cr_namespaceId r)
    in if validateCreate r \<noteq> [] \<or> taken then
         res = Inr (Inl (if validateCreate r \<noteq> [] then validation_failed (validateCreate r)
                         else duplicate_node (cr_name r) (cr_namespaceId r))) \<and> db_tables d' = t
       else if node_fits t row then
         res = Inr (Inr row) \<and> db_tables d' = t\<lparr>t_nodes := t_nodes t @ [row]\<rparr>
         \<and> integrity (db_tables d')
       else (\<exists>e. res = Inl (SqlError e)) \<and> db_tables d' = t"
proof -
  let ?t = "db_tables d" and ?row = "new_node i now r"
  let ?look = "find (\<lambda>n. nd_name n = cr_name r \<and> nd_namespace n = cr_namespaceId r) (t_nodes ?t)"
  obtain x d1 where look: "findByNameInNamespace (cr_name r) (cr_namespaceId r) d = (x, d1)"
    by (cases "findByNameInNamespace (cr_name r) (cr_namespaceId r) d")
  have x: "x = Inr ?look"
    using lookup_alive [OF assms(2,3), of "cr_name r" "cr_namespaceId r"] look by simp
  have d1: "db_tables d1 = ?t" "db_open d1" "db_alive d1"
    using lookup_fields [of "cr_name r" "cr_namespaceId r" d] look assms by simp_all
  show ?thesis
  proof (cases "validateCreate r = [] \<and> ?look = None")
    case False
    then show ?thesis
      using look x d1
      by (auto simp: node_create_def Let_def find_None split: option.splits)
  next
    case True
    then have n: "node_create i now r d = answer (db_write (insert_node ?row) d1)"
      using look x by (simp add: node_create_def Let_def)
    let ?t' = "?t\<lparr>t_nodes := t_nodes ?t @ [?row]\<rparr>"
    have fits: "integrity ?t' \<longleftrightarrow> node_fits ?t ?row"
      using True by (intro integrity_insert_node assms) (simp add: new_node_def)
    have free: "\<not> (\<exists>n \<in> set (t_nodes ?t). nd_name n = cr_name r \<and> nd_namespace n = cr_namespaceId r)"
      using True by (simp add: find_None)
    show ?thesis
    proof (cases "node_fits ?t ?row")
      case True
      with fits have "checked ?t' = Inr ?t'" by (simp add: checked_ok)
      then show ?thesis
        using True fits free d1 \<open>validateCreate r = [] \<and> ?look = None\<close>
        by (simp add: n Let_def split_beta db_write_tables db_write_alive insert_node_result)
    next
      case False
      with fits obtain e where "checked ?t' = Inl e"
        by (cases "checked ?t'") (auto simp: checked_Inr)
      then show ?thesis
        using False free d1 \<open>validateCreate r = [] \<and> ?look = None\<close>
        by (simp add: n Let_def split_beta db_write_tables db_write_alive insert_node_result)
    qed
  qed
qed

text \<open>On a database that can be reached, a request for a new variable is answered with the row that
  was stored exactly if the request is valid, its name is free in the namespace, and the
  namespace and the container exist; the row is then the only change. Otherwise nothing
  changes, and only a missing namespace or container (or a reused id) is thrown as an error of
  the database rather than answered.\<close>

lemma node_create_outcome:
  assumes "integrity (db_tables d)" and "db_open d" and "db_alive d"
  shows "let t = db_tables d; row = new_node i now r; (res, d') = node_create i now r d;
      taken = (\<exists>n \<in> set (t_nodes t). nd_name n = cr_name r \<and> nd_namespace n = cr_namespaceId r)
    in if validateCreate r \<noteq> [] \<or> taken then
         (\<exists>e. res = Inr (Inl e)) \<and> db_tables d' = t
       else if node_fits t row then
         res = Inr (Inr row) \<and> db_tables d' = t\<lparr>t_nodes := t_nodes t @ [row]\<rparr>
         \<and> integrity (db_tables d')
       else (\<exists>e. res = Inl (SqlError e)) \<and> db_tables d' = t"
  using node_create_result [OF assms, of i now r] by (auto simp: Let_def split: prod.splits if_splits)

definition plant_db :: database where
  "plant_db = \<lparr>db_tables = fresh_tables\<lparr>t_namespaces :=
       [\<lparr>ns_id = ''ns'', ns_name = ''Plant'', ns_description = None, ns_uri = ''urn:p'',
         ns_created = [], ns_updated = []\<rparr>]\<rparr>,
     db_open = True, db_alive = True, db_accessible = True, db_cache = []\<rparr>"

definition demo_request :: create_node_request where
  "demo_request = \<lparr>cr_name = ''Speed'', cr_namespaceId = ''ns'', cr_objectNodeId = None,
     cr_dataType = ''Float'', cr_initialValue = jint 0, cr_description = None\<rparr>"

lemma node_create_outcome_witness:
  "fst (node_create ''n1'' [] demo_request plant_db)
     = Inr (Inr (new_node ''n1'' [] demo_request))
   \<and> integrity (db_tables (snd (node_create ''n1'' [] demo_request plant_db)))
   \<and> (\<exists>e. fst (node_create ''n1'' [] (demo_request\<lparr>cr_namespaceId := ''gone''\<rparr>) plant_db)
         = Inl (SqlError e))"
proof -
  have d: "integrity (db_tables plant_db)" "db_open plant_db" "db_alive plant_db"
    by (simp_all add: plant_db_def integrity_def notnull_ok_def unique_ok_def foreign_ok_def
        fresh_tables_def)
  have r: "validateCreate demo_request = []"
    "validateCreate (demo_request\<lparr>cr_namespaceId := ''gone''\<rparr>) = []"
    by code_simp+
  have t: "t_nodes (db_tables plant_db) = []"
    by (simp add: plant_db_def fresh_tables_def)
  have "node_fits (db_tables plant_db) (new_node ''n1'' [] demo_request)"
    "\<not> node_fits (db_tables plant_db) (new_node ''n1'' [] (demo_request\<lparr>cr_namespaceId := ''gone''\<rparr>))"
    by (simp_all add: node_fits_def find_node_def t new_node_def demo_request_def plant_db_def fresh_tables_def)
  with node_create_outcome [OF d, of "''n1''" "[]" demo_request]
    node_create_outcome [OF d, of "''n1''" "[]" "demo_request\<lparr>cr_namespaceId := ''gone''\<rparr>"]
  show ?thesis
    by (auto simp: Let_def split_beta r t)
qed

end
