(* ===== verification/Namespaces.thy ===== *)
theory Namespaces
  imports Nodes
begin

text \<open>
  \<open>src/db/repositories/namespace-repository.ts\<close>: the namespaces of the address space with their
  numbers of variables. As in the other repositories a fresh id and the time of a statement are
  arguments, and a field of a request that is \<open>undefined\<close> is \<open>None\<close>.
\<close>

section \<open>Requests and answers\<close>

record create_namespace_request =
  cn_name :: string
  cn_description :: "string option"
  cn_uri :: string

record update_namespace_request =
  un_name :: "string option"
  un_description :: "string option"
  un_uri :: "string option"

definition name_taken :: "string \<Rightarrow> domain_error" where
  "name_taken name =
     \<lparr>de_code = ''DUPLICATE_ERROR'',
      de_message = ''A namespace with the name '' @ dquoted name @ '' already exists'',
      de_details = [(''name'', ''Namespace name '' @ dquoted name @ '' is already in use'')]\<rparr>"

definition uri_taken :: "string \<Rightarrow> domain_error" where
  "uri_taken uri =
     \<lparr>de_code = ''DUPLICATE_ERROR'',
      de_message = ''A namespace with the URI '' @ dquoted uri @ '' already exists'',
      de_details = [(''uri'', ''Namespace URI '' @ dquoted uri @ '' is already in use'')]\<rparr>"

section \<open>Queries\<close>

definition node_count :: "tables \<Rightarrow> string \<Rightarrow> nat" where
  "node_count t i = length (filter (\<lambda>r. nd_namespace r = i) (t_nodes t))"

definition rowToNamespace :: "namespace_row \<Rightarrow> nat option \<Rightarrow> namespace" where
  "rowToNamespace row n = \<lparr>nsp_row = row, nsp_nodeCount = n\<rparr>"

definition counted :: "tables \<Rightarrow> namespace_row \<Rightarrow> namespace" where
  "counted t row = rowToNamespace row (Some (node_count t (ns_id row)))"

definition find_namespace :: "string \<Rightarrow> tables \<Rightarrow> namespace_row option" where
  "find_namespace i t = find (\<lambda>r. ns_id r = i) (t_namespaces t)"

definition all_namespaces_query :: query where
  "all_namespaces_query t =
     map (\<lambda>r. CNamespace (counted t r)) (sort_key ns_name (t_namespaces t))"

definition namespace_query :: "string \<Rightarrow> query" where
  "namespace_query i t =
     (case find_namespace i t of None \<Rightarrow> [] | Some r \<Rightarrow> [CNamespace (counted t r)])"

definition count_query :: "string \<Rightarrow> query" where
  "count_query i t = [CCount (node_count t i)]"

definition namespace_findAll :: "database \<Rightarrow> (db_error + cached list) \<times> database" where
  "namespace_findAll d = readWithCache ''namespaces'' all_namespaces_query d"

fun as_namespace :: "cached option \<Rightarrow> namespace option" where
  "as_namespace (Some (CNamespace n)) = Some n"
| "as_namespace _ = None"

definition namespace_findById ::
  "string \<Rightarrow> database \<Rightarrow> (db_error + namespace option) \<times> database" where
  "namespace_findById i d =
     (let (r, d1) = readWithCache (''namespace:'' @ i) (namespace_query i) d
      in (map_sum id as_namespace (first_of r), d1))"

text \<open>The two look-ups swallow every error.\<close>

definition findByName :: "string \<Rightarrow> database \<Rightarrow> namespace_row option" where
  "findByName name d = try_select (\<lambda>t. find (\<lambda>r. ns_name r = name) (t_namespaces t)) d"

definition findByUri :: "string \<Rightarrow> database \<Rightarrow> namespace_row option" where
  "findByUri uri d = try_select (\<lambda>t. find (\<lambda>r. ns_uri r = uri) (t_namespaces t)) d"

section \<open>Operations\<close>

definition new_namespace :: "string \<Rightarrow> string \<Rightarrow> create_namespace_request \<Rightarrow> namespace_row" where
  "new_namespace i now r =
     \<lparr>ns_id = i, ns_name = cn_name r, ns_description = cn_description r, ns_uri = cn_uri r,
      ns_created = now, ns_updated = now\<rparr>"

definition insert_namespace :: "namespace_row \<Rightarrow> tables \<Rightarrow> (db_error + namespace_row) \<times> tables" where
  "insert_namespace row =
     statement (\<lambda>t. t\<lparr>t_namespaces := t_namespaces t @ [row]\<rparr>) (find_namespace (ns_id row))"

definition namespace_create ::
  "string \<Rightarrow> string \<Rightarrow> create_namespace_request \<Rightarrow> database \<Rightarrow> namespace answer" where
  "namespace_create i now r d =
     (if findByName (cn_name r) d \<noteq> None then refuse (name_taken (cn_name r)) d
      else if findByUri (cn_uri r) d \<noteq> None then refuse (uri_taken (cn_uri r)) d
      else and_then (db_write (insert_namespace (new_namespace i now r)) d)
             (\<lambda>row d1. (Inr (Inr (rowToNamespace row (Some 0))), d1)))"

definition set_namespace ::
  "string \<Rightarrow> update_namespace_request \<Rightarrow> namespace_row \<Rightarrow> namespace_row \<Rightarrow> namespace_row" where
  "set_namespace now r existing row =
     row\<lparr>ns_name := upd (un_name r) (ns_name existing),
         ns_description := (case un_description r of None \<Rightarrow> ns_description existing | x \<Rightarrow> x),
         ns_uri := upd (un_uri r) (ns_uri existing),
         ns_updated := now\<rparr>"

definition update_namespace_body ::
  "string \<Rightarrow> string \<Rightarrow> update_namespace_request \<Rightarrow> namespace_row \<Rightarrow> tables
     \<Rightarrow> (db_error + namespace_row) \<times> tables" where
  "update_namespace_body i now r existing =
     statement
       (\<lambda>t. t\<lparr>t_namespaces :=
          update_rows (\<lambda>row. ns_id row = i) (set_namespace now r existing) (t_namespaces t)\<rparr>)
       (find_namespace i)"

fun as_count :: "cached option \<Rightarrow> nat" where
  "as_count (Some (CCount n)) = n"
| "as_count _ = 0"

text \<open>The number of variables is read after the write; the read may throw.\<close>

definition with_count :: "string \<Rightarrow> namespace_row \<Rightarrow> database \<Rightarrow> namespace answer" where
  "with_count i row d =
     and_then (readWithCache (''namespace-nodecount:'' @ i) (count_query i) d)
       (\<lambda>cs d1. (Inr (Inr (rowToNamespace row
          (Some (as_count (case cs of [] \<Rightarrow> None | c # _ \<Rightarrow> Some c))))), d1))"

text \<open>\<open>request.name && request.name !== existing.name\<close>\<close>

definition changes :: "string option \<Rightarrow> string \<Rightarrow> bool" where
  "changes new old \<longleftrightarrow> truthy_str new \<and> new \<noteq> Some old"

definition namespace_update ::
  "string \<Rightarrow> string \<Rightarrow> update_namespace_request \<Rightarrow> database \<Rightarrow> namespace answer" where
  "namespace_update i now r d =
     and_then (namespace_findById i d) (\<lambda>found d1.
       case found of
         None \<Rightarrow> refuse (not_found_error ''Namespace'' i) d1
       | Some existing \<Rightarrow>
           (let old = nsp_row existing in
            if changes (un_name r) (ns_name old) \<and> findByName (the (un_name r)) d1 \<noteq> None
            then refuse (name_taken (the (un_name r))) d1
            else if changes (un_uri r) (ns_uri old) \<and> findByUri (the (un_uri r)) d1 \<noteq> None
            then refuse (uri_taken (the (un_uri r))) d1
            else and_then (db_write (update_namespace_body i now r old) d1) (with_count i)))"

definition delete_namespace_body :: "string \<Rightarrow> tables \<Rightarrow> (db_error + unit) \<times> tables" where
  "delete_namespace_body i t =
     (case drop_namespace i t of
        Inl e \<Rightarrow> (Inl (SqlError e), t)
      | Inr t' \<Rightarrow> execute (\<lambda>_. t') t)"

definition namespace_delete :: "string \<Rightarrow> database \<Rightarrow> unit answer" where
  "namespace_delete i d =
     and_then (namespace_findById i d) (\<lambda>found d1.
       if found = None then refuse (not_found_error ''Namespace'' i) d1
       else answer (db_write (delete_namespace_body i) d1))"

section \<open>What the operations do to the tables\<close>

lemma namespace_find_fields [simp]:
  "db_tables (snd (namespace_findById i d)) = db_tables d"
  "db_open (snd (namespace_findById i d)) = db_open d"
  "db_alive (snd (namespace_findById i d)) = db_alive d"
  "db_accessible (snd (namespace_findById i d)) = (db_open d \<and> db_alive d)"
  by (simp_all add: namespace_findById_def split_beta)

lemma namespace_find_alive:
  "db_open d \<Longrightarrow> db_alive d \<Longrightarrow>
    fst (namespace_findById i d)
      = Inr (map_option (counted (db_tables d)) (find_namespace i (db_tables d)))"
  by (auto simp: namespace_findById_def split_beta read_alive namespace_query_def first_of_def
      split: option.split)

lemma with_count_tables [simp]: "db_tables (snd (with_count i row d)) = db_tables d"
  unfolding with_count_def by (rule and_then_snd) simp_all

text \<open>
  Each operation leaves the tables alone or runs one statement on them: \<open>P\<close> holds afterwards
  if it holds before and after the statement.
\<close>

lemma write_keeps:
  "P (db_tables d) \<Longrightarrow> P (snd (f (db_tables d))) \<Longrightarrow> P (db_tables (snd (db_write f d)))"
  by (simp add: db_write_tables)

lemma namespace_create_tables:
  assumes "P (db_tables d)" "P (snd (insert_namespace (new_namespace i now r) (db_tables d)))"
  shows "P (db_tables (snd (namespace_create i now r d)))"
proof -
  have "P (db_tables (snd (and_then (db_write (insert_namespace (new_namespace i now r)) d)
             (\<lambda>row d1. (Inr (Inr (rowToNamespace row (Some 0))), d1) :: namespace answer))))"
    by (rule and_then_snd) (use assms in \<open>simp_all add: write_keeps\<close>)
  with assms(1) show ?thesis by (simp add: namespace_create_def)
qed

lemma namespace_update_tables:
  assumes "P (db_tables d)" "\<And>old. P (snd (update_namespace_body i now r old (db_tables d)))"
  shows "P (db_tables (snd (namespace_update i now r d)))"
  unfolding namespace_update_def
proof (rule and_then_snd [where P = "\<lambda>d. P (db_tables d)"])
  show "P (db_tables (snd (namespace_findById i d)))" using assms(1) by simp
  fix found d1
  assume f: "namespace_findById i d = (Inr found, d1)"
  have t: "db_tables d1 = db_tables d" using namespace_find_fields(1) [of i d] f by simp
  have "P (db_tables (snd (and_then (db_write (update_namespace_body i now r old) d1) (with_count i))))"
    for old
    by (rule and_then_snd [where P = "\<lambda>d. P (db_tables d)"])
      (use assms t in \<open>simp_all add: write_keeps [where P = P]\<close>)
  then show "P (db_tables (snd (case found of None \<Rightarrow> refuse (not_found_error ''Namespace'' i) d1
      | Some existing \<Rightarrow> let old = nsp_row existing in
          if changes (un_name r) (ns_name old) \<and> findByName (the (un_name r)) d1 \<noteq> None
          then refuse (name_taken (the (un_name r))) d1
          else if changes (un_uri r) (ns_uri old) \<and> findByUri (the (un_uri r)) d1 \<noteq> None
          then refuse (uri_taken (the (un_uri r))) d1
          else and_then (db_write (update_namespace_body i now r old) d1) (with_count i))))"
    using assms(1) t by (simp add: Let_def split: option.split)
qed

lemma namespace_delete_tables:
  assumes "P (db_tables d)" "P (snd (delete_namespace_body i (db_tables d)))"
  shows "P (db_tables (snd (namespace_delete i d)))"
  unfolding namespace_delete_def
proof (rule and_then_snd [where P = "\<lambda>d. P (db_tables d)"])
  show "P (db_tables (snd (namespace_findById i d)))" using assms(1) by simp
  fix found d1
  assume f: "namespace_findById i d = (Inr found, d1)"
  have t: "db_tables d1 = db_tables d" using namespace_find_fields(1) [of i d] f by simp
  then show "P (db_tables (snd (if found = None then refuse (not_found_error ''Namespace'' i) d1
      else answer (db_write (delete_namespace_body i) d1))))"
    using assms by (simp add: write_keeps [where P = P])
qed

section \<open>Creating a namespace\<close>

lemma integrity_insert_namespace:
  assumes "integrity t"
  shows "integrity (t\<lparr>t_namespaces := t_namespaces t @ [row]\<rparr>) \<longleftrightarrow>
    ns_id row \<notin> ns_id ` set (t_namespaces t) \<and> ns_name row \<notin> ns_name ` set (t_namespaces t)
    \<and> ns_uri row \<notin> ns_uri ` set (t_namespaces t)"
proof -
  have "notnull_ok (t\<lparr>t_namespaces := t_namespaces t @ [row]\<rparr>)"
    using assms by (simp add: integrity_def notnull_ok_def)
  moreover have "foreign_ok (t\<lparr>t_namespaces := t_namespaces t @ [row]\<rparr>)"
    using assms by (auto simp: integrity_def foreign_ok_def list_all_iff)
  moreover have "unique_ok (t\<lparr>t_namespaces := t_namespaces t @ [row]\<rparr>) \<longleftrightarrow>
      ns_id row \<notin> ns_id ` set (t_namespaces t) \<and> ns_name row \<notin> ns_name ` set (t_namespaces t)
      \<and> ns_uri row \<notin> ns_uri ` set (t_namespaces t)"
    using assms by (auto simp: integrity_def unique_ok_def)
  ultimately show ?thesis by (simp add: integrity_def)
qed

lemma find_snoc: "find P xs = None \<Longrightarrow> P x \<Longrightarrow> find P (xs @ [x]) = Some x"
  by (induction xs) (auto split: if_splits)

lemma find_Some_iff: "find P xs \<noteq> None \<longleftrightarrow> (\<exists>x \<in> set xs. P x)"
  by (simp only: find_None) blast

text \<open>On a database that can be reached, a new namespace whose name is taken is refused with a
  duplicate error for the name, one whose URI is taken with one for the URI; otherwise it is
  stored with no variables unless its id is in use. No other row changes in any case.\<close>

lemma namespace_create_outcome:
  assumes "integrity (db_tables d)" and "db_open d" "db_alive d" "db_accessible d"
  shows "let t = db_tables d; row = new_namespace i now r; (res, d') = namespace_create i now r d
    in if cn_name r \<in> ns_name ` set (t_namespaces t) then
         res = Inr (Inl (name_taken (cn_name r))) \<and> db_tables d' = t
       else if cn_uri r \<in> ns_uri ` set (t_namespaces t) then
         res = Inr (Inl (uri_taken (cn_uri r))) \<and> db_tables d' = t
       else if i \<in> ns_id ` set (t_namespaces t) then
         (\<exists>e. res = Inl (SqlError e)) \<and> db_tables d' = t
       else res = Inr (Inr \<lparr>nsp_row = row, nsp_nodeCount = Some 0\<rparr>)
         \<and> db_tables d' = t\<lparr>t_namespaces := t_namespaces t @ [row]\<rparr> \<and> integrity (db_tables d')"
proof -
  let ?t = "db_tables d" and ?row = "new_namespace i now r"
  let ?t' = "?t\<lparr>t_namespaces := t_namespaces ?t @ [?row]\<rparr>"
  have name: "findByName (cn_name r) d = None \<longleftrightarrow> cn_name r \<notin> ns_name ` set (t_namespaces ?t)"
    using assms(2-4) by (simp only: findByName_def try_select_alive find_None) force
  have uri: "findByUri (cn_uri r) d = None \<longleftrightarrow> cn_uri r \<notin> ns_uri ` set (t_namespaces ?t)"
    using assms(2-4) by (simp only: findByUri_def try_select_alive find_None) force
  have fields: "ns_id ?row = i" "ns_name ?row = cn_name r" "ns_uri ?row = cn_uri r"
    by (simp_all add: new_namespace_def)
  show ?thesis
  proof (cases "cn_name r \<in> ns_name ` set (t_namespaces ?t) \<or> cn_uri r \<in> ns_uri ` set (t_namespaces ?t)")
    case True
    then show ?thesis by (cases "cn_name r \<in> ns_name ` set (t_namespaces ?t)")
      (simp_all add: namespace_create_def Let_def name uri split_beta)
  next
    case False
    then have c: "namespace_create i now r d
        = and_then (db_write (insert_namespace ?row) d)
            (\<lambda>row d1. (Inr (Inr (rowToNamespace row (Some 0))), d1))"
      by (simp add: namespace_create_def name uri)
    have int: "integrity ?t' \<longleftrightarrow> i \<notin> ns_id ` set (t_namespaces ?t)"
      using integrity_insert_namespace [OF assms(1), of ?row] False fields by simp
    obtain x d1 where w: "db_write (insert_namespace ?row) d = (x, d1)"
      by (cases "db_write (insert_namespace ?row) d")
    have w1: "x = fst (insert_namespace ?row ?t)" "db_tables d1 = snd (insert_namespace ?row ?t)"
      using db_write_alive [OF assms(2,3), of "insert_namespace ?row"]
        db_write_tables [of "insert_namespace ?row" d] w assms(2,3) by simp_all
    show ?thesis
    proof (cases "i \<in> ns_id ` set (t_namespaces ?t)")
      case True
      with int have "\<exists>e. insert_namespace ?row ?t = (Inl (SqlError e), ?t)"
        unfolding insert_namespace_def by (intro statement_refused) simp
      with True False w w1 c show ?thesis by (auto simp: Let_def)
    next
      case free: False
      then have "find_namespace i ?t' = Some ?row"
        unfolding find_namespace_def by (simp, intro find_snoc) (auto simp: fields find_None)
      with free int fields have "insert_namespace ?row ?t = (Inr ?row, ?t')"
        unfolding insert_namespace_def by (subst statement_outcome) simp
      with free False w w1 c int show ?thesis
        by (simp add: Let_def rowToNamespace_def)
    qed
  qed
qed

lemma namespace_create_outcome_witness:
  "let r = \<lparr>cn_name = ''Line'', cn_description = None, cn_uri = ''urn:l''\<rparr>;
       (res, d') = namespace_create ''n2'' [] r plant_db
   in res = Inr (Inr \<lparr>nsp_row = new_namespace ''n2'' [] r, nsp_nodeCount = Some 0\<rparr>)
      \<and> integrity (db_tables d')"
proof -
  have d: "integrity (db_tables plant_db)" "db_open plant_db" "db_alive plant_db"
    "db_accessible plant_db"
    by (simp_all add: plant_db_def integrity_def notnull_ok_def unique_ok_def foreign_ok_def
        fresh_tables_def)
  have t: "t_namespaces (db_tables plant_db) = [\<lparr>ns_id = ''ns'', ns_name = ''Plant'',
      ns_description = None, ns_uri = ''urn:p'', ns_created = [], ns_updated = []\<rparr>]"
    by (simp add: plant_db_def)
  show ?thesis
    using namespace_create_outcome [OF d, of "''n2''" "[]"
        "\<lparr>cn_name = ''Line'', cn_description = None, cn_uri = ''urn:l''\<rparr>"]
    by (auto simp: Let_def split_beta t)
qed

section \<open>Deleting a namespace\<close>

text \<open>Containers and variables lie in the namespace of the container they are in.\<close>

definition closed_namespaces :: "tables \<Rightarrow> bool" where
  "closed_namespaces t \<longleftrightarrow>
     list_all (\<lambda>p. list_all (\<lambda>r. on_parent r = Some (on_id p) \<longrightarrow> on_namespace r = on_namespace p)
                     (t_objects t)
                 \<and> list_all (\<lambda>r. nd_object r = Some (on_id p) \<longrightarrow> nd_namespace r = on_namespace p)
                     (t_nodes t))
       (t_objects t)"

text \<open>What deleting a namespace is to do: its rows go, and the mappings of its variables.\<close>

definition without_namespace :: "string \<Rightarrow> tables \<Rightarrow> tables" where
  "without_namespace i t =
     t\<lparr>t_namespaces := filter (\<lambda>r. ns_id r \<noteq> i) (t_namespaces t),
       t_objects := filter (\<lambda>r. on_namespace r \<noteq> i) (t_objects t),
       t_nodes := filter (\<lambda>r. nd_namespace r \<noteq> i) (t_nodes t),
       t_mappings := filter (\<lambda>m. \<not> list_ex (\<lambda>r. nd_namespace r = i \<and> map_nodeId m = Some (nd_id r))
                                  (t_nodes t)) (t_mappings t)\<rparr>"

text \<open>No two containers of the namespace have the same name, wherever they are.\<close>

definition names_within :: "string \<Rightarrow> tables \<Rightarrow> bool" where
  "names_within i t \<longleftrightarrow> distinct (map on_name (filter (\<lambda>r. on_namespace r = i) (t_objects t)))"

lemma drop_within:
  assumes "integrity t" "closed_namespaces t" "names_within i t" "t_objects t0 = t_objects t"
    and "S \<subseteq> set (map on_id (filter (\<lambda>r. on_namespace r = i) (t_objects t)))"
  shows "names_apart (drop_objects (\<lambda>r. on_id r \<in> S) t0)"
proof -
  let ?os = "t_objects t"
  let ?gone = "map on_id (filter (\<lambda>r. on_id r \<in> S) ?os)"
  let ?key = "\<lambda>r. (on_namespace r, clear_ref ?gone (on_parent r), on_name r)"
  have d: "distinct (map on_id ?os)" "distinct (map (\<lambda>r. (on_namespace r, on_parent r, on_name r)) ?os)"
    using assms(1) by (simp_all add: integrity_def unique_ok_def)
  have same: "clear_ref ?gone (on_parent r) = on_parent r" if "r \<in> set ?os" "on_namespace r \<noteq> i" for r
  proof -
    have "p \<notin> set ?gone" if "on_parent r = Some p" for p
      using that \<open>r \<in> set ?os\<close> \<open>on_namespace r \<noteq> i\<close> assms(2,5) d(1)
      by (auto simp: closed_namespaces_def list_all_iff distinct_map dest!: subsetD dest: inj_onD)
    then show ?thesis by (cases "on_parent r") (auto simp: clear_ref_def)
  qed
  have "inj_on ?key (set ?os)"
  proof (rule inj_onI)
    fix r s assume r: "r \<in> set ?os" "s \<in> set ?os" "?key r = ?key s"
    show "r = s"
    proof (cases "on_namespace r = i")
      case True
      with r assms(3) show ?thesis by (auto simp: names_within_def distinct_map dest: inj_onD)
    next
      case False
      with r same have "(on_namespace r, on_parent r, on_name r) = (on_namespace s, on_parent s, on_name s)"
        by simp
      with d(2) r(1,2) show ?thesis unfolding distinct_map by (blast dest: inj_onD)
    qed
  qed
  then have "inj_on ?key (set (filter (\<lambda>r. on_id r \<notin> S) ?os))" by (rule inj_on_subset) auto
  moreover have "distinct ?os" using d(1) by (simp add: distinct_map)
  ultimately have "distinct (map ?key (filter (\<lambda>r. on_id r \<notin> S) ?os))" by (simp add: distinct_map)
  then show ?thesis
    using assms(4) by (simp add: names_apart_def drop_objects_def Let_def o_def)
qed

lemma drop_namespace_closed:
  assumes "integrity t" "closed_namespaces t" "names_within i t"
  shows "drop_namespace i t = Inr (without_namespace i t)"
proof -
  let ?is = "map on_id (filter (\<lambda>r. on_namespace r = i) (t_objects t))"
  let ?t = "drop_nodes (\<lambda>r. nd_namespace r = i)
    (t\<lparr>t_namespaces := filter (\<lambda>r. ns_id r \<noteq> i) (t_namespaces t)\<rparr>)"
  have t: "t_objects ?t = t_objects t" by (simp add: drop_nodes_def Let_def)
  let ?gone = "map on_id (filter (\<lambda>r. on_namespace r = i) (t_objects t))"
  have d: "distinct (map on_id (t_objects t))" using assms(1) by (simp add: integrity_def unique_ok_def)
  have obj: "r\<lparr>on_parent := clear_ref ?gone (on_parent r)\<rparr> = r"
    if "r \<in> set (t_objects t)" "on_namespace r \<noteq> i" for r
  proof -
    have "p \<notin> set ?gone" if "on_parent r = Some p" for p
      using that \<open>r \<in> set (t_objects t)\<close> \<open>on_namespace r \<noteq> i\<close> assms(2)
      by (auto simp: closed_namespaces_def list_all_iff)
    then have "clear_ref ?gone (on_parent r) = on_parent r"
      by (cases "on_parent r") (auto simp: clear_ref_def)
    then show ?thesis by simp
  qed
  have nod: "r\<lparr>nd_object := clear_ref ?gone (nd_object r)\<rparr> = r"
    if "r \<in> set (t_nodes t)" "nd_namespace r \<noteq> i" for r
  proof -
    have "p \<notin> set ?gone" if "nd_object r = Some p" for p
      using that \<open>r \<in> set (t_nodes t)\<close> \<open>nd_namespace r \<noteq> i\<close> assms(2)
      by (auto simp: closed_namespaces_def list_all_iff)
    then have "clear_ref ?gone (nd_object r) = nd_object r"
      by (cases "nd_object r") (auto simp: clear_ref_def)
    then show ?thesis by simp
  qed
  have "map (\<lambda>r. r\<lparr>on_parent := clear_ref ?gone (on_parent r)\<rparr>)
      (filter (\<lambda>r. on_namespace r \<noteq> i) (t_objects t)) = filter (\<lambda>r. on_namespace r \<noteq> i) (t_objects t)"
    "map (\<lambda>r. r\<lparr>nd_object := clear_ref ?gone (nd_object r)\<rparr>)
      (filter (\<lambda>r. nd_namespace r \<noteq> i) (t_nodes t)) = filter (\<lambda>r. nd_namespace r \<noteq> i) (t_nodes t)"
    by (rule map_idI; use obj nod in auto)+
  moreover have "filter (\<lambda>m. \<not> (case map_nodeId m of None \<Rightarrow> False
        | Some j \<Rightarrow> List.member (map nd_id (filter (\<lambda>r. nd_namespace r = i) (t_nodes t))) j)) ms
    = filter (\<lambda>m. \<not> list_ex (\<lambda>r. nd_namespace r = i \<and> map_nodeId m = Some (nd_id r)) (t_nodes t)) ms" for ms :: "mapping list"
    by (rule filter_cong) (auto simp: list_ex_iff split: option.split)
  moreover have "drop_namespace i t = Inr (drop_objects (\<lambda>r. on_id r \<in> set ?is) ?t)"
    unfolding drop_namespace_def using drop_within [OF assms] t by (intro drop_each_ok) auto
  moreover have "filter (\<lambda>r. P (on_id r \<in> set ?is)) (t_objects t) = filter (\<lambda>r. P (on_namespace r = i)) (t_objects t)" for P
    using d by (intro filter_cong refl arg_cong [where f = P]) (auto simp: distinct_map dest: inj_onD)
  note this [of Not] this [of "\<lambda>x. x"]
  ultimately show ?thesis
    by (simp add: drop_objects_def drop_nodes_def without_namespace_def Let_def)
qed

lemma image_restrict:
  "p \<in> f ` A \<Longrightarrow> (\<And>x. x \<in> A \<Longrightarrow> f x = p \<Longrightarrow> P x) \<Longrightarrow> p \<in> f ` {x \<in> A. P x}"
  by auto

lemma ref_ok_iff: "ref_ok r ids \<longleftrightarrow> (\<forall>p. r = Some p \<longrightarrow> p \<in> set ids)"
  by (cases r) simp_all

lemma without_namespace_integrity:
  assumes "integrity t" "closed_namespaces t"
  shows "integrity (without_namespace i t)"
proof -
  let ?t = "without_namespace i t"
  have "notnull_ok ?t" "unique_ok ?t"
    using assms(1)
    by (auto simp: integrity_def notnull_ok_def unique_ok_def without_namespace_def list_all_iff
        distinct_map_filter)
  moreover have "foreign_ok ?t"
  proof -
    have f: "foreign_ok t" using assms(1) by (simp add: integrity_def)
    have row: "x \<in> ns_id ` {n \<in> set (t_namespaces t). ns_id n \<noteq> i} \<and>
        (\<forall>p. parent = Some p \<longrightarrow> p \<in> on_id ` {o' \<in> set (t_objects t). on_namespace o' \<noteq> i})"
      if "x \<noteq> i" "x \<in> ns_id ` set (t_namespaces t)"
        "ref_ok parent (map on_id (t_objects t))"
        "\<And>o'. o' \<in> set (t_objects t) \<Longrightarrow> parent = Some (on_id o') \<Longrightarrow> x = on_namespace o'" for x parent
      using that by (intro conjI allI impI image_restrict) (auto simp: ref_ok_iff)
    have "on_namespace r \<in> ns_id ` {n \<in> set (t_namespaces t). ns_id n \<noteq> i} \<and>
        (\<forall>p. on_parent r = Some p \<longrightarrow> p \<in> on_id ` {o' \<in> set (t_objects t). on_namespace o' \<noteq> i})"
      if "r \<in> set (t_objects t)" "on_namespace r \<noteq> i" for r
      by (rule row) (use that f assms(2) in \<open>simp_all add: foreign_ok_def closed_namespaces_def list_all_iff\<close>)
    moreover have "nd_namespace r \<in> ns_id ` {n \<in> set (t_namespaces t). ns_id n \<noteq> i} \<and>
        (\<forall>p. nd_object r = Some p \<longrightarrow> p \<in> on_id ` {o' \<in> set (t_objects t). on_namespace o' \<noteq> i})"
      if "r \<in> set (t_nodes t)" "nd_namespace r \<noteq> i" for r
      by (rule row) (use that f assms(2) in \<open>simp_all add: foreign_ok_def closed_namespaces_def list_all_iff\<close>)
    moreover have "ref_ok (Some (map_connectionId m)) (map cfg_id (t_connections t))
        \<and> (\<forall>p. map_nodeId m = Some p \<longrightarrow> p \<in> nd_id ` {n \<in> set (t_nodes t). nd_namespace n \<noteq> i})"
      if "m \<in> set (t_mappings ?t)" for m
      using that f
      by (intro conjI allI impI image_restrict)
        (auto simp: foreign_ok_def list_all_iff list_ex_iff without_namespace_def ref_ok_iff)
    ultimately show ?thesis
      by (auto simp: foreign_ok_def list_all_iff without_namespace_def ref_ok_iff)
  qed
  ultimately show ?thesis by (simp add: integrity_def)
qed

text \<open>On a database that can be reached and whose containers lie in the namespaces of the
  containers they are in, deleting a namespace without two containers of the same name succeeds:
  the namespace goes with its containers, its variables and their mappings, and every other row
  stays as it is.\<close>

lemma namespace_delete_cascades:
  assumes "integrity (db_tables d)" and "closed_namespaces (db_tables d)"
    and "names_within i (db_tables d)" and "db_open d" "db_alive d" and "i \<in> ns_id ` set (t_namespaces (db_tables d))"
  shows "let (res, d') = namespace_delete i d
    in res = Inr (Inr ()) \<and> db_tables d' = without_namespace i (db_tables d)
       \<and> integrity (db_tables d')"
proof -
  let ?t = "db_tables d"
  obtain x d1 where f: "namespace_findById i d = (x, d1)" by (cases "namespace_findById i d")
  have d1: "db_tables d1 = ?t" "db_open d1" "db_alive d1"
    using namespace_find_fields(1-3) [of i d] f assms(4,5) by simp_all
  from assms(6) have "find_namespace i ?t \<noteq> None"
    unfolding find_namespace_def find_Some_iff by auto
  then obtain row where "x = Inr (Some row)"
    using namespace_find_alive [OF assms(4,5), of i] f by auto
  then have n: "namespace_delete i d = answer (db_write (delete_namespace_body i) d1)"
    using f by (simp add: namespace_delete_def)
  have int: "integrity (without_namespace i ?t)"
    using assms(1,2) by (simp add: without_namespace_integrity)
  then have "delete_namespace_body i ?t = (Inr (), without_namespace i ?t)"
    using assms(1-3) by (simp add: delete_namespace_body_def execute_ok drop_namespace_closed)
  with int d1 show ?thesis
    by (simp add: n split_beta Let_def db_write_tables db_write_alive)
qed

lemma namespace_delete_cascades_witness:
  "fst (namespace_delete ''ns'' plant_db) = Inr (Inr ())
   \<and> t_namespaces (db_tables (snd (namespace_delete ''ns'' plant_db))) = []"
proof -
  have d: "integrity (db_tables plant_db)" "closed_namespaces (db_tables plant_db)"
    "names_within ''ns'' (db_tables plant_db)" "db_open plant_db" "db_alive plant_db" "''ns'' \<in> ns_id ` set (t_namespaces (db_tables plant_db))"
    by (simp_all add: plant_db_def integrity_def notnull_ok_def unique_ok_def foreign_ok_def
        fresh_tables_def closed_namespaces_def names_within_def)
  from namespace_delete_cascades [OF d] show ?thesis
    by (simp add: Let_def split_beta without_namespace_def) (simp add: plant_db_def)
qed

text \<open>
  With two of the same name it may fail: here a container \<open>X\<close> stands in another container and a
  second \<open>X\<close> at the top. When the container they differ by is deleted, both are at the top for a
  moment, and the statement fails. Nothing is deleted, and the error is thrown.
\<close>

definition same_names_db :: database where
  "same_names_db = plant_db\<lparr>db_tables := (db_tables plant_db)\<lparr>t_objects :=
     [\<lparr>on_id = ''b'', on_namespace = ''ns'', on_parent = None, on_name = ''B'', on_created = []\<rparr>,
      \<lparr>on_id = ''x1'', on_namespace = ''ns'', on_parent = Some ''b'', on_name = ''X'', on_created = []\<rparr>,
      \<lparr>on_id = ''x2'', on_namespace = ''ns'', on_parent = None, on_name = ''X'', on_created = []\<rparr>]\<rparr>\<rparr>"

lemma namespace_delete_fails:
  "integrity (db_tables same_names_db)"
  "case namespace_delete ''ns'' same_names_db of
     (res, d) \<Rightarrow> res = Inl (SqlError UniqueFailed) \<and> db_tables d = db_tables same_names_db"
  by code_simp+

end
