(* ===== verification/ConnectorRepository.thy ===== *)
theory ConnectorRepository
  imports Namespaces
begin

text \<open>
  \<open>src/db/repositories/connector-repository.ts\<close>: the connections to devices and the mappings of
  device addresses to variables. Version 5 of the schema has no constraint that a variable has
  one mapping at most; the checks here are what keeps it so.
\<close>

section \<open>Requests and refusals\<close>

record create_connection_request =
  cc_type :: string
  cc_name :: string
  cc_params :: "(string \<times> jsval) list"
  cc_polling :: "int option"
  cc_reconnect :: "int option"
  cc_enabled :: "bool option"

record update_connection_request =
  uc_name :: "string option"
  uc_params :: "jsval option"
  uc_polling :: "int option"
  uc_reconnect :: "int option"
  uc_enabled :: "bool option"

record create_mapping_request =
  cm_connectionId :: string
  cm_nodeId :: "string option"
  cm_deviceAddress :: string
  cm_description :: "string option"

text \<open>\<open>Some None\<close> is a node id of \<open>null\<close>.\<close>

record update_mapping_request =
  um_deviceAddress :: "string option"
  um_nodeId :: "string option option"
  um_description :: "string option"

definition no_connection :: "string \<Rightarrow> domain_error" where
  "no_connection i =
     \<lparr>de_code = ''NOT_FOUND'', de_message = ''Connection with id '' @ dquoted i @ '' not found'',
      de_details = [(''connectionId'', ''Connection '' @ dquoted i @ '' does not exist'')]\<rparr>"

definition no_node :: "string \<Rightarrow> domain_error" where
  "no_node i =
     \<lparr>de_code = ''NOT_FOUND'', de_message = ''Node with id '' @ dquoted i @ '' not found'',
      de_details = [(''nodeId'', ''Node '' @ dquoted i @ '' does not exist'')]\<rparr>"

definition node_mapped :: "string \<Rightarrow> (string \<times> string) list \<Rightarrow> domain_error" where
  "node_mapped i details =
     \<lparr>de_code = ''DUPLICATE_ERROR'',
      de_message = ''Node '' @ dquoted i @ '' already has a mapping'', de_details = details\<rparr>"

definition address_mapped :: "string \<Rightarrow> string \<Rightarrow> domain_error" where
  "address_mapped a c =
     \<lparr>de_code = ''DUPLICATE_ERROR'',
      de_message = ''Device address '' @ dquoted a @ '' is already mapped in connection '' @ dquoted c,
      de_details = [(''deviceAddress'',
        ''Device address '' @ dquoted a @ '' is already in use for this connection'')]\<rparr>"

definition address_taken :: "string \<Rightarrow> domain_error" where
  "address_taken a =
     \<lparr>de_code = ''DUPLICATE_ERROR'',
      de_message = ''Device address '' @ dquoted a @ '' is already mapped in this connection'',
      de_details = []\<rparr>"

section \<open>Queries\<close>

definition all_connections_query :: query where
  "all_connections_query t = map CConnection (sort_key cfg_name (t_connections t))"

definition type_connections_query :: "string \<Rightarrow> query" where
  "type_connections_query ty t =
     map CConnection (sort_key cfg_name (filter (\<lambda>c. cfg_type c = ty) (t_connections t)))"

definition find_connection :: "string \<Rightarrow> tables \<Rightarrow> connection_config option" where
  "find_connection i t = find (\<lambda>c. cfg_id c = i) (t_connections t)"

definition connection_query :: "string \<Rightarrow> query" where
  "connection_query i t =
     (case find_connection i t of None \<Rightarrow> [] | Some c \<Rightarrow> [CConnection c])"

definition all_mappings_query :: query where
  "all_mappings_query t =
     map CMapping (sort_key map_connectionId (sort_key map_deviceAddress (t_mappings t)))"

definition connection_mappings_query :: "string \<Rightarrow> query" where
  "connection_mappings_query c t =
     map CMapping (sort_key map_deviceAddress (filter (\<lambda>m. map_connectionId m = c) (t_mappings t)))"

definition find_row :: "string \<Rightarrow> tables \<Rightarrow> mapping option" where
  "find_row i t = find (\<lambda>m. map_id m = i) (t_mappings t)"

definition mapping_query :: "string \<Rightarrow> query" where
  "mapping_query i t = (case find_row i t of None \<Rightarrow> [] | Some m \<Rightarrow> [CMapping m])"

definition findAllConnections :: "string option \<Rightarrow> database \<Rightarrow> (db_error + cached list) \<times> database" where
  "findAllConnections ty d =
     (if truthy_str ty
      then readWithCache (''connections:type:'' @ the ty) (type_connections_query (the ty)) d
      else readWithCache ''connections'' all_connections_query d)"

fun as_connection :: "cached option \<Rightarrow> connection_config option" where
  "as_connection (Some (CConnection c)) = Some c"
| "as_connection _ = None"

definition findConnectionById ::
  "string \<Rightarrow> database \<Rightarrow> (db_error + connection_config option) \<times> database" where
  "findConnectionById i d =
     (let (r, d1) = readWithCache (''connection:'' @ i) (connection_query i) d
      in (map_sum id as_connection (first_of r), d1))"

definition findAllMappings :: "string option \<Rightarrow> database \<Rightarrow> (db_error + cached list) \<times> database" where
  "findAllMappings c d =
     (if truthy_str c
      then readWithCache (''mappings:connection:'' @ the c) (connection_mappings_query (the c)) d
      else readWithCache ''mappings'' all_mappings_query d)"

fun as_mapping :: "cached option \<Rightarrow> mapping option" where
  "as_mapping (Some (CMapping m)) = Some m"
| "as_mapping _ = None"

definition findMappingById :: "string \<Rightarrow> database \<Rightarrow> (db_error + mapping option) \<times> database" where
  "findMappingById i d =
     (let (r, d1) = readWithCache (''mapping:'' @ i) (mapping_query i) d
      in (map_sum id as_mapping (first_of r), d1))"

text \<open>The look-ups that swallow errors.\<close>

definition nodeExists :: "string \<Rightarrow> database \<Rightarrow> bool" where
  "nodeExists i d \<longleftrightarrow> try_select (\<lambda>t. find (\<lambda>r. nd_id r = i) (t_nodes t)) d \<noteq> None"

definition findMappingByNodeId :: "string \<Rightarrow> database \<Rightarrow> mapping option" where
  "findMappingByNodeId i = try_select (\<lambda>t. find (\<lambda>m. map_nodeId m = Some i) (t_mappings t))"

definition findMappingByConnectionAndAddress :: "string \<Rightarrow> string \<Rightarrow> database \<Rightarrow> mapping option" where
  "findMappingByConnectionAndAddress c a =
     try_select (\<lambda>t. find (\<lambda>m. map_connectionId m = c \<and> map_deviceAddress m = a) (t_mappings t))"

section \<open>Connections\<close>

text \<open>Parameters are stored as JSON text and parsed when they are read.\<close>

definition new_connection :: "string \<Rightarrow> string \<Rightarrow> create_connection_request \<Rightarrow> connection_config" where
  "new_connection i now r =
     \<lparr>cfg_id = i, cfg_type = cc_type r, cfg_name = cc_name r, cfg_params = json_copy (JObj (cc_params r)),
      cfg_pollingIntervalMs = upd (cc_polling r) 1000,
      cfg_reconnectIntervalMs = upd (cc_reconnect r) 5000,
      cfg_enabled = upd (cc_enabled r) True, cfg_createdAt = now\<rparr>"

definition insert_connection ::
  "connection_config \<Rightarrow> tables \<Rightarrow> (db_error + connection_config) \<times> tables" where
  "insert_connection c =
     statement (\<lambda>t. t\<lparr>t_connections := t_connections t @ [c]\<rparr>) (find_connection (cfg_id c))"

definition createConnection ::
  "string \<Rightarrow> string \<Rightarrow> create_connection_request \<Rightarrow> database \<Rightarrow> connection_config answer" where
  "createConnection i now r d = answer (db_write (insert_connection (new_connection i now r)) d)"

definition set_connection ::
  "update_connection_request \<Rightarrow> connection_config \<Rightarrow> connection_config" where
  "set_connection r c =
     c\<lparr>cfg_name := upd (uc_name r) (cfg_name c),
       cfg_params := upd (map_option json_copy (uc_params r)) (cfg_params c),
       cfg_pollingIntervalMs := upd (uc_polling r) (cfg_pollingIntervalMs c),
       cfg_reconnectIntervalMs := upd (uc_reconnect r) (cfg_reconnectIntervalMs c),
       cfg_enabled := upd (uc_enabled r) (cfg_enabled c)\<rparr>"

text \<open>Without a field to set no statement runs; setting none leaves the row as it is.\<close>

definition update_connection_body ::
  "string \<Rightarrow> update_connection_request \<Rightarrow> tables \<Rightarrow> (db_error + connection_config) \<times> tables" where
  "update_connection_body i r =
     statement
       (\<lambda>t. t\<lparr>t_connections :=
          update_rows (\<lambda>c. cfg_id c = i) (set_connection r) (t_connections t)\<rparr>)
       (find_connection i)"

definition repo_updateConnection ::
  "string \<Rightarrow> update_connection_request \<Rightarrow> database \<Rightarrow> connection_config answer" where
  "repo_updateConnection i r d =
     and_then (findConnectionById i d) (\<lambda>found d1.
       if found = None then refuse (not_found_error ''Connection'' i) d1
       else answer (db_write (update_connection_body i r) d1))"

definition delete_connection_body :: "string \<Rightarrow> tables \<Rightarrow> (db_error + unit) \<times> tables" where
  "delete_connection_body i = execute (drop_connection i)"

definition deleteConnection :: "string \<Rightarrow> database \<Rightarrow> unit answer" where
  "deleteConnection i d =
     and_then (findConnectionById i d) (\<lambda>found d1.
       if found = None then refuse (not_found_error ''Connection'' i) d1
       else answer (db_write (delete_connection_body i) d1))"

section \<open>Mappings\<close>

definition new_mapping :: "string \<Rightarrow> string \<Rightarrow> create_mapping_request \<Rightarrow> mapping" where
  "new_mapping i now r =
     \<lparr>map_id = i, map_connectionId = cm_connectionId r, map_nodeId = cm_nodeId r,
      map_deviceAddress = cm_deviceAddress r, map_description = cm_description r,
      map_createdAt = now\<rparr>"

definition insert_mapping :: "mapping \<Rightarrow> tables \<Rightarrow> (db_error + mapping) \<times> tables" where
  "insert_mapping m =
     statement (\<lambda>t. t\<lparr>t_mappings := t_mappings t @ [m]\<rparr>) (find_row (map_id m))"

text \<open>The checks on the node, in the order of the code; \<open>None\<close> if it may be mapped.\<close>

definition node_refusal :: "string option \<Rightarrow> database \<Rightarrow> domain_error option" where
  "node_refusal node d =
     (if truthy_str node then
        (let n = the node in
         if \<not> nodeExists n d then Some (no_node n)
         else if findMappingByNodeId n d \<noteq> None then
           Some (node_mapped n [(''nodeId'',
             ''Node '' @ dquoted n @ '' is already mapped to a device address'')])
         else None)
      else None)"

definition createMapping ::
  "string \<Rightarrow> string \<Rightarrow> create_mapping_request \<Rightarrow> database \<Rightarrow> mapping answer" where
  "createMapping i now r d =
     and_then (findConnectionById (cm_connectionId r) d) (\<lambda>found d1.
       if found = None then refuse (no_connection (cm_connectionId r)) d1
       else (case node_refusal (cm_nodeId r) d1 of
               Some e \<Rightarrow> refuse e d1
             | None \<Rightarrow>
                 if findMappingByConnectionAndAddress (cm_connectionId r) (cm_deviceAddress r) d1 \<noteq> None
                 then refuse (address_mapped (cm_deviceAddress r) (cm_connectionId r)) d1
                 else answer (db_write (insert_mapping (new_mapping i now r)) d1)))"

definition set_mapping :: "update_mapping_request \<Rightarrow> mapping \<Rightarrow> mapping" where
  "set_mapping r m =
     m\<lparr>map_nodeId := upd (um_nodeId r) (map_nodeId m),
       map_deviceAddress := upd (um_deviceAddress r) (map_deviceAddress m),
       map_description := (case um_description r of None \<Rightarrow> map_description m | x \<Rightarrow> x)\<rparr>"

definition update_mapping_body ::
  "string \<Rightarrow> update_mapping_request \<Rightarrow> tables \<Rightarrow> (db_error + mapping) \<times> tables" where
  "update_mapping_body i r =
     statement
       (\<lambda>t. t\<lparr>t_mappings := update_rows (\<lambda>m. map_id m = i) (set_mapping r) (t_mappings t)\<rparr>)
       (find_row i)"

text \<open>The checks of \<open>updateMapping\<close>; a look-up that finds the mapping itself is no conflict.\<close>

definition another :: "string \<Rightarrow> mapping option \<Rightarrow> bool" where
  "another i m \<longleftrightarrow> (case m of None \<Rightarrow> False | Some x \<Rightarrow> map_id x \<noteq> i)"

definition new_node_refusal ::
  "string \<Rightarrow> update_mapping_request \<Rightarrow> mapping \<Rightarrow> database \<Rightarrow> domain_error option" where
  "new_node_refusal i r existing d =
     (case um_nodeId r of
        Some (Some n) \<Rightarrow>
          if n \<noteq> [] \<and> Some n \<noteq> map_nodeId existing then
            (if \<not> nodeExists n d then Some (no_node n)
             else if another i (findMappingByNodeId n d) then Some (node_mapped n [])
             else None)
          else None
      | _ \<Rightarrow> None)"

definition new_address_refusal ::
  "string \<Rightarrow> update_mapping_request \<Rightarrow> mapping \<Rightarrow> database \<Rightarrow> domain_error option" where
  "new_address_refusal i r existing d =
     (if changes (um_deviceAddress r) (map_deviceAddress existing)
        \<and> another i (findMappingByConnectionAndAddress (map_connectionId existing)
                        (the (um_deviceAddress r)) d)
      then Some (address_taken (the (um_deviceAddress r)))
      else None)"

definition updateMapping ::
  "string \<Rightarrow> update_mapping_request \<Rightarrow> database \<Rightarrow> mapping answer" where
  "updateMapping i r d =
     and_then (findMappingById i d) (\<lambda>found d1.
       case found of
         None \<Rightarrow> refuse (not_found_error ''Mapping'' i) d1
       | Some existing \<Rightarrow>
           (case new_node_refusal i r existing d1 of
              Some e \<Rightarrow> refuse e d1
            | None \<Rightarrow>
                (case new_address_refusal i r existing d1 of
                   Some e \<Rightarrow> refuse e d1
                 | None \<Rightarrow> answer (db_write (update_mapping_body i r) d1))))"

definition delete_mapping_body :: "string \<Rightarrow> tables \<Rightarrow> (db_error + unit) \<times> tables" where
  "delete_mapping_body i =
     execute (\<lambda>t. t\<lparr>t_mappings := filter (\<lambda>m. map_id m \<noteq> i) (t_mappings t)\<rparr>)"

definition deleteMapping :: "string \<Rightarrow> database \<Rightarrow> unit answer" where
  "deleteMapping i d =
     and_then (findMappingById i d) (\<lambda>found d1.
       if found = None then refuse (not_found_error ''Mapping'' i) d1
       else answer (db_write (delete_mapping_body i) d1))"

text \<open>Many mappings; each request comes with the id and the time its row is given.\<close>

record bulk_result =
  bk_created :: "mapping list"
  bk_errors :: "(nat \<times> domain_error) list"

fun bulk_loop ::
  "nat \<Rightarrow> (string \<times> string \<times> create_mapping_request) list \<Rightarrow> bulk_result \<Rightarrow> database
     \<Rightarrow> (db_error + bulk_result) \<times> database" where
  "bulk_loop n [] res d = (Inr res, d)"
| "bulk_loop n ((i, now, r) # rs) res d =
     and_then (createMapping i now r d) (\<lambda>x d1.
       case x of
         Inl e \<Rightarrow> bulk_loop (Suc n) rs (res\<lparr>bk_errors := bk_errors res @ [(n, e)]\<rparr>) d1
       | Inr m \<Rightarrow> bulk_loop (Suc n) rs (res\<lparr>bk_created := bk_created res @ [m]\<rparr>) d1)"

definition createMappingsBulk ::
  "(string \<times> string \<times> create_mapping_request) list \<Rightarrow> database
     \<Rightarrow> (db_error + bulk_result) \<times> database" where
  "createMappingsBulk rs d = bulk_loop 0 rs \<lparr>bk_created = [], bk_errors = []\<rparr> d"

section \<open>What the operations do to the tables\<close>

lemma connection_find_fields [simp]:
  "db_tables (snd (findConnectionById i d)) = db_tables d"
  "db_open (snd (findConnectionById i d)) = db_open d"
  "db_alive (snd (findConnectionById i d)) = db_alive d"
  "db_accessible (snd (findConnectionById i d)) = (db_open d \<and> db_alive d)"
  by (simp_all add: findConnectionById_def split_beta)

lemma mapping_find_fields [simp]:
  "db_tables (snd (findMappingById i d)) = db_tables d"
  "db_open (snd (findMappingById i d)) = db_open d"
  "db_alive (snd (findMappingById i d)) = db_alive d"
  "db_accessible (snd (findMappingById i d)) = (db_open d \<and> db_alive d)"
  by (simp_all add: findMappingById_def split_beta)

lemma connection_find_alive:
  "db_open d \<Longrightarrow> db_alive d \<Longrightarrow>
    fst (findConnectionById i d) = Inr (find_connection i (db_tables d))"
  by (auto simp: findConnectionById_def split_beta read_alive connection_query_def first_of_def
      split: option.split)

lemma mapping_find_alive:
  "db_open d \<Longrightarrow> db_alive d \<Longrightarrow> fst (findMappingById i d) = Inr (find_row i (db_tables d))"
  by (auto simp: findMappingById_def split_beta read_alive mapping_query_def first_of_def
      split: option.split)

text \<open>
  A write that runs is preceded by a look-up, which found the database alive, so that the
  checks in between saw the tables.
\<close>

lemma after_find:
  assumes "P (db_tables d)" and r: "db_tables (snd r) = db_tables d"
    "db_open (snd r) = db_open d" "db_alive (snd r) = db_alive d"
    "db_accessible (snd r) = (db_open d \<and> db_alive d)"
    and step: "\<And>x d1. fst r = Inr x \<Longrightarrow> db_tables d1 = db_tables d \<Longrightarrow> db_open d1 = db_open d \<Longrightarrow>
      db_alive d1 = db_alive d \<Longrightarrow> db_accessible d1 = (db_open d \<and> db_alive d) \<Longrightarrow>
      P (db_tables (snd (f x d1)))"
  shows "P (db_tables (snd (and_then r f)))"
  by (rule and_then_snd [where P = "\<lambda>d. P (db_tables d)"]) (use assms in auto)

lemma write_if_alive:
  assumes "P (db_tables d)"
    and "db_open d \<Longrightarrow> db_alive d \<Longrightarrow> P (snd (f (db_tables d)))"
  shows "P (db_tables (snd (db_write f d)))"
  using assms by (simp add: db_write_tables)

lemma createConnection_tables:
  "P (db_tables d) \<Longrightarrow> P (snd (insert_connection (new_connection i now r) (db_tables d))) \<Longrightarrow>
    P (db_tables (snd (createConnection i now r d)))"
  by (simp add: createConnection_def write_if_alive)

lemma updateConnection_tables:
  assumes "P (db_tables d)" "P (snd (update_connection_body i r (db_tables d)))"
  shows "P (db_tables (snd (repo_updateConnection i r d)))"
  unfolding repo_updateConnection_def
  by (rule after_find) (use assms in \<open>auto intro: write_if_alive\<close>)

lemma deleteConnection_tables:
  assumes "P (db_tables d)" "P (snd (delete_connection_body i (db_tables d)))"
  shows "P (db_tables (snd (deleteConnection i d)))"
  unfolding deleteConnection_def
  by (rule after_find) (use assms in \<open>auto intro: write_if_alive\<close>)

lemma deleteMapping_tables:
  assumes "P (db_tables d)" "P (snd (delete_mapping_body i (db_tables d)))"
  shows "P (db_tables (snd (deleteMapping i d)))"
  unfolding deleteMapping_def
  by (rule after_find) (use assms in \<open>auto intro: write_if_alive\<close>)

text \<open>A mapping is stored only if nothing speaks against its node.\<close>

definition node_free :: "tables \<Rightarrow> string option \<Rightarrow> bool" where
  "node_free t node \<longleftrightarrow>
     (truthy_str node \<longrightarrow> list_all (\<lambda>m. map_nodeId m \<noteq> node) (t_mappings t))"

lemma node_refusal_alive:
  assumes "db_open d" "db_alive d" "db_accessible d" "node_refusal node d = None"
  shows "node_free (db_tables d) node"
proof (cases node)
  case (Some n)
  with assms show ?thesis
    by (auto simp: node_free_def node_refusal_def Let_def findMappingByNodeId_def try_select_alive
        find_None list_all_iff split: if_splits)
qed (simp add: node_free_def truthy_str_def)

lemma createMapping_tables:
  assumes "P (db_tables d)"
    and "node_free (db_tables d) (cm_nodeId r) \<Longrightarrow>
      P (snd (insert_mapping (new_mapping i now r) (db_tables d)))"
  shows "P (db_tables (snd (createMapping i now r d)))"
  unfolding createMapping_def
proof (rule after_find)
  fix found and d1 :: database
  assume d1: "db_tables d1 = db_tables d" "db_open d1 = db_open d" "db_alive d1 = db_alive d"
    "db_accessible d1 = (db_open d \<and> db_alive d)"
  have "P (db_tables (snd (db_write (insert_mapping (new_mapping i now r)) d1)))"
    if "node_refusal (cm_nodeId r) d1 = None"
  proof (rule write_if_alive)
    assume "db_open d1" "db_alive d1"
    with that d1 have "node_free (db_tables d) (cm_nodeId r)"
      using node_refusal_alive [of d1 "cm_nodeId r"] by simp
    with assms(2) d1 show "P (snd (insert_mapping (new_mapping i now r) (db_tables d1)))" by simp
  qed (use assms(1) d1 in simp)
  then show "P (db_tables (snd (if found = None then refuse (no_connection (cm_connectionId r)) d1
       else (case node_refusal (cm_nodeId r) d1 of
               Some e \<Rightarrow> refuse e d1
             | None \<Rightarrow>
                 if findMappingByConnectionAndAddress (cm_connectionId r) (cm_deviceAddress r) d1 \<noteq> None
                 then refuse (address_mapped (cm_deviceAddress r) (cm_connectionId r)) d1
                 else answer (db_write (insert_mapping (new_mapping i now r)) d1)))))"
    using assms(1) d1(1) by (cases "node_refusal (cm_nodeId r) d1") simp_all
qed (use assms(1) in simp_all)

definition new_node_free :: "tables \<Rightarrow> string \<Rightarrow> update_mapping_request \<Rightarrow> bool" where
  "new_node_free t i r \<longleftrightarrow>
     (case um_nodeId r of
        Some (Some n) \<Rightarrow>
          n \<noteq> [] \<and> (\<forall>e. find_row i t = Some e \<longrightarrow> map_nodeId e \<noteq> Some n) \<longrightarrow>
            \<not> another i (find (\<lambda>m. map_nodeId m = Some n) (t_mappings t))
      | _ \<Rightarrow> True)"

lemma updateMapping_tables:
  assumes "P (db_tables d)"
    and "new_node_free (db_tables d) i r \<Longrightarrow> P (snd (update_mapping_body i r (db_tables d)))"
  shows "P (db_tables (snd (updateMapping i r d)))"
  unfolding updateMapping_def
proof (rule after_find)
  fix found and d1 :: database
  assume f: "fst (findMappingById i d) = Inr found"
    and d1: "db_tables d1 = db_tables d" "db_open d1 = db_open d" "db_alive d1 = db_alive d"
      "db_accessible d1 = (db_open d \<and> db_alive d)"
  have "P (db_tables (snd (db_write (update_mapping_body i r) d1)))"
    if e: "found = Some existing" "new_node_refusal i r existing d1 = None" for existing
  proof (rule write_if_alive)
    assume alive: "db_open d1" "db_alive d1"
    with d1 f e(1) have "find_row i (db_tables d) = Some existing"
      using mapping_find_alive [of d i] by simp
    with e(2) alive d1 have "new_node_free (db_tables d) i r"
      by (auto simp: new_node_free_def new_node_refusal_def findMappingByNodeId_def
          try_select_alive split: option.splits if_splits)
    with assms(2) d1 show "P (snd (update_mapping_body i r (db_tables d1)))" by simp
  qed (use assms(1) d1 in simp)
  with assms(1) d1 show "P (db_tables (snd (case found of
         None \<Rightarrow> refuse (not_found_error ''Mapping'' i) d1
       | Some existing \<Rightarrow>
           (case new_node_refusal i r existing d1 of
              Some e \<Rightarrow> refuse e d1
            | None \<Rightarrow>
                (case new_address_refusal i r existing d1 of
                   Some e \<Rightarrow> refuse e d1
                 | None \<Rightarrow> answer (db_write (update_mapping_body i r) d1))))))"
    by (auto split: option.split)
qed (use assms(1) in simp_all)

lemma bulk_loop_tables:
  assumes "\<And>i now r d. P (db_tables d) \<Longrightarrow> P (db_tables (snd (createMapping i now r d)))"
  shows "P (db_tables d) \<Longrightarrow> P (db_tables (snd (bulk_loop n rs res d)))"
proof (induction rs arbitrary: n res d)
  case (Cons q rs)
  obtain i now r where q: "q = (i, now, r)" by (cases q)
  show ?case
    unfolding q bulk_loop.simps
  proof (rule and_then_snd [where P = "\<lambda>d. P (db_tables d)"])
    show "P (db_tables (snd (createMapping i now r d)))" by (rule assms [OF Cons.prems])
    fix x and d1 :: database assume "P (db_tables d1)"
    from Cons.IH [OF this] show "P (db_tables (snd (case x of
         Inl e \<Rightarrow> bulk_loop (Suc n) rs (res\<lparr>bk_errors := bk_errors res @ [(n, e)]\<rparr>) d1
       | Inr m \<Rightarrow> bulk_loop (Suc n) rs (res\<lparr>bk_created := bk_created res @ [m]\<rparr>) d1)))"
      by (cases x) simp_all
  qed
qed simp

section \<open>One mapping per variable\<close>

definition single_mapping :: "tables \<Rightarrow> bool" where
  "single_mapping t \<longleftrightarrow>
     list_all (\<lambda>m. list_all (\<lambda>m'. map_nodeId m \<noteq> None \<and> map_nodeId m = map_nodeId m'
                                  \<longrightarrow> map_id m = map_id m') (t_mappings t)) (t_mappings t)
     \<and> \<not> List.member (map nd_id (t_nodes t)) []"

lemma single_mapping_execute:
  "single_mapping t \<Longrightarrow> (integrity (f t) \<Longrightarrow> single_mapping (f t)) \<Longrightarrow>
    single_mapping (snd (execute f t))"
  by (auto simp: execute_def checked_Inr split: sum.split)

lemma mapping_node_ref:
  "integrity t \<Longrightarrow> m \<in> set (t_mappings t) \<Longrightarrow> map_nodeId m = Some n \<Longrightarrow> n \<in> nd_id ` set (t_nodes t)"
  by (auto simp: integrity_def foreign_ok_def list_all_iff ref_ok_iff)

lemma single_mappingD:
  assumes "single_mapping t" "m \<in> set (t_mappings t)" "m' \<in> set (t_mappings t)"
    and "map_nodeId m = Some n" "map_nodeId m' = Some n"
  shows "map_id m = map_id m'"
  using assms unfolding single_mapping_def list_all_iff by fastforce

lemma single_mappingI:
  assumes "\<And>m m' n. m \<in> set (t_mappings t) \<Longrightarrow> m' \<in> set (t_mappings t) \<Longrightarrow>
      map_nodeId m = Some n \<Longrightarrow> map_nodeId m' = Some n \<Longrightarrow> map_id m = map_id m'"
    and "[] \<notin> nd_id ` set (t_nodes t)"
  shows "single_mapping t"
  using assms unfolding single_mapping_def list_all_iff by fastforce

lemma single_mapping_ids: "single_mapping t \<Longrightarrow> [] \<notin> nd_id ` set (t_nodes t)"
  by (simp add: single_mapping_def)

lemma single_mapping_fewer:
  assumes "single_mapping t" "set (t_mappings t') \<subseteq> set (t_mappings t)" "[] \<notin> nd_id ` set (t_nodes t')"
  shows "single_mapping t'"
  by (rule single_mappingI)
    (use assms(2,3) single_mappingD [OF assms(1)] in \<open>blast+\<close>)

lemma single_mapping_insert:
  assumes "single_mapping t" "node_free t (map_nodeId m)"
  shows "single_mapping (snd (insert_mapping m t))"
  unfolding insert_mapping_def statement_tables
proof (rule single_mapping_execute [OF assms(1)])
  let ?t = "t\<lparr>t_mappings := t_mappings t @ [m]\<rparr>"
  assume int: "integrity ?t"
  have free: "map_nodeId m' \<noteq> Some n" if "map_nodeId m = Some n" "m' \<in> set (t_mappings t)" for m' n
  proof -
    have "n \<noteq> []"
      using mapping_node_ref [OF int, of m n] that(1) single_mapping_ids [OF assms(1)] by force
    with assms(2) that show ?thesis by (auto simp: node_free_def list_all_iff)
  qed
  show "single_mapping ?t"
  proof (rule single_mappingI)
    fix x y n
    assume "x \<in> set (t_mappings ?t)" "y \<in> set (t_mappings ?t)"
      "map_nodeId x = Some n" "map_nodeId y = Some n"
    with free [of n x] free [of n y] single_mappingD [OF assms(1), of x y n] show "map_id x = map_id y"
      by auto
  qed (use single_mapping_ids [OF assms(1)] in simp)
qed

lemma single_mapping_update:
  assumes s: "single_mapping t" and int: "integrity t" and free: "new_node_free t i r"
  shows "single_mapping (snd (update_mapping_body i r t))"
  unfolding update_mapping_body_def statement_tables
proof (rule single_mapping_execute [OF s])
  let ?t = "t\<lparr>t_mappings := update_rows (\<lambda>m. map_id m = i) (set_mapping r) (t_mappings t)\<rparr>"
  assume int': "integrity ?t"
  have d: "distinct (map map_id (t_mappings t))" using int by (simp add: integrity_def unique_ok_def)
  have keep: "map_id (set_mapping r m) = map_id m" for m by (simp add: set_mapping_def)
  have node: "map_id m' = i"
    if m: "m \<in> set (t_mappings t)" "map_id m = i" and m': "m' \<in> set (t_mappings t)"
      and n: "map_nodeId (set_mapping r m) = Some n" "map_nodeId m' = Some n" for m m' n
  proof (cases "map_nodeId m = Some n")
    case True
    with single_mappingD [OF s m(1) m' True n(2)] m(2) show ?thesis by simp
  next
    case False
    with n(1) have r: "um_nodeId r = Some (Some n)"
      by (cases "um_nodeId r") (simp_all add: set_mapping_def upd_def)
    have "n \<noteq> []" using mapping_node_ref [OF int m' n(2)] single_mapping_ids [OF s] by metis
    moreover have "find_row i t = Some m"
      unfolding find_row_def by (rule find_by_key [OF d m])
    ultimately have "\<not> another i (find (\<lambda>m. map_nodeId m = Some n) (t_mappings t))"
      using free r False by (simp add: new_node_free_def)
    moreover have "find (\<lambda>m. map_nodeId m = Some n) (t_mappings t) \<noteq> None"
      unfolding find_None using m' n(2) by blast
    ultimately obtain y where y: "find (\<lambda>m. map_nodeId m = Some n) (t_mappings t) = Some y"
      "map_id y = i" by (auto simp: another_def)
    from find_SomeD [OF y(1)] have "y \<in> set (t_mappings t)" "map_nodeId y = Some n" by simp_all
    from single_mappingD [OF s this(1) m' this(2) n(2)] y(2) show ?thesis by simp
  qed
  show "single_mapping ?t"
  proof (rule single_mappingI)
    fix x y n
    assume x: "x \<in> set (t_mappings ?t)" "map_nodeId x = Some n"
      and y: "y \<in> set (t_mappings ?t)" "map_nodeId y = Some n"
    from x(1) obtain x0 where x0: "x0 \<in> set (t_mappings t)"
      "x = (if map_id x0 = i then set_mapping r x0 else x0)" by (auto simp: update_rows_def)
    from y(1) obtain y0 where y0: "y0 \<in> set (t_mappings t)"
      "y = (if map_id y0 = i then set_mapping r y0 else y0)" by (auto simp: update_rows_def)
    show "map_id x = map_id y"
    proof (cases "map_id x0 = i")
      case True
      show ?thesis
      proof (cases "map_id y0 = i")
        case False
        with node [of x0 y0 n] True x0 y0 x(2) y(2) show ?thesis by simp
      qed (use True x0 y0 keep in simp)
    next
      case False
      show ?thesis
      proof (cases "map_id y0 = i")
        case True
        with node [of y0 x0 n] False x0 y0 x(2) y(2) keep show ?thesis by simp
      next
        case False
        with \<open>map_id x0 \<noteq> i\<close> single_mappingD [OF s x0(1) y0(1), of n] x0 y0 x(2) y(2)
        show ?thesis by simp
      qed
    qed
  qed (use single_mapping_ids [OF s] in simp)
qed

end
