(* ===== verification/SecurityRepository.thy ===== *)
theory SecurityRepository
  imports Database
begin

text \<open>
  \<open>src/db/repositories/security-repository.ts\<close>: the single row of the security configuration.
  Reading a certificate file is the certificate generator's; \<open>expiry\<close> is what it finds.
\<close>

section \<open>The answer the API gives\<close>

record security_config =
  sv_mode :: string
  sv_certificatePath :: "string option"
  sv_certificateValid :: "bool option"
  sv_privateKeyConfigured :: bool
  sv_expiresAt :: "string option"
  sv_remainingDays :: "int option"

record https_config =
  hc_certPath :: string
  hc_keyPath :: string

text \<open>The expiry date of a certificate file and the days left; \<open>None\<close> if it cannot be read.\<close>

type_synonym expiry_reader = "string \<Rightarrow> (string \<times> int) option"

definition getCertificateExpiryInfo ::
  "expiry_reader \<Rightarrow> string option \<Rightarrow> (string \<times> int) option" where
  "getCertificateExpiryInfo expiry path = (if truthy_str path then expiry (the path) else None)"

definition security_view :: "expiry_reader \<Rightarrow> security_row \<Rightarrow> security_config" where
  "security_view expiry row =
     (let info = getCertificateExpiryInfo expiry (sec_certificate row);
          valid = (sec_certificate row \<noteq> None
                   \<and> (case info of None \<Rightarrow> False | Some (_, days) \<Rightarrow> days > 0))
      in \<lparr>sv_mode = sec_mode row, sv_certificatePath = sec_certificate row,
          sv_certificateValid = (if truthy_str (sec_certificate row) then Some valid else None),
          sv_privateKeyConfigured = (case sec_key row of None \<Rightarrow> False | Some k \<Rightarrow> length k > 0),
          sv_expiresAt = map_option fst info, sv_remainingDays = map_option snd info\<rparr>)"

definition no_security :: security_config where
  "no_security =
     \<lparr>sv_mode = ''None'', sv_certificatePath = None, sv_certificateValid = None,
      sv_privateKeyConfigured = False, sv_expiresAt = None, sv_remainingDays = None\<rparr>"

section \<open>Reads\<close>

text \<open>
  Three methods share one cache key: the entry may hold a whole row or only the certificate's
  path, whichever was read last.
\<close>

definition security_query :: query where
  "security_query t = (case t_security t of None \<Rightarrow> [] | Some r \<Rightarrow> [CSecurity r])"

definition certificate_query :: query where
  "certificate_query t =
     (case t_security t of None \<Rightarrow> [] | Some r \<Rightarrow> [CCertificatePath (sec_certificate r)])"

definition security_get ::
  "expiry_reader \<Rightarrow> database \<Rightarrow> (db_error + security_config) \<times> database" where
  "security_get expiry d =
     and_then (readWithCache ''security_config'' security_query d) (\<lambda>rows d1.
       case rows of
         CSecurity r # _ \<Rightarrow> (Inr (security_view expiry r), d1)
       | CCertificatePath p # _ \<Rightarrow>
           (Inl (OtherError ''Cannot read properties of undefined (reading length)''), d1)
       | _ \<Rightarrow> (Inr no_security, d1))"

definition getHttpsConfig :: "database \<Rightarrow> (db_error + https_config option) \<times> database" where
  "getHttpsConfig d =
     and_then (readWithCache ''security_config'' security_query d) (\<lambda>rows d1.
       case rows of
         CSecurity r # _ \<Rightarrow>
           (if truthy_str (sec_certificate r) \<and> truthy_str (sec_key r)
            then (Inr (Some \<lparr>hc_certPath = the (sec_certificate r), hc_keyPath = the (sec_key r)\<rparr>), d1)
            else (Inr None, d1))
       | _ \<Rightarrow> (Inr None, d1))"

definition getCertificatePath :: "database \<Rightarrow> (db_error + string option) \<times> database" where
  "getCertificatePath d =
     and_then (readWithCache ''security_config'' certificate_query d) (\<lambda>rows d1.
       let path = (case rows of CSecurity r # _ \<Rightarrow> sec_certificate r
                   | CCertificatePath p # _ \<Rightarrow> p | _ \<Rightarrow> None)
       in (Inr (if truthy_str path then path else None), d1))"

section \<open>Updates\<close>

definition valid_modes :: "string list" where
  "valid_modes = [''None'', ''Sign'', ''SignAndEncrypt'']"

definition invalid_mode :: "string \<Rightarrow> db_error" where
  "invalid_mode mode =
     OtherError (''Invalid security mode: '' @ mode @ ''. Must be one of: '' @ join '', '' valid_modes)"

definition set_security :: "(security_row \<Rightarrow> security_row) \<Rightarrow> tables \<Rightarrow> (db_error + unit) \<times> tables" where
  "set_security f = execute (\<lambda>t. t\<lparr>t_security := map_option f (t_security t)\<rparr>)"

text \<open>The write, the entry emptied, and the read of the answer.\<close>

definition security_write ::
  "expiry_reader \<Rightarrow> (security_row \<Rightarrow> security_row) \<Rightarrow> database
     \<Rightarrow> (db_error + security_config) \<times> database" where
  "security_write expiry f d =
     and_then (db_write (set_security f) d)
       (\<lambda>_ d1. security_get expiry (updateCache ''security_config'' [] d1))"

definition updatePolicy ::
  "expiry_reader \<Rightarrow> string \<Rightarrow> string \<Rightarrow> database \<Rightarrow> (db_error + security_config) \<times> database" where
  "updatePolicy expiry now mode d =
     (if \<not> List.member valid_modes mode then (Inl (invalid_mode mode), d)
      else security_write expiry (\<lambda>r. r\<lparr>sec_mode := mode, sec_updated := now\<rparr>) d)"

definition updateCertificate ::
  "expiry_reader \<Rightarrow> string \<Rightarrow> string \<Rightarrow> string \<Rightarrow> database
     \<Rightarrow> (db_error + security_config) \<times> database" where
  "updateCertificate expiry now cert key d =
     (if cert = [] \<or> trim cert = [] then (Inl (OtherError ''Certificate path is required''), d)
      else if key = [] \<or> trim key = [] then (Inl (OtherError ''Private key path is required''), d)
      else security_write expiry
             (\<lambda>r. r\<lparr>sec_certificate := Some cert, sec_key := Some key, sec_updated := now\<rparr>) d)"

section \<open>What the operations do\<close>

lemma integrity_security [simp]: "integrity (t\<lparr>t_security := s\<rparr>) = integrity t"
  by (simp add: integrity_def notnull_ok_def unique_ok_def foreign_ok_def)

lemma set_security_ok:
  "integrity t \<Longrightarrow> set_security f t = (Inr (), t\<lparr>t_security := map_option f (t_security t)\<rparr>)"
  by (simp add: set_security_def execute_ok)

lemma cache_fields [simp]:
  "db_tables (updateCache k v d) = db_tables d" "db_open (updateCache k v d) = db_open d"
  "db_alive (updateCache k v d) = db_alive d"
  by (simp_all add: updateCache_def)

lemma security_get_snd [simp]:
  "snd (security_get expiry d) = snd (readWithCache ''security_config'' security_query d)"
proof -
  obtain x d1 where "readWithCache ''security_config'' security_query d = (x, d1)"
    by (cases "readWithCache ''security_config'' security_query d")
  then show ?thesis
    by (cases x) (auto simp: security_get_def split: list.split cached.split)
qed

lemma security_get_alive:
  assumes "db_open d" "db_alive d"
  shows "fst (security_get expiry d)
    = Inr (case t_security (db_tables d) of None \<Rightarrow> no_security | Some r \<Rightarrow> security_view expiry r)"
  using assms by (simp add: and_then_read security_get_def security_query_def split: option.split)

lemma db_write_reach:
  "db_open (snd (db_write f d)) = db_open d" "db_alive (snd (db_write f d)) = db_alive d"
  by (auto simp: db_write_def isAccessible_def clearCache_def Let_def split: prod.split sum.split)

lemma security_write_alive:
  assumes "integrity (db_tables d)" "db_open d" "db_alive d"
  shows "fst (security_write expiry f d)
      = Inr (case t_security (db_tables d) of None \<Rightarrow> no_security | Some r \<Rightarrow> security_view expiry (f r))"
    and "db_tables (snd (security_write expiry f d))
      = (db_tables d)\<lparr>t_security := map_option f (t_security (db_tables d))\<rparr>"
proof -
  let ?d1 = "snd (db_write (set_security f) d)"
  have w: "fst (db_write (set_security f) d) = Inr ()"
    "db_tables ?d1 = (db_tables d)\<lparr>t_security := map_option f (t_security (db_tables d))\<rparr>"
    using assms by (simp_all add: db_write_alive db_write_tables set_security_ok)
  have s: "security_write expiry f d = security_get expiry (updateCache ''security_config'' [] ?d1)"
    unfolding security_write_def by (rule and_then_alive [OF w(1)])
  have "db_open (updateCache ''security_config'' [] ?d1)" "db_alive (updateCache ''security_config'' [] ?d1)"
    using assms by (simp_all add: db_write_reach)
  from security_get_alive [OF this, of expiry] show
    "fst (security_write expiry f d)
      = Inr (case t_security (db_tables d) of None \<Rightarrow> no_security | Some r \<Rightarrow> security_view expiry (f r))"
    by (simp add: s w(2) option.case_eq_if map_option_case)
  show "db_tables (snd (security_write expiry f d))
      = (db_tables d)\<lparr>t_security := map_option f (t_security (db_tables d))\<rparr>"
    by (simp add: s w(2))
qed

text \<open>The security configuration that is reported does not depend on the path of the private
  key, only on whether there is one: two databases that can be reached and differ in nothing
  but that path answer alike, also after the same update of the policy.\<close>

lemma private_key_path_hidden:
  assumes "integrity (db_tables d)" "db_open d" "db_alive d"
    and "t_security (db_tables d) = Some row" "sec_key row = Some k" "k \<noteq> []" "k' \<noteq> []"
  shows "let d' = d\<lparr>db_tables := (db_tables d)\<lparr>t_security := Some (row\<lparr>sec_key := Some k'\<rparr>)\<rparr>\<rparr>
    in fst (security_get expiry d) = fst (security_get expiry d')
       \<and> fst (updatePolicy expiry now mode d) = fst (updatePolicy expiry now mode d')
       \<and> fst (getCertificatePath d) = fst (getCertificatePath d')"
proof -
  let ?d' = "d\<lparr>db_tables := (db_tables d)\<lparr>t_security := Some (row\<lparr>sec_key := Some k'\<rparr>)\<rparr>\<rparr>"
  have reach: "integrity (db_tables ?d')" "db_open ?d'" "db_alive ?d'" using assms by simp_all
  have view: "security_view expiry (row\<lparr>sec_key := Some k'\<rparr>) = security_view expiry row"
    "security_view expiry (row\<lparr>sec_key := Some k', sec_mode := mode, sec_updated := now\<rparr>)
       = security_view expiry (row\<lparr>sec_mode := mode, sec_updated := now\<rparr>)"
    using assms(5-7) by (simp_all add: security_view_def Let_def)
  have "fst (security_get expiry d) = fst (security_get expiry ?d')"
    using security_get_alive [OF assms(2,3), of expiry] security_get_alive [OF reach(2,3), of expiry]
      assms(4) view(1) by simp
  moreover have "fst (updatePolicy expiry now mode d) = fst (updatePolicy expiry now mode ?d')"
    using security_write_alive(1) [OF assms(1-3)] security_write_alive(1) [OF reach] assms(4) view(2)
    by (simp add: updatePolicy_def)
  moreover have "fst (getCertificatePath d) = fst (getCertificatePath ?d')"
    using assms(2-4) by (simp add: and_then_read getCertificatePath_def certificate_query_def Let_def)
  ultimately show ?thesis by (simp add: Let_def)
qed

lemma private_key_path_hidden_witness:
  "let row = \<lparr>sec_mode = ''Sign'', sec_certificate = Some ''/c.pem'', sec_key = Some ''/k.pem'', sec_updated = []\<rparr>;
       d = \<lambda>row. (open_database None)\<lparr>db_tables := fresh_tables\<lparr>t_security := Some row\<rparr>\<rparr>
   in fst (security_get (\<lambda>_. None) (d row))
        = fst (security_get (\<lambda>_. None) (d (row\<lparr>sec_key := Some ''/other.pem''\<rparr>)))"
proof -
  let ?row = "\<lparr>sec_mode = ''Sign'', sec_certificate = Some ''/c.pem'', sec_key = Some ''/k.pem'', sec_updated = []\<rparr>"
  let ?d = "(open_database None)\<lparr>db_tables := fresh_tables\<lparr>t_security := Some ?row\<rparr>\<rparr>"
  have "integrity (db_tables ?d)" "db_open ?d" "db_alive ?d" "t_security (db_tables ?d) = Some ?row"
    "sec_key ?row = Some ''/k.pem''" "''/k.pem'' \<noteq> []" "''/other.pem'' \<noteq> []"
    by (simp_all add: open_database_def integrity_def notnull_ok_def unique_ok_def foreign_ok_def
        fresh_tables_def)
  from private_key_path_hidden [OF this, of "\<lambda>_. None"] show ?thesis by (simp add: Let_def)
qed

text \<open>When the file cannot be reached, what the cache answers depends on which of the methods
  that share its entry was called last: after the certificate's path has been read, the
  configuration that was cached before it can no longer be read.\<close>

lemma security_cache_entry_shared:
  "let d = open_database None;
       d1 = snd (security_get expiry d);
       d2 = snd (getCertificatePath d1);
       lost = \<lambda>d. d\<lparr>db_alive := False\<rparr>
   in fst (security_get expiry (lost d1)) = fst (security_get expiry d)
      \<and> (\<exists>e. fst (security_get expiry (lost d2)) = Inl e)"
  by (simp add: Let_def open_database_def applySchema_def fresh_tables_def security_get_def
      getCertificatePath_def readWithCache_def isAccessible_def updateCache_def getFromCache_def
      security_query_def certificate_query_def)

end
