(* ===== verification/Repositories.thy ===== *)
theory Repositories
  imports ObjectNodes ConnectorRepository SecurityRepository
begin

text \<open>
  The repositories together: every call of every repository, in any order, with the file
  becoming unreachable or reachable again in between. The tables keep the constraints of the
  schema, the bound on the depth of containers and one mapping per variable; and what a cached
  read returns is never stale, as long as ids are those the program generates and no deletion
  of a container fails halfway.
\<close>

section \<open>Calls\<close>

datatype repo_call =
    NamespaceCreate string string create_namespace_request
  | NamespaceFindAll
  | NamespaceFindById string
  | NamespaceUpdate string string update_namespace_request
  | NamespaceDelete string
  | ObjectCreate string string string "string option" string
  | ObjectTree string
  | ObjectDelete string
  | NodeCreate string string create_node_request
  | NodeFindAll "string option"
  | NodeFindById string
  | NodeUpdate string string update_node_request
  | NodeDelete string
  | ConnectionCreate string string create_connection_request
  | ConnectionFindAll "string option"
  | ConnectionFindById string
  | ConnectionUpdate string update_connection_request
  | ConnectionDelete string
  | MappingCreate string string create_mapping_request
  | MappingsBulk "(string \<times> string \<times> create_mapping_request) list"
  | MappingFindAll "string option"
  | MappingFindById string
  | MappingUpdate string update_mapping_request
  | MappingDelete string
  | SecurityGet
  | SecurityHttps
  | SecurityCertificatePath
  | SecurityPolicy string string
  | SecurityCertificate string string string
  | FileReachable bool
  | CloseDatabase

fun repo_apply :: "expiry_reader \<Rightarrow> repo_call \<Rightarrow> database \<Rightarrow> database" where
  "repo_apply x (NamespaceCreate i now r) d = snd (namespace_create i now r d)"
| "repo_apply x NamespaceFindAll d = snd (namespace_findAll d)"
| "repo_apply x (NamespaceFindById i) d = snd (namespace_findById i d)"
| "repo_apply x (NamespaceUpdate i now r) d = snd (namespace_update i now r d)"
| "repo_apply x (NamespaceDelete i) d = snd (namespace_delete i d)"
| "repo_apply x (ObjectCreate i now ns p name) d =
     (case object_create i now ns p name d of None \<Rightarrow> d | Some r \<Rightarrow> snd r)"
| "repo_apply x (ObjectTree ns) d = snd (findTreeByNamespace ns d)"
| "repo_apply x (ObjectDelete i) d = snd (object_delete i d)"
| "repo_apply x (NodeCreate i now r) d = snd (node_create i now r d)"
| "repo_apply x (NodeFindAll ns) d = snd (node_findAll ns d)"
| "repo_apply x (NodeFindById i) d = snd (node_findById i d)"
| "repo_apply x (NodeUpdate i now r) d = snd (node_update i now r d)"
| "repo_apply x (NodeDelete i) d = snd (node_delete i d)"
| "repo_apply x (ConnectionCreate i now r) d = snd (createConnection i now r d)"
| "repo_apply x (ConnectionFindAll ty) d = snd (findAllConnections ty d)"
| "repo_apply x (ConnectionFindById i) d = snd (findConnectionById i d)"
| "repo_apply x (ConnectionUpdate i r) d = snd (repo_updateConnection i r d)"
| "repo_apply x (ConnectionDelete i) d = snd (deleteConnection i d)"
| "repo_apply x (MappingCreate i now r) d = snd (createMapping i now r d)"
| "repo_apply x (MappingsBulk rs) d = snd (createMappingsBulk rs d)"
| "repo_apply x (MappingFindAll c) d = snd (findAllMappings c d)"
| "repo_apply x (MappingFindById i) d = snd (findMappingById i d)"
| "repo_apply x (MappingUpdate i r) d = snd (updateMapping i r d)"
| "repo_apply x (MappingDelete i) d = snd (deleteMapping i d)"
| "repo_apply x SecurityGet d = snd (security_get x d)"
| "repo_apply x SecurityHttps d = snd (getHttpsConfig d)"
| "repo_apply x SecurityCertificatePath d = snd (getCertificatePath d)"
| "repo_apply x (SecurityPolicy now m) d = snd (updatePolicy x now m d)"
| "repo_apply x (SecurityCertificate now c k) d = snd (updateCertificate x now c k d)"
| "repo_apply x (FileReachable b) d = d\<lparr>db_alive := b\<rparr>"
| "repo_apply x CloseDatabase d = db_close d"

text \<open>The ids \<open>uuidv4\<close> generates have 36 characters.\<close>

definition uuid :: "string \<Rightarrow> bool" where
  "uuid i \<longleftrightarrow> length i = 36"

fun generated :: "repo_call \<Rightarrow> bool" where
  "generated (NamespaceCreate i now r) = uuid i"
| "generated (ObjectCreate i now ns p name) = uuid i"
| "generated (NodeCreate i now r) = uuid i"
| "generated (ConnectionCreate i now r) = uuid i"
| "generated (MappingCreate i now r) = uuid i"
| "generated (MappingsBulk rs) = list_all (\<lambda>(i, _). uuid i) rs"
| "generated _ = True"

inductive repo_reach ::
  "expiry_reader \<Rightarrow> (database \<Rightarrow> repo_call \<Rightarrow> bool) \<Rightarrow> database \<Rightarrow> database \<Rightarrow> bool"
  for x ok d0 where
  init: "repo_reach x ok d0 d0"
| call: "repo_reach x ok d0 d \<Longrightarrow> generated c \<Longrightarrow> ok d c \<Longrightarrow> repo_reach x ok d0 (repo_apply x c d)"

section \<open>The tables\<close>

definition tables_ok :: "tables \<Rightarrow> bool" where
  "tables_ok t \<longleftrightarrow> integrity t \<and> objects_ok t \<and> single_mapping t
     \<and> list_all (\<lambda>n. uuid (ns_id n)) (t_namespaces t)"

lemma tables_ok_execute:
  "tables_ok t \<Longrightarrow> (tables_ok t \<Longrightarrow> integrity (f t) \<Longrightarrow> tables_ok (f t)) \<Longrightarrow>
    tables_ok (snd (execute f t))"
  by (auto simp: execute_def checked_Inr split: sum.split)

lemma tables_okI:
  assumes "integrity t'" "objects_ok t'" "single_mapping t"
    and "set (t_mappings t') \<subseteq> set (t_mappings t)" "[] \<notin> nd_id ` set (t_nodes t')"
    and "list_all (\<lambda>n. uuid (ns_id n)) (t_namespaces t')"
  shows "tables_ok t'"
  using assms(1,2,6) single_mapping_fewer [OF assms(3-5)] by (simp add: tables_ok_def)

lemma tables_ok_parts:
  assumes "tables_ok t"
  shows "integrity t" "objects_ok t" "single_mapping t"
    "list_all (\<lambda>n. uuid (ns_id n)) (t_namespaces t)" "[] \<notin> nd_id ` set (t_nodes t)"
  using assms single_mapping_ids by (auto simp: tables_ok_def)

text \<open>Statements that leave the containers alone.\<close>

lemma tables_ok_same_objects:
  assumes "tables_ok t" "integrity t'" "t_objects t' = t_objects t"
    and "set (t_mappings t') \<subseteq> set (t_mappings t)" "nd_id ` set (t_nodes t') \<subseteq> nd_id ` set (t_nodes t)"
    and "ns_id ` set (t_namespaces t') \<subseteq> ns_id ` set (t_namespaces t)"
  shows "tables_ok t'"
proof (rule tables_okI [OF assms(2) _ tables_ok_parts(3) [OF assms(1)] assms(4)])
  show "objects_ok t'" using tables_ok_parts(2) [OF assms(1)] assms(3) by (simp add: objects_ok_def)
  show "[] \<notin> nd_id ` set (t_nodes t')" using tables_ok_parts(5) [OF assms(1)] assms(5) by blast
  show "list_all (\<lambda>n. uuid (ns_id n)) (t_namespaces t')"
  proof -
    have "\<forall>i \<in> ns_id ` set (t_namespaces t). uuid i"
      using tables_ok_parts(4) [OF assms(1)] by (simp add: list_all_iff)
    with assms(6) have "\<forall>i \<in> ns_id ` set (t_namespaces t'). uuid i" by blast
    then show ?thesis by (simp add: list_all_iff)
  qed
qed

lemma update_rows_ids: "(\<And>r. g (f r) = g r) \<Longrightarrow> g ` set (update_rows p f rows) = g ` set rows"
proof -
  assume "\<And>r. g (f r) = g r"
  then have "map g (update_rows p f rows) = map g rows" by (simp add: update_rows_def)
  then show ?thesis by (metis set_map)
qed

lemma namespace_bodies_ok:
  assumes "tables_ok t"
  shows "uuid i \<Longrightarrow> tables_ok (snd (insert_namespace (new_namespace i now r) t))"
    and "tables_ok (snd (update_namespace_body i now u old t))"
    and "tables_ok (snd (delete_namespace_body i t))"
proof -
  show "tables_ok (snd (insert_namespace (new_namespace i now r) t))" if "uuid i"
    unfolding insert_namespace_def statement_tables
  proof (rule tables_ok_execute [OF assms])
    assume "integrity (t\<lparr>t_namespaces := t_namespaces t @ [new_namespace i now r]\<rparr>)"
    then show "tables_ok (t\<lparr>t_namespaces := t_namespaces t @ [new_namespace i now r]\<rparr>)"
      using tables_ok_parts [OF assms] that
      by (intro tables_okI [where t = t]) (simp_all add: objects_ok_def new_namespace_def)
  qed
  show "tables_ok (snd (update_namespace_body i now u old t))"
    unfolding update_namespace_body_def statement_tables
    by (rule tables_ok_execute [OF assms], rule tables_ok_same_objects [OF assms])
      (simp_all add: update_rows_ids set_namespace_def)
  show "tables_ok (snd (delete_namespace_body i t))"
  proof (cases "drop_namespace i t")
    case (Inl e)
    with assms show ?thesis by (simp add: delete_namespace_body_def)
  next
    case (Inr t')
    have "tables_ok (snd (execute (\<lambda>_. t') t))"
    proof (rule tables_ok_execute [OF assms])
      assume "integrity t'"
      then show "tables_ok t'"
        using tables_ok_parts [OF assms] objects_ok_drop_namespace [of t i t'] Inr
          drop_each_result [OF Inr [unfolded drop_namespace_def]]
        by (intro tables_okI [where t = t])
          (auto simp: drop_objects_def drop_nodes_def Let_def list_all_iff)
    qed
    with Inr show ?thesis by (simp add: delete_namespace_body_def)
  qed
qed

lemma connection_bodies_ok:
  assumes "tables_ok t"
  shows "tables_ok (snd (insert_connection c t))"
    and "tables_ok (snd (update_connection_body i r t))"
    and "tables_ok (snd (delete_connection_body i t))"
    and "tables_ok (snd (delete_mapping_body i t))"
  unfolding insert_connection_def update_connection_body_def delete_connection_body_def
    delete_mapping_body_def statement_tables
  by (rule tables_ok_execute [OF assms], rule tables_ok_same_objects [OF assms],
      auto simp: drop_connection_def)+

lemma node_bodies_ok:
  assumes "tables_ok t"
  shows "uuid i \<Longrightarrow> tables_ok (snd (insert_node (new_node i now r) t))"
    and "tables_ok (snd (update_node_body i now u t))"
    and "tables_ok (snd (delete_node_body i t))"
proof -
  show "tables_ok (snd (insert_node (new_node i now r) t))" if "uuid i"
  proof -
    have "tables_ok (snd (execute (\<lambda>t. t\<lparr>t_nodes := t_nodes t @ [new_node i now r]\<rparr>) t))"
    proof (rule tables_ok_execute [OF assms])
      assume "integrity (t\<lparr>t_nodes := t_nodes t @ [new_node i now r]\<rparr>)"
      then show "tables_ok (t\<lparr>t_nodes := t_nodes t @ [new_node i now r]\<rparr>)"
        using tables_ok_parts [OF assms] that
        by (intro tables_okI [where t = t]) (auto simp: objects_ok_def new_node_def uuid_def)
    qed
    then show ?thesis by (auto simp: insert_node_def split: prod.split sum.split)
  qed
  have "tables_ok (snd (execute (\<lambda>t. t\<lparr>t_nodes := map (\<lambda>row. if nd_id row = i
      then set_fields now u row else row) (t_nodes t)\<rparr>) t))"
    by (rule tables_ok_execute [OF assms], rule tables_ok_same_objects [OF assms])
      (auto simp: set_fields_def)
  with assms show "tables_ok (snd (update_node_body i now u t))"
    by (auto simp: update_node_body_def Let_def split: prod.split sum.split option.split)
  have "tables_ok (snd (execute (drop_nodes (\<lambda>r. nd_id r = i)) t))"
    by (rule tables_ok_execute [OF assms], rule tables_ok_same_objects [OF assms])
      (auto simp: drop_nodes_def Let_def)
  then show "tables_ok (snd (delete_node_body i t))"
    by (auto simp: delete_node_body_def split: prod.split sum.split)
qed

lemma execute_same_rest:
  assumes "integrity t" "single_mapping t"
    and "map nd_id (t_nodes (f t)) = map nd_id (t_nodes t)" "t_mappings (f t) = t_mappings t"
    and "t_namespaces (f t) = t_namespaces t"
  shows "integrity (snd (execute f t))" "single_mapping (snd (execute f t))"
    "t_namespaces (snd (execute f t)) = t_namespaces t"
proof -
  have "nd_id ` set (t_nodes (f t)) = nd_id ` set (t_nodes t)"
    using assms(3) by (metis set_map)
  then have "single_mapping (f t)"
    by (intro single_mapping_fewer [OF assms(2)])
      (simp_all add: assms(4) single_mapping_ids [OF assms(2)])
  then show "single_mapping (snd (execute f t))"
    using execute_tables [of f t] assms(2) by auto
qed (use execute_integrity [OF assms(1)] execute_tables [of f t] assms(5) in auto)

lemma object_bodies_ok:
  assumes "tables_ok t"
  shows "uuid i \<Longrightarrow> \<exists>r t'. create_object_body i now ns p name t = Some (r, t') \<and> tables_ok t'"
    and "tables_ok (snd (delete_object_body j t))"
proof -
  note ok = tables_ok_parts [OF assms]
  show "\<exists>r t'. create_object_body i now ns p name t = Some (r, t') \<and> tables_ok t'" if "uuid i"
  proof -
    have "i \<noteq> []" using that by (auto simp: uuid_def)
    then obtain r t' where t': "create_object_body i now ns p name t = Some (r, t')" "objects_ok t'"
      using create_body_ok [OF ok(2)] by blast
    have "snd (insert_object i now ns p name t) = snd (execute (\<lambda>t. t\<lparr>t_objects := t_objects t @
        [\<lparr>on_id = i, on_namespace = ns, on_parent = p, on_name = name, on_created = now\<rparr>]\<rparr>) t)"
      by (auto simp: insert_object_def Let_def split: prod.split sum.split)
    then have "t' = t \<or> t' = snd (execute (\<lambda>t. t\<lparr>t_objects := t_objects t @
        [\<lparr>on_id = i, on_namespace = ns, on_parent = p, on_name = name, on_created = now\<rparr>]\<rparr>) t)"
      using t'(1) by (auto simp: create_object_body_def split: if_splits option.splits)
    then have "integrity t'" "single_mapping t'" "t_namespaces t' = t_namespaces t"
      using execute_same_rest [OF ok(1,3)] ok(1,3) by auto
    with t' ok(4) show ?thesis by (auto simp: tables_ok_def)
  qed
  show "tables_ok (snd (delete_object_body j t))"
  proof (cases "find_object (t_objects t) j")
    case None
    with assms show ?thesis by (simp add: delete_object_body_def)
  next
    case (Some r)
    define t1 where "t1 = snd (execute (move_nodes j (on_parent r)) t)"
    define t2 where "t2 = snd (execute (move_objects j (on_parent r)) t1)"
    define t3 where "t3 = snd (execute (drop_objects (\<lambda>r. on_id r = j)) t2)"
    have ids: "map nd_id (t_nodes (move_nodes j q t)) = map nd_id (t_nodes t)"
      "map nd_id (t_nodes (move_objects j q t)) = map nd_id (t_nodes t)"
      "map nd_id (t_nodes (drop_objects p t)) = map nd_id (t_nodes t)" for q p and t :: tables
      by (simp_all add: move_nodes_def move_objects_def drop_objects_def Let_def o_def
          if_distrib [of nd_id] cong: if_cong)
    have rest: "t_mappings (move_nodes j q t) = t_mappings t" "t_namespaces (move_nodes j q t) = t_namespaces t"
      "t_mappings (move_objects j q t) = t_mappings t"
      "t_namespaces (move_objects j q t) = t_namespaces t"
      "t_mappings (drop_objects p t) = t_mappings t" "t_namespaces (drop_objects p t) = t_namespaces t"
      for q p and t :: tables
      by (simp_all add: move_nodes_def move_objects_def drop_objects_def Let_def)
    note 1 = execute_same_rest [where f = "move_nodes j (on_parent r)", OF ok(1,3) ids(1) rest(1,2),
      folded t1_def]
    note 2 = execute_same_rest [where f = "move_objects j (on_parent r)", OF 1(1,2) ids(2) rest(3,4),
      folded t2_def]
    note 3 = execute_same_rest [where f = "drop_objects (\<lambda>r. on_id r = j)", OF 2(1,2) ids(3) rest(5,6),
      folded t3_def]
    have "snd (delete_object_body j t) \<in> {t1, t2, t3}"
      using Some unfolding t3_def t2_def t1_def
      by (auto simp: delete_object_body_def split: prod.split sum.split)
    with 1 2 3 ok(4) objects_ok_delete [OF ok(2), of j] show ?thesis
      by (auto simp: tables_ok_def)
  qed
qed

lemma mapping_bodies_ok:
  assumes "tables_ok t"
  shows "node_free t (map_nodeId m) \<Longrightarrow> tables_ok (snd (insert_mapping m t))"
    and "new_node_free t i r \<Longrightarrow> tables_ok (snd (update_mapping_body i r t))"
proof -
  note ok = tables_ok_parts [OF assms]
  have keep: "integrity (snd (execute f t)) \<and> objects_ok (snd (execute f t))
      \<and> t_namespaces (snd (execute f t)) = t_namespaces t"
    if "t_objects (f t) = t_objects t" "t_namespaces (f t) = t_namespaces t" for f
    using that execute_tables [of f t] execute_integrity [OF ok(1), of f] ok(2)
    by (auto simp: objects_ok_def)
  show "tables_ok (snd (insert_mapping m t))" if "node_free t (map_nodeId m)"
    using single_mapping_insert [OF ok(3) that] keep ok(4)
    by (simp add: tables_ok_def insert_mapping_def statement_tables)
  show "tables_ok (snd (update_mapping_body i r t))" if "new_node_free t i r"
    using single_mapping_update [OF ok(3,1) that] keep ok(4)
    by (simp add: tables_ok_def update_mapping_body_def statement_tables)
qed

section \<open>Every call keeps the tables in order\<close>

lemma node_create_tables:
  assumes "P (db_tables d)" "P (snd (insert_node (new_node i now r) (db_tables d)))"
  shows "P (db_tables (snd (node_create i now r d)))"
proof -
  obtain x d1 where l: "findByNameInNamespace (cr_name r) (cr_namespaceId r) d = (x, d1)"
    by (cases "findByNameInNamespace (cr_name r) (cr_namespaceId r) d")
  then have "db_tables d1 = db_tables d"
    using lookup_fields(1) [of "cr_name r" "cr_namespaceId r" d] by simp
  with l assms show ?thesis
    by (auto simp: node_create_def Let_def write_keeps split: sum.split option.split)
qed

lemma node_update_tables:
  assumes "P (db_tables d)" "P (snd (update_node_body i now r (db_tables d)))"
  shows "P (db_tables (snd (node_update i now r d)))"
proof -
  obtain x d1 where f: "node_findById i d = (x, d1)" by (cases "node_findById i d")
  then have d1: "db_tables d1 = db_tables d" using find_fields(1) [of i d] by simp
  have "db_tables d2 = db_tables d" if "findByNameInNamespace n ns d1 = (y, d2)" for n ns y d2
    using lookup_fields(1) [of n ns d1] that d1 by simp
  with f d1 assms show ?thesis
    by (auto simp: node_update_def Let_def write_keeps split: sum.split option.split prod.split)
qed

lemma node_delete_tables:
  assumes "P (db_tables d)" "P (snd (delete_node_body i (db_tables d)))"
  shows "P (db_tables (snd (node_delete i d)))"
proof -
  have "snd (node_delete i d) = snd (db_write (delete_node_body i) d)"
    by (auto simp: node_delete_def split: prod.split sum.split bool.split)
  with assms show ?thesis by (simp add: write_keeps)
qed

lemma object_create_tables:
  assumes "P (db_tables d)"
    and "\<And>q t. create_object_body i now ns p name (db_tables d) = Some (q, t) \<Longrightarrow> P t"
    and "object_create i now ns p name d = Some res"
  shows "P (db_tables (snd res))"
proof (cases "fst (isAccessible d)")
  case False
  with assms(1,3) show ?thesis by (auto simp: object_create_def write_keeps)
next
  case True
  with assms(3) obtain q t where "create_object_body i now ns p name (db_tables d) = Some (q, t)"
    and "res = db_write (\<lambda>_. (q, t)) d"
    by (auto simp: object_create_def)
  with assms(1,2) show ?thesis by (simp add: write_keeps)
qed

lemma security_write_tables:
  assumes "tables_ok (db_tables d)"
  shows "tables_ok (db_tables (snd (security_write x f d)))"
  unfolding security_write_def
proof (rule and_then_snd [where P = "\<lambda>d. tables_ok (db_tables d)"])
  have "tables_ok (snd (set_security f (db_tables d)))"
    unfolding set_security_def
    by (rule tables_ok_execute [OF assms], rule tables_ok_same_objects [OF assms]) simp_all
  with assms show "tables_ok (db_tables (snd (db_write (set_security f) d)))" by (rule write_keeps)
qed simp


lemma https_snd [simp]:
  "snd (getHttpsConfig d) = snd (readWithCache ''security_config'' security_query d)"
proof -
  obtain y d1 where "readWithCache ''security_config'' security_query d = (y, d1)"
    by (cases "readWithCache ''security_config'' security_query d")
  then show ?thesis
    by (cases y) (auto simp: getHttpsConfig_def split: list.split cached.split)
qed

lemma certificate_path_snd [simp]:
  "snd (getCertificatePath d) = snd (readWithCache ''security_config'' certificate_query d)"
proof -
  obtain y d1 where "readWithCache ''security_config'' certificate_query d = (y, d1)"
    by (cases "readWithCache ''security_config'' certificate_query d")
  then show ?thesis
    by (cases y) (auto simp: getCertificatePath_def Let_def split: list.split cached.split)
qed

lemma read_tables_kept:
  "db_tables (snd (namespace_findAll d)) = db_tables d"
  "db_tables (snd (namespace_findById i d)) = db_tables d"
  "db_tables (snd (findTreeByNamespace ns d)) = db_tables d"
  "db_tables (snd (node_findAll ns' d)) = db_tables d"
  "db_tables (snd (node_findById i d)) = db_tables d"
  "db_tables (snd (findAllConnections ty d)) = db_tables d"
  "db_tables (snd (findConnectionById i d)) = db_tables d"
  "db_tables (snd (findAllMappings c d)) = db_tables d"
  "db_tables (snd (findMappingById i d)) = db_tables d"
  "db_tables (snd (getHttpsConfig d)) = db_tables d"
  "db_tables (snd (getCertificatePath d)) = db_tables d"
  by (simp_all add: findTreeByNamespace_def node_findAll_def namespace_findAll_def
      findAllConnections_def findAllMappings_def)

lemma repo_apply_tables_ok:
  assumes ok: "tables_ok (db_tables d)" and "generated c"
  shows "tables_ok (db_tables (repo_apply x c d))"
proof (cases c)
  case (MappingsBulk rs)
  have "tables_ok (db_tables (snd (bulk_loop n rs res d)))" for n res
  proof (rule bulk_loop_tables [where P = tables_ok, OF _ ok])
    show "tables_ok (db_tables (snd (createMapping i now r d)))" if "tables_ok (db_tables d)" for i now r d
      using createMapping_tables [where P = tables_ok, OF that] mapping_bodies_ok(1) [OF that]
      by (simp add: new_mapping_def)
  qed
  then show ?thesis by (simp add: MappingsBulk createMappingsBulk_def)
next
  case (ObjectCreate i now ns p name)
  have "tables_ok t" if "create_object_body i now ns p name (db_tables d) = Some (q, t)" for q t
    using object_bodies_ok(1) [OF ok, of i now ns p name] that assms(2) by (auto simp: ObjectCreate)
  then show ?thesis
    using object_create_tables [of tables_ok d i now ns p name] ok
    by (auto simp: ObjectCreate split: option.split)
next
  case (MappingCreate i now r)
  show ?thesis
    using createMapping_tables [where P = tables_ok, OF ok] mapping_bodies_ok(1) [OF ok]
    by (simp add: MappingCreate new_mapping_def)
next
  case (MappingUpdate i r)
  show ?thesis
    using updateMapping_tables [where P = tables_ok, OF ok] mapping_bodies_ok(2) [OF ok]
    by (simp add: MappingUpdate)
qed (use assms namespace_bodies_ok [OF ok] node_bodies_ok [OF ok] connection_bodies_ok [OF ok]
      object_bodies_ok(2) [OF ok] in
    \<open>simp_all add: read_tables_kept namespace_create_tables namespace_update_tables
      namespace_delete_tables node_create_tables node_update_tables node_delete_tables
      createConnection_tables updateConnection_tables deleteConnection_tables deleteMapping_tables
      object_delete_def write_keeps security_write_tables updatePolicy_def updateCertificate_def
      db_close_def\<close>)


text \<open>C5: Whatever is called, in whatever order and with the file coming and going, the tables keep
  the constraints of the schema (unique and foreign keys, no null where none is allowed), the
  containers of a namespace form a forest of bounded depth, and no two mappings name one
  variable - which the current schema no longer declares, so that it rests on the look-ups the
  connector repository makes.\<close>

theorem repositories_keep_tables:
  assumes "repo_reach x ok d0 d" and "tables_ok (db_tables d0)"
  shows "integrity (db_tables d) \<and> objects_ok (db_tables d) \<and> single_mapping (db_tables d)"
proof -
  from assms(1) have "tables_ok (db_tables d)"
    by induction (use assms(2) in \<open>auto intro: repo_apply_tables_ok\<close>)
  then show ?thesis by (simp add: tables_ok_parts)
qed

section \<open>Reads are fresh\<close>

text \<open>The queries of the repositories, each with the key of its cache entry.\<close>

datatype query_name =
    QNamespaces | QNamespace string | QNodeCount string | QTree string
  | QNodes | QNamespaceNodes string | QNode string | QLookup string string
  | QConnections | QTypeConnections string | QConnection string
  | QMappings | QConnectionMappings string | QMapping string

fun key_of :: "query_name \<Rightarrow> string" where
  "key_of QNamespaces = ''namespaces''"
| "key_of (QNamespace i) = ''namespace:'' @ i"
| "key_of (QNodeCount i) = ''namespace-nodecount:'' @ i"
| "key_of (QTree ns) = ''object-nodes:tree:'' @ ns"
| "key_of QNodes = ''nodes:all''"
| "key_of (QNamespaceNodes ns) = ''nodes:ns:'' @ ns"
| "key_of (QNode i) = ''nodes:'' @ i"
| "key_of (QLookup ns name) = ''nodes:lookup:'' @ ns @ '':'' @ name"
| "key_of QConnections = ''connections''"
| "key_of (QTypeConnections ty) = ''connections:type:'' @ ty"
| "key_of (QConnection i) = ''connection:'' @ i"
| "key_of QMappings = ''mappings''"
| "key_of (QConnectionMappings c) = ''mappings:connection:'' @ c"
| "key_of (QMapping i) = ''mapping:'' @ i"

fun query_of :: "query_name \<Rightarrow> query" where
  "query_of QNamespaces = all_namespaces_query"
| "query_of (QNamespace i) = namespace_query i"
| "query_of (QNodeCount i) = count_query i"
| "query_of (QTree ns) = tree_query ns"
| "query_of QNodes = all_nodes_query"
| "query_of (QNamespaceNodes ns) = ns_nodes_query ns"
| "query_of (QNode i) = node_query i"
| "query_of (QLookup ns name) = lookup_query name ns"
| "query_of QConnections = all_connections_query"
| "query_of (QTypeConnections ty) = type_connections_query ty"
| "query_of (QConnection i) = connection_query i"
| "query_of QMappings = all_mappings_query"
| "query_of (QConnectionMappings c) = connection_mappings_query c"
| "query_of (QMapping i) = mapping_query i"

text \<open>
  The keys of the node repository overlap: \<open>nodes:\<close> followed by an id can spell any other. With
  ids that the program generated they are apart.
\<close>

fun proper :: "query_name \<Rightarrow> bool" where
  "proper (QNamespaceNodes ns) = uuid ns"
| "proper (QNode i) = uuid i"
| "proper (QLookup ns name) = uuid ns"
| "proper _ = True"

definition repo_queries :: "(string \<times> query) set" where
  "repo_queries = {(key_of n, query_of n) | n. proper n}"

lemma key_of_inject: "key_of n = key_of m \<Longrightarrow> proper n \<Longrightarrow> proper m \<Longrightarrow> n = m"
  by (cases n; cases m; simp add: uuid_def; auto simp: append_eq_append_conv)

interpretation repo_cache: cached_queries repo_queries
proof unfold_locales
  fix k q q'
  assume "(k, q) \<in> repo_queries" "(k, q') \<in> repo_queries"
  then show "q = q'" unfolding repo_queries_def using key_of_inject by fastforce
qed

lemma security_key_apart: "key_of n \<noteq> ''security_config''"
  by (cases n) simp_all


abbreviation coherent :: "database \<Rightarrow> bool" where
  "coherent \<equiv> repo_cache.coherent"

lemma in_queries [simp]: "proper n \<Longrightarrow> (key_of n, query_of n) \<in> repo_queries"
  by (auto simp: repo_queries_def)

lemma coherent_read:
  "coherent d \<Longrightarrow> proper n \<Longrightarrow> coherent (snd (readWithCache (key_of n) (query_of n) d))"
  by (rule repo_cache.read_coherent) simp_all

text \<open>A failed write that changes nothing.\<close>

definition clean :: "(tables \<Rightarrow> (db_error + 'a) \<times> tables) \<Rightarrow> tables \<Rightarrow> bool" where
  "clean f t \<longleftrightarrow> (case f t of (Inl _, t') \<Rightarrow> t' = t | (Inr _, _) \<Rightarrow> True)"

lemma coherent_write: "coherent d \<Longrightarrow> clean f (db_tables d) \<Longrightarrow> coherent (snd (db_write f d))"
  by (rule repo_cache.write_coherent) (auto simp: clean_def)

lemma clean_execute: "clean (execute f) t"
  using execute_cases [of f t] by (auto simp: clean_def)

lemma clean_statement:
  assumes "sel (f t) = None \<Longrightarrow> f t = t"
  shows "clean (statement f sel) t"
proof (cases "integrity (f t)")
  case True
  then show ?thesis
    using assms by (auto simp: clean_def statement_outcome [of f sel t] split: option.split)
next
  case False
  then show ?thesis using statement_refused [of f t sel] False by (auto simp: clean_def)
qed

lemma update_rows_absent: "find P rows = None \<Longrightarrow> update_rows P f rows = rows"
  unfolding find_None by (simp add: update_rows_def map_idI)

lemma find_update_rows:
  "(\<And>r. P (f r) = P r) \<Longrightarrow> find P (update_rows P f rows) = None \<longleftrightarrow> find P rows = None"
  unfolding find_None by (auto simp: update_rows_def)

lemma find_appended: "P x \<Longrightarrow> find P (xs @ [x]) \<noteq> None"
  unfolding find_None by simp

lemma set_fields_id [simp]: "nd_id (set_fields now r row) = nd_id row"
  by (simp add: set_fields_def)

lemma clean_bodies:
  "clean (insert_namespace row) t" "clean (update_namespace_body i now u old) t"
  "clean (delete_namespace_body i) t" "clean (insert_node n) t" "clean (update_node_body i now un) t"
  "clean (delete_node_body i) t" "clean (insert_connection c) t" "clean (update_connection_body i uc) t"
  "clean (delete_connection_body i) t" "clean (insert_mapping m) t" "clean (update_mapping_body i um) t"
  "clean (delete_mapping_body i) t"
proof -
  show "clean (insert_namespace row) t" "clean (insert_connection c) t" "clean (insert_mapping m) t"
    unfolding insert_namespace_def insert_connection_def insert_mapping_def
    by (rule clean_statement; simp add: find_namespace_def find_connection_def find_row_def
        find_appended)+
  show "clean (update_namespace_body i now u old) t" "clean (update_connection_body i uc) t"
    "clean (update_mapping_body i um) t"
    unfolding update_namespace_body_def update_connection_body_def update_mapping_body_def
    by (rule clean_statement; simp add: find_namespace_def find_connection_def find_row_def
        find_update_rows update_rows_absent set_namespace_def set_connection_def set_mapping_def)+
  show "clean (delete_connection_body i) t" "clean (delete_mapping_body i) t"
    unfolding delete_connection_body_def delete_mapping_body_def
    by (rule clean_execute)+
  show "clean (delete_namespace_body i) t"
    using clean_execute unfolding clean_def delete_namespace_body_def by (cases "drop_namespace i t") auto
  show "clean (insert_node n) t" "clean (delete_node_body i) t"
    unfolding clean_def insert_node_def delete_node_body_def
    using execute_cases [of "\<lambda>t. t\<lparr>t_nodes := t_nodes t @ [n]\<rparr>" t]
      execute_cases [of "drop_nodes (\<lambda>r. nd_id r = i)" t] by auto
  let ?f = "\<lambda>t. t\<lparr>t_nodes := map (\<lambda>row. if nd_id row = i then set_fields now un row else row) (t_nodes t)\<rparr>"
  have same: "?f t = t" if "find_node (?f t) i = None"
  proof -
    have "nd_id r \<noteq> i" if r: "r \<in> set (t_nodes t)" for r
    proof
      assume "nd_id r = i"
      with r have "set_fields now un r \<in> set (t_nodes (?f t))" by (simp add: rev_image_eqI)
      moreover have "nd_id (set_fields now un r) = i" using \<open>nd_id r = i\<close> by simp
      ultimately show False
        using \<open>find_node (?f t) i = None\<close> unfolding find_node_def find_None by blast
    qed
    then have "map (\<lambda>row. if nd_id row = i then set_fields now un row else row) (t_nodes t) = t_nodes t"
      by (intro map_idI) simp
    then show ?thesis by simp
  qed
  show "clean (update_node_body i now un) t"
  proof (cases "no_fields un")
    case True
    then show ?thesis by (auto simp: clean_def update_node_body_def split: option.split)
  next
    case False
    with same execute_cases [of ?f t] show ?thesis
      by (cases "find_node (?f t) i") (auto simp: clean_def update_node_body_def Let_def)
  qed
qed


lemma coherent_reads:
  assumes "coherent d"
  shows "coherent (snd (namespace_findAll d))" "coherent (snd (namespace_findById i d))"
    "coherent (snd (with_count i row d))" "coherent (snd (findTreeByNamespace ns d))"
    "coherent (snd (findAllConnections ty d))" "coherent (snd (findConnectionById i d))"
    "coherent (snd (findAllMappings c d))" "coherent (snd (findMappingById i d))"
    "(truthy_str x \<longrightarrow> uuid (the x)) \<Longrightarrow> coherent (snd (node_findAll x d))"
    "uuid i \<Longrightarrow> coherent (snd (node_findById i d))"
    "uuid ns \<Longrightarrow> coherent (snd (findByNameInNamespace name ns d))"
proof -
  note r = coherent_read [OF assms]
  show "coherent (snd (namespace_findAll d))" "coherent (snd (namespace_findById i d))"
    "coherent (snd (findTreeByNamespace ns d))"
    "coherent (snd (findAllConnections ty d))" "coherent (snd (findConnectionById i d))"
    "coherent (snd (findAllMappings c d))" "coherent (snd (findMappingById i d))"
    using r [of QNamespaces] r [of "QNamespace i"] r [of "QTree ns"] r [of QConnections]
      r [of "QTypeConnections (the ty)"] r [of "QConnection i"] r [of QMappings]
      r [of "QConnectionMappings (the c)"] r [of "QMapping i"]
    by (simp_all add: namespace_findAll_def namespace_findById_def findTreeByNamespace_def
        findAllConnections_def findConnectionById_def findAllMappings_def findMappingById_def split_beta)
  show "coherent (snd (node_findAll x d))" if "truthy_str x \<longrightarrow> uuid (the x)"
    using that r [of QNodes] r [of "QNamespaceNodes (the x)"] by (simp add: node_findAll_def)
  show "coherent (snd (node_findById i d))" if "uuid i"
    using that r [of "QNode i"] by (simp add: node_findById_def split_beta)
  show "coherent (snd (findByNameInNamespace name ns d))" if "uuid ns"
    using that r [of "QLookup ns name"] by (simp add: findByNameInNamespace_def split_beta)
  show "coherent (snd (with_count i row d))"
    unfolding with_count_def by (rule and_then_snd) (use r [of "QNodeCount i"] in simp_all)
qed

text \<open>The entry of the security configuration is nobody else's.\<close>

lemma coherent_security_cache:
  assumes "coherent d"
  shows "coherent (d\<lparr>db_accessible := b, db_cache := jset (db_cache d) ''security_config'' v\<rparr>)"
  unfolding repo_cache.coherent_def
proof (intro allI impI)
  fix k q r
  let ?d = "d\<lparr>db_accessible := b, db_cache := jset (db_cache d) ''security_config'' v\<rparr>"
  assume q: "(k, q) \<in> repo_queries" and r: "jget (db_cache ?d) k = Some r"
  have "k \<noteq> ''security_config''" using q security_key_apart by (auto simp: repo_queries_def)
  with r have "jget (db_cache d) k = Some r" by simp
  with assms q show "q (db_tables ?d) = r" by (simp add: repo_cache.coherent_def)
qed

lemma coherent_security_read:
  "coherent d \<Longrightarrow> coherent (snd (readWithCache ''security_config'' q d))"
  using coherent_security_cache [of d]
  by (auto simp: readWithCache_def isAccessible_def updateCache_def Let_def split: option.split)

lemma coherent_security_update:
  "coherent d \<Longrightarrow> coherent (updateCache ''security_config'' v d)"
  using coherent_security_cache [of d v "db_accessible d"] by (simp add: updateCache_def)

lemma coherent_security_write: "coherent d \<Longrightarrow> coherent (snd (security_write x f d))"
  unfolding security_write_def
  by (rule and_then_snd)
    (simp_all add: coherent_write set_security_def clean_execute coherent_security_read
      coherent_security_update)

lemmas coherent_writes = clean_bodies [THEN coherent_write [rotated]]

lemmas coherent_then = and_then_snd [where P = coherent]

lemma coherent_namespaces:
  assumes "coherent d"
  shows "coherent (snd (namespace_create i now c d))" "coherent (snd (namespace_update i now u d))"
    "coherent (snd (namespace_delete i d))"
proof -
  show "coherent (snd (namespace_create i now c d))"
    using assms by (auto simp: namespace_create_def intro!: coherent_then coherent_writes)
  show "coherent (snd (namespace_delete i d))"
    unfolding namespace_delete_def
    by (rule coherent_then) (use assms in \<open>auto simp: coherent_reads intro!: coherent_writes\<close>)
  show "coherent (snd (namespace_update i now u d))"
    unfolding namespace_update_def
    by (rule coherent_then)
      (use assms in \<open>auto simp: coherent_reads Let_def split: option.split
          intro!: coherent_then coherent_writes\<close>)
qed

lemma coherent_connectors:
  assumes "coherent d"
  shows "coherent (snd (createConnection i now c d))" "coherent (snd (repo_updateConnection i u d))"
    "coherent (snd (deleteConnection i d))" "coherent (snd (createMapping i now m d))"
    "coherent (snd (updateMapping i um d))" "coherent (snd (deleteMapping i d))"
  unfolding createConnection_def repo_updateConnection_def deleteConnection_def createMapping_def
    updateMapping_def deleteMapping_def
  using assms by (auto simp: coherent_reads split: option.split intro!: coherent_then coherent_writes)

lemma coherent_bulk: "coherent d \<Longrightarrow> coherent (snd (bulk_loop n rs res d))"
proof (induction rs arbitrary: n res d)
  case (Cons q rs)
  obtain i now r where q: "q = (i, now, r)" by (cases q)
  show ?case
    unfolding q bulk_loop.simps
    by (rule coherent_then) (use Cons in \<open>auto simp: coherent_connectors split: sum.split\<close>)
qed simp


text \<open>
  A call is \<open>steady\<close> if the ids by which it looks up variables are of the kind the program
  generates and if it is not a deletion of a container that fails halfway.
\<close>

definition steady :: "database \<Rightarrow> repo_call \<Rightarrow> bool" where
  "steady d c \<longleftrightarrow>
     (case c of
        NodeCreate i now r \<Rightarrow> uuid (cr_namespaceId r)
      | NodeFindAll ns \<Rightarrow> truthy_str ns \<longrightarrow> uuid (the ns)
      | NodeFindById i \<Rightarrow> uuid i
      | NodeUpdate i now r \<Rightarrow> uuid i
      | ObjectDelete i \<Rightarrow> clean (delete_object_body i) (db_tables d)
      | _ \<Rightarrow> True)"

lemma create_object_clean:
  assumes "create_object_body i now ns p name t = Some r"
  shows "clean (\<lambda>_. r) t"
proof -
  have "clean (insert_object i now ns p name) t"
    unfolding clean_def insert_object_def Let_def
    using execute_cases [of "\<lambda>t. t\<lparr>t_objects := t_objects t @
        [\<lparr>on_id = i, on_namespace = ns, on_parent = p, on_name = name, on_created = now\<rparr>]\<rparr>" t]
    by auto
  with assms show ?thesis
    by (auto simp: clean_def create_object_body_def split: if_splits option.splits)
qed

lemma coherent_node_create:
  assumes "coherent d" "uuid (cr_namespaceId r)"
  shows "coherent (snd (node_create i now r d))"
proof -
  obtain y d1 where l: "findByNameInNamespace (cr_name r) (cr_namespaceId r) d = (y, d1)"
    by (cases "findByNameInNamespace (cr_name r) (cr_namespaceId r) d")
  then have "coherent d1" using coherent_reads(11) [OF assms, of "cr_name r"] by simp
  with l assms(1) show ?thesis
    by (auto simp: node_create_def Let_def split: sum.split option.split intro!: coherent_writes)
qed

lemma found_namespace:
  assumes "coherent d" "tables_ok (db_tables d)" "uuid i"
    and "node_findById i d = (Inr (Some row), d1)"
  shows "uuid (nd_namespace row)"
proof -
  obtain rs where rs: "fst (readWithCache (''nodes:'' @ i) (node_query i) d) = Inr rs"
    using assms(4) by (cases "readWithCache (''nodes:'' @ i) (node_query i) d")
      (auto simp: node_findById_def first_of_def split: sum.splits)
  then have "rs = node_query i (db_tables d)"
    using repo_cache.read_fresh [OF assms(1) in_queries [of "QNode i"]] assms(3) by simp
  then have "find_node (db_tables d) i = Some row"
    using rs assms(4) by (cases "readWithCache (''nodes:'' @ i) (node_query i) d")
      (auto simp: node_findById_def first_of_def node_query_def split: option.splits)
  then have "row \<in> set (t_nodes (db_tables d))" unfolding find_node_def by (metis find_SomeD)
  with assms(2) show ?thesis
    by (auto simp: tables_ok_def integrity_def foreign_ok_def list_all_iff ref_ok_iff)
qed

lemma coherent_node_update:
  assumes "coherent d" "tables_ok (db_tables d)" "uuid i"
  shows "coherent (snd (node_update i now r d))"
proof -
  obtain y d1 where f: "node_findById i d = (y, d1)" by (cases "node_findById i d")
  then have d1: "coherent d1" using coherent_reads(10) [OF assms(1,3)] by simp
  have look: "coherent d2"
    if "findByNameInNamespace n (nd_namespace row) d1 = (z, d2)" "y = Inr (Some row)" for n row z d2
  proof -
    have "uuid (nd_namespace row)" using found_namespace [OF assms] f that(2) by simp
    with d1 that(1) show ?thesis using coherent_reads(11) [OF d1, of "nd_namespace row" n] by simp
  qed
  from f d1 show ?thesis
    by (auto simp: node_update_def Let_def split: sum.split option.split prod.split
        intro!: coherent_writes dest: look)
qed

lemma steady_coherent:
  assumes "coherent d" "tables_ok (db_tables d)" "steady d c"
  shows "coherent (repo_apply x c d)"
proof (cases c)
  case (ObjectCreate i now ns p name)
  show ?thesis
  proof (cases "fst (isAccessible d)")
    case False
    then show ?thesis
      using assms(1) by (auto simp: ObjectCreate object_create_def clean_def intro!: coherent_write)
  next
    case True
    with assms(1) create_object_clean show ?thesis
      by (auto simp: ObjectCreate object_create_def intro!: coherent_write split: option.split)
  qed
next
  case (NodeDelete i)
  have "snd (node_delete i d) = snd (db_write (delete_node_body i) d)"
    by (auto simp: node_delete_def split: prod.split sum.split bool.split)
  with assms(1) show ?thesis by (auto simp: NodeDelete intro!: coherent_writes)
qed (use assms in \<open>simp_all add: steady_def coherent_reads coherent_namespaces coherent_connectors
      coherent_node_create coherent_node_update coherent_bulk createMappingsBulk_def object_delete_def
      coherent_write coherent_security_read coherent_security_write updatePolicy_def
      updateCertificate_def db_close_def\<close>)

text \<open>C6: What a repository reads is never stale. While the calls are steady, a read through the
  cache - by any method of the namespace, object, node and connector repositories, and whether
  the file can be reached or the answer comes from the cache - returns what its query finds in
  the tables as they are after every write so far.\<close>

theorem reads_never_stale:
  assumes "repo_reach x steady d0 d" and "tables_ok (db_tables d0)" "db_cache d0 = []"
    and "proper n" and "fst (readWithCache (key_of n) (query_of n) d) = Inr rows"
  shows "rows = query_of n (db_tables d)"
proof -
  from assms(1) have "coherent d \<and> tables_ok (db_tables d)"
    by induction
      (use assms(2,3) in \<open>auto intro: repo_cache.coherent_empty steady_coherent repo_apply_tables_ok\<close>)
  with assms(4,5) show ?thesis using repo_cache.read_fresh in_queries by blast
qed


definition demo_namespace_id :: string where
  "demo_namespace_id = replicate 36 (CHR ''n'')"

definition demo_calls :: "database \<Rightarrow> database" where
  "demo_calls d =
     repo_apply (\<lambda>_. None) (FileReachable False)
       (repo_apply (\<lambda>_. None) NamespaceFindAll
         (repo_apply (\<lambda>_. None) (NamespaceCreate demo_namespace_id ''now''
            \<lparr>cn_name = ''Plant'', cn_description = None, cn_uri = ''urn:plant''\<rparr>) d))"

lemma fresh_tables_ok: "tables_ok (db_tables (open_database None))"
  by (simp add: tables_ok_def open_database_def applySchema_def fresh_tables_def integrity_def
      notnull_ok_def unique_ok_def foreign_ok_def objects_ok_def hier_ok_def single_mapping_def)

lemma demo_reach:
  "repo_reach (\<lambda>_. None) steady (open_database None) (demo_calls (open_database None))"
  unfolding demo_calls_def
  by (intro repo_reach.intros) (simp_all add: steady_def uuid_def demo_namespace_id_def)

lemma demo_calls_result:
  "fst (namespace_findAll (demo_calls (open_database None)))
     = Inr [CNamespace (counted (db_tables (demo_calls (open_database None)))
         \<lparr>ns_id = demo_namespace_id, ns_name = ''Plant'', ns_description = None, ns_uri = ''urn:plant'',
          ns_created = ''now'', ns_updated = ''now''\<rparr>)]"
  by code_simp

lemma repositories_keep_tables_witness:
  "integrity (db_tables (demo_calls (open_database None)))
   \<and> t_namespaces (db_tables (demo_calls (open_database None))) \<noteq> []"
proof
  show "integrity (db_tables (demo_calls (open_database None)))"
    using repositories_keep_tables [OF demo_reach fresh_tables_ok] by blast
  show "t_namespaces (db_tables (demo_calls (open_database None))) \<noteq> []" by code_simp
qed

lemma reads_never_stale_witness:
  "\<exists>rows. fst (namespace_findAll (demo_calls (open_database None))) = Inr rows \<and> rows \<noteq> []
    \<and> rows = all_namespaces_query (db_tables (demo_calls (open_database None)))
    \<and> \<not> db_alive (demo_calls (open_database None))"
proof -
  let ?d = "demo_calls (open_database None)"
  obtain rows where rows: "fst (namespace_findAll ?d) = Inr rows" "rows \<noteq> []"
    using demo_calls_result by blast
  have "db_cache (open_database None) = []" by (simp add: open_database_def)
  moreover have "fst (readWithCache (key_of QNamespaces) (query_of QNamespaces) ?d) = Inr rows"
    using rows(1) by (simp add: namespace_findAll_def)
  moreover have "proper QNamespaces" by simp
  ultimately have "rows = query_of QNamespaces (db_tables ?d)"
    using reads_never_stale [OF demo_reach fresh_tables_ok] by blast
  moreover have "\<not> db_alive ?d" by (simp add: demo_calls_def)
  ultimately show ?thesis using rows by auto
qed

text \<open>
  An id that is not generated can hit the entry of another query: when the file is out of
  reach, asking for the variable \<open>all\<close> answers the first of all variables.
\<close>

lemma foreign_id_hits_other_entry:
  assumes "db_open d" "db_alive d" "sort_key nd_name (t_nodes (db_tables d)) = r # rs"
  shows "fst (node_findById ''all'' ((snd (node_findAll None d))\<lparr>db_alive := False\<rparr>)) = Inr (Some r)"
  using assms
  by (simp add: node_findAll_def node_findById_def readWithCache_def isAccessible_def Let_def
      updateCache_def getFromCache_def all_nodes_query_def first_of_def)
end
