(* ===== verification/ConfigGenerator.thy ===== *)
theory ConfigGenerator
  imports ObjectNodes Nodes
begin

text \<open>
  \<open>src/config-generator/index.ts\<close> and \<open>src/types/config.ts\<close>: the file the OPC UA runtime is
  started with, computed from the tables. The clock, the working directory, the directories that
  exist and the error of a statement on a file that has gone are arguments; a warning is a line
  for the log.
\<close>

section \<open>The configuration\<close>

record security_output =
  so_mode :: string
  so_certificatePath :: "string option"
  so_privateKeyPath :: "string option"
  so_applicationUri :: "string option"
  so_pkiTrustedPath :: "string option"
  so_pkiRejectedPath :: "string option"

datatype object_config =
  ObjectConfig (oc_name: string) (oc_path: string) (oc_children: "object_config list")

record connector_mapping_config =
  cmc_connectionType :: string
  cmc_connectionHost :: jsval
  cmc_deviceAddress :: string

record s7_mapping_config =
  smc_connectionHost :: jsval
  smc_plcAddress :: string

record node_config =
  nc_name :: string
  nc_nodeId :: string
  nc_dataType :: string
  nc_parentPath :: string
  nc_initialValue :: "jsval option"
  nc_connectorMapping :: "connector_mapping_config option"
  nc_s7Mapping :: "s7_mapping_config option"

record namespace_config =
  nsc_name :: string
  nsc_uri :: string
  nsc_objectNodes :: "object_config list"
  nsc_nodes :: "node_config list"

record address_space_config =
  ac_version :: nat
  ac_generatedAt :: string
  ac_port :: int
  ac_security :: security_output
  ac_namespaces :: "namespace_config list"

record generator_env =
  ge_now :: string
  ge_port :: int
  ge_resolve :: "string \<Rightarrow> string"
  ge_exists :: "string \<Rightarrow> bool"
  ge_statement_error :: db_error

section \<open>Security\<close>

definition no_security_output :: security_output where
  "no_security_output =
     \<lparr>so_mode = ''None'', so_certificatePath = None, so_privateKeyPath = None,
      so_applicationUri = None, so_pkiTrustedPath = None, so_pkiRejectedPath = None\<rparr>"

definition paths_warning :: "string \<Rightarrow> string" where
  "paths_warning mode =
     ''Security mode '' @ dquoted mode @ '' requires certificatePath and privateKeyPath. ''
     @ ''Falling back to '' @ dquoted ''None'' @ '' because one or both are missing.''"

definition pki_warning :: "string \<Rightarrow> string \<Rightarrow> string" where
  "pki_warning mode missing =
     ''Security mode '' @ dquoted mode @ '' requires PKI directories but '' @ missing
     @ '' does not exist. Falling back to mode '' @ dquoted ''None'' @ ''.''"

definition buildSecurityConfig ::
  "generator_env \<Rightarrow> tables \<Rightarrow> security_output \<times> string list" where
  "buildSecurityConfig env t =
     (case t_security t of
        None \<Rightarrow> (no_security_output, [])
      | Some row \<Rightarrow>
          let mode = sec_mode row; cert = sec_certificate row; key = sec_key row;
              config = no_security_output\<lparr>so_mode := mode,
                so_certificatePath := (if truthy_str cert then cert else None),
                so_privateKeyPath := (if truthy_str key then key else None)\<rparr>;
              trusted = ge_resolve env ''data/pki/trusted'';
              rejected = ge_resolve env ''data/pki/rejected''
          in if mode \<noteq> ''None'' \<and> (\<not> truthy_str cert \<or> \<not> truthy_str key)
             then (no_security_output, [paths_warning mode])
             else if mode = ''None'' then (config, [])
             else if \<not> ge_exists env trusted \<or> \<not> ge_exists env rejected
             then (no_security_output,
                   [pki_warning mode
                      (if \<not> ge_exists env trusted then ''pkiTrustedPath'' else ''pkiRejectedPath'')])
             else (config\<lparr>so_applicationUri := Some ''urn:opcua-light-server:application'',
                          so_pkiTrustedPath := Some trusted, so_pkiRejectedPath := Some rejected\<rparr>,
                   []))"

section \<open>Containers\<close>

text \<open>
  The walk up from a container, collecting names. A \<open>Map\<close> made of the rows keeps the last row of
  an id.
\<close>

partial_function (option) path_loop ::
  "object_row list \<Rightarrow> string option \<Rightarrow> string list \<Rightarrow> string list option" where
  "path_loop rows i parts =
     (if \<not> truthy_str i then Some parts
      else (case find_object (rev rows) (the i) of
              None \<Rightarrow> Some parts
            | Some r \<Rightarrow> path_loop rows (on_parent r) (on_name r # parts)))"

definition computeObjectNodePath :: "string \<Rightarrow> object_row list \<Rightarrow> string \<Rightarrow> string option" where
  "computeObjectNodePath i rows ns =
     map_option (\<lambda>parts. join ''.'' (ns # parts)) (path_loop rows (Some i) [])"

definition buildObjectNodeTree :: "string \<Rightarrow> tables \<Rightarrow> object_row list" where
  "buildObjectNodeTree ns t = sort_key on_name (filter (\<lambda>r. on_namespace r = ns) (t_objects t))"

text \<open>
  The first pass computes the path of every row, the second links children to parents; that
  linking is the one of \<open>buildTree\<close> in the object node repository.
\<close>

fun object_config_of :: "(string \<Rightarrow> string) \<Rightarrow> obj_tree \<Rightarrow> object_config" where
  "object_config_of path (ObjTree r ts) =
     ObjectConfig (on_name r) (path (on_id r)) (map (object_config_of path) ts)"

definition toObjectNodeConfigs :: "object_row list \<Rightarrow> string \<Rightarrow> object_config list option" where
  "toObjectNodeConfigs rows ns =
     map_option
       (\<lambda>paths. map (object_config_of (\<lambda>i. the (map_of (rev (zip (map on_id rows) paths)) i)))
                  (buildTree rows))
       (those (map (\<lambda>r. computeObjectNodePath (on_id r) rows ns) rows))"

section \<open>Variables\<close>

text \<open>
  The host of a connection's parameters, \<open>params.host ?? ''\<close>. It is read for one row of the join
  after the other, and reading it throws if the parameters are \<open>null\<close>.
\<close>

definition connection_host :: "jsval \<Rightarrow> jsval" where
  "connection_host v = nullish_or (getprop (members v) ''host'') (JStr [])"

definition mapped_rows :: "string \<Rightarrow> tables \<Rightarrow> (string \<times> connection_config \<times> string) list" where
  "mapped_rows ns t =
     [(nd_id n, c, map_deviceAddress m).
        m \<leftarrow> t_mappings t, c \<leftarrow> t_connections t, map_connectionId m = cfg_id c,
        n \<leftarrow> t_nodes t, map_nodeId m = Some (nd_id n), nd_namespace n = ns]"

fun load_rows ::
  "(string \<times> connection_config \<times> string) list \<Rightarrow> (string, connector_mapping_config) jmap
     \<Rightarrow> db_error + (string, connector_mapping_config) jmap" where
  "load_rows [] m = Inr m"
| "load_rows ((i, c, a) # rows) m =
     (if cfg_params c = JNull then Inl (OtherError null_params)
      else load_rows rows (jset m i
             \<lparr>cmc_connectionType = cfg_type c, cmc_connectionHost = connection_host (cfg_params c),
              cmc_deviceAddress = a\<rparr>))"

definition loadMappings :: "string \<Rightarrow> tables \<Rightarrow> db_error + (string, connector_mapping_config) jmap" where
  "loadMappings ns t = load_rows (mapped_rows ns t) []"

definition node_id_text :: "nat \<Rightarrow> string \<Rightarrow> string \<Rightarrow> string" where
  "node_id_text index path name = ''ns='' @ show_nat index @ '';s='' @ path @ ''.'' @ name"

definition node_config_of ::
  "nat \<Rightarrow> (string, connector_mapping_config) jmap \<Rightarrow> node_row \<Rightarrow> string \<Rightarrow> node_config" where
  "node_config_of index mappings n path =
     (let mapping = jget mappings (nd_id n) in
      \<lparr>nc_name = nd_name n, nc_nodeId = node_id_text index path (nd_name n),
       nc_dataType = nd_dataType n, nc_parentPath = path, nc_initialValue = nd_initial n,
       nc_connectorMapping = mapping,
       nc_s7Mapping =
         (case mapping of
            None \<Rightarrow> None
          | Some m \<Rightarrow>
              if cmc_connectionType m = ''s7''
              then Some \<lparr>smc_connectionHost = cmc_connectionHost m, smc_plcAddress = cmc_deviceAddress m\<rparr>
              else None)\<rparr>)"

definition parent_path :: "object_row list \<Rightarrow> string \<Rightarrow> node_row \<Rightarrow> string option" where
  "parent_path rows ns n =
     (if truthy_str (nd_object n) then computeObjectNodePath (the (nd_object n)) rows ns else Some ns)"

definition node_rows :: "string \<Rightarrow> tables \<Rightarrow> node_row list" where
  "node_rows ns t = sort_key nd_name (filter (\<lambda>r. nd_namespace r = ns) (t_nodes t))"

text \<open>What may throw or not end, in turn: the first that does either decides.\<close>

fun in_turn :: "(db_error + 'a) option list \<Rightarrow> (db_error + 'a list) option" where
  "in_turn [] = Some (Inr [])"
| "in_turn (x # xs) =
     (case x of
        None \<Rightarrow> None
      | Some (Inl e) \<Rightarrow> Some (Inl e)
      | Some (Inr y) \<Rightarrow> map_option (map_sum id (Cons y)) (in_turn xs))"

definition buildNodes ::
  "namespace_row \<Rightarrow> nat \<Rightarrow> object_row list \<Rightarrow> tables \<Rightarrow> (db_error + node_config list) option" where
  "buildNodes ns index rows t =
     (case loadMappings (ns_id ns) t of
        Inl e \<Rightarrow> Some (Inl e)
      | Inr mappings \<Rightarrow>
          map_option Inr
            (those (map (\<lambda>n. map_option (node_config_of index mappings n) (parent_path rows (ns_name ns) n))
                      (node_rows (ns_id ns) t))))"

section \<open>The whole\<close>

text \<open>Index 0 is the standard's namespace and 1 the server's own.\<close>

definition namespace_config_of ::
  "tables \<Rightarrow> nat \<Rightarrow> namespace_row \<Rightarrow> (db_error + namespace_config) option" where
  "namespace_config_of t index ns =
     (let rows = buildObjectNodeTree (ns_id ns) t in
      case buildNodes ns (index + 2) rows t of
        None \<Rightarrow> None
      | Some (Inl e) \<Rightarrow> Some (Inl e)
      | Some (Inr nodes) \<Rightarrow>
          map_option
            (\<lambda>objs. Inr \<lparr>nsc_name = ns_name ns, nsc_uri = ns_uri ns, nsc_objectNodes = objs, nsc_nodes = nodes\<rparr>)
            (toObjectNodeConfigs rows (ns_name ns)))"

definition namespace_rows :: "tables \<Rightarrow> namespace_row list" where
  "namespace_rows t = sort_key ns_name (t_namespaces t)"

definition buildNamespaces :: "tables \<Rightarrow> (db_error + namespace_config list) option" where
  "buildNamespaces t =
     in_turn (map (\<lambda>(index, ns). namespace_config_of t index ns) (enumerate 0 (namespace_rows t)))"

definition config_of_tables ::
  "generator_env \<Rightarrow> tables \<Rightarrow> (db_error + address_space_config \<times> string list) option" where
  "config_of_tables env t =
     (let (security, warnings) = buildSecurityConfig env t in
      map_option
        (map_sum id
          (\<lambda>nss. (\<lparr>ac_version = 1, ac_generatedAt = ge_now env, ac_port = ge_port env,
                   ac_security = security, ac_namespaces = nss\<rparr>, warnings)))
        (buildNamespaces t))"

definition generate ::
  "generator_env \<Rightarrow> database \<Rightarrow> (db_error + address_space_config \<times> string list) option" where
  "generate env d =
     (case getConnection d of
        Inl e \<Rightarrow> Some (Inl e)
      | Inr t \<Rightarrow>
          if db_alive d then config_of_tables env t
          else Some (Inl (ge_statement_error env)))"

section \<open>Generation returns\<close>

lemma those_map_Some:
  "those (map f xs) = Some ys \<longleftrightarrow> ys = map (\<lambda>x. the (f x)) xs \<and> (\<forall>x \<in> set xs. f x \<noteq> None)"
  by (induction xs arbitrary: ys) (auto split: option.splits)

lemma find_object_rev:
  "distinct (map on_id rows) \<Longrightarrow> r \<in> set rows \<Longrightarrow> find_object (rev rows) (on_id r) = Some r"
  by (subst find_object_iff) (simp_all add: rev_map [symmetric])

lemma path_loop_ends:
  assumes d: "distinct (map on_id rows)" and ids: "\<forall>r \<in> set rows. on_id r \<noteq> []"
    and "level rows r n"
  shows "\<exists>ps. \<forall>parts. path_loop rows (Some (on_id r)) parts = Some (ps @ parts)"
  using assms(3)
proof (induction rule: level.induct)
  case (root r)
  have "find_object (rev rows) (on_id r) = Some r" using d root(1) by (rule find_object_rev)
  moreover have "truthy_str (Some (on_id r))" using ids root(1) by simp
  moreover have "path_loop rows (on_parent r) parts = Some parts" for parts
  proof (cases "on_parent r")
    case None
    then show ?thesis by (simp add: path_loop.simps [of rows None])
  next
    case (Some p)
    with root(2) have "find_object (rev rows) p = None" by (simp add: is_root_def find_object_None)
    then show ?thesis by (subst path_loop.simps) (simp add: Some)
  qed
  ultimately have "\<forall>parts. path_loop rows (Some (on_id r)) parts = Some ([on_name r] @ parts)"
    by (subst path_loop.simps) simp
  then show ?case by blast
next
  case (child c r n)
  then obtain ps where ps: "\<forall>parts. path_loop rows (Some (on_id r)) parts = Some (ps @ parts)" by blast
  have "find_object (rev rows) (on_id c) = Some c" using d child(1) by (rule find_object_rev)
  moreover have "truthy_str (Some (on_id c))" using ids child(1) by simp
  ultimately have "\<forall>parts. path_loop rows (Some (on_id c)) parts = Some ((ps @ [on_name c]) @ parts)"
    using child(2) ps by (subst path_loop.simps) simp
  then show ?case by blast
qed

text \<open>The rows of a namespace, their order and their nesting.\<close>

lemma container_rows:
  assumes "objects_ok t"
  shows "rooted (buildObjectNodeTree ns t)" "distinct (map on_id (buildObjectNodeTree ns t))"
    "\<forall>r \<in> set (buildObjectNodeTree ns t). on_id r \<noteq> []"
proof -
  show r: "rooted (buildObjectNodeTree ns t)"
    using assms rooted_sub unfolding buildObjectNodeTree_def objects_ok_def by blast
  then show "distinct (map on_id (buildObjectNodeTree ns t))" by (simp add: rooted_def)
  show "\<forall>r \<in> set (buildObjectNodeTree ns t). on_id r \<noteq> []"
    using assms by (auto simp: objects_ok_def hier_ok_def buildObjectNodeTree_def)
qed

lemma container_path:
  assumes "objects_ok t"
  shows "computeObjectNodePath i (buildObjectNodeTree ns t) name \<noteq> None"
    and "i \<notin> on_id ` set (buildObjectNodeTree ns t) \<Longrightarrow>
      computeObjectNodePath i (buildObjectNodeTree ns t) name = Some name"
proof -
  let ?rows = "buildObjectNodeTree ns t"
  show absent: "computeObjectNodePath i ?rows name = Some name" if "i \<notin> on_id ` set ?rows"
  proof -
    have "find_object (rev ?rows) i = None" using that by (simp add: find_object_None)
    then have "path_loop ?rows (Some i) [] = Some []" by (subst path_loop.simps) simp
    then show ?thesis by (simp add: computeObjectNodePath_def)
  qed
  show "computeObjectNodePath i ?rows name \<noteq> None"
  proof (cases "i \<in> on_id ` set ?rows")
    case True
    then obtain r where r: "r \<in> set ?rows" "i = on_id r" by blast
    then obtain n where "level ?rows r n" using container_rows(1) [OF assms] by (auto simp: rooted_def)
    from path_loop_ends [OF container_rows(2,3) [OF assms] this] r(2) show ?thesis
      by (auto simp: computeObjectNodePath_def)
  qed (simp add: absent)
qed

definition container_path_text :: "tables \<Rightarrow> namespace_row \<Rightarrow> string \<Rightarrow> string" where
  "container_path_text t ns i =
     the (computeObjectNodePath i (buildObjectNodeTree (ns_id ns) t) (ns_name ns))"

lemma map_of_rev_zip:
  "distinct (map f xs) \<Longrightarrow> x \<in> set xs \<Longrightarrow> map_of (rev (zip (map f xs) (map g xs))) (f x) = Some (g x)"
proof (rule map_of_is_SomeI)
  assume "distinct (map f xs)" "x \<in> set xs"
  moreover have "zip (map f xs) (map g xs) = map (\<lambda>x. (f x, g x)) xs"
    by (induction xs) simp_all
  ultimately show "distinct (map fst (rev (zip (map f xs) (map g xs))))"
    and "(f x, g x) \<in> set (rev (zip (map f xs) (map g xs)))"
    by (simp_all add: rev_map [symmetric] o_def)
qed


lemma toObjectNodeConfigs_ends:
  assumes "objects_ok t"
  shows "toObjectNodeConfigs (buildObjectNodeTree (ns_id ns) t) (ns_name ns)
    = Some (map (object_config_of (container_path_text t ns)) (buildTree (buildObjectNodeTree (ns_id ns) t)))"
    (is "_ = Some (map (object_config_of ?path) (buildTree ?rows))")
proof -
  have "those (map (\<lambda>r. computeObjectNodePath (on_id r) ?rows (ns_name ns)) ?rows)
      = Some (map (\<lambda>r. ?path (on_id r)) ?rows)"
    unfolding those_map_Some using container_path(1) [OF assms] by (simp add: container_path_text_def)
  moreover have "object_config_of
      (\<lambda>i. the (map_of (rev (zip (map on_id ?rows) (map (\<lambda>r. ?path (on_id r)) ?rows))) i)) tr
      = object_config_of ?path tr" if "set (flatten tr) \<subseteq> set ?rows" for tr
    using that
  proof (induction tr)
    case (ObjTree r ts)
    then have "map_of (rev (zip (map on_id ?rows) (map (\<lambda>r. ?path (on_id r)) ?rows))) (on_id r)
        = Some (?path (on_id r))"
      using map_of_rev_zip [OF container_rows(2) [OF assms], of r "ns_id ns" "\<lambda>r. ?path (on_id r)"]
      by simp
    with ObjTree show ?case by (simp add: UN_subset_iff)
  qed
  moreover have "set (flatten tr) \<subseteq> set ?rows" if "tr \<in> set (buildTree ?rows)" for tr
  proof -
    have "set (concat (map flatten (buildTree ?rows))) = set ?rows"
      using buildTree_complete [OF container_rows(1) [OF assms]] by (metis set_mset_mset)
    with that show ?thesis by auto
  qed
  ultimately show ?thesis by (simp add: toObjectNodeConfigs_def)
qed

text \<open>The path of the container a variable is in.\<close>

definition node_path :: "tables \<Rightarrow> namespace_row \<Rightarrow> node_row \<Rightarrow> string" where
  "node_path t ns n = the (parent_path (buildObjectNodeTree (ns_id ns) t) (ns_name ns) n)"

lemma node_path_cases:
  assumes "objects_ok t"
  obtains (namespace) "node_path t ns n = ns_name ns"
    | (container) r where "r \<in> set (buildObjectNodeTree (ns_id ns) t)"
        "node_path t ns n = container_path_text t ns (on_id r)"
proof (cases "truthy_str (nd_object n) \<and> the (nd_object n) \<in> on_id ` set (buildObjectNodeTree (ns_id ns) t)")
  case True
  then show thesis
    by (auto simp: node_path_def parent_path_def container_path_text_def intro: container)
next
  case False
  then have "node_path t ns n = ns_name ns"
    using container_path(2) [OF assms, of "the (nd_object n)"]
    by (auto simp: node_path_def parent_path_def)
  then show thesis by (rule namespace)
qed

definition read_mappings :: "string \<Rightarrow> tables \<Rightarrow> (string, connector_mapping_config) jmap" where
  "read_mappings ns t = (case loadMappings ns t of Inl _ \<Rightarrow> [] | Inr m \<Rightarrow> m)"

definition plain_namespace_config :: "tables \<Rightarrow> nat \<Rightarrow> namespace_row \<Rightarrow> namespace_config" where
  "plain_namespace_config t index ns =
    \<lparr>nsc_name = ns_name ns, nsc_uri = ns_uri ns,
     nsc_objectNodes = map (object_config_of (container_path_text t ns))
       (buildTree (buildObjectNodeTree (ns_id ns) t)),
     nsc_nodes = map (\<lambda>n. node_config_of (index + 2) (read_mappings (ns_id ns) t) n (node_path t ns n))
       (node_rows (ns_id ns) t)\<rparr>"

lemma namespace_config_ends:
  assumes "objects_ok t"
  shows "namespace_config_of t index ns =
    Some (map_sum id (\<lambda>_. plain_namespace_config t index ns) (loadMappings (ns_id ns) t))"
proof -
  have "parent_path (buildObjectNodeTree (ns_id ns) t) (ns_name ns) n = Some (node_path t ns n)" for n
    using container_path(1) [OF assms] by (auto simp: node_path_def parent_path_def)
  then have "those (map (\<lambda>n. map_option (node_config_of (index + 2) m n)
        (parent_path (buildObjectNodeTree (ns_id ns) t) (ns_name ns) n)) (node_rows (ns_id ns) t))
      = Some (map (\<lambda>n. node_config_of (index + 2) m n (node_path t ns n)) (node_rows (ns_id ns) t))" for m
    unfolding those_map_Some by simp
  then show ?thesis
    by (cases "loadMappings (ns_id ns) t")
      (simp_all add: namespace_config_of_def buildNodes_def Let_def toObjectNodeConfigs_ends [OF assms]
        plain_namespace_config_def read_mappings_def)
qed

text \<open>Some variable of some namespace is mapped to a connection whose stored parameters are \<open>null\<close>.\<close>

definition null_mapped :: "tables \<Rightarrow> bool" where
  "null_mapped t \<longleftrightarrow>
     list_ex (\<lambda>m. list_ex (\<lambda>c. map_connectionId m = cfg_id c \<and> cfg_params c = JNull) (t_connections t)
       \<and> list_ex (\<lambda>n. map_nodeId m = Some (nd_id n)
            \<and> list_ex (\<lambda>ns. nd_namespace n = ns_id ns) (t_namespaces t)) (t_nodes t)) (t_mappings t)"

lemma load_rows_result:
  "isl (load_rows rows m) \<longleftrightarrow> (\<exists>(i, c, a) \<in> set rows. cfg_params c = JNull)"
  "load_rows rows m = Inl e \<Longrightarrow> e = OtherError null_params"
  by (induction rows m rule: load_rows.induct) (auto split: if_splits)

lemma null_mapped_iff:
  "null_mapped t \<longleftrightarrow> (\<exists>ns \<in> set (namespace_rows t). isl (loadMappings (ns_id ns) t))"
proof -
  have "(\<exists>(i, c, a) \<in> set (mapped_rows ns t). cfg_params c = JNull) \<longleftrightarrow>
      (\<exists>m \<in> set (t_mappings t). \<exists>c \<in> set (t_connections t). \<exists>n \<in> set (t_nodes t).
        map_connectionId m = cfg_id c \<and> cfg_params c = JNull \<and> map_nodeId m = Some (nd_id n)
        \<and> nd_namespace n = ns)" for ns
    by (fastforce simp: mapped_rows_def)
  then show ?thesis
    unfolding null_mapped_def loadMappings_def load_rows_result(1)
    by (auto simp: list_ex_iff namespace_rows_def)
qed

lemma in_turn_map:
  assumes "\<And>x. x \<in> set xs \<Longrightarrow> f x = Some (map_sum id (\<lambda>_. g x) (h x))"
    and "\<And>x e. x \<in> set xs \<Longrightarrow> h x = Inl e \<Longrightarrow> e = e0"
  shows "in_turn (map f xs) = Some (if \<exists>x \<in> set xs. isl (h x) then Inl e0 else Inr (map g xs))"
  using assms
proof (induction xs)
  case (Cons x xs)
  have "in_turn (map f xs) = Some (if \<exists>x \<in> set xs. isl (h x) then Inl e0 else Inr (map g xs))"
    by (rule Cons.IH) (use Cons.prems in auto)
  with Cons.prems(1) [of x] Cons.prems(2) [of x] show ?case by (cases "h x") auto
qed simp

lemma enumerated_rows: "q \<in> set (enumerate k xs) \<Longrightarrow> snd q \<in> set xs"
  "x \<in> set xs \<Longrightarrow> \<exists>i. (i, x) \<in> set (enumerate k xs)"
  by (metis map_snd_enumerate set_map imageI, metis map_snd_enumerate set_map imageE prod.collapse)

lemma generate_outcome:
  assumes "objects_ok (db_tables d)" "db_open d" "db_alive d" "db_accessible d"
  shows "generate env d = Some (if null_mapped (db_tables d) then Inl (OtherError null_params) else Inr
    (\<lparr>ac_version = 1, ac_generatedAt = ge_now env, ac_port = ge_port env,
      ac_security = fst (buildSecurityConfig env (db_tables d)),
      ac_namespaces = map (\<lambda>(index, ns). plain_namespace_config (db_tables d) index ns)
        (enumerate 0 (namespace_rows (db_tables d)))\<rparr>,
     snd (buildSecurityConfig env (db_tables d))))"
proof -
  let ?t = "db_tables d"
  have "buildNamespaces ?t = Some (if \<exists>q \<in> set (enumerate 0 (namespace_rows ?t)).
        isl (loadMappings (ns_id (snd q)) ?t) then Inl (OtherError null_params)
      else Inr (map (\<lambda>(index, ns). plain_namespace_config ?t index ns) (enumerate 0 (namespace_rows ?t))))"
    unfolding buildNamespaces_def
    by (rule in_turn_map) (auto simp: namespace_config_ends [OF assms(1)] loadMappings_def
        load_rows_result(2) split_beta)
  moreover have "(\<exists>q \<in> set (enumerate 0 (namespace_rows ?t)). isl (loadMappings (ns_id (snd q)) ?t))
      \<longleftrightarrow> null_mapped ?t"
    unfolding null_mapped_iff using enumerated_rows by (metis snd_conv)
  ultimately show ?thesis
    using assms by (simp add: generate_def getConnection_def config_of_tables_def split_beta)
qed

lemma generate_ends:
  assumes "objects_ok (db_tables d)" "db_open d" "db_alive d" "db_accessible d"
    "\<not> null_mapped (db_tables d)"
  shows "generate env d = Some (Inr
    (\<lparr>ac_version = 1, ac_generatedAt = ge_now env, ac_port = ge_port env,
      ac_security = fst (buildSecurityConfig env (db_tables d)),
      ac_namespaces = map (\<lambda>(index, ns). plain_namespace_config (db_tables d) index ns)
        (enumerate 0 (namespace_rows (db_tables d)))\<rparr>,
     snd (buildSecurityConfig env (db_tables d))))"
  by (simp add: generate_outcome [OF assms(1-4)] assms(5))

lemma generate_reached:
  assumes "generate env d = Some (Inr r)"
  shows "db_open d" "db_alive d" "db_accessible d" "objects_ok (db_tables d) \<Longrightarrow> \<not> null_mapped (db_tables d)"
proof -
  show live: "db_open d" "db_alive d" "db_accessible d"
    using assms by (auto simp: generate_def getConnection_def split: if_splits)
  show "\<not> null_mapped (db_tables d)" if "objects_ok (db_tables d)"
    using assms generate_outcome [OF that live, of env] by (auto split: if_splits)
qed

lemma generated:
  assumes "objects_ok (db_tables d)" "generate env d = Some (Inr (cfg, warnings))"
  shows "ac_namespaces cfg = map (\<lambda>(index, ns). plain_namespace_config (db_tables d) index ns)
    (enumerate 0 (namespace_rows (db_tables d)))"
  using generate_ends [OF assms(1) generate_reached(1-3) [OF assms(2)] generate_reached(4) [OF assms(2,1)],
      of env] assms(2) by simp

section \<open>What the runtime is given\<close>

fun object_paths :: "object_config \<Rightarrow> string list" where
  "object_paths (ObjectConfig n p cs) = p # concat (map object_paths cs)"

lemma object_paths_of: "object_paths (object_config_of path tr) = map (\<lambda>r. path (on_id r)) (flatten tr)"
proof (induction tr)
  case (ObjTree r ts)
  then have "map (\<lambda>t. object_paths (object_config_of path t)) ts
      = map (\<lambda>t. map (\<lambda>r. path (on_id r)) (flatten t)) ts"
    by simp
  then show ?case by (simp add: map_concat o_def del: map_eq_conv)
qed

lemma tree_paths:
  assumes "objects_ok t" "r \<in> set (buildObjectNodeTree ns t)"
  shows "path (on_id r) \<in> set (concat (map object_paths
    (map (object_config_of path) (buildTree (buildObjectNodeTree ns t)))))"
proof -
  have "set (concat (map flatten (buildTree (buildObjectNodeTree ns t)))) = set (buildObjectNodeTree ns t)"
    using buildTree_complete [OF container_rows(1) [OF assms(1)]] by (metis set_mset_mset)
  with assms(2) obtain tr where "tr \<in> set (buildTree (buildObjectNodeTree ns t))" "r \<in> set (flatten tr)"
    by auto
  then show ?thesis by (auto simp: object_paths_of)
qed

definition placed :: "namespace_config \<Rightarrow> node_config \<Rightarrow> bool" where
  "placed nsc n \<longleftrightarrow>
     nc_parentPath n = nsc_name nsc
     \<or> List.member (concat (map object_paths (nsc_objectNodes nsc))) (nc_parentPath n)"

lemma nodes_placed:
  assumes "objects_ok t"
  shows "list_all (placed (plain_namespace_config t index ns)) (nsc_nodes (plain_namespace_config t index ns))"
proof -
  have "placed (plain_namespace_config t index ns) (node_config_of i m n (node_path t ns n))" for i m n
    using assms
  proof (cases rule: node_path_cases [where ns = ns and n = n])
    case namespace
    then show ?thesis
      by (simp add: placed_def plain_namespace_config_def
          node_config_of_def Let_def)
  next
    case (container r)
    from tree_paths [OF assms container(1), of "container_path_text t ns"] container(2) show ?thesis
      by (simp add: placed_def plain_namespace_config_def
          node_config_of_def Let_def)
  qed
  then show ?thesis
    by (simp add: plain_namespace_config_def list_all_iff)
qed

lemma map_enumerate_snd: "map (\<lambda>p. f (snd p)) (enumerate k xs) = map f xs"
  by (induction xs arbitrary: k) simp_all

lemma enumerate_all2: "(\<And>i x. x \<in> set xs \<Longrightarrow> P (i, x) x) \<Longrightarrow> list_all2 P (enumerate k xs) xs"
  by (induction xs arbitrary: k) auto

text \<open>C9: Generating the configuration ends, on every database that can be reached and whose containers
  are a forest: the walk up from a container is a loop. It throws exactly if a variable is mapped
  to a connection whose stored parameters are JSON null, for it reads the host of these. Otherwise
  it lists every namespace once, in the order of their names, with the variables of that namespace
  in the order of theirs, and every variable has the parent path of a container that is listed in
  the same namespace, or the name of the namespace itself, so that the runtime finds the parent.\<close>

theorem generate_returns:
  assumes "objects_ok (db_tables d)" "db_open d" "db_alive d" "db_accessible d"
  shows "if null_mapped (db_tables d) then generate env d = Some (Inl (OtherError null_params))
    else \<exists>cfg warnings. generate env d = Some (Inr (cfg, warnings))
      \<and> list_all2 (\<lambda>nsc ns. nsc_name nsc = ns_name ns
            \<and> map nc_name (nsc_nodes nsc)
              = map nd_name (sort_key nd_name (filter (\<lambda>n. nd_namespace n = ns_id ns) (t_nodes (db_tables d)))))
          (ac_namespaces cfg) (sort_key ns_name (t_namespaces (db_tables d)))
      \<and> list_all (\<lambda>nsc. list_all (placed nsc) (nsc_nodes nsc)) (ac_namespaces cfg)"
proof -
  let ?t = "db_tables d"
  let ?nss = "map (\<lambda>(i, ns). plain_namespace_config ?t i ns) (enumerate 0 (namespace_rows ?t))"
  have "list_all2 (\<lambda>nsc ns. nsc_name nsc = ns_name ns
        \<and> map nc_name (nsc_nodes nsc) = map nd_name (node_rows (ns_id ns) ?t)) ?nss (namespace_rows ?t)"
    unfolding list_all2_map1
    by (rule enumerate_all2) (simp add: plain_namespace_config_def node_config_of_def Let_def)
  moreover have "list_all (\<lambda>nsc. list_all (placed nsc) (nsc_nodes nsc)) ?nss"
    using nodes_placed [OF assms(1)] by (auto simp: list_all_iff)
  ultimately show ?thesis
    by (simp add: generate_outcome [OF assms] namespace_rows_def node_rows_def)
qed

text \<open>C12: The runtime is never told to encrypt without what it needs: if the mode of the security
  section is not \<open>None\<close>, it names a certificate, a private key and two directories that exist,
  and it is the stored mode. Otherwise the stored mode was \<open>None\<close>, or there is none stored, or a
  warning says why it was not taken over.\<close>

theorem security_section_usable:
  "let (so, warnings) = buildSecurityConfig env t in
     (if so_mode so = ''None''
      then warnings \<noteq> [] \<or> (case t_security t of None \<Rightarrow> True | Some row \<Rightarrow> sec_mode row = ''None'')
      else warnings = [] \<and> map_option sec_mode (t_security t) = Some (so_mode so)
        \<and> truthy_str (so_certificatePath so) \<and> truthy_str (so_privateKeyPath so)
        \<and> (case so_pkiTrustedPath so of None \<Rightarrow> False | Some p \<Rightarrow> ge_exists env p)
        \<and> (case so_pkiRejectedPath so of None \<Rightarrow> False | Some p \<Rightarrow> ge_exists env p))"
  by (cases "t_security t")
    (auto simp: buildSecurityConfig_def no_security_output_def Let_def split: prod.splits if_splits)

section \<open>Node ids\<close>

lemma distinct_enumerated:
  assumes "\<And>i x. x \<in> set xs \<Longrightarrow> distinct (f (i, x))"
    and "\<And>i j x y. i \<noteq> j \<Longrightarrow> x \<in> set xs \<Longrightarrow> y \<in> set xs \<Longrightarrow> set (f (i, x)) \<inter> set (f (j, y)) = {}"
  shows "distinct (concat (map f (enumerate k xs)))"
  using assms
proof (induction xs arbitrary: k)
  case (Cons x xs)
  have "set (f (k, x)) \<inter> set (f q) = {}" if "q \<in> set (enumerate (Suc k) xs)" for q
  proof -
    obtain j y where q: "q = (j, y)" by (cases q)
    with that have "j \<noteq> k" "y \<in> set xs" by (auto simp: in_set_enumerate_eq nth_mem)
    then show ?thesis using Cons.prems(2) [of k j x y] q by auto
  qed
  moreover have "distinct (concat (map f (enumerate (Suc k) xs)))"
    by (rule Cons.IH) (use Cons.prems in auto)
  ultimately show ?case using Cons.prems(1) [of x k] by auto
qed simp

lemma cut_at:
  "c \<notin> set xs \<Longrightarrow> c \<notin> set ys \<Longrightarrow> xs @ c # us = ys @ c # vs \<longleftrightarrow> xs = ys \<and> us = vs"
proof (induction xs arbitrary: ys)
  case Nil
  then show ?case by (cases ys) auto
next
  case (Cons x xs)
  then show ?case by (cases ys) auto
qed

lemma node_id_text_inject:
  assumes "node_id_text i p n = node_id_text j q m" "CHR ''.'' \<notin> set n" "CHR ''.'' \<notin> set m"
  shows "i = j" "p = q" "n = m"
proof -
  have semi: "CHR '';'' \<notin> set (show_nat k)" for k
    using show_nat_digits [of "CHR '';''" k] by (auto simp: is_digit_def)
  from assms(1) have "show_nat i @ CHR '';'' # ''s='' @ p @ ''.'' @ n
      = show_nat j @ CHR '';'' # ''s='' @ q @ ''.'' @ m"
    by (simp add: node_id_text_def)
  then have "i = j" and rest: "p @ CHR ''.'' # n = q @ CHR ''.'' # m"
    by (simp_all add: cut_at semi)
  from rest have "rev n @ CHR ''.'' # rev p = rev m @ CHR ''.'' # rev q"
    by (metis append.assoc append_Cons append_Nil rev.simps(2) rev_append)
  with assms(2,3) have "n = m" "p = q" by (simp_all add: cut_at)
  with \<open>i = j\<close> show "i = j" "p = q" "n = m" by simp_all
qed


lemma nodes_of_plain:
  assumes "objects_ok t"
  shows "map nc_nodeId (nsc_nodes (plain_namespace_config t index ns))
    = map (\<lambda>n. node_id_text (index + 2) (node_path t ns n) (nd_name n)) (node_rows (ns_id ns) t)"
  by (simp add: plain_namespace_config_def node_config_of_def Let_def)

lemma node_rows_named:
  assumes "integrity t"
  shows "inj_on nd_name (set (node_rows ns t))" "distinct (node_rows ns t)"
proof -
  have "distinct (map (\<lambda>r. (nd_namespace r, nd_name r)) (t_nodes t))"
    using assms by (simp add: integrity_def unique_ok_def)
  then have "inj_on (\<lambda>r. (nd_namespace r, nd_name r)) (set (t_nodes t))" and d: "distinct (t_nodes t)"
    by (simp_all add: distinct_map)
  then show "inj_on nd_name (set (node_rows ns t))" by (auto simp: inj_on_def node_rows_def)
  show "distinct (node_rows ns t)" using d by (simp add: node_rows_def)
qed

text \<open>C11: No two variables of a configuration have the same node id, whatever the namespaces and
  containers are called, as long as no variable has a dot in its name.\<close>

theorem node_ids_distinct:
  assumes "integrity (db_tables d)" "objects_ok (db_tables d)"
    and "list_all (\<lambda>n. CHR ''.'' \<notin> set (nd_name n)) (t_nodes (db_tables d))"
    and "generate env d = Some (Inr (cfg, warnings))"
  shows "distinct (map nc_nodeId (concat (map nsc_nodes (ac_namespaces cfg))))"
proof -
  let ?t = "db_tables d"
  let ?ids = "\<lambda>(index, ns). map (\<lambda>n. node_id_text (index + 2) (node_path ?t ns n) (nd_name n))
    (node_rows (ns_id ns) ?t)"
  have dots: "CHR ''.'' \<notin> set (nd_name n)" if "n \<in> set (node_rows ns ?t)" for n ns
    using assms(3) that by (auto simp: node_rows_def list_all_iff)
  have "map nc_nodeId (concat (map nsc_nodes (ac_namespaces cfg)))
      = concat (map ?ids (enumerate 0 (namespace_rows ?t)))"
    unfolding generated [OF assms(2,4)]
    by (simp add: map_concat o_def nodes_of_plain [OF assms(2)] case_prod_unfold)
  moreover have "distinct (concat (map ?ids (enumerate 0 (namespace_rows ?t))))"
  proof (rule distinct_enumerated)
    fix i and ns :: namespace_row
    have "inj_on (\<lambda>n. node_id_text (i + 2) (node_path ?t ns n) (nd_name n)) (set (node_rows (ns_id ns) ?t))"
    proof (rule inj_onI)
      fix n m assume nm: "n \<in> set (node_rows (ns_id ns) ?t)" "m \<in> set (node_rows (ns_id ns) ?t)"
        and "node_id_text (i + 2) (node_path ?t ns n) (nd_name n)
          = node_id_text (i + 2) (node_path ?t ns m) (nd_name m)"
      then have "nd_name n = nd_name m" using node_id_text_inject(3) dots by blast
      with nm show "n = m" using node_rows_named(1) [OF assms(1)] by (simp add: inj_on_def)
    qed
    then show "distinct (?ids (i, ns))" using node_rows_named(2) [OF assms(1)] by (simp add: distinct_map)
  next
    fix i j :: nat and ns ns' :: namespace_row
    assume "i \<noteq> j"
    show "set (?ids (i, ns)) \<inter> set (?ids (j, ns')) = {}"
    proof (rule ccontr)
      assume "\<not> ?thesis"
      then obtain n m where "n \<in> set (node_rows (ns_id ns) ?t)" "m \<in> set (node_rows (ns_id ns') ?t)"
        "node_id_text (i + 2) (node_path ?t ns n) (nd_name n)
          = node_id_text (j + 2) (node_path ?t ns' m) (nd_name m)"
        by auto
      from node_id_text_inject(1) [OF this(3) dots dots] this(1,2) have "i + 2 = j + 2" by blast
      with \<open>i \<noteq> j\<close> show False by simp
    qed
  qed
  ultimately show ?thesis by simp
qed


definition demo_variable :: "string \<Rightarrow> string \<Rightarrow> string option \<Rightarrow> node_row" where
  "demo_variable i name container =
     \<lparr>nd_id = i, nd_namespace = ''ns'', nd_object = container, nd_name = name, nd_dataType = ''Int16'',
      nd_initial = None, nd_description = None, nd_created = [], nd_updated = []\<rparr>"

definition demo_plant :: "node_row list \<Rightarrow> database" where
  "demo_plant nodes = (open_database None)\<lparr>db_tables := demo_objects\<lparr>t_nodes := nodes\<rparr>\<rparr>"

definition plant_env :: generator_env where
  "plant_env = \<lparr>ge_now = ''now'', ge_port = 4840, ge_resolve = id, ge_exists = (\<lambda>_. True),
     ge_statement_error = OtherError ''disk I/O error''\<rparr>"

lemma demo_plant_facts:
  "objects_ok (db_tables (demo_plant nodes))" "db_open (demo_plant nodes)"
  "db_alive (demo_plant nodes)" "db_accessible (demo_plant nodes)"
  "\<not> null_mapped (db_tables (demo_plant nodes))"
  using demo_objects_ok
  by (simp_all add: demo_plant_def open_database_def objects_ok_def null_mapped_def demo_objects_def
      fresh_tables_def)

lemma generate_returns_witness:
  "\<exists>cfg warnings. generate plant_env (demo_plant [demo_variable ''v'' ''Speed'' (Some ''b'')])
       = Some (Inr (cfg, warnings))
     \<and> map (map nc_name \<circ> nsc_nodes) (ac_namespaces cfg) = [[''Speed'']]
     \<and> list_all (\<lambda>nsc. list_all (placed nsc) (nsc_nodes nsc)) (ac_namespaces cfg)"
  using generate_returns [OF demo_plant_facts(1-4), of "[demo_variable ''v'' ''Speed'' (Some ''b'')]" plant_env]
    demo_plant_facts(5)
  by (auto simp: demo_plant_def demo_objects_def demo_variable_def list_all2_Cons2 sort_key_def)

text \<open>A connection that has lost its parameters to \<open>null\<close>, and a variable mapped to it.\<close>

definition null_plant :: database where
  "null_plant = (demo_plant [demo_variable ''v'' ''Speed'' None])\<lparr>db_tables :=
     (db_tables (demo_plant [demo_variable ''v'' ''Speed'' None]))\<lparr>
       t_connections := [\<lparr>cfg_id = ''c1'', cfg_type = ''s7'', cfg_name = ''Press'', cfg_params = JNull,
         cfg_pollingIntervalMs = 1000, cfg_reconnectIntervalMs = 5000, cfg_enabled = True, cfg_createdAt = []\<rparr>],
       t_mappings := [\<lparr>map_id = ''m1'', map_connectionId = ''c1'', map_nodeId = Some ''v'',
         map_deviceAddress = ''DB1,INT0'', map_description = None, map_createdAt = []\<rparr>]\<rparr>\<rparr>"

lemma null_params_stop_generation:
  "generate plant_env null_plant = Some (Inl (OtherError null_params))"
proof -
  have "null_mapped (db_tables null_plant)" by code_simp
  moreover have "objects_ok (db_tables null_plant)" "db_open null_plant" "db_alive null_plant"
    "db_accessible null_plant"
    using demo_plant_facts(1-4) by (simp_all add: null_plant_def objects_ok_def)
  ultimately show ?thesis by (simp add: generate_outcome)
qed

lemma node_ids_distinct_witness:
  "\<exists>cfg warnings.
     generate plant_env (demo_plant [demo_variable ''v'' ''Speed'' (Some ''b''), demo_variable ''w'' ''Level'' None])
       = Some (Inr (cfg, warnings))
     \<and> distinct (map nc_nodeId (concat (map nsc_nodes (ac_namespaces cfg))))"
proof -
  let ?d = "demo_plant [demo_variable ''v'' ''Speed'' (Some ''b''), demo_variable ''w'' ''Level'' None]"
  have "integrity (db_tables ?d)"
    by (simp add: demo_plant_def demo_objects_def demo_variable_def open_database_def integrity_def
        notnull_ok_def unique_ok_def foreign_ok_def fresh_tables_def ref_ok_def)
  moreover have "list_all (\<lambda>n. CHR ''.'' \<notin> set (nd_name n)) (t_nodes (db_tables ?d))"
    by (simp add: demo_plant_def demo_variable_def)
  moreover obtain cfg w where "generate plant_env ?d = Some (Inr (cfg, w))"
    using generate_ends [OF demo_plant_facts, of plant_env] by blast
  ultimately show ?thesis using node_ids_distinct demo_plant_facts(1) by blast
qed

lemma security_section_usable_witness:
  "let t = fresh_tables\<lparr>t_security := Some \<lparr>sec_mode = ''Sign'', sec_certificate = Some ''c.pem'',
         sec_key = Some ''k.pem'', sec_updated = []\<rparr>\<rparr>;
       so = fst (buildSecurityConfig plant_env t)
   in so_mode so = ''Sign'' \<and> truthy_str (so_privateKeyPath so)"
proof -
  let ?t = "fresh_tables\<lparr>t_security := Some \<lparr>sec_mode = ''Sign'', sec_certificate = Some ''c.pem'',
         sec_key = Some ''k.pem'', sec_updated = []\<rparr>\<rparr>"
  have mode: "so_mode (fst (buildSecurityConfig plant_env ?t)) = ''Sign''"
    by (simp add: buildSecurityConfig_def plant_env_def no_security_output_def Let_def)
  with security_section_usable [of plant_env ?t] show ?thesis by (simp add: Let_def split_beta)
qed

text \<open>
  With a dot the ids can clash: a variable \<open>A.x\<close> of a namespace and a variable \<open>x\<close> of its
  container \<open>A\<close>.
\<close>

lemma dotted_name_clashes:
  "node_id_text i (join ''.'' [ns, a]) x = node_id_text i ns (a @ ''.'' @ x)"
  by (simp add: node_id_text_def)


section \<open>The file\<close>

text \<open>\<open>JSON.stringify(value, null, 2)\<close>: as \<open>json\<close>, with a line for every element and member.\<close>

definition block :: "string \<Rightarrow> char \<Rightarrow> char \<Rightarrow> string list \<Rightarrow> string" where
  "block indent l r items =
     (if items = [] then [l, r]
      else l # lf # join ('','' @ [lf]) (map (\<lambda>i. indent @ ''  '' @ i) items) @ lf # indent @ [r])"

fun json_pretty :: "text_of_number \<Rightarrow> string \<Rightarrow> jsval \<Rightarrow> string"
  and pretty_elems :: "text_of_number \<Rightarrow> string \<Rightarrow> jsval list \<Rightarrow> string list"
  and pretty_members :: "text_of_number \<Rightarrow> string \<Rightarrow> (string \<times> jsval) list \<Rightarrow> string list" where
  "json_pretty nt indent (JArr vs) = block indent CHR ''['' CHR '']'' (pretty_elems nt (indent @ ''  '') vs)"
| "json_pretty nt indent (JObj ps) =
     block indent CHR ''{'' CHR ''}'' (pretty_members nt (indent @ ''  '') ps)"
| "json_pretty nt indent v = json nt v"
| "pretty_elems nt indent [] = []"
| "pretty_elems nt indent (v # vs) =
     (if v = JUndefined then ''null'' else json_pretty nt indent v) # pretty_elems nt indent vs"
| "pretty_members nt indent [] = []"
| "pretty_members nt indent (p # ps) =
     (if snd p = JUndefined then pretty_members nt indent ps
      else (json_string (fst p) @ '': '' @ json_pretty nt indent (snd p)) # pretty_members nt indent ps)"

definition optional_member :: "string \<Rightarrow> jsval option \<Rightarrow> (string \<times> jsval) list" where
  "optional_member k v = (case v of None \<Rightarrow> [] | Some x \<Rightarrow> [(k, x)])"

definition security_json :: "security_output \<Rightarrow> jsval" where
  "security_json so =
     JObj ((''mode'', JStr (so_mode so))
       # optional_member ''certificatePath'' (map_option JStr (so_certificatePath so))
       @ optional_member ''privateKeyPath'' (map_option JStr (so_privateKeyPath so))
       @ optional_member ''applicationUri'' (map_option JStr (so_applicationUri so))
       @ optional_member ''pkiTrustedPath'' (map_option JStr (so_pkiTrustedPath so))
       @ optional_member ''pkiRejectedPath'' (map_option JStr (so_pkiRejectedPath so)))"

fun object_json :: "object_config \<Rightarrow> jsval" where
  "object_json (ObjectConfig name path cs) =
     JObj [(''name'', JStr name), (''path'', JStr path), (''children'', JArr (map object_json cs))]"

definition mapping_json :: "connector_mapping_config \<Rightarrow> jsval" where
  "mapping_json m =
     JObj [(''connectionType'', JStr (cmc_connectionType m)),
           (''connectionHost'', cmc_connectionHost m), (''deviceAddress'', JStr (cmc_deviceAddress m))]"

definition s7_mapping_json :: "s7_mapping_config \<Rightarrow> jsval" where
  "s7_mapping_json m =
     JObj [(''connectionHost'', smc_connectionHost m), (''plcAddress'', JStr (smc_plcAddress m))]"

definition node_json :: "node_config \<Rightarrow> jsval" where
  "node_json n =
     JObj ([(''name'', JStr (nc_name n)), (''nodeId'', JStr (nc_nodeId n)),
            (''dataType'', JStr (nc_dataType n)), (''parentPath'', JStr (nc_parentPath n))]
       @ optional_member ''initialValue'' (nc_initialValue n)
       @ optional_member ''connectorMapping'' (map_option mapping_json (nc_connectorMapping n))
       @ optional_member ''s7Mapping'' (map_option s7_mapping_json (nc_s7Mapping n)))"

definition namespace_json :: "namespace_config \<Rightarrow> jsval" where
  "namespace_json ns =
     JObj [(''name'', JStr (nsc_name ns)), (''uri'', JStr (nsc_uri ns)),
           (''objectNodes'', JArr (map object_json (nsc_objectNodes ns))),
           (''nodes'', JArr (map node_json (nsc_nodes ns)))]"

definition config_json :: "address_space_config \<Rightarrow> jsval" where
  "config_json cfg =
     JObj [(''version'', jint (int (ac_version cfg))), (''generatedAt'', JStr (ac_generatedAt cfg)),
           (''port'', jint (ac_port cfg)), (''security'', security_json (ac_security cfg)),
           (''namespaces'', JArr (map namespace_json (ac_namespaces cfg)))]"

text \<open>\<open>write\<close> is \<open>writeFileSync\<close>, which may throw.\<close>

definition writeToFile ::
  "generator_env \<Rightarrow> text_of_number \<Rightarrow> (string \<Rightarrow> string \<Rightarrow> db_error + 'w) \<Rightarrow> string \<Rightarrow> database
     \<Rightarrow> (db_error + 'w) option" where
  "writeToFile env nt write path d =
     map_option (\<lambda>r. case r of Inl e \<Rightarrow> Inl e
                     | Inr (cfg, _) \<Rightarrow> write path (json_pretty nt [] (config_json cfg)))
       (generate env d)"
end
