(* ===== verification/IpcBridge.thy ===== *)
theory IpcBridge
  imports ConfigGenerator ProcessManager
begin

text \<open>
  \<open>src/connectors/core/ipc-bridge.ts\<close>: the connectors report values by the database's ids of the
  variables; the runtime knows them by the node ids of its configuration file. The bridge
  translates with a map it builds from a generated configuration and keeps.

  What the bridge needs of the process manager is a record of two operations; the locale
  \<open>runtime_port\<close> states what they promise, and the process manager is an instance.
\<close>

section \<open>The runtime as the bridge sees it\<close>

record 'p runtime_ops =
  ro_running :: "'p \<Rightarrow> bool"
  ro_write :: "string \<Rightarrow> 'p \<Rightarrow> (string + bool) \<times> 'p"

record bridge =
  br_map :: "(string, string) jmap option"
  br_log :: "(string \<times> string) list"

definition new_bridge :: bridge where
  "new_bridge = \<lparr>br_map = None, br_log = []\<rparr>"

definition note_log :: "string \<Rightarrow> string \<Rightarrow> bridge \<Rightarrow> bridge" where
  "note_log severity msg b = b\<lparr>br_log := br_log b @ [(severity, msg)]\<rparr>"

definition invalidateMap :: "bridge \<Rightarrow> bridge" where
  "invalidateMap b = b\<lparr>br_map := None\<rparr>"

section \<open>The map\<close>

text \<open>The id of a variable, by its name and the name of its namespace: the first row of the join.\<close>

definition node_id_by_name :: "string \<Rightarrow> string \<Rightarrow> tables \<Rightarrow> string option" where
  "node_id_by_name name ns t =
     (case [nd_id n. n \<leftarrow> t_nodes t, s \<leftarrow> t_namespaces t,
              nd_namespace n = ns_id s, nd_name n = name, ns_name s = ns] of
        [] \<Rightarrow> None
      | i # _ \<Rightarrow> Some i)"

definition node_ids_of :: "address_space_config \<Rightarrow> (string \<times> string \<times> string) list" where
  "node_ids_of cfg =
     [(nc_name n, nsc_name ns, nc_nodeId n). ns \<leftarrow> ac_namespaces cfg, n \<leftarrow> nsc_nodes ns]"

definition add_node_id ::
  "tables \<Rightarrow> (string, string) jmap \<Rightarrow> string \<times> string \<times> string \<Rightarrow> (string, string) jmap" where
  "add_node_id t m q =
     (let (name, ns, nid) = q in
      case node_id_by_name name ns t of None \<Rightarrow> m | Some i \<Rightarrow> jset m i nid)"

definition buildNodeIdMap ::
  "generator_env \<Rightarrow> database \<Rightarrow> (db_error + (string, string) jmap) option" where
  "buildNodeIdMap env d =
     (case generate env d of
        None \<Rightarrow> None
      | Some (Inl e) \<Rightarrow> Some (Inl e)
      | Some (Inr (cfg, _)) \<Rightarrow> Some (Inr (foldl (add_node_id (db_tables d)) [] (node_ids_of cfg))))"

section \<open>Updates\<close>

text \<open>
  The filter asks for one update after the other and builds the map again for an id that is not
  in it; what it throws ends the call. The translation looks up the ids in the last map.
\<close>

fun known_updates ::
  "generator_env \<Rightarrow> database \<Rightarrow> value_update list \<Rightarrow> bridge
     \<Rightarrow> ((db_error + value_update list) \<times> bridge) option" where
  "known_updates env d [] b = Some (Inr [], b)"
| "known_updates env d (u # us) b =
     (if jhas (the (br_map b)) (upd_nodeId u)
      then map_option (\<lambda>(r, b1). (map_sum id (Cons u) r, b1)) (known_updates env d us b)
      else
        (let b1 = note_log ''warn'' (''Node UUID '' @ upd_nodeId u @ '' not in map, rebuilding...'') b in
         case buildNodeIdMap env d of
           None \<Rightarrow> None
         | Some (Inl e) \<Rightarrow> Some (Inl e, b1)
         | Some (Inr m) \<Rightarrow>
             map_option (\<lambda>(r, b2). (map_sum id (if jhas m (upd_nodeId u) then Cons u else id) r, b2))
               (known_updates env d us (b1\<lparr>br_map := Some m\<rparr>))))"

definition resolved_update :: "text_of_time \<Rightarrow> (string, string) jmap \<Rightarrow> value_update \<Rightarrow> jsval" where
  "resolved_update ts m u =
     JObj [(''nodeId'', case jget m (upd_nodeId u) of None \<Rightarrow> JUndefined | Some i \<Rightarrow> JStr i),
           (''value'', upd_value u), (''quality'', JStr (quality_text (upd_quality u))),
           (''timestamp'', JStr (ts (upd_timestamp u)))]"

definition update_message ::
  "text_of_number \<Rightarrow> text_of_time \<Rightarrow> (string, string) jmap \<Rightarrow> value_update list \<Rightarrow> string" where
  "update_message nt ts m us =
     json nt (JObj [(''type'', JStr ''value_update''), (''updates'', JArr (map (resolved_update ts m) us))])
       @ [lf]"

definition send_updates ::
  "'p runtime_ops \<Rightarrow> text_of_number \<Rightarrow> text_of_time \<Rightarrow> nat \<Rightarrow> value_update list \<Rightarrow> bridge \<Rightarrow> 'p
     \<Rightarrow> bridge \<times> 'p" where
  "send_updates ops nt ts n us b p =
     (if us = [] then
        (note_log ''warn'' (''No updates resolved ('' @ show_nat n @ '' input, 0 matched)'') b, p)
      else
        (case ro_write ops (update_message nt ts (the (br_map b)) us) p of
           (Inl e, p1) \<Rightarrow> (note_log ''error'' (''Failed to write to stdin: '' @ e) b, p1)
         | (Inr _, p1) \<Rightarrow>
             (note_log ''debug'' (''Sent '' @ show_nat (length us) @ '' value(s) to runtime stdin'') b, p1)))"

definition with_map ::
  "generator_env \<Rightarrow> database \<Rightarrow> bridge \<Rightarrow> ((db_error + unit) \<times> bridge) option" where
  "with_map env d b =
     (case br_map b of
        Some _ \<Rightarrow> Some (Inr (), b)
      | None \<Rightarrow>
          (case buildNodeIdMap env d of
             None \<Rightarrow> None
           | Some (Inl e) \<Rightarrow> Some (Inl e, b)
           | Some (Inr m) \<Rightarrow>
               Some (Inr (), note_log ''info''
                 (''Built node ID map: '' @ show_nat (length m) @ '' mapping(s)'') (b\<lparr>br_map := Some m\<rparr>))))"

definition handleValueUpdates ::
  "'p runtime_ops \<Rightarrow> generator_env \<Rightarrow> text_of_number \<Rightarrow> text_of_time \<Rightarrow> database
     \<Rightarrow> value_update list \<Rightarrow> bridge \<times> 'p \<Rightarrow> ((db_error + unit) \<times> bridge \<times> 'p) option" where
  "handleValueUpdates ops env nt ts d us s =
     (let (b, p) = s in
      if \<not> ro_running ops p then
        Some (Inr (), note_log ''debug''
          (''Skipping '' @ show_nat (length us) @ '' update(s): runtime not running'') b, p)
      else
        (case with_map env d b of
           None \<Rightarrow> None
         | Some (Inl e, b1) \<Rightarrow> Some (Inl e, b1, p)
         | Some (Inr _, b1) \<Rightarrow>
             (case known_updates env d us b1 of
                None \<Rightarrow> None
              | Some (Inl e, b2) \<Rightarrow> Some (Inl e, b2, p)
              | Some (Inr known, b2) \<Rightarrow>
                  Some (Inr (), send_updates ops nt ts (length us) known b2 p))))"

section \<open>The map is right\<close>

lemma first_of_equal:
  assumes "\<And>i. i \<in> set xs \<Longrightarrow> i = a" and "a \<in> set xs"
  shows "(case xs of [] \<Rightarrow> None | i # _ \<Rightarrow> Some i) = Some a"
proof (cases xs)
  case Nil
  with assms(2) show ?thesis by simp
next
  case (Cons x ys)
  with assms(1) [of x] show ?thesis by simp
qed

lemma node_id_by_name_row:
  assumes "integrity t" "n \<in> set (t_nodes t)" "s \<in> set (t_namespaces t)" "nd_namespace n = ns_id s"
  shows "node_id_by_name (nd_name n) (ns_name s) t = Some (nd_id n)"
proof -
  let ?ids = "[nd_id m. m \<leftarrow> t_nodes t, r \<leftarrow> t_namespaces t,
    nd_namespace m = ns_id r, nd_name m = nd_name n, ns_name r = ns_name s]"
  have d: "inj_on ns_name (set (t_namespaces t))"
    "inj_on (\<lambda>r. (nd_namespace r, nd_name r)) (set (t_nodes t))"
    using assms(1) by (simp_all add: integrity_def unique_ok_def distinct_map)
  have "i = nd_id n" if "i \<in> set ?ids" for i
  proof -
    from that obtain m r where m: "m \<in> set (t_nodes t)" "r \<in> set (t_namespaces t)"
      "nd_namespace m = ns_id r" "nd_name m = nd_name n" "ns_name r = ns_name s" "i = nd_id m"
      by (auto split: if_splits)
    then have "r = s" using d(1) assms(3) by (meson inj_onD)
    with m assms have "m = n" using inj_onD [OF d(2), of m n] by simp
    with m show ?thesis by simp
  qed
  moreover have "nd_id n \<in> set ?ids"
    using assms(2-4) by (auto intro!: bexI [of _ n] bexI [of _ s])
  ultimately show ?thesis
    unfolding node_id_by_name_def by (rule first_of_equal)
qed

lemma node_ids_listed:
  assumes "objects_ok (db_tables d)" "generate env d = Some (Inr (cfg, w))"
  shows "node_ids_of cfg = concat (map (\<lambda>(i, ns).
    map (\<lambda>n. (nd_name n, ns_name ns, node_id_text (i + 2) (node_path (db_tables d) ns n) (nd_name n)))
      (node_rows (ns_id ns) (db_tables d))) (enumerate 0 (namespace_rows (db_tables d))))"
proof -
  show ?thesis
    unfolding node_ids_of_def generated [OF assms]
    by (simp add: plain_namespace_config_def node_config_of_def Let_def case_prod_unfold o_def)
qed

text \<open>The variables with their node ids.\<close>

definition id_pairs :: "tables \<Rightarrow> (string \<times> string) list" where
  "id_pairs t = concat (map (\<lambda>(i, ns).
     map (\<lambda>n. (nd_id n, node_id_text (i + 2) (node_path t ns n) (nd_name n))) (node_rows (ns_id ns) t))
     (enumerate 0 (namespace_rows t)))"

lemma distinct_concat_map:
  "distinct xs \<Longrightarrow> (\<And>x. x \<in> set xs \<Longrightarrow> distinct (f x)) \<Longrightarrow>
    (\<And>x y. x \<in> set xs \<Longrightarrow> y \<in> set xs \<Longrightarrow> x \<noteq> y \<Longrightarrow> set (f x) \<inter> set (f y) = {}) \<Longrightarrow>
    distinct (concat (map f xs))"
proof (induction xs)
  case (Cons x xs)
  then have "set (f x) \<inter> set (f y) = {}" if "y \<in> set xs" for y
    using that by (metis distinct.simps(2) list.set_intros(1,2))
  with Cons show ?case by auto
qed simp

lemma id_pairs_keys:
  "map fst (id_pairs t) = concat (map (\<lambda>ns. map nd_id (node_rows (ns_id ns) t)) (namespace_rows t))"
proof -
  have "map fst (id_pairs t) = concat (map (\<lambda>p. map nd_id (node_rows (ns_id (snd p)) t))
      (enumerate 0 (namespace_rows t)))"
    by (simp add: id_pairs_def map_concat o_def case_prod_unfold)
  also have "\<dots> = concat (map (\<lambda>ns. map nd_id (node_rows (ns_id ns) t)) (namespace_rows t))"
    by (simp only: map_enumerate_snd [of "\<lambda>ns. map nd_id (node_rows (ns_id ns) t)"])
  finally show ?thesis .
qed

lemma id_pairs_distinct:
  assumes "integrity t"
  shows "distinct (map fst (id_pairs t))"
proof -
  have d: "distinct (map nd_id (t_nodes t))" "distinct (map ns_id (t_namespaces t))"
    using assms by (simp_all add: integrity_def unique_ok_def)
  have "map fst (id_pairs t) = concat (map (\<lambda>ns. map nd_id (node_rows (ns_id ns) t)) (namespace_rows t))"
    by (rule id_pairs_keys)
  also have "distinct \<dots>"
  proof (rule distinct_concat_map)
    show "distinct (namespace_rows t)" using d(2) by (simp add: namespace_rows_def distinct_map)
    show "distinct (map nd_id (node_rows i t))" for i
      using d(1) by (auto simp: node_rows_def distinct_map inj_on_def)
    fix ns ns' assume "ns \<in> set (namespace_rows t)" "ns' \<in> set (namespace_rows t)" "ns \<noteq> ns'"
    then have ns: "ns_id ns \<noteq> ns_id ns'"
      using d(2) by (auto simp: namespace_rows_def distinct_map inj_on_def)
    show "set (map nd_id (node_rows (ns_id ns) t)) \<inter> set (map nd_id (node_rows (ns_id ns') t)) = {}"
    proof (rule ccontr)
      assume "\<not> ?thesis"
      then obtain n m where nm: "n \<in> set (t_nodes t)" "m \<in> set (t_nodes t)" "nd_id n = nd_id m"
        "nd_namespace n = ns_id ns" "nd_namespace m = ns_id ns'"
        by (auto simp: node_rows_def)
      from nm(1-3) d(1) have "n = m" by (simp add: distinct_map inj_on_def)
      with nm(4,5) ns show False by simp
    qed
  qed
  finally show ?thesis .
qed

lemma built_map:
  assumes "integrity (db_tables d)" "objects_ok (db_tables d)" "generate env d = Some (Inr (cfg, w))"
  obtains m where "buildNodeIdMap env d = Some (Inr m)" "\<And>i. jget m i = map_of (id_pairs (db_tables d)) i"
proof
  let ?t = "db_tables d"
  let ?named = "concat (map (\<lambda>(i, ns). map (\<lambda>n. (n, ns, node_id_text (i + 2) (node_path ?t ns n) (nd_name n)))
      (node_rows (ns_id ns) ?t)) (enumerate 0 (namespace_rows ?t)))"
  let ?m = "foldl (\<lambda>m (k, v). jset m k v) [] (id_pairs ?t)"
  have ids: "node_ids_of cfg = map (\<lambda>(n, ns, nid). (nd_name n, ns_name ns, nid)) ?named"
    by (simp add: node_ids_listed [OF assms(2,3)] map_concat o_def case_prod_unfold)
  have pairs: "id_pairs ?t = map (\<lambda>(n, ns, nid). (nd_id n, nid)) ?named"
    by (simp add: id_pairs_def map_concat o_def case_prod_unfold)
  have found: "node_id_by_name (nd_name n) (ns_name ns) ?t = Some (nd_id n)"
    if "(n, ns, nid) \<in> set ?named" for n ns nid
  proof (rule node_id_by_name_row [OF assms(1)])
    from that obtain i where i: "(i, ns) \<in> set (enumerate 0 (namespace_rows ?t))"
      and n: "n \<in> set (node_rows (ns_id ns) ?t)" by auto
    from i have "ns \<in> set (namespace_rows ?t)" by (auto simp: in_set_enumerate_eq nth_mem)
    then show "ns \<in> set (t_namespaces ?t)" by (simp add: namespace_rows_def)
    from n show "n \<in> set (t_nodes ?t)" "nd_namespace n = ns_id ns" by (simp_all add: node_rows_def)
  qed
  have "foldl (add_node_id ?t) m (map (\<lambda>(n, ns, nid). (nd_name n, ns_name ns, nid)) qs)
      = foldl (\<lambda>m (k, v). jset m k v) m (map (\<lambda>(n, ns, nid). (nd_id n, nid)) qs)"
    if "set qs \<subseteq> set ?named" for qs m
    using that
  proof (induction qs arbitrary: m)
    case (Cons q qs)
    obtain n ns nid where q: "q = (n, ns, nid)" by (cases q)
    with Cons.prems have "(n, ns, nid) \<in> set ?named" by (meson list.set_intros(1) subsetD)
    from found [OF this] have "add_node_id ?t m (nd_name n, ns_name ns, nid) = jset m (nd_id n) nid"
      by (simp add: add_node_id_def)
    moreover have "set qs \<subseteq> set ?named" using Cons.prems by (meson set_subset_Cons subset_trans)
    ultimately show ?case using Cons.IH by (simp add: q del: set_concat)
  qed simp
  then have "foldl (add_node_id ?t) [] (node_ids_of cfg) = ?m" unfolding ids pairs by blast
  then show "buildNodeIdMap env d = Some (Inr ?m)" using assms(3) by (simp add: buildNodeIdMap_def)
  show "jget ?m i = map_of (id_pairs ?t) i" for i
    using jm.get_foldl_put [OF id_pairs_distinct [OF assms(1)], of "[]" i] by (simp split: option.split)
qed


section \<open>What is sent\<close>

lemma known_updates_fresh:
  assumes "buildNodeIdMap env d = Some (Inr m)" "br_map b = Some m"
  shows "\<exists>b'. known_updates env d us b = Some (Inr (filter (\<lambda>u. jhas m (upd_nodeId u)) us), b')
    \<and> br_map b' = Some m"
  using assms(2)
proof (induction us arbitrary: b)
  case (Cons u us)
  show ?case
  proof (cases "jhas m (upd_nodeId u)")
    case True
    with Cons.IH [OF Cons.prems] Cons.prems show ?thesis by auto
  next
    case False
    let ?b = "note_log ''warn'' (''Node UUID '' @ upd_nodeId u @ '' not in map, rebuilding...'') b"
    from Cons.IH [of "?b\<lparr>br_map := Some m\<rparr>"] obtain b' where
      "known_updates env d us (?b\<lparr>br_map := Some m\<rparr>)
        = Some (Inr (filter (\<lambda>u. jhas m (upd_nodeId u)) us), b')" "br_map b' = Some m" by auto
    with False Cons.prems assms(1) show ?thesis by (auto simp: Let_def)
  qed
qed simp

lemma known_updates_all:
  "br_map b = Some m \<Longrightarrow> list_all (\<lambda>u. jhas m (upd_nodeId u)) us \<Longrightarrow>
    known_updates env d us b = Some (Inr us, b)"
  by (induction us) auto

lemma known_updates_subset:
  "known_updates env d us b = Some (Inr known, b') \<Longrightarrow> set known \<subseteq> set us"
proof (induction us arbitrary: known b b')
  case (Cons u us)
  obtain r0 f b1 where r0: "known_updates env d us b1 = Some (r0, b')" "map_sum id f r0 = Inr known"
    and f: "f = Cons u \<or> f = id"
  proof (cases "jhas (the (br_map b)) (upd_nodeId u)")
    case True
    with Cons.prems show thesis by (auto intro: that)
  next
    case False
    from False Cons.prems obtain m where "buildNodeIdMap env d = Some (Inr m)"
      by (auto simp: Let_def split: option.splits sum.splits)
    with False Cons.prems show thesis
      by (cases "jhas m (upd_nodeId u)") (auto simp: Let_def intro: that split: option.splits)
  qed
  from r0(2) obtain zs where "r0 = Inr zs" "known = f zs" by (cases r0) auto
  with Cons.IH [of b1 zs b'] r0(1) f show ?case by auto
qed simp

locale runtime_port =
  fixes ops :: "'p runtime_ops" and sent :: "'p \<Rightarrow> string list"
  assumes write_once: "ro_write ops x p = (r, p') \<Longrightarrow> sent p' = sent p \<or> sent p' = sent p @ [x]"
    and write_fails: "ro_write ops x p = (Inl e, p') \<Longrightarrow> sent p' = sent p"
    and write_stopped: "\<not> ro_running ops p \<Longrightarrow> \<exists>e. ro_write ops x p = (Inl e, p)"
begin

text \<open>One call sends one message at most, of updates it was given.\<close>

lemma one_message:
  assumes "handleValueUpdates ops env nt ts d us (b, p) = Some (r, b', p')"
  shows "sent p' = sent p
    \<or> (\<exists>m known. known \<noteq> [] \<and> set known \<subseteq> set us \<and> sent p' = sent p @ [update_message nt ts m known])"
proof (cases "p' = p")
  case False
  with assms obtain b1 known b2 where known: "known_updates env d us b1 = Some (Inr known, b2)"
    and sent: "(b', p') = send_updates ops nt ts (length us) known b2 p"
    by (auto simp: handleValueUpdates_def split: if_splits option.splits sum.splits prod.splits)
  have "known \<noteq> []" using sent False by (auto simp: send_updates_def)
  moreover obtain w p1 where w: "ro_write ops (update_message nt ts (the (br_map b2)) known) p = (w, p1)"
    by (cases "ro_write ops (update_message nt ts (the (br_map b2)) known) p")
  moreover have "p1 = p'" using sent w \<open>known \<noteq> []\<close> by (cases w) (auto simp: send_updates_def)
  ultimately show ?thesis using write_once [OF w] known_updates_subset [OF known] by blast
qed simp

lemma stopped_keeps:
  assumes "\<not> ro_running ops p"
  shows "\<exists>b'. handleValueUpdates ops env nt ts d us (b, p) = Some (Inr (), b', p) \<and> br_map b' = br_map b"
  using assms by (simp add: handleValueUpdates_def note_log_def)

end

section \<open>The process manager as the runtime\<close>

definition pm_ops :: "bool \<Rightarrow> bool \<Rightarrow> process_manager runtime_ops" where
  "pm_ops writable taken =
     \<lparr>ro_running = (\<lambda>p. pm_state p = Running), ro_write = writeToStdin writable taken\<rparr>"

definition pm_sent :: "process_manager \<Rightarrow> string list" where
  "pm_sent p = map snd (pm_stdin p)"

interpretation pm_port: runtime_port "pm_ops writable taken" pm_sent
  by unfold_locales
    (auto simp: pm_ops_def pm_sent_def writeToStdin_def split: option.splits if_splits)


lemma send_to_running:
  assumes "pm_state p = Running" "pm_process p \<noteq> None"
  shows "br_map (fst (send_updates (pm_ops writable taken) nt ts n us b p)) = br_map b"
    and "pm_sent (snd (send_updates (pm_ops writable taken) nt ts n us b p))
      = pm_sent p @ (if us = [] \<or> \<not> writable then [] else [update_message nt ts (the (br_map b)) us])"
  using assms
  by (auto simp: send_updates_def pm_ops_def writeToStdin_def pm_sent_def note_log_def)

lemma id_pairs_of_config:
  assumes "objects_ok (db_tables d)" "generate env d = Some (Inr (cfg, w))"
  shows "map snd (id_pairs (db_tables d)) = map nc_nodeId (concat (map nsc_nodes (ac_namespaces cfg)))"
    and "map fst (id_pairs (db_tables d))
      = concat (map (\<lambda>ns. map nd_id (node_rows (ns_id ns) (db_tables d))) (namespace_rows (db_tables d)))"
proof -
  have "map nc_nodeId (concat (map nsc_nodes (ac_namespaces cfg))) = map (snd \<circ> snd) (node_ids_of cfg)"
    by (simp add: node_ids_of_def map_concat o_def)
  also have "\<dots> = map snd (id_pairs (db_tables d))"
    by (simp add: node_ids_listed [OF assms] id_pairs_def map_concat o_def case_prod_unfold)
  finally show "map snd (id_pairs (db_tables d)) = map nc_nodeId (concat (map nsc_nodes (ac_namespaces cfg)))"
    by simp
  show "map fst (id_pairs (db_tables d))
      = concat (map (\<lambda>ns. map nd_id (node_rows (ns_id ns) (db_tables d))) (namespace_rows (db_tables d)))"
    by (rule id_pairs_keys)
qed

lemma update_message_cong:
  "(\<And>i. jget m i = jget m' i) \<Longrightarrow> update_message nt ts m us = update_message nt ts m' us"
proof -
  assume "\<And>i. jget m i = jget m' i"
  then have "resolved_update ts m = resolved_update ts m'" by (simp add: resolved_update_def fun_eq_iff)
  then show ?thesis by (simp only: update_message_def)
qed

text \<open>C10: The bridge sends what the connectors report under the node ids the runtime was given. With
  no map, or with one built from the tables as they are, a call on a running process writes one
  message with exactly the updates of the variables in the configuration, in order, if there are
  any of those and the process's input can be written to, and nothing otherwise. Each is sent under
  the node id under which the generated configuration lists its variable. The map the bridge keeps
  has these variables with these node ids and nothing else.\<close>

theorem bridge_translates:
  assumes "integrity (db_tables d)" "objects_ok (db_tables d)" "generate env d = Some (Inr (cfg, w))"
    and "pm_state p = Running" "pm_process p \<noteq> None"
    and "br_map b = None \<or> buildNodeIdMap env d = Some (Inr (the (br_map b)))"
  shows "let ids = concat (map (\<lambda>ns. map nd_id (node_rows (ns_id ns) (db_tables d))) (namespace_rows (db_tables d)));
       node_ids = map nc_nodeId (concat (map nsc_nodes (ac_namespaces cfg)));
       known = filter (\<lambda>u. List.member ids (upd_nodeId u)) us
     in length ids = length node_ids \<and> distinct ids
      \<and> (\<exists>m b' p'. handleValueUpdates (pm_ops writable taken) env nt ts d us (b, p) = Some (Inr (), b', p')
          \<and> pm_sent p' = pm_sent p
              @ (if known = [] \<or> \<not> writable then [] else [update_message nt ts (zip ids node_ids) known])
          \<and> br_map b' = Some m \<and> (\<forall>i. jget m i = jget (zip ids node_ids) i))"
proof -
  let ?t = "db_tables d" let ?ops = "pm_ops writable taken"
  obtain m where m: "buildNodeIdMap env d = Some (Inr m)" "\<And>i. jget m i = map_of (id_pairs ?t) i"
    using built_map [OF assms(1-3)] by blast
  obtain b1 where b1: "with_map env d b = Some (Inr (), b1)" "br_map b1 = Some m"
    using assms(6) m(1) by (cases "br_map b") (auto simp: with_map_def note_log_def)
  define known where "known = filter (\<lambda>u. jhas m (upd_nodeId u)) us"
  obtain b2 where b2: "known_updates env d us b1 = Some (Inr known, b2)" "br_map b2 = Some m"
    using known_updates_fresh [OF m(1) b1(2)] known_def by blast
  obtain b' p' where send: "send_updates ?ops nt ts (length us) known b2 p = (b', p')"
    by (cases "send_updates ?ops nt ts (length us) known b2 p")
  have "ro_running ?ops p" using assms(4) by (simp add: pm_ops_def)
  then have handled: "handleValueUpdates ?ops env nt ts d us (b, p) = Some (Inr (), b', p')"
    by (simp add: handleValueUpdates_def b1(1) b2(1) send)
  let ?ids = "map fst (id_pairs ?t)" and ?nids = "map snd (id_pairs ?t)"
  have zip: "jget m i = jget (zip ?ids ?nids) i" for i using m(2) by (simp add: zip_map_fst_snd)
  have known: "known = filter (\<lambda>u. List.member ?ids (upd_nodeId u)) us"
    unfolding known_def by (rule filter_cong) (auto simp: m(2) map_of_eq_None_iff)
  have "pm_sent p' = pm_sent p
      @ (if known = [] \<or> \<not> writable then [] else [update_message nt ts (zip ?ids ?nids) known])"
    using send_to_running(2) [OF assms(4,5), of writable taken nt ts "length us" known b2] send b2(2)
      update_message_cong [OF zip] by simp
  moreover have "br_map b' = Some m"
    using send_to_running(1) [OF assms(4,5), of writable taken nt ts "length us" known b2] send b2(2) by simp
  ultimately show ?thesis
    unfolding id_pairs_of_config [OF assms(2,3), symmetric] Let_def
    using handled zip known id_pairs_distinct [OF assms(1)] by auto
qed

text \<open>A map that knows the reported variables is used however old it is: the tables do not matter.
  Nothing in the program calls \<open>invalidateMap\<close>, so after a namespace, a container or a variable
  has been renamed its values go to the node id it had before.\<close>

lemma old_map_is_kept:
  assumes "br_map b = Some m" "list_all (\<lambda>u. jhas m (upd_nodeId u)) us" "us \<noteq> []"
    and "pm_state p = Running" "pm_process p \<noteq> None"
  shows "\<exists>b' p'. handleValueUpdates (pm_ops True taken) env nt ts d us (b, p) = Some (Inr (), b', p')
    \<and> br_map b' = Some m \<and> pm_sent p' = pm_sent p @ [update_message nt ts m us]"
proof -
  obtain b' p' where send: "send_updates (pm_ops True taken) nt ts (length us) us b p = (b', p')"
    by (cases "send_updates (pm_ops True taken) nt ts (length us) us b p")
  have "ro_running (pm_ops True taken) p" using assms(4) by (simp add: pm_ops_def)
  then have "handleValueUpdates (pm_ops True taken) env nt ts d us (b, p) = Some (Inr (), b', p')"
    using assms(1) known_updates_all [OF assms(1,2)]
    by (simp add: handleValueUpdates_def with_map_def send)
  then show ?thesis
    using send_to_running [OF assms(4,5), of True taken nt ts "length us" us b] send assms(1,3) by simp
qed


text \<open>A process that runs, and an update of the first of two variables.\<close>

definition demo_runtime :: process_manager where
  "demo_runtime = started"

definition demo_update :: "string \<Rightarrow> value_update" where
  "demo_update i = \<lparr>upd_nodeId = i, upd_value = JBool True, upd_quality = Good, upd_timestamp = 0\<rparr>"

definition bridge_plant :: database where
  "bridge_plant = demo_plant [demo_variable ''v'' ''Speed'' (Some ''b''), demo_variable ''w'' ''Level'' None]"

lemma bridge_plant_facts:
  "integrity (db_tables bridge_plant)" "objects_ok (db_tables bridge_plant)"
  "\<exists>cfg w. generate plant_env bridge_plant = Some (Inr (cfg, w))"
proof -
  show "integrity (db_tables bridge_plant)"
    by (simp add: bridge_plant_def demo_plant_def demo_objects_def demo_variable_def open_database_def
        integrity_def notnull_ok_def unique_ok_def foreign_ok_def fresh_tables_def ref_ok_def)
  show "objects_ok (db_tables bridge_plant)" unfolding bridge_plant_def by (rule demo_plant_facts)
  show "\<exists>cfg w. generate plant_env bridge_plant = Some (Inr (cfg, w))"
    unfolding bridge_plant_def using generate_ends [OF demo_plant_facts] by blast
qed

lemma demo_runtime_runs: "pm_state demo_runtime = Running" "pm_process demo_runtime \<noteq> None"
  "pm_stdin demo_runtime = []"
  by code_simp+

lemma bridge_translates_witness:
  "\<exists>m b' p'. handleValueUpdates (pm_ops True True) plant_env (\<lambda>_. []) (\<lambda>_. []) bridge_plant
      [demo_update ''w'', demo_update ''gone''] (new_bridge, demo_runtime) = Some (Inr (), b', p')
    \<and> br_map b' = Some m \<and> jget m ''v'' \<noteq> None \<and> jget m ''gone'' = None \<and> length (pm_sent p') = 1"
proof -
  obtain cfg w where cfg: "generate plant_env bridge_plant = Some (Inr (cfg, w))"
    using bridge_plant_facts(3) by blast
  have "br_map new_bridge = None \<or>
      buildNodeIdMap plant_env bridge_plant = Some (Inr (the (br_map new_bridge)))"
    by (simp add: new_bridge_def)
  have ids: "concat (map (\<lambda>ns. map nd_id (node_rows (ns_id ns) (db_tables bridge_plant)))
          (namespace_rows (db_tables bridge_plant))) = [''w'', ''v'']"
    by code_simp
  from bridge_translates [OF bridge_plant_facts(1,2) cfg demo_runtime_runs(1,2) \<open>br_map new_bridge = None \<or> _\<close>,
      where writable = True and taken = True and nt = "\<lambda>_. []" and ts = "\<lambda>_. []"
        and us = "[demo_update ''w'', demo_update ''gone'']"]
  show ?thesis
    unfolding ids Let_def
    by (auto simp: demo_update_def demo_runtime_runs(3) pm_sent_def length_Suc_conv
        eq_commute [of "Suc (Suc 0)"])
qed

lemma old_map_is_kept_witness:
  "\<exists>b' p'. handleValueUpdates (pm_ops True True) plant_env (\<lambda>_. []) (\<lambda>_. []) bridge_plant
      [demo_update ''v''] (\<lparr>br_map = Some [(''v'', ''ns=2;s=Old.Speed'')], br_log = []\<rparr>, demo_runtime)
      = Some (Inr (), b', p')
    \<and> pm_sent p' = [update_message (\<lambda>_. []) (\<lambda>_. []) [(''v'', ''ns=2;s=Old.Speed'')] [demo_update ''v'']]"
  using old_map_is_kept [OF _ _ _ demo_runtime_runs(1,2),
      of "\<lparr>br_map = Some [(''v'', ''ns=2;s=Old.Speed'')], br_log = []\<rparr>" _ "[demo_update ''v'']" True
        plant_env "\<lambda>_. []" "\<lambda>_. []" bridge_plant]
    demo_runtime_runs(3)
  by (auto simp: demo_update_def pm_sent_def)
end
