(* ===== verification/CertUtils.thy ===== *)
theory CertUtils
  imports Prelude "HOL-Library.Word"
begin

text \<open>
  \<open>src/cert-generator/cert-utils.ts\<close>: certificates between DER and PEM. A \<open>Buffer\<close> is a list of
  bytes; its base64 encoding and the lenient decoding of \<open>Buffer.from\<close> are those of the standard
  library (whitespace and characters outside the alphabet are skipped, both alphabets are read,
  decoding ends at the first padding character, a last single character gives no byte).
\<close>

type_synonym buffer = "8 word list"

section \<open>Base64\<close>

definition base64_alphabet :: string where
  "base64_alphabet = ''ABCDEFGHIJKLMNOPQRSTUVWXYZabcdefghijklmnopqrstuvwxyz0123456789+/''"

definition sextet_char :: "nat \<Rightarrow> char" where
  "sextet_char n = base64_alphabet ! n"

definition sextet_val :: "char \<Rightarrow> nat option" where
  "sextet_val c =
     (if c = CHR ''-'' then Some 62 else if c = CHR ''_'' then Some 63
      else map_of (zip base64_alphabet [0..<64]) c)"

text \<open>The three bytes of a group as one number, and its sextets from the left.\<close>

definition group24 :: "8 word \<Rightarrow> 8 word \<Rightarrow> 8 word \<Rightarrow> nat" where
  "group24 a b c = 65536 * unat a + 256 * unat b + unat c"

definition sextet :: "nat \<Rightarrow> nat \<Rightarrow> nat" where
  "sextet i n = n div 64 ^ (3 - i) mod 64"

definition sextets :: "nat \<Rightarrow> nat \<Rightarrow> string" where
  "sextets k n = map (\<lambda>i. sextet_char (sextet i n)) [0..<k]"

fun to_base64 :: "buffer \<Rightarrow> string" where
  "to_base64 [] = []"
| "to_base64 [a] = sextets 2 (group24 a 0 0) @ ''==''"
| "to_base64 [a, b] = sextets 3 (group24 a b 0) @ ''=''"
| "to_base64 (a # b # c # bs) = sextets 4 (group24 a b c) @ to_base64 bs"

definition byte :: "nat \<Rightarrow> nat \<Rightarrow> 8 word" where
  "byte i n = of_nat (n div 256 ^ (2 - i) mod 256)"

definition of_sextets :: "nat \<Rightarrow> nat \<Rightarrow> nat \<Rightarrow> nat \<Rightarrow> nat" where
  "of_sextets p q r s = 262144 * p + 4096 * q + 64 * r + s"

fun decode_sextets :: "nat list \<Rightarrow> buffer" where
  "decode_sextets (p # q # r # s # xs) =
     (let n = of_sextets p q r s in byte 0 n # byte 1 n # byte 2 n # decode_sextets xs)"
| "decode_sextets [p, q, r] = (let n = of_sextets p q r 0 in [byte 0 n, byte 1 n])"
| "decode_sextets [p, q] = [byte 0 (of_sextets p q 0 0)]"
| "decode_sextets _ = []"

definition from_base64 :: "string \<Rightarrow> buffer" where
  "from_base64 s =
     decode_sextets (List.map_filter sextet_val (takeWhile (\<lambda>c. c \<noteq> CHR ''='') s))"

lemma sextet_val_char [simp]: "n < 64 \<Longrightarrow> sextet_val (sextet_char n) = Some n"
proof -
  have "\<forall>n \<in> set [0..<64]. sextet_val (sextet_char n) = Some n" by code_simp
  then show "n < 64 \<Longrightarrow> sextet_val (sextet_char n) = Some n" by simp
qed

text \<open>What a character of the encoding never is.\<close>

definition base64_text :: "string \<Rightarrow> bool" where
  "base64_text s \<longleftrightarrow> (\<forall>c \<in> set s. c \<noteq> CHR ''-'' \<and> \<not> js_ws c)"

lemma sextet_char_plain:
  "n < 64 \<Longrightarrow> sextet_char n \<noteq> CHR ''='' \<and> sextet_char n \<noteq> CHR ''-'' \<and> \<not> js_ws (sextet_char n)"
proof -
  have "\<forall>n \<in> set [0..<64]. sextet_char n \<noteq> CHR ''='' \<and> sextet_char n \<noteq> CHR ''-''
      \<and> \<not> js_ws (sextet_char n)"
    by code_simp
  then show "n < 64 \<Longrightarrow> ?thesis" by simp
qed

lemma sextet_less [simp]: "sextet i n < 64"
  by (simp add: sextet_def)

lemma sextets_plain:
  "c \<in> set (sextets k n) \<Longrightarrow> c \<noteq> CHR ''='' \<and> c \<noteq> CHR ''-'' \<and> \<not> js_ws c"
  using sextet_char_plain [OF sextet_less] by (auto simp: sextets_def)

lemma to_base64_text: "base64_text (to_base64 bs)"
proof -
  have "\<not> js_ws CHR ''=''" by (simp add: js_ws_def)
  then show ?thesis
    by (induction bs rule: to_base64.induct) (auto simp: base64_text_def dest: sextets_plain)
qed

lemma values_of_sextets:
  "List.map_filter sextet_val (sextets k n) = map (\<lambda>i. sextet i n) [0..<k]"
  by (simp add: sextets_def List.map_filter_def comp_def)

lemma three_bytes:
  fixes a b c :: nat
  assumes "a < 256" "b < 256" "c < 256"
  shows "(65536 * a + 256 * b + c) div 65536 mod 256 = a"
    "(65536 * a + 256 * b + c) div 256 mod 256 = b"
    "(65536 * a + 256 * b + c) mod 256 = c"
proof -
  have "(65536 * a + 256 * b + c) div 65536 = a"
    using assms by (intro div_nat_eqI) simp_all
  moreover have "(65536 * a + 256 * b + c) div 256 = 256 * a + b"
    using assms by (intro div_nat_eqI) simp_all
  ultimately show "(65536 * a + 256 * b + c) div 65536 mod 256 = a"
    "(65536 * a + 256 * b + c) div 256 mod 256 = b"
    using assms by simp_all
  have "65536 * a + 256 * b + c = 256 * (256 * a + b) + c" by simp
  then show "(65536 * a + 256 * b + c) mod 256 = c"
    using assms(3) by (metis mod_mult_self4 mod_less mult.commute)
qed

lemma unat_byte [simp]: "unat (a :: 8 word) < 256"
  using unsigned_less [of a] by simp

lemma group24_bytes:
  "byte 0 (group24 a b c) = a" "byte 1 (group24 a b c) = b" "byte 2 (group24 a b c) = c"
  using three_bytes [OF unat_byte unat_byte unat_byte, of a b c]
  by (simp_all add: byte_def group24_def)

lemma group24_less: "group24 a b c < 16777216"
  unfolding group24_def using unat_byte [of a] unat_byte [of b] unat_byte [of c] by linarith

lemma of_sextets_sextets:
  assumes "n < 16777216"
  shows "of_sextets (sextet 0 n) (sextet 1 n) (sextet 2 n) (sextet 3 n) = n"
proof -
  have "n div 64 = n div 4096 * 64 + n div 64 mod 64"
    "n div 4096 = n div 262144 * 64 + n div 4096 mod 64"
    using div_mult_mod_eq [of "n div 64" 64] div_mult_mod_eq [of "n div 4096" 64]
    by (simp_all add: div_mult2_eq [of n 64 64, simplified] div_mult2_eq [of n 4096 64, simplified])
  moreover have "n = n div 64 * 64 + n mod 64" by simp
  moreover have "n div 262144 < 64" using assms by (simp add: less_mult_imp_div_less)
  then have top: "n div 262144 mod 64 = n div 262144" by simp
  ultimately have "262144 * (n div 262144) + 4096 * (n div 4096 mod 64)
      + 64 * (n div 64 mod 64) + n mod 64 = n"
    by linarith
  then show ?thesis by (simp add: of_sextets_def sextet_def top)
qed

lemma padding_sextets [simp]:
  "sextet 2 (group24 a 0 0) = 0" "sextet 3 (group24 a 0 0) = 0" "sextet 3 (group24 a b 0) = 0"
proof -
  have "65536 * unat a div 64 = 1024 * unat a" "1024 * unat a mod 64 = 0" by simp_all
  then show "sextet 2 (group24 a 0 0) = 0" "sextet 3 (group24 a 0 0) = 0"
    by (simp_all add: sextet_def group24_def)
  have "65536 * unat a + 256 * unat b = 64 * (1024 * unat a + 4 * unat b)" by simp
  then show "sextet 3 (group24 a b 0) = 0"
    by (simp add: sextet_def group24_def)
qed

lemma decode_group:
  "decode_sextets (map (\<lambda>i. sextet i (group24 a b c)) [0..<4] @ xs) = a # b # c # decode_sextets xs"
  "decode_sextets (map (\<lambda>i. sextet i (group24 a b 0)) [0..<3]) = [a, b]"
  "decode_sextets (map (\<lambda>i. sextet i (group24 a 0 0)) [0..<2]) = [a]"
proof -
  have [simp]: "of_sextets (sextet 0 n) (sextet (Suc 0) n) (sextet 2 n) (sextet 3 n) = n"
    if "n < 16777216" for n
    using of_sextets_sextets [OF that] by simp
  have "[0..<4] = [0, Suc 0, 2, 3::nat]" "[0..<3] = [0, Suc 0, 2::nat]" "[0..<2] = [0, Suc 0]"
    by (simp_all add: upt_rec)
  note this [simp]
  have "of_sextets (sextet 0 (group24 a b 0)) (sextet (Suc 0) (group24 a b 0))
      (sextet 2 (group24 a b 0)) 0 = group24 a b 0"
    using of_sextets_sextets [OF group24_less [of a b 0]] by simp
  moreover have "of_sextets (sextet 0 (group24 a 0 0)) (sextet (Suc 0) (group24 a 0 0)) 0 0
      = group24 a 0 0"
    using of_sextets_sextets [OF group24_less [of a 0 0]] by simp
  moreover have "byte (Suc 0) (group24 a b c) = b" for c
    using group24_bytes(2) by simp
  ultimately show
    "decode_sextets (map (\<lambda>i. sextet i (group24 a b c)) [0..<4] @ xs) = a # b # c # decode_sextets xs"
    "decode_sextets (map (\<lambda>i. sextet i (group24 a b 0)) [0..<3]) = [a, b]"
    "decode_sextets (map (\<lambda>i. sextet i (group24 a 0 0)) [0..<2]) = [a]"
    by (simp_all add: group24_bytes group24_less)
qed

lemma takeWhile_sextets [simp]:
  "takeWhile (\<lambda>c. c \<noteq> CHR ''='') (sextets k n @ s)
     = sextets k n @ takeWhile (\<lambda>c. c \<noteq> CHR ''='') s"
  by (rule takeWhile_append2) (simp add: sextets_plain)

lemma map_filter_append:
  "List.map_filter f (xs @ ys) = List.map_filter f xs @ List.map_filter f ys"
  by (simp add: List.map_filter_def)

lemma from_to_base64: "from_base64 (to_base64 bs) = bs"
  by (induction bs rule: to_base64.induct)
    (simp_all add: from_base64_def map_filter_append values_of_sextets decode_group)

text \<open>Whitespace between the characters does not matter.\<close>

lemma sextet_val_ws: "js_ws c \<Longrightarrow> sextet_val c = None"
proof -
  have "\<forall>c \<in> set base64_alphabet. \<not> js_ws c" by code_simp
  moreover have "\<not> js_ws CHR ''-''" "\<not> js_ws CHR ''_''" by (simp_all add: js_ws_def)
  ultimately show "js_ws c \<Longrightarrow> ?thesis"
    by (auto simp: sextet_val_def map_of_eq_None_iff dest: set_zip_leftD)
qed

section \<open>PEM\<close>

definition PEM_LINE_LENGTH :: nat where
  "PEM_LINE_LENGTH = 64"

definition begin_mark :: string where
  "begin_mark = ''-----BEGIN CERTIFICATE-----''"

definition end_mark :: string where
  "end_mark = ''-----END CERTIFICATE-----''"

definition PEM_HEADER :: string where
  "PEM_HEADER = begin_mark @ [CHR 0x0A]"

definition PEM_FOOTER :: string where
  "PEM_FOOTER = end_mark @ [CHR 0x0A]"

text \<open>The loop that slices the text into lines.\<close>

function pem_lines :: "string \<Rightarrow> string list" where
  "pem_lines s = (if s = [] then [] else take PEM_LINE_LENGTH s # pem_lines (drop PEM_LINE_LENGTH s))"
  by auto
termination by (relation "measure length") (auto simp: PEM_LINE_LENGTH_def)

declare pem_lines.simps [simp del]

definition derToPem :: "buffer \<Rightarrow> string" where
  "derToPem der =
     PEM_HEADER @ join [CHR 0x0A] (pem_lines (to_base64 der)) @ [CHR 0x0A] @ PEM_FOOTER"

text \<open>\<open>s.replace(/p/g, '')\<close> for a fixed non-empty text: matches from the left, without overlap.\<close>

function remove_all :: "string \<Rightarrow> string \<Rightarrow> string" where
  "remove_all p [] = []"
| "remove_all p (c # s) =
     (if p \<noteq> [] \<and> prefix p (c # s) then remove_all p (drop (length p) (c # s))
      else c # remove_all p s)"
  by pat_completeness auto
termination by (relation "measure (\<lambda>(p, s). length s)") auto

definition pemToDer :: "string \<Rightarrow> buffer" where
  "pemToDer pem =
     from_base64 (filter (\<lambda>c. \<not> js_ws c) (remove_all end_mark (remove_all begin_mark pem)))"

section \<open>There and back\<close>

lemma concat_pem_lines: "concat (pem_lines s) = s"
  by (induction s rule: pem_lines.induct) (subst pem_lines.simps, auto)

lemma pem_lines_parts: "\<lbrakk>l \<in> set (pem_lines s); c \<in> set l\<rbrakk> \<Longrightarrow> c \<in> set s"
  using concat_pem_lines [of s] by (metis UN_I set_concat)

lemma remove_all_skip:
  assumes "p = x # q" "x \<notin> set s"
  shows "remove_all p (s @ t) = s @ remove_all p t"
  using assms by (induction s) auto

lemma remove_all_match: "p \<noteq> [] \<Longrightarrow> remove_all p (p @ t) = remove_all p t"
  by (cases p) auto

lemma filter_join_lines:
  assumes "\<forall>l \<in> set ls. \<forall>c \<in> set l. \<not> js_ws c"
  shows "filter (\<lambda>c. \<not> js_ws c) (join [CHR 0x0A] ls) = concat ls"
  using assms
proof (induction ls)
  case Nil
  then show ?case by simp
next
  case (Cons l ls)
  then have l: "filter (\<lambda>c. \<not> js_ws c) l = l"
    by (simp add: filter_id_conv)
  have "js_ws CHR 0x0A" by (simp add: js_ws_def)
  with Cons l show ?case
    by (cases "ls = []") (simp_all add: join_Cons)
qed

lemma set_join: "c \<in> set (join sep ls) \<Longrightarrow> c \<in> set sep \<or> (\<exists>l \<in> set ls. c \<in> set l)"
  by (induction sep ls rule: join.induct) auto

lemma no_dash_in_lines:
  assumes "base64_text b"
  shows "CHR ''-'' \<notin> set (join [CHR 0x0A] (pem_lines b) @ [CHR 0x0A])"
proof
  assume "CHR ''-'' \<in> set (join [CHR 0x0A] (pem_lines b) @ [CHR 0x0A])"
  then have "CHR ''-'' \<in> set (join [CHR 0x0A] (pem_lines b))" by simp
  then obtain l where "l \<in> set (pem_lines b)" "CHR ''-'' \<in> set l"
    using set_join by fastforce
  then have "CHR ''-'' \<in> set b" by (rule pem_lines_parts)
  with assms show False unfolding base64_text_def by blast
qed

lemma strip_marks:
  assumes "CHR ''-'' \<notin> set s"
  shows "remove_all end_mark (remove_all begin_mark (PEM_HEADER @ s @ PEM_FOOTER))
    = CHR 0x0A # s @ [CHR 0x0A]"
proof -
  have b: "begin_mark = CHR ''-'' # tl begin_mark" and e: "end_mark = CHR ''-'' # tl end_mark"
    by (simp_all add: begin_mark_def end_mark_def)
  have s: "CHR ''-'' \<notin> set (CHR 0x0A # s)" using assms by simp
  have f: "remove_all begin_mark PEM_FOOTER = PEM_FOOTER"
    by (simp add: begin_mark_def end_mark_def PEM_FOOTER_def)
  have "remove_all begin_mark (PEM_HEADER @ s @ PEM_FOOTER)
      = remove_all begin_mark ((CHR 0x0A # s) @ PEM_FOOTER)"
    using remove_all_match [of begin_mark "[CHR 0x0A] @ s @ PEM_FOOTER"] b
    unfolding PEM_HEADER_def by (metis append.assoc append_Cons append_Nil list.distinct(1))
  also have "\<dots> = (CHR 0x0A # s) @ PEM_FOOTER"
    using remove_all_skip [OF b s] f by simp
  finally have 1: "remove_all begin_mark (PEM_HEADER @ s @ PEM_FOOTER)
      = (CHR 0x0A # s) @ PEM_FOOTER" .
  have "remove_all end_mark PEM_FOOTER = [CHR 0x0A]"
    by (simp add: end_mark_def PEM_FOOTER_def)
  then show ?thesis
    unfolding 1 remove_all_skip [OF e s] by simp
qed

lemma pem_lines_shape:
  "s \<noteq> [] \<Longrightarrow>
     \<exists>ls l. pem_lines s = ls @ [l] \<and> (\<forall>k \<in> set ls. length k = 64) \<and> l \<noteq> [] \<and> length l \<le> 64"
proof (induction s rule: pem_lines.induct)
  case (1 s)
  show ?case
  proof (cases "drop PEM_LINE_LENGTH s = []")
    case True
    then have "pem_lines s = [] @ [s]" "length s \<le> 64"
      using 1(2) by (subst pem_lines.simps, simp_all add: pem_lines.simps [of "[]"] PEM_LINE_LENGTH_def)
    with 1(2) show ?thesis by fastforce
  next
    case False
    then obtain ls l where l: "pem_lines (drop PEM_LINE_LENGTH s) = ls @ [l]"
      "\<forall>k \<in> set ls. length k = 64" "l \<noteq> []" "length l \<le> 64"
      using 1 by blast
    have "pem_lines s = (take PEM_LINE_LENGTH s # ls) @ [l]"
      using 1(2) l(1) by (subst pem_lines.simps) simp
    moreover have "length (take PEM_LINE_LENGTH s) = 64" using False by (simp add: PEM_LINE_LENGTH_def)
    ultimately show ?thesis using l by (metis set_ConsD)
  qed
qed

lemma pem_split:
  assumes "\<forall>l \<in> set ls. CHR 0x0A \<notin> set l"
  shows "split_on CHR 0x0A (PEM_HEADER @ join [CHR 0x0A] ls @ [CHR 0x0A] @ PEM_FOOTER)
    = begin_mark # (if ls = [] then [[]] else ls) @ [end_mark, []]"
proof -
  let ?ls = "if ls = [] then [[]] else ls"
  have marks: "CHR 0x0A \<notin> set begin_mark" "CHR 0x0A \<notin> set end_mark"
    by (simp_all add: begin_mark_def end_mark_def)
  have end_join: "join [CHR 0x0A] (ps @ [end_mark, []]) = join [CHR 0x0A] ps @ [CHR 0x0A] @ PEM_FOOTER"
    if "ps \<noteq> []" for ps
    using that by (induction ps rule: list_nonempty_induct) (simp_all add: join_Cons PEM_FOOTER_def)
  have "PEM_HEADER @ join [CHR 0x0A] ls @ [CHR 0x0A] @ PEM_FOOTER
      = join [CHR 0x0A] (begin_mark # ?ls @ [end_mark, []])"
    using end_join [of ?ls] by (simp add: join_Cons PEM_HEADER_def)
  moreover have "\<forall>l \<in> set (begin_mark # ?ls @ [end_mark, []]). CHR 0x0A \<notin> set l"
    using assms marks by simp
  ultimately show ?thesis
    using split_join [of "begin_mark # ?ls @ [end_mark, []]" "CHR 0x0A"] by auto
qed

text \<open>C23: A certificate converted to PEM and back has the bytes it had, whatever they are and
  however many. The lines of the text are the header, the lines of the base64 text of the bytes,
  the footer, and nothing after the last line break; the lines of base64 text have 64 characters
  each but the last, which has at least one. Without any bytes there is one empty line between
  header and footer.\<close>

theorem pem_round_trip:
  "pemToDer (derToPem der) = der \<and>
   (\<exists>ls l. split_on CHR 0x0A (derToPem der) = begin_mark # ls @ [l, end_mark, []]
      \<and> concat ls @ l = to_base64 der
      \<and> (\<forall>k \<in> set ls. length k = 64) \<and> length l \<le> 64 \<and> (l = [] \<longleftrightarrow> der = []))"
proof
  let ?b = "to_base64 der" let ?nl = "[CHR 0x0A]"
  have ws: "\<forall>l \<in> set (pem_lines ?b). \<forall>c \<in> set l. \<not> js_ws c"
  proof (intro ballI)
    fix l c
    assume "l \<in> set (pem_lines ?b)" "c \<in> set l"
    then have "c \<in> set ?b" by (rule pem_lines_parts)
    then show "\<not> js_ws c"
      using to_base64_text [of der] unfolding base64_text_def by blast
  qed
  have nl: "js_ws CHR 0x0A" by (simp add: js_ws_def)
  have "derToPem der = PEM_HEADER @ (join ?nl (pem_lines ?b) @ ?nl) @ PEM_FOOTER"
    unfolding derToPem_def append.assoc ..
  then have "pemToDer (derToPem der)
      = from_base64 (filter (\<lambda>c. \<not> js_ws c) (CHR 0x0A # (join ?nl (pem_lines ?b) @ ?nl) @ ?nl))"
    unfolding pemToDer_def by (simp only: strip_marks [OF no_dash_in_lines [OF to_base64_text]])
  also have "\<dots> = from_base64 (filter (\<lambda>c. \<not> js_ws c) (join ?nl (pem_lines ?b)))"
    using nl by simp
  also have "\<dots> = der"
    by (simp add: filter_join_lines [OF ws] concat_pem_lines from_to_base64)
  finally show "pemToDer (derToPem der) = der" .
  have split: "split_on CHR 0x0A (derToPem der)
      = begin_mark # (if pem_lines ?b = [] then [[]] else pem_lines ?b) @ [end_mark, []]"
    unfolding derToPem_def using ws nl by (intro pem_split) blast
  show "\<exists>ls l. split_on CHR 0x0A (derToPem der) = begin_mark # ls @ [l, end_mark, []]
      \<and> concat ls @ l = ?b \<and> (\<forall>k \<in> set ls. length k = 64) \<and> length l \<le> 64 \<and> (l = [] \<longleftrightarrow> der = [])"
  proof (cases "der = []")
    case True
    then show ?thesis
      using split by (intro exI [of _ "[]"] exI [of _ "[]"]) (simp add: pem_lines.simps [of "[]"])
  next
    case False
    have "?b \<noteq> []"
    proof
      assume "?b = []"
      then have "from_base64 ?b = from_base64 (to_base64 [])" by simp
      with False show False by (simp only: from_to_base64)
    qed
    then obtain ls l where l: "pem_lines ?b = ls @ [l]" "\<forall>k \<in> set ls. length k = 64"
      "l \<noteq> []" "length l \<le> 64"
      using pem_lines_shape by blast
    moreover have "concat ls @ l = ?b" using concat_pem_lines [of ?b] l(1) by simp
    ultimately show ?thesis
      using split False by (intro exI [of _ ls] exI [of _ l]) simp
  qed
qed

lemma pem_round_trip_witness:
  "pemToDer (derToPem [77, 97, 110, 0]) = [77, 97, 110, 0] \<and> to_base64 [77, 97, 110, 0] = ''TWFuAA==''"
proof
  show "pemToDer (derToPem [77, 97, 110, 0]) = [77, 97, 110, 0]"
    using pem_round_trip by blast
  show "to_base64 [77, 97, 110, 0] = ''TWFuAA==''"
    by (simp add: sextets_def sextet_def sextet_char_def group24_def base64_alphabet_def upt_rec)
qed

end
