(* ===== verification/Http.thy ===== *)
theory Http
  imports Json Database CertUtils
begin

text \<open>
  Requests and responses as the route handlers see them: Express has parsed the body, the query
  and the path. The error bodies of \<open>src/types/api.ts\<close>, and the status each kind of domain error
  is answered with.
\<close>

section \<open>Messages\<close>

datatype http_body = NoBody | JsonBody jsval | TextBody string | BytesBody buffer

record response =
  rs_status :: nat
  rs_body :: http_body
  rs_headers :: "(string \<times> string) list"

text \<open>A header is a text or, when repeated, an array of texts.\<close>

record request =
  rq_method :: string
  rq_headers :: "(string, jsval) jmap"
  rq_query :: "(string, jsval) jmap"
  rq_body :: jsval

definition respond :: "nat \<Rightarrow> jsval \<Rightarrow> response" where
  "respond status body = \<lparr>rs_status = status, rs_body = JsonBody body, rs_headers = []\<rparr>"

definition respond_status :: "nat \<Rightarrow> response" where
  "respond_status status = \<lparr>rs_status = status, rs_body = NoBody, rs_headers = []\<rparr>"

text \<open>Reading a property of a body that is not an object gives \<open>undefined\<close> where it does not throw.\<close>

fun body_field :: "jsval \<Rightarrow> string \<Rightarrow> jsval" where
  "body_field (JObj ps) k = getprop ps k"
| "body_field _ k = JUndefined"

definition query_text :: "request \<Rightarrow> string \<Rightarrow> string option" where
  "query_text rq k = (case jget (rq_query rq) k of Some (JStr s) \<Rightarrow> Some s | _ \<Rightarrow> None)"

section \<open>Errors\<close>

definition detail_json :: "string \<times> string \<Rightarrow> jsval" where
  "detail_json d = JObj [(''field'', JStr (fst d)), (''message'', JStr (snd d))]"

definition error_json :: "string \<Rightarrow> string \<Rightarrow> (string \<times> string) list option \<Rightarrow> jsval" where
  "error_json code message details =
     JObj [(''error'', JObj [(''code'', JStr code), (''message'', JStr message),
        (''details'', case details of None \<Rightarrow> JUndefined | Some ds \<Rightarrow> JArr (map detail_json ds))])]"

definition error_response :: "nat \<Rightarrow> string \<Rightarrow> string \<Rightarrow> response" where
  "error_response status code message = respond status (error_json code message None)"

definition invalid_response :: "string \<Rightarrow> (string \<times> string) list \<Rightarrow> response" where
  "invalid_response message errors =
     respond 400 (error_json ''VALIDATION_ERROR'' message (Some errors))"

definition internal_error :: "string \<Rightarrow> response" where
  "internal_error message = error_response 500 ''INTERNAL_ERROR'' message"

text \<open>A domain error without details has none in the answer.\<close>

definition domain_response :: "nat \<Rightarrow> domain_error \<Rightarrow> response" where
  "domain_response status e =
     respond status (error_json (de_code e) (de_message e)
       (if de_details e = [] then None else Some (de_details e)))"

text \<open>The message of what a repository throws; \<open>sql\<close> is the message of an SQL error.\<close>

fun thrown_message :: "(sql_error \<Rightarrow> string) \<Rightarrow> db_error \<Rightarrow> string" where
  "thrown_message sql (Unavailable m) = m"
| "thrown_message sql (SqlError e) = sql e"
| "thrown_message sql (ValidationError m) = m"
| "thrown_message sql (DuplicateError m) = m"
| "thrown_message sql (NotFoundError m) = m"
| "thrown_message sql (OtherError m) = m"

text \<open>Success, as a client sees it.\<close>

definition succeeded :: "response \<Rightarrow> bool" where
  "succeeded r \<longleftrightarrow> 200 \<le> rs_status r \<and> rs_status r < 300"

lemma error_statuses [simp]:
  "rs_status (error_response n c m) = n" "rs_status (respond n b) = n"
  "rs_status (respond_status n) = n" "rs_status (invalid_response m es) = 400"
  "rs_status (internal_error m) = 500" "rs_status (domain_response n e) = n"
  by (simp_all add: error_response_def respond_def respond_status_def invalid_response_def
      internal_error_def domain_response_def)

end
