(* ===== verification/Auth.thy ===== *)
theory Auth
  imports Http
begin

text \<open>
  \<open>src/auth/\<close>: who may change anything. The environment of the process is a map of texts; the
  verification of a JSON web token is the \<open>jsonwebtoken\<close> package's and a parameter.
\<close>

section \<open>Configuration\<close>

record auth_config =
  au_mode :: string
  au_apiKeys :: "string list"
  au_jwtSecret :: string
  au_jwtIssuer :: "string option"

definition env_or :: "(string \<Rightarrow> string option) \<Rightarrow> string \<Rightarrow> string \<Rightarrow> string" where
  "env_or env k other = (if truthy_str (env k) then the (env k) else other)"

definition loadAuthConfig :: "(string \<Rightarrow> string option) \<Rightarrow> auth_config" where
  "loadAuthConfig env =
     \<lparr>au_mode = env_or env ''AUTH_MODE'' ''none'',
      au_apiKeys = (if truthy_str (env ''API_KEYS'')
        then filter (\<lambda>k. k \<noteq> []) (map trim (split_on CHR '','' (the (env ''API_KEYS''))))
        else []),
      au_jwtSecret = env_or env ''JWT_SECRET'' [],
      au_jwtIssuer = (if truthy_str (env ''JWT_ISSUER'') then env ''JWT_ISSUER'' else None)\<rparr>"

section \<open>Credentials\<close>

definition header_text :: "request \<Rightarrow> string \<Rightarrow> string option" where
  "header_text rq k = (case jget (rq_headers rq) k of Some (JStr s) \<Rightarrow> Some s | _ \<Rightarrow> None)"

definition extractBearerToken :: "request \<Rightarrow> string option" where
  "extractBearerToken rq =
     (case header_text rq ''authorization'' of
        None \<Rightarrow> None
      | Some h \<Rightarrow>
          if take 7 h \<noteq> ''Bearer '' then None
          else (let token = trim (drop 7 h) in if token \<noteq> [] then Some token else None))"

definition extractApiKey :: "request \<Rightarrow> string option" where
  "extractApiKey rq =
     (case extractBearerToken rq of
        Some b \<Rightarrow> Some b
      | None \<Rightarrow>
          (case header_text rq ''x-api-key'' of
             None \<Rightarrow> None
           | Some k \<Rightarrow> if k \<noteq> [] then Some k else None))"

section \<open>The middleware\<close>

datatype jwt_result = JwtValid | JwtExpired | JwtRejected

type_synonym jwt_verify = "string \<Rightarrow> string \<Rightarrow> string option \<Rightarrow> jwt_result"

definition unauthorized :: "string \<Rightarrow> response" where
  "unauthorized message = error_response 401 ''UNAUTHORIZED'' message"

text \<open>\<open>None\<close> is a call of \<open>next\<close>.\<close>

definition validateApiKey :: "auth_config \<Rightarrow> request \<Rightarrow> response option" where
  "validateApiKey cfg rq =
     (case extractApiKey rq of
        None \<Rightarrow> Some (unauthorized ''Missing authentication credentials'')
      | Some k \<Rightarrow>
          if \<not> List.member (au_apiKeys cfg) k then Some (unauthorized ''Invalid API key'') else None)"

definition validateJwt :: "jwt_verify \<Rightarrow> auth_config \<Rightarrow> request \<Rightarrow> response option" where
  "validateJwt verify cfg rq =
     (case extractBearerToken rq of
        None \<Rightarrow> Some (unauthorized ''Missing authentication credentials'')
      | Some t \<Rightarrow>
          (case verify t (au_jwtSecret cfg)
                  (if truthy_str (au_jwtIssuer cfg) then au_jwtIssuer cfg else None) of
             JwtValid \<Rightarrow> None
           | JwtExpired \<Rightarrow> Some (unauthorized ''Token expired'')
           | JwtRejected \<Rightarrow> Some (unauthorized ''Invalid token'')))"

definition auth_middleware :: "jwt_verify \<Rightarrow> auth_config \<Rightarrow> request \<Rightarrow> response option" where
  "auth_middleware verify cfg rq =
     (if au_mode cfg = ''none'' then None
      else if rq_method rq = ''GET'' then None
      else if au_mode cfg = ''api-key'' then validateApiKey cfg rq
      else validateJwt verify cfg rq)"

text \<open>A request is passed on or answered with status 401.\<close>

lemma refused_unauthorized: "auth_middleware verify cfg rq = Some r \<Longrightarrow> rs_status r = 401"
  by (auto simp: auth_middleware_def validateApiKey_def validateJwt_def unauthorized_def
      split: if_splits option.splits jwt_result.splits)

text \<open>The keys of the environment are the parts between its commas, without the blank ones.\<close>

lemma loaded_keys:
  "k \<in> set (au_apiKeys (loadAuthConfig env)) \<longleftrightarrow>
     k \<noteq> [] \<and> (\<exists>v. env ''API_KEYS'' = Some v \<and> k \<in> trim ` set (split_on CHR '','' v))"
  by (cases "env ''API_KEYS''") (auto simp: loadAuthConfig_def truthy_str_def trim_eq_Nil)

text \<open>C14: With API keys configured, a request that could change something is passed on exactly if it
  presents a key, as a bearer token or, without one, in its own header, and the key is one of
  those the environment lists, blanks around it not counting; an empty entry of the list lets
  nobody in. Everything else is answered with status 401.\<close>

theorem api_key_gate:
  assumes "env ''AUTH_MODE'' = Some ''api-key''" "rq_method rq \<noteq> ''GET''"
  shows "case auth_middleware verify (loadAuthConfig env) rq of
      None \<Rightarrow> \<exists>k v. extractApiKey rq = Some k \<and> k \<noteq> [] \<and> env ''API_KEYS'' = Some v
                 \<and> k \<in> trim ` set (split_on CHR '','' v)
    | Some r \<Rightarrow> rs_status r = 401
        \<and> (\<forall>k v. extractApiKey rq = Some k \<and> env ''API_KEYS'' = Some v
             \<longrightarrow> k = [] \<or> k \<notin> trim ` set (split_on CHR '','' v))"
proof -
  have m: "auth_middleware verify (loadAuthConfig env) rq = validateApiKey (loadAuthConfig env) rq"
    using assms by (simp add: auth_middleware_def loadAuthConfig_def env_or_def)
  show ?thesis
  proof (cases "validateApiKey (loadAuthConfig env) rq")
    case None
    then obtain k where "extractApiKey rq = Some k" "k \<in> set (au_apiKeys (loadAuthConfig env))"
      by (auto simp: validateApiKey_def split: option.splits if_splits)
    then show ?thesis unfolding m None by (auto simp: loaded_keys)
  next
    case (Some r)
    then have "rs_status r = 401"
      using refused_unauthorized [of verify "loadAuthConfig env" rq] m by simp
    moreover have "\<forall>k. extractApiKey rq = Some k \<longrightarrow> k \<notin> set (au_apiKeys (loadAuthConfig env))"
      using Some by (auto simp: validateApiKey_def split: option.splits if_splits)
    ultimately show ?thesis unfolding m Some by (auto simp: loaded_keys)
  qed
qed


definition demo_environment :: "string \<Rightarrow> string option" where
  "demo_environment = [''AUTH_MODE'' \<mapsto> ''api-key'', ''API_KEYS'' \<mapsto> '' k1, ,k2'']"

definition demo_http :: "string \<Rightarrow> request" where
  "demo_http key = \<lparr>rq_method = ''POST'', rq_headers = [(''x-api-key'', JStr key)], rq_query = [], rq_body = JUndefined\<rparr>"

lemma api_key_gate_witness:
  "auth_middleware (\<lambda>_ _ _. JwtRejected) (loadAuthConfig demo_environment) (demo_http ''k1'') = None
   \<and> map_option rs_status
       (auth_middleware (\<lambda>_ _ _. JwtRejected) (loadAuthConfig demo_environment) (demo_http '' k1'')) = Some 401"
proof -
  have env: "demo_environment ''AUTH_MODE'' = Some ''api-key''"
    and post: "rq_method (demo_http k) \<noteq> ''GET''" for k
    by (simp_all add: demo_environment_def demo_http_def)
  have key: "extractApiKey (demo_http k) = (if k = [] then None else Some k)" for k
    by (simp add: demo_http_def extractApiKey_def extractBearerToken_def header_text_def)
  have keys: "trim '' k1'' = ''k1''" "trim '' '' = []" "trim ''k2'' = ''k2''"
    by code_simp+
  have list: "demo_environment ''API_KEYS'' = Some '' k1, ,k2''" by (simp add: demo_environment_def)
  show ?thesis
    using api_key_gate [where env = demo_environment and rq = "demo_http ''k1''"
          and verify = "\<lambda>_ _ _. JwtRejected", OF env post]
      api_key_gate [where env = demo_environment and rq = "demo_http '' k1''"
          and verify = "\<lambda>_ _ _. JwtRejected", OF env post]
    by (auto simp: key keys list split: option.splits)
qed
end
