(* ===== verification/Tofu.thy ===== *)
theory Tofu
  imports Http IpcBridge
begin

text \<open>
  \<open>src/tofu-manager/\<close> and \<open>src/api/routes/pki.ts\<close>: the client certificates the runtime trusts.
  A store is a directory of files, in the order of its listing, or \<open>None\<close> where the directory
  does not exist. \<open>fault\<close> gives the error of removing or moving a file, if any; reading a
  certificate is the \<open>node-forge\<close> package's. The process manager is a \<open>runtime_ops\<close>.
\<close>

section \<open>Thumbprints\<close>

definition lower_hex :: "char \<Rightarrow> bool" where
  "lower_hex c \<longleftrightarrow> is_digit c \<or> (CHR ''a'' \<le> c \<and> c \<le> CHR ''f'')"

definition isValidThumbprint :: "string \<Rightarrow> bool" where
  "isValidThumbprint v \<longleftrightarrow> length v = 40 \<and> list_all lower_hex v"

section \<open>The stores\<close>

type_synonym store = "(string, string) jmap option"

record tofu =
  tf_trusted :: store
  tf_rejected :: store
  tf_log :: "(string \<times> string) list"

datatype tofu_error = CertNotFound string | CertConflict string | CertFailed string

record parsed_certificate =
  pc_subject :: "string option"
  pc_issuer :: "string option"
  pc_notBefore :: string
  pc_notAfter :: string

record certificate_info =
  ci_thumbprint :: string
  ci_status :: string
  ci_subject :: string
  ci_issuer :: string
  ci_notBefore :: string
  ci_notAfter :: string
  ci_fileSize :: nat

definition tofu_note :: "string \<Rightarrow> string \<Rightarrow> tofu \<Rightarrow> tofu" where
  "tofu_note severity msg s = s\<lparr>tf_log := tf_log s @ [(severity, msg)]\<rparr>"

definition has_file :: "store \<Rightarrow> string \<Rightarrow> bool" where
  "has_file st f = (case st of None \<Rightarrow> False | Some m \<Rightarrow> jhas m f)"

definition der_file :: "string \<Rightarrow> string" where
  "der_file thumbprint = thumbprint @ ''.der''"

text \<open>\<open>mkdirSync\<close> with \<open>recursive\<close> leaves what is there; \<open>mk\<close> is the error of making a directory.\<close>

definition make_store :: "store \<Rightarrow> store" where
  "make_store st = (case st of None \<Rightarrow> Some [] | Some m \<Rightarrow> Some m)"

definition tofu_initialize :: "(string \<Rightarrow> string option) \<Rightarrow> tofu \<Rightarrow> (string + unit) \<times> tofu" where
  "tofu_initialize mk s =
     (let failed = (\<lambda>m s. (Inl m, tofu_note ''error'' (''Failed to create PKI directories: '' @ m) s)) in
      case mk ''trusted'' of
        Some m \<Rightarrow> failed m s
      | None \<Rightarrow>
          (let s1 = s\<lparr>tf_trusted := make_store (tf_trusted s)\<rparr> in
           case mk ''rejected'' of
             Some m \<Rightarrow> failed m s1
           | None \<Rightarrow> (Inr (), s1\<lparr>tf_rejected := make_store (tf_rejected s1)\<rparr>)))"

section \<open>Listing\<close>

definition ends_with :: "string \<Rightarrow> string \<Rightarrow> bool" where
  "ends_with e s \<longleftrightarrow> length e \<le> length s \<and> drop (length s - length e) s = e"

definition readDerFiles :: "store \<Rightarrow> (string \<times> string) list" where
  "readDerFiles st = (case st of None \<Rightarrow> [] | Some m \<Rightarrow> filter (\<lambda>(f, _). ends_with ''.der'' f) m)"

definition or_unknown :: "string option \<Rightarrow> string" where
  "or_unknown s = (if truthy_str s then the s else ''Unknown'')"

definition parseCertificateFile ::
  "(string \<Rightarrow> string + parsed_certificate) \<Rightarrow> string \<Rightarrow> string \<times> string \<Rightarrow> tofu
     \<Rightarrow> certificate_info option \<times> tofu" where
  "parseCertificateFile parse status file s =
     (case parse (snd file) of
        Inl m \<Rightarrow> (None, tofu_note ''warn'' (''Skipping malformed certificate file '' @ fst file @ '': '' @ m) s)
      | Inr c \<Rightarrow>
          (Some \<lparr>ci_thumbprint = take (length (fst file) - 4) (fst file), ci_status = status,
                 ci_subject = or_unknown (pc_subject c), ci_issuer = or_unknown (pc_issuer c),
                 ci_notBefore = pc_notBefore c, ci_notAfter = pc_notAfter c,
                 ci_fileSize = length (snd file)\<rparr>, s))"

fun parse_files ::
  "(string \<Rightarrow> string + parsed_certificate) \<Rightarrow> string \<Rightarrow> (string \<times> string) list \<Rightarrow> tofu
     \<Rightarrow> certificate_info list \<times> tofu" where
  "parse_files parse status [] s = ([], s)"
| "parse_files parse status (f # fs) s =
     (let (info, s1) = parseCertificateFile parse status f s;
          (infos, s2) = parse_files parse status fs s1
      in (case info of None \<Rightarrow> infos | Some i \<Rightarrow> i # infos, s2))"

text \<open>Thumbprints are hexadecimal texts, which \<open>localeCompare\<close> orders as the list order does.\<close>

definition listCertificates ::
  "(string \<Rightarrow> string + parsed_certificate) \<Rightarrow> tofu \<Rightarrow> certificate_info list \<times> tofu" where
  "listCertificates parse s =
     (let (trusted, s1) = parse_files parse ''trusted'' (readDerFiles (tf_trusted s)) s;
          (rejected, s2) = parse_files parse ''rejected'' (readDerFiles (tf_rejected s)) s1
      in (sort_key ci_thumbprint (trusted @ rejected), s2))"

section \<open>Operations\<close>

text \<open>\<open>signalReload\<close>: what the process manager throws ends the call after the files have changed.\<close>

definition reload_message :: string where
  "reload_message = json (\<lambda>_. []) (JObj [(''type'', JStr ''trust_store_reload'')]) @ [lf]"

definition signalReload ::
  "'p runtime_ops \<Rightarrow> tofu \<times> 'p \<Rightarrow> (tofu_error + unit) \<times> tofu \<times> 'p" where
  "signalReload ops sp =
     (let (s, p) = sp in
      if \<not> ro_running ops p then
        (Inr (), tofu_note ''info'' ''Runtime not running, skipping reload signal'' s, p)
      else
        (case ro_write ops reload_message p of
           (Inl e, p1) \<Rightarrow> (Inl (CertFailed e), s, p1)
         | (Inr True, p1) \<Rightarrow> (Inr (), s, p1)
         | (Inr False, p1) \<Rightarrow> (Inr (), tofu_note ''warn'' ''Failed to write reload signal to stdin'' s, p1)))"

definition remove_file :: "store \<Rightarrow> string \<Rightarrow> store" where
  "remove_file st f = map_option (\<lambda>m. jdel m f) st"

definition deleteCertificate ::
  "(string \<Rightarrow> string option) \<Rightarrow> 'p runtime_ops \<Rightarrow> string \<Rightarrow> tofu \<times> 'p
     \<Rightarrow> (tofu_error + unit) \<times> tofu \<times> 'p" where
  "deleteCertificate fault ops thumbprint sp =
     (let (s, p) = sp; f = der_file thumbprint;
          deleted = (\<lambda>s. signalReload ops
            (tofu_note ''info'' (''Certificate deleted: '' @ thumbprint) s, p))
      in if has_file (tf_trusted s) f then
           (case fault (''trusted/'' @ f) of
              Some e \<Rightarrow> (Inl (CertFailed e), s, p)
            | None \<Rightarrow> deleted (s\<lparr>tf_trusted := remove_file (tf_trusted s) f\<rparr>))
         else if has_file (tf_rejected s) f then
           (case fault (''rejected/'' @ f) of
              Some e \<Rightarrow> (Inl (CertFailed e), s, p)
            | None \<Rightarrow> deleted (s\<lparr>tf_rejected := remove_file (tf_rejected s) f\<rparr>))
         else (Inl (CertNotFound (''Certificate not found: '' @ thumbprint)), s, p))"

text \<open>
  Moving a file replaces one of its name; moving it to a directory that does not exist fails.
\<close>

definition move_file ::
  "(string \<Rightarrow> string option) \<Rightarrow> string \<Rightarrow> string \<Rightarrow> string \<Rightarrow> store \<Rightarrow> store
     \<Rightarrow> string + store \<times> store" where
  "move_file fault source target f from to =
     (case (fault (source @ f), fault (target @ f), from, to) of
        (Some e, _, _, _) \<Rightarrow> Inl e
      | (None, Some e, _, _) \<Rightarrow> Inl e
      | (None, None, Some m, Some n) \<Rightarrow> Inr (Some (jdel m f), Some (jset n f (the (jget m f))))
      | _ \<Rightarrow> Inl ''ENOENT: no such file or directory'')"

definition rejectCertificate ::
  "(string \<Rightarrow> string option) \<Rightarrow> 'p runtime_ops \<Rightarrow> string \<Rightarrow> tofu \<times> 'p
     \<Rightarrow> (tofu_error + unit) \<times> tofu \<times> 'p" where
  "rejectCertificate fault ops thumbprint sp =
     (let (s, p) = sp; f = der_file thumbprint in
      if \<not> has_file (tf_trusted s) f then
        (Inl (CertNotFound (''Certificate not found in trust store: '' @ thumbprint)), s, p)
      else
        (case move_file fault ''trusted/'' ''rejected/'' f (tf_trusted s) (tf_rejected s) of
           Inl e \<Rightarrow> (Inl (CertFailed e), s, p)
         | Inr (trusted, rejected) \<Rightarrow>
             signalReload ops
               (tofu_note ''info'' (''Certificate rejected: '' @ thumbprint)
                  (s\<lparr>tf_trusted := trusted, tf_rejected := rejected\<rparr>), p)))"

definition trustCertificate ::
  "(string \<Rightarrow> string option) \<Rightarrow> 'p runtime_ops \<Rightarrow> string \<Rightarrow> tofu \<times> 'p
     \<Rightarrow> (tofu_error + unit) \<times> tofu \<times> 'p" where
  "trustCertificate fault ops thumbprint sp =
     (let (s, p) = sp; f = der_file thumbprint in
      if \<not> has_file (tf_rejected s) f then
        (Inl (CertNotFound (''Certificate '' @ thumbprint @ '' not found in reject store'')), s, p)
      else if has_file (tf_trusted s) f then
        (Inl (CertConflict (''Certificate '' @ thumbprint @ '' is already trusted'')), s, p)
      else
        (case move_file fault ''rejected/'' ''trusted/'' f (tf_rejected s) (tf_trusted s) of
           Inl e \<Rightarrow> (Inl (CertFailed e), s, p)
         | Inr (rejected, trusted) \<Rightarrow>
             signalReload ops
               (tofu_note ''info'' (''Certificate re-trusted: '' @ thumbprint)
                  (s\<lparr>tf_trusted := trusted, tf_rejected := rejected\<rparr>), p)))"

section \<open>The routes\<close>

definition invalid_thumbprint :: response where
  "invalid_thumbprint =
     error_response 400 ''VALIDATION_ERROR'' ''Invalid thumbprint format. Must be 40 lowercase hex characters.''"

definition message_or :: "string \<Rightarrow> string \<Rightarrow> string" where
  "message_or m other = (if m = [] then other else m)"

text \<open>Only re-trusting answers a conflict as such.\<close>

definition pki_answer :: "string \<Rightarrow> bool \<Rightarrow> tofu_error + unit \<Rightarrow> response" where
  "pki_answer failed conflicts r =
     (case r of
        Inr _ \<Rightarrow> respond_status 204
      | Inl (CertNotFound m) \<Rightarrow> error_response 404 ''NOT_FOUND'' m
      | Inl (CertConflict m) \<Rightarrow>
          if conflicts then error_response 409 ''CONFLICT'' m else internal_error (message_or m failed)
      | Inl (CertFailed m) \<Rightarrow> internal_error (message_or m failed))"

definition pki_route ::
  "string \<Rightarrow> bool \<Rightarrow> (string \<Rightarrow> tofu \<times> 'p \<Rightarrow> (tofu_error + unit) \<times> tofu \<times> 'p) \<Rightarrow> string
     \<Rightarrow> tofu \<times> 'p \<Rightarrow> response \<times> tofu \<times> 'p" where
  "pki_route failed conflicts act thumbprint sp =
     (if \<not> isValidThumbprint thumbprint then (invalid_thumbprint, sp)
      else (let (r, sp1) = act thumbprint sp in (pki_answer failed conflicts r, sp1)))"

definition post_reject where
  "post_reject fault ops = pki_route ''Failed to reject certificate'' False (rejectCertificate fault ops)"

definition post_trust where
  "post_trust fault ops = pki_route ''Failed to trust certificate'' True (trustCertificate fault ops)"

definition delete_certificate where
  "delete_certificate fault ops =
     pki_route ''Failed to delete certificate'' False (deleteCertificate fault ops)"

definition certificate_json :: "certificate_info \<Rightarrow> jsval" where
  "certificate_json c =
     JObj [(''thumbprint'', JStr (ci_thumbprint c)), (''status'', JStr (ci_status c)),
           (''subject'', JStr (ci_subject c)), (''issuer'', JStr (ci_issuer c)),
           (''notBefore'', JStr (ci_notBefore c)), (''notAfter'', JStr (ci_notAfter c)),
           (''fileSize'', jint (int (ci_fileSize c)))]"

definition get_certificates ::
  "(string \<Rightarrow> string + parsed_certificate) \<Rightarrow> tofu \<Rightarrow> response \<times> tofu" where
  "get_certificates parse s =
     (let (cs, s1) = listCertificates parse s in (respond 200 (JArr (map certificate_json cs)), s1))"

section \<open>What the operations do\<close>

text \<open>Over any runtime that keeps the contract, an operation tells it at most once to reload.\<close>

context runtime_port begin

lemma signal_once:
  "signalReload ops (s, p) = (r, s', p') \<Longrightarrow>
    (sent p' = sent p \<or> sent p' = sent p @ [reload_message])
    \<and> tf_trusted s' = tf_trusted s \<and> tf_rejected s' = tf_rejected s"
  using write_once
  by (auto simp: signalReload_def tofu_note_def split: if_splits prod.splits sum.splits bool.splits)

lemma operations_signal_once:
  "rejectCertificate fault ops th (s, p) = (r, s', p') \<Longrightarrow> sent p' = sent p \<or> sent p' = sent p @ [reload_message]"
  "trustCertificate fault ops th (s, p) = (r, s', p') \<Longrightarrow> sent p' = sent p \<or> sent p' = sent p @ [reload_message]"
  "deleteCertificate fault ops th (s, p) = (r, s', p') \<Longrightarrow> sent p' = sent p \<or> sent p' = sent p @ [reload_message]"
  by (auto simp: rejectCertificate_def trustCertificate_def deleteCertificate_def Let_def
      dest: signal_once split: if_splits sum.splits option.splits)

end

lemma signal_running:
  assumes "pm_state p = Running" "pm_process p \<noteq> None"
  shows "\<exists>s' p'. signalReload (pm_ops True taken) (s, p) = (Inr (), s', p')
    \<and> tf_trusted s' = tf_trusted s \<and> tf_rejected s' = tf_rejected s
    \<and> pm_sent p' = pm_sent p @ [reload_message] \<and> pm_state p' = Running \<and> pm_process p' \<noteq> None"
  using assms
  by (auto simp: signalReload_def pm_ops_def writeToStdin_def pm_sent_def tofu_note_def
      split: option.splits bool.splits)

text \<open>C15: Rejecting a trusted certificate and trusting it again leaves the stores as they were, where
  no file operation fails, the runtime runs and the pipe to it can be written, and the certificate
  is not also among the rejected ones: both requests succeed, each store answers every file name
  with the same certificate as before, and the running runtime has been told twice to read its
  stores again. Trusting it once more finds nothing to trust.\<close>

theorem reject_then_trust:
  assumes "isValidThumbprint th" "tf_trusted s = Some ts" "tf_rejected s = Some rs"
    and "jget ts (der_file th) = Some cert" "jget rs (der_file th) = None"
    and "pm_state p = Running" "pm_process p \<noteq> None"
  shows "\<exists>s1 p1 s2 p2 ts' rs'.
       post_reject (\<lambda>_. None) (pm_ops True taken) th (s, p) = (respond_status 204, s1, p1)
     \<and> jget (the (tf_rejected s1)) (der_file th) = Some cert \<and> \<not> has_file (tf_trusted s1) (der_file th)
     \<and> post_trust (\<lambda>_. None) (pm_ops True taken) th (s1, p1) = (respond_status 204, s2, p2)
     \<and> tf_trusted s2 = Some ts' \<and> tf_rejected s2 = Some rs' \<and> (\<forall>n. jget ts' n = jget ts n \<and> jget rs' n = jget rs n)
     \<and> pm_sent p2 = pm_sent p @ [reload_message, reload_message]
     \<and> rs_status (fst (post_trust (\<lambda>_. None) (pm_ops True taken) th (s2, p2))) = 404"
proof -
  let ?f = "der_file th"
  let ?s1 = "tofu_note ''info'' (''Certificate rejected: '' @ th)
    (s\<lparr>tf_trusted := Some (jdel ts ?f), tf_rejected := Some (jset rs ?f cert)\<rparr>)"
  obtain s1 p1 where 1: "signalReload (pm_ops True taken) (?s1, p) = (Inr (), s1, p1)"
    "tf_trusted s1 = Some (jdel ts ?f)" "tf_rejected s1 = Some (jset rs ?f cert)"
    "pm_sent p1 = pm_sent p @ [reload_message]" "pm_state p1 = Running" "pm_process p1 \<noteq> None"
    using signal_running [OF assms(6,7), of taken ?s1] by (auto simp: tofu_note_def)
  have r1: "post_reject (\<lambda>_. None) (pm_ops True taken) th (s, p) = (respond_status 204, s1, p1)"
    using assms 1(1)
    by (simp add: post_reject_def pki_route_def rejectCertificate_def move_file_def has_file_def
        pki_answer_def Let_def)
  let ?s2 = "tofu_note ''info'' (''Certificate re-trusted: '' @ th)
    (s1\<lparr>tf_trusted := Some (jset (jdel ts ?f) ?f cert), tf_rejected := Some (jdel (jset rs ?f cert) ?f)\<rparr>)"
  obtain s2 p2 where 2: "signalReload (pm_ops True taken) (?s2, p1) = (Inr (), s2, p2)"
    "tf_trusted s2 = Some (jset (jdel ts ?f) ?f cert)" "tf_rejected s2 = Some (jdel (jset rs ?f cert) ?f)"
    "pm_sent p2 = pm_sent p1 @ [reload_message]"
    using signal_running [OF 1(5,6), of taken ?s2] by (auto simp: tofu_note_def)
  have r2: "post_trust (\<lambda>_. None) (pm_ops True taken) th (s1, p1) = (respond_status 204, s2, p2)"
    using assms(1) 1(2,3) 2(1)
    by (simp add: post_trust_def pki_route_def trustCertificate_def move_file_def has_file_def
        pki_answer_def Let_def)
  have "jget (jset (jdel ts ?f) ?f cert) n = jget ts n \<and> jget (jdel (jset rs ?f cert) ?f) n = jget rs n" for n
    using assms(4,5) by auto
  moreover have "rs_status (fst (post_trust (\<lambda>_. None) (pm_ops True taken) th (s2, p2))) = 404"
    using assms(1) 2(2,3)
    by (simp add: post_trust_def pki_route_def trustCertificate_def has_file_def pki_answer_def Let_def)
  ultimately show ?thesis
    using r1 r2 1(2-4) 2(2-4) by (auto simp: has_file_def)
qed


lemma reject_then_trust_witness:
  "\<exists>s1 p1. post_reject (\<lambda>_. None) (pm_ops True True) (replicate 40 CHR ''a'')
      (\<lparr>tf_trusted = Some [(der_file (replicate 40 CHR ''a''), ''cert'')], tf_rejected = Some [], tf_log = []\<rparr>,
       demo_runtime) = (respond_status 204, s1, p1)
    \<and> jget (the (tf_rejected s1)) (der_file (replicate 40 CHR ''a'')) = Some ''cert''"
proof -
  let ?s = "\<lparr>tf_trusted = Some [(der_file (replicate 40 CHR ''a''), ''cert'')], tf_rejected = Some [], tf_log = []\<rparr>"
  have "isValidThumbprint (replicate 40 CHR ''a'')" by code_simp
  moreover have "tf_trusted ?s = Some [(der_file (replicate 40 CHR ''a''), ''cert'')]"
    "tf_rejected ?s = Some []" by simp_all
  ultimately show ?thesis
    using reject_then_trust [of "replicate 40 CHR ''a''" ?s _ "[]" "''cert''" demo_runtime True]
      demo_runtime_runs by auto
qed
end
