(* ===== verification/NodeRoutes.thy ===== *)
theory NodeRoutes
  imports Http ConfigGenerator Csv "HOL-Library.Monad_Syntax"
begin

text \<open>
  \<open>src/api/routes/nodes.ts\<close>: the handlers for variables, with the export and the import of all of
  them as CSV. A handler is given the body Express has parsed. The code casts it to its declared
  type unchecked; a body with a field of another type is outside the model: the handler's result
  is \<open>None\<close>. \<open>JSON.parse\<close> of a text, the text of a number and the messages of SQLite are in the
  environment.
\<close>

section \<open>Environment and bodies\<close>

record api_env =
  ap_parse :: "string \<Rightarrow> jsval option"
  ap_number :: text_of_number
  ap_sql :: "sql_error \<Rightarrow> string"
  ap_gone :: string

text \<open>A declared text, or nothing; \<open>None\<close> is a value of another type.\<close>

fun text_or_null :: "jsval \<Rightarrow> string option option" where
  "text_or_null JUndefined = Some None"
| "text_or_null JNull = Some None"
| "text_or_null (JStr s) = Some (Some s)"
| "text_or_null _ = None"

text \<open>A missing text fails the test for an empty one.\<close>

definition required_text :: "jsval \<Rightarrow> string option" where
  "required_text v = map_option (\<lambda>s. case s of None \<Rightarrow> [] | Some x \<Rightarrow> x) (text_or_null v)"

definition optional_text :: "jsval \<Rightarrow> string option option" where
  "optional_text v = (if v = JNull then None else text_or_null v)"

text \<open>\<open>Some None\<close> is a \<open>null\<close>, unlike a field that is not there.\<close>

definition nullable_text :: "jsval \<Rightarrow> string option option option" where
  "nullable_text v = (if v = JUndefined then Some None else map_option Some (text_or_null v))"

definition create_node_body :: "jsval \<Rightarrow> create_node_request option" where
  "create_node_body b =
     do {
       name \<leftarrow> required_text (body_field b ''name'');
       ns \<leftarrow> required_text (body_field b ''namespaceId'');
       obj \<leftarrow> text_or_null (body_field b ''objectNodeId'');
       ty \<leftarrow> required_text (body_field b ''dataType'');
       desc \<leftarrow> text_or_null (body_field b ''description'');
       Some \<lparr>cr_name = name, cr_namespaceId = ns, cr_objectNodeId = obj, cr_dataType = ty,
             cr_initialValue = body_field b ''initialValue'', cr_description = desc\<rparr>
     }"

definition update_node_body_of :: "jsval \<Rightarrow> update_node_request option" where
  "update_node_body_of b =
     do {
       name \<leftarrow> optional_text (body_field b ''name'');
       obj \<leftarrow> nullable_text (body_field b ''objectNodeId'');
       ty \<leftarrow> optional_text (body_field b ''dataType'');
       desc \<leftarrow> optional_text (body_field b ''description'');
       Some \<lparr>ur_name = name, ur_objectNodeId = obj, ur_dataType = ty,
             ur_initialValue = body_field b ''initialValue'', ur_description = desc\<rparr>
     }"

definition node_row_json :: "node_row \<Rightarrow> jsval" where
  "node_row_json r =
     JObj [(''id'', JStr (nd_id r)), (''namespaceId'', JStr (nd_namespace r)),
           (''objectNodeId'', case nd_object r of None \<Rightarrow> JNull | Some o1 \<Rightarrow> JStr o1),
           (''name'', JStr (nd_name r)), (''dataType'', JStr (nd_dataType r)),
           (''initialValue'', case nd_initial r of None \<Rightarrow> JUndefined | Some v \<Rightarrow> v),
           (''description'', case nd_description r of None \<Rightarrow> JUndefined | Some s \<Rightarrow> JStr s),
           (''createdAt'', JStr (nd_created r)), (''updatedAt'', JStr (nd_updated r))]"

fun cached_node_json :: "cached \<Rightarrow> jsval" where
  "cached_node_json (CNode r) = node_row_json r"
| "cached_node_json _ = JUndefined"

section \<open>Single variables\<close>

text \<open>What a handler throws, the global error handler of \<open>app.ts\<close> answers.\<close>

definition mapDomainErrorToResponse :: "domain_error \<Rightarrow> response" where
  "mapDomainErrorToResponse e =
     domain_response
       (if de_code e = ''NOT_FOUND'' then 404
        else if de_code e = ''DUPLICATE_ERROR'' then 409
        else if de_code e = ''VALIDATION_ERROR'' then 400 else 500) e"

definition handleGenericError :: "string \<Rightarrow> response" where
  "handleGenericError message = internal_error message"

definition thrown_response :: "api_env \<Rightarrow> db_error \<Rightarrow> response" where
  "thrown_response env e =
     internal_error (if thrown_message (ap_sql env) e = [] then ''An unexpected error occurred''
                     else thrown_message (ap_sql env) e)"

definition node_answer ::
  "api_env \<Rightarrow> ('a \<Rightarrow> response) \<Rightarrow> 'a answer \<Rightarrow> response \<times> database" where
  "node_answer env ok r =
     (case r of
        (Inl e, d) \<Rightarrow> (thrown_response env e, d)
      | (Inr (Inl e), d) \<Rightarrow> (mapDomainErrorToResponse e, d)
      | (Inr (Inr x), d) \<Rightarrow> (ok x, d))"

definition post_node ::
  "api_env \<Rightarrow> string \<Rightarrow> string \<Rightarrow> jsval \<Rightarrow> database \<Rightarrow> (response \<times> database) option" where
  "post_node env i now body d =
     map_option
       (\<lambda>r. node_answer env (\<lambda>row. respond 201 (node_row_json row)) (node_create i now r d))
       (create_node_body body)"

definition get_nodes :: "api_env \<Rightarrow> request \<Rightarrow> database \<Rightarrow> response \<times> database" where
  "get_nodes env rq d =
     (case node_findAll (query_text rq ''namespaceId'') d of
        (Inl e, d1) \<Rightarrow> (thrown_response env e, d1)
      | (Inr rows, d1) \<Rightarrow> (respond 200 (JArr (map cached_node_json rows)), d1))"

definition get_node :: "api_env \<Rightarrow> string \<Rightarrow> database \<Rightarrow> response \<times> database" where
  "get_node env i d =
     (case node_findById i d of
        (Inl e, d1) \<Rightarrow> (thrown_response env e, d1)
      | (Inr None, d1) \<Rightarrow>
          (error_response 404 ''NOT_FOUND'' (''Node with id '' @ quoted i @ '' not found''), d1)
      | (Inr (Some row), d1) \<Rightarrow> (respond 200 (node_row_json row), d1))"

definition put_node ::
  "api_env \<Rightarrow> string \<Rightarrow> string \<Rightarrow> jsval \<Rightarrow> database \<Rightarrow> (response \<times> database) option" where
  "put_node env i now body d =
     map_option
       (\<lambda>r. node_answer env (\<lambda>row. respond 200 (node_row_json row)) (node_update i now r d))
       (update_node_body_of body)"

definition delete_node :: "api_env \<Rightarrow> string \<Rightarrow> database \<Rightarrow> response \<times> database" where
  "delete_node env i d = node_answer env (\<lambda>_. respond_status 204) (node_delete i d)"

section \<open>Export\<close>

text \<open>The tables, as the handlers read them directly: getting the connection or a statement may throw.\<close>

definition open_tables :: "api_env \<Rightarrow> database \<Rightarrow> string + tables" where
  "open_tables env d =
     (case getConnection d of
        Inl e \<Rightarrow> Inl (thrown_message (ap_sql env) e)
      | Inr t \<Rightarrow> if db_alive d then Inr t else Inl (ap_gone env))"

definition getObjectNodePath :: "object_row list \<Rightarrow> string option \<Rightarrow> string option" where
  "getObjectNodePath rows i =
     (if \<not> truthy_str i then Some [] else map_option (join ''/'') (path_loop rows i []))"

definition initial_value_text :: "text_of_number \<Rightarrow> jsval option \<Rightarrow> string" where
  "initial_value_text nt v =
     (case v of None \<Rightarrow> [] | Some x \<Rightarrow> if x = JNull \<or> x = JUndefined then [] else json nt x)"

definition namespace_name :: "tables \<Rightarrow> string \<Rightarrow> string option" where
  "namespace_name t i = map_option ns_name (find (\<lambda>r. ns_id r = i) (rev (t_namespaces t)))"

definition export_fields :: "text_of_number \<Rightarrow> tables \<Rightarrow> node_row \<Rightarrow> string list option" where
  "export_fields nt t r =
     map_option
       (\<lambda>path. [nd_name r, case namespace_name t (nd_namespace r) of None \<Rightarrow> [] | Some n \<Rightarrow> n,
                path, nd_dataType r, initial_value_text nt (nd_initial r),
                case nd_description r of None \<Rightarrow> [] | Some s \<Rightarrow> s])
       (getObjectNodePath (t_objects t) (nd_object r))"

definition csv_line :: "string list \<Rightarrow> string" where
  "csv_line fs = join '','' (map escapeCsvField fs)"

definition csv_header :: string where
  "csv_header = ''name,namespace,objectNodePath,dataType,initialValue,description''"

fun cached_node :: "cached \<Rightarrow> node_row list" where
  "cached_node (CNode r) = [r]"
| "cached_node _ = []"

definition csv_response :: "string \<Rightarrow> string \<Rightarrow> response" where
  "csv_response file text =
     \<lparr>rs_status = 200, rs_body = TextBody text,
      rs_headers = [(''Content-Type'', ''text/csv; charset=utf-8''),
        (''Content-Disposition'', ''attachment; filename='' @ dquoted file)]\<rparr>"

text \<open>The walks up the hierarchy may not end.\<close>

definition export_nodes :: "api_env \<Rightarrow> database \<Rightarrow> (response \<times> database) option" where
  "export_nodes env d =
     (case getConnection d of
        Inl e \<Rightarrow> Some (handleGenericError (thrown_message (ap_sql env) e), d)
      | Inr _ \<Rightarrow>
          (case node_findAll None d of
             (Inl e, d1) \<Rightarrow> Some (handleGenericError (thrown_message (ap_sql env) e), d1)
           | (Inr rows, d1) \<Rightarrow>
               (if \<not> db_alive d1 then Some (handleGenericError (ap_gone env), d1)
                else map_option
                  (\<lambda>lines. (csv_response ''nodes.csv'' (join [CHR 0x0A] (csv_header # map csv_line lines)), d1))
                  (those (map (export_fields (ap_number env) (db_tables d1)) (concat (map cached_node rows)))))))"

section \<open>Import\<close>

fun descend :: "object_row list \<Rightarrow> string option \<Rightarrow> string list \<Rightarrow> string option" where
  "descend rows parent [] = parent"
| "descend rows parent (p # ps) =
     (case find (\<lambda>r. on_name r = p \<and> on_parent r = parent) rows of
        None \<Rightarrow> None
      | Some r \<Rightarrow> descend rows (Some (on_id r)) ps)"

definition findObjectNodeByPath :: "tables \<Rightarrow> string \<Rightarrow> string \<Rightarrow> string option" where
  "findObjectNodeByPath t ns path =
     (let parts = filter (\<lambda>p. p \<noteq> []) (map trim (split_on CHR ''/'' path))
      in if path = [] \<or> parts = [] then None
         else descend (filter (\<lambda>r. on_namespace r = ns) (t_objects t)) None parts)"

text \<open>\<open>split(/\r?\n/)\<close>: a carriage return before a line break belongs to the break.\<close>

definition drop_return :: "string \<Rightarrow> string" where
  "drop_return l = (if l \<noteq> [] \<and> last l = CHR 0x0D then butlast l else l)"

definition split_lines :: "string \<Rightarrow> string list" where
  "split_lines s =
     (let ls = split_on CHR 0x0A s in map drop_return (butlast ls) @ [last ls])"

definition csv_lines :: "string \<Rightarrow> string list" where
  "csv_lines s = filter (\<lambda>l. trim l \<noteq> []) (split_lines s)"

definition letters_only :: "string \<Rightarrow> string" where
  "letters_only h = filter (\<lambda>c. CHR ''a'' \<le> c \<and> c \<le> CHR ''z'') (map lower_char h)"

definition node_header_ok :: "string \<Rightarrow> bool" where
  "node_header_ok line =
     (let h = map letters_only (parseCsvLine line)
      in 4 \<le> length h \<and> h ! 0 = ''name'' \<and> h ! 1 = ''namespace'' \<and> h ! 3 = ''datatype'')"

text \<open>A field of a row, trimmed, or nothing where the row is too short.\<close>

definition trimmed_field :: "string list \<Rightarrow> nat \<Rightarrow> string" where
  "trimmed_field fs k = (if k < length fs then trim (fs ! k) else [])"

definition namespace_id_of :: "tables \<Rightarrow> string \<Rightarrow> string option" where
  "namespace_id_of t name = map_option ns_id (find (\<lambda>r. ns_name r = name) (rev (t_namespaces t)))"

definition import_value :: "api_env \<Rightarrow> string \<Rightarrow> jsval" where
  "import_value env s =
     (if s = [] then JUndefined else (case ap_parse env s of Some v \<Rightarrow> v | None \<Rightarrow> JStr s))"

text \<open>The request a row asks for, or what is wrong with it.\<close>

definition import_request ::
  "api_env \<Rightarrow> tables \<Rightarrow> string list \<Rightarrow> (string option \<times> string) + create_node_request" where
  "import_request env t fs =
     (if length fs < 4 then Inl (None, ''Insufficient columns'')
      else if trimmed_field fs 0 = [] then Inl (None, ''Name is required'')
      else
        (case namespace_id_of t (trimmed_field fs 1) of
           None \<Rightarrow> Inl (Some (fs ! 0), ''Namespace '' @ dquoted (fs ! 1) @ '' not found'')
         | Some ns \<Rightarrow>
             if ns = [] then Inl (Some (fs ! 0), ''Namespace '' @ dquoted (fs ! 1) @ '' not found'')
             else if \<not> List.member SUPPORTED_DATA_TYPES (trimmed_field fs 3)
             then Inl (Some (fs ! 0), ''Invalid dataType '' @ dquoted (fs ! 3))
             else
               (let obj = findObjectNodeByPath t ns (trimmed_field fs 2) in
                if trimmed_field fs 2 \<noteq> [] \<and> \<not> truthy_str obj
                then Inl (Some (fs ! 0), ''Object node path '' @ dquoted (fs ! 2)
                       @ '' not found in namespace '' @ dquoted (fs ! 1))
                else Inr \<lparr>cr_name = trimmed_field fs 0, cr_namespaceId = ns, cr_objectNodeId = obj,
                          cr_dataType = trimmed_field fs 3,
                          cr_initialValue = import_value env (trimmed_field fs 4),
                          cr_description =
                            (if trimmed_field fs 5 = [] then None else Some (trimmed_field fs 5))\<rparr>)))"

record import_result =
  ir_row :: nat
  ir_success :: bool
  ir_name :: "string option"
  ir_error :: "string option"

text \<open>
  The rows in order; \<open>fresh\<close> gives each row an id and a time. The look-ups use the tables as they
  were at the start. What \<open>create\<close> throws ends the import; the rows before stay.
\<close>

fun import_rows ::
  "api_env \<Rightarrow> (nat \<Rightarrow> string \<times> string) \<Rightarrow> tables \<Rightarrow> nat \<Rightarrow> string list \<Rightarrow> database
     \<Rightarrow> (db_error + import_result list) \<times> database" where
  "import_rows env fresh t n [] d = (Inr [], d)"
| "import_rows env fresh t n (l # ls) d =
     (case import_request env t (parseCsvLine l) of
        Inl (name, e) \<Rightarrow>
          (let (rs, d1) = import_rows env fresh t (Suc n) ls d
           in (map_sum id (Cons \<lparr>ir_row = n, ir_success = False, ir_name = name, ir_error = Some e\<rparr>) rs, d1))
      | Inr r \<Rightarrow>
          and_then (node_create (fst (fresh n)) (snd (fresh n)) r d)
            (\<lambda>x d1.
               let res = (case x of
                            Inl e \<Rightarrow> \<lparr>ir_row = n, ir_success = False, ir_name = Some (cr_name r),
                                      ir_error = Some (de_message e)\<rparr>
                          | Inr _ \<Rightarrow> \<lparr>ir_row = n, ir_success = True, ir_name = Some (cr_name r),
                                      ir_error = None\<rparr>);
                   (rs, d2) = import_rows env fresh t (Suc n) ls d1
               in (map_sum id (Cons res) rs, d2)))"

definition import_result_json :: "import_result \<Rightarrow> jsval" where
  "import_result_json r =
     JObj [(''row'', jint (int (ir_row r))), (''success'', JBool (ir_success r)),
           (''name'', case ir_name r of None \<Rightarrow> JUndefined | Some n \<Rightarrow> JStr n),
           (''error'', case ir_error r of None \<Rightarrow> JUndefined | Some e \<Rightarrow> JStr e)]"

definition import_summary :: "import_result list \<Rightarrow> response" where
  "import_summary rs =
     (let failed = length (filter (\<lambda>r. \<not> ir_success r) rs) in
      respond (if failed = 0 then 201 else 207)
        (JObj [(''summary'', JObj [(''total'', jint (int (length rs))),
                 (''succeeded'', jint (int (length (filter ir_success rs)))),
                 (''failed'', jint (int failed))]),
               (''results'', JArr (map import_result_json rs))]))"

definition import_nodes ::
  "api_env \<Rightarrow> (nat \<Rightarrow> string \<times> string) \<Rightarrow> jsval \<Rightarrow> database \<Rightarrow> response \<times> database" where
  "import_nodes env fresh body d =
     (case body_field body ''csv'' of
        JStr csv \<Rightarrow>
          if csv = [] then
            (error_response 400 ''VALIDATION_ERROR''
               (''Request body must include a '' @ dquoted ''csv'' @ '' field with the CSV content as a string''), d)
          else
            (case open_tables env d of
               Inl e \<Rightarrow> (handleGenericError e, d)
             | Inr t \<Rightarrow>
                 (case csv_lines csv of
                    h # l # ls \<Rightarrow>
                      if \<not> node_header_ok h then
                        (error_response 400 ''VALIDATION_ERROR''
                          ''CSV header must have columns: name,namespace,objectNodePath,dataType,initialValue,description'', d)
                      else
                        (case import_rows env fresh t 2 (l # ls) d of
                           (Inl e, d1) \<Rightarrow> (handleGenericError (thrown_message (ap_sql env) e), d1)
                         | (Inr rs, d1) \<Rightarrow> (import_summary rs, d1))
                  | _ \<Rightarrow> (error_response 400 ''VALIDATION_ERROR''
                          ''CSV must contain a header row and at least one data row'', d)))
      | _ \<Rightarrow> (error_response 400 ''VALIDATION_ERROR''
               (''Request body must include a '' @ dquoted ''csv'' @ '' field with the CSV content as a string''), d))"

section \<open>What is exported can be imported\<close>

definition plain_text :: "string \<Rightarrow> bool" where
  "plain_text s \<longleftrightarrow> s \<noteq> [] \<and> trim s = s \<and> CHR 0x0A \<notin> set s"

text \<open>Containers whose paths can be read back: within one namespace, with names without a slash.\<close>

definition plain_containers :: "tables \<Rightarrow> bool" where
  "plain_containers t \<longleftrightarrow>
     list_all (\<lambda>r. plain_text (on_name r) \<and> CHR ''/'' \<notin> set (on_name r)
       \<and> list_all (\<lambda>p. on_parent r = Some (on_id p) \<longrightarrow> on_namespace p = on_namespace r) (t_objects t))
       (t_objects t)"

lemma container_round_trip:
  assumes "integrity t" "plain_containers t" and ids: "\<forall>r \<in> set (t_objects t). on_id r \<noteq> []"
    and "at_depth (t_objects t) i n"
  shows "\<forall>ns. find_object (t_objects t) i = Some r \<longrightarrow> on_namespace r = ns \<longrightarrow>
    (\<exists>ps. ps \<noteq> [] \<and> (\<forall>p \<in> set ps. plain_text p \<and> CHR ''/'' \<notin> set p)
      \<and> (\<forall>parts. path_loop (t_objects t) (Some i) parts = Some (ps @ parts))
      \<and> (\<forall>qs. descend (filter (\<lambda>r. on_namespace r = ns) (t_objects t)) None (ps @ qs)
            = descend (filter (\<lambda>r. on_namespace r = ns) (t_objects t)) (Some i) qs))"
proof -
  let ?rows = "t_objects t"
  have d: "distinct (map on_id ?rows)"
    and u: "inj_on (\<lambda>r. (on_namespace r, on_parent r, on_name r)) (set ?rows)"
    using assms(1) by (simp_all add: integrity_def unique_ok_def distinct_map)
  have step: "find (\<lambda>s. on_name s = on_name r \<and> on_parent s = on_parent r)
      (filter (\<lambda>s. on_namespace s = on_namespace r) ?rows) = Some r" if "r \<in> set ?rows" for r
  proof -
    let ?found = "find (\<lambda>s. on_name s = on_name r \<and> on_parent s = on_parent r)
      (filter (\<lambda>s. on_namespace s = on_namespace r) ?rows)"
    have "?found \<noteq> None" unfolding find_None using that by auto
    then obtain s where s: "?found = Some s" by blast
    from find_SomeD [OF s] have "s = r" using inj_onD [OF u, of s r] that by simp
    with s show ?thesis by simp
  qed
  have plain: "plain_text (on_name r)" "CHR ''/'' \<notin> set (on_name r)" if "r \<in> set ?rows" for r
    using assms(2) that by (auto simp: plain_containers_def list_all_iff)
  have same: "on_namespace p = on_namespace r"
    if "r \<in> set ?rows" "p \<in> set ?rows" "on_parent r = Some (on_id p)" for r p
    using assms(2) that by (auto simp: plain_containers_def list_all_iff)
  have up: "path_loop ?rows (Some (on_id r)) parts = path_loop ?rows (on_parent r) (on_name r # parts)"
    if "r \<in> set ?rows" for r parts
    using find_object_rev [OF d that] ids that by (subst path_loop.simps) simp
  show ?thesis
    using assms(4)
  proof (induction arbitrary: r)
    case (root q)
    have "find_object ?rows (on_id q) = Some q" using find_object_iff [OF d] root(1) by simp
    moreover have "path_loop ?rows None parts = Some parts" for parts by (subst path_loop.simps) simp
    ultimately show ?case
      using up [OF root(1)] root(2) step [OF root(1)] plain [OF root(1)]
      by (intro allI impI exI [of _ "[on_name q]"]) auto
  next
    case (child q p n)
    from at_depth_row [OF child(3)] obtain s where s: "s \<in> set ?rows" "on_id s = p" by blast
    have fs: "find_object ?rows p = Some s" using find_object_iff [OF d] s by simp
    have fq: "find_object ?rows (on_id q) = Some q" using find_object_iff [OF d] child(1) by simp
    have ns: "on_namespace s = on_namespace q" using same [OF child(1) s(1)] child(2) s(2) by simp
    from child(4) fs ns obtain ps where ps: "ps \<noteq> []" "\<forall>p \<in> set ps. plain_text p \<and> CHR ''/'' \<notin> set p"
      "\<forall>parts. path_loop ?rows (Some p) parts = Some (ps @ parts)"
      "\<forall>qs. descend (filter (\<lambda>r. on_namespace r = on_namespace q) ?rows) None (ps @ qs)
            = descend (filter (\<lambda>r. on_namespace r = on_namespace q) ?rows) (Some p) qs"
      by blast
    have "\<forall>qs. descend (filter (\<lambda>r. on_namespace r = on_namespace q) ?rows) None ((ps @ [on_name q]) @ qs)
            = descend (filter (\<lambda>r. on_namespace r = on_namespace q) ?rows) (Some (on_id q)) qs"
      using ps(4) step [OF child(1)] child(2) by simp
    then show ?case
      using fq up [OF child(1)] child(2) ps(1-3) plain [OF child(1)]
      by (intro allI impI exI [of _ "ps @ [on_name q]"]) auto
  qed
qed


lemma trim_ends: "s \<noteq> [] \<Longrightarrow> trim s = s \<longleftrightarrow> \<not> js_ws (hd s) \<and> \<not> js_ws (last s)"
proof
  assume ne: "s \<noteq> []" and eq: "trim s = s"
  from eq have "length (dropWhile js_ws s) = length s"
    using length_dropWhile_le [of js_ws s] length_dropWhile_le [of js_ws "rev (dropWhile js_ws s)"]
    by (metis trim_def length_rev le_antisym)
  then have h: "\<not> js_ws (hd s)"
    using ne length_dropWhile_le [of js_ws "tl s"] by (cases s) (auto split: if_splits)
  with ne have "dropWhile js_ws s = s" by (cases s) auto
  with eq have "rev (dropWhile js_ws (rev s)) = s" by (simp add: trim_def)
  then have "dropWhile js_ws (rev s) = rev s" by (metis rev_rev_ident)
  then have "\<not> js_ws (last s)"
    using ne by (metis dropWhile_eq_self_iff hd_rev rev_is_Nil_conv)
  with h show "\<not> js_ws (hd s) \<and> \<not> js_ws (last s)" by blast
next
  assume ne: "s \<noteq> []" and w: "\<not> js_ws (hd s) \<and> \<not> js_ws (last s)"
  then have "dropWhile js_ws s = s" "dropWhile js_ws (rev s) = rev s"
    by (simp_all add: dropWhile_eq_self_iff hd_rev)
  then show "trim s = s" by (simp add: trim_def)
qed

lemma join_ends:
  "ps \<noteq> [] \<Longrightarrow> \<forall>p \<in> set ps. p \<noteq> [] \<Longrightarrow>
    join sep ps \<noteq> [] \<and> hd (join sep ps) = hd (hd ps) \<and> last (join sep ps) = last (last ps)"
  by (induction ps) (auto simp: join_Cons hd_append)

lemma join_set: "set (join sep (p # ps)) = set p \<union> (if ps = [] then {} else set sep \<union> set (join sep ps))"
  by (cases ps) auto

lemma plain_join:
  assumes "ps \<noteq> []" "\<forall>p \<in> set ps. plain_text p" "CHR 0x0A \<notin> set sep"
  shows "plain_text (join sep ps)"
proof -
  have ne: "\<forall>p \<in> set ps. p \<noteq> []" using assms(2) by (simp add: plain_text_def)
  have "\<not> js_ws (hd (hd ps))" "\<not> js_ws (last (last ps))"
    using assms(1,2) trim_ends [of "hd ps"] trim_ends [of "last ps"] by (auto simp: plain_text_def)
  moreover have "CHR 0x0A \<notin> set (join sep ps)"
    using assms(2,3) by (induction ps) (auto simp: join_set plain_text_def)
  ultimately show ?thesis
    using join_ends [OF assms(1) ne, of sep] by (simp add: plain_text_def trim_ends)
qed

lemma split_csv_lines:
  assumes "ls \<noteq> []" "\<forall>l \<in> set ls. CHR 0x0A \<notin> set l \<and> trim l \<noteq> [] \<and> last l \<noteq> CHR 0x0D"
  shows "csv_lines (join [CHR 0x0A] ls) = ls"
proof -
  have "map drop_return (butlast ls) = butlast ls"
    using assms(2) by (intro map_idI) (auto simp: drop_return_def dest: in_set_butlastD)
  then have "split_lines (join [CHR 0x0A] ls) = ls"
    using assms by (simp add: split_lines_def split_join)
  then show ?thesis using assms(2) by (simp add: csv_lines_def)
qed

lemma csv_line_ok:
  assumes "2 \<le> length fs" "hd fs \<noteq> []" "\<not> js_ws (hd (hd fs))" "\<forall>f \<in> set fs. CHR 0x0A \<notin> set f"
  shows "CHR 0x0A \<notin> set (csv_line fs) \<and> trim (csv_line fs) \<noteq> [] \<and> last (csv_line fs) \<noteq> CHR 0x0D"
proof -
  from assms(1) obtain f g gs where fs: "fs = f # g # gs" by (cases fs; cases "tl fs") auto
  have "CHR 0x0A \<notin> set (join '','' (map escapeCsvField gs'))"
    if "\<forall>f \<in> set gs'. CHR 0x0A \<notin> set f" for gs'
    using that by (induction gs') (auto simp: join_set escape_no_break)
  then have 1: "CHR 0x0A \<notin> set (csv_line fs)" using assms(4) unfolding csv_line_def .
  have esc: "\<exists>c \<in> set (escapeCsvField f). \<not> js_ws c"
    using assms(2,3) by (auto simp: fs escapeCsvField_def js_ws_def intro!: bexI [of _ "hd f"])
  have 2: "trim (csv_line fs) \<noteq> []"
    using esc by (auto simp: trim_eq_Nil csv_line_def fs)
  have field: "escapeCsvField x = [] \<or> last (escapeCsvField x) \<noteq> CHR 0x0D" for x
    by (auto simp: escapeCsvField_def needs_quotes_def dest: last_in_set)
  have "last (CHR '','' # join '','' (map escapeCsvField (x # xs))) \<noteq> CHR 0x0D" for x xs
  proof (induction xs arbitrary: x)
    case Nil
    then show ?case using field [of x] by auto
  next
    case (Cons y ys)
    then show ?case by (simp add: last_append)
  qed
  from this [of g gs] have 3: "last (csv_line fs) \<noteq> CHR 0x0D"
    by (simp add: csv_line_def fs last_append)
  from 1 2 3 show ?thesis by blast
qed

text \<open>
  The rows that survive an export: texts without line breaks or blanks at their ends, a value whose
  JSON text is read back, and a container of the row's own namespace.
\<close>

definition exportable :: "api_env \<Rightarrow> tables \<Rightarrow> node_row \<Rightarrow> bool" where
  "exportable env t r \<longleftrightarrow>
     plain_text (nd_name r)
     \<and> nd_namespace r \<noteq> []
     \<and> (case namespace_name t (nd_namespace r) of None \<Rightarrow> False | Some n \<Rightarrow> plain_text n)
     \<and> List.member SUPPORTED_DATA_TYPES (nd_dataType r)
     \<and> (case nd_initial r of None \<Rightarrow> True
        | Some v \<Rightarrow> v \<noteq> JNull \<and> v \<noteq> JUndefined \<and> plain_text (json (ap_number env) v)
            \<and> ap_parse env (json (ap_number env) v) = Some v)
     \<and> (case nd_description r of None \<Rightarrow> True | Some s \<Rightarrow> plain_text s)
     \<and> (case nd_object r of None \<Rightarrow> True
        | Some i \<Rightarrow> i \<noteq> [] \<and> (case find_object (t_objects t) i of None \<Rightarrow> False
            | Some c \<Rightarrow> on_namespace c = nd_namespace r))"

definition request_of :: "node_row \<Rightarrow> create_node_request" where
  "request_of r =
     \<lparr>cr_name = nd_name r, cr_namespaceId = nd_namespace r, cr_objectNodeId = nd_object r,
      cr_dataType = nd_dataType r,
      cr_initialValue = (case nd_initial r of None \<Rightarrow> JUndefined | Some v \<Rightarrow> v),
      cr_description = nd_description r\<rparr>"

lemma supported_plain:
  "List.member SUPPORTED_DATA_TYPES ty \<Longrightarrow> plain_text ty"
proof -
  have "list_all plain_text SUPPORTED_DATA_TYPES" by code_simp
  then show "List.member SUPPORTED_DATA_TYPES ty \<Longrightarrow> plain_text ty" by (simp add: list_all_iff)
qed

lemma namespace_by_name:
  assumes "unique_ok t" "t_namespaces t' = t_namespaces t" "namespace_name t i = Some n"
  shows "namespace_id_of t' n = Some i"
proof -
  let ?ns = "rev (t_namespaces t)"
  have d: "inj_on ns_name (set ?ns)"
    using assms(1) by (simp add: unique_ok_def distinct_map)
  from assms(3) obtain r where r: "find (\<lambda>r. ns_id r = i) ?ns = Some r" "ns_name r = n"
    by (auto simp: namespace_name_def)
  from find_SomeD [OF r(1)] have r': "r \<in> set ?ns" "ns_id r = i" by auto
  have "find (\<lambda>r. ns_name r = n) ?ns \<noteq> None" unfolding find_None using r' r(2) by auto
  then obtain s where s: "find (\<lambda>r. ns_name r = n) ?ns = Some s" by blast
  from find_SomeD [OF s] have "s = r" using inj_onD [OF d, of s r] r' r(2) by simp
  with s r'(2) show ?thesis by (simp add: namespace_id_of_def assms(2))
qed

text \<open>The path of a container, written and looked up again.\<close>

lemma container_path_back:
  assumes t: "integrity t" "plain_containers t" "objects_ok t"
    and o: "t_objects t' = t_objects t"
    and c: "find_object (t_objects t) i = Some c" "i \<noteq> []"
  shows "\<exists>path. getObjectNodePath (t_objects t) (Some i) = Some path \<and> plain_text path
    \<and> findObjectNodeByPath t' (on_namespace c) path = Some i"
proof -
  have h: "hier_ok (t_objects t)" using t(3) by (simp add: objects_ok_def)
  then have "c \<in> set (t_objects t)" "on_id c = i"
    using c(1) find_object_iff by (auto simp: hier_ok_def)
  with h obtain n where n: "at_depth (t_objects t) i n" by (auto simp: hier_ok_def)
  have ids: "\<forall>r \<in> set (t_objects t). on_id r \<noteq> []" using h by (simp add: hier_ok_def)
  from container_round_trip [OF t(1,2) ids n, of c] c(1) obtain ps where ps: "ps \<noteq> []"
    "\<forall>p \<in> set ps. plain_text p \<and> CHR ''/'' \<notin> set p"
    "\<forall>parts. path_loop (t_objects t) (Some i) parts = Some (ps @ parts)"
    "\<forall>qs. descend (filter (\<lambda>r. on_namespace r = on_namespace c) (t_objects t)) None (ps @ qs)
        = descend (filter (\<lambda>r. on_namespace r = on_namespace c) (t_objects t)) (Some i) qs"
    by blast
  have plain: "plain_text (join ''/'' ps)" using ps(1,2) by (intro plain_join) auto
  have "map trim ps = ps" "\<forall>p \<in> set ps. p \<noteq> []"
    using ps(2) by (auto simp: plain_text_def intro!: map_idI)
  then have "filter (\<lambda>p. p \<noteq> []) (map trim (split_on CHR ''/'' (join ''/'' ps))) = ps"
    using ps(1,2) by (simp add: split_join)
  then have "findObjectNodeByPath t' (on_namespace c) (join ''/'' ps) = Some i"
    using plain ps(1) ps(4) [rule_format, of "[]"]
    by (simp add: findObjectNodeByPath_def plain_text_def o)
  moreover have "getObjectNodePath (t_objects t) (Some i) = Some (join ''/'' ps)"
    using ps(3) c(2) by (simp add: getObjectNodePath_def)
  ultimately show ?thesis using plain by blast
qed

lemma row_round_trip:
  assumes t: "integrity t" "plain_containers t" "objects_ok t"
    and t': "t_namespaces t' = t_namespaces t" "t_objects t' = t_objects t"
    and r: "exportable env t r"
  shows "\<exists>fs. export_fields (ap_number env) t r = Some fs
    \<and> import_request env t' (parseCsvLine (csv_line fs)) = Inr (request_of r)
    \<and> CHR 0x0A \<notin> set (csv_line fs) \<and> trim (csv_line fs) \<noteq> [] \<and> last (csv_line fs) \<noteq> CHR 0x0D"
proof -
  from r obtain n where n: "namespace_name t (nd_namespace r) = Some n" "plain_text n"
    by (auto simp: exportable_def split: option.splits)
  have ns: "namespace_id_of t' n = Some (nd_namespace r)"
    using t(1) by (intro namespace_by_name [OF _ t'(1) n(1)]) (simp add: integrity_def)
  obtain path where path: "getObjectNodePath (t_objects t) (nd_object r) = Some path"
    "trim path = path" "CHR 0x0A \<notin> set path"
    "findObjectNodeByPath t' (nd_namespace r) path = nd_object r" "path \<noteq> [] \<longrightarrow> truthy_str (nd_object r)"
  proof (cases "nd_object r")
    case None
    then show ?thesis
      by (intro that [of "[]"]) (simp_all add: getObjectNodePath_def findObjectNodeByPath_def)
  next
    case (Some i)
    with r obtain c where c: "find_object (t_objects t) i = Some c" "i \<noteq> []" "on_namespace c = nd_namespace r"
      by (auto simp: exportable_def split: option.splits)
    from container_path_back [OF t t'(2) c(1,2)] Some c(2,3) show ?thesis
      by (auto simp: plain_text_def intro: that)
  qed
  define value_text where "value_text = initial_value_text (ap_number env) (nd_initial r)"
  define desc where "desc = (case nd_description r of None \<Rightarrow> [] | Some s \<Rightarrow> s)"
  have v: "trim value_text = value_text" "CHR 0x0A \<notin> set value_text"
    "import_value env value_text = (case nd_initial r of None \<Rightarrow> JUndefined | Some v \<Rightarrow> v)"
    using r by (auto simp: exportable_def value_text_def initial_value_text_def import_value_def plain_text_def
        split: option.splits)
  have d: "trim desc = desc" "CHR 0x0A \<notin> set desc"
    "(if desc = [] then None else Some desc) = nd_description r"
    using r by (auto simp: exportable_def desc_def plain_text_def split: option.splits)
  have ty: "List.member SUPPORTED_DATA_TYPES (nd_dataType r)" "plain_text (nd_dataType r)"
    using r supported_plain by (auto simp: exportable_def)
  have name: "plain_text (nd_name r)" "nd_namespace r \<noteq> []" using r by (simp_all add: exportable_def)
  define fs where "fs = [nd_name r, n, path, nd_dataType r, value_text, desc]"
  have e: "export_fields (ap_number env) t r = Some fs"
    by (simp add: export_fields_def path(1) n(1) fs_def value_text_def desc_def)
  have fields: "parseCsvLine (csv_line fs) = fs"
    using parse_fields [of fs "[]"] by (simp add: parseCsvLine_def csv_line_def fs_def)
  have "trimmed_field fs 0 = nd_name r" "trimmed_field fs 1 = n" "trimmed_field fs 2 = path"
    "trimmed_field fs 3 = nd_dataType r" "trimmed_field fs 4 = value_text" "trimmed_field fs 5 = desc"
    using name ty n(2) path(2) v(1) d(1) by (simp_all add: trimmed_field_def fs_def plain_text_def)
  moreover have "\<not> (path \<noteq> [] \<and> \<not> truthy_str (nd_object r))" "\<not> length fs < 4" "nd_name r \<noteq> []"
    using path(5) name(1) by (auto simp: fs_def plain_text_def)
  ultimately have "import_request env t' fs = Inr (request_of r)"
    using name(2) ty(1) ns path(4) v(3) d(3)
    by (simp only: import_request_def Let_def option.case if_False not_True_eq_False not_False_eq_True
        request_of_def)
  moreover have "CHR 0x0A \<notin> set (csv_line fs) \<and> trim (csv_line fs) \<noteq> [] \<and> last (csv_line fs) \<noteq> CHR 0x0D"
    using name ty n(2) path v d trim_ends [of "nd_name r"]
    by (intro csv_line_ok) (auto simp: fs_def plain_text_def)
  ultimately show ?thesis using e fields by metis
qed

text \<open>C13: Where nothing in the texts gets in the way, the export writes a CSV the import accepts: with
  the header it wants, and each line asking for exactly the variable it was written for, all fields
  included, also when the variables have been deleted since. The names and descriptions must be
  without line breaks and outer blanks and not empty, names of containers without slashes,
  containers and their variables of one namespace, types supported, and initial values must not be
  null, and be such texts as JSON and read back from it; the database must answer and keep its
  constraints.\<close>

theorem export_import_round_trip:
  assumes "integrity (db_tables d)" "objects_ok (db_tables d)" "plain_containers (db_tables d)"
    and "db_open d" "db_alive d" "db_accessible d"
    and "list_all (exportable env (db_tables d)) (t_nodes (db_tables d))"
    and "t_namespaces t' = t_namespaces (db_tables d)" "t_objects t' = t_objects (db_tables d)"
  shows "\<exists>csv ls d1. export_nodes env d = Some (csv_response ''nodes.csv'' csv, d1)
    \<and> csv_lines csv = csv_header # ls \<and> node_header_ok csv_header
    \<and> map (\<lambda>l. import_request env t' (parseCsvLine l)) ls
        = map (\<lambda>r. Inr (request_of r)) (sort_key nd_name (t_nodes (db_tables d)))"
proof -
  let ?t = "db_tables d"
  define rows where "rows = sort_key nd_name (t_nodes ?t)"
  define fss where "fss = map (\<lambda>r. the (export_fields (ap_number env) ?t r)) rows"
  have row: "\<exists>fs. export_fields (ap_number env) ?t r = Some fs
    \<and> import_request env t' (parseCsvLine (csv_line fs)) = Inr (request_of r)
    \<and> CHR 0x0A \<notin> set (csv_line fs) \<and> trim (csv_line fs) \<noteq> [] \<and> last (csv_line fs) \<noteq> CHR 0x0D"
    if "r \<in> set rows" for r
    using assms(7) that row_round_trip [OF assms(1,3,2,8,9)] by (simp add: list_all_iff rows_def)
  then have some: "those (map (export_fields (ap_number env) ?t) rows) = Some fss"
    unfolding fss_def by (induction rows) force+
  have ls: "CHR 0x0A \<notin> set l \<and> trim l \<noteq> [] \<and> last l \<noteq> CHR 0x0D"
    if "l \<in> set (csv_header # map csv_line fss)" for l
  proof (cases "l = csv_header")
    case True
    have "CHR 0x0A \<notin> set csv_header \<and> trim csv_header \<noteq> [] \<and> last csv_header \<noteq> CHR 0x0D" by code_simp
    with True show ?thesis by simp
  next
    case False
    with that obtain r where "r \<in> set rows" "l = csv_line (the (export_fields (ap_number env) ?t r))"
      by (auto simp: fss_def)
    then show ?thesis using row by fastforce
  qed
  have "csv_lines (join [CHR 0x0A] (csv_header # map csv_line fss)) = csv_header # map csv_line fss"
    using ls by (intro split_csv_lines) auto
  moreover have "node_header_ok csv_header" by code_simp
  moreover have "map (\<lambda>l. import_request env t' (parseCsvLine l)) (map csv_line fss)
      = map (\<lambda>r. Inr (request_of r)) rows"
    using row by (fastforce simp: fss_def)
  moreover have "concat (map cached_node (map CNode rows)) = rows"
    by (induction rows) auto
  moreover obtain d1 where "node_findAll None d = (Inr (map CNode rows), d1)" "db_tables d1 = ?t" "db_alive d1"
    using assms(4,5)
    by (auto simp: node_findAll_def readWithCache_def isAccessible_def updateCache_def Let_def
        all_nodes_query_def rows_def)
  ultimately show ?thesis
    using assms(4,6) some
    by (intro exI [of _ "join [CHR 0x0A] (csv_header # map csv_line fss)"] exI [of _ "map csv_line fss"]
        exI [of _ d1]) (simp add: export_nodes_def getConnection_def rows_def)
qed

definition export_env :: api_env where
  "export_env = \<lparr>ap_parse = (\<lambda>s. if s = ''1'' then Some (jint 1) else None), ap_number = (\<lambda>_. ''1''),
     ap_sql = (\<lambda>_. ''error''), ap_gone = ''gone''\<rparr>"

definition export_plant :: database where
  "export_plant = demo_plant [(demo_variable ''v'' ''Speed'' (Some ''b''))
     \<lparr>nd_initial := Some (jint 1), nd_description := Some ''rpm, measured''\<rparr>,
     demo_variable ''w'' ''Level'' None]"

lemma export_plant_facts:
  "integrity (db_tables export_plant)" "objects_ok (db_tables export_plant)" "db_open export_plant"
  "db_alive export_plant" "db_accessible export_plant" "plain_containers (db_tables export_plant)"
  "list_all (exportable export_env (db_tables export_plant)) (t_nodes (db_tables export_plant))"
proof -
  show "integrity (db_tables export_plant)"
    by (simp add: export_plant_def demo_plant_def demo_objects_def demo_variable_def open_database_def
        integrity_def notnull_ok_def unique_ok_def foreign_ok_def fresh_tables_def ref_ok_def)
  show "plain_containers (db_tables export_plant)" by code_simp
  show "list_all (exportable export_env (db_tables export_plant)) (t_nodes (db_tables export_plant))"
    by code_simp
qed (simp_all add: export_plant_def demo_plant_facts)

lemma export_import_round_trip_witness:
  "\<exists>csv l1 l2 d1. export_nodes export_env export_plant = Some (csv_response ''nodes.csv'' csv, d1)
    \<and> csv_lines csv = [csv_header, l1, l2]
    \<and> (\<exists>r. import_request export_env demo_objects (parseCsvLine l2) = Inr r
          \<and> cr_name r = ''Speed'' \<and> cr_objectNodeId r = Some ''b''
          \<and> cr_initialValue r = jint 1 \<and> cr_description r = Some ''rpm, measured'')"
proof -
  have same: "t_namespaces demo_objects = t_namespaces (db_tables export_plant)"
    "t_objects demo_objects = t_objects (db_tables export_plant)"
    by (simp_all add: export_plant_def demo_plant_def)
  from export_import_round_trip [OF export_plant_facts(1,2,6,3,4,5,7) same]
  obtain csv ls d1 where e: "export_nodes export_env export_plant = Some (csv_response ''nodes.csv'' csv, d1)"
    "csv_lines csv = csv_header # ls"
    "map (\<lambda>l. import_request export_env demo_objects (parseCsvLine l)) ls
      = map (\<lambda>r. Inr (request_of r)) (sort_key nd_name (t_nodes (db_tables export_plant)))"
    by blast
  have rows: "map request_of (sort_key nd_name (t_nodes (db_tables export_plant)))
    = map request_of (rev (t_nodes (db_tables export_plant)))" by code_simp
  have "map (\<lambda>r. Inr (request_of r)) (sort_key nd_name (t_nodes (db_tables export_plant)))
      = (map Inr (map request_of (rev (t_nodes (db_tables export_plant)))) ::
           ((string option \<times> string) + create_node_request) list)"
    by (simp flip: rows add: o_def)
  with e(3) obtain l1 l2 where "ls = [l1, l2]"
    "import_request export_env demo_objects (parseCsvLine l2)
      = Inr (request_of (hd (t_nodes (db_tables export_plant))))"
    by (auto simp: export_plant_def demo_plant_def)
  with e(1,2) show ?thesis
    by (auto simp: request_of_def export_plant_def demo_plant_def demo_variable_def)
qed

text \<open>
  A description with a line break is exported in quotes, and the import, which cuts the text into
  lines first, reads two rows.
\<close>

lemma line_break_in_field:
  "csv_lines (csv_line [''v'', ''Plant'', [], ''Int16'', [], [CHR ''a'', CHR 0x0A, CHR ''b'']])
    = [''v,Plant,,Int16,,'' @ [dquote, CHR ''a''], [CHR ''b'', dquote]]"
  by code_simp

end
