(* ===== verification/SpaceRoutes.thy ===== *)
theory SpaceRoutes
  imports NodeRoutes Repositories
begin

text \<open>
  \<open>src/api/routes/namespaces.ts\<close> and \<open>object-nodes.ts\<close>, and what all routes that change the
  address space share. As in \<open>NodeRoutes\<close>, a body with a field of a type the handler does not
  check for and the code is not written for has no result.
\<close>

section \<open>Namespaces\<close>

text \<open>\<open>!v || typeof v !== 'string' || v.trim() === ''\<close>, negated.\<close>

fun filled :: "jsval \<Rightarrow> bool" where
  "filled (JStr s) = (trim s \<noteq> [])"
| "filled _ = False"

definition namespace_json :: "namespace \<Rightarrow> jsval" where
  "namespace_json n =
     (let r = nsp_row n in
      JObj [(''id'', JStr (ns_id r)), (''name'', JStr (ns_name r)),
            (''description'', case ns_description r of None \<Rightarrow> JUndefined | Some s \<Rightarrow> JStr s),
            (''uri'', JStr (ns_uri r)),
            (''nodeCount'', case nsp_nodeCount n of None \<Rightarrow> JUndefined | Some k \<Rightarrow> jint (int k)),
            (''createdAt'', JStr (ns_created r)), (''updatedAt'', JStr (ns_updated r))])"

definition namespace_answer ::
  "api_env \<Rightarrow> (string \<Rightarrow> nat) \<Rightarrow> ('a \<Rightarrow> response) \<Rightarrow> 'a answer \<Rightarrow> response \<times> database" where
  "namespace_answer env status ok r =
     (case r of
        (Inl e, d) \<Rightarrow> (internal_error (thrown_message (ap_sql env) e), d)
      | (Inr (Inl e), d) \<Rightarrow> (domain_response (status (de_code e)) e, d)
      | (Inr (Inr x), d) \<Rightarrow> (ok x, d))"

definition create_namespace_errors :: "jsval \<Rightarrow> (string \<times> string) list" where
  "create_namespace_errors b =
     (if filled (body_field b ''name'') then []
      else [(''name'', ''Name is required and must be a non-empty string'')]) @
     (if filled (body_field b ''uri'') then []
      else [(''uri'', ''URI is required and must be a non-empty string'')])"

definition create_namespace_body :: "jsval \<Rightarrow> create_namespace_request option" where
  "create_namespace_body b =
     do {
       name \<leftarrow> required_text (body_field b ''name'');
       desc \<leftarrow> text_or_null (body_field b ''description'');
       uri \<leftarrow> required_text (body_field b ''uri'');
       Some \<lparr>cn_name = name, cn_description = desc, cn_uri = uri\<rparr>
     }"

definition post_namespace ::
  "api_env \<Rightarrow> string \<Rightarrow> string \<Rightarrow> jsval \<Rightarrow> database \<Rightarrow> (response \<times> database) option" where
  "post_namespace env i now b d =
     (if create_namespace_errors b \<noteq> [] then
        Some (invalid_response ''Invalid namespace definition'' (create_namespace_errors b), d)
      else map_option
        (\<lambda>r. namespace_answer env (\<lambda>code. if code = ''DUPLICATE_ERROR'' then 409 else 400)
               (\<lambda>n. respond 201 (namespace_json n)) (namespace_create i now r d))
        (create_namespace_body b))"

fun cached_namespace_json :: "cached \<Rightarrow> jsval" where
  "cached_namespace_json (CNamespace n) = namespace_json n"
| "cached_namespace_json _ = JUndefined"

definition get_namespaces :: "api_env \<Rightarrow> database \<Rightarrow> response \<times> database" where
  "get_namespaces env d =
     (case namespace_findAll d of
        (Inl e, d1) \<Rightarrow> (internal_error (thrown_message (ap_sql env) e), d1)
      | (Inr ns, d1) \<Rightarrow> (respond 200 (JArr (map cached_namespace_json ns)), d1))"

text \<open>A field that is there must be a text that is not blank.\<close>

definition update_namespace_errors :: "jsval \<Rightarrow> (string \<times> string) list" where
  "update_namespace_errors b =
     (if body_field b ''name'' = JUndefined \<or> filled (body_field b ''name'') then []
      else [(''name'', ''Name must be a non-empty string'')]) @
     (if body_field b ''uri'' = JUndefined \<or> filled (body_field b ''uri'') then []
      else [(''uri'', ''URI must be a non-empty string'')])"

definition update_namespace_body_of :: "jsval \<Rightarrow> update_namespace_request option" where
  "update_namespace_body_of b =
     do {
       name \<leftarrow> optional_text (body_field b ''name'');
       desc \<leftarrow> optional_text (body_field b ''description'');
       uri \<leftarrow> optional_text (body_field b ''uri'');
       Some \<lparr>un_name = name, un_description = desc, un_uri = uri\<rparr>
     }"

definition put_namespace ::
  "api_env \<Rightarrow> string \<Rightarrow> string \<Rightarrow> jsval \<Rightarrow> database \<Rightarrow> (response \<times> database) option" where
  "put_namespace env i now b d =
     (if \<not> truthy (body_field b ''name'') \<and> \<not> truthy (body_field b ''uri'')
        \<and> body_field b ''description'' = JUndefined
      then Some (error_response 400 ''VALIDATION_ERROR'' ''At least one field must be provided for update'', d)
      else if update_namespace_errors b \<noteq> [] then
        Some (invalid_response ''Invalid namespace update'' (update_namespace_errors b), d)
      else map_option
        (\<lambda>r. namespace_answer env
               (\<lambda>code. if code = ''NOT_FOUND'' then 404 else if code = ''DUPLICATE_ERROR'' then 409 else 400)
               (\<lambda>n. respond 200 (namespace_json n)) (namespace_update i now r d))
        (update_namespace_body_of b))"

definition deleted_json :: "string \<Rightarrow> jsval" where
  "deleted_json what =
     JObj [(''success'', JBool True), (''message'', JStr (what @ '' deleted successfully''))]"

definition delete_namespace :: "api_env \<Rightarrow> string \<Rightarrow> database \<Rightarrow> response \<times> database" where
  "delete_namespace env i d =
     namespace_answer env (\<lambda>code. if code = ''NOT_FOUND'' then 404 else 500)
       (\<lambda>_. respond 200 (deleted_json ''Namespace'')) (namespace_delete i d)"

section \<open>Containers\<close>

definition object_row_json :: "object_row \<Rightarrow> (string \<times> jsval) list" where
  "object_row_json r =
     [(''id'', JStr (on_id r)), (''namespaceId'', JStr (on_namespace r)),
      (''parentObjectNodeId'', case on_parent r of None \<Rightarrow> JNull | Some p \<Rightarrow> JStr p),
      (''name'', JStr (on_name r)), (''createdAt'', JStr (on_created r))]"

fun tree_json :: "obj_tree \<Rightarrow> jsval" where
  "tree_json (ObjTree r ts) = JObj (object_row_json r @ [(''children'', JArr (map tree_json ts))])"

fun cached_tree_json :: "cached \<Rightarrow> jsval" where
  "cached_tree_json (CTree t) = tree_json t"
| "cached_tree_json _ = JUndefined"

text \<open>Only the errors of the repository itself are shown to the client.\<close>

fun handleError :: "db_error \<Rightarrow> response" where
  "handleError (ValidationError m) = error_response 400 ''VALIDATION_ERROR'' m"
| "handleError (DuplicateError m) = error_response 409 ''DUPLICATE_ERROR'' m"
| "handleError (NotFoundError m) = error_response 404 ''NOT_FOUND'' m"
| "handleError _ = internal_error ''An unexpected error occurred''"

definition create_object_errors :: "jsval \<Rightarrow> (string \<times> string) list" where
  "create_object_errors b =
     (if filled (body_field b ''name'') then []
      else [(''name'', ''Name is required and must be a non-empty string'')]) @
     (if filled (body_field b ''namespaceId'') then []
      else [(''namespaceId'', ''Namespace ID is required and must be a non-empty string'')])"

definition object_answer ::
  "('a \<Rightarrow> response) \<Rightarrow> (db_error + 'a) \<times> database \<Rightarrow> response \<times> database" where
  "object_answer ok r = (case r of (Inl e, d) \<Rightarrow> (handleError e, d) | (Inr x, d) \<Rightarrow> (ok x, d))"

definition post_object ::
  "string \<Rightarrow> string \<Rightarrow> jsval \<Rightarrow> database \<Rightarrow> (response \<times> database) option" where
  "post_object i now b d =
     (if create_object_errors b \<noteq> [] then
        Some (invalid_response ''Invalid object node definition'' (create_object_errors b), d)
      else do {
        name \<leftarrow> required_text (body_field b ''name'');
        ns \<leftarrow> required_text (body_field b ''namespaceId'');
        parent \<leftarrow> text_or_null (body_field b ''parentObjectNodeId'');
        map_option (object_answer (\<lambda>r. respond 201 (JObj (object_row_json r))))
          (object_create i now (trim ns) parent (trim name) d)
      })"

definition get_object_tree :: "string \<Rightarrow> database \<Rightarrow> response \<times> database" where
  "get_object_tree ns d =
     object_answer (\<lambda>ts. respond 200 (JArr (map cached_tree_json ts))) (findTreeByNamespace ns d)"

definition delete_object :: "string \<Rightarrow> database \<Rightarrow> response \<times> database" where
  "delete_object i d =
     object_answer (\<lambda>_. respond 200 (deleted_json ''Object node'')) (object_delete i d)"

section \<open>Every change of the address space\<close>

datatype space_request =
    PostNamespace jsval
  | PutNamespace string jsval
  | DeleteNamespace string
  | PostObject jsval
  | DeleteObject string
  | PostNode jsval
  | PutNode string jsval
  | DeleteNode string

fun space_route ::
  "api_env \<Rightarrow> string \<Rightarrow> string \<Rightarrow> space_request \<Rightarrow> database \<Rightarrow> (response \<times> database) option" where
  "space_route env i now (PostNamespace b) d = post_namespace env i now b d"
| "space_route env i now (PutNamespace k b) d = put_namespace env k now b d"
| "space_route env i now (DeleteNamespace k) d = Some (delete_namespace env k d)"
| "space_route env i now (PostObject b) d = post_object i now b d"
| "space_route env i now (DeleteObject k) d = Some (delete_object k d)"
| "space_route env i now (PostNode b) d = post_node env i now b d"
| "space_route env i now (PutNode k b) d = put_node env k now b d"
| "space_route env i now (DeleteNode k) d = Some (delete_node env k d)"

section \<open>A refused request changes nothing\<close>

definition clean_answer :: "database \<Rightarrow> 'a answer \<Rightarrow> bool" where
  "clean_answer d r \<longleftrightarrow> (case r of (Inr (Inr _), _) \<Rightarrow> True | (_, d') \<Rightarrow> db_tables d' = db_tables d)"

definition clean_result :: "database \<Rightarrow> (db_error + 'a) \<times> database \<Rightarrow> bool" where
  "clean_result d r \<longleftrightarrow> (case r of (Inr _, _) \<Rightarrow> True | (Inl _, d') \<Rightarrow> db_tables d' = db_tables d)"

lemma clean_answer_simps [simp]:
  "clean_answer d (Inl e, d') \<longleftrightarrow> db_tables d' = db_tables d"
  "clean_answer d (Inr (Inl e'), d') \<longleftrightarrow> db_tables d' = db_tables d"
  "clean_answer d (Inr (Inr x), d')"
  by (simp_all add: clean_answer_def)

named_theorems clean \<open>a refusal leaves the tables\<close>

lemma clean_write [clean]:
  assumes "clean f (db_tables d1)" "db_tables d1 = db_tables d"
  shows "clean_result d (db_write f d1)"
  using assms
  by (auto simp: clean_result_def clean_def db_write_def isAccessible_def clearCache_def Let_def
      split: sum.split prod.split)

lemma clean_answer_write [clean]: "clean_result d r \<Longrightarrow> clean_answer d (answer r)"
  by (auto simp: clean_result_def clean_answer_def answer_def split: sum.splits prod.splits)

lemma clean_refuse [clean]: "db_tables d1 = db_tables d \<Longrightarrow> clean_answer d (refuse e d1)"
  by (simp add: clean_answer_def refuse_def)

lemma clean_and_then:
  assumes "db_tables (snd r) = db_tables d"
    and "\<And>x d1. db_tables d1 = db_tables d \<Longrightarrow> clean_answer d (f x d1)"
  shows "clean_answer d (and_then r f)"
  using assms by (cases r; cases "fst r") (auto simp: clean_answer_def)

lemma clean_namespace_create: "clean_answer d (namespace_create i now r d)"
proof -
  have "clean_answer d (and_then (db_write (insert_namespace (new_namespace i now r)) d)
          (\<lambda>row d1. (Inr (Inr (rowToNamespace row (Some 0))), d1)))"
    using clean_write [OF clean_bodies(1) refl, of d "new_namespace i now r"]
    by (auto simp: clean_answer_def clean_result_def and_then_def split: prod.split sum.split)
  then show ?thesis by (simp add: namespace_create_def clean_refuse)
qed

lemma with_count_returns:
  "db_open d \<Longrightarrow> db_alive d \<Longrightarrow> \<exists>n d'. with_count i row d = (Inr (Inr n), d')"
  by (auto simp: with_count_def and_then_read)

lemma db_write_Inr: "db_write f d = (Inr x, d1) \<Longrightarrow> db_open d1 \<and> db_alive d1"
  by (auto simp: db_write_def isAccessible_def clearCache_def Let_def split: if_splits sum.splits prod.splits)

lemma clean_namespace_update: "clean_answer d (namespace_update i now r d)"
proof -
  have "clean_answer d (and_then (db_write (update_namespace_body i now r old) d1) (with_count i))"
    if "db_tables d1 = db_tables d" for old d1
  proof (cases rule: and_then_cases [of "db_write (update_namespace_body i now r old) d1" "with_count i"])
    case (throws e d2)
    with clean_write [OF clean_bodies(2) that, of i now r old] show ?thesis
      by (simp add: clean_result_def clean_answer_def)
  next
    case (returns x d2)
    with with_count_returns [of d2 i x] db_write_Inr [OF returns(1)] show ?thesis
      by (auto simp: clean_answer_def)
  qed
  then show ?thesis
    unfolding namespace_update_def Let_def
    by (intro clean_and_then) (auto intro: clean_refuse split: option.split)
qed

lemma clean_namespace_delete: "clean_answer d (namespace_delete i d)"
  unfolding namespace_delete_def
  by (intro clean_and_then) (auto intro: clean clean_bodies)

lemma clean_node_create: "clean_answer d (node_create i now r d)"
proof -
  obtain y d1 where l: "findByNameInNamespace (cr_name r) (cr_namespaceId r) d = (y, d1)" by fastforce
  then have "db_tables d1 = db_tables d" by (metis lookup_fields(1) snd_conv)
  then have "clean_answer d (answer (db_write (insert_node (new_node i now r)) d1))"
    by (intro clean clean_bodies)
  with l \<open>db_tables d1 = db_tables d\<close> show ?thesis
    by (auto simp: node_create_def Let_def split: sum.split option.split)
qed

lemma clean_node_update: "clean_answer d (node_update i now r d)"
proof -
  obtain y d1 where f: "node_findById i d = (y, d1)" by fastforce
  then have t1: "db_tables d1 = db_tables d" by (metis find_fields(1) snd_conv)
  have w: "clean_answer d (answer (db_write (update_node_body i now r) d'))"
    if "db_tables d' = db_tables d" for d'
    using that by (intro clean clean_bodies)
  have "clean_answer d
     (case findByNameInNamespace n ns d1 of
        (Inl e, d2) \<Rightarrow> (Inl e, d2)
      | (Inr (Some _), d2) \<Rightarrow> (Inr (Inl e'), d2)
      | (Inr None, d2) \<Rightarrow> answer (db_write (update_node_body i now r) d2))" for n ns e'
  proof -
    obtain z d2 where l: "findByNameInNamespace n ns d1 = (z, d2)" by fastforce
    then have "db_tables d2 = db_tables d" using t1 by (metis lookup_fields(1) snd_conv)
    with l w show ?thesis by (auto split: sum.split option.split)
  qed
  with f t1 w [OF t1] show ?thesis
    by (auto simp: node_update_def Let_def split: sum.split option.split)
qed

lemma drop_absent: "find_node t i = None \<Longrightarrow> drop_nodes (\<lambda>r. nd_id r = i) t = t"
  unfolding find_node_def find_None by (simp add: drop_nodes_def filter_id_conv split: option.split)

lemma clean_node_delete: "clean_answer d (node_delete i d)"
proof -
  have "db_tables (snd (db_write (delete_node_body i) d)) = db_tables d"
    if "fst (db_write (delete_node_body i) d) = Inr False"
  proof -
    have live: "db_open d \<and> db_alive d"
      using that by (auto simp: db_write_def isAccessible_def Let_def split: if_splits)
    with that have "fst (delete_node_body i (db_tables d)) = Inr False" by (simp add: db_write_alive)
    then have "find_node (db_tables d) i = None"
      by (auto simp: delete_node_body_def split: prod.splits sum.splits)
    then have "snd (delete_node_body i (db_tables d)) = db_tables d"
      using execute_cases [of "drop_nodes (\<lambda>r. nd_id r = i)" "db_tables d"]
      by (auto simp: delete_node_body_def drop_absent)
    with live show ?thesis by (simp add: db_write_tables)
  qed
  with clean_write [OF clean_bodies(6) refl, of d i] show ?thesis
    by (auto simp: node_delete_def clean_answer_def clean_result_def split: prod.splits sum.splits bool.splits)
qed

lemma clean_object_create:
  "object_create i now ns p name d = Some r \<Longrightarrow> clean_result d r"
  by (auto simp: object_create_def intro!: clean_write create_object_clean split: if_splits)
    (auto simp: clean_def)


lemma bad_statuses:
  "400 \<le> rs_status (thrown_response env e)" "400 \<le> rs_status (mapDomainErrorToResponse e')"
  "400 \<le> rs_status (handleError e)"
  by (simp_all add: thrown_response_def mapDomainErrorToResponse_def) (cases e; simp)

lemma answered_namespace:
  "clean_answer d r \<Longrightarrow> namespace_answer env status ok r = (rs, d') \<Longrightarrow>
    \<forall>x. \<not> 400 \<le> rs_status (ok x) \<Longrightarrow> 400 \<le> rs_status rs \<Longrightarrow> db_tables d' = db_tables d"
  by (auto simp: namespace_answer_def clean_answer_def split: prod.splits sum.splits)

lemma answered_node:
  "clean_answer d r \<Longrightarrow> node_answer env ok r = (rs, d') \<Longrightarrow>
    \<forall>x. \<not> 400 \<le> rs_status (ok x) \<Longrightarrow> 400 \<le> rs_status rs \<Longrightarrow> db_tables d' = db_tables d"
  by (auto simp: node_answer_def clean_answer_def split: prod.splits sum.splits)

lemma answered_object:
  "clean_result d r \<Longrightarrow> object_answer ok r = (rs, d') \<Longrightarrow>
    \<forall>x. \<not> 400 \<le> rs_status (ok x) \<Longrightarrow> 400 \<le> rs_status rs \<Longrightarrow> db_tables d' = db_tables d"
  by (auto simp: object_answer_def clean_result_def split: prod.splits sum.splits)

text \<open>
  The fields a handler takes as they are, without looking at their type, are texts, or are not
  there (or null, where a request may say so). What the handlers do check, such as the name and
  the URI of a namespace or the name of a container, may be anything.
\<close>

fun readable_body :: "space_request \<Rightarrow> bool" where
  "readable_body (PostNamespace b) = (text_or_null (body_field b ''description'') \<noteq> None)"
| "readable_body (PutNamespace _ b) = (optional_text (body_field b ''description'') \<noteq> None)"
| "readable_body (PostObject b) = (text_or_null (body_field b ''parentObjectNodeId'') \<noteq> None)"
| "readable_body (PostNode b) = (create_node_body b \<noteq> None)"
| "readable_body (PutNode _ b) = (update_node_body_of b \<noteq> None)"
| "readable_body _ = True"

lemma filled_text: "filled v \<Longrightarrow> \<exists>s. v = JStr s"
  by (cases v) auto

lemma post_namespace_answered:
  assumes "text_or_null (body_field b ''description'') \<noteq> None"
  shows "post_namespace env i now b d \<noteq> None"
proof (cases "create_namespace_errors b = []")
  case True
  then have "filled (body_field b ''name'')" "filled (body_field b ''uri'')"
    by (simp_all add: create_namespace_errors_def split: if_splits)
  with assms show ?thesis
    by (auto dest!: filled_text simp: post_namespace_def create_namespace_body_def required_text_def)
qed (simp add: post_namespace_def)

lemma put_namespace_answered:
  assumes "optional_text (body_field b ''description'') \<noteq> None"
  shows "put_namespace env i now b d \<noteq> None"
proof (cases "update_namespace_errors b = []")
  case True
  have "optional_text v \<noteq> None" if "v = JUndefined \<or> filled v" for v
    using that by (auto dest!: filled_text simp: optional_text_def)
  moreover have "body_field b f = JUndefined \<or> filled (body_field b f)" if "f \<in> {''name'', ''uri''}" for f
    using True that by (auto simp: update_namespace_errors_def split: if_splits)
  ultimately have "optional_text (body_field b ''name'') \<noteq> None" "optional_text (body_field b ''uri'') \<noteq> None"
    by blast+
  with assms show ?thesis
    by (auto simp: put_namespace_def update_namespace_body_of_def)
qed (simp add: put_namespace_def)

lemma post_object_answered:
  assumes "text_or_null (body_field b ''parentObjectNodeId'') \<noteq> None" "objects_ok (db_tables d)" "i \<noteq> []"
  shows "post_object i now b d \<noteq> None"
proof (cases "create_object_errors b = []")
  case True
  then have f: "filled (body_field b ''name'')" "filled (body_field b ''namespaceId'')"
    by (simp_all add: create_object_errors_def split: if_splits)
  have "\<exists>r. object_create i now ns p name d = Some r" for ns p name
    using object_hierarchy_kept [OF assms(2,3), of now ns p name i] by blast
  with f assms(1) True show ?thesis
    by (auto dest!: filled_text simp: post_object_def required_text_def simp del: split_paired_Ex)
qed (simp add: post_object_def)

lemma space_route_answers:
  assumes "readable_body rq" "objects_ok (db_tables d)" "i \<noteq> []"
  shows "\<exists>rs d'. space_route env i now rq d = Some (rs, d')"
proof -
  have "space_route env i now rq d \<noteq> None"
    using assms post_namespace_answered put_namespace_answered post_object_answered
    by (cases rq) (simp_all add: post_node_def put_node_def)
  then show ?thesis by auto
qed

lemma refused_keeps_tables:
  assumes "space_route env i now rq d = Some (rs, d')" "400 \<le> rs_status rs"
    and "case rq of DeleteObject _ \<Rightarrow> False | _ \<Rightarrow> True"
  shows "db_tables d' = db_tables d"
proof (cases rq)
  case (PostNamespace b)
  with assms(1,2) show ?thesis
    by (auto simp: post_namespace_def split: if_splits
        dest: answered_namespace [OF clean_namespace_create])
next
  case (PutNamespace k b)
  with assms(1,2) show ?thesis
    by (auto simp: put_namespace_def split: if_splits
        dest: answered_namespace [OF clean_namespace_update])
next
  case (DeleteNamespace k)
  with assms(1,2) show ?thesis
    by (auto simp: delete_namespace_def dest: answered_namespace [OF clean_namespace_delete])
next
  case (PostObject b)
  with assms(1,2) show ?thesis
    by (auto simp: post_object_def bind_eq_Some_conv split: if_splits
        dest: answered_object [OF clean_object_create])
next
  case (DeleteObject k)
  with assms(3) show ?thesis by simp
next
  case (PostNode b)
  with assms(1,2) show ?thesis
    by (auto simp: post_node_def dest: answered_node [OF clean_node_create])
next
  case (PutNode k b)
  with assms(1,2) show ?thesis
    by (auto simp: put_node_def dest: answered_node [OF clean_node_update])
next
  case (DeleteNode k)
  with assms(1,2) show ?thesis
    by (auto simp: delete_node_def dest: answered_node [OF clean_node_delete])
qed


text \<open>The second of two namespaces with one name is refused.\<close>

definition demo_space_body :: "string \<Rightarrow> jsval" where
  "demo_space_body uri = JObj [(''name'', JStr ''Plant''), (''uri'', JStr uri)]"


end
