(* ===== verification/ConnectorRoutes.thy ===== *)
theory ConnectorRoutes
  imports SpaceRoutes Connectors
begin

text \<open>
  \<open>src/api/routes/connectors.ts\<close>: the handlers for connections and mappings. They change the
  database first and then tell the connector of the connection's type, whose errors they
  swallow. The registry and the database are there, as \<open>src/api/server.ts\<close> gives them; the
  metadata of a protocol is shown by a parameter, for it has fields only the form uses.
\<close>

section \<open>Environment\<close>

record connector_env = api_env +
  ap_pattern :: pattern_test
  ap_message :: number_text
  ap_time :: text_of_time
  ap_metadata :: "connector_metadata \<Rightarrow> jsval"

type_synonym plant = "database \<times> any_connector registry"

text \<open>A declared whole number or truth value, or nothing; \<open>None\<close> is a value of another type.\<close>

fun int_or_undefined :: "jsval \<Rightarrow> int option option" where
  "int_or_undefined JUndefined = Some None"
| "int_or_undefined (JNum (Fin q)) = (if q = of_int \<lfloor>q\<rfloor> then Some (Some \<lfloor>q\<rfloor>) else None)"
| "int_or_undefined _ = None"

text \<open>A switch is stored as 1 or 0, whatever it is given as.\<close>

definition switch_or_undefined :: "jsval \<Rightarrow> bool option" where
  "switch_or_undefined v = (if v = JUndefined then None else Some (truthy v))"

fun object_or_undefined :: "jsval \<Rightarrow> (string \<times> jsval) list option option" where
  "object_or_undefined JUndefined = Some None"
| "object_or_undefined (JObj ps) = Some (Some ps)"
| "object_or_undefined _ = None"

definition connection_json :: "connection_config \<Rightarrow> jsval" where
  "connection_json c =
     JObj [(''id'', JStr (cfg_id c)), (''type'', JStr (cfg_type c)), (''name'', JStr (cfg_name c)),
           (''params'', cfg_params c), (''pollingIntervalMs'', jint (cfg_pollingIntervalMs c)),
           (''reconnectIntervalMs'', jint (cfg_reconnectIntervalMs c)),
           (''enabled'', JBool (cfg_enabled c)), (''createdAt'', JStr (cfg_createdAt c))]"

definition mapping_row_json :: "mapping \<Rightarrow> jsval" where
  "mapping_row_json m =
     JObj [(''id'', JStr (map_id m)), (''connectionId'', JStr (map_connectionId m)),
           (''nodeId'', case map_nodeId m of None \<Rightarrow> JNull | Some n \<Rightarrow> JStr n),
           (''deviceAddress'', JStr (map_deviceAddress m)),
           (''description'', opt_str (map_description m)), (''createdAt'', JStr (map_createdAt m))]"

fun cached_json :: "cached \<Rightarrow> jsval" where
  "cached_json (CConnection c) = connection_json c"
| "cached_json (CMapping m) = mapping_row_json m"
| "cached_json _ = JUndefined"

definition listed ::
  "'e api_env_scheme \<Rightarrow> (db_error + cached list) \<times> database \<Rightarrow> response \<times> database" where
  "listed env r =
     (case r of
        (Inl e, d) \<Rightarrow> (thrown_response (api_env.truncate env) e, d)
      | (Inr xs, d) \<Rightarrow> (respond 200 (JArr (map cached_json xs)), d))"

text \<open>A call to the connector of a type, if it is registered; what it throws is swallowed.\<close>

definition notify :: "string \<Rightarrow> api_call \<Rightarrow> any_connector registry \<Rightarrow> any_connector registry" where
  "notify ty call r =
     (case getConnector ty r of
        None \<Rightarrow> r
      | Some c \<Rightarrow> r\<lparr>reg_connectors := jset (reg_connectors r) ty (snd (any_api call c))\<rparr>)"

definition detail_of :: "field_error \<Rightarrow> string \<times> string" where
  "detail_of e = (fe_field e, fe_message e)"

definition params_errors ::
  "'e connector_env_scheme \<Rightarrow> string \<Rightarrow> (string \<times> jsval) list \<Rightarrow> any_connector registry \<Rightarrow> (string \<times> string) list" where
  "params_errors env ty ps r =
     (case getParamsSchema ty r of
        None \<Rightarrow> []
      | Some schema \<Rightarrow>
          (let v = validateParams (ap_pattern env) (ap_message env) ps schema
           in if vr_valid v then [] else map detail_of (vr_errors v)))"

text \<open>
  The end of a handler: a throw, a refusal with its status and with or without its details, or
  the answer with what is done to the registry.
\<close>

definition finish ::
  "'e api_env_scheme \<Rightarrow> (string \<Rightarrow> nat) \<Rightarrow> bool \<Rightarrow> any_connector registry
     \<Rightarrow> ('a \<Rightarrow> database \<Rightarrow> response \<times> plant) \<Rightarrow> 'a answer \<Rightarrow> response \<times> plant" where
  "finish env status details r ok x =
     (case x of
        (Inl e, d) \<Rightarrow> (thrown_response (api_env.truncate env) e, d, r)
      | (Inr (Inl e), d) \<Rightarrow>
          (if details then domain_response (status (de_code e)) e
           else error_response (status (de_code e)) (de_code e) (de_message e), d, r)
      | (Inr (Inr a), d) \<Rightarrow> ok a d)"

section \<open>Connections\<close>

definition get_protocols :: "'e connector_env_scheme \<Rightarrow> any_connector registry \<Rightarrow> response" where
  "get_protocols env r = respond 200 (JArr (map (ap_metadata env) (getProtocolsMetadata r)))"

definition create_connection_errors :: "jsval \<Rightarrow> (string \<times> string) list" where
  "create_connection_errors b =
     (if filled (body_field b ''type'') then [] else [(''type'', ''Type is required'')]) @
     (if filled (body_field b ''name'') then [] else [(''name'', ''Name is required'')]) @
     (case body_field b ''params'' of
        JObj _ \<Rightarrow> []
      | _ \<Rightarrow> [(''params'', ''Params is required and must be an object'')])"

text \<open>A \<open>null\<close> interval is replaced by the usual one, as a missing one is.\<close>

definition create_connection_body :: "jsval \<Rightarrow> create_connection_request option" where
  "create_connection_body b =
     do {
       ty \<leftarrow> required_text (body_field b ''type'');
       name \<leftarrow> required_text (body_field b ''name'');
       ps \<leftarrow> object_or_undefined (body_field b ''params'');
       polling \<leftarrow> int_or_undefined (nullish_or (body_field b ''pollingIntervalMs'') JUndefined);
       reconnect \<leftarrow> int_or_undefined (nullish_or (body_field b ''reconnectIntervalMs'') JUndefined);
       Some \<lparr>cc_type = ty, cc_name = name, cc_params = (case ps of None \<Rightarrow> [] | Some x \<Rightarrow> x),
             cc_polling = polling, cc_reconnect = reconnect, cc_enabled = switch_or_undefined (body_field b ''enabled'')\<rparr>
     }"

definition post_connection ::
  "'e connector_env_scheme \<Rightarrow> string \<Rightarrow> string \<Rightarrow> jsval \<Rightarrow> plant \<Rightarrow> (response \<times> plant) option" where
  "post_connection env i now b p =
     (let (d, r) = p in
      if create_connection_errors b \<noteq> [] then
        Some (invalid_response ''Invalid request body'' (create_connection_errors b), p)
      else (case create_connection_body b of
              None \<Rightarrow> None
            | Some rq \<Rightarrow>
                (let errors = params_errors env (cc_type rq) (cc_params rq) r in
                 if errors \<noteq> [] then Some (invalid_response ''Invalid connection parameters'' errors, p)
                 else Some (finish env (\<lambda>code. if code = ''DUPLICATE_ERROR'' then 409 else 400) True r
                   (\<lambda>c d1. (respond 201 (connection_json c), d1, notify (cfg_type c) (AddConnection c) r))
                   (createConnection i now rq d)))))"

definition get_connections ::
  "'e api_env_scheme \<Rightarrow> request \<Rightarrow> database \<Rightarrow> response \<times> database" where
  "get_connections env rq d = listed env (findAllConnections (query_text rq ''type'') d)"

text \<open>Any value but \<open>undefined\<close>, \<open>null\<close> too.\<close>

definition given :: "jsval \<Rightarrow> jsval option" where
  "given v = (if v = JUndefined then None else Some v)"

definition update_connection_request_of :: "jsval \<Rightarrow> update_connection_request option" where
  "update_connection_request_of b =
     do {
       name \<leftarrow> optional_text (body_field b ''name'');
       polling \<leftarrow> int_or_undefined (body_field b ''pollingIntervalMs'');
       reconnect \<leftarrow> int_or_undefined (body_field b ''reconnectIntervalMs'');
       Some \<lparr>uc_name = name, uc_params = given (body_field b ''params''), uc_polling = polling, uc_reconnect = reconnect,
             uc_enabled = switch_or_undefined (body_field b ''enabled'')\<rparr>
     }"

text \<open>The check of new parameters: \<open>Inl\<close> what the look-up throws, else the errors.\<close>

definition new_params_errors ::
  "'e connector_env_scheme \<Rightarrow> string \<Rightarrow> jsval \<Rightarrow> plant \<Rightarrow> (db_error + (string \<times> string) list) \<times> database" where
  "new_params_errors env i ps p =
     (let (d, r) = p in
      if \<not> truthy ps then (Inr [], d)
      else (case findConnectionById i d of
              (Inl e, d1) \<Rightarrow> (Inl e, d1)
            | (Inr None, d1) \<Rightarrow> (Inr [], d1)
            | (Inr (Some c), d1) \<Rightarrow> (Inr (params_errors env (cfg_type c) (members ps) r), d1)))"

definition put_connection ::
  "'e connector_env_scheme \<Rightarrow> string \<Rightarrow> jsval \<Rightarrow> plant \<Rightarrow> (response \<times> plant) option" where
  "put_connection env i b p =
     (let (d, r) = p in
      if \<not> truthy (body_field b ''name'') \<and> \<not> truthy (body_field b ''params'')
         \<and> body_field b ''pollingIntervalMs'' = JUndefined
         \<and> body_field b ''reconnectIntervalMs'' = JUndefined \<and> body_field b ''enabled'' = JUndefined
      then Some (error_response 400 ''VALIDATION_ERROR'' ''At least one field must be provided for update'', p)
      else (case new_params_errors env i (body_field b ''params'') p of
              (Inl e, d1) \<Rightarrow> Some (thrown_response (api_env.truncate env) e, d1, r)
            | (Inr errors, d1) \<Rightarrow>
                if errors \<noteq> [] then Some (invalid_response ''Invalid connection parameters'' errors, d1, r)
                else map_option
                  (\<lambda>rq. finish env (\<lambda>code. if code = ''NOT_FOUND'' then 404 else 400) False r
                     (\<lambda>c d2. (respond 200 (connection_json c), d2, notify (cfg_type c) (UpdateConnection c) r))
                     (repo_updateConnection i rq d1))
                  (update_connection_request_of b)))"

text \<open>The connection is looked up before it is deleted, for its type.\<close>

definition delete_connection ::
  "'e connector_env_scheme \<Rightarrow> string \<Rightarrow> plant \<Rightarrow> response \<times> plant" where
  "delete_connection env i p =
     (let (d, r) = p in
      case findConnectionById i d of
        (Inl e, d1) \<Rightarrow> (thrown_response (api_env.truncate env) e, d1, r)
      | (Inr found, d1) \<Rightarrow>
          (case deleteConnection i d1 of
             (Inl e, d2) \<Rightarrow> (thrown_response (api_env.truncate env) e, d2, r)
           | (Inr (Inl e), d2) \<Rightarrow> (error_response 404 ''NOT_FOUND'' (de_message e), d2, r)
           | (Inr (Inr _), d2) \<Rightarrow>
               (respond_status 204, d2,
                case found of None \<Rightarrow> r | Some c \<Rightarrow> notify (cfg_type c) (RemoveConnection i) r)))"

section \<open>Mappings\<close>

definition create_mapping_errors :: "jsval \<Rightarrow> (string \<times> string) list" where
  "create_mapping_errors b =
     (if filled (body_field b ''connectionId'') then []
      else [(''connectionId'', ''Connection ID is required'')]) @
     (if nullish (body_field b ''nodeId'') \<or> filled (body_field b ''nodeId'') then []
      else [(''nodeId'', ''Node ID must be a non-empty string when provided'')]) @
     (if filled (body_field b ''deviceAddress'') then []
      else [(''deviceAddress'', ''Device address is required'')])"

definition create_mapping_body :: "jsval \<Rightarrow> create_mapping_request option" where
  "create_mapping_body b =
     do {
       c \<leftarrow> required_text (body_field b ''connectionId'');
       n \<leftarrow> text_or_null (body_field b ''nodeId'');
       a \<leftarrow> required_text (body_field b ''deviceAddress'');
       desc \<leftarrow> text_or_null (body_field b ''description'');
       Some \<lparr>cm_connectionId = c, cm_nodeId = n, cm_deviceAddress = a, cm_description = desc\<rparr>
     }"

text \<open>The connection of a mapping is looked up for its type; a throw is swallowed too.\<close>

definition notify_mapping :: "string \<Rightarrow> api_call \<Rightarrow> plant \<Rightarrow> plant" where
  "notify_mapping connection call p =
     (let (d, r) = p in
      case findConnectionById connection d of
        (Inr (Some c), d1) \<Rightarrow> (d1, notify (cfg_type c) call r)
      | (_, d1) \<Rightarrow> (d1, r))"

definition mapping_status :: "string \<Rightarrow> nat" where
  "mapping_status code =
     (if code = ''NOT_FOUND'' then 404 else if code = ''DUPLICATE_ERROR'' then 409 else 400)"

definition post_mapping ::
  "'e connector_env_scheme \<Rightarrow> string \<Rightarrow> string \<Rightarrow> jsval \<Rightarrow> plant \<Rightarrow> (response \<times> plant) option" where
  "post_mapping env i now b p =
     (let (d, r) = p in
      if create_mapping_errors b \<noteq> [] then
        Some (invalid_response ''Invalid request body'' (create_mapping_errors b), p)
      else map_option
        (\<lambda>rq. finish env mapping_status True r
           (\<lambda>m d1. (respond 201 (mapping_row_json m),
                      notify_mapping (map_connectionId m) (AddMapping m) (d1, r)))
           (createMapping i now rq d))
        (create_mapping_body b))"

definition get_mappings ::
  "'e api_env_scheme \<Rightarrow> request \<Rightarrow> database \<Rightarrow> response \<times> database" where
  "get_mappings env rq d = listed env (findAllMappings (query_text rq ''connectionId'') d)"

definition update_mapping_request_of :: "jsval \<Rightarrow> update_mapping_request option" where
  "update_mapping_request_of b =
     do {
       a \<leftarrow> optional_text (body_field b ''deviceAddress'');
       n \<leftarrow> nullable_text (body_field b ''nodeId'');
       desc \<leftarrow> optional_text (body_field b ''description'');
       Some \<lparr>um_deviceAddress = a, um_nodeId = n, um_description = desc\<rparr>
     }"

text \<open>No connector is told.\<close>

definition put_mapping ::
  "'e connector_env_scheme \<Rightarrow> string \<Rightarrow> jsval \<Rightarrow> plant \<Rightarrow> (response \<times> plant) option" where
  "put_mapping env i b p =
     (let (d, r) = p in
      if \<not> truthy (body_field b ''deviceAddress'') \<and> \<not> truthy (body_field b ''nodeId'')
         \<and> body_field b ''description'' = JUndefined
      then Some (error_response 400 ''VALIDATION_ERROR''
        ''At least one field (deviceAddress, nodeId, or description) must be provided'', p)
      else map_option
        (\<lambda>rq. finish env mapping_status True r
           (\<lambda>m d1. (respond 200 (mapping_row_json m), d1, r)) (updateMapping i rq d))
        (update_mapping_request_of b))"

definition delete_mapping ::
  "'e connector_env_scheme \<Rightarrow> string \<Rightarrow> plant \<Rightarrow> response \<times> plant" where
  "delete_mapping env i p =
     (let (d, r) = p in
      case findMappingById i d of
        (Inl e, d1) \<Rightarrow> (thrown_response (api_env.truncate env) e, d1, r)
      | (Inr found, d1) \<Rightarrow>
          (case deleteMapping i d1 of
             (Inl e, d2) \<Rightarrow> (thrown_response (api_env.truncate env) e, d2, r)
           | (Inr (Inl e), d2) \<Rightarrow> (error_response 404 ''NOT_FOUND'' (de_message e), d2, r)
           | (Inr (Inr _), d2) \<Rightarrow>
               (respond_status 204,
                case found of
                  None \<Rightarrow> (d2, r)
                | Some m \<Rightarrow> notify_mapping (map_connectionId m) (RemoveMapping i) (d2, r))))"

section \<open>Many mappings\<close>

record bulk_entry =
  be_index :: nat
  be_success :: bool
  be_data :: "mapping option"
  be_error :: "string option"

definition bulk_failure :: "nat \<Rightarrow> string \<Rightarrow> bulk_entry" where
  "bulk_failure n e = \<lparr>be_index = n, be_success = False, be_data = None, be_error = Some e\<rparr>"

text \<open>
  The items in order; \<open>fresh\<close> gives each of them an id and a time. A throw ends the request, and
  what has been stored stays. An item with a field of another type, or one that is \<open>null\<close>, is
  outside the model.
\<close>

fun bulk_items ::
  "'e connector_env_scheme \<Rightarrow> (nat \<Rightarrow> string \<times> string) \<Rightarrow> nat \<Rightarrow> jsval list \<Rightarrow> plant
     \<Rightarrow> ((db_error + bulk_entry list) \<times> plant) option" where
  "bulk_items env fresh n [] p = Some (Inr [], p)"
| "bulk_items env fresh n (b # bs) (d, r) =
     (if b = JNull then None
      else if \<not> truthy (body_field b ''connectionId'') \<or> \<not> truthy (body_field b ''deviceAddress'') then
        map_option
          (\<lambda>(es, p1). (map_sum id (Cons (bulk_failure n ''Missing required fields (connectionId, deviceAddress)'')) es, p1))
          (bulk_items env fresh (Suc n) bs (d, r))
      else
        (case create_mapping_body b of
           None \<Rightarrow> None
         | Some rq \<Rightarrow>
             (case createMapping (fst (fresh n)) (snd (fresh n)) rq d of
                (Inl e, d1) \<Rightarrow> Some (Inl e, d1, r)
              | (Inr (Inl e), d1) \<Rightarrow>
                  map_option (\<lambda>(es, p1). (map_sum id (Cons (bulk_failure n (de_message e))) es, p1))
                    (bulk_items env fresh (Suc n) bs (d1, r))
              | (Inr (Inr m), d1) \<Rightarrow>
                  map_option
                    (\<lambda>(es, p1). (map_sum id (Cons \<lparr>be_index = n, be_success = True, be_data = Some m,
                                                    be_error = None\<rparr>) es, p1))
                    (bulk_items env fresh (Suc n) bs
                       (notify_mapping (map_connectionId m) (AddMapping m) (d1, r))))))"

definition bulk_entry_json :: "bulk_entry \<Rightarrow> jsval" where
  "bulk_entry_json e =
     JObj [(''index'', jint (int (be_index e))), (''success'', JBool (be_success e)),
           (''data'', case be_data e of None \<Rightarrow> JUndefined | Some m \<Rightarrow> mapping_row_json m),
           (''error'', opt_str (be_error e))]"

definition bulk_mappings ::
  "'e connector_env_scheme \<Rightarrow> (nat \<Rightarrow> string \<times> string) \<Rightarrow> jsval \<Rightarrow> plant \<Rightarrow> (response \<times> plant) option" where
  "bulk_mappings env fresh b p =
     (case b of
        JArr (x # xs) \<Rightarrow>
          map_option
            (\<lambda>(es, p1).
               (case es of
                  Inl e \<Rightarrow> thrown_response (api_env.truncate env) e
                | Inr rs \<Rightarrow> respond (if list_all be_success rs then 201 else 207)
                             (JArr (map bulk_entry_json rs)), p1))
            (bulk_items env fresh 0 (x # xs) p)
      | _ \<Rightarrow> Some (error_response 400 ''VALIDATION_ERROR'' ''Request body must be a non-empty array of mappings'', p))"

section \<open>Export and import of mappings\<close>

definition mappings_header :: string where
  "mappings_header = ''connectionName,type,deviceAddress,nodeName,namespace,description''"

fun cached_mapping :: "cached \<Rightarrow> mapping list" where
  "cached_mapping (CMapping m) = [m]"
| "cached_mapping _ = []"

fun cached_connection :: "cached \<Rightarrow> connection_config list" where
  "cached_connection (CConnection c) = [c]"
| "cached_connection _ = []"

text \<open>The look-up of a \<open>Map\<close> made of a list: the last entry of a key counts.\<close>

definition last_with :: "('a \<Rightarrow> bool) \<Rightarrow> 'a list \<Rightarrow> 'a option" where
  "last_with p xs = find p (rev xs)"

definition mapping_fields :: "tables \<Rightarrow> connection_config list \<Rightarrow> mapping \<Rightarrow> string list" where
  "mapping_fields t cs m =
     (let c = last_with (\<lambda>c. cfg_id c = map_connectionId m) cs;
          n = (if truthy_str (map_nodeId m)
               then last_with (\<lambda>r. nd_id r = the (map_nodeId m)) (t_nodes t) else None)
      in [case c of None \<Rightarrow> [] | Some x \<Rightarrow> cfg_name x, case c of None \<Rightarrow> [] | Some x \<Rightarrow> cfg_type x,
          map_deviceAddress m, case n of None \<Rightarrow> [] | Some r \<Rightarrow> nd_name r,
          case n of None \<Rightarrow> []
          | Some r \<Rightarrow> (case namespace_name t (nd_namespace r) of None \<Rightarrow> [] | Some s \<Rightarrow> s),
          case map_description m of None \<Rightarrow> [] | Some s \<Rightarrow> s])"

definition export_mappings ::
  "'e connector_env_scheme \<Rightarrow> database \<Rightarrow> response \<times> database" where
  "export_mappings env d =
     (let failed = (\<lambda>e. internal_error (thrown_message (ap_sql env) e)) in
      case getConnection d of
        Inl e \<Rightarrow> (failed e, d)
      | Inr _ \<Rightarrow>
          (case findAllMappings None d of
             (Inl e, d1) \<Rightarrow> (failed e, d1)
           | (Inr ms, d1) \<Rightarrow>
               (case findAllConnections None d1 of
                  (Inl e, d2) \<Rightarrow> (failed e, d2)
                | (Inr cs, d2) \<Rightarrow>
                    if \<not> db_alive d2 then (internal_error (ap_gone env), d2)
                    else (csv_response ''connectors-mappings.csv''
                            (join [CHR 0x0A] (mappings_header # map (\<lambda>m. csv_line
                               (mapping_fields (db_tables d2) (concat (map cached_connection cs)) m))
                               (concat (map cached_mapping ms)))), d2))))"

text \<open>The type column is optional; it is \<open>None\<close> if the header is not one of the two.\<close>

definition address_column :: "string \<Rightarrow> nat option" where
  "address_column line =
     (let h = map letters_only (parseCsvLine line) in
      if length h < 3 \<or> h ! 0 \<noteq> ''connectionname'' then None
      else if h ! 1 = ''type'' then Some 2
      else if h ! 1 = ''deviceaddress'' then Some 1
      else None)"

record row_result =
  rr_row :: nat
  rr_success :: bool
  rr_address :: "string option"
  rr_error :: "string option"

definition field_at :: "string list \<Rightarrow> nat \<Rightarrow> string" where
  "field_at fs k = (if k < length fs then fs ! k else [])"

text \<open>The variables a row may mean; a namespace that is not known does not narrow them.\<close>

definition matched_nodes :: "tables \<Rightarrow> string \<Rightarrow> string \<Rightarrow> node_row list" where
  "matched_nodes t name ns =
     (let named = filter (\<lambda>r. nd_name r = trim name) (t_nodes t) in
      if trim ns = [] then named
      else (case namespace_id_of t (trim ns) of
              None \<Rightarrow> named
            | Some i \<Rightarrow> if i = [] then named else filter (\<lambda>r. nd_namespace r = i) named))"

definition row_request ::
  "tables \<Rightarrow> connection_config list \<Rightarrow> nat \<Rightarrow> string list
     \<Rightarrow> (string option \<times> string) + create_mapping_request" where
  "row_request t cs k fs =
     (let name = field_at fs 0; address = field_at fs k; node = field_at fs (k + 1);
          ns = field_at fs (k + 2); desc = trim (field_at fs (k + 3))
      in if length fs < k + 2 then Inl (None, ''Insufficient columns'')
         else (case last_with (\<lambda>c. cfg_name c = trim name) cs of
                 None \<Rightarrow> Inl (Some address, ''Connection '' @ dquoted name @ '' not found'')
               | Some c \<Rightarrow>
                   if cfg_id c = [] then Inl (Some address, ''Connection '' @ dquoted name @ '' not found'')
                   else if trim address = [] then Inl (None, ''Device address is required'')
                   else if trim node = [] then Inl (Some address, ''Node name is required'')
                   else (case matched_nodes t node ns of
                           [] \<Rightarrow> Inl (Some address, ''Node '' @ dquoted node @ '' not found''
                                  @ (if ns = [] then [] else '' in namespace '' @ dquoted ns))
                         | [n] \<Rightarrow> Inr \<lparr>cm_connectionId = cfg_id c, cm_nodeId = Some (nd_id n),
                                      cm_deviceAddress = trim address,
                                      cm_description = (if desc = [] then None else Some desc)\<rparr>
                         | _ \<Rightarrow> Inl (Some address, ''Multiple nodes named '' @ dquoted node
                                  @ '' found - specify the namespace column to disambiguate''))))"

fun mapping_rows ::
  "(nat \<Rightarrow> string \<times> string) \<Rightarrow> tables \<Rightarrow> connection_config list \<Rightarrow> nat \<Rightarrow> nat \<Rightarrow> string list \<Rightarrow> plant
     \<Rightarrow> (db_error + row_result list) \<times> plant" where
  "mapping_rows fresh t cs k n [] p = (Inr [], p)"
| "mapping_rows fresh t cs k n (l # ls) (d, r) =
     (let rest = (\<lambda>res p. let (rs, p1) = mapping_rows fresh t cs k (Suc n) ls p
                         in (map_sum id (Cons res) rs, p1));
          failed = (\<lambda>a e. \<lparr>rr_row = n, rr_success = False, rr_address = a, rr_error = Some e\<rparr>)
      in case row_request t cs k (parseCsvLine l) of
           Inl (a, e) \<Rightarrow> rest (failed a e) (d, r)
         | Inr rq \<Rightarrow>
             (case createMapping (fst (fresh n)) (snd (fresh n)) rq d of
                (Inl e, d1) \<Rightarrow> (Inl e, d1, r)
              | (Inr (Inl e), d1) \<Rightarrow> rest (failed (Some (cm_deviceAddress rq)) (de_message e)) (d1, r)
              | (Inr (Inr m), d1) \<Rightarrow>
                  rest \<lparr>rr_row = n, rr_success = True, rr_address = Some (cm_deviceAddress rq),
                         rr_error = None\<rparr>
                    (notify_mapping (map_connectionId m) (AddMapping m) (d1, r))))"

definition row_result_json :: "row_result \<Rightarrow> jsval" where
  "row_result_json x =
     JObj [(''row'', jint (int (rr_row x))), (''success'', JBool (rr_success x)),
           (''deviceAddress'', opt_str (rr_address x)), (''error'', opt_str (rr_error x))]"

definition rows_summary :: "row_result list \<Rightarrow> response" where
  "rows_summary rs =
     (let failed = length (filter (\<lambda>x. \<not> rr_success x) rs) in
      respond (if failed = 0 then 201 else 207)
        (JObj [(''summary'', JObj [(''total'', jint (int (length rs))),
                 (''succeeded'', jint (int (length (filter rr_success rs)))),
                 (''failed'', jint (int failed))]),
               (''results'', JArr (map row_result_json rs))]))"

definition import_mappings ::
  "'e connector_env_scheme \<Rightarrow> (nat \<Rightarrow> string \<times> string) \<Rightarrow> jsval \<Rightarrow> plant \<Rightarrow> response \<times> plant" where
  "import_mappings env fresh b p =
     (let (d, r) = p;
          invalid = (\<lambda>m. error_response 400 ''VALIDATION_ERROR'' m);
          failed = (\<lambda>e. internal_error (thrown_message (ap_sql env) e));
          no_csv = ''Request body must include a '' @ dquoted ''csv'' @ '' field with the CSV content as a string''
      in case body_field b ''csv'' of
           JStr csv \<Rightarrow>
             if csv = [] then (invalid no_csv, p)
             else (case getConnection d of
                     Inl e \<Rightarrow> (failed e, p)
                   | Inr _ \<Rightarrow>
                       (case findAllConnections None d of
                          (Inl e, d1) \<Rightarrow> (failed e, d1, r)
                        | (Inr cs, d1) \<Rightarrow>
                            if \<not> db_alive d1 then (internal_error (ap_gone env), d1, r)
                            else (case csv_lines csv of
                                    h # l # ls \<Rightarrow>
                                      (case address_column h of
                                         None \<Rightarrow> (invalid ''CSV header must have columns: connectionName,type,deviceAddress,nodeName,namespace,description'', d1, r)
                                       | Some k \<Rightarrow>
                                           (case mapping_rows fresh (db_tables d1)
                                                   (concat (map cached_connection cs)) k 2 (l # ls) (d1, r) of
                                              (Inl e, p1) \<Rightarrow> (failed e, p1)
                                            | (Inr rs, p1) \<Rightarrow> (rows_summary rs, p1)))
                                  | _ \<Rightarrow> (invalid ''CSV must contain a header row and at least one data row'', d1, r))))
         | _ \<Rightarrow> (invalid no_csv, p))"

section \<open>Status and values\<close>

definition get_status :: "'e connector_env_scheme \<Rightarrow> any_connector registry \<Rightarrow> response" where
  "get_status env r = respond 200 (status_list_json (ap_time env) (getAggregatedStatus any_ops r))"

definition get_values :: "'e connector_env_scheme \<Rightarrow> any_connector registry \<Rightarrow> response" where
  "get_values env r =
     respond 200 (JArr (map (current_value_json (ap_time env)) (getAggregatedValues any_ops r)))"

end
