(* ===== verification/ConnectorSync.thy ===== *)
theory ConnectorSync
  imports ConnectorRoutes Lifecycle
begin

text \<open>
  The connectors and the database agree on the connections there are: what a connector manages is
  what the rows of its type say, and the handlers of \<open>ConnectorRoutes\<close> keep it so.
\<close>

section \<open>The connections a connector manages\<close>

definition held :: "'p connector \<Rightarrow> string \<Rightarrow> connection_config option" where
  "held s i = map_option (\<lambda>a. m_config (heap s a)) (jget (connections s) i)"

lemma held_same: "connections s' = connections s \<Longrightarrow>
    (\<And>a. m_config (heap s' a) = m_config (heap s a)) \<Longrightarrow> held s' = held s"
  by (simp add: held_def [abs_def])

lemma held_same_life: "same_life s s' \<Longrightarrow> held s' = held s"
  by (rule held_same) (simp_all add: same_life_def)

context calm_protocol
begin

lemma held_initiate: "held (vt_initiate vt a s) = held s"
proof (rule held_same)
  show "m_config (heap (vt_initiate vt a s) b) = m_config (heap s b)" for b
    by (cases "b = a") (simp_all add: initiate_frame)
qed (simp add: initiate_frame)

lemma held_cleanup: "held (disconnectAndCleanup vt a s) = held s"
  by (rule held_same) simp_all

lemma held_add:
  assumes "linv s" "held s (cfg_id cfg) = None" "\<not> isl (vt_extractParams vt cfg)"
  shows "held (snd (addConnection vt cfg s)) = (held s)(cfg_id cfg \<mapsto> cfg)"
proof -
  from assms(3) obtain p where p: "vt_extractParams vt cfg = Inr p" by (cases "vt_extractParams vt cfg") auto
  let ?s1 = "s\<lparr>heap := (heap s)(next_addr s := new_managed cfg p), next_addr := Suc (next_addr s),
    connections := jset (connections s) (cfg_id cfg) (next_addr s)\<rparr>"
  have "held ?s1 i = ((held s)(cfg_id cfg \<mapsto> cfg)) i" for i
    using linv_lookup [OF assms(1), of i]
    by (cases "jget (connections s) i") (auto simp: held_def new_managed_def)
  then have "held ?s1 = (held s)(cfg_id cfg \<mapsto> cfg)" by (rule ext)
  moreover have "snd (addConnection vt cfg s) = ?s1 \<or>
      (\<exists>a. snd (addConnection vt cfg s) = vt_initiate vt a ?s1)"
    using assms(2) p by (auto simp: addConnection_def held_def Let_def)
  ultimately show ?thesis using held_initiate by auto
qed

lemma held_remove:
  "held (snd (removeConnection vt i s)) = (held s)(i := None)"
proof (cases "jget (connections s) i")
  case None
  then show ?thesis by (auto simp: removeConnection_def held_def fun_eq_iff)
next
  case (Some a)
  have "held (s1\<lparr>connections := jdel (connections s1) i\<rparr>) = (held s1)(i := None)" for s1 :: "'a connector"
    by (auto simp: held_def fun_eq_iff)
  from this [of "disconnectAndCleanup vt a s"] Some show ?thesis
    by (simp add: removeConnection_def Let_def held_cleanup)
qed

lemma held_update:
  assumes "linv s" "held s (cfg_id cfg) \<noteq> None" "\<not> isl (vt_extractParams vt cfg)"
  shows "held (snd (updateConnection vt cfg s)) = (held s)(cfg_id cfg \<mapsto> cfg)"
proof -
  from assms(3) obtain p where p: "vt_extractParams vt cfg = Inr p" by (cases "vt_extractParams vt cfg") auto
  from assms(2) obtain a where a: "jget (connections s) (cfg_id cfg) = Some a"
    by (auto simp: held_def)
  let ?s1 = "modify a (\<lambda>m. m\<lparr>m_config := cfg, m_proto := vt_applyParams vt (m_proto m) p\<rparr>)
    (disconnectAndCleanup vt a s)"
  have "held ?s1 i = ((held s)(cfg_id cfg \<mapsto> cfg)) i" for i
    using linv_lookup [OF assms(1), of i] linv_lookup [OF assms(1) a] a
    by (cases "jget (connections s) i") (auto simp: held_def modify_def)
  then have "held ?s1 = (held s)(cfg_id cfg \<mapsto> cfg)" by (rule ext)
  moreover have "snd (updateConnection vt cfg s) = ?s1 \<or>
      (\<exists>b. snd (updateConnection vt cfg s) = vt_initiate vt b ?s1)"
    using a p by (auto simp: updateConnection_def Let_def)
  ultimately show ?thesis using held_initiate by auto
qed

lemma held_update_refused:
  assumes "held s (cfg_id cfg) \<noteq> None" "isl (vt_extractParams vt cfg)"
  shows "held (snd (updateConnection vt cfg s)) = held s"
  using assms held_cleanup by (auto simp: updateConnection_def held_def Let_def split: sum.splits)

lemma held_mapping:
  "held (snd (vt_addMapping vt mp s)) = held s" "held (snd (vt_removeMapping vt i s)) = held s"
  by (rule held_same_life, rule mapping_life)+

end

section \<open>The connectors of the program\<close>

fun any_held :: "any_connector \<Rightarrow> string \<Rightarrow> connection_config option" where
  "any_held (S7C s) = held s"
| "any_held (ModbusC s) = held s"
| "any_held (EipC s) = held s"
| "any_held (PcccC s) = held s"

text \<open>A connector takes a configuration if it can extract its parameters; only these count.\<close>

fun any_accepts :: "any_connector \<Rightarrow> connection_config \<Rightarrow> bool" where
  "any_accepts (S7C _) cfg = (\<not> isl (s7_extractParams cfg))"
| "any_accepts (ModbusC _) cfg = (\<not> isl (modbus_extractParams cfg))"
| "any_accepts (EipC _) cfg = (\<not> isl (eip_extractParams cfg))"
| "any_accepts (PcccC _) cfg = (\<not> isl (pccc_extractParams cfg))"

fun any_metadata :: "any_connector \<Rightarrow> connector_metadata" where
  "any_metadata (S7C _) = s7_getMetadata"
| "any_metadata (ModbusC _) = modbus_getMetadata"
| "any_metadata (EipC _) = eip_getMetadata"
| "any_metadata (PcccC _) = pccc_getMetadata"


lemma any_held_add:
  "any_linv c \<Longrightarrow> any_held c (cfg_id cfg) = None \<Longrightarrow> any_accepts c cfg \<Longrightarrow>
    any_held (snd (any_api (AddConnection cfg) c)) = (any_held c)(cfg_id cfg \<mapsto> cfg)"
  by (cases c) (simp_all add: split_beta s7_calm.held_add modbus_calm.held_add eip_calm.held_add
      pccc_calm.held_add)

lemma any_held_update:
  "any_linv c \<Longrightarrow> any_held c (cfg_id cfg) \<noteq> None \<Longrightarrow> any_accepts c cfg \<Longrightarrow>
    any_held (snd (any_api (UpdateConnection cfg) c)) = (any_held c)(cfg_id cfg \<mapsto> cfg)"
  by (cases c) (simp_all add: split_beta s7_calm.held_update modbus_calm.held_update
      eip_calm.held_update pccc_calm.held_update)

lemma any_held_refused:
  "any_held c (cfg_id cfg) \<noteq> None \<Longrightarrow> \<not> any_accepts c cfg \<Longrightarrow>
    any_held (snd (any_api (UpdateConnection cfg) c)) = any_held c"
  by (cases c) (simp_all add: split_beta s7_calm.held_update_refused modbus_calm.held_update_refused
      eip_calm.held_update_refused pccc_calm.held_update_refused)

lemma any_held_remove:
  "any_held (snd (any_api (RemoveConnection i) c)) = (any_held c)(i := None)"
  by (cases c) (simp_all add: split_beta s7_calm.held_remove modbus_calm.held_remove
      eip_calm.held_remove pccc_calm.held_remove)

lemma any_held_mapping:
  "any_held (snd (any_api (AddMapping m) c)) = any_held c"
  "any_held (snd (any_api (RemoveMapping i) c)) = any_held c"
  by (cases c; simp add: split_beta s7_calm.held_mapping [simplified] modbus_calm.held_mapping [simplified]
      eip_calm.held_mapping [simplified] pccc_calm.held_mapping [simplified])+

lemma any_kind:
  "any_metadata (snd (any_api call c)) = any_metadata c"
  "any_accepts (snd (any_api call c)) = any_accepts c"
  by (cases c; simp add: split_beta fun_eq_iff)+

lemma accepts_host: "any_accepts c cfg = truthy (getprop (members (cfg_params cfg)) ''host'')"
  by (cases c) (simp_all add: s7_extractParams_def modbus_extractParams_def eip_extractParams_def
      pccc_extractParams_def Let_def getprop_def)

section \<open>In step with the tables\<close>

definition row_of :: "tables \<Rightarrow> string \<Rightarrow> string \<Rightarrow> connection_config option" where
  "row_of t ty i = find (\<lambda>c. cfg_id c = i \<and> cfg_type c = ty) (t_connections t)"

definition in_step :: "tables \<Rightarrow> any_connector registry \<Rightarrow> bool" where
  "in_step t r \<longleftrightarrow>
     (\<forall>ty c. getConnector ty r = Some c \<longrightarrow>
        any_linv c \<and> any_held c = row_of t ty
        \<and> (\<forall>i cfg. row_of t ty i = Some cfg \<longrightarrow> any_accepts c cfg))"

text \<open>
  The same where a row may not be one to configure a connector with: the connector then manages the
  connection with the settings it had. \<open>unfit\<close> are the connections with such a row.
\<close>

definition agrees :: "any_connector \<Rightarrow> connection_config option \<Rightarrow> connection_config option \<Rightarrow> bool" where
  "agrees c h row \<longleftrightarrow>
     (case row of None \<Rightarrow> h = None | Some cfg \<Rightarrow> if any_accepts c cfg then h = Some cfg else h \<noteq> None)"

definition follows :: "tables \<Rightarrow> any_connector registry \<Rightarrow> bool" where
  "follows t r \<longleftrightarrow>
     (\<forall>ty c. getConnector ty r = Some c \<longrightarrow>
        any_linv c \<and> (\<forall>i. agrees c (any_held c i) (row_of t ty i)))"

definition unfit :: "tables \<Rightarrow> any_connector registry \<Rightarrow> string set" where
  "unfit t r =
     {i. \<exists>ty c cfg. getConnector ty r = Some c \<and> row_of t ty i = Some cfg \<and> \<not> any_accepts c cfg}"

lemma in_step_iff: "in_step t r \<longleftrightarrow> follows t r \<and> unfit t r = {}"
proof
  assume "in_step t r"
  then show "follows t r \<and> unfit t r = {}"
    by (auto simp: in_step_def follows_def unfit_def agrees_def split: option.split)
next
  assume f: "follows t r \<and> unfit t r = {}"
  show "in_step t r"
    unfolding in_step_def
  proof (intro allI impI)
    fix ty c assume c: "getConnector ty r = Some c"
    from f c have all: "\<forall>i cfg. row_of t ty i = Some cfg \<longrightarrow> any_accepts c cfg"
      by (auto simp: unfit_def)
    have "any_held c i = row_of t ty i" for i
    proof -
      from f c have "agrees c (any_held c i) (row_of t ty i)" by (simp add: follows_def)
      with all show ?thesis by (cases "row_of t ty i") (auto simp: agrees_def)
    qed
    with f c all show "any_linv c \<and> any_held c = row_of t ty
        \<and> (\<forall>i cfg. row_of t ty i = Some cfg \<longrightarrow> any_accepts c cfg)"
      by (auto simp: follows_def)
  qed
qed

text \<open>Every connector is registered with the schema it declares.\<close>

definition declared :: "any_connector registry \<Rightarrow> bool" where
  "declared r \<longleftrightarrow>
     (\<forall>ty c. getConnector ty r = Some c \<longrightarrow>
        getParamsSchema ty r = Some (md_paramsSchema (any_metadata c)))"

lemma notify_connector:
  "getConnector ty' (notify ty call r)
     = (if ty' = ty then map_option (\<lambda>c. snd (any_api call c)) (getConnector ty r) else getConnector ty' r)"
  by (auto simp: notify_def getConnector_def split: option.split)

lemma notify_declared: "declared r \<Longrightarrow> declared (notify ty call r)"
proof -
  have "getParamsSchema ty' (notify ty call r) = getParamsSchema ty' r" for ty'
    by (simp add: notify_def getParamsSchema_def split: option.split)
  then show "declared r \<Longrightarrow> declared (notify ty call r)"
    by (auto simp: declared_def notify_connector any_kind split: if_splits)
qed

lemma agrees_kind [simp]: "agrees (snd (any_api call c)) = agrees c"
  by (intro ext) (simp add: agrees_def any_kind split: option.split)

lemma follows_notify:
  assumes "follows t r"
    and other: "\<And>ty'. ty' \<noteq> ty \<Longrightarrow> row_of t' ty' = row_of t ty'"
    and here: "\<And>c i. getConnector ty r = Some c \<Longrightarrow>
      agrees c (any_held (snd (any_api call c)) i) (row_of t' ty i)"
  shows "follows t' (notify ty call r)"
  unfolding follows_def
proof (intro allI impI)
  fix ty' c assume c: "getConnector ty' (notify ty call r) = Some c"
  show "any_linv c \<and> (\<forall>i. agrees c (any_held c i) (row_of t' ty' i))"
  proof (cases "ty' = ty")
    case True
    with c obtain c0 where c0: "getConnector ty r = Some c0" "c = snd (any_api call c0)"
      by (auto simp: notify_connector)
    with assms(1) have "any_linv c" by (simp add: follows_def any_linv_api)
    with assms(3) [OF c0(1)] c0(2) True show ?thesis by simp
  next
    case False
    with c assms(1) other [OF False] show ?thesis by (simp add: notify_connector follows_def)
  qed
qed

lemma unfit_notify: "unfit t (notify ty call r) = unfit t r"
proof -
  have "(\<exists>c. getConnector ty' (notify ty call r) = Some c \<and> \<not> any_accepts c cfg)
      \<longleftrightarrow> (\<exists>c. getConnector ty' r = Some c \<and> \<not> any_accepts c cfg)" for ty' cfg
    by (cases "getConnector ty r") (auto simp: notify_connector any_kind)
  then show ?thesis unfolding unfit_def by blast
qed

lemma in_step_notify:
  assumes "in_step t r"
    and other: "\<And>ty'. ty' \<noteq> ty \<Longrightarrow> row_of t' ty' = row_of t ty'"
    and here: "\<And>c. getConnector ty r = Some c \<Longrightarrow>
      any_held (snd (any_api call c)) = row_of t' ty
      \<and> (\<forall>i cfg. row_of t' ty i = Some cfg \<longrightarrow> any_accepts c cfg)"
  shows "in_step t' (notify ty call r)"
  unfolding in_step_iff unfit_notify
proof
  show "follows t' (notify ty call r)"
    using assms(1) [unfolded in_step_iff] other here
    by (intro follows_notify) (auto simp: agrees_def split: option.split)
  have "any_accepts c cfg" if "getConnector ty' r = Some c" "row_of t' ty' i = Some cfg" for ty' c i cfg
    using that assms(1) other [of ty'] here [of c] by (cases "ty' = ty") (auto simp: in_step_def)
  then show "unfit t' r = {}" by (auto simp: unfit_def)
qed

text \<open>What the three writes do to the rows.\<close>

lemma row_of_iff:
  "distinct (map cfg_id (t_connections t)) \<Longrightarrow>
    row_of t ty i = Some c \<longleftrightarrow> c \<in> set (t_connections t) \<and> cfg_id c = i \<and> cfg_type c = ty"
  unfolding row_of_def
  using find_by_key [of "\<lambda>c. (cfg_id c, cfg_type c)" "t_connections t" c "(i, ty)"]
    find_SomeD [of "\<lambda>c. cfg_id c = i \<and> cfg_type c = ty" "t_connections t" c]
  by (auto simp: distinct_map inj_on_def)

lemma found_iff:
  "distinct (map cfg_id (t_connections t)) \<Longrightarrow>
    find_connection i t = Some c \<longleftrightarrow> c \<in> set (t_connections t) \<and> cfg_id c = i"
  unfolding find_connection_def by (auto dest: find_SomeD intro: find_by_key)

lemma row_ext: "(\<And>i c. f i = Some c \<longleftrightarrow> g i = Some c) \<Longrightarrow> f = g"
  by (rule ext) (metis option.exhaust)

lemma row_of_insert:
  assumes "distinct (map cfg_id (t_connections t @ [c]))"
  shows "row_of (t\<lparr>t_connections := t_connections t @ [c]\<rparr>) ty
    = (if ty = cfg_type c then (row_of t ty)(cfg_id c \<mapsto> c) else row_of t ty)"
  using assms by (intro row_ext) (auto simp: row_of_iff image_iff)

lemma row_of_update:
  assumes "distinct (map cfg_id (t_connections t))" "find_connection i t = Some old"
  shows "row_of (t\<lparr>t_connections := update_rows (\<lambda>c. cfg_id c = i) (set_connection rq) (t_connections t)\<rparr>) ty
    = (if ty = cfg_type old then (row_of t ty)(i \<mapsto> set_connection rq old) else row_of t ty)"
proof -
  have same: "cfg_id (set_connection rq c) = cfg_id c" "cfg_type (set_connection rq c) = cfg_type c" for c
    by (simp_all add: set_connection_def)
  have ids: "map cfg_id (update_rows (\<lambda>c. cfg_id c = i) (set_connection rq) (t_connections t))
      = map cfg_id (t_connections t)"
    by (simp add: update_rows_def same)
  from assms have o: "old \<in> set (t_connections t)" "cfg_id old = i" by (simp_all add: found_iff)
  have inj: "inj_on cfg_id (set (t_connections t))" using assms(1) by (simp add: distinct_map)
  have rows: "c \<in> set (update_rows (\<lambda>c. cfg_id c = i) (set_connection rq) (t_connections t))
      \<longleftrightarrow> c \<in> set (t_connections t) \<and> cfg_id c \<noteq> i \<or> c = set_connection rq old" for c
  proof
    assume "c \<in> set (update_rows (\<lambda>c. cfg_id c = i) (set_connection rq) (t_connections t))"
    then obtain x where x: "x \<in> set (t_connections t)"
      "c = (if cfg_id x = i then set_connection rq x else x)"
      unfolding update_rows_def set_map by (elim imageE) 
    show "c \<in> set (t_connections t) \<and> cfg_id c \<noteq> i \<or> c = set_connection rq old"
    proof (cases "cfg_id x = i")
      case True
      then have "x = old" using inj_onD [OF inj, of x old] x(1) o by simp
      with x(2) True show ?thesis by simp
    next
      case False
      with x show ?thesis by simp
    qed
  next
    assume "c \<in> set (t_connections t) \<and> cfg_id c \<noteq> i \<or> c = set_connection rq old"
    then show "c \<in> set (update_rows (\<lambda>c. cfg_id c = i) (set_connection rq) (t_connections t))"
    proof
      assume "c \<in> set (t_connections t) \<and> cfg_id c \<noteq> i"
      then show ?thesis unfolding update_rows_def set_map by (intro rev_image_eqI [of c]) simp_all
    next
      assume "c = set_connection rq old"
      then show ?thesis
        unfolding update_rows_def set_map using o by (intro rev_image_eqI [of old]) simp_all
    qed
  qed
  show ?thesis
    using assms(1) o
    by (intro row_ext) (auto simp: row_of_iff ids rows same dest: inj_onD [OF inj])
qed

lemma row_of_delete:
  assumes "distinct (map cfg_id (t_connections t))"
  shows "row_of (t\<lparr>t_connections := filter (\<lambda>c. cfg_id c \<noteq> i) (t_connections t)\<rparr>) ty = (row_of t ty)(i := None)"
  using assms by (intro row_ext) (auto simp: row_of_iff distinct_map_filter)


section \<open>The handlers keep them in step\<close>

lemma write_done:
  assumes "answer (db_write f d) = (Inr (Inr x), d1)"
  shows "db_open d" "db_alive d" "f (db_tables d) = (Inr x, db_tables d1)"
  using assms
  by (auto simp: answer_def db_write_def isAccessible_def clearCache_def Let_def
      split: if_splits sum.splits prod.splits)

lemma statement_done:
  "statement f sel t = (Inr x, t') \<Longrightarrow> t' = f t \<and> sel t' = Some x \<and> integrity t'"
  using execute_cases [of f t]
  by (auto simp: statement_def split: prod.splits sum.splits option.splits)

lemma created:
  assumes "createConnection i now rq d = (Inr (Inr c), d1)" "i \<notin> cfg_id ` set (t_connections (db_tables d))"
  shows "c = new_connection i now rq
    \<and> db_tables d1 = (db_tables d)\<lparr>t_connections := t_connections (db_tables d) @ [c]\<rparr>
    \<and> integrity (db_tables d1)"
proof -
  let ?c = "new_connection i now rq"
  from write_done(3) [OF assms(1) [unfolded createConnection_def]]
  have "statement (\<lambda>t. t\<lparr>t_connections := t_connections t @ [?c]\<rparr>) (find_connection (cfg_id ?c))
      (db_tables d) = (Inr c, db_tables d1)"
    by (simp add: insert_connection_def)
  from statement_done [OF this] have "db_tables d1 = (db_tables d)\<lparr>t_connections := t_connections (db_tables d) @ [?c]\<rparr>"
    "find_connection (cfg_id ?c) (db_tables d1) = Some c" "integrity (db_tables d1)"
    by blast+
  moreover from this(1,3) have "distinct (map cfg_id (t_connections (db_tables d) @ [?c]))"
    by (simp add: integrity_def unique_ok_def)
  ultimately show ?thesis using found_iff [of "db_tables d1" "cfg_id ?c" ?c] by simp
qed

lemma and_then_done:
  assumes "and_then r f = (Inr (Inr x), d2)"
  obtains y d1 where "r = (Inr y, d1)" "f y d1 = (Inr (Inr x), d2)"
  using assms by (cases r f rule: and_then_cases) auto

lemma connection_found:
  "db_open d1 \<Longrightarrow> db_alive d1 \<Longrightarrow> findConnectionById i d = (Inr found, d1) \<Longrightarrow>
    found = find_connection i (db_tables d) \<and> db_tables d1 = db_tables d"
  using connection_find_fields [of i d] connection_find_alive [of d i] by simp

lemma find_updated:
  "(\<And>r. P (f r) = P r) \<Longrightarrow> find P (update_rows P f rows) = map_option f (find P rows)"
  by (induction rows) (auto simp: update_rows_def)

lemma updated:
  assumes "repo_updateConnection i rq d = (Inr (Inr c), d2)"
  shows "db_open d \<and> db_alive d \<and> (\<exists>old. find_connection i (db_tables d) = Some old
    \<and> c = set_connection rq old \<and> integrity (db_tables d2)
    \<and> db_tables d2 = (db_tables d)\<lparr>t_connections :=
        update_rows (\<lambda>c. cfg_id c = i) (set_connection rq) (t_connections (db_tables d))\<rparr>)"
proof -
  from assms obtain found d1 where f: "findConnectionById i d = (Inr found, d1)" "found \<noteq> None"
    and w: "answer (db_write (update_connection_body i rq) d1) = (Inr (Inr c), d2)"
    unfolding repo_updateConnection_def by (elim and_then_done) (auto simp: refuse_def split: if_splits)
  have "find_connection i (t\<lparr>t_connections := update_rows (\<lambda>c. cfg_id c = i) (set_connection rq) (t_connections t)\<rparr>)
      = map_option (set_connection rq) (find_connection i t)" for t
    unfolding find_connection_def by (simp add: find_updated set_connection_def)
  with statement_done [OF write_done(3) [OF w, unfolded update_connection_body_def]]
    connection_found [OF write_done(1,2) [OF w] f(1)] f(2)
    write_done(1,2) [OF w] connection_find_fields(2,3) [of i d] f(1)
  show ?thesis by auto
qed

lemma deleted:
  assumes "deleteConnection i d = (Inr (Inr u), d2)"
  shows "db_open d \<and> db_alive d \<and> find_connection i (db_tables d) \<noteq> None
    \<and> db_tables d2 = drop_connection i (db_tables d)"
proof -
  from assms obtain found d1 where f: "findConnectionById i d = (Inr found, d1)" "found \<noteq> None"
    and w: "answer (db_write (delete_connection_body i) d1) = (Inr (Inr u), d2)"
    unfolding deleteConnection_def by (elim and_then_done) (auto simp: refuse_def split: if_splits)
  from write_done(3) [OF w] have "execute (drop_connection i) (db_tables d1) = (Inr u, db_tables d2)"
    by (simp add: delete_connection_body_def)
  with execute_cases [of "drop_connection i" "db_tables d1"] f(2) write_done(1,2) [OF w]
    connection_found [OF write_done(1,2) [OF w] f(1)] connection_find_fields(2,3) [of i d] f(1)
  show ?thesis by auto
qed

text \<open>Parameters that pass the check are taken, as they are stored, by the connector.\<close>

lemma stored_text: "getprop ps k = JStr s \<Longrightarrow> getprop (copy_members ps) k = JStr s"
proof -
  have "map_of (copy_members ps) k = Some (JStr s)" if "map_of ps k = Some (JStr s)"
    using that by (induction ps) (auto split: if_splits)
  then show "getprop ps k = JStr s \<Longrightarrow> getprop (copy_members ps) k = JStr s"
    by (auto simp: getprop_def split: option.splits)
qed

lemma host_field: "\<exists>f \<in> set (md_paramsSchema (any_metadata c)). pf_required f \<and> pf_type f = TText \<and> pf_key f = ''host''"
  by (cases c) (simp_all add: s7_getMetadata_def modbus_getMetadata_def eip_getMetadata_def
      pccc_getMetadata_def text_field_def)

lemma checked_params:
  assumes "declared r" "getConnector ty r = Some c" "params_errors env ty (members v) r = []"
    and "cfg_params cfg = json_copy v"
  shows "any_accepts c cfg"
proof -
  from assms(1,2) have "getParamsSchema ty r = Some (md_paramsSchema (any_metadata c))"
    by (simp add: declared_def)
  with assms(3) have "vr_valid (validateParams (ap_pattern env) (ap_message env) (members v) (md_paramsSchema (any_metadata c)))"
    by (auto simp: params_errors_def validateParams_def Let_def split: if_splits)
  from valid_required_text [OF this] host_field [of c] obtain s where
    "getprop (members v) ''host'' = JStr s" "s \<noteq> []" by metis
  with stored_text [of "members v" "''host''" s] assms(4) show ?thesis
    by (cases v) (simp_all add: accepts_host getprop_def)
qed

datatype connection_request =
    PostConnection jsval
  | PutConnection string jsval
  | DeleteConnection string

fun connection_route ::
  "'e connector_env_scheme \<Rightarrow> string \<Rightarrow> string \<Rightarrow> connection_request \<Rightarrow> plant \<Rightarrow> (response \<times> plant) option"
where
  "connection_route env i now (PostConnection b) p = post_connection env i now b p"
| "connection_route env i now (PutConnection k b) p = put_connection env k b p"
| "connection_route env i now (DeleteConnection k) p = Some (delete_connection env k p)"

lemma finish_cases:
  assumes "finish env status details r ok x = (rs, d', r')" "clean_answer d x"
  obtains (kept) "db_tables d' = db_tables d" "r' = r"
    | (answered) a d1 where "x = (Inr (Inr a), d1)" "ok a d1 = (rs, d', r')"
  using assms by (auto simp: finish_def clean_answer_def split: prod.splits sum.splits)


lemma in_stepD:
  "in_step t r \<Longrightarrow> getConnector ty r = Some c \<Longrightarrow>
    any_linv c \<and> any_held c = row_of t ty \<and> (\<forall>i cfg. row_of t ty i = Some cfg \<longrightarrow> any_accepts c cfg)"
  by (simp add: in_step_def)

lemma followsD:
  "follows t r \<Longrightarrow> getConnector ty r = Some c \<Longrightarrow> agrees c (any_held c i) (row_of t ty i)"
  by (simp add: follows_def)

lemma in_step_created:
  assumes "in_step t r" "distinct (map cfg_id (t_connections t @ [c]))"
    and ok: "\<And>k. getConnector (cfg_type c) r = Some k \<Longrightarrow> any_accepts k c"
  shows "in_step (t\<lparr>t_connections := t_connections t @ [c]\<rparr>) (notify (cfg_type c) (AddConnection c) r)"
  using assms(1)
proof (rule in_step_notify)
  fix k assume k: "getConnector (cfg_type c) r = Some k"
  note held = in_stepD [OF assms(1) k]
  have "row_of t (cfg_type c) (cfg_id c) = None"
    using assms(2) unfolding row_of_def find_None by (auto simp: image_iff)
  with held any_held_add [of k c] ok [OF k]
  show "any_held (snd (any_api (AddConnection c) k))
      = row_of (t\<lparr>t_connections := t_connections t @ [c]\<rparr>) (cfg_type c)
    \<and> (\<forall>j cfg. row_of (t\<lparr>t_connections := t_connections t @ [c]\<rparr>) (cfg_type c) j = Some cfg
        \<longrightarrow> any_accepts k cfg)"
    by (simp add: row_of_insert [OF assms(2)])
qed (simp add: row_of_insert [OF assms(2)])

lemma follows_created:
  assumes "follows t r" "distinct (map cfg_id (t_connections t @ [c]))"
    and ok: "\<And>k. getConnector (cfg_type c) r = Some k \<Longrightarrow> any_accepts k c"
  shows "follows (t\<lparr>t_connections := t_connections t @ [c]\<rparr>) (notify (cfg_type c) (AddConnection c) r)
    \<and> unfit (t\<lparr>t_connections := t_connections t @ [c]\<rparr>) r \<subseteq> unfit t r"
proof
  show "follows (t\<lparr>t_connections := t_connections t @ [c]\<rparr>) (notify (cfg_type c) (AddConnection c) r)"
    using assms(1)
  proof (rule follows_notify)
    fix k i assume k: "getConnector (cfg_type c) r = Some k"
    have "row_of t (cfg_type c) (cfg_id c) = None"
      using assms(2) unfolding row_of_def find_None by (auto simp: image_iff)
    with followsD [OF assms(1) k, of "cfg_id c"] have "any_held k (cfg_id c) = None"
      by (simp add: agrees_def)
    with assms(1) k any_held_add [of k c] ok [OF k]
    have "any_held (snd (any_api (AddConnection c) k)) = (any_held k)(cfg_id c \<mapsto> c)"
      by (simp add: follows_def)
    with followsD [OF assms(1) k, of i] ok [OF k]
    show "agrees k (any_held (snd (any_api (AddConnection c) k)) i)
        (row_of (t\<lparr>t_connections := t_connections t @ [c]\<rparr>) (cfg_type c) i)"
      by (simp add: row_of_insert [OF assms(2)] agrees_def)
  qed (simp add: row_of_insert [OF assms(2)])
  show "unfit (t\<lparr>t_connections := t_connections t @ [c]\<rparr>) r \<subseteq> unfit t r"
    using ok by (auto simp: unfit_def row_of_insert [OF assms(2)] split: if_splits) 
qed

lemma follows_updated:
  assumes "follows t r" "distinct (map cfg_id (t_connections t))" "find_connection i t = Some old"
    and ok: "\<And>k. getConnector (cfg_type old) r = Some k \<Longrightarrow> any_accepts k old \<Longrightarrow>
      any_accepts k (set_connection rq old) \<or> i \<in> X"
  shows "follows (t\<lparr>t_connections := update_rows (\<lambda>c. cfg_id c = i) (set_connection rq) (t_connections t)\<rparr>)
      (notify (cfg_type old) (UpdateConnection (set_connection rq old)) r)
    \<and> unfit (t\<lparr>t_connections := update_rows (\<lambda>c. cfg_id c = i) (set_connection rq) (t_connections t)\<rparr>) r
        \<subseteq> unfit t r \<union> X"
proof
  let ?t' = "t\<lparr>t_connections := update_rows (\<lambda>c. cfg_id c = i) (set_connection rq) (t_connections t)\<rparr>"
  let ?c = "set_connection rq old"
  have o: "old \<in> set (t_connections t)" "cfg_id old = i" using assms(2,3) by (simp_all add: found_iff)
  then have row: "row_of t (cfg_type old) i = Some old" using assms(2) by (simp add: row_of_iff)
  have i: "cfg_id ?c = i" using o by (simp add: set_connection_def)
  show "follows ?t' (notify (cfg_type old) (UpdateConnection ?c) r)"
    using assms(1)
  proof (rule follows_notify)
    fix k j assume k: "getConnector (cfg_type old) r = Some k"
    from followsD [OF assms(1) k, of i] row have held: "any_held k i \<noteq> None"
      by (auto simp: agrees_def split: if_splits)
    have "any_held (snd (any_api (UpdateConnection ?c) k))
        = (if any_accepts k ?c then (any_held k)(i \<mapsto> ?c) else any_held k)"
      using any_held_update [of k ?c] any_held_refused [of k ?c] held i assms(1) k
      by (simp add: follows_def)
    with followsD [OF assms(1) k, of j] held
    show "agrees k (any_held (snd (any_api (UpdateConnection ?c) k)) j) (row_of ?t' (cfg_type old) j)"
      by (cases "j = i") (auto simp: row_of_update [OF assms(2,3)] agrees_def split: option.splits if_splits)
  qed (simp add: row_of_update [OF assms(2,3)])
  show "unfit ?t' r \<subseteq> unfit t r \<union> X"
  proof
    fix j assume "j \<in> unfit ?t' r"
    then obtain ty k cfg where j: "getConnector ty r = Some k" "row_of ?t' ty j = Some cfg" "\<not> any_accepts k cfg"
      by (auto simp: unfit_def)
    show "j \<in> unfit t r \<union> X"
    proof (cases "ty = cfg_type old \<and> j = i")
      case True
      with j row ok [of k] show ?thesis by (auto simp: unfit_def row_of_update [OF assms(2,3)])
    next
      case False
      with j show ?thesis by (auto simp: unfit_def row_of_update [OF assms(2,3)] split: if_splits)
    qed
  qed
qed

lemma follows_deleted:
  assumes "follows t r" "distinct (map cfg_id (t_connections t))" "find_connection i t = Some old"
  shows "follows (drop_connection i t) (notify (cfg_type old) (RemoveConnection i) r)
    \<and> unfit (drop_connection i t) r \<subseteq> unfit t r"
proof
  have drop: "row_of (drop_connection i t) ty = (row_of t ty)(i := None)" for ty
    using row_of_delete [OF assms(2), of i ty] by (simp add: drop_connection_def row_of_def [abs_def])
  show "follows (drop_connection i t) (notify (cfg_type old) (RemoveConnection i) r)"
    using assms(1)
  proof (rule follows_notify)
    show "row_of (drop_connection i t) ty = row_of t ty" if "ty \<noteq> cfg_type old" for ty
      using assms(2,3) that
      by (intro row_ext) (auto simp: drop row_of_iff found_iff distinct_map dest: inj_onD)
    fix k j assume "getConnector (cfg_type old) r = Some k"
    from followsD [OF assms(1) this, of j]
    show "agrees k (any_held (snd (any_api (RemoveConnection i) k)) j) (row_of (drop_connection i t) (cfg_type old) j)"
      by (simp add: drop any_held_remove agrees_def)
  qed
  show "unfit (drop_connection i t) r \<subseteq> unfit t r"
    by (auto simp: unfit_def drop split: if_splits)
qed

text \<open>The connections whose parameters a request replaces by \<open>null\<close>, zero, no text or
  \<open>false\<close>, which are not checked.\<close>

fun emptied :: "connection_request \<Rightarrow> string set" where
  "emptied (PutConnection k b) =
     (if body_field b ''params'' \<noteq> JUndefined \<and> \<not> truthy (body_field b ''params'') then {k} else {})"
| "emptied _ = {}"

definition kept_in_step ::
  "connection_request \<Rightarrow> database \<Rightarrow> any_connector registry \<Rightarrow> database \<Rightarrow> any_connector registry \<Rightarrow> bool" where
  "kept_in_step rq d r d' r' \<longleftrightarrow>
     follows (db_tables d') r' \<and> declared r'
     \<and> unfit (db_tables d') r' \<subseteq> unfit (db_tables d) r \<union> emptied rq"

lemma kept_same:
  "follows (db_tables d) r \<Longrightarrow> declared r \<Longrightarrow> db_tables d' = db_tables d \<Longrightarrow> kept_in_step rq d r d' r"
  by (auto simp: kept_in_step_def)

lemma kept_notify:
  assumes "follows t' (notify ty call r) \<and> unfit t' r \<subseteq> unfit (db_tables d) r \<union> emptied rq"
    and "declared r" "db_tables d' = t'"
  shows "kept_in_step rq d r d' (notify ty call r)"
  using assms notify_declared by (simp add: kept_in_step_def unfit_notify)

lemma post_in_step:
  assumes "follows (db_tables d) r" "declared r" "i \<notin> cfg_id ` set (t_connections (db_tables d))"
    and "post_connection env i now b (d, r) = Some (rs, d', r')"
  shows "kept_in_step (PostConnection b) d r d' r'"
proof (cases "\<exists>rq. create_connection_errors b = [] \<and> create_connection_body b = Some rq
    \<and> params_errors env (cc_type rq) (cc_params rq) r = []")
  case False
  with assms kept_same show ?thesis
    by (auto simp: post_connection_def Let_def split: if_splits option.splits)
next
  case True
  then obtain rq where rq: "create_connection_errors b = []" "create_connection_body b = Some rq"
    "params_errors env (cc_type rq) (cc_params rq) r = []" by blast
  have clean: "clean_answer d (createConnection i now rq d)"
    unfolding createConnection_def by (intro clean clean_bodies refl)
  from assms(4) rq have "finish env (\<lambda>code. if code = ''DUPLICATE_ERROR'' then 409 else 400) True r
      (\<lambda>c d1. (respond 201 (connection_json c), d1, notify (cfg_type c) (AddConnection c) r))
      (createConnection i now rq d) = (rs, d', r')"
    by (simp add: post_connection_def Let_def)
  from this clean show ?thesis
  proof (cases rule: finish_cases)
    case kept
    with assms(1,2) kept_same show ?thesis by simp
  next
    case (answered c d1)
    then have x: "d' = d1" "r' = notify (cfg_type c) (AddConnection c) r" by simp_all
    from created [OF answered(1) assms(3)] have c: "c = new_connection i now rq"
      "db_tables d1 = (db_tables d)\<lparr>t_connections := t_connections (db_tables d) @ [c]\<rparr>"
      "distinct (map cfg_id (t_connections (db_tables d) @ [c]))"
      by (auto simp: integrity_def unique_ok_def)
    have "any_accepts k c" if "getConnector (cfg_type c) r = Some k" for k
      using checked_params [OF assms(2), of "cc_type rq" k env "JObj (cc_params rq)" c] that rq(3)
      by (simp add: c(1) new_connection_def)
    from follows_created [OF assms(1) c(3) this] show ?thesis
      unfolding x using assms(2) c(2) by (intro kept_notify) auto
  qed
qed

lemma new_params_only_reads:
  assumes "new_params_errors env i jv (d, r) = (y, d1)"
  shows "db_tables d1 = db_tables d" "db_open d1 = db_open d" "db_alive d1 = db_alive d"
  using assms
  by (auto simp: new_params_errors_def split: if_splits prod.splits sum.splits option.splits)
    (metis connection_find_fields snd_conv)+

lemma accepted_after_put:
  assumes "declared r" "getConnector (cfg_type old) r = Some k" "any_accepts k old"
    and "find_connection i (db_tables d) = Some old" "db_open d" "db_alive d"
    and "update_connection_request_of b = Some rq"
    and "new_params_errors env i (body_field b ''params'') (d, r) = (Inr [], d1)"
  shows "any_accepts k (set_connection rq old) \<or> i \<in> emptied (PutConnection i b)"
proof -
  let ?v = "body_field b ''params''"
  have uc: "uc_params rq = given ?v"
    using assms(7) by (auto simp: update_connection_request_of_def bind_eq_Some_conv)
  consider "?v = JUndefined" | "?v \<noteq> JUndefined" "\<not> truthy ?v" | "truthy ?v" "?v \<noteq> JUndefined"
    by fastforce
  then show ?thesis
  proof cases
    case 1
    with assms(3) uc show ?thesis by (simp add: accepts_host set_connection_def given_def upd_def)
  next
    case 2
    then show ?thesis by simp
  next
    case 3
    with assms(8) connection_find_alive [OF assms(5,6), of i] assms(4)
    have "params_errors env (cfg_type old) (members ?v) r = []"
      by (auto simp: new_params_errors_def split: prod.splits sum.splits option.splits)
    from checked_params [OF assms(1,2) this, of "set_connection rq old"] uc 3 show ?thesis
      by (simp add: set_connection_def given_def upd_def)
  qed
qed

text \<open>What an update that is not refused does.\<close>

lemma put_connection_cases:
  assumes "put_connection env i b (d, r) = Some (rs, d', r')"
  obtains (kept) "db_tables d' = db_tables d" "r' = r" "rs_status rs \<noteq> 200"
    | (changed) rq old d1 where "find_connection i (db_tables d) = Some old" "db_open d" "db_alive d"
        "update_connection_request_of b = Some rq"
        "new_params_errors env i (body_field b ''params'') (d, r) = (Inr [], d1)"
        "db_tables d' = (db_tables d)\<lparr>t_connections :=
          update_rows (\<lambda>c. cfg_id c = i) (set_connection rq) (t_connections (db_tables d))\<rparr>"
        "r' = notify (cfg_type old) (UpdateConnection (set_connection rq old)) r"
proof -
  let ?st = "\<lambda>code :: string. if code = ''NOT_FOUND'' then 404 else (400 :: nat)"
  let ?ok = "\<lambda>c d2. (respond 200 (connection_json c), d2, notify (cfg_type c) (UpdateConnection c) r)"
  obtain y d1 where y: "new_params_errors env i (body_field b ''params'') (d, r) = (y, d1)" by fastforce
  note t1 = new_params_only_reads(1) [OF y] and live = new_params_only_reads(2,3) [OF y]
  have bad: "rs_status (thrown_response e' e) \<noteq> 200" for e' e by (simp add: thrown_response_def)
  show ?thesis
  proof (cases "\<exists>rq. y = Inr [] \<and> update_connection_request_of b = Some rq
      \<and> (rs, d', r') = finish env ?st False r ?ok (repo_updateConnection i rq d1)")
    case False
    with assms t1 y bad show ?thesis
      by (intro kept) (auto simp: put_connection_def Let_def split: if_splits sum.splits)
  next
    case True
    then obtain rq where rq: "y = Inr []" "update_connection_request_of b = Some rq"
      "finish env ?st False r ?ok (repo_updateConnection i rq d1) = (rs, d', r')"
      by auto
    have "clean_answer d1 (repo_updateConnection i rq d1)"
      unfolding repo_updateConnection_def
      by (intro clean_and_then) (auto intro: clean clean_bodies)
    show ?thesis
    proof (cases "\<exists>c d2. repo_updateConnection i rq d1 = (Inr (Inr c), d2)")
      case False
      with rq(3) \<open>clean_answer d1 _\<close> t1 bad show ?thesis
        by (intro kept) (auto simp: finish_def clean_answer_def split: prod.splits sum.splits if_splits)
    next
      case True
      then obtain c d2 where a: "repo_updateConnection i rq d1 = (Inr (Inr c), d2)" by blast
      with rq(3) have x: "d' = d2" "r' = notify (cfg_type c) (UpdateConnection c) r"
        by (simp_all add: finish_def)
      from updated [OF a] t1 live obtain old where old: "find_connection i (db_tables d) = Some old"
        "c = set_connection rq old" "db_open d" "db_alive d"
        "db_tables d2 = (db_tables d)\<lparr>t_connections :=
          update_rows (\<lambda>c. cfg_id c = i) (set_connection rq) (t_connections (db_tables d))\<rparr>"
        by auto
      moreover have "cfg_type c = cfg_type old" using old(2) by (simp add: set_connection_def)
      ultimately show ?thesis using x rq y by (intro changed [of old rq d1]) simp_all
    qed
  qed
qed

lemma put_in_step:
  assumes "follows (db_tables d) r" "declared r" "integrity (db_tables d)"
    and "put_connection env i b (d, r) = Some (rs, d', r')"
  shows "kept_in_step (PutConnection i b) d r d' r'"
  using assms(4)
proof (cases rule: put_connection_cases)
  case kept
  with assms(1,2) kept_same show ?thesis by simp
next
  case (changed rq old d1)
  have "distinct (map cfg_id (t_connections (db_tables d)))"
    using assms(3) by (simp add: integrity_def unique_ok_def)
  from follows_updated [OF assms(1) this changed(1), of rq "emptied (PutConnection i b)"]
    accepted_after_put [OF assms(2) _ _ changed(1-5)] show ?thesis
    unfolding changed(7) using assms(2) changed(6) by (intro kept_notify) auto
qed

lemma delete_in_step:
  assumes "follows (db_tables d) r" "declared r" "integrity (db_tables d)"
    and "delete_connection env i (d, r) = (rs, d', r')"
  shows "kept_in_step (DeleteConnection i) d r d' r'"
proof -
  obtain y d1 where y: "findConnectionById i d = (y, d1)" by fastforce
  then have d1: "db_tables d1 = db_tables d" "db_open d1 = db_open d" "db_alive d1 = db_alive d"
    by (metis connection_find_fields(1-3) snd_conv)+
  obtain z d2 where z: "deleteConnection i d1 = (z, d2)" by fastforce
  have clean: "clean_answer d1 (deleteConnection i d1)"
    unfolding deleteConnection_def by (intro clean_and_then) (auto intro: clean clean_bodies)
  show ?thesis
  proof (cases "isl y \<or> (\<forall>u. z \<noteq> Inr (Inr u))")
    case True
    with assms y z d1 clean kept_same show ?thesis
      by (auto simp: delete_connection_def clean_answer_def split: sum.splits)
  next
    case False
    then obtain found u where f: "y = Inr found" "z = Inr (Inr u)" by (cases y) auto
    with y z assms(4) have x: "d' = d2"
      "r' = (case found of None \<Rightarrow> r | Some c \<Rightarrow> notify (cfg_type c) (RemoveConnection i) r)"
      by (auto simp: delete_connection_def)
    from z f(2) deleted [of i d1 u d2] have del: "db_open d" "db_alive d"
      "find_connection i (db_tables d) \<noteq> None" "db_tables d2 = drop_connection i (db_tables d)"
      by (simp_all add: d1)
    then obtain old where found: "found = Some old" "find_connection i (db_tables d) = Some old"
      using connection_find_alive [OF del(1,2), of i] y f(1) by auto
    have "distinct (map cfg_id (t_connections (db_tables d)))"
      using assms(3) by (simp add: integrity_def unique_ok_def)
    from follows_deleted [OF assms(1) this found(2)] show ?thesis
      unfolding x found(1) option.case using assms(2) del(4) by (intro kept_notify) auto
  qed
qed

text \<open>C7: What the connectors poll is what the database says. Creating (under a fresh id), changing and
  deleting connections through the API, with a text as name and whole numbers as intervals where
  given, keeps every registered connector managing exactly the connections stored for its type,
  with the stored settings wherever these can configure it, whatever the outcome, also when the
  database is out of reach. Settings that cannot come only from params changed to null, zero, the
  empty text or false, which are not checked; other requests keep the connectors at exactly what is
  stored.\<close>

theorem connections_in_step:
  assumes "follows (db_tables d) r" "declared r" "integrity (db_tables d)"
    and "i \<notin> cfg_id ` set (t_connections (db_tables d))"
    and "connection_route env i now rq (d, r) = Some (rs, d', r')"
  shows "follows (db_tables d') r' \<and> declared r'
    \<and> unfit (db_tables d') r' \<subseteq> unfit (db_tables d) r \<union> emptied rq
    \<and> (in_step (db_tables d) r \<and> emptied rq = {} \<longrightarrow> in_step (db_tables d') r')"
proof -
  have "kept_in_step rq d r d' r'"
    using assms post_in_step put_in_step delete_in_step by (cases rq) simp_all
  then show ?thesis by (auto simp: kept_in_step_def in_step_iff)
qed

text \<open>Such a change is answered like any other: the value is stored, and the connector goes on
  with the settings it had.\<close>

lemma null_params_out_of_step:
  assumes "follows (db_tables d) r" "integrity (db_tables d)"
    and "put_connection env i b (d, r) = Some (rs, d', r')" "rs_status rs = 200"
    and "body_field b ''params'' = JNull"
  shows "\<exists>c. find_connection i (db_tables d') = Some c \<and> cfg_params c = JNull
    \<and> (\<forall>k k'. getConnector (cfg_type c) r = Some k \<longrightarrow> getConnector (cfg_type c) r' = Some k'
         \<longrightarrow> any_held k' = any_held k \<and> \<not> any_accepts k' c)"
  using assms(3)
proof (cases rule: put_connection_cases)
  case kept
  with assms(4) show ?thesis by simp
next
  case (changed rq old d1)
  let ?c = "set_connection rq old"
  have ids: "distinct (map cfg_id (t_connections (db_tables d)))"
    using assms(2) by (simp add: integrity_def unique_ok_def)
  from changed(1) have o: "old \<in> set (t_connections (db_tables d))" "cfg_id old = i"
    using ids by (simp_all add: found_iff)
  then have row: "row_of (db_tables d) (cfg_type old) i = Some old" using ids by (simp add: row_of_iff)
  have p: "cfg_params ?c = JNull"
    using changed(4) assms(5)
    by (auto simp: update_connection_request_of_def bind_eq_Some_conv set_connection_def given_def upd_def)
  have refused: "\<not> any_accepts k ?c" for k by (simp add: accepts_host p getprop_def)
  have c: "cfg_type ?c = cfg_type old" "cfg_id ?c = i" using o by (simp_all add: set_connection_def)
  have "find_connection i (db_tables d') = Some ?c"
    using changed(1) unfolding changed(6) find_connection_def
    by (simp add: find_updated set_connection_def)
  moreover have "any_held k' = any_held k"
    if "getConnector (cfg_type old) r = Some k" "getConnector (cfg_type old) r' = Some k'" for k k'
  proof -
    have "any_held k i \<noteq> None"
      using followsD [OF assms(1) that(1), of i] row by (auto simp: agrees_def split: if_splits)
    with that any_held_refused [of k ?c] refused c(2) show ?thesis
      by (simp add: changed(7) notify_connector)
  qed
  ultimately show ?thesis using p refused c(1) by (intro exI [of _ ?c]) simp
qed

section \<open>A run\<close>

text \<open>The registry as the plugin loader fills it.\<close>

definition loaded_registry :: "any_connector registry" where
  "loaded_registry =
     foldl (\<lambda>r c. register any_ops c (Some (any_metadata c)) r) new_registry
       [S7C s7_new, ModbusC modbus_new, EipC eip_new, PcccC pccc_new]"

definition connector_demo :: connector_env where
  "connector_demo = \<lparr>ap_parse = (\<lambda>_. None), ap_number = (\<lambda>_. ''1''), ap_sql = (\<lambda>_. ''error''),
     ap_gone = ''gone'', ap_pattern = (\<lambda>_ _. False), ap_message = (\<lambda>_. ''1''), ap_time = (\<lambda>_. ''t''),
     ap_metadata = (\<lambda>_. JNull)\<rparr>"

definition demo_connection_body :: jsval where
  "demo_connection_body =
     JObj [(''type'', JStr ''s7''), (''name'', JStr ''Press''),
           (''params'', JObj [(''host'', JStr ''10.0.0.5'')]), (''enabled'', JBool True)]"

lemma loaded_connectors:
  "reg_connectors loaded_registry =
     [(''s7'', any_onValueUpdate (S7C s7_new)), (''modbus-tcp'', any_onValueUpdate (ModbusC modbus_new)),
      (''ethernet-ip'', any_onValueUpdate (EipC eip_new)), (''pccc'', any_onValueUpdate (PcccC pccc_new))]"
  "reg_metadata loaded_registry =
     [(''s7'', s7_getMetadata), (''modbus-tcp'', modbus_getMetadata),
      (''ethernet-ip'', eip_getMetadata), (''pccc'', pccc_getMetadata)]"
proof -
  have "c_type s7_new = ''s7''" "c_type modbus_new = ''modbus-tcp''" "c_type eip_new = ''ethernet-ip''"
    "c_type pccc_new = ''pccc''"
    by (simp_all add: s7_new_def modbus_new_def eip_new_def pccc_new_def new_connector_def)
  then show
    "reg_connectors loaded_registry =
     [(''s7'', any_onValueUpdate (S7C s7_new)), (''modbus-tcp'', any_onValueUpdate (ModbusC modbus_new)),
      (''ethernet-ip'', any_onValueUpdate (EipC eip_new)), (''pccc'', any_onValueUpdate (PcccC pccc_new))]"
    "reg_metadata loaded_registry =
     [(''s7'', s7_getMetadata), (''modbus-tcp'', modbus_getMetadata),
      (''ethernet-ip'', eip_getMetadata), (''pccc'', pccc_getMetadata)]"
    by (simp_all add: loaded_registry_def register_def any_ops_def new_registry_def Let_def)
qed

lemma held_fresh: "held (new_connector ty logs blank) i = None"
  by (simp add: held_def new_connector_def)

lemma loaded_in_step: "in_step fresh_tables loaded_registry" "declared loaded_registry"
proof -
  have fresh: "row_of fresh_tables ty = (\<lambda>_. None)" for ty
    by (simp add: row_of_def fresh_tables_def fun_eq_iff)
  have kept: "held (onValueUpdate s) = held s" for s :: "'p connector"
    by (rule held_same) (simp_all add: onValueUpdate_def)
  have new: "any_linv c \<and> any_held c = (\<lambda>_. None)"
    if "(ty, c) \<in> set (reg_connectors loaded_registry)" for ty c
    using that linv_onValueUpdate s7_new_linv modbus_new_linv eip_new_linv pccc_new_linv
    by (auto simp: loaded_connectors fun_eq_iff kept s7_new_def modbus_new_def eip_new_def pccc_new_def
        held_fresh)
  then show "in_step fresh_tables loaded_registry"
    unfolding in_step_def getConnector_def using fresh by (auto dest!: map_of_SomeD)
  show "declared loaded_registry"
    by (auto simp: declared_def getConnector_def getParamsSchema_def loaded_connectors split: if_splits)
qed

lemma connections_in_step_witness:
  "\<exists>rs d' r' c cfg. connection_route connector_demo ''c1'' ''t'' (PostConnection demo_connection_body)
       (open_database None, loaded_registry) = Some (rs, d', r')
     \<and> rs_status rs = 201 \<and> getConnector ''s7'' r' = Some c \<and> any_held c ''c1'' = Some cfg
     \<and> cfg_name cfg = ''Press''"
proof -
  let ?d = "open_database None"
  let ?rq = "\<lparr>cc_type = ''s7'', cc_name = ''Press'', cc_params = [(''host'', JStr ''10.0.0.5'')],
    cc_polling = None, cc_reconnect = None, cc_enabled = Some True\<rparr>"
  have body: "create_connection_errors demo_connection_body = []"
    "create_connection_body demo_connection_body = Some ?rq"
    by code_simp+
  have checked: "params_errors connector_demo ''s7'' [(''host'', JStr ''10.0.0.5'')] loaded_registry = []"
    unfolding params_errors_def getParamsSchema_def loaded_connectors by code_simp
  have "case createConnection ''c1'' ''t'' ?rq ?d of
      (Inr (Inr c), d1) \<Rightarrow> row_of (db_tables d1) ''s7'' ''c1'' = Some c \<and> cfg_type c = ''s7'' \<and> cfg_name c = ''Press''
    | _ \<Rightarrow> False"
    by code_simp
  then obtain c d1 where c: "createConnection ''c1'' ''t'' ?rq ?d = (Inr (Inr c), d1)"
    "row_of (db_tables d1) ''s7'' ''c1'' = Some c" "cfg_type c = ''s7''" "cfg_name c = ''Press''"
    by (auto split: prod.splits sum.splits)
  let ?r = "notify ''s7'' (AddConnection c) loaded_registry"
  have route: "connection_route connector_demo ''c1'' ''t'' (PostConnection demo_connection_body) (?d, loaded_registry)
      = Some (respond 201 (connection_json c), d1, ?r)"
    using body checked c by (simp add: post_connection_def finish_def)
  have start: "db_tables ?d = fresh_tables" by (simp add: open_database_def applySchema_def)
  then have "integrity (db_tables ?d)" "''c1'' \<notin> cfg_id ` set (t_connections (db_tables ?d))"
    by (simp_all add: fresh_tables_def integrity_def notnull_ok_def unique_ok_def foreign_ok_def)
  with connections_in_step [OF _ loaded_in_step(2) _ _ route] loaded_in_step(1) start
  have step: "in_step (db_tables d1) ?r" by (simp add: in_step_iff)
  obtain k where k: "getConnector ''s7'' ?r = Some k"
    by (simp add: notify_connector) (simp add: getConnector_def loaded_connectors)
  with step c(2) have "any_held k ''c1'' = Some c" by (simp add: in_step_def)
  with route k c(4) show ?thesis
    by (intro exI [of _ "respond 201 (connection_json c)"] exI [of _ d1] exI [of _ ?r] exI [of _ k] exI [of _ c]) simp
qed

section \<open>A changed mapping\<close>

lemma mapping_updated:
  assumes "updateMapping i rq d = (Inr (Inr m), d2)"
  shows "find_row i (db_tables d2) = Some m
    \<and> (\<exists>old. find_row i (db_tables d) = Some old \<and> m = set_mapping rq old)"
proof -
  from assms obtain found d1 where f: "findMappingById i d = (Inr found, d1)"
    and w: "answer (db_write (update_mapping_body i rq) d1) = (Inr (Inr m), d2)"
    unfolding updateMapping_def
    by (elim and_then_done) (auto simp: refuse_def split: option.splits)
  have "db_tables d1 = db_tables d" using f mapping_find_fields(1) [of i d] by simp
  moreover have "find_row i (t\<lparr>t_mappings := update_rows (\<lambda>m. map_id m = i) (set_mapping rq) (t_mappings t)\<rparr>)
      = map_option (set_mapping rq) (find_row i t)" for t
    unfolding find_row_def by (simp add: find_updated set_mapping_def)
  ultimately show ?thesis
    using statement_done [OF write_done(3) [OF w, unfolded update_mapping_body_def]] by auto
qed

text \<open>Changing the device address of a mapping through the API changes the stored mapping and
  nothing else: no connector is told, so the connector goes on polling the address it had.\<close>

lemma changed_mapping_not_polled:
  assumes "put_mapping env i b (d, r) = Some (rs, d', r')" "rs_status rs = 200"
    and "body_field b ''deviceAddress'' = JStr a"
  shows "r' = r \<and> map_option map_deviceAddress (find_row i (db_tables d')) = Some a"
proof -
  from assms obtain rq where rq: "update_mapping_request_of b = Some rq"
    "finish env mapping_status True r (\<lambda>m d1. (respond 200 (mapping_row_json m), d1, r)) (updateMapping i rq d)
      = (rs, d', r')"
    by (auto simp: put_mapping_def split: if_splits)
  have bad: "rs_status (thrown_response e' e) \<noteq> 200" "rs_status (domain_response (mapping_status c) x) \<noteq> 200"
    for e' e c x
    by (simp_all add: thrown_response_def mapping_status_def)
  from rq(2) assms(2) bad obtain m where m: "updateMapping i rq d = (Inr (Inr m), d')" "r' = r"
    by (auto simp: finish_def split: prod.splits sum.splits)
  from mapping_updated [OF m(1)] obtain old where "find_row i (db_tables d') = Some m" "m = set_mapping rq old"
    by blast
  moreover have "um_deviceAddress rq = Some a"
    using rq(1) assms(3)
    by (auto simp: update_mapping_request_of_def bind_eq_Some_conv optional_text_def)
  ultimately show ?thesis using m(2) by (simp add: set_mapping_def upd_def)
qed

definition mapped_plant :: database where
  "mapped_plant = (open_database None)\<lparr>db_tables := fresh_tables\<lparr>t_version := 5,
     t_connections := [demo_config], t_mappings := [demo_mapping\<lparr>map_nodeId := None\<rparr>]\<rparr>\<rparr>"

lemma changed_mapping_not_polled_witness:
  "\<exists>rs d'. put_mapping connector_demo ''m1'' (JObj [(''deviceAddress'', JStr ''DB2,INT0'')])
       (mapped_plant, loaded_registry) = Some (rs, d', loaded_registry)
     \<and> map_option map_deviceAddress (find_row ''m1'' (db_tables d')) = Some ''DB2,INT0''"
proof -
  let ?b = "JObj [(''deviceAddress'', JStr ''DB2,INT0'')]"
  have "case put_mapping connector_demo ''m1'' ?b (mapped_plant, new_registry) of
      Some (rs, _) \<Rightarrow> rs_status rs = 200 | None \<Rightarrow> False" by code_simp
  moreover have "map_option fst (put_mapping connector_demo ''m1'' ?b (mapped_plant, loaded_registry))
      = map_option fst (put_mapping connector_demo ''m1'' ?b (mapped_plant, new_registry))"
    by (cases "updateMapping ''m1'' (the (update_mapping_request_of ?b)) mapped_plant";
        cases "update_mapping_request_of ?b")
      (auto simp: put_mapping_def finish_def getprop_def split: sum.split)
  ultimately obtain rs d' r' where put: "put_mapping connector_demo ''m1'' ?b (mapped_plant, loaded_registry)
      = Some (rs, d', r')" "rs_status rs = 200"
    by (cases "put_mapping connector_demo ''m1'' ?b (mapped_plant, loaded_registry)";
        cases "put_mapping connector_demo ''m1'' ?b (mapped_plant, new_registry)") auto
  from changed_mapping_not_polled [OF put] put show ?thesis by (simp add: getprop_def)
qed

end
