(* ===== verification/CertValidation.thy ===== *)
theory CertValidation
  imports Regex
begin

text \<open>
  \<open>src/cert-generator/validation.ts\<close>: the checks on a request for a certificate. The request is
  the JSON the client sent, whatever its fields hold; calling \<open>trim\<close> on what is not a string
  throws, and \<open>Inl\<close> names the expression that was called.
\<close>

section \<open>Addresses\<close>

definition octet_ok :: "string \<Rightarrow> bool" where
  "octet_ok part \<longleftrightarrow>
     rx_test (upto_times 3 (Cls is_digit)) part
     \<and> (case parseInt10 part of None \<Rightarrow> False
        | Some num \<Rightarrow> num \<ge> 0 \<and> num \<le> 255 \<and> show_int num = part)"

definition isValidIpv4 :: "string \<Rightarrow> bool" where
  "isValidIpv4 ip =
     (let parts = split_on CHR ''.'' ip
      in if length parts \<noteq> 4 then False else list_all octet_ok parts)"

definition is_hex :: "char \<Rightarrow> bool" where
  "is_hex c \<longleftrightarrow> is_digit c \<or> (97 \<le> char_code c \<and> char_code c \<le> 102)
     \<or> (65 \<le> char_code c \<and> char_code c \<le> 70)"

definition hex_group :: "string \<Rightarrow> bool" where
  "hex_group part = rx_test (upto_times 4 (Cls is_hex)) part"

text \<open>\<open>ip.split("::")\<close>; it has one part more than \<open>ip.match(/::/g)\<close> has matches.\<close>

fun split_double :: "string \<Rightarrow> string list" where
  "split_double [] = [[]]"
| "split_double [c] = [[c]]"
| "split_double (c # d # s) =
     (if c = CHR '':'' \<and> d = CHR '':'' then [] # split_double s
      else (case split_double (d # s) of [] \<Rightarrow> [[c]] | p # ps \<Rightarrow> (c # p) # ps))"

definition groups_of :: "string \<Rightarrow> string list" where
  "groups_of s = (if s = [] then [] else split_on CHR '':'' s)"

definition isValidIpv6 :: "string \<Rightarrow> bool" where
  "isValidIpv6 ip =
     (if length ip = 0 then False
      else if List.member ip CHR ''%'' then False
      else let doubleColonCount = length (split_double ip) - 1 in
        if doubleColonCount > 1 then False
        else if doubleColonCount = 1 then
          (let leftParts = groups_of (split_double ip ! 0);
               rightParts = groups_of (split_double ip ! 1);
               totalParts = length leftParts + length rightParts
           in if totalParts > 7 then False else list_all hex_group (leftParts @ rightParts))
        else
          (let parts = split_on CHR '':'' ip
           in if length parts \<noteq> 8 then False else list_all hex_group parts))"

definition validateIpAddress :: "string \<Rightarrow> bool" where
  "validateIpAddress ip =
     (let trimmed = trim ip
      in if length trimmed = 0 then False else isValidIpv4 trimmed \<or> isValidIpv6 trimmed)"

section \<open>Names\<close>

definition host_char :: "char \<Rightarrow> bool" where
  "host_char c \<longleftrightarrow> is_digit c \<or> (97 \<le> char_code c \<and> char_code c \<le> 122)
     \<or> (65 \<le> char_code c \<and> char_code c \<le> 90) \<or> c = CHR ''.'' \<or> c = CHR ''-''"

definition validateDnsName :: "string \<Rightarrow> bool" where
  "validateDnsName dns =
     (let trimmed = trim dns
      in if length trimmed = 0 then False
         else if length trimmed > 253 then False
         else rx_test (Plus (Cls host_char)) trimmed)"

definition upper_letter :: "char \<Rightarrow> bool" where
  "upper_letter c \<longleftrightarrow> 65 \<le> char_code c \<and> char_code c \<le> 90"

definition validateCountryCode :: "string \<Rightarrow> bool" where
  "validateCountryCode code =
     rx_test (Seq (Cls upper_letter) (Cls upper_letter)) (trim code)"

definition validateCommonName :: "string \<Rightarrow> bool" where
  "validateCommonName cn = (let trimmed = trim cn in length trimmed \<ge> 1 \<and> length trimmed \<le> 64)"

definition validateOrganization :: "string \<Rightarrow> bool" where
  "validateOrganization org = (let trimmed = trim org in length trimmed \<ge> 1 \<and> length trimmed \<le> 64)"

section \<open>The request\<close>

record generate_request =
  gr_commonName :: jsval
  gr_organization :: jsval
  gr_country :: jsval
  gr_dnsNames :: jsval
  gr_ipAddresses :: jsval

text \<open>A field and a message; \<open>ValidationError\<close> of the source.\<close>

type_synonym field_error = "string \<times> string"

text \<open>The check of one optional text: absent, blank and accepted texts give no error.\<close>

definition check_text ::
  "string \<Rightarrow> (string \<Rightarrow> bool) \<Rightarrow> string \<Rightarrow> jsval \<Rightarrow> string + field_error list" where
  "check_text field ok message v =
     (if v \<noteq> JUndefined \<and> v \<noteq> JNull then
        (case v of
           JStr s \<Rightarrow>
             (let trimmed = trim s
              in Inr (if length trimmed > 0 \<and> \<not> ok trimmed then [(field, message)] else []))
         | _ \<Rightarrow> Inl (''body.'' @ field @ ''.trim''))
      else Inr [])"

text \<open>The check of a list: what is not an array, and elements that are not strings, are passed over.\<close>

definition check_list ::
  "string \<Rightarrow> (string \<Rightarrow> bool) \<Rightarrow> (nat \<Rightarrow> string) \<Rightarrow> jsval \<Rightarrow> field_error list" where
  "check_list field ok message v =
     (case v of
        JArr xs \<Rightarrow>
          concat (map (\<lambda>(i, x). case x of
              JStr s \<Rightarrow> (let trimmed = trim s in if \<not> ok trimmed then [(field, message i)] else [])
            | _ \<Rightarrow> []) (enumerate 0 xs))
      | _ \<Rightarrow> [])"

definition dns_message :: "nat \<Rightarrow> string" where
  "dns_message i = ''Invalid DNS name at index '' @ show_nat i
     @ '': must contain only [a-zA-Z0-9.-] and be 1-253 characters''"

definition ip_message :: "nat \<Rightarrow> string" where
  "ip_message i = ''Invalid IP address at index '' @ show_nat i
     @ '': must be a valid IPv4 or IPv6 address''"

definition validateGenerateRequest :: "generate_request \<Rightarrow> string + field_error list" where
  "validateGenerateRequest body =
     (case check_text ''commonName'' validateCommonName ''Common name must be 1-64 characters''
             (gr_commonName body) of
        Inl t \<Rightarrow> Inl t
      | Inr e1 \<Rightarrow>
     (case check_text ''organization'' validateOrganization ''Organization must be 1-64 characters''
             (gr_organization body) of
        Inl t \<Rightarrow> Inl t
      | Inr e2 \<Rightarrow>
     (case check_text ''country'' validateCountryCode
             ''Country must be exactly 2 uppercase ASCII letters (A-Z)'' (gr_country body) of
        Inl t \<Rightarrow> Inl t
      | Inr e3 \<Rightarrow>
          Inr (e1 @ e2 @ e3
            @ check_list ''dnsNames'' validateDnsName dns_message (gr_dnsNames body)
            @ check_list ''ipAddresses'' validateIpAddress ip_message (gr_ipAddresses body)))))"

section \<open>Dotted decimals\<close>

lemma dec_val_bound:
  assumes "\<forall>c \<in> set s. is_digit c"
  shows "dec_val s < 10 ^ length s"
  using assms
proof (induction s rule: rev_induct)
  case (snoc c s)
  then have "dec_val s < 10 ^ length s" "digit_val c < 10" by simp_all
  then show ?case by simp
qed (simp add: dec_val_def)

lemma show_nat_length: "n < 1000 \<Longrightarrow> length (show_nat n) \<le> 3"
  by (simp add: show_nat.simps [of n] show_nat.simps [of "n div 10"]
      show_nat.simps [of "n div 100"] div_mult2_eq [of n 10 10, simplified, symmetric])

lemma octet_ok_iff: "octet_ok part \<longleftrightarrow> (\<exists>n \<le> 255. part = show_nat n)"
proof
  assume *: "octet_ok part"
  then have "part \<noteq> []" "\<forall>c \<in> set part. is_digit c"
    by (auto simp: octet_ok_def rx_test_upto_times_Cls)
  then have "parseInt10 part = Some (int (dec_val part))" by (rule parseInt10_digits)
  with * have "dec_val part \<le> 255" "part = show_nat (dec_val part)"
    by (auto simp: octet_ok_def show_int_def)
  then show "\<exists>n \<le> 255. part = show_nat n" by blast
next
  assume "\<exists>n \<le> 255. part = show_nat n"
  then obtain n where n: "n \<le> 255" "part = show_nat n" by blast
  have "1 \<le> length (show_nat n)" by (cases "show_nat n") simp_all
  with n show "octet_ok part"
    using show_nat_length [of n] show_nat_digits [of _ n]
    by (auto simp: octet_ok_def rx_test_upto_times_Cls parseInt10_show_nat show_int_def)
qed

lemma four_parts: "length ps = 4 \<longleftrightarrow> (\<exists>a b c d. ps = [a, b, c, d])"
  by (auto simp: numeral_eq_Suc length_Suc_conv)

lemma show_nat_no_dot: "CHR ''.'' \<notin> set (show_nat n)"
proof
  assume "CHR ''.'' \<in> set (show_nat n)"
  then have "is_digit CHR ''.''" by (rule show_nat_digits)
  then show False by (simp add: is_digit_def)
qed

text \<open>The check of an IPv4 address accepts exactly the dotted decimals of four numbers up to
  255, as they are printed: no sign, no leading zero, no fifth part.\<close>

lemma isValidIpv4_iff:
  "isValidIpv4 ip \<longleftrightarrow>
     (\<exists>a b c d. a \<le> 255 \<and> b \<le> 255 \<and> c \<le> 255 \<and> d \<le> 255
        \<and> ip = join ''.'' (map show_nat [a, b, c, d]))"
proof
  assume v: "isValidIpv4 ip"
  then have "length (split_on CHR ''.'' ip) = 4" and ok: "list_all octet_ok (split_on CHR ''.'' ip)"
    by (auto simp: isValidIpv4_def Let_def split: if_splits)
  then obtain p q r s where parts: "split_on CHR ''.'' ip = [p, q, r, s]"
    unfolding four_parts by (elim exE)
  from ok obtain a b c d where "a \<le> 255" "b \<le> 255" "c \<le> 255" "d \<le> 255"
    "p = show_nat a" "q = show_nat b" "r = show_nat c" "s = show_nat d"
    unfolding parts by (auto simp: octet_ok_iff)
  moreover have "ip = join ''.'' [p, q, r, s]"
    using join_split [of "CHR ''.''" ip] unfolding parts by simp
  ultimately show "\<exists>a b c d. a \<le> 255 \<and> b \<le> 255 \<and> c \<le> 255 \<and> d \<le> 255
      \<and> ip = join ''.'' (map show_nat [a, b, c, d])"
    by auto
next
  assume "\<exists>a b c d. a \<le> 255 \<and> b \<le> 255 \<and> c \<le> 255 \<and> d \<le> 255
      \<and> ip = join ''.'' (map show_nat [a, b, c, d])"
  then obtain a b c d where n: "a \<le> 255" "b \<le> 255" "c \<le> 255" "d \<le> 255"
    and ip: "ip = join ''.'' (map show_nat [a, b, c, d])" by blast
  have "split_on CHR ''.'' ip = map show_nat [a, b, c, d]"
    unfolding ip by (rule split_join) (use show_nat_no_dot in auto)
  then show "isValidIpv4 ip"
    using n by (simp add: isValidIpv4_def octet_ok_iff del: join.simps)
qed

section \<open>What a request that passes holds\<close>

lemma dropWhile_fixed: "xs = [] \<or> \<not> P (hd xs) \<Longrightarrow> dropWhile P xs = xs"
  by (cases xs) auto

lemma trim_trim [simp]: "trim (trim s) = trim s"
proof -
  let ?t = "dropWhile js_ws s" and ?u = "rev (dropWhile js_ws (rev (dropWhile js_ws s)))"
  have "dropWhile js_ws ?u = ?u"
  proof (rule dropWhile_fixed, rule disjCI)
    assume "\<not> \<not> js_ws (hd ?u)"
    show "?u = []"
    proof (rule ccontr)
      assume u: "?u \<noteq> []"
      have p: "prefix ?u ?t"
        using suffix_dropWhile [of js_ws "rev ?t"] by (simp add: suffix_to_prefix)
      with u have "?t \<noteq> []" by (metis prefix_Nil)
      then have "\<not> js_ws (hd ?t)" by (rule hd_dropWhile)
      moreover have "hd ?t = hd ?u" using p u by (metis hd_append2 prefix_def)
      ultimately show False using \<open>\<not> \<not> js_ws (hd ?u)\<close> by simp
    qed
  qed
  moreover have "dropWhile js_ws (dropWhile js_ws t) = dropWhile js_ws t" for t
    by (rule dropWhile_fixed) (metis hd_dropWhile)
  ultimately show ?thesis unfolding trim_def by (simp only: rev_rev_ident)
qed

lemma validate_trim [simp]:
  "validateDnsName (trim s) = validateDnsName s" "validateIpAddress (trim s) = validateIpAddress s"
  by (simp_all add: validateDnsName_def validateIpAddress_def)

lemma check_list_Nil:
  assumes "\<And>s. ok (trim s) = ok s" "check_list field ok message (JArr xs) = []"
    "JStr s \<in> set xs"
  shows "ok s"
proof -
  from assms(3) obtain i where i: "(i, JStr s) \<in> set (enumerate 0 xs)"
    by (metis add_0 fst_conv in_set_conv_nth in_set_enumerate_eq length_enumerate le0 nth_enumerate_eq
        snd_conv)
  show "ok s"
  proof (rule ccontr)
    assume "\<not> ok s"
    with i have "(field, message i) \<in> set (check_list field ok message (JArr xs))"
      using assms(1) by (fastforce simp: check_list_def)
    with assms(2) show False by simp
  qed
qed

text \<open>The three checks of texts, and the texts themselves.\<close>

definition text_passes :: "(string \<Rightarrow> bool) \<Rightarrow> jsval \<Rightarrow> bool" where
  "text_passes ok v \<longleftrightarrow> nullish v \<or> (\<exists>s. v = JStr s \<and> (trim s = [] \<or> ok s))"

lemma check_text_Nil:
  assumes "\<And>s. ok (trim s) = ok s" "check_text field ok message v = Inr []"
  shows "text_passes ok v"
  using assms by (auto simp: check_text_def text_passes_def nullish_def Let_def
      split: if_splits jsval.splits)

lemma validated_request:
  assumes "validateGenerateRequest body = Inr []"
  shows "text_passes validateCommonName (gr_commonName body)"
    "text_passes validateOrganization (gr_organization body)"
    "text_passes validateCountryCode (gr_country body)"
    "\<lbrakk>gr_dnsNames body = JArr xs; JStr s \<in> set xs\<rbrakk> \<Longrightarrow> validateDnsName s"
    "\<lbrakk>gr_ipAddresses body = JArr xs; JStr s \<in> set xs\<rbrakk> \<Longrightarrow> validateIpAddress s"
proof -
  have parts: "check_text ''commonName'' validateCommonName ''Common name must be 1-64 characters''
      (gr_commonName body) = Inr []"
    "check_text ''organization'' validateOrganization ''Organization must be 1-64 characters''
      (gr_organization body) = Inr []"
    "check_text ''country'' validateCountryCode
      ''Country must be exactly 2 uppercase ASCII letters (A-Z)'' (gr_country body) = Inr []"
    using assms unfolding validateGenerateRequest_def by (simp_all split: sum.splits)
  show "text_passes validateCommonName (gr_commonName body)"
    by (rule check_text_Nil [OF _ parts(1)]) (simp add: validateCommonName_def)
  show "text_passes validateOrganization (gr_organization body)"
    by (rule check_text_Nil [OF _ parts(2)]) (simp add: validateOrganization_def)
  show "text_passes validateCountryCode (gr_country body)"
    by (rule check_text_Nil [OF _ parts(3)]) (simp add: validateCountryCode_def)
  have lists: "check_list ''dnsNames'' validateDnsName dns_message (gr_dnsNames body) = []"
    "check_list ''ipAddresses'' validateIpAddress ip_message (gr_ipAddresses body) = []"
    using assms unfolding validateGenerateRequest_def by (simp_all split: sum.splits)
  show "\<lbrakk>gr_dnsNames body = JArr xs; JStr s \<in> set xs\<rbrakk> \<Longrightarrow> validateDnsName s"
    using lists(1) by (auto intro: check_list_Nil [where ok = validateDnsName])
  show "\<lbrakk>gr_ipAddresses body = JArr xs; JStr s \<in> set xs\<rbrakk> \<Longrightarrow> validateIpAddress s"
    using lists(2) by (auto intro: check_list_Nil [where ok = validateIpAddress])
qed

text \<open>An address with its last 32 bits in dotted decimals is not accepted.\<close>

lemma mixed_notation_refused: "\<not> validateIpAddress ''::ffff:192.0.2.1''"
  by code_simp

lemma compressed_accepted: "validateIpAddress '' fe80::1 '' \<and> validateIpAddress ''::''
    \<and> \<not> validateIpAddress ''1:::2'' \<and> \<not> validateIpAddress ''1.2.3.04''"
  by code_simp

end
