(* ===== verification/Network.thy ===== *)
theory Network
  imports CertValidation
begin

text \<open>
  The addresses of the host: \<open>src/utils/network.ts\<close> and the functions of the same purpose in
  \<open>src/cert-generator/index.ts\<close> and \<open>src/api/routes/security.ts\<close>. What the operating system
  answers is an argument: the interfaces in its order, each with its addresses or none.
\<close>

record net_address =
  na_address :: string
  na_family :: string
  na_internal :: bool

type_synonym interfaces = "(string \<times> net_address list option) list"

text \<open>The pass over all addresses of all interfaces that three functions make.\<close>

definition external_ipv4 :: "interfaces \<Rightarrow> string list" where
  "external_ipv4 ifs =
     map na_address (filter (\<lambda>n. na_family n = ''IPv4'' \<and> \<not> na_internal n)
       (concat (map (\<lambda>(_, nets). case nets of None \<Rightarrow> [] | Some ns \<Rightarrow> ns) ifs)))"

definition loopback :: string where
  "loopback = ''127.0.0.1''"

definition detectPrimaryIp :: "interfaces \<Rightarrow> string" where
  "detectPrimaryIp ifs = (case external_ipv4 ifs of [] \<Rightarrow> loopback | a # _ \<Rightarrow> a)"

definition detectLocalIpAddresses :: "interfaces \<Rightarrow> string list" where
  "detectLocalIpAddresses ifs = external_ipv4 ifs"

section \<open>Sets that keep the order of insertion\<close>

definition set_add :: "'a \<Rightarrow> 'a list \<Rightarrow> 'a list" where
  "set_add x xs = (if List.member xs x then xs else xs @ [x])"

definition js_set :: "'a list \<Rightarrow> 'a list" where
  "js_set xs = foldl (\<lambda>s x. set_add x s) [] xs"

lemma set_add_simps [simp]:
  "set (set_add x xs) = insert x (set xs)" "distinct (set_add x xs) = distinct xs"
  by (auto simp: set_add_def)

lemma foldl_set_add:
  "set (foldl (\<lambda>s x. set_add x s) ys xs) = set ys \<union> set xs"
  "distinct (foldl (\<lambda>s x. set_add x s) ys xs) = distinct ys"
  by (induction xs arbitrary: ys) auto

lemma js_set_simps [simp]: "set (js_set xs) = set xs" "distinct (js_set xs)"
  by (simp_all add: js_set_def foldl_set_add)

section \<open>What the generator is given when the client names no hosts\<close>

definition getLocalIpAddresses :: "interfaces \<Rightarrow> string list" where
  "getLocalIpAddresses ifs = js_set (loopback # external_ipv4 ifs)"

definition looksLikeIpv4 :: "string \<Rightarrow> bool" where
  "looksLikeIpv4 v =
     (let parts = split_on CHR ''.'' v
      in if length parts \<noteq> 4 then False
         else list_all (\<lambda>p. rx_test (upto_times 3 (Cls is_digit)) p \<and> dec_val p \<le> 255) parts)"

text \<open>\<open>s.split(/[...]+/)\<close> for a class of characters.\<close>

function split_runs :: "(char \<Rightarrow> bool) \<Rightarrow> string \<Rightarrow> string list" where
  "split_runs sep s =
     (let p = takeWhile (\<lambda>c. \<not> sep c) s; r = dropWhile (\<lambda>c. \<not> sep c) s
      in if r = [] then [p] else p # split_runs sep (dropWhile sep r))"
  by auto
termination
proof (relation "measure (\<lambda>(sep, s). length s)")
  fix sep :: "char \<Rightarrow> bool" and s p r
  assume p: "p = takeWhile (\<lambda>c. \<not> sep c) s" and r: "r = dropWhile (\<lambda>c. \<not> sep c) s" "r \<noteq> []"
  then have "sep (hd r)" using hd_dropWhile [of "\<lambda>c. \<not> sep c" s] by simp
  with r(2) have "length (dropWhile sep r) < length r"
    by (cases r) (auto simp: le_imp_less_Suc length_dropWhile_le)
  also have "length r \<le> length s" using r(1) by (simp add: length_dropWhile_le)
  finally show "((sep, dropWhile sep r), (sep, s)) \<in> measure (\<lambda>(sep, s). length s)" by simp
qed simp

declare split_runs.simps [simp del]

record hosts =
  ho_ipAddresses :: "string list"
  ho_dnsNames :: "string list"

definition extra_hosts :: "string option \<Rightarrow> string list" where
  "extra_hosts extra =
     (case extra of
        None \<Rightarrow> []
      | Some s \<Rightarrow>
          if s \<noteq> [] \<and> length (trim s) > 0 then
            filter (\<lambda>t. length t > 0) (map trim (split_runs (\<lambda>c. c = CHR '','' \<or> js_ws c) s))
          else [])"

definition add_host :: "hosts \<Rightarrow> string \<Rightarrow> hosts" where
  "add_host h token =
     (if looksLikeIpv4 token then h\<lparr>ho_ipAddresses := set_add token (ho_ipAddresses h)\<rparr>
      else h\<lparr>ho_dnsNames := set_add token (ho_dnsNames h)\<rparr>)"

definition getAutoFillHosts :: "interfaces \<Rightarrow> string option \<Rightarrow> hosts" where
  "getAutoFillHosts ifs extra =
     foldl add_host
       \<lparr>ho_ipAddresses = getLocalIpAddresses ifs, ho_dnsNames = [''localhost'']\<rparr>
       (extra_hosts extra)"

section \<open>Lemmas\<close>

lemma isValidIpv4_looks: "isValidIpv4 v \<Longrightarrow> looksLikeIpv4 v"
proof -
  have *: "octet_ok p \<Longrightarrow> rx_test (upto_times 3 (Cls is_digit)) p \<and> dec_val p \<le> 255" for p
  proof -
    assume ok: "octet_ok p"
    then obtain n where "n \<le> 255" "p = show_nat n" by (auto simp: octet_ok_iff)
    with ok show ?thesis by (simp add: octet_ok_def)
  qed
  assume "isValidIpv4 v"
  then have "length (split_on CHR ''.'' v) = 4" "list_all octet_ok (split_on CHR ''.'' v)"
    by (auto simp: isValidIpv4_def Let_def split: if_splits)
  then show "looksLikeIpv4 v"
    using * by (simp add: looksLikeIpv4_def list_all_iff)
qed

text \<open>The guess is coarser than the check: it takes a leading zero.\<close>

lemma looks_not_valid: "looksLikeIpv4 ''192.168.001.5'' \<and> \<not> isValidIpv4 ''192.168.001.5''"
  by code_simp

lemma add_hosts:
  "set (ho_ipAddresses (foldl add_host h ts)) = set (ho_ipAddresses h) \<union> {t \<in> set ts. looksLikeIpv4 t}"
  "set (ho_dnsNames (foldl add_host h ts)) = set (ho_dnsNames h) \<union> {t \<in> set ts. \<not> looksLikeIpv4 t}"
  by (induction ts arbitrary: h) (auto simp: add_host_def)

lemma auto_fill:
  "set (ho_ipAddresses (getAutoFillHosts ifs extra))
     = insert loopback (set (external_ipv4 ifs)) \<union> {t \<in> set (extra_hosts extra). looksLikeIpv4 t}"
  "set (ho_dnsNames (getAutoFillHosts ifs extra))
     = insert ''localhost'' {t \<in> set (extra_hosts extra). \<not> looksLikeIpv4 t}"
  by (auto simp: getAutoFillHosts_def add_hosts getLocalIpAddresses_def)

text \<open>Every host of the variable ends up in one of the two lists.\<close>

lemma extra_hosts_kept:
  "t \<in> set (extra_hosts extra) \<Longrightarrow>
     t \<in> set (ho_ipAddresses (getAutoFillHosts ifs extra)) \<union> set (ho_dnsNames (getAutoFillHosts ifs extra))"
  by (auto simp: auto_fill)

lemma extra_hosts_example:
  "extra_hosts (Some ''192.168.1.50, plc.local'') = [''192.168.1.50'', ''plc.local'']"
  by code_simp

end
