(* ===== verification/CertGenerator.thy ===== *)
theory CertGenerator
  imports Network CertUtils
begin

text \<open>
  \<open>src/cert-generator/index.ts\<close>: a key pair and a self-signed certificate, written to two files.
  What \<open>node-forge\<close> makes of the fields (key pair, signature, encodings, random bytes) is a
  parameter; the file system is a map from paths to files with their permission bits, on which a
  write fails for the reasons the environment gives or because the file is not writable.
\<close>

section \<open>Files\<close>

record disk_file =
  f_data :: buffer
  f_mode :: nat

type_synonym files = "string \<Rightarrow> disk_file option"

datatype file_op = MakeDirOf string | OpenWrite string | Chmod string | Unlink string | ReadFile string

text \<open>
  The process and what the operating system refuses it: \<open>os_fault\<close> an operation as a whole
  (\<open>MakeDirOf\<close> making the directories above a path),
  \<open>os_cut\<close> a write that had begun, with what is in the file then.
\<close>

record os_env =
  os_win32 :: bool
  os_superuser :: bool
  os_fault :: "file_op \<Rightarrow> string option"
  os_cut :: "string \<Rightarrow> (buffer \<times> string) option"

text \<open>\<open>0o644\<close> and \<open>0o400\<close>; the owner may write if bit 7 is set.\<close>

definition default_mode :: nat where
  "default_mode = 420"

definition key_mode :: nat where
  "key_mode = 256"

definition owner_writes :: "nat \<Rightarrow> bool" where
  "owner_writes m \<longleftrightarrow> odd (m div 128)"

definition no_permission :: "string \<Rightarrow> string" where
  "no_permission path = ''EACCES: permission denied, open '' @ quoted path"

definition written :: "buffer \<Rightarrow> disk_file option \<Rightarrow> disk_file" where
  "written bs old = \<lparr>f_data = bs, f_mode = (case old of None \<Rightarrow> default_mode | Some f \<Rightarrow> f_mode f)\<rparr>"

definition writeFileSync :: "os_env \<Rightarrow> string \<Rightarrow> buffer \<Rightarrow> files \<Rightarrow> string option \<times> files" where
  "writeFileSync os path bs fs =
     (case os_fault os (OpenWrite path) of
        Some m \<Rightarrow> (Some m, fs)
      | None \<Rightarrow>
          if \<not> os_superuser os \<and> (\<exists>f. fs path = Some f \<and> \<not> owner_writes (f_mode f))
          then (Some (no_permission path), fs)
          else (case os_cut os path of
                  Some (part, m) \<Rightarrow> (Some m, fs(path \<mapsto> written part (fs path)))
                | None \<Rightarrow> (None, fs(path \<mapsto> written bs (fs path)))))"

definition chmodSync :: "os_env \<Rightarrow> string \<Rightarrow> nat \<Rightarrow> files \<Rightarrow> string option \<times> files" where
  "chmodSync os path mode fs =
     (case os_fault os (Chmod path) of
        Some m \<Rightarrow> (Some m, fs)
      | None \<Rightarrow> (None, fs(path := map_option (\<lambda>f. f\<lparr>f_mode := mode\<rparr>) (fs path))))"

definition unlinkSync :: "os_env \<Rightarrow> string \<Rightarrow> files \<Rightarrow> string option \<times> files" where
  "unlinkSync os path fs =
     (case os_fault os (Unlink path) of Some m \<Rightarrow> (Some m, fs) | None \<Rightarrow> (None, fs(path := None)))"

definition readFileSync :: "os_env \<Rightarrow> string \<Rightarrow> files \<Rightarrow> string + buffer" where
  "readFileSync os path fs =
     (case os_fault os (ReadFile path) of
        Some m \<Rightarrow> Inl m
      | None \<Rightarrow> (case fs path of None \<Rightarrow> Inl (''ENOENT: no such file or directory, open '' @ quoted path)
                | Some f \<Rightarrow> Inr (f_data f)))"

section \<open>Certificates\<close>

datatype alt_name = AltUri string | AltDns string | AltIp string

record certificate =
  ct_serial :: string
  ct_notBefore :: int
  ct_notAfter :: int
  ct_subject :: "(string \<times> string) list"
  ct_issuer :: "(string \<times> string) list"
  ct_altNames :: "alt_name list"
  ct_keyUsage :: "string list"
  ct_extKeyUsage :: "string list"
  ct_cA :: bool

text \<open>
  What the library gives in one call: the key pair as PEM, random bytes, and the encoding of the
  signed certificate, or the message it throws.
\<close>

record forge =
  fg_key :: "string + buffer"
  fg_random :: "nat \<Rightarrow> buffer"
  fg_der :: "certificate \<Rightarrow> string + buffer"
  fg_parse :: "buffer \<Rightarrow> (int \<times> int) option"

section \<open>Serial numbers\<close>

text \<open>\<open>8 + Math.floor(Math.random() * 13)\<close>, for a random number in \<open>[0, 1)\<close>.\<close>

definition serial_length :: "rat \<Rightarrow> nat" where
  "serial_length r = 8 + nat \<lfloor>r * (20 - 8 + 1)\<rfloor>"

definition hex_char :: "nat \<Rightarrow> char" where
  "hex_char n = (if n < 10 then digit_char n else char_of (87 + n))"

text \<open>\<open>b.toString(16).padStart(2, '0')\<close>\<close>

definition hex_byte :: "8 word \<Rightarrow> string" where
  "hex_byte b = [hex_char (unat b div 16), hex_char (unat b mod 16)]"

definition positive_bytes :: "buffer \<Rightarrow> buffer" where
  "positive_bytes bs =
     (let b = and (bs ! 0) 0x7f; bs1 = bs[0 := b] in if b = 0 then bs1[0 := 1] else bs1)"

definition generateSerialNumber :: "forge \<Rightarrow> rat \<Rightarrow> string" where
  "generateSerialNumber fg r =
     concat (map hex_byte (positive_bytes (fg_random fg (serial_length r))))"

section \<open>Options\<close>

record cert_options =
  co_applicationUri :: "string option"
  co_validityDays :: "int option"
  co_dnsNames :: jsval
  co_ipAddresses :: jsval
  co_organization :: jsval
  co_country :: jsval
  co_commonName :: jsval

record cert_result =
  cr_certificatePath :: string
  cr_privateKeyPath :: string
  cr_expiresAt :: string
  cr_createdAt :: string

text \<open>What is thrown: a call on a value of the wrong type, failed checks, or another message.\<close>

datatype cert_error = BadCall string | Invalid string | Threw string

definition DEFAULT_APPLICATION_URI :: string where
  "DEFAULT_APPLICATION_URI = ''urn:opcua-light-server:application''"

definition DEFAULT_VALIDITY_DAYS :: int where
  "DEFAULT_VALIDITY_DAYS = 1825"

definition DEFAULT_COMMON_NAME :: string where
  "DEFAULT_COMMON_NAME = ''OPC UA Light Server''"

definition options_request :: "cert_options \<Rightarrow> generate_request" where
  "options_request o' =
     \<lparr>gr_commonName = co_commonName o', gr_organization = co_organization o',
      gr_country = co_country o', gr_dnsNames = co_dnsNames o', gr_ipAddresses = co_ipAddresses o'\<rparr>"

text \<open>\<open>v?.trim()\<close>, and \<open>(v ?? []).map((d) => d.trim()).filter((d) => d.length > 0)\<close>.\<close>

definition trimmed_text :: "string \<Rightarrow> jsval \<Rightarrow> cert_error + string option" where
  "trimmed_text name v =
     (if nullish v then Inr None
      else case v of JStr s \<Rightarrow> Inr (Some (trim s)) | _ \<Rightarrow> Inl (BadCall (name @ ''.trim'')))"

fun trimmed_all :: "jsval list \<Rightarrow> string list option" where
  "trimmed_all [] = Some []"
| "trimmed_all (JStr s # vs) = map_option (\<lambda>ts. trim s # ts) (trimmed_all vs)"
| "trimmed_all (_ # vs) = None"

definition trimmed_list :: "string \<Rightarrow> jsval \<Rightarrow> cert_error + string list" where
  "trimmed_list name v =
     (case nullish_or v (JArr []) of
        JArr vs \<Rightarrow>
          (case trimmed_all vs of
             None \<Rightarrow> Inl (BadCall (name @ ''.trim''))
           | Some ts \<Rightarrow> Inr (filter (\<lambda>t. length t > 0) ts))
      | _ \<Rightarrow> Inl (BadCall (''options.'' @ name @ ''.map'')))"

definition san_ips :: "interfaces \<Rightarrow> string list \<Rightarrow> string list" where
  "san_ips ifs providedIps =
     (if length providedIps > 0 then set_add loopback (js_set providedIps)
      else set_add loopback (js_set (detectLocalIpAddresses ifs)))"

definition failure_text :: "field_error list \<Rightarrow> string" where
  "failure_text es =
     ''Validation failed: '' @ join ''; '' (map (\<lambda>(f, m). f @ '': '' @ m) es)"

text \<open>The clock, the random number and the interfaces at the call.\<close>

record cert_env =
  ce_now :: int
  ce_random :: rat
  ce_interfaces :: interfaces
  ce_iso :: "int \<Rightarrow> string"
  ce_forge :: forge
  ce_os :: os_env

definition subject_of :: "string option \<Rightarrow> string option \<Rightarrow> string option \<Rightarrow> (string \<times> string) list" where
  "subject_of cn org country =
     [(''CN'', if truthy_str cn then the cn else DEFAULT_COMMON_NAME)]
     @ (if truthy_str org then [(''O'', the org)] else [])
     @ (if truthy_str country then [(''C'', the country)] else [])"

definition certificate_of ::
  "cert_env \<Rightarrow> cert_options \<Rightarrow> (string \<times> string) list \<Rightarrow> string list \<Rightarrow> string list \<Rightarrow> certificate" where
  "certificate_of env o' attrs dnsNames sanIps =
     (let applicationUri = (case co_applicationUri o' of None \<Rightarrow> DEFAULT_APPLICATION_URI | Some u \<Rightarrow> u);
          validityDays = (case co_validityDays o' of None \<Rightarrow> DEFAULT_VALIDITY_DAYS | Some n \<Rightarrow> n)
      in \<lparr>ct_serial = generateSerialNumber (ce_forge env) (ce_random env),
          ct_notBefore = ce_now env, ct_notAfter = ce_now env + validityDays * 24 * 60 * 60 * 1000,
          ct_subject = attrs, ct_issuer = attrs,
          ct_altNames = AltUri applicationUri # map AltDns dnsNames @ map AltIp sanIps,
          ct_keyUsage = [''digitalSignature'', ''keyEncipherment'', ''nonRepudiation'', ''dataEncipherment''],
          ct_extKeyUsage = [''serverAuth'', ''clientAuth''], ct_cA = False\<rparr>)"

text \<open>Everything up to the first file operation: the options checked, resolved, encoded.\<close>

definition make_certificate ::
  "cert_env \<Rightarrow> cert_options \<Rightarrow> cert_error + certificate \<times> buffer \<times> buffer" where
  "make_certificate env o' =
     (case validateGenerateRequest (options_request o') of
        Inl call \<Rightarrow> Inl (BadCall call)
      | Inr (e # es) \<Rightarrow> Inl (Invalid (failure_text (e # es)))
      | Inr [] \<Rightarrow>
     (case trimmed_text ''commonName'' (co_commonName o') of Inl e \<Rightarrow> Inl e | Inr cn \<Rightarrow>
     (case trimmed_text ''organization'' (co_organization o') of Inl e \<Rightarrow> Inl e | Inr org \<Rightarrow>
     (case trimmed_text ''country'' (co_country o') of Inl e \<Rightarrow> Inl e | Inr country \<Rightarrow>
     (case trimmed_list ''dnsNames'' (co_dnsNames o') of Inl e \<Rightarrow> Inl e | Inr dnsNames \<Rightarrow>
     (case trimmed_list ''ipAddresses'' (co_ipAddresses o') of Inl e \<Rightarrow> Inl e | Inr providedIps \<Rightarrow>
     (case fg_key (ce_forge env) of Inl m \<Rightarrow> Inl (Threw m) | Inr keyPem \<Rightarrow>
        (let cert = certificate_of env o' (subject_of cn org country) dnsNames
                      (san_ips (ce_interfaces env) providedIps)
         in case fg_der (ce_forge env) cert of
              Inl m \<Rightarrow> Inl (Threw m)
            | Inr der \<Rightarrow> Inr (cert, der, keyPem)))))))))"

text \<open>
  The files: directories, the key and its permissions, the certificate; if the certificate cannot
  be written the key is removed.
\<close>

definition write_pair ::
  "os_env \<Rightarrow> string \<Rightarrow> string \<Rightarrow> buffer \<Rightarrow> buffer \<Rightarrow> files \<Rightarrow> string option \<times> files" where
  "write_pair os certOutputPath keyOutputPath der keyPem fs =
     (case os_fault os (MakeDirOf keyOutputPath) of Some m \<Rightarrow> (Some m, fs) | None \<Rightarrow>
     (case os_fault os (MakeDirOf certOutputPath) of Some m \<Rightarrow> (Some m, fs) | None \<Rightarrow>
     (case writeFileSync os keyOutputPath keyPem fs of
        (Some m, fs1) \<Rightarrow> (Some m, fs1)
      | (None, fs1) \<Rightarrow>
          (let fs2 = (if os_win32 os then fs1 else snd (chmodSync os keyOutputPath key_mode fs1))
           in case writeFileSync os certOutputPath der fs2 of
                (Some m, fs3) \<Rightarrow> (Some m, snd (unlinkSync os keyOutputPath fs3))
              | (None, fs3) \<Rightarrow> (None, fs3)))))"

definition generateCertificate ::
  "cert_env \<Rightarrow> string \<Rightarrow> string \<Rightarrow> cert_options \<Rightarrow> files \<Rightarrow> (cert_error + cert_result) \<times> files" where
  "generateCertificate env certOutputPath keyOutputPath o' fs =
     (case make_certificate env o' of
        Inl e \<Rightarrow> (Inl e, fs)
      | Inr (cert, der, keyPem) \<Rightarrow>
          (case write_pair (ce_os env) certOutputPath keyOutputPath der keyPem fs of
             (Some m, fs1) \<Rightarrow> (Inl (Threw m), fs1)
           | (None, fs1) \<Rightarrow>
               (Inr \<lparr>cr_certificatePath = certOutputPath, cr_privateKeyPath = keyOutputPath,
                     cr_expiresAt = ce_iso env (ct_notAfter cert),
                     cr_createdAt = ce_iso env (ct_notBefore cert)\<rparr>, fs1)))"

section \<open>Expiry\<close>

record cert_expiry =
  cx_expiresAt :: string
  cx_createdAt :: string
  cx_remainingDays :: int

definition readCertificateExpiry :: "cert_env \<Rightarrow> files \<Rightarrow> string \<Rightarrow> cert_expiry option" where
  "readCertificateExpiry env fs certPath =
     (case readFileSync (ce_os env) certPath fs of
        Inl _ \<Rightarrow> None
      | Inr bs \<Rightarrow>
          (case fg_parse (ce_forge env) bs of
             None \<Rightarrow> None
           | Some (createdAt, expiresAt) \<Rightarrow>
               Some \<lparr>cx_expiresAt = ce_iso env expiresAt, cx_createdAt = ce_iso env createdAt,
                     cx_remainingDays = max 0 ((expiresAt - ce_now env) div (24 * 60 * 60 * 1000))\<rparr>))"

section \<open>What the operations on files do\<close>

lemma writeFileSync_other [simp]: "p \<noteq> path \<Longrightarrow> snd (writeFileSync os path bs fs) p = fs p"
  by (auto simp: writeFileSync_def split: option.split prod.split)

lemma chmodSync_other [simp]: "p \<noteq> path \<Longrightarrow> snd (chmodSync os path m fs) p = fs p"
  by (auto simp: chmodSync_def split: option.split)

lemma unlinkSync_other [simp]: "p \<noteq> path \<Longrightarrow> snd (unlinkSync os path fs) p = fs p"
  by (auto simp: unlinkSync_def split: option.split)

lemma writeFileSync_done:
  "writeFileSync os path bs fs = (None, fs') \<Longrightarrow> fs' = fs(path \<mapsto> written bs (fs path))"
  by (auto simp: writeFileSync_def split: option.splits if_splits prod.splits)

lemma writeFileSync_failed:
  "writeFileSync os path bs fs = (Some m, fs') \<Longrightarrow> fs' = fs \<or> os_cut os path \<noteq> None"
  by (auto simp: writeFileSync_def split: option.splits if_splits prod.splits)

lemma chmodSync_data:
  "fs path = Some f \<Longrightarrow> \<exists>m. snd (chmodSync os path mode fs) path = Some (f\<lparr>f_mode := m\<rparr>)
     \<and> (os_fault os (Chmod path) = None \<longrightarrow> m = mode)"
  by (cases "os_fault os (Chmod path)") (auto simp: chmodSync_def intro: exI [of _ "f_mode f"])

definition os_quiet :: "os_env \<Rightarrow> bool" where
  "os_quiet os \<longleftrightarrow> (\<forall>x. os_fault os x = None) \<and> (\<forall>p. os_cut os p = None)"

section \<open>What a generation does\<close>

text \<open>How the writing of the two files can end.\<close>

lemma write_pair_done:
  assumes "write_pair os cp kp der key fs = (None, fs')" "cp \<noteq> kp"
  shows "(\<forall>p. p \<noteq> cp \<and> p \<noteq> kp \<longrightarrow> fs' p = fs p) \<and> (\<exists>f. fs' cp = Some f \<and> f_data f = der)
    \<and> (\<exists>f. fs' kp = Some f \<and> f_data f = key
         \<and> (\<not> os_win32 os \<and> os_fault os (Chmod kp) = None \<longrightarrow> f_mode f = key_mode))"
proof -
  from assms(1) obtain fs1 where k: "writeFileSync os kp key fs = (None, fs1)"
    by (cases "writeFileSync os kp key fs")
      (auto simp: write_pair_def split: option.splits)
  define fs2 where "fs2 = (if os_win32 os then fs1 else snd (chmodSync os kp key_mode fs1))"
  have c: "writeFileSync os cp der fs2 = (None, fs')"
    using assms(1) k by (auto simp: write_pair_def fs2_def Let_def split: option.splits prod.splits)
  have 1: "fs1 = fs(kp \<mapsto> written key (fs kp))" and 3: "fs' = fs2(cp \<mapsto> written der (fs2 cp))"
    using writeFileSync_done [OF k] writeFileSync_done [OF c] by simp_all
  have "\<exists>m. fs2 kp = Some ((written key (fs kp))\<lparr>f_mode := m\<rparr>)
      \<and> (\<not> os_win32 os \<and> os_fault os (Chmod kp) = None \<longrightarrow> m = key_mode)"
    using chmodSync_data [of fs1 kp _ os key_mode]
    by (auto simp: fs2_def 1 intro: exI [of _ "f_mode (written key (fs kp))"])
  moreover have "p \<noteq> kp \<Longrightarrow> fs2 p = fs p" for p
    by (simp add: fs2_def 1)
  ultimately show ?thesis
    using assms(2) by (auto simp: 3 written_def)
qed

lemma write_pair_failed:
  assumes "write_pair os cp kp der key fs = (Some m, fs')" "cp \<noteq> kp"
  shows "(\<forall>p. p \<noteq> cp \<and> p \<noteq> kp \<longrightarrow> fs' p = fs p)
    \<and> (fs' cp = fs cp \<or> os_cut os cp \<noteq> None)
    \<and> (fs' kp = fs kp \<or> fs' kp = None \<or> os_cut os kp \<noteq> None \<or> os_fault os (Unlink kp) \<noteq> None)"
proof (cases "fst (writeFileSync os kp key fs)")
  case (Some m1)
  then obtain fs1 where k: "writeFileSync os kp key fs = (Some m1, fs1)"
    by (cases "writeFileSync os kp key fs") auto
  then have "fs' = fs1 \<or> fs' = fs"
    using assms(1) by (auto simp: write_pair_def split: option.splits)
  moreover have "p \<noteq> kp \<Longrightarrow> fs1 p = fs p" for p
    using writeFileSync_other [of p kp os key fs] k by simp
  ultimately show ?thesis
    using writeFileSync_failed [OF k] assms(2) by auto
next
  case None
  then obtain fs1 where k: "writeFileSync os kp key fs = (None, fs1)"
    by (cases "writeFileSync os kp key fs") auto
  define fs2 where "fs2 = (if os_win32 os then fs1 else snd (chmodSync os kp key_mode fs1))"
  have 2: "p \<noteq> kp \<Longrightarrow> fs2 p = fs p" for p
    using writeFileSync_other [of p kp os key fs] k by (simp add: fs2_def)
  consider "fs' = fs" | m3 fs3 where "writeFileSync os cp der fs2 = (Some m3, fs3)"
      "fs' = snd (unlinkSync os kp fs3)"
    using assms(1) k
    by (auto simp: write_pair_def fs2_def [symmetric] Let_def split: option.splits prod.splits)
  then show ?thesis
  proof cases
    case 2
    have other: "p \<noteq> cp \<Longrightarrow> fs3 p = fs2 p" for p
      using writeFileSync_other [of p cp os der fs2] 2(1) by simp
    have "fs' kp = None \<or> os_fault os (Unlink kp) \<noteq> None"
      by (auto simp: 2(2) unlinkSync_def split: option.split)
    moreover have "fs' cp = fs cp \<or> os_cut os cp \<noteq> None"
      using writeFileSync_failed [OF 2(1)] \<open>\<And>p. p \<noteq> kp \<Longrightarrow> fs2 p = fs p\<close> assms(2)
      by (auto simp: 2(2))
    moreover have "p \<noteq> cp \<and> p \<noteq> kp \<longrightarrow> fs' p = fs p" for p
      using other \<open>\<And>p. p \<noteq> kp \<Longrightarrow> fs2 p = fs p\<close> by (simp add: 2(2))
    ultimately show ?thesis by blast
  qed simp
qed

section \<open>What is in a certificate\<close>

lemma trimmed_all_set:
  "trimmed_all vs = Some ts \<Longrightarrow> t \<in> set ts \<Longrightarrow> \<exists>s. JStr s \<in> set vs \<and> t = trim s"
  by (induction vs arbitrary: ts rule: trimmed_all.induct) (auto; blast)+

lemma trimmed_list_set:
  assumes "trimmed_list name v = Inr ts" "t \<in> set ts"
  shows "\<exists>vs s. v = JArr vs \<and> JStr s \<in> set vs \<and> t = trim s"
proof -
  obtain vs us where vs: "nullish_or v (JArr []) = JArr vs" "trimmed_all vs = Some us"
    "ts = filter (\<lambda>t. length t > 0) us"
    using assms(1) by (auto simp: trimmed_list_def split: jsval.splits option.splits)
  then obtain s where "JStr s \<in> set vs" "t = trim s"
    using assms(2) trimmed_all_set [OF vs(2)] by auto
  moreover from this(1) have "v = JArr vs"
    using vs(1) by (auto simp: nullish_or_def split: if_splits)
  ultimately show ?thesis by blast
qed

lemma make_certificate_parts:
  assumes "make_certificate env o' = Inr (cert, der, key)"
  obtains cn org country dns ips where
    "validateGenerateRequest (options_request o') = Inr []"
    "trimmed_list ''dnsNames'' (co_dnsNames o') = Inr dns"
    "trimmed_list ''ipAddresses'' (co_ipAddresses o') = Inr ips"
    "cert = certificate_of env o' (subject_of cn org country) dns (san_ips (ce_interfaces env) ips)"
    "fg_der (ce_forge env) cert = Inr der" "fg_key (ce_forge env) = Inr key"
  using assms unfolding make_certificate_def Let_def
  by (auto split: sum.splits list.splits)

definition proper_certificate :: "cert_env \<Rightarrow> certificate \<Rightarrow> bool" where
  "proper_certificate env c \<longleftrightarrow>
     ct_subject c = ct_issuer c \<and> ct_notBefore c = ce_now env \<and> \<not> ct_cA c
     \<and> (\<exists>u. AltUri u \<in> set (ct_altNames c)) \<and> AltIp loopback \<in> set (ct_altNames c)
     \<and> (\<forall>d. AltDns d \<in> set (ct_altNames c) \<longrightarrow> validateDnsName d)
     \<and> (\<forall>a. AltIp a \<in> set (ct_altNames c) \<longrightarrow>
          validateIpAddress a \<or> a \<in> set (external_ipv4 (ce_interfaces env)))"

lemma loopback_valid: "validateIpAddress loopback"
  by code_simp

lemma made_certificate_proper:
  assumes "make_certificate env o' = Inr (cert, der, key)"
  shows "proper_certificate env cert"
proof -
  from assms obtain cn org country dns ips where
    valid: "validateGenerateRequest (options_request o') = Inr []" and
    dns: "trimmed_list ''dnsNames'' (co_dnsNames o') = Inr dns" and
    ips: "trimmed_list ''ipAddresses'' (co_ipAddresses o') = Inr ips" and
    cert: "cert = certificate_of env o' (subject_of cn org country) dns (san_ips (ce_interfaces env) ips)"
    by (rule make_certificate_parts)
  have "validateDnsName d" if d: "d \<in> set dns" for d
  proof -
    from trimmed_list_set [OF dns d] obtain vs s where
      "co_dnsNames o' = JArr vs" "JStr s \<in> set vs" "d = trim s" by blast
    then show ?thesis
      using validated_request(4) [OF valid, of vs s] by (simp add: options_request_def)
  qed
  moreover have "validateIpAddress a" if a: "a \<in> set ips" for a
  proof -
    from trimmed_list_set [OF ips a] obtain vs s where
      "co_ipAddresses o' = JArr vs" "JStr s \<in> set vs" "a = trim s" by blast
    then show ?thesis
      using validated_request(5) [OF valid, of vs s] by (simp add: options_request_def)
  qed
  ultimately show ?thesis
    using loopback_valid
    by (auto simp: proper_certificate_def cert certificate_of_def Let_def san_ips_def
        detectLocalIpAddresses_def split: if_splits)
qed

text \<open>The two outcomes of a call.\<close>

lemma generateCertificate_Inr:
  assumes "generateCertificate env cp kp o' fs = (Inr r, fs')"
  obtains cert der key where "make_certificate env o' = Inr (cert, der, key)"
    "write_pair (ce_os env) cp kp der key fs = (None, fs')"
    "cr_certificatePath r = cp" "cr_privateKeyPath r = kp"
  using assms by (auto simp: generateCertificate_def split: sum.splits option.splits prod.splits)

lemma generateCertificate_Inl:
  assumes "generateCertificate env cp kp o' fs = (Inl e, fs')"
  shows "fs' = fs \<or> (\<exists>der key m. write_pair (ce_os env) cp kp der key fs = (Some m, fs'))"
  using assms by (auto simp: generateCertificate_def split: sum.splits option.splits prod.splits)

text \<open>C24: A generation that succeeds leaves the key it made, readable by its owner only where
  permissions can be set, and the encoding of a certificate with one subject and issuer, valid
  from now on, that names an application, the loopback address, and beside it only accepted host
  names and addresses, or addresses of this host; one that fails changes no other file, keeps the
  certificate there was, and leaves no new key behind, unless a write is cut or the key cannot
  be removed.\<close>

theorem generation_outcome:
  assumes "cp \<noteq> kp"
  shows "case generateCertificate env cp kp o' fs of
      (Inr r, fs') \<Rightarrow>
        (\<forall>p. p \<noteq> cp \<and> p \<noteq> kp \<longrightarrow> fs' p = fs p)
        \<and> (\<exists>f cert. fs' cp = Some f \<and> fg_der (ce_forge env) cert = Inr (f_data f)
             \<and> proper_certificate env cert)
        \<and> (\<exists>f. fs' kp = Some f \<and> fg_key (ce_forge env) = Inr (f_data f)
             \<and> (\<not> os_win32 (ce_os env) \<and> os_fault (ce_os env) (Chmod kp) = None
                \<longrightarrow> f_mode f = key_mode))
    | (Inl e, fs') \<Rightarrow>
        (\<forall>p. p \<noteq> cp \<and> p \<noteq> kp \<longrightarrow> fs' p = fs p)
        \<and> (fs' cp = fs cp \<or> os_cut (ce_os env) cp \<noteq> None)
        \<and> (fs' kp = fs kp \<or> fs' kp = None \<or> os_cut (ce_os env) kp \<noteq> None
           \<or> os_fault (ce_os env) (Unlink kp) \<noteq> None)"
proof -
  obtain x fs' where g: "generateCertificate env cp kp o' fs = (x, fs')"
    by (cases "generateCertificate env cp kp o' fs")
  show ?thesis
  proof (cases x)
    case (Inl e)
    then show ?thesis
      using generateCertificate_Inl [of env cp kp o' fs e fs'] g
        write_pair_failed [OF _ assms, of "ce_os env" _ _ fs _ fs'] by fastforce
  next
    case (Inr r)
    with g have "generateCertificate env cp kp o' fs = (Inr r, fs')" by simp
    then obtain cert der key where made: "make_certificate env o' = Inr (cert, der, key)"
      and wrote: "write_pair (ce_os env) cp kp der key fs = (None, fs')"
      by (rule generateCertificate_Inr)
    from made have "fg_der (ce_forge env) cert = Inr der" "fg_key (ce_forge env) = Inr key"
      by (auto elim: make_certificate_parts)
    with write_pair_done [OF wrote assms] made_certificate_proper [OF made] show ?thesis
      unfolding g Inr by fastforce
  qed
qed

section \<open>Replacing a pair\<close>

lemma key_not_writable: "\<not> owner_writes key_mode"
  by (simp add: owner_writes_def key_mode_def)

lemma owned_pair_stays:
  assumes "cp \<noteq> kp" and g: "generateCertificate env cp kp o1 fs = (Inr r, fs1)"
    and q: "os_quiet (ce_os env)" "\<not> os_win32 (ce_os env)" "\<not> os_superuser (ce_os env)"
    and e: "ce_os env' = ce_os env"
  shows "\<exists>e. generateCertificate env' cp kp o2 fs1 = (Inl e, fs1)"
proof -
  from g obtain cert der key where "write_pair (ce_os env) cp kp der key fs = (None, fs1)"
    by (rule generateCertificate_Inr)
  from write_pair_done [OF this assms(1)] q obtain f where
    f: "fs1 kp = Some f" "f_mode f = key_mode"
    by (auto simp: os_quiet_def)
  have "writeFileSync (ce_os env) kp key' fs1 = (Some (no_permission kp), fs1)" for key'
    using q f by (simp add: writeFileSync_def os_quiet_def key_not_writable)
  then have "write_pair (ce_os env) cp kp der' key' fs1 = (Some (no_permission kp), fs1)" for der' key'
    using q(1) by (simp add: write_pair_def os_quiet_def)
  then show ?thesis
    by (auto simp: generateCertificate_def e split: sum.split)
qed

lemma refused_certificate_takes_key:
  assumes "cp \<noteq> kp" and made: "make_certificate env o1 = Inr (cert, der, key)" and
    os: "os_superuser (ce_os env)"
      "os_fault (ce_os env) = (\<lambda>x. if x = OpenWrite cp then Some m else None)"
      "\<forall>p. os_cut (ce_os env) p = None"
  shows "generateCertificate env cp kp o1 fs = (Inl (Threw m), fs(kp := None))"
proof -
  let ?os = "ce_os env"
  have k: "writeFileSync ?os kp key fs = (None, fs(kp \<mapsto> written key (fs kp)))"
    using os assms(1) by (simp add: writeFileSync_def)
  have c: "writeFileSync ?os cp der f = (Some m, f)" for f
    using os by (simp add: writeFileSync_def)
  have u: "snd (unlinkSync ?os kp f) = f(kp := None)" for f
    using os by (simp add: unlinkSync_def)
  have "(snd (chmodSync ?os kp key_mode f))(kp := None) = f(kp := None)" for f
    using os by (auto simp: chmodSync_def)
  then have "write_pair ?os cp kp der key fs = (Some m, fs(kp := None))"
    using os(2) by (simp add: write_pair_def k c u Let_def)
  then show ?thesis
    by (simp add: generateCertificate_def made)
qed

text \<open>C25: A second generation. Once a process that is not a superuser, on a system with
  permissions, has generated a pair, every further generation to the same paths fails and
  changes nothing: the key file is not writable for its own writer. And where it is, if only the
  certificate cannot be written, the key that was there is gone afterwards, while the old
  certificate stays.\<close>

theorem second_generation:
  assumes "cp \<noteq> kp"
  shows "(generateCertificate env cp kp o1 fs = (Inr r, fs1) \<and> os_quiet (ce_os env)
        \<and> \<not> os_win32 (ce_os env) \<and> \<not> os_superuser (ce_os env) \<and> ce_os env' = ce_os env
      \<longrightarrow> (\<exists>e. generateCertificate env' cp kp o2 fs1 = (Inl e, fs1)))
    \<and> (make_certificate env o1 = Inr (cert, der, key) \<and> os_superuser (ce_os env)
        \<and> os_fault (ce_os env) = (\<lambda>x. if x = OpenWrite cp then Some m else None)
        \<and> (\<forall>p. os_cut (ce_os env) p = None)
      \<longrightarrow> generateCertificate env cp kp o1 fs = (Inl (Threw m), fs(kp := None)))"
  using owned_pair_stays [OF assms] refused_certificate_takes_key [OF assms] by blast

text \<open>A forge that encodes nothing, and a request that names nothing.\<close>

definition demo_forge :: forge where
  "demo_forge =
     \<lparr>fg_key = Inr [75], fg_random = (\<lambda>n. replicate n 255), fg_der = (\<lambda>c. Inr [67]),
      fg_parse = (\<lambda>_. None)\<rparr>"

definition demo_os :: "bool \<Rightarrow> (file_op \<Rightarrow> string option) \<Rightarrow> os_env" where
  "demo_os super fault =
     \<lparr>os_win32 = False, os_superuser = super, os_fault = fault, os_cut = (\<lambda>_. None)\<rparr>"

definition demo_cert_env :: "os_env \<Rightarrow> cert_env" where
  "demo_cert_env os =
     \<lparr>ce_now = 0, ce_random = 0, ce_interfaces = [], ce_iso = (\<lambda>_. ''now''),
      ce_forge = demo_forge, ce_os = os\<rparr>"

definition demo_options :: cert_options where
  "demo_options =
     \<lparr>co_applicationUri = None, co_validityDays = None, co_dnsNames = JUndefined,
      co_ipAddresses = JUndefined, co_organization = JUndefined, co_country = JUndefined,
      co_commonName = JUndefined\<rparr>"

lemma demo_made: "\<exists>cert. make_certificate (demo_cert_env os) demo_options = Inr (cert, [67], [75])"
  by (simp add: make_certificate_def options_request_def demo_options_def
      validateGenerateRequest_def check_text_def check_list_def trimmed_text_def trimmed_list_def
      nullish_def nullish_or_def demo_cert_env_def demo_forge_def Let_def)

lemma demo_cert_env_os [simp]: "ce_os (demo_cert_env os) = os"
  by (simp add: demo_cert_env_def)

lemma demo_generation:
  assumes "\<And>x. os_fault os x = None" "\<And>p. os_cut os p = None"
  shows "\<exists>r fs. generateCertificate (demo_cert_env os) ''c'' ''k'' demo_options (\<lambda>_. None) = (Inr r, fs)"
proof -
  obtain cert where "make_certificate (demo_cert_env os) demo_options = Inr (cert, [67], [75])"
    using demo_made by blast
  then show ?thesis
    using assms by (simp add: generateCertificate_def write_pair_def writeFileSync_def
        chmodSync_def Let_def)
qed

lemma generation_outcome_witness:
  "\<exists>e fs. generateCertificate (demo_cert_env (demo_os True (\<lambda>x. if x = OpenWrite ''c'' then Some ''ENOSPC'' else None)))
      ''c'' ''k'' demo_options (\<lambda>_. None) = (Inl e, fs) \<and> fs ''k'' = None \<and> fs ''x'' = None"
proof -
  let ?env = "demo_cert_env (demo_os True (\<lambda>x. if x = OpenWrite ''c'' then Some ''ENOSPC'' else None))"
  obtain cert where "make_certificate ?env demo_options = Inr (cert, [67], [75])"
    using demo_made by blast
  then have "\<exists>e fs. generateCertificate ?env ''c'' ''k'' demo_options (\<lambda>_. None) = (Inl e, fs)"
    by (simp add: generateCertificate_def write_pair_def writeFileSync_def
        chmodSync_def Let_def demo_os_def unlinkSync_def)
  then obtain e fs where g: "generateCertificate ?env ''c'' ''k'' demo_options (\<lambda>_. None) = (Inl e, fs)"
    by blast
  have "fs ''k'' = None \<and> fs ''x'' = None"
    using generation_outcome [where cp = "''c''" and kp = "''k''" and env = ?env and o' = demo_options
      and fs = "\<lambda>_. None"]
    unfolding g by (simp add: demo_os_def)
  with g show ?thesis by blast
qed

lemma second_generation_witness:
  "\<exists>r fs e. generateCertificate (demo_cert_env (demo_os False (\<lambda>_. None))) ''c'' ''k'' demo_options (\<lambda>_. None)
      = (Inr r, fs)
    \<and> generateCertificate (demo_cert_env (demo_os False (\<lambda>_. None))) ''c'' ''k'' demo_options fs = (Inl e, fs)"
proof -
  let ?env = "demo_cert_env (demo_os False (\<lambda>_. None))"
  obtain r fs where g: "generateCertificate ?env ''c'' ''k'' demo_options (\<lambda>_. None) = (Inr r, fs)"
    using demo_generation [of "demo_os False (\<lambda>_. None)"] by (auto simp: demo_os_def)
  have "\<exists>e. generateCertificate ?env ''c'' ''k'' demo_options fs = (Inl e, fs)"
    using second_generation [where cp = "''c''" and kp = "''k''" and env = ?env and ?o1.0 = demo_options
      and fs = "\<lambda>_. None" and r = r and ?fs1.0 = fs and env' = ?env and ?o2.0 = demo_options] g
    by (simp add: demo_os_def os_quiet_def)
  with g show ?thesis by blast
qed

section \<open>Serial numbers are positive and of the length the standard allows\<close>

lemma serial_length_bounds:
  assumes "0 \<le> r" "r < 1"
  shows "8 \<le> serial_length r \<and> serial_length r \<le> 20"
proof -
  have "r * 13 < 13" using assms(2) by simp
  then have "\<lfloor>r * 13\<rfloor> < 13" by linarith
  then show ?thesis by (simp add: serial_length_def nat_le_iff floor_le_iff)
qed

lemma serial_first_byte:
  assumes "bs \<noteq> []"
  shows "length (positive_bytes bs) = length bs"
    "0 < unat (positive_bytes bs ! 0)" "unat (positive_bytes bs ! 0) < 128"
proof -
  show "length (positive_bytes bs) = length bs"
    by (simp add: positive_bytes_def Let_def)
  have "and (bs ! 0) 0x7f \<le> (0x7f :: 8 word)" by (rule word_and_le1)
  then have "unat (and (bs ! 0) 0x7f) \<le> unat (0x7f :: 8 word)" by (simp add: word_le_nat_alt)
  then have le: "unat (and (bs ! 0) (0x7f :: 8 word)) < 128" by simp
  show "unat (positive_bytes bs ! 0) < 128"
    using le assms by (auto simp: positive_bytes_def Let_def)
  show "0 < unat (positive_bytes bs ! 0)"
    using assms by (auto simp: positive_bytes_def Let_def unat_gt_0)
qed

lemma serial_number_length:
  assumes "0 \<le> r" "r < 1" "\<And>n. length (fg_random fg n) = n"
  shows "16 \<le> length (generateSerialNumber fg r) \<and> length (generateSerialNumber fg r) \<le> 40"
proof -
  have "length (concat (map hex_byte bs)) = 2 * length bs" for bs
    by (induction bs) (simp_all add: hex_byte_def)
  moreover have "length (positive_bytes (fg_random fg n)) = n" for n
    using assms(3) by (simp add: positive_bytes_def Let_def)
  ultimately show ?thesis
    using serial_length_bounds [OF assms(1,2)] by (simp add: generateSerialNumber_def)
qed

end
