(* ===== verification/Host.thy ===== *)
theory Host
  imports ConnectorRoutes ConfigGenerator ProcessManager CertGenerator SecurityRepository LogService SseHub
begin

text \<open>
  The process as a whole: what the route modules of \<open>src/api/routes/\<close> that reach beyond the
  database share, and the two operations they make of several components - writing the
  configuration the runtime reads, and starting the runtime with the connectors.
\<close>

section \<open>State and environment\<close>

text \<open>
  \<open>hs_told\<close> is history, not a part of the program: the process and the way it was told to read its
  configuration again, each time with the files as they were then.
\<close>

record host =
  hs_db :: database
  hs_files :: files
  hs_pm :: process_manager
  hs_reg :: "any_connector registry"
  hs_log :: log_service
  hs_sse :: sse_hub
  hs_told :: "((int \<times> pm_signal) \<times> files) list"

text \<open>
  \<open>he_call\<close> is the text of the engine for a call on a value that has no such method, \<open>he_text\<close> the
  conversion of other values than strings to strings, \<open>he_positive\<close> the comparison with zero of
  other values than numbers, \<open>he_pid\<close> the process id a spawn assigns,
  \<open>he_pipe\<close> the error of a named pipe or of a signal, \<open>he_throws\<close> the event streams that cannot be written.
\<close>

record host_env =
  he_pm :: pm_env
  he_gen :: generator_env
  he_cert :: cert_env
  he_num :: text_of_number
  he_time :: text_of_time
  he_sql :: "sql_error \<Rightarrow> string"
  he_call :: "string \<Rightarrow> string"
  he_text :: "jsval \<Rightarrow> string"
  he_positive :: "jsval \<Rightarrow> bool"
  he_resolve :: "string \<Rightarrow> string"
  he_now :: string
  he_pid :: "int option"
  he_pipe :: "string option"
  he_port :: int
  he_extra :: "string option"
  he_throws :: "nat \<Rightarrow> bool"

definition log_note :: "host_env \<Rightarrow> level \<Rightarrow> string \<Rightarrow> string \<Rightarrow> host \<Rightarrow> host" where
  "log_note env lv src msg h = h\<lparr>hs_log := log_write (he_now env) lv src msg (hs_log h)\<rparr>"

definition running_runtime :: "host_env \<Rightarrow> host \<Rightarrow> bool" where
  "running_runtime env h \<longleftrightarrow> st_state (pm_getStatus (he_pm env) (hs_pm h)) = Running"

section \<open>The configuration file\<close>

text \<open>The encoding of a text as bytes; every code unit of the model is below 256.\<close>

definition utf8_char :: "char \<Rightarrow> buffer" where
  "utf8_char c =
     (let n = char_code c in
      if n < 128 then [of_nat n] else [of_nat (192 + n div 64), of_nat (128 + n mod 64)])"

definition utf8 :: "string \<Rightarrow> buffer" where
  "utf8 s = concat (map utf8_char s)"

text \<open>\<open>configGenerator.writeToFile(path)\<close>: the message it throws, if any. \<open>None\<close>: it does not end.\<close>

definition write_config :: "host_env \<Rightarrow> string \<Rightarrow> host \<Rightarrow> (string option \<times> host) option" where
  "write_config env path h =
     map_option
       (\<lambda>r. case r of
              Inl e \<Rightarrow> (Some (thrown_message (he_sql env) e), h)
            | Inr (m, fs) \<Rightarrow> (m, h\<lparr>hs_files := fs\<rparr>))
       (writeToFile (he_gen env) (he_num env)
          (\<lambda>p text. Inr (writeFileSync (ce_os (he_cert env)) p (utf8 text) (hs_files h)))
          path (hs_db h))"

text \<open>\<open>CONFIG_FILE_PATH\<close>, and the default of three routers.\<close>

definition default_config_path :: string where
  "default_config_path = ''runtime/config.json''"

section \<open>Runtime and connectors\<close>

definition stop_connectors :: "host_env \<Rightarrow> host \<Rightarrow> host" where
  "stop_connectors env h = h\<lparr>hs_reg := stopAll (he_num env) (he_time env) any_ops (hs_reg h)\<rparr>"

definition start_connectors :: "host_env \<Rightarrow> host \<Rightarrow> host" where
  "start_connectors env h = h\<lparr>hs_reg := startAll (he_num env) (he_time env) any_ops (hs_reg h)\<rparr>"

text \<open>
  \<open>await processManager.start()\<close> and \<open>startAll()\<close>; what follows the call runs before any callback
  of the child.
\<close>

definition start_runtime :: "host_env \<Rightarrow> host \<Rightarrow> (string + int \<times> int) \<times> host" where
  "start_runtime env h =
     (case pm_start (he_pm env) (he_pid env) (hs_pm h) of
        (Inl m, pm) \<Rightarrow> (Inl m, h\<lparr>hs_pm := pm\<rparr>)
      | (Inr x, pm) \<Rightarrow> (Inr x, start_connectors env (h\<lparr>hs_pm := pm\<rparr>)))"

text \<open>\<open>processManager.reload()\<close>, with the history of what was told when.\<close>

definition reload_runtime :: "host_env \<Rightarrow> host \<Rightarrow> string option \<times> host" where
  "reload_runtime env h =
     (case pm_reload (he_pm env) (he_pipe env) (hs_pm h) of
        (failed, pm) \<Rightarrow>
          (failed, h\<lparr>hs_pm := pm,
             hs_told := hs_told h
               @ map (\<lambda>sig. (sig, hs_files h)) (drop (length (pm_signals (hs_pm h))) (pm_signals pm))\<rparr>))"

section \<open>What they leave alone\<close>

lemma reload_runtime_fields [simp]:
  "hs_db (snd (reload_runtime env h)) = hs_db h" "hs_files (snd (reload_runtime env h)) = hs_files h"
  "hs_reg (snd (reload_runtime env h)) = hs_reg h" "hs_log (snd (reload_runtime env h)) = hs_log h"
  "hs_sse (snd (reload_runtime env h)) = hs_sse h"
  by (simp_all add: reload_runtime_def split_beta)

lemma log_note_fields [simp]:
  "hs_db (log_note env l s m h) = hs_db h" "hs_files (log_note env l s m h) = hs_files h"
  "hs_pm (log_note env l s m h) = hs_pm h" "hs_reg (log_note env l s m h) = hs_reg h"
  "hs_sse (log_note env l s m h) = hs_sse h"
  by (simp_all add: log_note_def)

lemma connectors_fields [simp]:
  "hs_db (stop_connectors env h) = hs_db h" "hs_files (stop_connectors env h) = hs_files h"
  "hs_pm (stop_connectors env h) = hs_pm h" "hs_db (start_connectors env h) = hs_db h"
  "hs_files (start_connectors env h) = hs_files h" "hs_pm (start_connectors env h) = hs_pm h"
  by (simp_all add: stop_connectors_def start_connectors_def)

definition config_bytes :: "host_env \<Rightarrow> address_space_config \<Rightarrow> buffer" where
  "config_bytes env cfg = utf8 (json_pretty (he_num env) [] (config_json cfg))"

lemma write_config_cases:
  assumes "write_config env path h = Some (m, h')"
  obtains (failed) e where "generate (he_gen env) (hs_db h) = Some (Inl e)" "h' = h" "m \<noteq> None"
  | (wrote) cfg ws fs where "generate (he_gen env) (hs_db h) = Some (Inr (cfg, ws))"
      "writeFileSync (ce_os (he_cert env)) path (config_bytes env cfg) (hs_files h) = (m, fs)"
      "h' = h\<lparr>hs_files := fs\<rparr>"
proof (cases "generate (he_gen env) (hs_db h)")
  case None
  with assms show ?thesis by (simp add: write_config_def writeToFile_def)
next
  case (Some g)
  show ?thesis
  proof (cases g)
    case (Inl e)
    from Some assms have "m = Some (thrown_message (he_sql env) e)" "h' = h"
      by (simp_all add: Inl write_config_def writeToFile_def)
    then show ?thesis using failed [of e] Some Inl by simp
  next
    case (Inr c)
    obtain cfg ws where c: "c = (cfg, ws)" by (cases c)
    obtain m1 fs where "writeFileSync (ce_os (he_cert env)) path (config_bytes env cfg) (hs_files h) = (m1, fs)"
      by (cases "writeFileSync (ce_os (he_cert env)) path (config_bytes env cfg) (hs_files h)")
    note w = this
    with Some Inr c assms have "m = m1" "h' = h\<lparr>hs_files := fs\<rparr>"
      by (simp_all add: write_config_def writeToFile_def config_bytes_def)
    with w show ?thesis using wrote [of cfg ws fs] Some Inr c by simp
  qed
qed

lemma write_config_keeps:
  assumes "write_config env path h = Some (m, h')"
  shows "hs_db h' = hs_db h" "hs_pm h' = hs_pm h" "hs_reg h' = hs_reg h" "hs_log h' = hs_log h"
    "p \<noteq> path \<Longrightarrow> hs_files h' p = hs_files h p" "hs_told h' = hs_told h"
proof -
  have "\<exists>fs. h' = h\<lparr>hs_files := fs\<rparr> \<and> (\<forall>p. p \<noteq> path \<longrightarrow> fs p = hs_files h p)"
    using assms
  proof (cases rule: write_config_cases)
    case (failed e)
    then show ?thesis by (intro exI [of _ "hs_files h"]) simp
  next
    case (wrote cfg ws fs)
    have "p \<noteq> path \<Longrightarrow> fs p = hs_files h p" for p
      using writeFileSync_other [of p path "ce_os (he_cert env)" "config_bytes env cfg" "hs_files h"]
      unfolding wrote(2) by simp
    with wrote(3) show ?thesis by blast
  qed
  then show "hs_db h' = hs_db h" "hs_pm h' = hs_pm h" "hs_reg h' = hs_reg h" "hs_log h' = hs_log h"
    "p \<noteq> path \<Longrightarrow> hs_files h' p = hs_files h p" "hs_told h' = hs_told h"
    by auto
qed

lemma start_runtime_keeps:
  assumes "start_runtime env h = (x, h')"
  shows "hs_db h' = hs_db h" "hs_files h' = hs_files h"
  using assms by (auto simp: start_runtime_def split: sum.splits prod.splits)

text \<open>What is in the file after it was written, if the disk takes it.\<close>

lemma write_config_content:
  assumes "write_config env path h = Some (None, h')"
  obtains cfg ws f where "generate (he_gen env) (hs_db h) = Some (Inr (cfg, ws))"
    "hs_files h' path = Some f" "f_data f = config_bytes env cfg"
  using assms
proof (cases rule: write_config_cases)
  case (wrote cfg ws fs)
  have "hs_files h' path = Some (written (config_bytes env cfg) (hs_files h path))"
    by (simp add: wrote(3) writeFileSync_done [OF wrote(2)])
  with wrote(1) show ?thesis by (rule that) (simp add: written_def)
qed simp

lemma write_config_ok:
  assumes "generate (he_gen env) (hs_db h) = Some (Inr (cfg, ws))"
    and "os_quiet (ce_os (he_cert env))" "os_superuser (ce_os (he_cert env))"
  shows "\<exists>h'. write_config env path h = Some (None, h')"
  using assms by (simp add: write_config_def writeToFile_def writeFileSync_def os_quiet_def)

section \<open>A host\<close>

definition demo_host_env :: "os_env \<Rightarrow> host_env" where
  "demo_host_env os =
     \<lparr>he_pm = demo_env, he_gen = plant_env, he_cert = demo_cert_env os, he_num = (\<lambda>_. ''1''),
      he_time = (\<lambda>_. ''t''), he_sql = (\<lambda>_. ''error''), he_call = id, he_text = (\<lambda>_. ''v''),
      he_positive = (\<lambda>_. True), he_resolve = id, he_now = ''now'', he_pid = Some 7, he_pipe = None,
      he_port = 4840, he_extra = None, he_throws = (\<lambda>_. False)\<rparr>"

definition demo_host :: "database \<Rightarrow> host" where
  "demo_host d =
     \<lparr>hs_db = d, hs_files = (\<lambda>_. None), hs_pm = snd (pm_start demo_env (Some 7) new_manager),
      hs_reg = program_registry, hs_log = new_log, hs_sse = new_hub,
      hs_told = []\<rparr>"

lemma demo_running: "pm_ok (hs_pm (demo_host d))" "pm_state (hs_pm (demo_host d)) = Running"
proof -
  have "pm_ok new_manager" by (simp add: new_manager_def pm_ok_def)
  then show "pm_ok (hs_pm (demo_host d))" "pm_state (hs_pm (demo_host d)) = Running"
    by (simp_all add: demo_host_def pm_start_def new_manager_def Let_def pm_broadcastStatus_def
        pm_send_def pm_ok_def)
qed

lemma demo_config_written:
  "\<exists>h'. write_config (demo_host_env (demo_os True (\<lambda>_. None))) path (demo_host (demo_plant [])) = Some (None, h')"
proof -
  obtain cfg ws where "generate plant_env (demo_plant []) = Some (Inr (cfg, ws))"
    using generate_ends [OF demo_plant_facts, of plant_env] by blast
  then show ?thesis
    by (intro write_config_ok) (simp_all add: demo_host_env_def demo_host_def demo_os_def os_quiet_def)
qed

end
