(* ===== verification/SecurityRoutes.thy ===== *)
theory SecurityRoutes
  imports Host Tofu
begin

text \<open>
  \<open>src/api/routes/security.ts\<close>: the security mode and the server's certificate. A new mode needs a
  new runtime process: the handler stops the connectors and the process, and goes on when the
  process has gone, so it is modelled in two parts.
\<close>

section \<open>Answers\<close>

definition expiry_of :: "host_env \<Rightarrow> host \<Rightarrow> expiry_reader" where
  "expiry_of env h path =
     map_option (\<lambda>x. (cx_expiresAt x, cx_remainingDays x))
       (readCertificateExpiry (he_cert env) (hs_files h) path)"

definition opt_json :: "('a \<Rightarrow> jsval) \<Rightarrow> 'a option \<Rightarrow> jsval" where
  "opt_json f x = (case x of None \<Rightarrow> JUndefined | Some v \<Rightarrow> f v)"

definition security_config_json :: "security_config \<Rightarrow> jsval" where
  "security_config_json c =
     JObj [(''mode'', JStr (sv_mode c)), (''certificatePath'', opt_json JStr (sv_certificatePath c)),
           (''certificateValid'', opt_json JBool (sv_certificateValid c)),
           (''privateKeyConfigured'', JBool (sv_privateKeyConfigured c)),
           (''certificateExpiresAt'', opt_json JStr (sv_expiresAt c)),
           (''certificateRemainingDays'', opt_json jint (sv_remainingDays c))]"

definition security_fault :: "host_env \<Rightarrow> db_error \<Rightarrow> response" where
  "security_fault env e = internal_error (thrown_message (he_sql env) e)"

text \<open>The end of a handler that answers with a configuration.\<close>

definition security_answer ::
  "host_env \<Rightarrow> host \<Rightarrow> (db_error + security_config) \<times> database \<Rightarrow> response \<times> host" where
  "security_answer env h r =
     (case r of
        (Inl e, d) \<Rightarrow> (security_fault env e, h\<lparr>hs_db := d\<rparr>)
      | (Inr c, d) \<Rightarrow> (respond 200 (security_config_json c), h\<lparr>hs_db := d\<rparr>))"

section \<open>Reading\<close>

definition get_security :: "host_env \<Rightarrow> host \<Rightarrow> response \<times> host" where
  "get_security env h = security_answer env h (security_get (expiry_of env h) (hs_db h))"

definition auto_fill_hosts :: "host_env \<Rightarrow> hosts" where
  "auto_fill_hosts env = getAutoFillHosts (ce_interfaces (he_cert env)) (he_extra env)"

definition get_suggested_sans :: "host_env \<Rightarrow> response" where
  "get_suggested_sans env =
     respond 200 (JObj [(''ipAddresses'', JArr (map JStr (ho_ipAddresses (auto_fill_hosts env)))),
                        (''dnsNames'', JArr (map JStr (ho_dnsNames (auto_fill_hosts env))))])"

definition traversal_patterns :: "string list" where
  "traversal_patterns = [''../'', [CHR ''.'', CHR ''.'', CHR 0x5C], ''%2e%2e/'', ''%2e%2e'' @ [CHR 0x5C]]"

definition has_traversal :: "string \<Rightarrow> bool" where
  "has_traversal path = list_ex (\<lambda>p. str_includes (toLowerCase path) p) traversal_patterns"

definition download :: "string \<Rightarrow> string \<Rightarrow> http_body \<Rightarrow> response" where
  "download content_type name body =
     \<lparr>rs_status = 200, rs_body = body,
      rs_headers = [(''Content-Type'', content_type),
        (''Content-Disposition'', ''attachment; filename='' @ [CHR 0x22] @ name @ [CHR 0x22])]\<rparr>"

definition serve_certificate :: "host_env \<Rightarrow> string \<Rightarrow> string option \<Rightarrow> files \<Rightarrow> response" where
  "serve_certificate env formatParam certPath fs =
     (if \<not> truthy_str certPath then
        error_response 404 ''CERTIFICATE_NOT_FOUND'' ''No certificate is available for download''
      else (let path = the certPath in
        if has_traversal path then error_response 403 ''ACCESS_DENIED'' ''Access denied''
        else if fs path = None then
          error_response 404 ''CERTIFICATE_NOT_FOUND'' ''Certificate file not found at configured path''
        else (case readFileSync (ce_os (he_cert env)) path fs of
                Inl _ \<Rightarrow> internal_error ''Failed to read certificate file''
              | Inr der \<Rightarrow>
                  if formatParam = ''pem''
                  then download ''application/x-pem-file'' ''server.pem'' (TextBody (derToPem der))
                  else download ''application/x-x509-ca-cert'' ''server.der'' (BytesBody der))))"

definition download_as :: "host_env \<Rightarrow> string \<Rightarrow> host \<Rightarrow> response \<times> host" where
  "download_as env formatParam h =
     (if formatParam \<noteq> ''der'' \<and> formatParam \<noteq> ''pem'' then
        (error_response 400 ''VALIDATION_ERROR'' ''Invalid format. Valid options: der, pem'', h)
      else (case getCertificatePath (hs_db h) of
              (Inl e, d) \<Rightarrow> (security_fault env e, h\<lparr>hs_db := d\<rparr>)
            | (Inr p, d) \<Rightarrow> (serve_certificate env formatParam p (hs_files h), h\<lparr>hs_db := d\<rparr>)))"

definition get_certificate_download :: "host_env \<Rightarrow> request \<Rightarrow> host \<Rightarrow> response \<times> host" where
  "get_certificate_download env rq h =
     (case jget (rq_query rq) ''format'' of
        Some (JStr s) \<Rightarrow> download_as env (toLowerCase s) h
      | None \<Rightarrow> download_as env ''der'' h
      | Some _ \<Rightarrow> (internal_error (he_call env ''req.query.format?.toLowerCase''), h))"

section \<open>The security mode\<close>

definition missing_pair :: "security_config \<Rightarrow> (string \<times> string) list" where
  "missing_pair c =
     (if \<not> truthy_str (sv_certificatePath c) then [(''certificatePath'', ''No certificate configured'')] else [])
     @ (if \<not> sv_privateKeyConfigured c then [(''privateKeyPath'', ''No private key configured'')] else [])"

definition one_of_modes :: string where
  "one_of_modes = ''Must be one of: '' @ join '', '' valid_modes"

text \<open>
  The handler up to its first wait: an answer, or the answer it will give when the process it has
  told to stop is gone.
\<close>

datatype policy_step = Answered response | AwaitingStop string security_config

definition policy_warning :: "host_env \<Rightarrow> string \<Rightarrow> host \<Rightarrow> host" where
  "policy_warning env m h =
     log_note env LWarn ''Security'' (''Failed to restart runtime after policy change: '' @ m) h"

definition restart_begin ::
  "host_env \<Rightarrow> string \<Rightarrow> security_config \<Rightarrow> host \<Rightarrow> (policy_step \<times> host) option" where
  "restart_begin env mode config h =
     (let ok = Answered (respond 200 (security_config_json config)) in
      if \<not> running_runtime env h then Some (ok, h)
      else (case write_config env default_config_path (stop_connectors env h) of
              None \<Rightarrow> None
            | Some (Some m, h1) \<Rightarrow> Some (ok, policy_warning env m h1)
            | Some (None, h1) \<Rightarrow>
                (case pm_stop (he_pm env) (hs_pm h1) of
                   (Some m, pm) \<Rightarrow> Some (ok, policy_warning env m (h1\<lparr>hs_pm := pm\<rparr>))
                 | (None, pm) \<Rightarrow> Some (AwaitingStop mode config, h1\<lparr>hs_pm := pm\<rparr>))))"

text \<open>The rest of the handler, once the call of \<open>stop\<close> has returned or thrown.\<close>

definition restart_finish ::
  "host_env \<Rightarrow> string option \<Rightarrow> string \<Rightarrow> security_config \<Rightarrow> host \<Rightarrow> response \<times> host" where
  "restart_finish env failed mode config h =
     (let ok = respond 200 (security_config_json config) in
      case failed of
        Some m \<Rightarrow> (ok, policy_warning env m h)
      | None \<Rightarrow>
          (case start_runtime env h of
             (Inl m, h1) \<Rightarrow> (ok, policy_warning env m h1)
           | (Inr _, h1) \<Rightarrow>
               (ok, log_note env LInfo ''Security''
                      (''Runtime restarted after security mode change to '' @ [CHR 0x22] @ mode @ [CHR 0x22]) h1)))"

definition apply_policy ::
  "host_env \<Rightarrow> string \<Rightarrow> host \<Rightarrow> (policy_step \<times> host) option" where
  "apply_policy env mode h =
     (case updatePolicy (expiry_of env h) (he_now env) mode (hs_db h) of
        (Inl e, d) \<Rightarrow> Some (Answered (security_fault env e), h\<lparr>hs_db := d\<rparr>)
      | (Inr config, d) \<Rightarrow> restart_begin env mode config (h\<lparr>hs_db := d\<rparr>))"

definition mode_text :: "host_env \<Rightarrow> jsval \<Rightarrow> string" where
  "mode_text env v = (case v of JStr s \<Rightarrow> s | _ \<Rightarrow> he_text env v)"

definition put_policy :: "host_env \<Rightarrow> jsval \<Rightarrow> host \<Rightarrow> (policy_step \<times> host) option" where
  "put_policy env body h =
     (let mode = body_field body ''mode''; valid = (case mode of JStr m \<Rightarrow> List.member valid_modes m | _ \<Rightarrow> False) in
      if \<not> truthy body \<or> \<not> truthy mode then
        Some (Answered (invalid_response ''Security mode is required'' [(''mode'', ''Mode is required'')]), h)
      else if \<not> valid then
        Some (Answered (invalid_response
            (''Invalid security mode: '' @ mode_text env mode @ ''. '' @ one_of_modes)
            [(''mode'', one_of_modes)]), h)
      else
        (let m = mode_text env mode in
         if m \<noteq> ''None'' then
           (case security_get (expiry_of env h) (hs_db h) of
              (Inl e, d) \<Rightarrow> Some (Answered (security_fault env e), h\<lparr>hs_db := d\<rparr>)
            | (Inr current, d) \<Rightarrow>
                if \<not> truthy_str (sv_certificatePath current) \<or> \<not> sv_privateKeyConfigured current then
                  Some (Answered (invalid_response
                      (''Security mode '' @ [CHR 0x22] @ m @ [CHR 0x22]
                       @ '' requires a certificate and private key. Generate or upload a certificate first.'')
                      (missing_pair current)), h\<lparr>hs_db := d\<rparr>)
                else apply_policy env m (h\<lparr>hs_db := d\<rparr>))
         else apply_policy env m h))"

section \<open>Uploading paths\<close>

text \<open>\<open>!body || !body.f || body.f.trim().length === 0\<close>, or the call that throws.\<close>

definition path_missing :: "jsval \<Rightarrow> string \<Rightarrow> string + bool" where
  "path_missing body f =
     (if \<not> truthy body \<or> \<not> truthy (body_field body f) then Inr True
      else case body_field body f of
             JStr s \<Rightarrow> Inr (length (trim s) = 0)
           | _ \<Rightarrow> Inl (''body.'' @ f @ ''.trim''))"

definition certificate_extensions :: "string list" where
  "certificate_extensions = [''.pem'', ''.der'', ''.crt'', ''.cer'']"

definition key_extensions :: "string list" where
  "key_extensions = [''.pem'', ''.key'', ''.der'']"

definition has_extension :: "string list \<Rightarrow> string \<Rightarrow> bool" where
  "has_extension exts path = list_ex (\<lambda>e. ends_with e (toLowerCase (trim path))) exts"

definition text_of_body :: "jsval \<Rightarrow> string \<Rightarrow> string" where
  "text_of_body body f = (case body_field body f of JStr s \<Rightarrow> s | _ \<Rightarrow> [])"

definition store_pair :: "host_env \<Rightarrow> string \<Rightarrow> string \<Rightarrow> host \<Rightarrow> response \<times> host" where
  "store_pair env cert key h =
     (if \<not> has_extension certificate_extensions cert then
        (invalid_response ''Invalid certificate format''
           [(''certificatePath'', ''Certificate file must have one of these extensions: ''
               @ join '', '' certificate_extensions)], h)
      else if \<not> has_extension key_extensions key then
        (invalid_response ''Invalid private key format''
           [(''privateKeyPath'', ''Private key file must have one of these extensions: ''
               @ join '', '' key_extensions)], h)
      else security_answer env h
             (updateCertificate (expiry_of env h) (he_now env) (trim cert) (trim key) (hs_db h)))"

definition post_certificate :: "host_env \<Rightarrow> jsval \<Rightarrow> host \<Rightarrow> response \<times> host" where
  "post_certificate env body h =
     (case path_missing body ''certificatePath'' of
        Inl call \<Rightarrow> (internal_error (he_call env call), h)
      | Inr no_cert \<Rightarrow>
          (case path_missing body ''privateKeyPath'' of
             Inl call \<Rightarrow> (internal_error (he_call env call), h)
           | Inr no_key \<Rightarrow>
               (let details =
                      (if no_cert then [(''certificatePath'', ''Certificate path is required'')] else [])
                      @ (if no_key then [(''privateKeyPath'', ''Private key path is required'')] else [])
                in if details \<noteq> [] then
                     (invalid_response ''Certificate upload validation failed'' details, h)
                   else store_pair env (text_of_body body ''certificatePath'')
                          (text_of_body body ''privateKeyPath'') h)))"

section \<open>Generating a certificate\<close>

definition trim_value :: "jsval \<Rightarrow> jsval" where
  "trim_value v = (case v of JStr s \<Rightarrow> JStr (trim s) | _ \<Rightarrow> v)"

definition trim_values :: "jsval \<Rightarrow> jsval" where
  "trim_values v = (case v of JArr xs \<Rightarrow> JArr (map trim_value xs) | _ \<Rightarrow> v)"

definition trimmed_body :: "jsval \<Rightarrow> generate_request" where
  "trimmed_body body =
     \<lparr>gr_commonName = trim_value (body_field body ''commonName''),
      gr_organization = trim_value (body_field body ''organization''),
      gr_country = trim_value (body_field body ''country''),
      gr_dnsNames = trim_values (body_field body ''dnsNames''),
      gr_ipAddresses = trim_values (body_field body ''ipAddresses'')\<rparr>"

text \<open>\<open>v && v.length > 0\<close>\<close>

definition not_empty :: "host_env \<Rightarrow> jsval \<Rightarrow> bool" where
  "not_empty env v =
     (case v of
        JArr xs \<Rightarrow> xs \<noteq> []
      | JStr s \<Rightarrow> s \<noteq> []
      | JObj ps \<Rightarrow>
          (case getprop ps ''length'' of
             JUndefined \<Rightarrow> False
           | JNum n \<Rightarrow> num_lt (Fin 0) n
           | w \<Rightarrow> he_positive env w)
      | _ \<Rightarrow> False)"

text \<open>\<open>[...(v ?? [])]\<close>; only arrays and strings are iterable.\<close>

definition spread :: "jsval \<Rightarrow> jsval list option" where
  "spread v =
     (case nullish_or v (JArr []) of
        JArr xs \<Rightarrow> Some xs
      | JStr s \<Rightarrow> Some (map (\<lambda>c. JStr [c]) s)
      | _ \<Rightarrow> None)"

definition cert_message :: "host_env \<Rightarrow> cert_error \<Rightarrow> string" where
  "cert_message env e = (case e of BadCall c \<Rightarrow> he_call env c | Invalid m \<Rightarrow> m | Threw m \<Rightarrow> m)"

definition generation_failed :: "string \<Rightarrow> response" where
  "generation_failed m = internal_error (''Certificate generation failed: '' @ m)"

definition generated_cert_path :: "host_env \<Rightarrow> string" where
  "generated_cert_path env = he_resolve env ''data/certs/server.der''"

definition generated_key_path :: "host_env \<Rightarrow> string" where
  "generated_key_path env = he_resolve env ''data/certs/server.key''"

definition generation_options :: "host_env \<Rightarrow> generate_request \<Rightarrow> string + cert_options" where
  "generation_options env b =
     (let hosts = auto_fill_hosts env;
          ipAddresses = (if not_empty env (gr_ipAddresses b) then gr_ipAddresses b
                         else JArr (map JStr (ho_ipAddresses hosts)))
      in case spread (gr_dnsNames b) of
           None \<Rightarrow> Inl ''...trimmedBody.dnsNames''
         | Some xs \<Rightarrow>
             Inr \<lparr>co_applicationUri = None, co_validityDays = None,
                  co_dnsNames = JArr (js_set (xs @ map JStr (ho_dnsNames hosts))),
                  co_ipAddresses = ipAddresses, co_organization = gr_organization b,
                  co_country = gr_country b, co_commonName = gr_commonName b\<rparr>)"

text \<open>The new paths are stored, and the configuration is read.\<close>

definition store_generated :: "host_env \<Rightarrow> cert_result \<Rightarrow> host \<Rightarrow> response \<times> host" where
  "store_generated env r h =
     (case updateCertificate (expiry_of env h) (he_now env) (cr_certificatePath r) (cr_privateKeyPath r)
             (hs_db h) of
        (Inl e, d) \<Rightarrow> (generation_failed (thrown_message (he_sql env) e), h\<lparr>hs_db := d\<rparr>)
      | (Inr _, d) \<Rightarrow>
          (case security_get (expiry_of env h) d of
             (Inl e, d1) \<Rightarrow> (generation_failed (thrown_message (he_sql env) e), h\<lparr>hs_db := d1\<rparr>)
           | (Inr c, d1) \<Rightarrow> (respond 201 (security_config_json c), h\<lparr>hs_db := d1\<rparr>)))"

definition generate_and_store :: "host_env \<Rightarrow> generate_request \<Rightarrow> host \<Rightarrow> response \<times> host" where
  "generate_and_store env b h =
     (case generation_options env b of
        Inl call \<Rightarrow> (generation_failed (he_call env call), h)
      | Inr opts \<Rightarrow>
          (case generateCertificate (he_cert env) (generated_cert_path env) (generated_key_path env)
                  opts (hs_files h) of
             (Inl e, fs) \<Rightarrow> (generation_failed (cert_message env e), h\<lparr>hs_files := fs\<rparr>)
           | (Inr r, fs) \<Rightarrow> store_generated env r (h\<lparr>hs_files := fs\<rparr>)))"

definition post_generate :: "host_env \<Rightarrow> jsval \<Rightarrow> host \<Rightarrow> response \<times> host" where
  "post_generate env body h =
     (let b = trimmed_body body in
      case validateGenerateRequest b of
        Inl call \<Rightarrow> (generation_failed (he_call env call), h)
      | Inr (e # es) \<Rightarrow> (invalid_response ''Validation failed'' (e # es), h)
      | Inr [] \<Rightarrow>
          if hs_files h (generated_cert_path env) \<noteq> None \<and> body_field body ''force'' \<noteq> JBool True then
            (error_response 400 ''VALIDATION_ERROR''
               ''Certificate already exists. Set force=true to overwrite.'', h)
          else generate_and_store env b h)"

section \<open>HTTPS\<close>

text \<open>\<open>src/api/https-server.ts\<close>: the condition; nothing in the program asks for it.\<close>

definition shouldUseHttps :: "security_config \<Rightarrow> bool" where
  "shouldUseHttps c =
     (let isSecureMode = (sv_mode c = ''Sign'' \<or> sv_mode c = ''SignAndEncrypt'');
          hasCertificate = truthy_str (sv_certificatePath c)
      in isSecureMode \<and> hasCertificate \<and> sv_privateKeyConfigured c)"

section \<open>All requests\<close>

text \<open>Requests, and the ends of the calls of \<open>stop\<close> that requests wait for.\<close>

datatype security_request =
    GetSecurity
  | GetDownload request
  | PutPolicy jsval
  | PolicyStopped "string option" string security_config
  | PostCertificate jsval
  | PostGenerate jsval

fun security_route :: "host_env \<Rightarrow> security_request \<Rightarrow> host \<Rightarrow> (policy_step \<times> host) option" where
  "security_route env GetSecurity h = Some (apfst Answered (get_security env h))"
| "security_route env (GetDownload rq) h = Some (apfst Answered (get_certificate_download env rq h))"
| "security_route env (PutPolicy b) h = put_policy env b h"
| "security_route env (PolicyStopped failed mode c) h =
     Some (apfst Answered (restart_finish env failed mode c h))"
| "security_route env (PostCertificate b) h = Some (apfst Answered (post_certificate env b h))"
| "security_route env (PostGenerate b) h = Some (apfst Answered (post_generate env b h))"

section \<open>What requests do to the security configuration\<close>

lemma set_security_outcome:
  "(\<exists>e. set_security f t = (Inl e, t))
   \<or> set_security f t = (Inr (), t\<lparr>t_security := map_option f (t_security t)\<rparr>)"
  using execute_cases [of "\<lambda>t. t\<lparr>t_security := map_option f (t_security t)\<rparr>" t]
  by (auto simp: set_security_def)

lemma security_write_cases:
  obtains (failed) e d' where "security_write expiry f d = (Inl e, d')" "db_tables d' = db_tables d"
  | (wrote) c d' where "security_write expiry f d = (Inr c, d')" "db_open d'" "db_alive d'"
      "db_open d" "db_alive d"
      "db_tables d' = (db_tables d)\<lparr>t_security := map_option f (t_security (db_tables d))\<rparr>"
proof -
  obtain x d1 where w: "db_write (set_security f) d = (x, d1)"
    by (cases "db_write (set_security f) d")
  show ?thesis
  proof (cases x)
    case (Inl e)
    have "db_tables d1 = db_tables d"
      using w Inl set_security_outcome [of f "db_tables d"]
      by (auto simp: db_write_def isAccessible_def Let_def clearCache_def split: if_splits prod.splits sum.splits)
    with w Inl failed [of e d1] show ?thesis by (simp add: security_write_def and_then_def)
  next
    case (Inr u)
    then have a: "db_open d" "db_alive d" "db_open d1" "db_alive d1"
      "db_tables d1 = (db_tables d)\<lparr>t_security := map_option f (t_security (db_tables d))\<rparr>"
      using w set_security_outcome [of f "db_tables d"]
      by (auto simp: db_write_def isAccessible_def Let_def clearCache_def split: if_splits prod.splits sum.splits)
    let ?d2 = "updateCache ''security_config'' [] d1"
    have s: "security_write expiry f d = security_get expiry ?d2"
      using w Inr by (simp add: security_write_def and_then_def)
    obtain c where "fst (security_get expiry ?d2) = Inr c"
      using security_get_alive [of ?d2 expiry] a by simp
    then have g: "security_get expiry ?d2 = (Inr c, snd (security_get expiry ?d2))"
      by (metis prod.collapse)
    show ?thesis
      by (rule wrote [of c "snd (security_get expiry ?d2)"])
        (use s g a in simp_all)
  qed
qed

lemma security_get_cases:
  obtains (failed) e d' where "security_get expiry d = (Inl e, d')" "db_tables d' = db_tables d"
  | (read) c d' where "security_get expiry d = (Inr c, d')" "db_tables d' = db_tables d"
      "db_open d' = db_open d" "db_alive d' = db_alive d"
      "db_open d \<and> db_alive d \<Longrightarrow> c = (case t_security (db_tables d) of None \<Rightarrow> no_security
        | Some r \<Rightarrow> security_view expiry r)"
proof -
  obtain x d' where g: "security_get expiry d = (x, d')" by (cases "security_get expiry d")
  then have d': "d' = snd (readWithCache ''security_config'' security_query d)"
    using security_get_snd [of expiry d] by simp
  show ?thesis
  proof (cases x)
    case (Inl e)
    with g show ?thesis using failed [of e d'] by (simp add: d')
  next
    case (Inr c)
    with g show ?thesis
      using read [of c d'] security_get_alive [of d expiry] by (simp add: d')
  qed
qed

lemma getCertificatePath_tables: "db_tables (snd (getCertificatePath d)) = db_tables d"
  unfolding getCertificatePath_def by (rule and_then_snd) (simp_all add: Let_def)

definition pair_stored :: "security_row \<Rightarrow> bool" where
  "pair_stored r \<longleftrightarrow> truthy_str (sec_certificate r) \<and> truthy_str (sec_key r)"

definition modes_secured :: "tables \<Rightarrow> bool" where
  "modes_secured t \<longleftrightarrow>
     (\<forall>r. t_security t = Some r \<longrightarrow>
        sec_mode r \<in> set valid_modes \<and> (sec_mode r \<noteq> ''None'' \<longrightarrow> pair_stored r))"

text \<open>An answered error, and what a step of the handlers may do to the tables.\<close>

fun refused :: "policy_step \<Rightarrow> bool" where
  "refused (Answered rs) = (400 \<le> rs_status rs)"
| "refused (AwaitingStop m c) = False"

definition safe_step :: "tables \<Rightarrow> policy_step \<Rightarrow> tables \<Rightarrow> bool" where
  "safe_step t x t' \<longleftrightarrow>
     (\<exists>s. t' = t\<lparr>t_security := s\<rparr>) \<and> (modes_secured t \<longrightarrow> modes_secured t')
     \<and> (refused x \<longrightarrow> t' = t)"

lemma safe_same [simp]: "safe_step t x t"
  by (auto simp: safe_step_def intro: exI [of _ "t_security t"])

lemma safe_change:
  assumes "modes_secured t \<Longrightarrow> modes_secured (t\<lparr>t_security := s\<rparr>)" "\<not> refused x"
  shows "safe_step t x (t\<lparr>t_security := s\<rparr>)"
  using assms by (auto simp: safe_step_def)

lemma updateCertificate_cases:
  obtains (failed) e d' where "updateCertificate expiry now cert key d = (Inl e, d')" "db_tables d' = db_tables d"
  | (wrote) c d' where "updateCertificate expiry now cert key d = (Inr c, d')"
      "db_open d'" "db_alive d'"
      "modes_secured (db_tables d) \<Longrightarrow> modes_secured (db_tables d')"
      "\<exists>s. db_tables d' = (db_tables d)\<lparr>t_security := s\<rparr>"
proof (cases "cert = [] \<or> trim cert = [] \<or> key = [] \<or> trim key = []")
  case True
  then have "\<exists>e. updateCertificate expiry now cert key d = (Inl e, d)"
    by (auto simp: updateCertificate_def)
  with failed show ?thesis by blast
next
  case False
  let ?f = "\<lambda>r. r\<lparr>sec_certificate := Some cert, sec_key := Some key, sec_updated := now\<rparr>"
  have u: "updateCertificate expiry now cert key d = security_write expiry ?f d"
    using False by (simp add: updateCertificate_def)
  show ?thesis
  proof (cases rule: security_write_cases [of expiry ?f d])
    case (failed e d')
    with that(1) u show ?thesis by simp
  next
    case (wrote c d')
    have "modes_secured (db_tables d) \<Longrightarrow> modes_secured (db_tables d')"
      using False by (auto simp: wrote(6) modes_secured_def pair_stored_def)
    with that(2) [of c d'] u wrote show ?thesis by auto
  qed
qed

lemma updatePolicy_cases:
  obtains (failed) e d' where "updatePolicy expiry now mode d = (Inl e, d')" "db_tables d' = db_tables d"
  | (wrote) c d' where "updatePolicy expiry now mode d = (Inr c, d')" "db_open d" "db_alive d"
      "mode \<in> set valid_modes"
      "db_tables d' = (db_tables d)\<lparr>t_security :=
         map_option (\<lambda>r. r\<lparr>sec_mode := mode, sec_updated := now\<rparr>) (t_security (db_tables d))\<rparr>"
proof (cases "List.member valid_modes mode")
  case False
  then show ?thesis using failed by (simp add: updatePolicy_def)
next
  case True
  let ?f = "\<lambda>r. r\<lparr>sec_mode := mode, sec_updated := now\<rparr>"
  have u: "updatePolicy expiry now mode d = security_write expiry ?f d"
    using True by (simp add: updatePolicy_def)
  show ?thesis
  proof (cases rule: security_write_cases [of expiry ?f d])
    case (failed e d')
    with that(1) u show ?thesis by simp
  next
    case (wrote c d')
    with that(2) [of c d'] u True show ?thesis by simp
  qed
qed

lemma restart_begin_db:
  assumes "restart_begin env mode config h = Some (x, h')"
  shows "hs_db h' = hs_db h \<and> \<not> refused x"
  using assms
  by (auto simp: restart_begin_def Let_def policy_warning_def split: if_splits option.splits prod.splits
      dest!: write_config_keeps(1))

lemma restart_finish_db:
  assumes "restart_finish env failed mode config h = (rs, h')"
  shows "hs_db h' = hs_db h \<and> rs_status rs = 200"
  using assms
  by (auto simp: restart_finish_def Let_def policy_warning_def split: option.splits prod.splits sum.splits
      dest!: start_runtime_keeps(1))

lemma get_security_safe:
  assumes "security_answer env h (security_get expiry (hs_db h)) = (rs, h')"
  shows "db_tables (hs_db h') = db_tables (hs_db h)"
proof (cases rule: security_get_cases [of expiry "hs_db h"])
  case (failed e d')
  with assms show ?thesis by (auto simp: security_answer_def)
next
  case (read c d')
  from read(1,2) assms show ?thesis by (auto simp: security_answer_def)
qed

lemma download_safe:
  assumes "get_certificate_download env rq h = (rs, h')"
  shows "db_tables (hs_db h') = db_tables (hs_db h)"
proof -
  have *: "db_tables (hs_db (snd (download_as env f h))) = db_tables (hs_db h)" for f
  proof -
    obtain y d where g: "getCertificatePath (hs_db h) = (y, d)" by (cases "getCertificatePath (hs_db h)")
    then have "db_tables d = db_tables (hs_db h)"
      using getCertificatePath_tables [of "hs_db h"] by simp
    with g show ?thesis by (cases y) (simp_all add: download_as_def)
  qed
  have "h' = h \<or> (\<exists>f. download_as env f h = (rs, h'))"
    using assms by (auto simp: get_certificate_download_def split: option.splits jsval.splits)
  with * show ?thesis by (metis snd_conv)
qed

lemma apply_policy_safe:
  assumes "apply_policy env mode h = Some (x, h')"
    and "\<And>r. \<lbrakk>db_open (hs_db h); db_alive (hs_db h); t_security (db_tables (hs_db h)) = Some r;
      mode \<noteq> ''None''\<rbrakk> \<Longrightarrow> pair_stored r"
  shows "safe_step (db_tables (hs_db h)) x (db_tables (hs_db h'))"
proof (cases rule: updatePolicy_cases [of "expiry_of env h" "he_now env" mode "hs_db h"])
  case (failed e d')
  with assms(1) have "h' = h\<lparr>hs_db := d'\<rparr>" by (simp add: apply_policy_def)
  with failed(2) show ?thesis by simp
next
  case (wrote c d')
  with assms(1) have "restart_begin env mode c (h\<lparr>hs_db := d'\<rparr>) = Some (x, h')"
    by (simp add: apply_policy_def)
  from restart_begin_db [OF this] have h': "hs_db h' = d'" "\<not> refused x" by simp_all
  show ?thesis
    unfolding h'(1) wrote(5)
    by (rule safe_change [OF _ h'(2)])
      (use wrote(4) assms(2) [OF wrote(2,3)] in \<open>auto simp: modes_secured_def pair_stored_def\<close>)
qed

lemma put_policy_safe:
  assumes "put_policy env body h = Some (x, h')"
  shows "safe_step (db_tables (hs_db h)) x (db_tables (hs_db h'))"
proof -
  define m where "m = mode_text env (body_field body ''mode'')"
  consider "h' = h"
    | "m = ''None''" "apply_policy env m h = Some (x, h')"
    | "m \<noteq> ''None''" "\<exists>e d. security_get (expiry_of env h) (hs_db h) = (Inl e, d) \<and> h' = h\<lparr>hs_db := d\<rparr>"
    | c d where "security_get (expiry_of env h) (hs_db h) = (Inr c, d)"
        "(\<not> truthy_str (sv_certificatePath c) \<or> \<not> sv_privateKeyConfigured c) \<and> h' = h\<lparr>hs_db := d\<rparr>
         \<or> truthy_str (sv_certificatePath c) \<and> sv_privateKeyConfigured c
            \<and> apply_policy env m (h\<lparr>hs_db := d\<rparr>) = Some (x, h')"
    using assms unfolding put_policy_def Let_def m_def [symmetric]
    by (auto split: if_splits prod.splits sum.splits)
  then show ?thesis
  proof cases
    case 2
    from apply_policy_safe [OF 2(2)] 2(1) show ?thesis by simp
  next
    case 3
    then obtain e d where g: "security_get (expiry_of env h) (hs_db h) = (Inl e, d)" "h' = h\<lparr>hs_db := d\<rparr>"
      by blast
    then have "db_tables d = db_tables (hs_db h)"
      by (cases rule: security_get_cases [of "expiry_of env h" "hs_db h"]) auto
    with g show ?thesis by simp
  next
    case (4 c d)
    from 4(1) have d: "db_tables d = db_tables (hs_db h)" "db_open d = db_open (hs_db h)"
      "db_alive d = db_alive (hs_db h)"
      "db_open (hs_db h) \<and> db_alive (hs_db h) \<Longrightarrow>
        c = (case t_security (db_tables (hs_db h)) of None \<Rightarrow> no_security
             | Some r \<Rightarrow> security_view (expiry_of env h) r)"
      by (cases rule: security_get_cases [of "expiry_of env h" "hs_db h"]; simp)+
    from 4(2) show ?thesis
    proof
      assume "(\<not> truthy_str (sv_certificatePath c) \<or> \<not> sv_privateKeyConfigured c) \<and> h' = h\<lparr>hs_db := d\<rparr>"
      then show ?thesis by (simp add: d(1))
    next
      assume a: "truthy_str (sv_certificatePath c) \<and> sv_privateKeyConfigured c
        \<and> apply_policy env m (h\<lparr>hs_db := d\<rparr>) = Some (x, h')"
      have "pair_stored r" if r: "db_open d" "db_alive d" "t_security (db_tables d) = Some r" for r
      proof -
        have "c = security_view (expiry_of env h) r" using d r by simp
        with a show ?thesis
          by (auto simp: pair_stored_def security_view_def Let_def split: option.splits)
      qed
      then have "safe_step (db_tables (hs_db (h\<lparr>hs_db := d\<rparr>))) x (db_tables (hs_db h'))"
        by (intro apply_policy_safe [of env m]) (use a in simp_all)
      then show ?thesis by (simp add: d(1))
    qed
  qed simp
qed

lemma store_pair_safe:
  assumes "store_pair env cert key h = (rs, h')"
  shows "safe_step (db_tables (hs_db h)) (Answered rs) (db_tables (hs_db h'))"
proof (cases rule: updateCertificate_cases [of "expiry_of env h" "he_now env" "trim cert" "trim key" "hs_db h"])
  case (failed e d')
  with assms have "db_tables (hs_db h') = db_tables (hs_db h)"
    by (auto simp: store_pair_def security_answer_def split: if_splits)
  then show ?thesis by simp
next
  case (wrote c d')
  with assms have "h' = h \<or> h' = h\<lparr>hs_db := d'\<rparr> \<and> rs_status rs = 200"
    by (auto simp: store_pair_def security_answer_def split: if_splits)
  then show ?thesis
  proof
    assume "h' = h" then show ?thesis by simp
  qed (use wrote(4,5) in \<open>auto simp: safe_step_def\<close>)
qed

lemma store_generated_safe:
  assumes "store_generated env r h = (rs, h')"
  shows "safe_step (db_tables (hs_db h)) (Answered rs) (db_tables (hs_db h'))"
proof (cases rule: updateCertificate_cases
    [of "expiry_of env h" "he_now env" "cr_certificatePath r" "cr_privateKeyPath r" "hs_db h"])
  case (failed e d')
  with assms have "db_tables (hs_db h') = db_tables (hs_db h)" by (auto simp: store_generated_def)
  then show ?thesis by simp
next
  case (wrote c d')
  note w = this
  show ?thesis
  proof (cases rule: security_get_cases [of "expiry_of env h" d'])
    case (failed e d1)
    then show ?thesis using security_get_alive [OF w(2,3), of "expiry_of env h"] by simp
  next
    case (read c1 d1)
    with w(1) assms have "h' = h\<lparr>hs_db := d1\<rparr>" "rs_status rs = 201"
      by (auto simp: store_generated_def)
    with w(4,5) read(2) show ?thesis by (auto simp: safe_step_def)
  qed
qed

lemma post_certificate_safe:
  assumes "post_certificate env body h = (rs, h')"
  shows "safe_step (db_tables (hs_db h)) (Answered rs) (db_tables (hs_db h'))"
proof -
  have "h' = h \<or> (\<exists>c k. store_pair env c k h = (rs, h'))"
    using assms by (auto simp: post_certificate_def Let_def split: sum.splits if_splits)
  then show ?thesis using store_pair_safe by auto
qed

lemma post_generate_safe:
  assumes "post_generate env body h = (rs, h')"
  shows "safe_step (db_tables (hs_db h)) (Answered rs) (db_tables (hs_db h'))"
proof -
  have "hs_db h' = hs_db h \<or> (\<exists>r fs. store_generated env r (h\<lparr>hs_files := fs\<rparr>) = (rs, h'))"
    using assms
    by (auto simp: post_generate_def generate_and_store_def Let_def
        split: sum.splits list.splits if_splits prod.splits)
  then show ?thesis using store_generated_safe [of env _ "h\<lparr>hs_files := _\<rparr>" rs h'] by auto
qed

text \<open>C26: A request about security changes no table but the row of its configuration, and not even
  that when it is answered with an error, whatever failed. If the stored mode is one of the three
  and one that encrypts only together with a certificate and a private key, it stays so: no
  request, and no end of a restart a request waits for, stores such a mode without a pair.\<close>

theorem security_requests_safe:
  assumes "security_route env rq h = Some (x, h')"
  shows "(\<exists>s. db_tables (hs_db h') = (db_tables (hs_db h))\<lparr>t_security := s\<rparr>)
    \<and> (modes_secured (db_tables (hs_db h)) \<longrightarrow> modes_secured (db_tables (hs_db h')))
    \<and> (\<forall>rs. x = Answered rs \<and> 400 \<le> rs_status rs \<longrightarrow> db_tables (hs_db h') = db_tables (hs_db h))"
proof -
  have "safe_step (db_tables (hs_db h)) x (db_tables (hs_db h'))"
  proof (cases rq)
    case GetSecurity
    with assms have "db_tables (hs_db h') = db_tables (hs_db h)"
      by (auto simp: get_security_def apfst_def map_prod_def intro: get_security_safe split: prod.splits)
    then show ?thesis by simp
  next
    case (GetDownload r)
    with assms have "db_tables (hs_db h') = db_tables (hs_db h)"
      by (auto simp: apfst_def map_prod_def intro: download_safe split: prod.splits)
    then show ?thesis by simp
  next
    case (PutPolicy b)
    with assms put_policy_safe show ?thesis by simp
  next
    case (PolicyStopped f m c)
    with assms have "hs_db h' = hs_db h"
      by (auto simp: apfst_def map_prod_def dest: restart_finish_db split: prod.splits)
    then show ?thesis by simp
  next
    case (PostCertificate b)
    with assms show ?thesis
      by (auto simp: apfst_def map_prod_def intro: post_certificate_safe split: prod.splits)
  next
    case (PostGenerate b)
    with assms show ?thesis
      by (auto simp: apfst_def map_prod_def intro: post_generate_safe split: prod.splits)
  qed
  then show ?thesis by (auto simp: safe_step_def)
qed

text \<open>A change of the mode while the runtime runs stops the connectors first. If then the
  configuration cannot be written, the request is still answered with success, the process goes on
  as it was, with the old mode, and nothing starts the connectors again: no value is polled or
  broadcast any more.\<close>

lemma unwritten_policy_stops_polling:
  assumes "pm_state (hs_pm h) = Running"
    and "write_config env default_config_path (stop_connectors env h) = Some (Some m, h1)"
    and "\<forall>k c. (k, c) \<in> set (reg_connectors (hs_reg h)) \<longrightarrow> any_linv c"
  shows "\<exists>h'. restart_begin env mode config h
      = Some (Answered (respond 200 (security_config_json config)), h')
    \<and> hs_pm h' = hs_pm h
    \<and> (\<forall>st \<in> set (getAggregatedStatus any_ops (hs_reg h')). cs_state st \<noteq> Connected)
    \<and> broadcastValues (he_time env) any_ops (hs_reg h') = hs_reg h'"
proof -
  let ?h' = "policy_warning env m h1"
  have r: "running_runtime env h" using assms(1) by (simp add: running_runtime_def pm_getStatus_def Let_def)
  have keeps: "hs_pm h1 = hs_pm h" "hs_reg h1 = stopAll (he_num env) (he_time env) any_ops (hs_reg h)"
    using write_config_keeps(2,3) [OF assms(2)] by (simp_all add: stop_connectors_def)
  have "connectors.reg_ok (hs_reg h)" using assms(3) by (simp add: connectors.reg_ok_def)
  then show ?thesis
    using r assms(2) keeps
    by (intro exI [of _ ?h'])
      (simp add: restart_begin_def policy_warning_def connectors.stopAll_disconnects
        connectors.no_values_after_stopAll)
qed

section \<open>Runs\<close>

definition demo_full :: os_env where
  "demo_full = demo_os True (\<lambda>x. if x = OpenWrite default_config_path then Some ''ENOSPC'' else None)"

lemma unwritten_policy_stops_polling_witness:
  "\<exists>h' config. restart_begin (demo_host_env demo_full) ''None'' config (demo_host (demo_plant []))
      = Some (Answered (respond 200 (security_config_json config)), h')
    \<and> pm_state (hs_pm h') = Running
    \<and> broadcastValues (he_time (demo_host_env demo_full)) any_ops (hs_reg h') = hs_reg h'"
proof -
  let ?env = "demo_host_env demo_full" and ?h = "demo_host (demo_plant [])"
  obtain cfg ws where "generate plant_env (demo_plant []) = Some (Inr (cfg, ws))"
    using generate_ends [OF demo_plant_facts, of plant_env] by blast
  then have w: "write_config ?env default_config_path (stop_connectors ?env ?h)
      = Some (Some ''ENOSPC'', stop_connectors ?env ?h)"
    by (simp add: write_config_def writeToFile_def writeFileSync_def demo_host_env_def demo_host_def
        demo_full_def demo_os_def stop_connectors_def)
  have "\<forall>k c. (k, c) \<in> set (reg_connectors (hs_reg ?h)) \<longrightarrow> any_linv c"
    using program_registry_ok by (simp add: demo_host_def)
  from unwritten_policy_stops_polling [OF demo_running(2) w this] demo_running(2) [of "demo_plant []"]
  show ?thesis by fastforce
qed

lemma security_requests_safe_witness:
  "\<exists>rs h'. security_route (demo_host_env demo_full) (PutPolicy (JObj [(''mode'', JStr ''Sign'')]))
        (demo_host (open_database None)) = Some (Answered rs, h') \<and> rs_status rs = 400
     \<and> db_tables (hs_db h') = db_tables (open_database None)"
proof -
  let ?env = "demo_host_env demo_full" and ?h = "demo_host (open_database None)"
  let ?rq = "PutPolicy (JObj [(''mode'', JStr ''Sign'')])"
  have d: "db_open (hs_db ?h)" "db_alive (hs_db ?h)"
    "\<exists>r. t_security (db_tables (hs_db ?h)) = Some r \<and> sec_certificate r = None"
    by (simp_all add: demo_host_def open_database_def applySchema_def fresh_tables_def)
  then obtain c d' where c: "security_get (expiry_of ?env ?h) (hs_db ?h) = (Inr c, d')"
    "sv_certificatePath c = None"
    using security_get_alive [OF d(1,2), of "expiry_of ?env ?h"]
    by (cases "security_get (expiry_of ?env ?h) (hs_db ?h)") (auto simp: security_view_def Let_def)
  obtain rs h' where r: "security_route ?env ?rq ?h = Some (Answered rs, h')" "rs_status rs = 400"
    using c by (simp add: put_policy_def getprop_def valid_modes_def mode_text_def)
  have "db_tables (hs_db h') = db_tables (hs_db ?h)"
    using security_requests_safe [OF r(1)] r(2) by simp
  with r show ?thesis by (auto simp: demo_host_def)
qed

end
