(* ===== verification/ServerRoutes.thy ===== *)
theory ServerRoutes
  imports Host Auth
begin

text \<open>
  \<open>src/api/routes/server.ts\<close> and \<open>events.ts\<close>, and what \<open>src/api/app.ts\<close> does around every
  request: who is let in, and the reload of the runtime after a change of the address space. A
  handler that waits for the process is in two parts, before and after the wait; what is done
  when a response has been sent is a step of its own.
\<close>

section \<open>Lifecycle\<close>

datatype server_step = Reply response | WaitsForStop

definition runtime_error :: "nat \<Rightarrow> string \<Rightarrow> response" where
  "runtime_error status message = error_response status ''RUNTIME_ERROR'' message"

definition show_id :: "int \<Rightarrow> string" where
  "show_id pid = show_int pid"

definition start_failed :: "host_env \<Rightarrow> string \<Rightarrow> host \<Rightarrow> response \<times> host" where
  "start_failed env m h =
     (let h1 = log_note env LError ''Runtime'' (''Failed to start: '' @ m) h in
      if m = ''Process is already running'' then (runtime_error 409 ''Server is already running'', h1)
      else (runtime_error 500 m, h1))"

definition post_start :: "host_env \<Rightarrow> host \<Rightarrow> (response \<times> host) option" where
  "post_start env h =
     map_option
       (\<lambda>(failed, h1). case failed of
            Some m \<Rightarrow> start_failed env m h1
          | None \<Rightarrow>
              (case start_runtime env h1 of
                 (Inl m, h2) \<Rightarrow> start_failed env m h2
               | (Inr (pid, t), h2) \<Rightarrow>
                   (respond 200 (JObj [(''pid'', jint pid), (''startedAt'', JStr (he_time env t))]),
                    log_note env LInfo ''Runtime'' (''Server started (PID: '' @ show_id pid @ '')'') h2)))
       (write_config env default_config_path h)"

definition stop_failed :: "string \<Rightarrow> response" where
  "stop_failed m =
     (if m = not_running then runtime_error 409 ''Server is not running'' else runtime_error 500 m)"

definition post_stop :: "host_env \<Rightarrow> host \<Rightarrow> server_step \<times> host" where
  "post_stop env h =
     (let h1 = stop_connectors env h in
      case pm_stop (he_pm env) (hs_pm h1) of
        (Some m, pm) \<Rightarrow> (Reply (stop_failed m), h1\<lparr>hs_pm := pm\<rparr>)
      | (None, pm) \<Rightarrow> (WaitsForStop, h1\<lparr>hs_pm := pm\<rparr>))"

definition success_json :: "string \<Rightarrow> jsval" where
  "success_json message = JObj [(''success'', JBool True), (''message'', JStr message)]"

definition stop_finish :: "host_env \<Rightarrow> string option \<Rightarrow> host \<Rightarrow> response \<times> host" where
  "stop_finish env failed h =
     (case failed of
        Some m \<Rightarrow> (stop_failed m, h)
      | None \<Rightarrow>
          (respond 200 (success_json ''Server stopped successfully''),
           log_note env LInfo ''Runtime'' ''Server stopped'' h))"

definition reload_failed :: "string \<Rightarrow> response" where
  "reload_failed m =
     (if m = not_running then runtime_error 409 ''Server is not running, cannot reload''
      else runtime_error 500 m)"

definition post_reload :: "host_env \<Rightarrow> host \<Rightarrow> (response \<times> host) option" where
  "post_reload env h =
     map_option
       (\<lambda>(failed, h1). case failed of
            Some m \<Rightarrow> (reload_failed m, h1)
          | None \<Rightarrow>
              (case reload_runtime env h1 of
                 (Some m, h2) \<Rightarrow> (reload_failed m, h2)
               | (None, h2) \<Rightarrow>
                   (respond 200 (success_json ''Server configuration reloaded successfully''),
                    log_note env LInfo ''Runtime'' ''Configuration reloaded'' h2)))
       (write_config env default_config_path h)"

section \<open>Status\<close>

fun run_state_text :: "pm_run_state \<Rightarrow> string" where
  "run_state_text Running = ''running''"
| "run_state_text Stopped = ''stopped''"
| "run_state_text Failed = ''error''"

definition server_status_fields :: "server_status \<Rightarrow> (string \<times> jsval) list" where
  "server_status_fields s =
     [(''state'', JStr (run_state_text (st_state s))), (''hostname'', JStr (st_hostname s)),
      (''uptime'', case st_uptime s of None \<Rightarrow> JUndefined | Some n \<Rightarrow> jint n),
      (''pid'', case st_pid s of None \<Rightarrow> JUndefined | Some n \<Rightarrow> jint n),
      (''connectedClients'', case st_connectedClients s of None \<Rightarrow> JUndefined | Some n \<Rightarrow> JNum n),
      (''lastError'', case st_lastError s of None \<Rightarrow> JUndefined | Some m \<Rightarrow> JStr m)]"

definition get_status :: "host_env \<Rightarrow> host \<Rightarrow> response" where
  "get_status env h =
     respond 200 (JObj (server_status_fields (pm_getStatus (he_pm env) (hs_pm h))
       @ [(''opcuaPort'', jint (he_port env))]))"

definition get_clients :: "host_env \<Rightarrow> host \<Rightarrow> response" where
  "get_clients env h = respond 200 (sessions_json (readClientSessions (he_pm env) (hs_pm h)))"

definition log_entry_json :: "log_entry \<Rightarrow> jsval" where
  "log_entry_json e =
     JObj [(''timestamp'', JStr (le_timestamp e)), (''level'', JStr (level_text (le_level e))),
           (''source'', JStr (le_source e)), (''message'', JStr (le_message e))]"

text \<open>A parameter of the query is a text, given once.\<close>

definition get_logs :: "request \<Rightarrow> host \<Rightarrow> response" where
  "get_logs rq h =
     respond 200 (JArr (map log_entry_json
       (getEntries \<lparr>lq_since = query_text rq ''since'', lq_level = query_text rq ''level'',
                    lq_source = query_text rq ''source''\<rparr> (hs_log h))))"

section \<open>Event streams\<close>

definition send_to :: "host_env \<Rightarrow> string \<Rightarrow> string \<Rightarrow> jsval \<Rightarrow> host \<Rightarrow> host" where
  "send_to env i ty v h = h\<lparr>hs_sse := sendToClient (he_throws env) (he_num env) i ty v (hs_sse h)\<rparr>"

definition sendInitialState :: "host_env \<Rightarrow> string \<Rightarrow> host \<Rightarrow> host" where
  "sendInitialState env i h =
     (let h1 = send_to env i ''server:status''
                 (JObj (server_status_fields (pm_getStatus (he_pm env) (hs_pm h)))) h;
          h2 = send_to env i ''server:clients'' (sessions_json (readClientSessions (he_pm env) (hs_pm h1))) h1;
          h3 = send_to env i ''connector:status''
                 (status_list_json (he_time env) (getAggregatedStatus any_ops (hs_reg h2))) h2
      in send_to env i ''connector:values''
           (JArr (map (current_value_json (he_time env)) (getAggregatedValues any_ops (hs_reg h3)))) h3)"

text \<open>Opening the stream \<open>res\<close> under a fresh id at a time, and its end.\<close>

definition open_events :: "host_env \<Rightarrow> string \<Rightarrow> nat \<Rightarrow> int \<Rightarrow> host \<Rightarrow> host" where
  "open_events env i res now h =
     sendInitialState env i (h\<lparr>hs_sse := addClient i res now (hs_sse h)\<rparr>)"

definition close_events :: "string \<Rightarrow> host \<Rightarrow> host" where
  "close_events i h = h\<lparr>hs_sse := removeClient i (hs_sse h)\<rparr>"

section \<open>Around every request\<close>

definition address_space_paths :: "string list" where
  "address_space_paths =
     [''/api/nodes'', ''/api/object-nodes'', ''/api/namespaces'', ''/api/connectors/mappings'']"

definition watched :: "request \<Rightarrow> string \<Rightarrow> bool" where
  "watched rq url \<longleftrightarrow> rq_method rq \<noteq> ''GET'' \<and> list_ex (\<lambda>p. prefix p url) address_space_paths"

text \<open>The callback of the response: regenerate the file, and signal the runtime; failures pass.\<close>

definition on_finish :: "host_env \<Rightarrow> response \<Rightarrow> host \<Rightarrow> host option" where
  "on_finish env rs h =
     (if rs_status rs \<ge> 200 \<and> rs_status rs < 300 \<and> running_runtime env h then
        map_option
          (\<lambda>(failed, h1). if failed \<noteq> None then h1 else snd (reload_runtime env h1))
          (write_config env default_config_path h)
      else Some h)"

definition finished :: "host_env \<Rightarrow> request \<Rightarrow> string \<Rightarrow> response \<Rightarrow> host \<Rightarrow> host option" where
  "finished env rq url rs h = (if watched rq url then on_finish env rs h else Some h)"

text \<open>
  A request to a path below \<open>/api\<close>: refused, or handled by its route. A handler is a function
  of the state; no result is one that does not answer.
\<close>

definition api_request ::
  "jwt_verify \<Rightarrow> auth_config \<Rightarrow> request \<Rightarrow> (host \<Rightarrow> (response \<times> host) option) \<Rightarrow> host
     \<Rightarrow> (response \<times> host) option" where
  "api_request verify cfg rq route h =
     (case auth_middleware verify cfg rq of Some rs \<Rightarrow> Some (rs, h) | None \<Rightarrow> route h)"

text \<open>The whole of a request, with what follows its response.\<close>

definition served ::
  "host_env \<Rightarrow> jwt_verify \<Rightarrow> auth_config \<Rightarrow> request \<Rightarrow> string
     \<Rightarrow> (host \<Rightarrow> (response \<times> host) option) \<Rightarrow> host \<Rightarrow> (response \<times> host) option" where
  "served env verify cfg rq url route h =
     (case api_request verify cfg rq route h of
        None \<Rightarrow> None
      | Some (rs, h1) \<Rightarrow>
          if auth_middleware verify cfg rq \<noteq> None then Some (rs, h1)
          else map_option (Pair rs) (finished env rq url rs h1))"

definition error_handler :: "string \<Rightarrow> response" where
  "error_handler message = internal_error (if message = [] then ''An unexpected error occurred'' else message)"

section \<open>The reload after a change\<close>

lemma pm_reload_sent:
  assumes "pm_ok s" "pm_state s = Running"
  obtains c where "pm_process s = Some c"
    "pm_signals (snd (pm_reload e None s))
       = pm_signals s @ [(ch_pid c, if env_windows e then NamedPipe else SigUsr1)]"
proof -
  from assms(1,2) obtain c where c: "pm_process s = Some c" by (auto simp: pm_ok_def)
  moreover from c assms(2) have "pm_signals (snd (pm_reload e None s))
      = pm_signals s @ [(ch_pid c, if env_windows e then NamedPipe else SigUsr1)]"
    by (auto simp: pm_reload_def pm_broadcastStatus_def pm_send_def)
  ultimately show ?thesis by (rule that)
qed

lemma running_state [simp]: "running_runtime env h \<longleftrightarrow> pm_state (hs_pm h) = Running"
  by (simp add: running_runtime_def pm_getStatus_def Let_def)

text \<open>C27: After a request that is let in, has another method than GET and a path that begins with one
  of \<open>/api/nodes\<close>, \<open>/api/object-nodes\<close>, \<open>/api/namespaces\<close> and \<open>/api/connectors/mappings\<close> has been
  answered with success while the runtime runs, the configuration file, if it can be generated and
  written, holds exactly what is generated from the tables as the request left them; and the
  process that runs, if it can be signalled, has been told to read it again, once, and after the
  file was written: at that moment the files were what they are in the end.\<close>

theorem reload_after_change:
  assumes "watched rq url" "auth_middleware verify cfg rq = None"
    and route: "route h = Some (rs, h1)" "succeeded rs"
    and ok: "pm_ok (hs_pm h1)" "pm_state (hs_pm h1) = Running" and pipe: "he_pipe env = None"
    and disk: "write_config env default_config_path h1 = Some (None, h2)"
  shows "\<exists>h3 cfg1 ws f c. served env verify cfg rq url route h = Some (rs, h3)
    \<and> generate (he_gen env) (hs_db h1) = Some (Inr (cfg1, ws)) \<and> hs_db h3 = hs_db h1
    \<and> hs_files h3 default_config_path = Some f \<and> f_data f = config_bytes env cfg1
    \<and> pm_process (hs_pm h1) = Some c
    \<and> hs_told h3 = hs_told h1
        @ [((ch_pid c, if env_windows (he_pm env) then NamedPipe else SigUsr1), hs_files h3)]"
proof -
  let ?h3 = "snd (reload_runtime env h2)"
  have "on_finish env rs h1 = Some ?h3"
    using route(2) ok(2) disk by (simp add: on_finish_def succeeded_def)
  then have s: "served env verify cfg rq url route h = Some (rs, ?h3)"
    using assms(1,2) route(1) by (simp add: served_def api_request_def finished_def)
  note keeps = write_config_keeps [OF disk]
  from disk obtain cfg1 ws f where w: "generate (he_gen env) (hs_db h1) = Some (Inr (cfg1, ws))"
    "hs_files h2 default_config_path = Some f" "f_data f = config_bytes env cfg1"
    by (rule write_config_content)
  from pm_reload_sent [OF ok] obtain c where "pm_process (hs_pm h1) = Some c"
    "pm_signals (snd (pm_reload (he_pm env) None (hs_pm h1)))
       = pm_signals (hs_pm h1) @ [(ch_pid c, if env_windows (he_pm env) then NamedPipe else SigUsr1)]"
    by blast
  moreover from this(2) have "hs_told ?h3 = hs_told h1
      @ [((ch_pid c, if env_windows (he_pm env) then NamedPipe else SigUsr1), hs_files h2)]"
    by (simp add: reload_runtime_def split_beta pipe keeps(2,6))
  ultimately show ?thesis using s w keeps(1) by (intro exI [of _ ?h3] exI conjI) simp_all
qed

text \<open>Not every change of the address space is watched: deleting a connection deletes its mappings,
  which the configuration lists, and is followed by neither.\<close>

lemma deleted_connection_not_reloaded:
  assumes "prefix ''/api/connectors/connections'' url"
  shows "finished env rq url rs h = Some h"
proof -
  have "\<not> prefix p url" if "p \<in> set address_space_paths" for p
    using that prefix_same_cases [OF assms, of p] by (auto simp: address_space_paths_def)
  then show ?thesis by (auto simp: finished_def watched_def list_ex_iff)
qed

lemma deleting_connection_changes_config:
  "\<exists>t. mapped_rows ''ns'' t \<noteq> [] \<and> mapped_rows ''ns'' (drop_connection ''c1'' t) = []"
  by (rule exI [of _ "db_tables null_plant"]) code_simp

text \<open>Whatever path the process manager starts the runtime with, starting, reloading and the
  reload after a change only ever write the default path: a runtime that was given another file,
  as the environment can demand, keeps being started with and told to read a file that the
  handlers never bring up to date.\<close>

lemma other_config_path_not_written:
  assumes "p \<noteq> default_config_path"
  shows "(post_start env h = Some (rs, h1) \<longrightarrow> hs_files h1 p = hs_files h p)
    \<and> (post_reload env h = Some (rs, h1) \<longrightarrow> hs_files h1 p = hs_files h p)
    \<and> (finished env rq url rs h = Some h1 \<longrightarrow> hs_files h1 p = hs_files h p)"
proof -
  have wrote: "hs_files h' p = hs_files g p" if "write_config env default_config_path g = Some (m, h')" for g m h'
    by (rule write_config_keeps(5) [OF that assms])
  have run: "hs_files h' p = hs_files g p" if "start_runtime env g = (x, h')" for g x h'
    using start_runtime_keeps(2) [OF that] by simp
  have reloaded: "hs_files h' = hs_files g" if "reload_runtime env g = (x, h')" for g x h'
    using reload_runtime_fields(2) [of env g] that by simp
  have "hs_files h1 p = hs_files h p" if "post_start env h = Some (rs, h1)"
    using that by (auto simp: post_start_def start_failed_def Let_def dest!: wrote run
        split: option.splits prod.splits sum.splits if_splits)
  moreover have "hs_files h1 p = hs_files h p" if "post_reload env h = Some (rs, h1)"
    using that reloaded by (auto simp: post_reload_def dest!: wrote split: option.splits prod.splits)
  moreover have "hs_files h1 p = hs_files h p" if "finished env rq url rs h = Some h1"
    using that by (auto simp: finished_def on_finish_def dest!: wrote split: if_splits prod.splits)
  ultimately show ?thesis by blast
qed

section \<open>A run\<close>

definition demo_post :: request where
  "demo_post = \<lparr>rq_method = ''POST'', rq_headers = [], rq_query = [], rq_body = JUndefined\<rparr>"

definition open_auth :: auth_config where
  "open_auth = \<lparr>au_mode = ''none'', au_apiKeys = [], au_jwtSecret = [], au_jwtIssuer = None\<rparr>"

definition demo_answer :: response where
  "demo_answer = respond 201 JNull"

lemma demo_passes: "watched demo_post ''/api/nodes''" "auth_middleware v open_auth demo_post = None"
  "succeeded demo_answer" "he_pipe (demo_host_env os) = None"
  by (simp_all add: watched_def demo_post_def address_space_paths_def auth_middleware_def open_auth_def
      demo_answer_def succeeded_def demo_host_env_def demo_env_def)

lemma reload_after_change_witness:
  "\<exists>h3 f. served (demo_host_env (demo_os True (\<lambda>_. None))) (\<lambda>_ _ _. JwtRejected) open_auth demo_post
        ''/api/nodes'' (\<lambda>h. Some (demo_answer, h)) (demo_host (demo_plant [])) = Some (demo_answer, h3)
      \<and> hs_files h3 default_config_path = Some f \<and> map snd (hs_told h3) = [hs_files h3]"
proof -
  let ?env = "demo_host_env (demo_os True (\<lambda>_. None))" and ?h = "demo_host (demo_plant [])"
  obtain h2 where w: "write_config ?env default_config_path ?h = Some (None, h2)"
    using demo_config_written by blast
  have "hs_told ?h = []" by (simp add: demo_host_def)
  with reload_after_change [OF demo_passes(1,2), of "\<lambda>h. Some (demo_answer, h)" ?h demo_answer ?h
      ?env h2 "\<lambda>_ _ _. JwtRejected"] w demo_passes(3,4) demo_running show ?thesis by fastforce
qed

lemma other_config_path_not_written_witness:
  "\<exists>rs h1. post_reload (demo_host_env (demo_os True (\<lambda>_. None))) (demo_host (demo_plant [])) = Some (rs, h1)
     \<and> rs_status rs = 200 \<and> hs_files h1 ''data/config.json'' = None"
proof -
  let ?env = "demo_host_env (demo_os True (\<lambda>_. None))" and ?h = "demo_host (demo_plant [])"
  obtain h2 where w: "write_config ?env default_config_path ?h = Some (None, h2)"
    using demo_config_written by blast
  have "\<exists>c. pm_process (hs_pm ?h) = Some c"
    using demo_running [of "demo_plant []"] by (auto simp: pm_ok_def)
  then have "\<exists>h3. reload_runtime ?env h2 = (None, h3)"
    using demo_running(2) [of "demo_plant []"] demo_passes(4)
    by (auto simp: reload_runtime_def pm_reload_def write_config_keeps(2) [OF w])
  then obtain rs h1 where r: "post_reload ?env ?h = Some (rs, h1)" "rs_status rs = 200"
    using w by (auto simp: post_reload_def)
  have "''data/config.json'' \<noteq> default_config_path" by (simp add: default_config_path_def)
  with other_config_path_not_written [of "''data/config.json''" ?env ?h rs h1] r
  have "hs_files h1 ''data/config.json'' = hs_files ?h ''data/config.json''" by blast
  with r show ?thesis by (auto simp: demo_host_def)
qed

end
