(* ===== verification/Startup.thy ===== *)
theory Startup
  imports ServerRoutes ConnectorSync Tofu
begin

text \<open>
  \<open>src/api/server.ts\<close>: what the process does when it starts, when the runtime crashes and when it
  is told to end. Starting hands the stored connections and mappings to the connectors, without
  catching what they throw: an error ends the process.
\<close>

section \<open>Settings\<close>

record settings =
  se_port :: "int option"
  se_opcuaPort :: "int option"
  se_dbPath :: string
  se_runtimePath :: string
  se_configPath :: string
  se_pluginsDir :: "string option"

definition DEFAULT_PORT :: int where
  "DEFAULT_PORT = 3100"

definition DEFAULT_OPCUA_PORT :: int where
  "DEFAULT_OPCUA_PORT = 4840"

text \<open>\<open>None\<close> of a port is \<open>NaN\<close>.\<close>

definition settings_of :: "(string \<Rightarrow> string option) \<Rightarrow> settings" where
  "settings_of env =
     \<lparr>se_port = parseInt10 (env_or env ''PORT'' (show_int DEFAULT_PORT)),
      se_opcuaPort = parseInt10 (env_or env ''OPCUA_PORT'' (show_int DEFAULT_OPCUA_PORT)),
      se_dbPath = env_or env ''DB_PATH'' ''runtime/opcua-light.db'',
      se_runtimePath = env_or env ''RUNTIME_PATH'' ''runtime/opcua-runtime'',
      se_configPath = env_or env ''CONFIG_PATH'' ''runtime/config.json'',
      se_pluginsDir = env ''CONNECTOR_PLUGINS_DIR''\<rparr>"

section \<open>Connections and mappings\<close>

text \<open>A call to the connector of a type, if there is one; what it throws is the caller's.\<close>

definition hand_over ::
  "string \<Rightarrow> api_call \<Rightarrow> any_connector registry \<Rightarrow> string option \<times> any_connector registry" where
  "hand_over ty call r =
     (case getConnector ty r of
        None \<Rightarrow> (None, r)
      | Some c \<Rightarrow>
          (let (e, c') = any_api call c in (e, r\<lparr>reg_connectors := jset (reg_connectors r) ty c'\<rparr>)))"

fun load_connections ::
  "connection_config list \<Rightarrow> any_connector registry \<Rightarrow> string option \<times> any_connector registry" where
  "load_connections [] r = (None, r)"
| "load_connections (c # cs) r =
     (case hand_over (cfg_type c) (AddConnection c) r of
        (Some m, r1) \<Rightarrow> (Some m, r1)
      | (None, r1) \<Rightarrow> load_connections cs r1)"

fun load_mappings ::
  "(sql_error \<Rightarrow> string) \<Rightarrow> mapping list \<Rightarrow> plant \<Rightarrow> string option \<times> plant" where
  "load_mappings sql [] p = (None, p)"
| "load_mappings sql (m # ms) (d, r) =
     (case findConnectionById (map_connectionId m) d of
        (Inl e, d1) \<Rightarrow> (Some (thrown_message sql e), d1, r)
      | (Inr None, d1) \<Rightarrow> load_mappings sql ms (d1, r)
      | (Inr (Some c), d1) \<Rightarrow>
          (case hand_over (cfg_type c) (AddMapping m) r of
             (Some e, r1) \<Rightarrow> (Some e, d1, r1)
           | (None, r1) \<Rightarrow> load_mappings sql ms (d1, r1)))"

definition connections_of :: "cached list \<Rightarrow> connection_config list" where
  "connections_of rows = List.map_filter (\<lambda>x. as_connection (Some x)) rows"

definition mappings_of :: "cached list \<Rightarrow> mapping list" where
  "mappings_of rows = List.map_filter (\<lambda>x. as_mapping (Some x)) rows"

definition startup_load :: "(sql_error \<Rightarrow> string) \<Rightarrow> plant \<Rightarrow> string option \<times> plant" where
  "startup_load sql p =
     (let (d, r) = p in
      case findAllConnections None d of
        (Inl e, d1) \<Rightarrow> (Some (thrown_message sql e), d1, r)
      | (Inr rows, d1) \<Rightarrow>
          (case load_connections (connections_of rows) r of
             (Some m, r1) \<Rightarrow> (Some m, d1, r1)
           | (None, r1) \<Rightarrow>
               (case findAllMappings None d1 of
                  (Inl e, d2) \<Rightarrow> (Some (thrown_message sql e), d2, r1)
                | (Inr rows2, d2) \<Rightarrow> load_mappings sql (mappings_of rows2) (d2, r1))))"

section \<open>The runtime\<close>

text \<open>
  The start at the end: directories, configuration, process, connectors. Whatever fails is
  logged; here the configured path is written.
\<close>

definition autostart_failed :: "host_env \<Rightarrow> string \<Rightarrow> host \<Rightarrow> host" where
  "autostart_failed env m h =
     log_note env LError ''Server'' (''Failed to auto-start OPC UA Runtime: '' @ m) h"

definition auto_start ::
  "host_env \<Rightarrow> settings \<Rightarrow> (string \<Rightarrow> string option) \<Rightarrow> tofu \<times> host \<Rightarrow> (tofu \<times> host) option" where
  "auto_start env se mk th =
     (let (tf, h) = th in
      case tofu_initialize mk tf of
        (Inl m, tf1) \<Rightarrow> Some (tf1, autostart_failed env m h)
      | (Inr _, tf1) \<Rightarrow>
          map_option
            (\<lambda>(failed, h1). (tf1,
               case failed of
                 Some m \<Rightarrow> autostart_failed env m h1
               | None \<Rightarrow>
                   (case start_runtime env h1 of
                      (Inl m, h2) \<Rightarrow> autostart_failed env m h2
                    | (Inr (pid, _), h2) \<Rightarrow>
                        log_note env LInfo ''Server''
                          (''OPC UA Runtime auto-started (PID: '' @ show_int pid @ '')'') h2)))
            (write_config env (se_configPath se) (log_note env LInfo ''Server'' ''PKI directories initialized'' h)))"

text \<open>The callback of a crash, and a report of a child with the crashes it brings.\<close>

definition on_crash :: "host_env \<Rightarrow> string \<Rightarrow> host \<Rightarrow> host" where
  "on_crash env reason h =
     stop_connectors env (log_note env LError ''Server'' (''OPC UA Runtime crashed: '' @ reason) h)"

definition child_report :: "host_env \<Rightarrow> pm_event \<Rightarrow> host \<Rightarrow> host" where
  "child_report env e h =
     (let pm = pm_apply (he_pm env) e (hs_pm h)
      in foldl (\<lambda>h reason. on_crash env reason h) (h\<lparr>hs_pm := pm\<rparr>)
           (drop (length (pm_crashes (hs_pm h))) (pm_crashes pm)))"

section \<open>The end\<close>

text \<open>The handler of a signal, up to its wait; the result tells whether it waits for the process.\<close>

definition shutdown_begin :: "host_env \<Rightarrow> string \<Rightarrow> host \<Rightarrow> bool \<times> host" where
  "shutdown_begin env signal h =
     (let h1 = log_note env LInfo ''Server'' (''Received '' @ signal @ ''. Shutting down gracefully...'') h;
          h2 = stop_connectors env (h1\<lparr>hs_sse := shutdown (he_throws env) (hs_sse h1)\<rparr>)
      in if running_runtime env h2 then
           (case pm_stop (he_pm env) (hs_pm h2) of
              (Some _, pm) \<Rightarrow> (False, h2\<lparr>hs_pm := pm\<rparr>)
            | (None, pm) \<Rightarrow> (True, h2\<lparr>hs_pm := pm\<rparr>))
         else (False, h2))"

text \<open>When the last connection of the HTTP server is closed.\<close>

definition shutdown_end :: "host \<Rightarrow> host" where
  "shutdown_end h = h\<lparr>hs_db := db_close (hs_db h)\<rparr>"

definition uncaught :: "host_env \<Rightarrow> string \<Rightarrow> host \<Rightarrow> host" where
  "uncaught env m h = log_note env LError ''Server'' (''Uncaught exception: '' @ m) h"

definition unhandled :: "host_env \<Rightarrow> string \<Rightarrow> host \<Rightarrow> host" where
  "unhandled env m h = log_note env LError ''Server'' (''Unhandled rejection: '' @ m) h"

section \<open>Loading\<close>

text \<open>A connector takes a mapping if it can read the address.\<close>

fun any_takes :: "any_connector \<Rightarrow> mapping \<Rightarrow> bool" where
  "any_takes (S7C _) m = True"
| "any_takes (ModbusC _) m = (\<not> isl (parseDeviceAddress (map_deviceAddress m)))"
| "any_takes (EipC _) m = True"
| "any_takes (PcccC _) m = rx_test PCCC_ADDRESS_REGEX (map_deviceAddress m)"

lemma any_add_result:
  assumes "any_held c (cfg_id cfg) = None"
  shows "fst (any_api (AddConnection cfg) c) = None \<longleftrightarrow> any_accepts c cfg"
  using assms
  by (cases c) (auto simp: addConnection_def held_def split_beta Let_def split: sum.splits)

lemma any_mapping_result:
  assumes "any_held c (map_connectionId m) \<noteq> None"
  shows "fst (any_api (AddMapping m) c) = None \<longleftrightarrow> any_takes c m"
  using assms
  by (cases c) (auto simp: held_def split_beta s7_addMapping_def modbus_addMapping_def
      eip_addMapping_def pccc_addMapping_def Let_def split: sum.splits option.splits if_splits)

lemma any_takes_api [simp]: "any_takes (snd (any_api call c)) = any_takes c"
  by (cases c) (simp_all add: split_beta fun_eq_iff)

lemma hand_over_simps:
  "snd (hand_over ty call r) = notify ty call r"
  "fst (hand_over ty call r) = (case getConnector ty r of None \<Rightarrow> None | Some c \<Rightarrow> fst (any_api call c))"
  by (simp_all add: hand_over_def notify_def split_beta Let_def split: option.split)

text \<open>The connectors, as far as they decide what is taken.\<close>

definition accepts_all :: "any_connector registry \<Rightarrow> connection_config list \<Rightarrow> bool" where
  "accepts_all r cs \<longleftrightarrow>
     (\<forall>c \<in> set cs. \<forall>k. getConnector (cfg_type c) r = Some k \<longrightarrow> any_accepts k c)"

definition takes_all :: "tables \<Rightarrow> any_connector registry \<Rightarrow> mapping list \<Rightarrow> bool" where
  "takes_all t r ms \<longleftrightarrow>
     (\<forall>m \<in> set ms. \<forall>c k. find_connection (map_connectionId m) t = Some c
        \<longrightarrow> getConnector (cfg_type c) r = Some k \<longrightarrow> any_takes k m)"

lemma notify_kind:
  "(\<forall>k. getConnector ty' (notify ty call r) = Some k \<longrightarrow> any_accepts k c)
     \<longleftrightarrow> (\<forall>k. getConnector ty' r = Some k \<longrightarrow> any_accepts k c)"
  "(\<forall>k. getConnector ty' (notify ty call r) = Some k \<longrightarrow> any_takes k m)
     \<longleftrightarrow> (\<forall>k. getConnector ty' r = Some k \<longrightarrow> any_takes k m)"
proof -
  have "getConnector ty' (notify ty call r) = getConnector ty' r
      \<or> (\<exists>k. getConnector ty' r = Some k \<and> getConnector ty' (notify ty call r) = Some (snd (any_api call k)))"
    by (cases "getConnector ty r") (auto simp: notify_connector)
  then show "(\<forall>k. getConnector ty' (notify ty call r) = Some k \<longrightarrow> any_accepts k c)
     \<longleftrightarrow> (\<forall>k. getConnector ty' r = Some k \<longrightarrow> any_accepts k c)"
    "(\<forall>k. getConnector ty' (notify ty call r) = Some k \<longrightarrow> any_takes k m)
     \<longleftrightarrow> (\<forall>k. getConnector ty' r = Some k \<longrightarrow> any_takes k m)"
    by (elim disjE exE conjE; simp add: any_kind(2))+
qed

lemma accepts_all_notify [simp]: "accepts_all (notify ty call r) cs = accepts_all r cs"
  by (simp add: accepts_all_def notify_kind)

lemma takes_all_notify [simp]: "takes_all t (notify ty call r) ms = takes_all t r ms"
proof -
  have "takes_all t r ms \<longleftrightarrow> (\<forall>m \<in> set ms. \<forall>c. find_connection (map_connectionId m) t = Some c
      \<longrightarrow> (\<forall>k. getConnector (cfg_type c) r = Some k \<longrightarrow> any_takes k m))" for r
    by (auto simp: takes_all_def)
  then show ?thesis by (simp add: notify_kind)
qed

lemma hand_over_pair: "hand_over ty call r = (fst (hand_over ty call r), notify ty call r)"
  by (metis hand_over_simps(1) prod.collapse)

lemma load_connections_outcome:
  assumes "in_step (t\<lparr>t_connections := ps\<rparr>) r" "distinct (map cfg_id (ps @ cs))"
  shows "(fst (load_connections cs r) = None \<longleftrightarrow> accepts_all r cs)
    \<and> (accepts_all r cs \<longrightarrow> in_step (t\<lparr>t_connections := ps @ cs\<rparr>) (snd (load_connections cs r)))
    \<and> (declared r \<longrightarrow> declared (snd (load_connections cs r)))
    \<and> (\<forall>ms u. takes_all u (snd (load_connections cs r)) ms = takes_all u r ms)"
  using assms
proof (induction cs arbitrary: ps r)
  case Nil
  then show ?case by (simp add: accepts_all_def)
next
  case (Cons c cs)
  let ?r1 = "notify (cfg_type c) (AddConnection c) r"
  have free: "any_held k (cfg_id c) = None" if "getConnector (cfg_type c) r = Some k" for k
  proof -
    have "any_held k = row_of (t\<lparr>t_connections := ps\<rparr>) (cfg_type c)"
      using in_stepD [OF Cons.prems(1) that] by blast
    moreover have "row_of (t\<lparr>t_connections := ps\<rparr>) (cfg_type c) (cfg_id c) = None"
      using Cons.prems(2) unfolding row_of_def find_None by (auto simp: image_iff)
    ultimately show ?thesis by simp
  qed
  have ok: "fst (hand_over (cfg_type c) (AddConnection c) r) = None
      \<longleftrightarrow> (\<forall>k. getConnector (cfg_type c) r = Some k \<longrightarrow> any_accepts k c)"
    using free by (auto simp: hand_over_simps any_add_result split: option.split)
  have all: "accepts_all r (c # cs)
      \<longleftrightarrow> (\<forall>k. getConnector (cfg_type c) r = Some k \<longrightarrow> any_accepts k c) \<and> accepts_all r cs"
    by (simp add: accepts_all_def)
  show ?case
  proof (cases "fst (hand_over (cfg_type c) (AddConnection c) r)")
    case (Some m)
    then have "load_connections (c # cs) r = (Some m, ?r1)"
      by (subst load_connections.simps, subst hand_over_pair) simp
    moreover have "\<not> accepts_all r (c # cs)" using ok all Some by simp
    ultimately show ?thesis using notify_declared by simp
  next
    case None
    then have l: "load_connections (c # cs) r = load_connections cs ?r1"
      by (subst load_connections.simps, subst hand_over_pair) simp
    have "in_step (t\<lparr>t_connections := ps @ [c]\<rparr>) ?r1"
      using in_step_created [OF Cons.prems(1), of c] Cons.prems(2) ok None by simp
    from Cons.IH [OF this] Cons.prems(2) have
      "(fst (load_connections cs ?r1) = None \<longleftrightarrow> accepts_all ?r1 cs)
      \<and> (accepts_all ?r1 cs \<longrightarrow> in_step (t\<lparr>t_connections := ps @ c # cs\<rparr>) (snd (load_connections cs ?r1)))
      \<and> (declared ?r1 \<longrightarrow> declared (snd (load_connections cs ?r1)))
      \<and> (\<forall>ms u. takes_all u (snd (load_connections cs ?r1)) ms = takes_all u ?r1 ms)"
      by simp
    then show ?thesis using l all ok None notify_declared by simp
  qed
qed

lemma in_step_mapping:
  assumes "in_step t r"
  shows "in_step t (notify ty (AddMapping m) r)"
  using assms
proof (rule in_step_notify)
  fix c assume "getConnector ty r = Some c"
  from in_stepD [OF assms this] show "any_held (snd (any_api (AddMapping m) c)) = row_of t ty
      \<and> (\<forall>i cfg. row_of t ty i = Some cfg \<longrightarrow> any_accepts c cfg)"
    by (simp add: any_held_mapping)
qed simp

lemma load_mappings_outcome:
  assumes "in_step t r" "distinct (map cfg_id (t_connections t))"
    and "db_tables d = t" "db_open d" "db_alive d"
  shows "(fst (load_mappings sql ms (d, r)) = None \<longleftrightarrow> takes_all t r ms)
    \<and> db_tables (fst (snd (load_mappings sql ms (d, r)))) = t
    \<and> in_step t (snd (snd (load_mappings sql ms (d, r))))
    \<and> (declared r \<longrightarrow> declared (snd (snd (load_mappings sql ms (d, r)))))"
  using assms
proof (induction ms arbitrary: d r)
  case Nil
  then show ?case by (simp add: takes_all_def)
next
  case (Cons m ms)
  let ?d1 = "snd (findConnectionById (map_connectionId m) d)"
  have d1: "db_tables ?d1 = t" "db_open ?d1" "db_alive ?d1" using Cons.prems(3-5) by simp_all
  have f: "findConnectionById (map_connectionId m) d
      = (Inr (find_connection (map_connectionId m) t), ?d1)"
    using connection_find_alive [OF Cons.prems(4,5)] Cons.prems(3) by (metis prod.collapse)
  show ?case
  proof (cases "find_connection (map_connectionId m) t")
    case None
    then have "load_mappings sql (m # ms) (d, r) = load_mappings sql ms (?d1, r)"
      by (subst load_mappings.simps, subst f) simp
    moreover have "takes_all t r (m # ms) = takes_all t r ms"
      using None by (simp add: takes_all_def)
    ultimately show ?thesis using Cons.IH [OF Cons.prems(1,2) d1] by simp
  next
    case (Some c)
    let ?r1 = "notify (cfg_type c) (AddMapping m) r"
    have c: "c \<in> set (t_connections t)" "cfg_id c = map_connectionId m"
      using Some Cons.prems(2) by (simp_all add: found_iff)
    have "fst (hand_over (cfg_type c) (AddMapping m) r) = None
        \<longleftrightarrow> (\<forall>k. getConnector (cfg_type c) r = Some k \<longrightarrow> any_takes k m)"
    proof (cases "getConnector (cfg_type c) r")
      case (Some k)
      have "row_of t (cfg_type c) (map_connectionId m) = Some c"
        using c Cons.prems(2) by (simp add: row_of_iff)
      moreover have "any_held k = row_of t (cfg_type c)"
        using in_stepD [OF Cons.prems(1) Some] by blast
      ultimately have "any_held k (map_connectionId m) \<noteq> None" by simp
      from any_mapping_result [OF this] Some show ?thesis by (simp add: hand_over_simps)
    qed (simp add: hand_over_simps)
    then have ok: "takes_all t r (m # ms)
        \<longleftrightarrow> fst (hand_over (cfg_type c) (AddMapping m) r) = None \<and> takes_all t r ms"
      using Some by (simp add: takes_all_def)
    show ?thesis
    proof (cases "fst (hand_over (cfg_type c) (AddMapping m) r)")
      case (Some e)
      have "load_mappings sql (m # ms) (d, r) = (Some e, ?d1, ?r1)"
        by (subst load_mappings.simps, subst f, subst \<open>find_connection _ t = Some c\<close>, subst hand_over_pair)
          (simp add: Some)
      then show ?thesis
        using ok Some d1 in_step_mapping [OF Cons.prems(1)] notify_declared by simp
    next
      case None
      have "load_mappings sql (m # ms) (d, r) = load_mappings sql ms (?d1, ?r1)"
        by (subst load_mappings.simps, subst f, subst \<open>find_connection _ t = Some c\<close>, subst hand_over_pair)
          (simp add: None)
      then show ?thesis
        using Cons.IH [OF in_step_mapping [OF Cons.prems(1)] Cons.prems(2) d1, of "cfg_type c" m]
          ok None notify_declared by simp
    qed
  qed
qed

lemma row_of_permuted:
  assumes "distinct (map cfg_id cs)" "set ds = set cs" "distinct (map cfg_id ds)"
  shows "row_of (t\<lparr>t_connections := ds\<rparr>) = row_of (t\<lparr>t_connections := cs\<rparr>)"
  by (rule ext, rule row_ext) (use assms in \<open>simp add: row_of_iff\<close>)

lemma in_step_permuted:
  assumes "in_step (t\<lparr>t_connections := ds\<rparr>) r" "distinct (map cfg_id cs)" "set ds = set cs"
    "distinct (map cfg_id ds)"
  shows "in_step (t\<lparr>t_connections := cs\<rparr>) r"
  using assms(1) unfolding in_step_def row_of_permuted [OF assms(2-4)] .

lemma rows_listed [simp]:
  "connections_of (map CConnection cs) = cs" "mappings_of (map CMapping ms) = ms"
  by (induction cs, simp_all add: connections_of_def List.map_filter_simps)
    (induction ms, simp_all add: mappings_of_def List.map_filter_simps)

text \<open>A registry as it is filled from the plugins: nothing is in its connectors.\<close>

definition empty_registry :: "any_connector registry \<Rightarrow> bool" where
  "empty_registry r \<longleftrightarrow>
     (\<forall>ty c. getConnector ty r = Some c \<longrightarrow> any_linv c \<and> any_held c = (\<lambda>_. None))"

lemma startup_result:
  assumes "db_open d" "db_alive d" "distinct (map cfg_id (t_connections (db_tables d)))"
    and "empty_registry r"
  shows "let (failed, d', r') = startup_load sql (d, r) in
    (failed = None \<longleftrightarrow> accepts_all r (t_connections (db_tables d))
        \<and> takes_all (db_tables d) r (t_mappings (db_tables d)))
    \<and> db_tables d' = db_tables d
    \<and> (failed = None \<longrightarrow> in_step (db_tables d) r' \<and> (declared r \<longrightarrow> declared r'))"
proof -
  let ?t = "db_tables d"
  let ?cs = "sort_key cfg_name (t_connections ?t)"
  let ?ms = "sort_key map_connectionId (sort_key map_deviceAddress (t_mappings ?t))"
  define d1 where "d1 = snd (findAllConnections None d)"
  have d1: "db_tables d1 = ?t" "db_open d1" "db_alive d1"
    using assms(1,2) by (simp_all add: d1_def findAllConnections_def)
  have all: "findAllConnections None d = (Inr (map CConnection ?cs), d1)"
    using assms(1,2) unfolding d1_def
    by (simp add: prod_eq_iff findAllConnections_def read_alive all_connections_query_def)
  define d2 where "d2 = snd (findAllMappings None d1)"
  have d2: "db_tables d2 = ?t" "db_open d2" "db_alive d2"
    using d1 by (simp_all add: d2_def findAllMappings_def)
  have maps: "findAllMappings None d1 = (Inr (map CMapping ?ms), d2)"
    using d1 unfolding d2_def
    by (simp add: prod_eq_iff findAllMappings_def read_alive all_mappings_query_def)
  have dist: "distinct (map cfg_id ?cs)"
    using assms(3) by (simp add: distinct_map)
  have fresh: "in_step (?t\<lparr>t_connections := []\<rparr>) r"
    using assms(4) by (simp add: in_step_def empty_registry_def row_of_def fun_eq_iff)
  obtain f1 r1 where l: "load_connections ?cs r = (f1, r1)" by (cases "load_connections ?cs r")
  have loaded: "f1 = None \<longleftrightarrow> accepts_all r (t_connections ?t)"
    "accepts_all r (t_connections ?t) \<Longrightarrow> in_step (?t\<lparr>t_connections := ?cs\<rparr>) r1"
    "declared r \<Longrightarrow> declared r1" "takes_all u r1 ms = takes_all u r ms" for u ms
    using load_connections_outcome [OF fresh, of ?cs] dist unfolding l by (simp_all add: accepts_all_def)
  show ?thesis
  proof (cases f1)
    case (Some m)
    have "startup_load sql (d, r) = (Some m, d1, r1)"
      by (simp add: startup_load_def all l Some)
    with Some loaded(1) d1(1) show ?thesis by simp
  next
    case None
    have s: "in_step ?t r1"
      using in_step_permuted [OF loaded(2) assms(3) _ dist] None loaded(1) by simp
    have "startup_load sql (d, r) = load_mappings sql ?ms (d2, r1)"
      by (simp add: startup_load_def all l None maps)
    moreover have "takes_all ?t r ?ms = takes_all ?t r (t_mappings ?t)" by (simp add: takes_all_def)
    ultimately show ?thesis
      using load_mappings_outcome [OF s assms(3) d2, of sql ?ms] None loaded
      by (simp add: split_beta Let_def)
  qed
qed

text \<open>C28: The process comes up exactly if every stored connection and every stored mapping is one
  that the connector for it, if there is one, takes; a single one it does not take ends the
  process. When it comes up, the connectors manage the stored connections and nothing else.\<close>

theorem startup_outcome:
  assumes "db_open d" "db_alive d" "distinct (map cfg_id (t_connections (db_tables d)))"
    and "empty_registry r"
  shows "let (failed, d', r') = startup_load sql (d, r) in
    (failed = None \<longleftrightarrow> accepts_all r (t_connections (db_tables d))
        \<and> takes_all (db_tables d) r (t_mappings (db_tables d)))
    \<and> db_tables d' = db_tables d
    \<and> (failed = None \<longrightarrow> in_step (db_tables d) r' \<and> (declared r \<longrightarrow> declared r'))"
  using startup_result [OF assms] .

section \<open>A mapping nobody can read\<close>

lemma mapping_created:
  assumes "createMapping i now rq d = (Inr (Inr m), d1)"
  shows "db_open d1 \<and> db_alive d1
    \<and> db_tables d1 = (db_tables d)\<lparr>t_mappings := t_mappings (db_tables d) @ [new_mapping i now rq]\<rparr>"
proof -
  from assms obtain found d0 where f: "findConnectionById (cm_connectionId rq) d = (Inr found, d0)"
    and w: "answer (db_write (insert_mapping (new_mapping i now rq)) d0) = (Inr (Inr m), d1)"
    unfolding createMapping_def
    by (elim and_then_done) (auto simp: refuse_def split: if_splits option.splits)
  have a: "db_open d0" "db_alive d0" using write_done(1,2) [OF w] by simp_all
  have "db_tables d0 = db_tables d"
    using connection_find_fields(1) [of "cm_connectionId rq" d] f by simp
  with statement_done [OF write_done(3) [OF w, unfolded insert_mapping_def]]
  have "db_tables d1 = (db_tables d)\<lparr>t_mappings := t_mappings (db_tables d) @ [new_mapping i now rq]\<rparr>"
    by simp
  moreover have "d1 = snd (db_write (insert_mapping (new_mapping i now rq)) d0)"
    using w answer_simps(1) [of "db_write (insert_mapping (new_mapping i now rq)) d0"] by simp
  ultimately show ?thesis using a by (simp add: db_write_reach)
qed

lemma notify_mapping_db:
  "db_tables (fst (notify_mapping c call (d, r))) = db_tables d"
  "db_open (fst (notify_mapping c call (d, r))) = db_open d"
  "db_alive (fst (notify_mapping c call (d, r))) = db_alive d"
proof -
  have "fst (notify_mapping c call (d, r)) = snd (findConnectionById c d)"
    by (auto simp: notify_mapping_def split: prod.split sum.split option.split)
  then show
    "db_tables (fst (notify_mapping c call (d, r))) = db_tables d"
    "db_open (fst (notify_mapping c call (d, r))) = db_open d"
    "db_alive (fst (notify_mapping c call (d, r))) = db_alive d"
    by simp_all
qed

lemma startup_fails:
  assumes "db_open d" "db_alive d" "distinct (map cfg_id (t_connections (db_tables d)))"
    and "empty_registry r" "\<not> takes_all (db_tables d) r (t_mappings (db_tables d))"
  shows "fst (startup_load sql (d, r)) \<noteq> None"
  using startup_result [OF assms(1-4), of sql] assms(5) by (auto simp: Let_def split: prod.splits)

text \<open>What a request for a mapping has to bring for the repository: an address of its connection that is
  free, and no variable or one that exists and has no mapping.\<close>

definition fits :: "create_mapping_request \<Rightarrow> tables \<Rightarrow> bool" where
  "fits rq t \<longleftrightarrow>
     list_all (\<lambda>m. map_connectionId m \<noteq> cm_connectionId rq \<or> map_deviceAddress m \<noteq> cm_deviceAddress rq)
       (t_mappings t)
     \<and> (case cm_nodeId rq of None \<Rightarrow> True
         | Some n \<Rightarrow> n \<noteq> [] \<and> List.member (map nd_id (t_nodes t)) n
             \<and> list_all (\<lambda>m. map_nodeId m \<noteq> Some n) (t_mappings t))"

lemma mapping_integrity:
  assumes "integrity t" "5 \<le> t_version t" "fits rq t"
    and "find_connection (cm_connectionId rq) t = Some c" "i \<notin> map_id ` set (t_mappings t)"
  shows "integrity (t\<lparr>t_mappings := t_mappings t @ [new_mapping i now rq]\<rparr>)"
proof -
  have "c \<in> set (t_connections t)" "cfg_id c = cm_connectionId rq"
    using assms(1,4) by (simp_all add: found_iff integrity_def unique_ok_def)
  then have "cm_connectionId rq \<in> cfg_id ` set (t_connections t)" by (metis imageI)
  then show ?thesis
    using assms(1,2,3,5)
    by (auto simp: integrity_def notnull_ok_def unique_ok_def foreign_ok_def fits_def new_mapping_def
        list_all_iff ref_ok_iff image_iff split: option.splits)
qed

lemma mapping_stored:
  assumes "integrity (db_tables d)" "5 \<le> t_version (db_tables d)" "fits rq (db_tables d)"
    and "find_connection (cm_connectionId rq) (db_tables d) = Some c"
    and "i \<notin> map_id ` set (t_mappings (db_tables d))" "db_open d" "db_alive d"
  shows "\<exists>d1. createMapping i now rq d = (Inr (Inr (new_mapping i now rq)), d1)"
proof -
  let ?t = "db_tables d" let ?m = "new_mapping i now rq"
  define d0 where "d0 = snd (findConnectionById (cm_connectionId rq) d)"
  have d0: "db_tables d0 = ?t" "db_open d0" "db_alive d0" "db_accessible d0"
    using assms(6,7) by (simp_all add: d0_def)
  have f: "findConnectionById (cm_connectionId rq) d = (Inr (Some c), d0)"
    using connection_find_alive [OF assms(6,7)] assms(4) by (simp add: d0_def prod_eq_iff)
  have node: "node_refusal (cm_nodeId rq) d0 = None"
    using assms(3) d0
    by (auto simp: fits_def node_refusal_def nodeExists_def findMappingByNodeId_def try_select_alive
        find_None list_all_iff Let_def split: option.splits)
  have address: "findMappingByConnectionAndAddress (cm_connectionId rq) (cm_deviceAddress rq) d0 = None"
    using assms(3) d0
    by (auto simp: fits_def findMappingByConnectionAndAddress_def try_select_alive find_None list_all_iff)
  have row: "find_row (map_id ?m) (?t\<lparr>t_mappings := t_mappings ?t @ [?m]\<rparr>) = Some ?m"
    using assms(5) unfolding find_row_def
    by (simp, intro find_snoc) (auto simp: find_None new_mapping_def image_iff)
  have "insert_mapping ?m ?t = (Inr ?m, ?t\<lparr>t_mappings := t_mappings ?t @ [?m]\<rparr>)"
    unfolding insert_mapping_def
    by (subst statement_outcome) (simp add: mapping_integrity [OF assms(1-5)] row)
  then have "fst (answer (db_write (insert_mapping ?m) d0)) = Inr (Inr ?m)"
    using d0 by (simp add: db_write_alive)
  moreover have "createMapping i now rq d = answer (db_write (insert_mapping ?m) d0)"
    by (simp add: createMapping_def and_then_def f node address)
  ultimately show ?thesis by (metis prod.collapse)
qed

text \<open>C29: The address of a mapping is not checked when it is created. On a database of the current
  version that can be reached, a request that passes the checks there are - its fields are there, its connection exists, its address is not mapped yet, and its
  variable, if it names one, exists and is not mapped - is answered with 201 and stored, also if
  the connector of its connection cannot read the address: what the connector throws goes no
  further. The next time the process starts, with a connector for the type, loading the mapping
  throws again, and this ends the process.\<close>

theorem unreadable_mapping_prevents_start:
  assumes "integrity (db_tables d)" "5 \<le> t_version (db_tables d)" "db_open d" "db_alive d"
    and "create_mapping_errors b = []" "create_mapping_body b = Some rq" "fits rq (db_tables d)"
    and "find_connection (cm_connectionId rq) (db_tables d) = Some c"
    and "i \<notin> map_id ` set (t_mappings (db_tables d))"
    and "empty_registry r0" "getConnector (cfg_type c) r0 = Some k"
    and "\<not> any_takes k (new_mapping i now rq)"
  shows "\<exists>rs d' r'. post_mapping env i now b (d, r) = Some (rs, d', r') \<and> rs_status rs = 201
    \<and> db_tables d' = (db_tables d)\<lparr>t_mappings := t_mappings (db_tables d) @ [new_mapping i now rq]\<rparr>
    \<and> r' = notify (cfg_type c) (AddMapping (new_mapping i now rq)) r
    \<and> fst (startup_load sql (d', r0)) \<noteq> None"
proof -
  let ?m = "new_mapping i now rq"
  obtain d1 where c: "createMapping i now rq d = (Inr (Inr ?m), d1)"
    using mapping_stored [OF assms(1,2,7,8,9,3,4)] by blast
  define p where "p = notify_mapping (cm_connectionId rq) (AddMapping ?m) (d1, r)"
  have post: "post_mapping env i now b (d, r) = Some (respond 201 (mapping_row_json ?m), fst p, snd p)"
    using assms(5,6) c by (simp add: post_mapping_def finish_def p_def new_mapping_def)
  from mapping_created [OF c] have d1: "db_open d1" "db_alive d1"
    "db_tables d1 = (db_tables d)\<lparr>t_mappings := t_mappings (db_tables d) @ [?m]\<rparr>"
    by simp_all
  have same: "find_connection j (t\<lparr>t_mappings := ms\<rparr>) = find_connection j t" for j t ms
    by (simp add: find_connection_def)
  obtain d2 where "findConnectionById (cm_connectionId rq) d1 = (Inr (Some c), d2)"
    using connection_find_alive [OF d1(1,2), of "cm_connectionId rq"] assms(8)
    by (cases "findConnectionById (cm_connectionId rq) d1") (simp add: d1(3) same)
  then have told: "snd p = notify (cfg_type c) (AddMapping ?m) r"
    by (simp add: p_def notify_mapping_def)
  have p: "db_tables (fst p) = db_tables d1" "db_open (fst p)" "db_alive (fst p)"
    using d1(1,2) by (simp_all add: p_def notify_mapping_db)
  have "\<not> takes_all (db_tables (fst p)) r0 (t_mappings (db_tables (fst p)))"
    using assms(8,11,12) by (auto simp: p(1) d1(3) same takes_all_def new_mapping_def)
  moreover have "distinct (map cfg_id (t_connections (db_tables (fst p))))"
    using assms(1) by (simp add: p(1) d1(3) integrity_def unique_ok_def)
  ultimately have "fst (startup_load sql (fst p, r0)) \<noteq> None"
    using p(2,3) assms(10) by (intro startup_fails)
  with post told p(1) d1(3) show ?thesis
    by (intro exI [of _ "respond 201 (mapping_row_json ?m)"] exI [of _ "fst p"] exI [of _ "snd p"])
      (simp add: respond_def)
qed

section \<open>A crash\<close>

lemma stop_exits_crashes: "pm_crashes (foldl (stop_exit env c) s ws) = pm_crashes s"
  by (induction ws arbitrary: s)
    (simp_all add: stop_exit_def pm_cleanup_def pm_broadcastStatus_def pm_broadcastClients_def pm_send_def)

lemma exit_crashes:
  assumes "\<not> pm_stopping s"
  shows "\<exists>reason. pm_crashes (on_exit env c x s) = pm_crashes s @ [reason]"
  using assms by (simp add: on_exit_def Let_def stop_exits_crashes pm_crash_def)

text \<open>When the runtime exits without having been told to, the callback stops every connector:
  no connection is reported as connected afterwards, and no value is broadcast, whatever the
  connectors were doing.\<close>

lemma crash_stops_polling:
  assumes "\<not> pm_stopping (hs_pm h)"
    and "\<forall>k c. (k, c) \<in> set (reg_connectors (hs_reg h)) \<longrightarrow> any_linv c"
  shows "let h' = child_report env (PExit c x) h in
    (\<forall>st \<in> set (getAggregatedStatus any_ops (hs_reg h')). cs_state st \<noteq> Connected)
    \<and> broadcastValues (he_time env) any_ops (hs_reg h') = hs_reg h'"
proof -
  obtain reason where "pm_crashes (on_exit (he_pm env) c x (hs_pm h)) = pm_crashes (hs_pm h) @ [reason]"
    using exit_crashes [OF assms(1)] by blast
  then have "hs_reg (child_report env (PExit c x) h) = stopAll (he_num env) (he_time env) any_ops (hs_reg h)"
    by (simp add: child_report_def Let_def on_crash_def stop_connectors_def)
  moreover have "connectors.reg_ok (hs_reg h)" using assms(2) by (simp add: connectors.reg_ok_def)
  ultimately show ?thesis
    by (simp add: Let_def connectors.stopAll_disconnects connectors.no_values_after_stopAll)
qed

section \<open>Runs\<close>

lemma loaded_empty: "empty_registry loaded_registry"
proof -
  have "row_of fresh_tables ty = (\<lambda>_. None)" for ty
    by (simp add: row_of_def fresh_tables_def fun_eq_iff)
  then show ?thesis
    unfolding empty_registry_def using in_stepD [OF loaded_in_step(1)] by simp
qed

lemma crash_stops_polling_witness:
  "let h = child_report (demo_host_env (demo_os True (\<lambda>_. None))) (PExit 0 (BySignal ''SIGSEGV'')) (demo_host (demo_plant []))
   in broadcastValues (\<lambda>_. ''t'') any_ops (hs_reg h) = hs_reg h"
proof -
  have "\<not> pm_stopping (hs_pm (demo_host (demo_plant [])))"
    by (simp add: demo_host_def pm_start_def new_manager_def Let_def pm_broadcastStatus_def pm_send_def)
  moreover have "\<forall>k c. (k, c) \<in> set (reg_connectors (hs_reg (demo_host (demo_plant [])))) \<longrightarrow> any_linv c"
    using program_registry_ok by (simp add: demo_host_def)
  ultimately show ?thesis
    using crash_stops_polling [of "demo_host (demo_plant [])" "demo_host_env (demo_os True (\<lambda>_. None))" 0 "BySignal ''SIGSEGV''"]
    by (simp add: Let_def demo_host_env_def)
qed

text \<open>A Modbus connection, and a mapping whose address is none of Modbus.\<close>

definition modbus_row :: connection_config where
  "modbus_row =
     \<lparr>cfg_id = ''c1'', cfg_type = ''modbus-tcp'', cfg_name = ''Meter'', cfg_params = JObj [(''host'', JStr ''10.0.0.9'')],
      cfg_pollingIntervalMs = 1000, cfg_reconnectIntervalMs = 5000, cfg_enabled = True, cfg_createdAt = ''t''\<rparr>"

definition modbus_db :: database where
  "modbus_db = (let d = open_database None
     in d\<lparr>db_tables := (db_tables d)\<lparr>t_connections := [modbus_row], t_version := 5\<rparr>\<rparr>)"

definition bogus_body :: jsval where
  "bogus_body = JObj [(''connectionId'', JStr ''c1''), (''deviceAddress'', JStr ''bogus'')]"

lemma modbus_registered:
  "\<exists>s. getConnector ''modbus-tcp'' loaded_registry = Some (ModbusC s)"
  by (simp add: getConnector_def loaded_connectors)

lemma modbus_db_facts: "db_open modbus_db" "db_alive modbus_db"
  "distinct (map cfg_id (t_connections (db_tables modbus_db)))"
  by (simp_all add: modbus_db_def open_database_def Let_def)

lemma unreadable_mapping_prevents_start_witness:
  "\<exists>rs d' r'. post_mapping connector_demo ''m1'' ''t'' bogus_body (modbus_db, new_registry) = Some (rs, d', r')
     \<and> rs_status rs = 201 \<and> fst (startup_load (\<lambda>_. ''error'') (d', loaded_registry)) \<noteq> None"
proof -
  let ?rq = "\<lparr>cm_connectionId = ''c1'', cm_nodeId = None, cm_deviceAddress = ''bogus'', cm_description = None\<rparr>"
  obtain s where s: "getConnector (cfg_type modbus_row) loaded_registry = Some (ModbusC s)"
    using modbus_registered by (auto simp: modbus_row_def)
  have body: "create_mapping_errors bogus_body = []" "create_mapping_body bogus_body = Some ?rq"
    by code_simp+
  have row: "find_connection (cm_connectionId ?rq) (db_tables modbus_db) = Some modbus_row"
    by (simp add: modbus_db_def find_connection_def modbus_row_def Let_def)
  have tables: "integrity (db_tables modbus_db)" "5 \<le> t_version (db_tables modbus_db)"
    "fits ?rq (db_tables modbus_db)" "''m1'' \<notin> map_id ` set (t_mappings (db_tables modbus_db))"
    by (simp_all add: modbus_db_def open_database_def applySchema_def fresh_tables_def fits_def Let_def
        integrity_def notnull_ok_def unique_ok_def foreign_ok_def)
  have "isl (parseDeviceAddress ''bogus'')" by code_simp
  then have "\<not> any_takes (ModbusC s) (new_mapping ''m1'' ''t'' ?rq)"
    by (simp add: new_mapping_def)
  from unreadable_mapping_prevents_start [OF tables(1,2) modbus_db_facts(1,2) body tables(3) row tables(4)
      loaded_empty s this] show ?thesis by blast
qed

lemma startup_outcome_witness:
  "\<exists>p. startup_load (\<lambda>_. ''error'') (modbus_db, loaded_registry) = (None, p)
     \<and> in_step (db_tables modbus_db) (snd p) \<and> declared (snd p)"
proof -
  have "accepts_all loaded_registry (t_connections (db_tables modbus_db))"
    by (auto simp: accepts_all_def accepts_host modbus_db_def modbus_row_def getprop_def Let_def)
  moreover have "takes_all (db_tables modbus_db) loaded_registry (t_mappings (db_tables modbus_db))"
    by (simp add: takes_all_def modbus_db_def open_database_def applySchema_def fresh_tables_def Let_def)
  ultimately show ?thesis
    using startup_outcome [OF modbus_db_facts loaded_empty, of "\<lambda>_. ''error''"] loaded_in_step(2)
    by (auto simp: Let_def split: prod.splits)
qed

end
