(* ===== verification/FileRoutes.thy ===== *)
theory FileRoutes
  imports Http "HOL-Library.Multiset"
begin

text \<open>
  \<open>src/api/routes/files.ts\<close>: the listing of a directory of the server, for choosing a certificate.
  Directories are read through the environment; \<open>path.extname\<close> and the stable sort are those of
  the standard library, \<open>localeCompare\<close> is a parameter.
\<close>

section \<open>Environment\<close>

datatype entry_kind = Directory | RegularFile | OtherKind

text \<open>
  \<open>br_stat\<close>: what is at a path, if it can be told; \<open>br_read\<close>: the entries of a directory or the
  message of the error; \<open>br_call\<close>: the text of the engine for a call on a value without the method.
\<close>

record browse_env =
  br_cwd :: string
  br_resolve :: "string \<Rightarrow> string"
  br_join :: "string \<Rightarrow> string \<Rightarrow> string"
  br_stat :: "string \<Rightarrow> entry_kind option"
  br_read :: "string \<Rightarrow> string + (string \<times> entry_kind) list"
  br_compare :: "string \<Rightarrow> string \<Rightarrow> int"
  br_call :: "string \<Rightarrow> string"

record file_entry =
  fe_name :: string
  fe_path :: string
  fe_isDirectory :: bool

section \<open>Paths\<close>

definition backslash :: char where
  "backslash = CHR 0x5C"

definition PATH_TRAVERSAL_PATTERNS :: "string list" where
  "PATH_TRAVERSAL_PATTERNS =
     [''../'', [CHR ''.'', CHR ''.'', backslash], ''%2e%2e/'', ''%2e%2e'' @ [backslash]]"

definition containsPathTraversal :: "string \<Rightarrow> bool" where
  "containsPathTraversal input =
     (let lower = toLowerCase input
      in list_ex (\<lambda>p. str_includes lower (toLowerCase p)) PATH_TRAVERSAL_PATTERNS)"

text \<open>\<open>extname\<close> of a name without separators: from its last dot, unless that is its first character.\<close>

definition extname :: "string \<Rightarrow> string" where
  "extname name =
     (let parts = split_on CHR ''.'' name in
      if length parts < 2 \<or> name = ''..'' then []
      else if length parts = 2 \<and> hd parts = [] then []
      else CHR ''.'' # last parts)"

section \<open>Entries\<close>

text \<open>\<open>extensions.some((ext) => ext.toLowerCase() === fileExt)\<close>\<close>

fun some_extension :: "jsval list \<Rightarrow> string \<Rightarrow> string + bool" where
  "some_extension [] x = Inr False"
| "some_extension (JStr e # es) x = (if toLowerCase e = x then Inr True else some_extension es x)"
| "some_extension (_ # es) x = Inl ''ext.toLowerCase''"

text \<open>Is a file of that name listed?\<close>

definition extension_matches :: "jsval \<Rightarrow> string \<Rightarrow> string + bool" where
  "extension_matches extensions name =
     (case extensions of
        JArr xs \<Rightarrow> if length xs = 0 then Inr True else some_extension xs (toLowerCase (extname name))
      | JStr s \<Rightarrow> if length s = 0 then Inr True else Inl ''extensions.some''
      | JObj ps \<Rightarrow>
          if getprop ps ''length'' = jint 0 then Inr True else Inl ''extensions.some''
      | _ \<Rightarrow> Inl ''extensions.some'')"

fun list_entries ::
  "(string \<Rightarrow> string) \<Rightarrow> jsval \<Rightarrow> (string \<times> entry_kind) list \<Rightarrow> string + file_entry list" where
  "list_entries path exts [] = Inr []"
| "list_entries path exts ((n, k) # ds) =
     (case k of
        Directory \<Rightarrow> map_sum id (Cons \<lparr>fe_name = n, fe_path = path n, fe_isDirectory = True\<rparr>) (list_entries path exts ds)
      | RegularFile \<Rightarrow>
          (case extension_matches exts n of
             Inl call \<Rightarrow> Inl call
           | Inr m \<Rightarrow>
               map_sum id (\<lambda>es. if m then \<lparr>fe_name = n, fe_path = path n, fe_isDirectory = False\<rparr> # es else es)
                 (list_entries path exts ds))
      | OtherKind \<Rightarrow> list_entries path exts ds)"

definition entry_compare :: "(string \<Rightarrow> string \<Rightarrow> int) \<Rightarrow> file_entry \<Rightarrow> file_entry \<Rightarrow> int" where
  "entry_compare cmp a b =
     (if fe_isDirectory a \<and> \<not> fe_isDirectory b then -1
      else if \<not> fe_isDirectory a \<and> fe_isDirectory b then 1
      else cmp (fe_name a) (fe_name b))"

text \<open>A stable sort by a comparison.\<close>

fun insert_by :: "('a \<Rightarrow> 'a \<Rightarrow> int) \<Rightarrow> 'a \<Rightarrow> 'a list \<Rightarrow> 'a list" where
  "insert_by cmp x [] = [x]"
| "insert_by cmp x (y # ys) = (if cmp x y \<le> 0 then x # y # ys else y # insert_by cmp x ys)"

definition sort_by :: "('a \<Rightarrow> 'a \<Rightarrow> int) \<Rightarrow> 'a list \<Rightarrow> 'a list" where
  "sort_by cmp xs = foldr (insert_by cmp) xs []"

section \<open>The handler\<close>

definition entry_json :: "file_entry \<Rightarrow> jsval" where
  "entry_json e =
     JObj [(''name'', JStr (fe_name e)), (''path'', JStr (fe_path e)), (''isDirectory'', JBool (fe_isDirectory e))]"

definition browse_response :: "file_entry list \<Rightarrow> string \<Rightarrow> response" where
  "browse_response es path =
     respond 200 (JObj [(''entries'', JArr (map entry_json es)), (''currentPath'', JStr path), (''selectedPath'', JNull)])"

definition invalid_start :: response where
  "invalid_start = error_response 400 ''VALIDATION_ERROR'' ''Invalid start path''"

definition list_directory :: "browse_env \<Rightarrow> jsval \<Rightarrow> string \<Rightarrow> response" where
  "list_directory env extensions path =
     (case br_stat env path of
        Some Directory \<Rightarrow>
          (case br_read env path of
             Inl m \<Rightarrow> internal_error m
           | Inr dirents \<Rightarrow>
               (case list_entries (br_join env path) extensions dirents of
                  Inl call \<Rightarrow> internal_error (br_call env call)
                | Inr es \<Rightarrow> browse_response (sort_by (entry_compare (br_compare env)) es) path))
      | _ \<Rightarrow> invalid_start)"

definition post_browse :: "browse_env \<Rightarrow> jsval \<Rightarrow> response" where
  "post_browse env body =
     (let startPath = nullish_or (body_field body ''startPath'') (JStr (br_cwd env));
          extensions = nullish_or (body_field body ''extensions'') (JArr [])
      in case startPath of
           JStr s \<Rightarrow>
             if containsPathTraversal s then error_response 403 ''ACCESS_DENIED'' ''Access denied''
             else list_directory env extensions (br_resolve env s)
         | _ \<Rightarrow> internal_error (br_call env ''input.toLowerCase''))"

section \<open>Sorting\<close>

text \<open>What is documented of a comparison of texts: a total preorder.\<close>

definition compares :: "('a \<Rightarrow> 'a \<Rightarrow> int) \<Rightarrow> bool" where
  "compares cmp \<longleftrightarrow>
     (\<forall>a b. cmp a b \<le> 0 \<or> cmp b a \<le> 0) \<and> (\<forall>a b c. cmp a b \<le> 0 \<longrightarrow> cmp b c \<le> 0 \<longrightarrow> cmp a c \<le> 0)"

lemma entry_compares: "compares cmp \<Longrightarrow> compares (entry_compare cmp)"
  unfolding compares_def entry_compare_def by (auto split: if_splits)

lemma insert_by_set [simp]: "set (insert_by cmp x ys) = insert x (set ys)"
  by (induction ys) auto

lemma insert_by_mset: "mset (insert_by cmp x ys) = add_mset x (mset ys)"
  by (induction ys) auto

lemma sort_by_mset [simp]: "mset (sort_by cmp xs) = mset xs"
  by (induction xs) (simp_all add: sort_by_def insert_by_mset)

lemma insert_by_sorted:
  assumes "compares cmp" "sorted_wrt (\<lambda>a b. cmp a b \<le> 0) ys"
  shows "sorted_wrt (\<lambda>a b. cmp a b \<le> 0) (insert_by cmp x ys)"
  using assms(2)
proof (induction ys)
  case Nil
  then show ?case by simp
next
  case (Cons y ys)
  show ?case
  proof (cases "cmp x y \<le> 0")
    case True
    have "cmp x z \<le> 0" if "z \<in> set ys" for z
    proof -
      have "cmp y z \<le> 0" using Cons.prems that by simp
      with True assms(1) show ?thesis unfolding compares_def by blast
    qed
    with True Cons.prems show ?thesis by simp
  next
    case False
    then have "cmp y x \<le> 0" using assms(1) unfolding compares_def by blast
    with False Cons show ?thesis by simp
  qed
qed

lemma sort_by_sorted:
  "compares cmp \<Longrightarrow> sorted_wrt (\<lambda>a b. cmp a b \<le> 0) (sort_by cmp xs)"
  unfolding sort_by_def by (induction xs) (simp_all add: insert_by_sorted)

section \<open>What is listed\<close>

definition wanted :: "string list \<Rightarrow> string \<times> entry_kind \<Rightarrow> bool" where
  "wanted exts d \<longleftrightarrow>
     snd d = Directory
     \<or> snd d = RegularFile \<and> (exts = [] \<or> toLowerCase (extname (fst d)) \<in> toLowerCase ` set exts)"

definition entry_of :: "(string \<Rightarrow> string) \<Rightarrow> string \<times> entry_kind \<Rightarrow> file_entry" where
  "entry_of path d = \<lparr>fe_name = fst d, fe_path = path (fst d), fe_isDirectory = (snd d = Directory)\<rparr>"

lemma some_extension_texts:
  "some_extension (map JStr exts) x = Inr (x \<in> toLowerCase ` set exts)"
  by (induction exts) auto

lemma extension_matches_texts:
  "extension_matches (JArr (map JStr exts)) n
     = Inr (exts = [] \<or> toLowerCase (extname n) \<in> toLowerCase ` set exts)"
  by (simp add: extension_matches_def some_extension_texts)

lemma list_entries_texts:
  "list_entries path (JArr (map JStr exts)) ds = Inr (map (entry_of path) (filter (wanted exts) ds))"
proof (induction ds)
  case (Cons d ds)
  obtain n k where d: "d = (n, k)" by (cases d)
  show ?case
    by (cases k) (simp_all add: d Cons.IH extension_matches_texts, simp_all add: wanted_def entry_of_def)
qed simp

text \<open>Browsing a directory lists each of its subdirectories, and each regular file whose
  extension is asked for, letter case not counting, exactly once, and nothing else: directories
  before files, each group in the order of the comparison.\<close>

lemma browse_lists:
  assumes "body_field body ''startPath'' = JStr s" "\<not> containsPathTraversal s"
    and "body_field body ''extensions'' = JArr (map JStr exts)"
    and "br_stat env (br_resolve env s) = Some Directory" "br_read env (br_resolve env s) = Inr ds"
    and "compares (br_compare env)"
  shows "\<exists>es. post_browse env body = browse_response es (br_resolve env s)
    \<and> mset es = mset (map (entry_of (br_join env (br_resolve env s))) (filter (wanted exts) ds))
    \<and> sorted_wrt (\<lambda>a b. fe_isDirectory b \<longrightarrow> fe_isDirectory a) es
    \<and> sorted_wrt (\<lambda>a b. fe_isDirectory a = fe_isDirectory b \<longrightarrow>
         br_compare env (fe_name a) (fe_name b) \<le> 0) es"
proof -
  let ?xs = "map (entry_of (br_join env (br_resolve env s))) (filter (wanted exts) ds)"
  let ?es = "sort_by (entry_compare (br_compare env)) ?xs"
  have "post_browse env body = browse_response ?es (br_resolve env s)"
    using assms(1-5) by (simp add: post_browse_def nullish_or_def nullish_def list_directory_def
        list_entries_texts)
  moreover have srt: "sorted_wrt (\<lambda>a b. entry_compare (br_compare env) a b \<le> 0) ?es"
    by (rule sort_by_sorted [OF entry_compares [OF assms(6)]])
  then have "sorted_wrt (\<lambda>a b. fe_isDirectory b \<longrightarrow> fe_isDirectory a) ?es"
    by (rule sorted_wrt_mono_rel [rotated]) (auto simp: entry_compare_def split: if_splits)
  moreover from srt have "sorted_wrt (\<lambda>a b. fe_isDirectory a = fe_isDirectory b \<longrightarrow>
      br_compare env (fe_name a) (fe_name b) \<le> 0) ?es"
    by (rule sorted_wrt_mono_rel [rotated]) (auto simp: entry_compare_def split: if_splits)
  ultimately show ?thesis
    by (intro exI [of _ ?es] conjI) simp_all
qed

text \<open>The check for traversal looks for a separator after the dots; without one the parent of a
  directory is listed.\<close>

lemma parent_is_listed:
  "\<not> containsPathTraversal ''..'' \<and> \<not> containsPathTraversal ''data/..'' \<and> containsPathTraversal ''../data''"
  by code_simp

definition demo_browse :: browse_env where
  "demo_browse =
     \<lparr>br_cwd = ''/app'', br_resolve = (\<lambda>s. if s = ''..'' then ''/'' else s), br_join = (\<lambda>d n. d @ n),
      br_stat = (\<lambda>_. Some Directory),
      br_read = (\<lambda>_. Inr [(''b.pem'', RegularFile), (''a.txt'', RegularFile), (''etc'', Directory), (''A.PEM'', RegularFile)]),
      br_compare = (\<lambda>a b. if a < b then -1 else if a = b then 0 else 1),
      br_call = id\<rparr>"

lemma demo_compares: "compares (br_compare demo_browse)"
  by (auto simp: compares_def demo_browse_def)

lemma browse_lists_witness:
  "\<exists>es. post_browse demo_browse (JObj [(''startPath'', JStr ''..''), (''extensions'', JArr [JStr ''.Pem''])])
      = browse_response es ''/'' \<and> length es = 3 \<and> fe_isDirectory (hd es)"
proof -
  let ?b = "JObj [(''startPath'', JStr ''..''), (''extensions'', JArr [JStr ''.Pem''])]"
  let ?ds = "[(''b.pem'', RegularFile), (''a.txt'', RegularFile), (''etc'', Directory), (''A.PEM'', RegularFile)]"
  have b: "body_field ?b ''startPath'' = JStr ''..''" "body_field ?b ''extensions'' = JArr (map JStr [''.Pem''])"
    by (simp_all add: getprop_def)
  have r: "br_stat demo_browse (br_resolve demo_browse ''..'') = Some Directory"
    "br_read demo_browse (br_resolve demo_browse ''..'') = Inr ?ds" "br_resolve demo_browse ''..'' = ''/''"
    by (simp_all add: demo_browse_def)
  from browse_lists [OF b(1) conjunct1 [OF parent_is_listed] b(2) r(1,2) demo_compares] obtain es where
    es: "post_browse demo_browse ?b = browse_response es ''/''"
    "mset es = mset (map (entry_of (br_join demo_browse ''/'')) (filter (wanted [''.Pem'']) ?ds))"
    "sorted_wrt (\<lambda>a b. fe_isDirectory b \<longrightarrow> fe_isDirectory a) es"
    unfolding r(3) by blast
  have w: "filter (wanted [''.Pem'']) ?ds = [(''b.pem'', RegularFile), (''etc'', Directory), (''A.PEM'', RegularFile)]"
    by code_simp
  have "length es = 3" using arg_cong [OF es(2), of size] unfolding w by simp
  moreover have "\<exists>e \<in> set es. fe_isDirectory e"
    using mset_eq_setD [OF es(2)] unfolding w by (auto simp: entry_of_def)
  then have "fe_isDirectory (hd es)"
    using es(3) by (cases es) auto
  ultimately show ?thesis using es(1) by blast
qed

end
