(* ===== verification/Application.thy ===== *)
theory Application
  imports Startup SecurityRoutes FileRoutes
begin

text \<open>
  \<open>src/api/app.ts\<close> as a whole: the table of routes in the order they are mounted, how a request
  finds its route, and the handlers of all routers on one state. What Express does with a
  path - segments, parameters, letter case - is written out in \<open>match_segs\<close>.
\<close>

section \<open>Routes\<close>

datatype handler =
    PostNodeH | GetNodesH | ExportNodesH | ImportNodesH | GetNodeH | PutNodeH | DeleteNodeH
  | PostNamespaceH | GetNamespacesH | PutNamespaceH | DeleteNamespaceH
  | PostObjectH | GetObjectTreeH | DeleteObjectH
  | PostStartH | PostStopH | PostReloadH | GetServerStatusH | GetClientsH
  | GetSecurityH | GetSuggestedSansH | GetDownloadH | PutPolicyH | PostCertificateH
  | PostGenerateH
  | GetProtocolsH | PostConnectionH | GetConnectionsH | PutConnectionH | DeleteConnectionH
  | PostMappingH | GetMappingsH | PutMappingH | DeleteMappingH | BulkMappingsH | ExportMappingsH
  | ImportMappingsH | GetConnectorStatusH | GetConnectorValuesH
  | BrowseFilesH
  | GetCertificatesH | RejectCertificateH | TrustCertificateH | DeleteCertificateH
  | OpenEventsH | GetLogsH

text \<open>A segment of a path: fixed, or a parameter.\<close>

datatype seg = Lit string | Par

type_synonym route = "string \<times> seg list \<times> handler"

abbreviation get :: "seg list \<Rightarrow> handler \<Rightarrow> route" where
  "get p h \<equiv> (''GET'', p, h)"

abbreviation post :: "seg list \<Rightarrow> handler \<Rightarrow> route" where
  "post p h \<equiv> (''POST'', p, h)"

abbreviation put :: "seg list \<Rightarrow> handler \<Rightarrow> route" where
  "put p h \<equiv> (''PUT'', p, h)"

abbreviation del :: "seg list \<Rightarrow> handler \<Rightarrow> route" where
  "del p h \<equiv> (''DELETE'', p, h)"

definition node_routes :: "route list" where
  "node_routes =
     [post [] PostNodeH, get [] GetNodesH, get [Lit ''export'', Lit ''csv''] ExportNodesH,
      post [Lit ''import'', Lit ''csv''] ImportNodesH, get [Par] GetNodeH, put [Par] PutNodeH,
      del [Par] DeleteNodeH]"

definition namespace_routes :: "route list" where
  "namespace_routes =
     [post [] PostNamespaceH, get [] GetNamespacesH, put [Par] PutNamespaceH, del [Par] DeleteNamespaceH]"

definition object_routes :: "route list" where
  "object_routes =
     [post [Lit ''object-nodes''] PostObjectH,
      get [Lit ''namespaces'', Par, Lit ''object-nodes''] GetObjectTreeH,
      del [Lit ''object-nodes'', Par] DeleteObjectH]"

definition server_routes :: "route list" where
  "server_routes =
     [post [Lit ''start''] PostStartH, post [Lit ''stop''] PostStopH, post [Lit ''reload''] PostReloadH,
      get [Lit ''status''] GetServerStatusH, get [Lit ''clients''] GetClientsH]"

definition security_routes :: "route list" where
  "security_routes =
     [get [] GetSecurityH, get [Lit ''suggested-sans''] GetSuggestedSansH,
      get [Lit ''certificate'', Lit ''download''] GetDownloadH, put [Lit ''policy''] PutPolicyH,
      post [Lit ''certificate''] PostCertificateH, post [Lit ''generate''] PostGenerateH]"

definition connector_routes :: "route list" where
  "connector_routes =
     [get [Lit ''protocols''] GetProtocolsH,
      post [Lit ''connections''] PostConnectionH, get [Lit ''connections''] GetConnectionsH,
      put [Lit ''connections'', Par] PutConnectionH, del [Lit ''connections'', Par] DeleteConnectionH,
      post [Lit ''mappings''] PostMappingH, get [Lit ''mappings''] GetMappingsH,
      put [Lit ''mappings'', Par] PutMappingH, del [Lit ''mappings'', Par] DeleteMappingH,
      post [Lit ''mappings'', Lit ''bulk''] BulkMappingsH,
      get [Lit ''mappings'', Lit ''export'', Lit ''csv''] ExportMappingsH,
      post [Lit ''mappings'', Lit ''import'', Lit ''csv''] ImportMappingsH,
      get [Lit ''status''] GetConnectorStatusH, get [Lit ''values''] GetConnectorValuesH]"

definition file_routes :: "route list" where
  "file_routes = [post [Lit ''browse''] BrowseFilesH]"

definition pki_routes :: "route list" where
  "pki_routes =
     [get [] GetCertificatesH, post [Par, Lit ''reject''] RejectCertificateH,
      post [Par, Lit ''trust''] TrustCertificateH, del [Par] DeleteCertificateH]"

definition event_routes :: "route list" where
  "event_routes = [get [] OpenEventsH]"

definition mount :: "string list \<Rightarrow> route list \<Rightarrow> route list" where
  "mount dir rs = map (\<lambda>(m, p, h). (m, map Lit dir @ p, h)) rs"

definition api_routes :: "route list" where
  "api_routes =
     mount [''api'', ''nodes''] node_routes @
     mount [''api'', ''namespaces''] namespace_routes @
     mount [''api''] object_routes @
     mount [''api'', ''server''] server_routes @
     mount [''api'', ''security''] security_routes @
     mount [''api'', ''connectors''] connector_routes @
     mount [''api'', ''files''] file_routes @
     mount [''api'', ''pki'', ''certificates''] pki_routes @
     mount [''api'', ''events''] event_routes @
     [get [Lit ''api'', Lit ''logs''] GetLogsH]"

section \<open>Finding a route\<close>

text \<open>Segments match without regard to case; a parameter takes one that is not empty, decoded.\<close>

fun match_segs :: "(string \<Rightarrow> string) \<Rightarrow> seg list \<Rightarrow> string list \<Rightarrow> string list option" where
  "match_segs dec [] [] = Some []"
| "match_segs dec (Lit l # ps) (s # ss) =
     (if toLowerCase s = toLowerCase l then match_segs dec ps ss else None)"
| "match_segs dec (Par # ps) (s # ss) =
     (if s \<noteq> [] then map_option (Cons (dec s)) (match_segs dec ps ss) else None)"
| "match_segs dec _ _ = None"

definition url_path :: "string \<Rightarrow> string" where
  "url_path url = takeWhile (\<lambda>c. c \<noteq> CHR ''?'') url"

text \<open>The segments between slashes; one slash at the end does not count.\<close>

definition path_segs :: "string \<Rightarrow> string list" where
  "path_segs path =
     (let ss = tl (split_on CHR ''/'' path)
      in if ss \<noteq> [] \<and> last ss = [] then butlast ss else ss)"

fun find_route ::
  "(string \<Rightarrow> string) \<Rightarrow> string \<Rightarrow> string list \<Rightarrow> route list \<Rightarrow> (handler \<times> string list) option" where
  "find_route dec m ss [] = None"
| "find_route dec m ss ((m', p, h) # rs) =
     (if m' = m then
        (case match_segs dec p ss of
           Some args \<Rightarrow> Some (h, args)
         | None \<Rightarrow> find_route dec m ss rs)
      else find_route dec m ss rs)"

definition routed :: "(string \<Rightarrow> string) \<Rightarrow> string \<Rightarrow> string \<Rightarrow> (handler \<times> string list) option" where
  "routed dec m url = find_route dec m (path_segs (url_path url)) api_routes"

section \<open>The handlers on one state\<close>

text \<open>
  The state of the process with the certificate stores. \<open>ap_fresh\<close> gives the ids and times of the
  statements of one request, \<open>ap_stream\<close> the response an event stream is written to. \<open>ap_body\<close> is the
  error of \<open>express.json()\<close> for the body of a request: it is too long, or not the text of an object
  or an array.
\<close>

type_synonym app_state = "tofu \<times> host"

record app_env = connector_env +
  ap_host :: host_env
  ap_decode :: "string \<Rightarrow> string"
  ap_fresh :: "nat \<Rightarrow> string \<times> string"
  ap_browse :: browse_env
  ap_certs :: "string \<Rightarrow> string + parsed_certificate"
  ap_fault :: "string \<Rightarrow> string option"
  ap_pipe_ops :: "process_manager runtime_ops"
  ap_stream :: nat
  ap_clock :: int
  ap_verify :: jwt_verify
  ap_auth :: auth_config
  ap_body :: "request \<Rightarrow> string option"

text \<open>
  What a handler leaves behind: an answer, a request that waits for the child process, an open
  stream, or none, if the repository was given a value no declared type has.
\<close>

datatype app_result = Answer response | WaitsForChild | Streams

type_synonym app_step = "(app_result \<times> app_state) option"

definition on_db :: "(database \<Rightarrow> response \<times> database) \<Rightarrow> app_state \<Rightarrow> app_step" where
  "on_db f s = (let (rs, d) = f (hs_db (snd s)) in Some (Answer rs, fst s, (snd s)\<lparr>hs_db := d\<rparr>))"

definition try_db :: "(database \<Rightarrow> (response \<times> database) option) \<Rightarrow> app_state \<Rightarrow> app_step" where
  "try_db f s =
     map_option (\<lambda>(rs, d). (Answer rs, fst s, (snd s)\<lparr>hs_db := d\<rparr>)) (f (hs_db (snd s)))"

definition put_plant :: "plant \<Rightarrow> host \<Rightarrow> host" where
  "put_plant p h = h\<lparr>hs_db := fst p, hs_reg := snd p\<rparr>"

definition on_plant :: "(plant \<Rightarrow> response \<times> plant) \<Rightarrow> app_state \<Rightarrow> app_step" where
  "on_plant f s =
     (let (rs, p) = f (hs_db (snd s), hs_reg (snd s)) in Some (Answer rs, fst s, put_plant p (snd s)))"

definition try_plant :: "(plant \<Rightarrow> (response \<times> plant) option) \<Rightarrow> app_state \<Rightarrow> app_step" where
  "try_plant f s =
     map_option (\<lambda>(rs, p). (Answer rs, fst s, put_plant p (snd s))) (f (hs_db (snd s), hs_reg (snd s)))"

definition on_host :: "(host \<Rightarrow> response \<times> host) \<Rightarrow> app_state \<Rightarrow> app_step" where
  "on_host f s = (let (rs, h) = f (snd s) in Some (Answer rs, fst s, h))"

definition try_host :: "(host \<Rightarrow> (response \<times> host) option) \<Rightarrow> app_state \<Rightarrow> app_step" where
  "try_host f s = map_option (\<lambda>(rs, h). (Answer rs, fst s, h)) (f (snd s))"

definition on_stores ::
  "(tofu \<times> process_manager \<Rightarrow> response \<times> tofu \<times> process_manager) \<Rightarrow> app_state \<Rightarrow> app_step" where
  "on_stores f s =
     (let (rs, tf, pm) = f (fst s, hs_pm (snd s)) in Some (Answer rs, tf, (snd s)\<lparr>hs_pm := pm\<rparr>))"

definition read_only :: "response \<Rightarrow> app_state \<Rightarrow> app_step" where
  "read_only rs s = Some (Answer rs, s)"

definition from_server_step :: "server_step \<times> host \<Rightarrow> app_state \<Rightarrow> app_step" where
  "from_server_step r s =
     (case fst r of Reply rs \<Rightarrow> Some (Answer rs, fst s, snd r) | WaitsForStop \<Rightarrow> Some (WaitsForChild, fst s, snd r))"

definition from_policy_step :: "(policy_step \<times> host) option \<Rightarrow> app_state \<Rightarrow> app_step" where
  "from_policy_step r s =
     map_option
       (\<lambda>(x, h). case x of Answered rs \<Rightarrow> (Answer rs, fst s, h) | AwaitingStop _ _ \<Rightarrow> (WaitsForChild, fst s, h)) r"

abbreviation api_of :: "'a app_env_scheme \<Rightarrow> api_env" where
  "api_of env \<equiv> api_env.truncate env"

fun arg :: "string list \<Rightarrow> string" where
  "arg [] = []"
| "arg (a # _) = a"

section \<open>Dispatch\<close>

fun handle :: "app_env \<Rightarrow> handler \<Rightarrow> string list \<Rightarrow> request \<Rightarrow> app_state \<Rightarrow> app_step" where
  "handle env PostNodeH as rq = try_db (post_node (api_of env) (fst (ap_fresh env 0)) (snd (ap_fresh env 0)) (rq_body rq))"
| "handle env GetNodesH as rq = on_db (get_nodes (api_of env) rq)"
| "handle env ExportNodesH as rq = try_db (export_nodes (api_of env))"
| "handle env ImportNodesH as rq = on_db (import_nodes (api_of env) (ap_fresh env) (rq_body rq))"
| "handle env GetNodeH as rq = on_db (get_node (api_of env) (arg as))"
| "handle env PutNodeH as rq = try_db (put_node (api_of env) (arg as) (snd (ap_fresh env 0)) (rq_body rq))"
| "handle env DeleteNodeH as rq = on_db (delete_node (api_of env) (arg as))"
| "handle env PostNamespaceH as rq =
     try_db (post_namespace (api_of env) (fst (ap_fresh env 0)) (snd (ap_fresh env 0)) (rq_body rq))"
| "handle env GetNamespacesH as rq = on_db (get_namespaces (api_of env))"
| "handle env PutNamespaceH as rq =
     try_db (put_namespace (api_of env) (arg as) (snd (ap_fresh env 0)) (rq_body rq))"
| "handle env DeleteNamespaceH as rq = on_db (delete_namespace (api_of env) (arg as))"
| "handle env PostObjectH as rq =
     try_db (post_object (fst (ap_fresh env 0)) (snd (ap_fresh env 0)) (rq_body rq))"
| "handle env GetObjectTreeH as rq = on_db (get_object_tree (arg as))"
| "handle env DeleteObjectH as rq = on_db (delete_object (arg as))"
| "handle env PostStartH as rq = try_host (post_start (ap_host env))"
| "handle env PostStopH as rq = (\<lambda>s. from_server_step (post_stop (ap_host env) (snd s)) s)"
| "handle env PostReloadH as rq = try_host (post_reload (ap_host env))"
| "handle env GetServerStatusH as rq = (\<lambda>s. read_only (ServerRoutes.get_status (ap_host env) (snd s)) s)"
| "handle env GetClientsH as rq = (\<lambda>s. read_only (get_clients (ap_host env) (snd s)) s)"
| "handle env GetSecurityH as rq = on_host (get_security (ap_host env))"
| "handle env GetSuggestedSansH as rq = read_only (get_suggested_sans (ap_host env))"
| "handle env GetDownloadH as rq = on_host (get_certificate_download (ap_host env) rq)"
| "handle env PutPolicyH as rq = (\<lambda>s. from_policy_step (put_policy (ap_host env) (rq_body rq) (snd s)) s)"
| "handle env PostCertificateH as rq = on_host (post_certificate (ap_host env) (rq_body rq))"
| "handle env PostGenerateH as rq = on_host (post_generate (ap_host env) (rq_body rq))"
| "handle env GetProtocolsH as rq = (\<lambda>s. read_only (get_protocols env (hs_reg (snd s))) s)"
| "handle env PostConnectionH as rq =
     try_plant (post_connection env (fst (ap_fresh env 0)) (snd (ap_fresh env 0)) (rq_body rq))"
| "handle env GetConnectionsH as rq = on_db (get_connections env rq)"
| "handle env PutConnectionH as rq = try_plant (put_connection env (arg as) (rq_body rq))"
| "handle env DeleteConnectionH as rq = on_plant (delete_connection env (arg as))"
| "handle env PostMappingH as rq =
     try_plant (post_mapping env (fst (ap_fresh env 0)) (snd (ap_fresh env 0)) (rq_body rq))"
| "handle env GetMappingsH as rq = on_db (get_mappings env rq)"
| "handle env PutMappingH as rq = try_plant (put_mapping env (arg as) (rq_body rq))"
| "handle env DeleteMappingH as rq = on_plant (delete_mapping env (arg as))"
| "handle env BulkMappingsH as rq = try_plant (bulk_mappings env (ap_fresh env) (rq_body rq))"
| "handle env ExportMappingsH as rq = on_db (export_mappings env)"
| "handle env ImportMappingsH as rq = on_plant (import_mappings env (ap_fresh env) (rq_body rq))"
| "handle env GetConnectorStatusH as rq = (\<lambda>s. read_only (ConnectorRoutes.get_status env (hs_reg (snd s))) s)"
| "handle env GetConnectorValuesH as rq = (\<lambda>s. read_only (get_values env (hs_reg (snd s))) s)"
| "handle env BrowseFilesH as rq = read_only (post_browse (ap_browse env) (rq_body rq))"
| "handle env GetCertificatesH as rq =
     (\<lambda>s. let (rs, tf) = get_certificates (ap_certs env) (fst s) in Some (Answer rs, tf, snd s))"
| "handle env RejectCertificateH as rq = on_stores (post_reject (ap_fault env) (ap_pipe_ops env) (arg as))"
| "handle env TrustCertificateH as rq = on_stores (post_trust (ap_fault env) (ap_pipe_ops env) (arg as))"
| "handle env DeleteCertificateH as rq =
     on_stores (delete_certificate (ap_fault env) (ap_pipe_ops env) (arg as))"
| "handle env OpenEventsH as rq =
     (\<lambda>s. Some (Streams, fst s,
        open_events (ap_host env) (fst (ap_fresh env 0)) (ap_stream env) (ap_clock env) (snd s)))"
| "handle env GetLogsH as rq = (\<lambda>s. read_only (get_logs rq (snd s)) s)"

text \<open>
  A whole request: its body, whose error goes to the error handler past everything else, who is
  let in, the route, and what follows a sent answer. A path no route
  matches is left to Express (\<open>None\<close> as route).
\<close>

definition unmatched :: response where
  "unmatched = respond_status 404"

definition after_answer ::
  "app_env \<Rightarrow> request \<Rightarrow> string \<Rightarrow> app_result \<times> app_state \<Rightarrow> app_step" where
  "after_answer env rq url r =
     (case fst r of
        Answer rs \<Rightarrow>
          map_option (\<lambda>h. (Answer rs, fst (snd r), h)) (finished (ap_host env) rq url rs (snd (snd r)))
      | _ \<Rightarrow> Some r)"

definition application :: "app_env \<Rightarrow> request \<Rightarrow> string \<Rightarrow> app_state \<Rightarrow> app_step" where
  "application env rq url s =
     (case ap_body env rq of
        Some m \<Rightarrow> Some (Answer (error_handler m), s)
      | None \<Rightarrow>
          (case auth_middleware (ap_verify env) (ap_auth env) rq of
             Some rs \<Rightarrow> Some (Answer rs, s)
           | None \<Rightarrow>
               (case routed (ap_decode env) (rq_method rq) url of
                  None \<Rightarrow> Some (Answer unmatched, s)
                | Some (h, as) \<Rightarrow>
                    (case handle env h as rq s of
                       None \<Rightarrow> None
                     | Some r \<Rightarrow> after_answer env rq url r))))"

end
