(* ===== verification/WebClient.thy ===== *)
theory WebClient
  imports Http
begin

text \<open>
  \<open>web/src/api/\<close>: the calls the web interface makes to the Control API, a constructor for each
  function, with the request it makes; and \<open>request\<close> of \<open>client.ts\<close>, which turns an answer into a
  value or an error.
\<close>

section \<open>Requests\<close>

record fetch_options =
  fo_method :: string
  fo_body :: "jsval option"

definition plain_get :: fetch_options where
  "plain_get = \<lparr>fo_method = ''GET'', fo_body = None\<rparr>"

definition send_json :: "string \<Rightarrow> jsval \<Rightarrow> fetch_options" where
  "send_json method v = \<lparr>fo_method = method, fo_body = Some v\<rparr>"

definition bare :: "string \<Rightarrow> fetch_options" where
  "bare method = \<lparr>fo_method = method, fo_body = None\<rparr>"

text \<open>
  \<open>encodeURIComponent\<close>: letters, digits and eight marks stay, other characters are written as the
  bytes of their UTF-8 encoding.
\<close>

definition unreserved :: "char \<Rightarrow> bool" where
  "unreserved c \<longleftrightarrow>
     is_digit c \<or> (65 \<le> char_code c \<and> char_code c \<le> 90) \<or> (97 \<le> char_code c \<and> char_code c \<le> 122)
     \<or> List.member ''-_.!~*()'' c \<or> char_code c = 39"

definition upper_hex :: "nat \<Rightarrow> char" where
  "upper_hex d = (if d < 10 then digit_char d else char_of (55 + d))"

definition percent :: "nat \<Rightarrow> string" where
  "percent n = [CHR ''%'', upper_hex (n div 16), upper_hex (n mod 16)]"

definition encode_char :: "char \<Rightarrow> string" where
  "encode_char c =
     (let n = char_code c in
      if unreserved c then [c]
      else if n < 128 then percent n
      else percent (192 + n div 64) @ percent (128 + n mod 64))"

definition encodeURIComponent :: "string \<Rightarrow> string" where
  "encodeURIComponent s = concat (map encode_char s)"

text \<open>\<open>URLSearchParams\<close> leaves fewer characters as they are, and writes a blank as a plus sign.\<close>

definition form_char :: "char \<Rightarrow> string" where
  "form_char c =
     (if c = CHR '' '' then ''+''
      else if List.member ''!~()'' c \<or> char_code c = 39 then percent (char_code c)
      else encode_char c)"

definition form_param :: "string \<times> string \<Rightarrow> string" where
  "form_param p = concat (map form_char (fst p)) @ ''='' @ concat (map form_char (snd p))"

definition with_param :: "string \<Rightarrow> string option \<Rightarrow> string" where
  "with_param name v =
     (if truthy_str v then ''?'' @ name @ ''='' @ encodeURIComponent (the v) else [])"

section \<open>The server\<close>

datatype server_call = GetServerStatus | StartServer | StopServer | ReloadServer | GetConnectedClients

fun server_fetch :: "server_call \<Rightarrow> string \<times> fetch_options" where
  "server_fetch GetServerStatus = (''/server/status'', plain_get)"
| "server_fetch StartServer = (''/server/start'', bare ''POST'')"
| "server_fetch StopServer = (''/server/stop'', bare ''POST'')"
| "server_fetch ReloadServer = (''/server/reload'', bare ''POST'')"
| "server_fetch GetConnectedClients = (''/server/clients'', plain_get)"

section \<open>Namespaces and containers\<close>

datatype namespaces_call =
    GetNamespaces
  | CreateNamespace jsval
  | UpdateNamespace string jsval
  | DeleteNamespace string
  | GetObjectNodeTree string
  | CreateObjectNode jsval
  | DeleteObjectNode string

fun namespaces_fetch :: "namespaces_call \<Rightarrow> string \<times> fetch_options" where
  "namespaces_fetch GetNamespaces = (''/namespaces'', plain_get)"
| "namespaces_fetch (CreateNamespace v) = (''/namespaces'', send_json ''POST'' v)"
| "namespaces_fetch (UpdateNamespace i v) = (''/namespaces/'' @ i, send_json ''PUT'' v)"
| "namespaces_fetch (DeleteNamespace i) = (''/namespaces/'' @ i, bare ''DELETE'')"
| "namespaces_fetch (GetObjectNodeTree i) = (''/namespaces/'' @ i @ ''/object-nodes'', plain_get)"
| "namespaces_fetch (CreateObjectNode v) = (''/object-nodes'', send_json ''POST'' v)"
| "namespaces_fetch (DeleteObjectNode i) = (''/object-nodes/'' @ i, bare ''DELETE'')"

section \<open>Variables\<close>

datatype nodes_call =
    GetNodes
  | GetNode string
  | CreateNode jsval
  | UpdateNode string jsval
  | DeleteNode string
  | ExportNodesCsv
  | ImportNodesCsv string

definition csv_body :: "string \<Rightarrow> jsval" where
  "csv_body csv = JObj [(''csv'', JStr csv)]"

fun nodes_fetch :: "nodes_call \<Rightarrow> string \<times> fetch_options" where
  "nodes_fetch GetNodes = (''/nodes'', plain_get)"
| "nodes_fetch (GetNode i) = (''/nodes/'' @ i, plain_get)"
| "nodes_fetch (CreateNode v) = (''/nodes'', send_json ''POST'' v)"
| "nodes_fetch (UpdateNode i v) = (''/nodes/'' @ i, send_json ''PUT'' v)"
| "nodes_fetch (DeleteNode i) = (''/nodes/'' @ i, bare ''DELETE'')"
| "nodes_fetch ExportNodesCsv = (''/nodes/export/csv'', plain_get)"
| "nodes_fetch (ImportNodesCsv csv) = (''/nodes/import/csv'', send_json ''POST'' (csv_body csv))"

section \<open>Connections and mappings\<close>

datatype connectors_call =
    FetchProtocols
  | GetConnections "string option"
  | CreateConnection jsval
  | UpdateConnection string jsval
  | DeleteConnection string
  | GetMappings "string option"
  | CreateMapping jsval
  | UpdateMapping string jsval
  | DeleteMapping string
  | ExportConnectorMappingsCsv
  | ImportConnectorMappingsCsv string
  | GetConnectorStatus
  | GetConnectorValues

fun connectors_fetch :: "connectors_call \<Rightarrow> string \<times> fetch_options" where
  "connectors_fetch FetchProtocols = (''/connectors/protocols'', plain_get)"
| "connectors_fetch (GetConnections ty) = (''/connectors/connections'' @ with_param ''type'' ty, plain_get)"
| "connectors_fetch (CreateConnection v) = (''/connectors/connections'', send_json ''POST'' v)"
| "connectors_fetch (UpdateConnection i v) = (''/connectors/connections/'' @ i, send_json ''PUT'' v)"
| "connectors_fetch (DeleteConnection i) = (''/connectors/connections/'' @ i, bare ''DELETE'')"
| "connectors_fetch (GetMappings c) = (''/connectors/mappings'' @ with_param ''connectionId'' c, plain_get)"
| "connectors_fetch (CreateMapping v) = (''/connectors/mappings'', send_json ''POST'' v)"
| "connectors_fetch (UpdateMapping i v) = (''/connectors/mappings/'' @ i, send_json ''PUT'' v)"
| "connectors_fetch (DeleteMapping i) = (''/connectors/mappings/'' @ i, bare ''DELETE'')"
| "connectors_fetch ExportConnectorMappingsCsv = (''/connectors/mappings/export/csv'', plain_get)"
| "connectors_fetch (ImportConnectorMappingsCsv csv) =
     (''/connectors/mappings/import/csv'', send_json ''POST'' (csv_body csv))"
| "connectors_fetch GetConnectorStatus = (''/connectors/status'', plain_get)"
| "connectors_fetch GetConnectorValues = (''/connectors/values'', plain_get)"

section \<open>Security, files, certificates and logs\<close>

datatype security_call =
    GetSecurityConfig
  | UpdateSecurityPolicy string
  | UploadCertificate string string
  | GenerateCertificate jsval
  | GetSuggestedSans
  | BrowseFiles "jsval option"

fun security_fetch :: "security_call \<Rightarrow> string \<times> fetch_options" where
  "security_fetch GetSecurityConfig = (''/security'', plain_get)"
| "security_fetch (UpdateSecurityPolicy mode) =
     (''/security/policy'', send_json ''PUT'' (JObj [(''mode'', JStr mode)]))"
| "security_fetch (UploadCertificate cert key) =
     (''/security/certificate'',
      send_json ''POST'' (JObj [(''certificatePath'', JStr cert), (''privateKeyPath'', JStr key)]))"
| "security_fetch (GenerateCertificate v) = (''/security/generate'', send_json ''POST'' v)"
| "security_fetch GetSuggestedSans = (''/security/suggested-sans'', plain_get)"
| "security_fetch (BrowseFiles v) =
     (''/files/browse'', send_json ''POST'' (case v of None \<Rightarrow> JObj [] | Some x \<Rightarrow> x))"

definition getCertificateDownloadUrl :: "string option \<Rightarrow> string" where
  "getCertificateDownloadUrl format =
     (if format = Some ''pem'' then ''/api/security/certificate/download?format=pem''
      else ''/api/security/certificate/download'')"

datatype pki_call =
    GetPkiCertificates
  | RejectPkiCertificate string
  | TrustPkiCertificate string
  | DeletePkiCertificate string

fun pki_fetch :: "pki_call \<Rightarrow> string \<times> fetch_options" where
  "pki_fetch GetPkiCertificates = (''/pki/certificates'', plain_get)"
| "pki_fetch (RejectPkiCertificate t) = (''/pki/certificates/'' @ t @ ''/reject'', bare ''POST'')"
| "pki_fetch (TrustPkiCertificate t) = (''/pki/certificates/'' @ t @ ''/trust'', bare ''POST'')"
| "pki_fetch (DeletePkiCertificate t) = (''/pki/certificates/'' @ t, bare ''DELETE'')"

text \<open>Each filter is sent if it is given and not empty, in a fixed order.\<close>

definition getSystemLogs :: "(string \<times> string option) list \<Rightarrow> string \<times> fetch_options" where
  "getSystemLogs options =
     (let given = [(k, the v). (k, v) \<leftarrow> options, truthy_str v];
          qs = join ''&'' (map form_param given)
      in (''/logs'' @ (if qs \<noteq> [] then ''?'' @ qs else []), plain_get))"

definition logs_options :: "string option \<Rightarrow> string option \<Rightarrow> string option \<Rightarrow> (string \<times> string option) list" where
  "logs_options since level source = [(''since'', since), (''level'', level), (''source'', source)]"

section \<open>Any call\<close>

datatype client_call =
    OfServer server_call
  | OfNamespaces namespaces_call
  | OfNodes nodes_call
  | OfConnectors connectors_call
  | OfSecurity security_call
  | OfPki pki_call
  | OfLogs "string option" "string option" "string option"

fun call_fetch :: "client_call \<Rightarrow> string \<times> fetch_options" where
  "call_fetch (OfServer c) = server_fetch c"
| "call_fetch (OfNamespaces c) = namespaces_fetch c"
| "call_fetch (OfNodes c) = nodes_fetch c"
| "call_fetch (OfConnectors c) = connectors_fetch c"
| "call_fetch (OfSecurity c) = security_fetch c"
| "call_fetch (OfPki c) = pki_fetch c"
| "call_fetch (OfLogs since level source) = getSystemLogs (logs_options since level source)"

text \<open>The two exports fetch a text themselves, one of them without the key.\<close>

fun raw_call :: "client_call \<Rightarrow> bool" where
  "raw_call (OfNodes ExportNodesCsv) = True"
| "raw_call (OfConnectors ExportConnectorMappingsCsv) = True"
| "raw_call _ = False"

definition getAuthHeaders :: "string option \<Rightarrow> (string \<times> jsval) list" where
  "getAuthHeaders apiKey = (if truthy_str apiKey then [(''x-api-key'', JStr (the apiKey))] else [])"

fun call_headers :: "string option \<Rightarrow> client_call \<Rightarrow> (string \<times> jsval) list" where
  "call_headers k (OfConnectors ExportConnectorMappingsCsv) = []"
| "call_headers k (OfNodes ExportNodesCsv) = getAuthHeaders k"
| "call_headers k _ = (''content-type'', JStr ''application/json'') # getAuthHeaders k"

definition BASE_URL :: string where
  "BASE_URL = ''/api''"

definition call_url :: "client_call \<Rightarrow> string" where
  "call_url c = BASE_URL @ fst (call_fetch c)"

text \<open>
  The request as the server sees it: the body as text and parsed again, header names in lower
  case; \<open>q\<close> is the query as the server's parser reads it.
\<close>

definition sent_request :: "string option \<Rightarrow> (string, jsval) jmap \<Rightarrow> client_call \<Rightarrow> request" where
  "sent_request apiKey q c =
     \<lparr>rq_method = fo_method (snd (call_fetch c)), rq_headers = call_headers apiKey c, rq_query = q,
      rq_body = (case fo_body (snd (call_fetch c)) of None \<Rightarrow> JUndefined | Some v \<Rightarrow> json_copy v)\<rparr>"

section \<open>Answers\<close>

text \<open>
  \<open>ApiError\<close> with status, code, message and details, or an error of the engine or of the
  exports. A failing \<open>json()\<close> rejects with the engine's message.
\<close>

datatype call_error = ApiError nat jsval string jsval | EngineError string

definition or_else :: "jsval \<Rightarrow> jsval \<Rightarrow> jsval" where
  "or_else v d = (if truthy v then v else d)"

text \<open>\<open>v?.f\<close>\<close>

definition opt_field :: "jsval \<Rightarrow> string \<Rightarrow> jsval" where
  "opt_field v f = (if nullish v then JUndefined else body_field v f)"

definition as_text :: "(jsval \<Rightarrow> string) \<Rightarrow> jsval \<Rightarrow> string" where
  "as_text str v = (case v of JStr s \<Rightarrow> s | _ \<Rightarrow> str v)"

text \<open>
  \<open>st\<close> gives the text of a status, \<open>str\<close> turns other values than texts into text, \<open>bad\<close> is the message of a body that is not JSON, \<open>nul\<close> the one
  of reading a property of \<open>null\<close>.
\<close>

definition read_error ::
  "(nat \<Rightarrow> string) \<Rightarrow> (jsval \<Rightarrow> string) \<Rightarrow> string \<Rightarrow> response \<Rightarrow> call_error" where
  "read_error st str nul rs =
     (let text = JStr (st (rs_status rs));
          body = (case rs_body rs of
                    JsonBody v \<Rightarrow> json_copy v
                  | _ \<Rightarrow> JObj [(''error'', JObj [(''code'', JStr ''UNKNOWN''), (''message'', text)])])
      in if body = JNull then EngineError nul
         else let e = body_field body ''error'' in
              ApiError (rs_status rs) (or_else (opt_field e ''code'') (JStr ''UNKNOWN''))
                (as_text str (or_else (opt_field e ''message'') text)) (opt_field e ''details''))"

definition read_answer ::
  "(nat \<Rightarrow> string) \<Rightarrow> (jsval \<Rightarrow> string) \<Rightarrow> string \<Rightarrow> string \<Rightarrow> response \<Rightarrow> call_error + jsval" where
  "read_answer st str bad nul rs =
     (if \<not> succeeded rs then Inl (read_error st str nul rs)
      else if rs_status rs = 204 then Inr JUndefined
      else (case rs_body rs of JsonBody v \<Rightarrow> Inr (json_copy v) | _ \<Rightarrow> Inl (EngineError bad)))"

text \<open>\<open>res.text()\<close>; \<open>dec\<close> decodes bytes.\<close>

definition body_text :: "text_of_number \<Rightarrow> (buffer \<Rightarrow> string) \<Rightarrow> http_body \<Rightarrow> string" where
  "body_text nt dec b =
     (case b of NoBody \<Rightarrow> [] | JsonBody v \<Rightarrow> json nt v | TextBody s \<Rightarrow> s | BytesBody bs \<Rightarrow> dec bs)"

definition read_export ::
  "text_of_number \<Rightarrow> (buffer \<Rightarrow> string) \<Rightarrow> response \<Rightarrow> call_error + jsval" where
  "read_export nt dec rs =
     (if \<not> succeeded rs then Inl (EngineError ''Export failed'')
      else Inr (JStr (body_text nt dec (rs_body rs))))"

section \<open>Errors that come through\<close>

lemma copy_details: "json_copy (JArr (map detail_json ds)) = JArr (map detail_json ds)"
  by (simp add: detail_json_def)

text \<open>What the server puts into an error is what the caller finds in it.\<close>

lemma read_error_response:
  assumes "\<not> (200 \<le> n \<and> n < 300)" "m \<noteq> []" "code \<noteq> []"
  shows "read_answer st str bad nul (error_response n code m) = Inl (ApiError n (JStr code) m JUndefined)"
  using assms
  by (simp add: read_answer_def succeeded_def error_response_def respond_def error_json_def read_error_def
      opt_field_def nullish_def or_else_def as_text_def getprop_def)

lemma read_invalid_response:
  assumes "m \<noteq> []"
  shows "read_answer st str bad nul (invalid_response m es)
      = Inl (ApiError 400 (JStr ''VALIDATION_ERROR'') m (JArr (map detail_json es)))"
  using assms copy_details [of es]
  by (simp add: read_answer_def succeeded_def invalid_response_def respond_def error_json_def read_error_def
      opt_field_def nullish_def or_else_def as_text_def getprop_def)

lemma read_success:
  assumes "200 \<le> n" "n < 300" "n \<noteq> 204"
  shows "read_answer st str bad nul (respond n v) = Inr (json_copy v)"
  using assms by (simp add: read_answer_def succeeded_def respond_def)

end
