(* ===== verification/ClientServer.thy ===== *)
theory ClientServer
  imports Application WebClient
begin

text \<open>
  The web interface's calls against the server's routes: where each call arrives, and what the
  caller makes of the answers.
\<close>

section \<open>The handler a call is meant for\<close>

fun server_target :: "server_call \<Rightarrow> handler \<times> string list" where
  "server_target GetServerStatus = (GetServerStatusH, [])"
| "server_target StartServer = (PostStartH, [])"
| "server_target StopServer = (PostStopH, [])"
| "server_target ReloadServer = (PostReloadH, [])"
| "server_target GetConnectedClients = (GetClientsH, [])"

fun namespaces_target :: "namespaces_call \<Rightarrow> handler \<times> string list" where
  "namespaces_target GetNamespaces = (GetNamespacesH, [])"
| "namespaces_target (CreateNamespace v) = (PostNamespaceH, [])"
| "namespaces_target (UpdateNamespace i v) = (PutNamespaceH, [i])"
| "namespaces_target (DeleteNamespace i) = (DeleteNamespaceH, [i])"
| "namespaces_target (GetObjectNodeTree i) = (GetObjectTreeH, [i])"
| "namespaces_target (CreateObjectNode v) = (PostObjectH, [])"
| "namespaces_target (DeleteObjectNode i) = (DeleteObjectH, [i])"

fun nodes_target :: "nodes_call \<Rightarrow> handler \<times> string list" where
  "nodes_target GetNodes = (GetNodesH, [])"
| "nodes_target (GetNode i) = (GetNodeH, [i])"
| "nodes_target (CreateNode v) = (PostNodeH, [])"
| "nodes_target (UpdateNode i v) = (PutNodeH, [i])"
| "nodes_target (DeleteNode i) = (DeleteNodeH, [i])"
| "nodes_target ExportNodesCsv = (ExportNodesH, [])"
| "nodes_target (ImportNodesCsv csv) = (ImportNodesH, [])"

fun connectors_target :: "connectors_call \<Rightarrow> handler \<times> string list" where
  "connectors_target FetchProtocols = (GetProtocolsH, [])"
| "connectors_target (GetConnections ty) = (GetConnectionsH, [])"
| "connectors_target (CreateConnection v) = (PostConnectionH, [])"
| "connectors_target (UpdateConnection i v) = (PutConnectionH, [i])"
| "connectors_target (DeleteConnection i) = (DeleteConnectionH, [i])"
| "connectors_target (GetMappings c) = (GetMappingsH, [])"
| "connectors_target (CreateMapping v) = (PostMappingH, [])"
| "connectors_target (UpdateMapping i v) = (PutMappingH, [i])"
| "connectors_target (DeleteMapping i) = (DeleteMappingH, [i])"
| "connectors_target ExportConnectorMappingsCsv = (ExportMappingsH, [])"
| "connectors_target (ImportConnectorMappingsCsv csv) = (ImportMappingsH, [])"
| "connectors_target GetConnectorStatus = (GetConnectorStatusH, [])"
| "connectors_target GetConnectorValues = (GetConnectorValuesH, [])"

fun security_target :: "security_call \<Rightarrow> handler \<times> string list" where
  "security_target GetSecurityConfig = (GetSecurityH, [])"
| "security_target (UpdateSecurityPolicy mode) = (PutPolicyH, [])"
| "security_target (UploadCertificate cert key) = (PostCertificateH, [])"
| "security_target (GenerateCertificate v) = (PostGenerateH, [])"
| "security_target GetSuggestedSans = (GetSuggestedSansH, [])"
| "security_target (BrowseFiles v) = (BrowseFilesH, [])"

fun pki_target :: "pki_call \<Rightarrow> handler \<times> string list" where
  "pki_target GetPkiCertificates = (GetCertificatesH, [])"
| "pki_target (RejectPkiCertificate t) = (RejectCertificateH, [t])"
| "pki_target (TrustPkiCertificate t) = (TrustCertificateH, [t])"
| "pki_target (DeletePkiCertificate t) = (DeleteCertificateH, [t])"

fun call_target :: "client_call \<Rightarrow> handler \<times> string list" where
  "call_target (OfServer c) = server_target c"
| "call_target (OfNamespaces c) = namespaces_target c"
| "call_target (OfNodes c) = nodes_target c"
| "call_target (OfConnectors c) = connectors_target c"
| "call_target (OfSecurity c) = security_target c"
| "call_target (OfPki c) = pki_target c"
| "call_target (OfLogs s l o') = (GetLogsH, [])"

section \<open>Paths\<close>

text \<open>Ids and thumbprints: letters, digits and dashes.\<close>

definition id_char :: "char \<Rightarrow> bool" where
  "id_char c \<longleftrightarrow>
     is_digit c \<or> (65 \<le> char_code c \<and> char_code c \<le> 90) \<or> (97 \<le> char_code c \<and> char_code c \<le> 122)
     \<or> c = CHR ''-''"

definition plain_id :: "string \<Rightarrow> bool" where
  "plain_id i \<longleftrightarrow> i \<noteq> [] \<and> list_all id_char i"

lemma plain_id_parts:
  assumes "plain_id i"
  shows "i \<noteq> []" "CHR ''/'' \<notin> set i" "CHR ''?'' \<notin> set i"
  using assms by (auto simp: plain_id_def id_char_def is_digit_def list_all_iff)

lemma path_segs_end:
  assumes "plain_id i"
  shows "split_on CHR ''/'' i = [i]" "split_on CHR ''/'' (i @ CHR ''/'' # s) = i # split_on CHR ''/'' s"
    "takeWhile (\<lambda>c. c \<noteq> CHR ''?'') i = i"
    "takeWhile (\<lambda>c. c \<noteq> CHR ''?'') (i @ s) = i @ takeWhile (\<lambda>c. c \<noteq> CHR ''?'') s"
proof -
  note i = plain_id_parts [OF assms]
  show "split_on CHR ''/'' i = [i]" "split_on CHR ''/'' (i @ CHR ''/'' # s) = i # split_on CHR ''/'' s"
    using i(2) by (simp_all add: split_on_no_sep split_on_append_sep)
  show all: "takeWhile (\<lambda>c. c \<noteq> CHR ''?'') (i @ s) = i @ takeWhile (\<lambda>c. c \<noteq> CHR ''?'') s" for s
    by (rule takeWhile_append2) (use i(3) in blast)
  from all [of "[]"] show "takeWhile (\<lambda>c. c \<noteq> CHR ''?'') i = i" by simp
qed

text \<open>A mounted router is entered by the paths below its own, and by no other.\<close>

lemma match_mounted: "match_segs dec (map Lit dir @ p) (dir @ ss) = match_segs dec p ss"
  by (induction dir) simp_all

lemma find_route_mount: "find_route dec m (dir @ ss) (mount dir rs) = find_route dec m ss rs"
  by (induction rs) (auto simp: mount_def match_mounted split: option.split)

lemmas enter_mount [simp] =
  find_route_mount [of _ _ "[a]" for a, simplified]
  find_route_mount [of _ _ "[a, b]" for a b, simplified]
  find_route_mount [of _ _ "[a, b, c]" for a b c, simplified]

fun apart :: "string list \<Rightarrow> string list \<Rightarrow> bool" where
  "apart (d # ds) (s # ss) \<longleftrightarrow> toLowerCase s \<noteq> toLowerCase d \<or> apart ds ss"
| "apart _ _ \<longleftrightarrow> False"

lemma apart_no_match: "apart dir ss \<Longrightarrow> match_segs dec (map Lit dir @ p) ss = None"
  by (induction dir ss rule: apart.induct) auto

lemma skip_mount [simp]: "apart dir ss \<Longrightarrow> find_route dec m ss (mount dir rs) = None"
  by (induction rs) (auto simp: mount_def apart_no_match)

lemma find_route_append [simp]:
  "find_route dec m ss (xs @ ys) =
     (case find_route dec m ss xs of None \<Rightarrow> find_route dec m ss ys | Some r \<Rightarrow> Some r)"
  by (induction xs) (auto split: option.splits if_splits)

lemmas routing = routed_def path_segs_def url_path_def api_routes_def node_routes_def
  namespace_routes_def object_routes_def server_routes_def security_routes_def connector_routes_def
  file_routes_def pki_routes_def event_routes_def lower_char_def

definition call_method :: "client_call \<Rightarrow> string" where
  "call_method c = fo_method (snd (call_fetch c))"

lemmas calls = call_method_def call_url_def BASE_URL_def plain_get_def send_json_def bare_def

definition arrives :: "(string \<Rightarrow> string) \<Rightarrow> client_call \<Rightarrow> bool" where
  "arrives dec c \<longleftrightarrow>
     routed dec (call_method c) (call_url c) = Some (fst (call_target c), map dec (snd (call_target c)))"

lemma arrives_server: "arrives dec (OfServer c)"
  by (cases c) (simp_all add: arrives_def calls routing)

lemma arrives_namespaces:
  assumes "list_all plain_id (snd (namespaces_target c))"
  shows "arrives dec (OfNamespaces c)"
  using assms by (cases c) (simp_all add: arrives_def calls routing path_segs_end plain_id_parts(1))

lemma arrives_nodes:
  assumes "list_all plain_id (snd (nodes_target c))"
  shows "arrives dec (OfNodes c)"
  using assms by (cases c) (simp_all add: arrives_def calls routing path_segs_end plain_id_parts(1))

lemma arrives_connectors:
  assumes "list_all plain_id (snd (connectors_target c))"
  shows "arrives dec (OfConnectors c)"
  using assms
  by (cases c) (simp_all add: arrives_def calls with_param_def routing path_segs_end plain_id_parts(1))

lemma arrives_security: "arrives dec (OfSecurity c)"
  by (cases c) (simp_all add: arrives_def calls routing)

lemma arrives_pki:
  assumes "list_all plain_id (snd (pki_target c))"
  shows "arrives dec (OfPki c)"
  using assms by (cases c) (simp_all add: arrives_def calls routing path_segs_end plain_id_parts(1))

lemma arrives_logs: "arrives dec (OfLogs a b c)"
  by (simp add: arrives_def calls getSystemLogs_def Let_def routing)

lemma call_arrives:
  assumes "list_all plain_id (snd (call_target c))"
  shows "routed dec (call_method c) (call_url c) = Some (fst (call_target c), map dec (snd (call_target c)))"
proof -
  have "arrives dec c"
    using assms
    by (cases c) (simp_all add: arrives_server arrives_namespaces arrives_nodes arrives_connectors
        arrives_security arrives_pki arrives_logs)
  then show ?thesis by (simp add: arrives_def)
qed

section \<open>Being let in\<close>

lemma sent_method [simp]: "rq_method (sent_request k q c) = call_method c"
  by (simp add: sent_request_def call_method_def)

lemma headers_of_change:
  assumes "call_method c \<noteq> ''GET''"
  shows "call_headers k c = (''content-type'', JStr ''application/json'') # getAuthHeaders k"
  using assms
proof (cases c)
  case (OfNodes x)
  with assms show ?thesis by (cases x) (simp_all add: calls)
next
  case (OfConnectors x)
  with assms show ?thesis by (cases x) (simp_all add: calls)
qed simp_all

lemma client_key:
  assumes "call_method c \<noteq> ''GET''"
  shows "extractBearerToken (sent_request k q c) = None"
    "extractApiKey (sent_request k q c) = (if truthy_str k then k else None)"
  using assms
  by (auto simp: extractBearerToken_def extractApiKey_def header_text_def sent_request_def
      headers_of_change getAuthHeaders_def elim!: truthy_strE)

text \<open>Who may change something through the web interface.\<close>

definition lets_in :: "auth_config \<Rightarrow> string option \<Rightarrow> bool" where
  "lets_in cfg k \<longleftrightarrow>
     au_mode cfg = ''none''
     \<or> au_mode cfg = ''api-key'' \<and> truthy_str k \<and> the k \<in> set (au_apiKeys cfg)"

lemma client_let_in:
  "auth_middleware verify cfg (sent_request k q c) = None
    \<longleftrightarrow> call_method c = ''GET'' \<or> lets_in cfg k"
proof (cases "call_method c = ''GET''")
  case False
  then show ?thesis
    by (auto simp: auth_middleware_def lets_in_def validateApiKey_def validateJwt_def client_key
        elim!: truthy_strE split: option.splits if_splits)
qed (simp add: auth_middleware_def)

text \<open>C30: Every call of the web interface's client whose body the server can read reaches the handler
  it is meant for, with exactly its ids, if these are of letters, digits and hyphens, which URL
  decoding leaves alone; no other route takes its path. A call that changes something gets there
  exactly if the server asks for no credentials, or for an API key and the browser has one of its
  keys; else (always under JWT, which the client never sends) the answer is 401 and nothing has
  changed. A body that is not read, as one that is too long, is answered with 500 before all this,
  and nothing has changed.\<close>

theorem client_calls_arrive:
  assumes "list_all plain_id (snd (call_target c))" "\<And>i. plain_id i \<Longrightarrow> ap_decode env i = i"
  shows "application env (sent_request k q c) (call_url c) s =
    (case ap_body env (sent_request k q c) of
       Some m \<Rightarrow> Some (Answer (error_handler m), s)
     | None \<Rightarrow>
         if call_method c = ''GET'' \<or> lets_in (ap_auth env) k then
           (case handle env (fst (call_target c)) (snd (call_target c)) (sent_request k q c) s of
              None \<Rightarrow> None
            | Some r \<Rightarrow> after_answer env (sent_request k q c) (call_url c) r)
         else Some (Answer (the (auth_middleware (ap_verify env) (ap_auth env) (sent_request k q c))), s))
    \<and> (\<forall>rs. auth_middleware (ap_verify env) (ap_auth env) (sent_request k q c) = Some rs \<longrightarrow> rs_status rs = 401)
    \<and> (\<forall>m. rs_status (error_handler m) = 500)"
proof -
  have ids: "map (ap_decode env) (snd (call_target c)) = snd (call_target c)"
    using assms by (intro map_idI) (auto simp: list_all_iff)
  have bad: "rs_status (error_handler m) = 500" for m
    by (simp add: error_handler_def internal_error_def error_response_def respond_def)
  show ?thesis
  proof (cases "auth_middleware (ap_verify env) (ap_auth env) (sent_request k q c)")
    case None
    then have "call_method c = ''GET'' \<or> lets_in (ap_auth env) k" by (simp add: client_let_in)
    then show ?thesis
      using call_arrives [OF assms(1), of "ap_decode env"] None bad
      by (simp add: application_def ids split_beta split: option.split)
  next
    case (Some rs)
    then have "\<not> (call_method c = ''GET'' \<or> lets_in (ap_auth env) k)"
      using client_let_in [of "ap_verify env" "ap_auth env" k q c] by simp
    with Some refused_unauthorized [OF Some] bad show ?thesis
      by (simp add: application_def split: option.split)
  qed
qed

section \<open>A call and its answer\<close>

text \<open>What the browser adds to an answer: texts of statuses, values and its own errors.\<close>

record reader =
  re_status :: "nat \<Rightarrow> string"
  re_text :: "jsval \<Rightarrow> string"
  re_bad :: string
  re_null :: string

definition read_by :: "reader \<Rightarrow> response \<Rightarrow> call_error + jsval" where
  "read_by rd rs = read_answer (re_status rd) (re_text rd) (re_bad rd) (re_null rd) rs"

text \<open>A call that is answered at once, with the state the server is left in.\<close>

definition client_round ::
  "app_env \<Rightarrow> reader \<Rightarrow> string option \<Rightarrow> client_call \<Rightarrow> app_state
     \<Rightarrow> ((call_error + jsval) \<times> app_state) option" where
  "client_round env rd k c s =
     (case application env (sent_request k [] c) (call_url c) s of
        Some (Answer rs, s1) \<Rightarrow> Some (read_by rd rs, s1)
      | _ \<Rightarrow> None)"

lemma application_handles:
  assumes "list_all plain_id (snd (call_target c))" "call_method c = ''GET'' \<or> lets_in (ap_auth env) k"
    and "map (ap_decode env) (snd (call_target c)) = snd (call_target c)"
    and "ap_body env (sent_request k q c) = None"
  shows "application env (sent_request k q c) (call_url c) s =
    (case handle env (fst (call_target c)) (snd (call_target c)) (sent_request k q c) s of
       None \<Rightarrow> None | Some r \<Rightarrow> after_answer env (sent_request k q c) (call_url c) r)"
proof -
  have "auth_middleware (ap_verify env) (ap_auth env) (sent_request k q c) = None"
    using assms(2) by (simp add: client_let_in)
  then show ?thesis
    using call_arrives [OF assms(1), of "ap_decode env"] assms(3,4) by (simp add: application_def split_beta)
qed

text \<open>A call that does not get to its handler: what the caller is told, and nothing has changed.\<close>

lemma application_refuses:
  assumes "ap_body env (sent_request k q c) \<noteq> None \<or> call_method c \<noteq> ''GET'' \<and> \<not> lets_in (ap_auth env) k"
  obtains n code m where "m \<noteq> []" "code \<noteq> []" "\<not> (200 \<le> n \<and> n < 300)"
    "application env (sent_request k q c) (call_url c) s = Some (Answer (error_response n code m), s)"
proof (cases "ap_body env (sent_request k q c)")
  case (Some x)
  show ?thesis
    by (rule that [of "if x = [] then ''An unexpected error occurred'' else x" "''INTERNAL_ERROR''" 500])
      (simp_all add: application_def Some error_handler_def internal_error_def)
next
  case None
  with assms have "auth_middleware (ap_verify env) (ap_auth env) (sent_request k q c) \<noteq> None"
    using client_let_in [of "ap_verify env" "ap_auth env" k q c] by simp
  then obtain rs where rs: "auth_middleware (ap_verify env) (ap_auth env) (sent_request k q c) = Some rs" by blast
  then obtain m where "m \<noteq> []" "rs = error_response 401 ''UNAUTHORIZED'' m"
    by (auto simp: auth_middleware_def validateApiKey_def validateJwt_def unauthorized_def
        split: if_splits option.splits jwt_result.splits)
  with rs None show ?thesis by (intro that [of m "''UNAUTHORIZED''" 401]) (simp_all add: application_def)
qed

text \<open>A database that is open and works stays so.\<close>

definition db_works :: "database \<Rightarrow> bool" where
  "db_works d \<longleftrightarrow> db_open d \<and> db_alive d \<and> db_accessible d"

lemma write_works: "db_open d \<Longrightarrow> db_alive d \<Longrightarrow> db_works (snd (db_write f d))"
  by (auto simp: db_works_def db_write_def isAccessible_def clearCache_def Let_def split: prod.split sum.split)

lemma node_create_works:
  assumes "db_works d"
  shows "db_works (snd (node_create i now r d))"
proof (cases "validateCreate r = []")
  case True
  obtain x d1 where look: "findByNameInNamespace (cr_name r) (cr_namespaceId r) d = (x, d1)"
    by (cases "findByNameInNamespace (cr_name r) (cr_namespaceId r) d")
  have "db_works d1"
    using assms arg_cong [OF look, of snd, symmetric]
    by (simp add: db_works_def findByNameInNamespace_def split_beta)
  then show ?thesis
    using True look write_works [of d1]
    by (auto simp: node_create_def Let_def db_works_def split: sum.split option.split)
qed (simp add: node_create_def Let_def assms)

text \<open>What follows an answer does not touch the database, and ends.\<close>

lemma finished_db:
  assumes "finished env rq url rs h = Some h'"
  shows "hs_db h' = hs_db h"
  using assms
  by (auto simp: finished_def on_finish_def dest!: write_config_keeps(1) split: if_splits prod.splits)

lemma finished_ends:
  assumes "objects_ok (db_tables (hs_db h))" "db_open (hs_db h)" "db_alive (hs_db h)"
    "db_accessible (hs_db h)"
  shows "\<exists>h'. finished env rq url rs h = Some h'"
proof -
  obtain g where "generate (he_gen env) (hs_db h) = Some g"
    using generate_outcome [OF assms, of "he_gen env"] by blast
  then have "\<exists>r. write_config env default_config_path h = Some r"
    by (simp add: write_config_def writeToFile_def split: sum.split)
  then show ?thesis by (auto simp: finished_def on_finish_def)
qed

lemma read_domain_response:
  assumes "\<not> (200 \<le> n \<and> n < 300)" "de_code e \<noteq> []" "de_message e \<noteq> []" "de_details e \<noteq> []"
  shows "read_by rd (domain_response n e)
      = Inl (ApiError n (JStr (de_code e)) (de_message e) (JArr (map detail_json (de_details e))))"
  using assms copy_details [of "de_details e"]
  by (simp add: read_by_def read_answer_def succeeded_def domain_response_def respond_def error_json_def
      read_error_def opt_field_def nullish_def or_else_def as_text_def getprop_def)

lemma read_thrown:
  obtains m where "m \<noteq> []"
    "read_by rd (thrown_response env e) = Inl (ApiError 500 (JStr ''INTERNAL_ERROR'') m JUndefined)"
proof
  let ?m = "if thrown_message (ap_sql env) e = [] then ''An unexpected error occurred''
            else thrown_message (ap_sql env) e"
  show m: "?m \<noteq> []" by simp
  show "read_by rd (thrown_response env e) = Inl (ApiError 500 (JStr ''INTERNAL_ERROR'') ?m JUndefined)"
    using m unfolding thrown_response_def internal_error_def read_by_def
    by (intro read_error_response) simp_all
qed

section \<open>An application\<close>

definition demo_app :: "auth_config \<Rightarrow> app_env" where
  "demo_app auth = connector_env.extend connector_demo
     (app_env.fields (demo_host_env (demo_os True (\<lambda>_. None))) id (\<lambda>_. (''id-1'', ''now'')) demo_browse
        (\<lambda>_. Inl ''no certificate'') (\<lambda>_. None) (pm_ops True True) 0 0 (\<lambda>_ _ _. JwtRejected) auth (\<lambda>_. None))"

definition key_auth :: auth_config where
  "key_auth = \<lparr>au_mode = ''api-key'', au_apiKeys = [''secret''], au_jwtSecret = [], au_jwtIssuer = None\<rparr>"

definition demo_state :: app_state where
  "demo_state = (\<lparr>tf_trusted = Some [], tf_rejected = Some [], tf_log = []\<rparr>, demo_host (demo_plant []))"

lemma demo_app_fields [simp]:
  "ap_auth (demo_app auth) = auth" "ap_decode (demo_app auth) = id"
  "ap_verify (demo_app auth) = (\<lambda>_ _ _. JwtRejected)"
  "ap_host (demo_app auth) = demo_host_env (demo_os True (\<lambda>_. None))"
  "ap_fresh (demo_app auth) = (\<lambda>_. (''id-1'', ''now''))" "ap_body (demo_app auth) = (\<lambda>_. None)"
  by (simp_all add: demo_app_def connector_demo_def connector_env.defs app_env.defs)

lemma client_calls_arrive_witness:
  "application (demo_app key_auth) (sent_request (Some ''guess'') [] (OfNodes (DeleteNode ''n-1'')))
      ''/api/nodes/n-1'' demo_state = Some (Answer (unauthorized ''Invalid API key''), demo_state)"
proof -
  let ?c = "OfNodes (DeleteNode ''n-1'')"
  have "list_all plain_id (snd (call_target ?c))" by (simp add: plain_id_def id_char_def is_digit_def)
  from client_calls_arrive [OF this, of "demo_app key_auth" "Some ''guess''" "[]" demo_state]
  show ?thesis
    by (simp add: calls lets_in_def key_auth_def auth_middleware_def validateApiKey_def client_key)
qed

end
