(* ===== verification/WebUi.thy ===== *)
theory WebUi
  imports WebClient
begin

text \<open>
  What the components of the web interface (\<open>web/src/\<close>) are made of: elements that carry the events
  a user can cause, with everything that is only style left out, and the effects of a handler.
  \<open>web/src/components/\<close> is here; the screens are in their own theories. A component is a record of
  its \<open>useState\<close> values, a datatype of events, a step function and a view. The query library is
  outside the program: the data of queries are arguments of a view, the end of a mutation is an
  event, and dropping a cached query is an effect.
\<close>

section \<open>Elements\<close>

text \<open>
  \<open>Icon\<close> is a single character outside the model's alphabet, by its code point. An input has an
  id, its value and the event of each new value.
\<close>

datatype 'e ui =
    Text string
  | Icon nat
  | Button string bool 'e
  | Input string string bool "string \<Rightarrow> 'e"
  | Checkbox string bool bool 'e
  | Choice string string bool "(string \<times> string) list" "string \<Rightarrow> 'e"
  | FileInput bool "string \<Rightarrow> 'e"
  | Form string 'e "'e ui list"
  | Field string string "string option" "'e ui list"
  | AlertBox string "'e ui list"
  | Group "'e ui list"

text \<open>What the user can cause: buttons and fields that are not disabled, and submitting a form.\<close>

fun offers :: "'e ui \<Rightarrow> 'e \<Rightarrow> bool" where
  "offers (Text _) e = False"
| "offers (Icon _) e = False"
| "offers (Button _ disabled e') e = (\<not> disabled \<and> e = e')"
| "offers (Input _ _ disabled f) e = (\<not> disabled \<and> (\<exists>v. e = f v))"
| "offers (Checkbox _ _ disabled e') e = (\<not> disabled \<and> e = e')"
| "offers (Choice _ _ disabled opts f) e = (\<not> disabled \<and> (\<exists>v \<in> set (map fst opts). e = f v))"
| "offers (FileInput disabled f) e = (\<not> disabled \<and> (\<exists>v. e = f v))"
| "offers (Form _ e' us) e = (e = e' \<or> list_ex (\<lambda>u. offers u e) us)"
| "offers (Field _ _ _ us) e = list_ex (\<lambda>u. offers u e) us"
| "offers (AlertBox _ us) e = list_ex (\<lambda>u. offers u e) us"
| "offers (Group us) e = list_ex (\<lambda>u. offers u e) us"

text \<open>The text that is shown.\<close>

fun shown :: "'e ui \<Rightarrow> string list" where
  "shown (Text s) = [s]"
| "shown (Icon _) = []"
| "shown (Button l _ _) = [l]"
| "shown (Input _ v _ _) = [v]"
| "shown (Checkbox l _ _ _) = [l]"
| "shown (Choice _ v _ opts _) = (case map_of opts v of None \<Rightarrow> [] | Some l \<Rightarrow> [l])"
| "shown (FileInput _ _) = []"
| "shown (Form l _ us) = l # concat (map shown us)"
| "shown (Field _ l err us) = l # concat (map shown us) @ (case err of None \<Rightarrow> [] | Some m \<Rightarrow> [m])"
| "shown (AlertBox _ us) = concat (map shown us)"
| "shown (Group us) = concat (map shown us)"

definition nothing :: "'e ui" where
  "nothing = Group []"

text \<open>\<open>{condition && element}\<close>\<close>

definition only_if :: "bool \<Rightarrow> 'e ui \<Rightarrow> 'e ui" where
  "only_if b u = (if b then u else nothing)"

lemma offers_only_if [simp]: "offers (only_if b u) e \<longleftrightarrow> b \<and> offers u e"
  by (simp add: only_if_def nothing_def)

section \<open>Shared components\<close>

definition loading_button :: "string \<Rightarrow> bool \<Rightarrow> bool \<Rightarrow> 'e \<Rightarrow> 'e ui" where
  "loading_button label disabled loading e = Button label (disabled \<or> loading) e"

definition alert :: "string \<Rightarrow> 'e ui list \<Rightarrow> 'e option \<Rightarrow> 'e ui" where
  "alert variant children onDismiss =
     AlertBox variant
       [Group children,
        case onDismiss of None \<Rightarrow> nothing | Some e \<Rightarrow> loading_button ''Dismiss'' False False e]"

definition form_field ::
  "string \<Rightarrow> string \<Rightarrow> bool \<Rightarrow> string option \<Rightarrow> string option \<Rightarrow> 'e ui list \<Rightarrow> 'e ui" where
  "form_field i label required error description children =
     Field i label (if truthy_str error then error else None)
       ([only_if required (Icon 0x2A),
         only_if (truthy_str description) (Text (case description of None \<Rightarrow> [] | Some d \<Rightarrow> d))] @ children)"

text \<open>A dialog; the area around it cancels, even while the action runs.\<close>

definition confirm_dialog ::
  "bool \<Rightarrow> string \<Rightarrow> string \<Rightarrow> string \<Rightarrow> bool \<Rightarrow> 'e \<Rightarrow> 'e \<Rightarrow> 'e ui" where
  "confirm_dialog open' title message confirmLabel loading onConfirm onCancel =
     only_if open'
       (Group [Button [] False onCancel, Text title, Text message,
               loading_button ''Cancel'' loading False onCancel,
               loading_button confirmLabel False loading onConfirm])"

definition badge :: "string \<Rightarrow> string \<Rightarrow> 'e ui" where
  "badge variant text = Group [Text text]"

definition file_button :: "string \<Rightarrow> bool \<Rightarrow> (string \<Rightarrow> 'e) \<Rightarrow> 'e ui" where
  "file_button label disabled onFileSelect = Group [Text label, FileInput disabled onFileSelect]"

definition card_placeholder :: "string \<Rightarrow> string \<Rightarrow> 'e ui" where
  "card_placeholder title message = Group [Text title, Text message]"

definition info_row :: "string \<Rightarrow> 'e ui \<Rightarrow> 'e ui" where
  "info_row label child = Group [Text label, child]"

lemma offers_loading_button [simp]:
  "offers (loading_button l d p e') e \<longleftrightarrow> \<not> d \<and> \<not> p \<and> e = e'"
  by (auto simp: loading_button_def)

section \<open>Effects\<close>

text \<open>
  What a handler does beside its own state: a call of the API whose end comes back as an event,
  dropping cached queries whose key starts so, a call of the parent's callback, a message box.
\<close>

datatype 'o effect = Send client_call | Invalidate "string list" | Emit 'o | MessageBox string

text \<open>A mutation's error as components show it: the server's text if it was the server's error.\<close>

fun error_text :: "string \<Rightarrow> call_error \<Rightarrow> string" where
  "error_text other (ApiError _ _ m _) = m"
| "error_text other (EngineError _) = other"

fun error_message :: "call_error \<Rightarrow> string" where
  "error_message (ApiError _ _ m _) = m"
| "error_message (EngineError m) = m"

text \<open>The details of a validation error as a map from fields to messages; later ones win.\<close>

fun detail_of :: "jsval \<Rightarrow> (string \<times> string) option" where
  "detail_of (JObj ps) =
     (case (getprop ps ''field'', getprop ps ''message'') of
        (JStr f, JStr m) \<Rightarrow> Some (f, m) | _ \<Rightarrow> None)"
| "detail_of _ = None"

definition set_errors :: "(string \<times> string) list \<Rightarrow> (string, string) jmap" where
  "set_errors ds = foldl (\<lambda>m d. jset m (fst d) (snd d)) [] ds"

definition detail_errors :: "jsval list \<Rightarrow> (string, string) jmap" where
  "detail_errors ds = set_errors (List.map_filter detail_of ds)"

text \<open>
  \<open>handleApiError\<close> of two forms: the errors of fields and the general error after it. Only details
  that are given replace the errors of fields.
\<close>

fun handleApiError ::
  "call_error \<Rightarrow> (string, string) jmap \<times> string \<Rightarrow> (string, string) jmap \<times> string" where
  "handleApiError (ApiError _ _ _ (JArr ds)) (fe, ge) = (detail_errors ds, ge)"
| "handleApiError (ApiError _ _ m _) (fe, ge) = (fe, m)"
| "handleApiError (EngineError _) (fe, ge) = (fe, ''An unexpected error occurred'')"

lemma map_of_set_errors: "map_of (set_errors ds) f = map_of (rev ds) f"
  by (induction ds rule: rev_induct) (auto simp: set_errors_def update_conv')

lemma detail_of_json [simp]: "detail_of (detail_json d) = Some d"
  by (cases d) (simp add: detail_json_def getprop_def)

lemma detail_errors_json: "detail_errors (map detail_json ds) = set_errors ds"
proof -
  have "List.map_filter detail_of (map detail_json ds) = ds"
    by (induction ds) (simp_all add: map_filter_simps)
  then show ?thesis by (simp add: detail_errors_def)
qed

end
