(* ===== verification/NodeForm.thy ===== *)
theory NodeForm
  imports WebUi ClientServer
begin

text \<open>
  \<open>web/src/screens/address-space/NodeForm.tsx\<close>: the form that creates and changes variables, and
  what the server makes of what it sends. A variable, a namespace and a container are the rows and
  trees of the server's model, as its answers list them; \<open>str\<close> is JavaScript's \<open>String\<close>.
\<close>

section \<open>The form\<close>

definition DATA_TYPES :: "string list" where
  "DATA_TYPES =
     [''Boolean'', ''Int16'', ''Int32'', ''Int64'', ''UInt16'', ''UInt32'', ''UInt64'', ''Float'',
      ''Double'', ''String'', ''DateTime'', ''ByteString'']"

text \<open>The containers of a tree with their paths.\<close>

fun flattenObjectNodes :: "obj_tree list \<Rightarrow> string \<Rightarrow> (string \<times> string) list" where
  "flattenObjectNodes [] pre = []"
| "flattenObjectNodes (ObjTree r cs # ts) pre =
     (let path = (if pre \<noteq> [] then pre @ ''/'' @ on_name r else on_name r)
      in (on_id r, path) # flattenObjectNodes cs path @ flattenObjectNodes ts pre)"

record node_form =
  nf_name :: string
  nf_dataType :: string
  nf_namespaceId :: string
  nf_objectNodeId :: string
  nf_initialValue :: string
  nf_description :: string
  nf_fieldErrors :: "(string, string) jmap"
  nf_generalError :: string
  nf_pending :: bool

text \<open>\<open>None\<close> is the form for a new variable.\<close>

definition initial_node_form :: "(jsval \<Rightarrow> string) \<Rightarrow> node_row option \<Rightarrow> node_form" where
  "initial_node_form str node =
     (case node of
        None \<Rightarrow>
          \<lparr>nf_name = [], nf_dataType = ''Double'', nf_namespaceId = [], nf_objectNodeId = [],
           nf_initialValue = [], nf_description = [], nf_fieldErrors = [], nf_generalError = [],
           nf_pending = False\<rparr>
      | Some n \<Rightarrow>
          \<lparr>nf_name = nd_name n, nf_dataType = nd_dataType n, nf_namespaceId = nd_namespace n,
           nf_objectNodeId = (case nd_object n of None \<Rightarrow> [] | Some i \<Rightarrow> i),
           nf_initialValue = (case nd_initial n of None \<Rightarrow> [] | Some v \<Rightarrow> as_text str v),
           nf_description = (case nd_description n of None \<Rightarrow> [] | Some s \<Rightarrow> s),
           nf_fieldErrors = [], nf_generalError = [], nf_pending = False\<rparr>)"

datatype node_form_event =
    NameTyped string
  | TypeChosen string
  | NamespaceChosen string
  | ParentChosen string
  | ValueTyped string
  | DescriptionTyped string
  | NodeSubmitted
  | NamespacesLoaded "string list"
  | NodeSaved
  | NodeNotSaved call_error
  | NodeCancelled
  | ConnectorsLink

datatype node_form_report = FormDone | FormCancelled | NavigateTo string

definition node_form_errors :: "node_form \<Rightarrow> (string, string) jmap" where
  "node_form_errors f =
     (if trim (nf_name f) = [] then [(''name'', ''Name is required'')] else []) @
     (if nf_dataType f = [] then [(''dataType'', ''Data type is required'')] else []) @
     (if nf_namespaceId f = [] then [(''namespaceId'', ''Namespace is required'')] else [])"

definition validateForm :: "node_form \<Rightarrow> bool \<times> node_form" where
  "validateForm f =
     (node_form_errors f = [], f\<lparr>nf_fieldErrors := node_form_errors f, nf_generalError := []\<rparr>)"

definition or_undefined :: "string \<Rightarrow> jsval" where
  "or_undefined s = (if s \<noteq> [] then JStr s else JUndefined)"

text \<open>The initial value is sent as text, whatever the data type.\<close>

definition node_update_data :: "node_form \<Rightarrow> jsval" where
  "node_update_data f =
     JObj [(''name'', JStr (trim (nf_name f))), (''dataType'', JStr (nf_dataType f)),
           (''objectNodeId'', if nf_objectNodeId f \<noteq> [] then JStr (nf_objectNodeId f) else JNull),
           (''initialValue'', or_undefined (trim (nf_initialValue f))),
           (''description'', or_undefined (trim (nf_description f)))]"

definition node_create_data :: "node_form \<Rightarrow> jsval" where
  "node_create_data f =
     JObj [(''name'', JStr (trim (nf_name f))), (''namespaceId'', JStr (nf_namespaceId f)),
           (''objectNodeId'', or_undefined (nf_objectNodeId f)), (''dataType'', JStr (nf_dataType f)),
           (''initialValue'', or_undefined (trim (nf_initialValue f))),
           (''description'', or_undefined (trim (nf_description f)))]"

definition node_form_submit ::
  "node_row option \<Rightarrow> node_form \<Rightarrow> node_form \<times> node_form_report effect list" where
  "node_form_submit node f =
     (let (valid, f1) = validateForm f in
      if \<not> valid then (f1, [])
      else (f1\<lparr>nf_pending := True\<rparr>,
            [Send (OfNodes (case node of
                      Some n \<Rightarrow> UpdateNode (nd_id n) (node_update_data f1)
                    | None \<Rightarrow> CreateNode (node_create_data f1)))]))"

definition saved_effects :: "'o effect list" where
  "saved_effects = [Invalidate [''nodes''], Invalidate [''namespaces'']]"

fun node_form_step ::
  "node_row option \<Rightarrow> node_form_event \<Rightarrow> node_form \<Rightarrow> node_form \<times> node_form_report effect list" where
  "node_form_step node (NameTyped v) f = (f\<lparr>nf_name := v\<rparr>, [])"
| "node_form_step node (TypeChosen v) f = (f\<lparr>nf_dataType := v\<rparr>, [])"
| "node_form_step node (NamespaceChosen v) f = (f\<lparr>nf_namespaceId := v, nf_objectNodeId := []\<rparr>, [])"
| "node_form_step node (ParentChosen v) f = (f\<lparr>nf_objectNodeId := v\<rparr>, [])"
| "node_form_step node (ValueTyped v) f = (f\<lparr>nf_initialValue := v\<rparr>, [])"
| "node_form_step node (DescriptionTyped v) f = (f\<lparr>nf_description := v\<rparr>, [])"
| "node_form_step node NodeSubmitted f = node_form_submit node f"
| "node_form_step node (NamespacesLoaded ids) f =
     (if nf_namespaceId f = [] \<and> ids \<noteq> [] \<and> node = None then (f\<lparr>nf_namespaceId := hd ids\<rparr>, []) else (f, []))"
| "node_form_step node NodeSaved f = (f\<lparr>nf_pending := False\<rparr>, saved_effects @ [Emit FormDone])"
| "node_form_step node (NodeNotSaved e) f =
     (let (fields, general) = handleApiError e (nf_fieldErrors f, nf_generalError f)
      in (f\<lparr>nf_fieldErrors := fields, nf_generalError := general, nf_pending := False\<rparr>, []))"
| "node_form_step node NodeCancelled f = (f, [Emit FormCancelled])"
| "node_form_step node ConnectorsLink f = (f, [Emit (NavigateTo ''connectors'')])"

definition field_error :: "node_form \<Rightarrow> string \<Rightarrow> string option" where
  "field_error f k = jget (nf_fieldErrors f) k"

definition node_form_view ::
  "node_row option \<Rightarrow> bool \<Rightarrow> (string \<times> string) list \<Rightarrow> obj_tree list \<Rightarrow> node_form
     \<Rightarrow> node_form_event ui" where
  "node_form_view node cancels namespaces tree f =
     (let title = (if node \<noteq> None then ''Edit Node'' else ''Create Node'') in
      Form title NodeSubmitted
       [only_if (nf_generalError f \<noteq> []) (alert ''error'' [Text (nf_generalError f)] None),
        form_field ''node-name'' ''Name'' True (field_error f ''name'') None
          [Input ''node-name'' (nf_name f) False NameTyped],
        form_field ''node-dataType'' ''Data Type'' True (field_error f ''dataType'') None
          [Choice ''node-dataType'' (nf_dataType f) False (map (\<lambda>t. (t, t)) DATA_TYPES) TypeChosen],
        form_field ''node-namespace'' ''Namespace'' True (field_error f ''namespaceId'') None
          [Choice ''node-namespace'' (nf_namespaceId f) (node \<noteq> None)
             (([], ''Select a namespace'') # namespaces) NamespaceChosen],
        form_field ''node-object-node'' ''Parent Object'' False (field_error f ''objectNodeId'') None
          [Choice ''node-object-node'' (nf_objectNodeId f) False
             (([], ''(Root)'') # flattenObjectNodes tree []) ParentChosen],
        form_field ''node-initialValue'' ''Initial Value'' False (field_error f ''initialValue'') None
          [Input ''node-initialValue'' (nf_initialValue f) False ValueTyped],
        form_field ''node-description'' ''Description'' False (field_error f ''description'') None
          [Input ''node-description'' (nf_description f) False DescriptionTyped],
        only_if (node = None)
          (Group [Text ''Want to map this variable to a PLC address?'',
                  loading_button ''Connect to a device variable'' False False ConnectorsLink,
                  Text ''after creating the node.'']),
        Group [loading_button (if node \<noteq> None then ''Update Node'' else ''Create Node'') False
                 (nf_pending f) NodeSubmitted,
               only_if cancels (loading_button ''Cancel'' (nf_pending f) False NodeCancelled)]])"

section \<open>What the server makes of it\<close>

text \<open>The variable a valid form describes; its initial value is a text.\<close>

definition form_request :: "node_form \<Rightarrow> create_node_request" where
  "form_request f =
     \<lparr>cr_name = trim (nf_name f), cr_namespaceId = nf_namespaceId f,
      cr_objectNodeId = (if nf_objectNodeId f \<noteq> [] then Some (nf_objectNodeId f) else None),
      cr_dataType = nf_dataType f,
      cr_initialValue = or_undefined (trim (nf_initialValue f)),
      cr_description = (if trim (nf_description f) \<noteq> [] then Some (trim (nf_description f)) else None)\<rparr>"

lemma create_data_read: "create_node_body (json_copy (node_create_data f)) = Some (form_request f)"
  by (cases "nf_objectNodeId f = []"; cases "trim (nf_initialValue f) = []"; cases "trim (nf_description f) = []")
    (simp_all add: node_create_data_def create_node_body_def form_request_def or_undefined_def
      required_text_def getprop_def)

lemma form_errors_Nil:
  "node_form_errors f = [] \<longleftrightarrow> trim (nf_name f) \<noteq> [] \<and> nf_dataType f \<noteq> [] \<and> nf_namespaceId f \<noteq> []"
  by (simp add: node_form_errors_def)

lemma form_request_valid:
  assumes "node_form_errors f = []" "nf_dataType f \<in> set DATA_TYPES" "trim (nf_namespaceId f) \<noteq> []"
  shows "validateCreate (form_request f) = []"
  using assms
  by (simp add: validateCreate_def form_request_def form_errors_Nil trim_trim DATA_TYPES_def
      SUPPORTED_DATA_TYPES_def)

text \<open>Submitting the form for a new variable, up to the end of its mutation.\<close>

definition node_form_round ::
  "app_env \<Rightarrow> reader \<Rightarrow> string option \<Rightarrow> node_form \<Rightarrow> app_state
     \<Rightarrow> ((node_form \<times> node_form_report effect list) \<times> app_state) option" where
  "node_form_round env rd k f s =
     (case node_form_step None NodeSubmitted f of
        (f1, [Send c]) \<Rightarrow>
          map_option
            (\<lambda>(r, s1). (node_form_step None (case r of Inr _ \<Rightarrow> NodeSaved | Inl e \<Rightarrow> NodeNotSaved e) f1, s1))
            (client_round env rd k c s)
      | r \<Rightarrow> Some (r, s))"

definition node_form_request :: "string option \<Rightarrow> node_form \<Rightarrow> request" where
  "node_form_request k f = sent_request k [] (OfNodes (CreateNode (node_create_data f)))"

lemma post_node_handled:
  "handle env PostNodeH as (sent_request k q (OfNodes (CreateNode (node_create_data f)))) s
    = Some (case node_create (fst (ap_fresh env 0)) (snd (ap_fresh env 0)) (form_request f) (hs_db (snd s)) of
        (r, d) \<Rightarrow> (Answer (fst (node_answer (api_of env) (\<lambda>row. respond 201 (node_row_json row)) (r, d))),
                   fst s, (snd s)\<lparr>hs_db := d\<rparr>))"
  by (simp add: sent_request_def send_json_def try_db_def post_node_def create_data_read node_answer_def
      split_beta split: sum.split prod.split)

lemma round_of_valid:
  assumes "node_form_errors f = []" "lets_in (ap_auth env) k" "ap_body env (node_form_request k f) = None"
    and created: "node_create (fst (ap_fresh env 0)) (snd (ap_fresh env 0)) (form_request f) (hs_db (snd s)) = (r, d)"
    and ok: "objects_ok (db_tables d)" "db_open d" "db_alive d" "db_accessible d"
    and "f1 = f\<lparr>nf_fieldErrors := [], nf_generalError := [], nf_pending := True\<rparr>"
  shows "\<exists>h. hs_db h = d \<and> node_form_round env rd k f s =
    Some (node_form_step None
      (case read_by rd (fst (node_answer (api_of env) (\<lambda>row. respond 201 (node_row_json row)) (r, d))) of
         Inr _ \<Rightarrow> NodeSaved | Inl e \<Rightarrow> NodeNotSaved e) f1, fst s, h)"
proof -
  let ?c = "OfNodes (CreateNode (node_create_data f))" and ?h = "(snd s)\<lparr>hs_db := d\<rparr>"
  let ?rs = "fst (node_answer (api_of env) (\<lambda>row. respond 201 (node_row_json row)) (r, d))"
  obtain h where h: "finished (ap_host env) (sent_request k [] ?c) (call_url ?c) ?rs ?h = Some h"
    using finished_ends [of ?h "ap_host env"] ok by fastforce
  have "application env (sent_request k [] ?c) (call_url ?c) s = Some (Answer ?rs, fst s, h)"
    using h assms(2,3) created
    by (subst application_handles)
      (simp_all add: node_form_request_def post_node_handled after_answer_def del: handle.simps)
  moreover have "hs_db h = d" using finished_db [OF h] by simp
  ultimately show ?thesis
    using assms(1,9)
    by (auto simp: node_form_round_def node_form_submit_def validateForm_def client_round_def Let_def
        node_create_data_def)
qed

lemma duplicate_shown:
  fixes f :: node_form
  assumes "r = Inr (Inl (duplicate_node n ns))"
  shows "case read_by rd (fst (node_answer env g (r, d))) of
      Inr _ \<Rightarrow> False
    | Inl e \<Rightarrow> (\<exists>f1. node_form_step None (NodeNotSaved e) f = (f1, [])
        \<and> field_error f1 ''name'' = Some (''Node name '' @ quoted n @ '' already exists in this namespace''))"
proof -
  have "fst (node_answer env g (r, d)) = domain_response 409 (duplicate_node n ns)"
    by (simp add: node_answer_def assms mapDomainErrorToResponse_def duplicate_node_def)
  moreover have "read_by rd (domain_response 409 (duplicate_node n ns))
      = Inl (ApiError 409 (JStr ''DUPLICATE_ERROR'') (de_message (duplicate_node n ns))
          (JArr (map detail_json (de_details (duplicate_node n ns)))))"
    using read_domain_response [of 409 "duplicate_node n ns" rd] by (simp add: duplicate_node_def)
  ultimately show ?thesis
    by (simp only: sum.case node_form_step.simps handleApiError.simps detail_errors_json)
      (simp add: field_error_def map_of_set_errors duplicate_node_def)
qed

lemma fault_shown:
  fixes f :: node_form
  assumes "r = Inl x"
  shows "case read_by rd (fst (node_answer env g (r, d))) of
      Inr _ \<Rightarrow> False
    | Inl e \<Rightarrow> (\<exists>f1. node_form_step None (NodeNotSaved e) f = (f1, []) \<and> nf_generalError f1 \<noteq> [])"
proof -
  have a: "fst (node_answer env g (r, d)) = thrown_response env x"
    by (simp add: node_answer_def assms)
  obtain m where "m \<noteq> []"
    "read_by rd (thrown_response env x) = Inl (ApiError 500 (JStr ''INTERNAL_ERROR'') m JUndefined)"
    by (rule read_thrown)
  then show ?thesis unfolding a by simp
qed

lemma success_closes:
  assumes "r = Inr (Inr row)"
  shows "\<exists>v. read_by rd (fst (node_answer env (\<lambda>row. respond 201 (node_row_json row)) (r, d))) = Inr v"
  by (simp add: node_answer_def assms read_by_def read_success)

lemma round_result:
  assumes "integrity (db_tables d)" "objects_ok (db_tables d)" "db_works d" "hs_db (snd s) = d"
    and "lets_in (ap_auth env) k" "ap_body env (node_form_request k f) = None" "ap_fresh env 0 = (i, now)"
    and "node_form_errors f = []" "nf_dataType f \<in> set DATA_TYPES" "trim (nf_namespaceId f) \<noteq> []"
  obtains r d' h where "node_create i now (form_request f) d = (r, d')" "hs_db h = d'"
    "node_form_round env rd k f s =
      Some (node_form_step None
        (case read_by rd (fst (node_answer (api_of env) (\<lambda>row. respond 201 (node_row_json row)) (r, d'))) of
           Inr _ \<Rightarrow> NodeSaved | Inl e \<Rightarrow> NodeNotSaved e)
        (f\<lparr>nf_fieldErrors := [], nf_generalError := [], nf_pending := True\<rparr>), fst s, h)"
proof -
  obtain r d' where created: "node_create i now (form_request f) d = (r, d')"
    by (cases "node_create i now (form_request f) d")
  have d: "db_open d" "db_alive d" using assms(3) by (simp_all add: db_works_def)
  have works: "db_works d'" using node_create_works [OF assms(3), of i now "form_request f"] created by simp
  have "t_objects (db_tables d') = t_objects (db_tables d)"
    using node_create_result [OF assms(1) d, of i now "form_request f", unfolded created Let_def prod.case]
    by (simp split: if_splits)
  with assms(2) have "objects_ok (db_tables d')" by (simp add: objects_ok_def)
  then show ?thesis
    using round_of_valid [OF assms(8,5,6), of s r d' _ rd] created assms(4,7) works that
    by (auto simp: db_works_def)
qed

lemma refused_shown:
  assumes "node_form_errors f = []"
    and "ap_body env (node_form_request k f) \<noteq> None \<or> \<not> lets_in (ap_auth env) k"
  shows "\<exists>f1. node_form_round env rd k f s = Some ((f1, []), s) \<and> nf_generalError f1 \<noteq> []"
proof -
  let ?c = "OfNodes (CreateNode (node_create_data f))"
  have m: "call_method ?c \<noteq> ''GET''" by (simp add: call_method_def send_json_def)
  have refused: "ap_body env (sent_request k [] ?c) \<noteq> None
      \<or> call_method ?c \<noteq> ''GET'' \<and> \<not> lets_in (ap_auth env) k"
    using assms(2) m by (simp only: node_form_request_def simp_thms)
  obtain n code m where a: "m \<noteq> []" "code \<noteq> []" "\<not> (200 \<le> n \<and> n < 300)"
    "application env (sent_request k [] ?c) (call_url ?c) s = Some (Answer (error_response n code m), s)"
    by (rule application_refuses [OF refused])
  then have "client_round env rd k ?c s = Some (Inl (ApiError n (JStr code) m JUndefined), s)"
    by (simp add: client_round_def read_by_def read_error_response)
  with a(1) assms(1) show ?thesis
    by (auto simp: node_form_round_def node_form_submit_def validateForm_def Let_def node_create_data_def)
qed

text \<open>C31: Submitting the form for a new variable, filled in and with a type of the list, on a database
  that can be reached and keeps its constraints, ends in one of four ways. If the key the server
  asks for is missing, or the server cannot read the body, a general error is shown and nothing has
  changed. If the name is taken in the namespace, the field of the name shows it and nothing is
  stored. If the namespace or the container has gone, a general error is shown and nothing is
  stored. Else exactly the variable described is stored, the initial value as a text whatever the
  type, and the form closes.\<close>

theorem node_form_saves:
  assumes "integrity (db_tables d)" "objects_ok (db_tables d)" "db_works d" "hs_db (snd s) = d"
    and "ap_fresh env 0 = (i, now)"
    and "node_form_errors f = []" "nf_dataType f \<in> set DATA_TYPES" "trim (nf_namespaceId f) \<noteq> []"
  shows "\<exists>f1 effs s1. node_form_round env rd k f s = Some ((f1, effs), s1) \<and>
    (if ap_body env (node_form_request k f) \<noteq> None \<or> \<not> lets_in (ap_auth env) k then
       nf_generalError f1 \<noteq> [] \<and> effs = [] \<and> s1 = s
     else if \<exists>n \<in> set (t_nodes (db_tables d)). nd_name n = trim (nf_name f) \<and> nd_namespace n = nf_namespaceId f then
       field_error f1 ''name'' =
         Some (''Node name '' @ quoted (trim (nf_name f)) @ '' already exists in this namespace'')
       \<and> effs = [] \<and> db_tables (hs_db (snd s1)) = db_tables d
     else if node_fits (db_tables d) (new_node i now (form_request f)) then
       effs = saved_effects @ [Emit FormDone]
       \<and> db_tables (hs_db (snd s1)) =
           (db_tables d)\<lparr>t_nodes := t_nodes (db_tables d) @ [new_node i now (form_request f)]\<rparr>
     else nf_generalError f1 \<noteq> [] \<and> effs = [] \<and> db_tables (hs_db (snd s1)) = db_tables d)"
proof (cases "ap_body env (node_form_request k f) \<noteq> None \<or> \<not> lets_in (ap_auth env) k")
  case True
  obtain f1 where "node_form_round env rd k f s = Some ((f1, []), s)" "nf_generalError f1 \<noteq> []"
    using refused_shown [OF assms(6) True, of rd s] by blast
  with True show ?thesis by (intro exI [of _ f1] exI [of _ "[]"] exI [of _ s]) simp
next
  case False
  then have let_in: "lets_in (ap_auth env) k" "ap_body env (node_form_request k f) = None" by simp_all
  obtain r d' h where created: "node_create i now (form_request f) d = (r, d')" and h: "hs_db h = d'"
    and round: "node_form_round env rd k f s =
      Some (node_form_step None
        (case read_by rd (fst (node_answer (api_of env) (\<lambda>row. respond 201 (node_row_json row)) (r, d'))) of
           Inr _ \<Rightarrow> NodeSaved | Inl e \<Rightarrow> NodeNotSaved e)
        (f\<lparr>nf_fieldErrors := [], nf_generalError := [], nf_pending := True\<rparr>), fst s, h)"
    by (rule round_result [OF assms(1-4) let_in assms(5-8)])
  let ?f1 = "f\<lparr>nf_fieldErrors := [], nf_generalError := [], nf_pending := True\<rparr>"
  have d: "db_open d" "db_alive d" using assms(3) by (simp_all add: db_works_def)
  note out = node_create_result [OF assms(1) d, of i now "form_request f", unfolded created Let_def prod.case
      form_request_valid [OF assms(6-8)]]
  show ?thesis
  proof (cases "\<exists>n \<in> set (t_nodes (db_tables d)). nd_name n = trim (nf_name f) \<and> nd_namespace n = nf_namespaceId f")
    case True
    with out have r: "r = Inr (Inl (duplicate_node (trim (nf_name f)) (nf_namespaceId f)))"
      and t: "db_tables d' = db_tables d"
      by (simp_all add: form_request_def)
    from duplicate_shown [OF r, where rd = rd and env = "api_of env" and d = d' and f = ?f1
        and g = "\<lambda>row. respond 201 (node_row_json row)"] round
    show ?thesis using True let_in h t by (auto split: sum.splits)
  next
    case free: False
    show ?thesis
    proof (cases "node_fits (db_tables d) (new_node i now (form_request f))")
      case True
      with out free have r: "r = Inr (Inr (new_node i now (form_request f)))"
        and t: "db_tables d' = (db_tables d)\<lparr>t_nodes := t_nodes (db_tables d) @ [new_node i now (form_request f)]\<rparr>"
        by (simp_all add: form_request_def)
      from success_closes [OF r, of rd "api_of env" d'] round
      show ?thesis using True let_in free h t by auto
    next
      case False
      with out free obtain x where r: "r = Inl x" and t: "db_tables d' = db_tables d"
        by (auto simp: form_request_def)
      from fault_shown [OF r, where rd = rd and env = "api_of env" and d = d' and f = ?f1
        and g = "\<lambda>row. respond 201 (node_row_json row)"] round
      show ?thesis using False let_in free h t by (auto split: sum.splits)
    qed
  qed
qed

section \<open>Editing\<close>

text \<open>Saving the form of an existing variable stores the name, the type and the container it
  shows; but an emptied description and an emptied initial value are not sent and stay as they
  were, and an initial value that is there is stored as a text. Opening and saving a variable
  whose value is a number or a truth value, without changing anything, so turns the value into
  the text that is displayed.\<close>

lemma edit_form_stores:
  "\<exists>r. update_node_body_of (json_copy (node_update_data f)) = Some r \<and>
     set_fields now r row =
       row\<lparr>nd_name := trim (nf_name f), nd_dataType := nf_dataType f,
           nd_object := (if nf_objectNodeId f = [] then None else Some (nf_objectNodeId f)),
           nd_initial := (if trim (nf_initialValue f) = [] then nd_initial row
                          else Some (JStr (trim (nf_initialValue f)))),
           nd_description := (if trim (nf_description f) = [] then nd_description row
                              else Some (trim (nf_description f))),
           nd_updated := now\<rparr>"
  by (cases "nf_objectNodeId f = []"; cases "trim (nf_initialValue f) = []"; cases "trim (nf_description f) = []")
    (simp_all add: node_update_data_def update_node_body_of_def or_undefined_def optional_text_def
      nullable_text_def getprop_def set_fields_def upd_def)

lemma unchanged_save_retypes:
  assumes "nd_initial row = Some (JNum n)" "trim (str (JNum n)) = str (JNum n)" "str (JNum n) \<noteq> []"
  shows "\<exists>r. update_node_body_of (json_copy (node_update_data (initial_node_form str (Some row)))) = Some r
    \<and> nd_initial (set_fields now r row) = Some (JStr (str (JNum n)))"
proof -
  have "nf_initialValue (initial_node_form str (Some row)) = str (JNum n)"
    by (simp add: initial_node_form_def assms(1) as_text_def)
  then show ?thesis
    using assms(2,3)
    by (cases "nf_objectNodeId (initial_node_form str (Some row)) = []";
        cases "trim (nf_description (initial_node_form str (Some row))) = []")
      (simp_all add: node_update_data_def update_node_body_of_def or_undefined_def optional_text_def
      nullable_text_def getprop_def set_fields_def)
qed

section \<open>Runs\<close>

definition filled_form :: node_form where
  "filled_form = (initial_node_form (\<lambda>_. []) None)
     \<lparr>nf_name := '' Speed '', nf_dataType := ''Boolean'', nf_namespaceId := ''ns'', nf_initialValue := ''true''\<rparr>"

definition demo_reader :: reader where
  "demo_reader = \<lparr>re_status = (\<lambda>_. ''status''), re_text = (\<lambda>_. ''value''), re_bad = ''bad'', re_null = ''null''\<rparr>"

lemma demo_plant_integrity: "integrity (db_tables (demo_plant []))"
  by (simp add: demo_plant_def demo_objects_def integrity_def notnull_ok_def unique_ok_def
      foreign_ok_def fresh_tables_def ref_ok_def)

lemma node_form_saves_witness:
  "\<exists>f1 s1. node_form_round (demo_app open_auth) demo_reader None filled_form demo_state
       = Some ((f1, saved_effects @ [Emit FormDone]), s1)
     \<and> map (\<lambda>r. (nd_name r, nd_initial r)) (t_nodes (db_tables (hs_db (snd s1)))) = [(''Speed'', Some (JStr ''true''))]"
proof -
  let ?d = "demo_plant []"
  have f: "node_form_errors filled_form = []" "nf_dataType filled_form \<in> set DATA_TYPES"
    "trim (nf_namespaceId filled_form) \<noteq> []"
    by code_simp+
  have r: "trim (nf_name filled_form) = ''Speed''" "new_node ''id-1'' ''now'' (form_request filled_form)
      = \<lparr>nd_id = ''id-1'', nd_namespace = ''ns'', nd_object = None, nd_name = ''Speed'', nd_dataType = ''Boolean'',
         nd_initial = Some (JStr ''true''), nd_description = None, nd_created = ''now'', nd_updated = ''now''\<rparr>"
    by code_simp+
  have t: "t_nodes (db_tables ?d) = []" by (simp add: demo_plant_def)
  have fits: "node_fits (db_tables ?d) (new_node ''id-1'' ''now'' (form_request filled_form))"
    by (simp add: node_fits_def find_node_def r t) (simp add: demo_plant_def demo_objects_def)
  have "lets_in (ap_auth (demo_app open_auth)) None" by (simp add: lets_in_def open_auth_def)
  with node_form_saves [OF demo_plant_integrity demo_plant_facts(1) _ _ _ f, where env = "demo_app open_auth"
      and s = demo_state and i = "''id-1''" and now = "''now''" and rd = demo_reader and k = None]
  show ?thesis
    using demo_plant_facts(2-4) [of "[]"] fits t
    by (simp add: db_works_def demo_state_def demo_host_def r)
      (elim exE conjE, intro exI conjI, assumption, simp)
qed

end
