(* ===== verification/SpaceTree.thy ===== *)
theory SpaceTree
  imports NodeForm
begin

text \<open>
  \<open>web/src/screens/address-space/AddressSpaceTree.tsx\<close> and \<open>NodeDetailPanel.tsx\<close>: the tree of
  namespaces, containers and variables, and the panel that shows a selected variable, with the
  node id it is told to have. Every item of the tree is a component with a state of its own; they
  are kept in one map under the path of ids that leads to the item, and an item that is not there
  is in its first state. Collapsing an item takes the items below it out of the map, because they
  are unmounted. The actions of an item, which appear under the pointer, are always listed.
\<close>

section \<open>Items\<close>

record selected_node =
  se_node :: node_row
  se_namespaceName :: string
  se_namespaceIndex :: nat
  se_objectNodePath :: string

text \<open>An item's state, with the name in its form for a new container and whether that is on its way.\<close>

record tree_item =
  ti_expanded :: bool
  ti_creating :: bool
  ti_createError :: string
  ti_name :: string
  ti_pending :: bool

definition first_item :: tree_item where
  "first_item = \<lparr>ti_expanded = False, ti_creating = False, ti_createError = [], ti_name = [], ti_pending = False\<rparr>"

type_synonym tree_state = "(string list, tree_item) jmap"

definition item_at :: "tree_state \<Rightarrow> string list \<Rightarrow> tree_item" where
  "item_at st p = (case jget st p of None \<Rightarrow> first_item | Some i \<Rightarrow> i)"

datatype tree_event =
    ItemToggled "string list"
  | AddPressed "string list"
  | ChildNamed "string list" string
  | ChildSubmitted "string list"
  | ChildCancelled "string list"
  | ChildCreated "string list"
  | ChildNotCreated "string list" call_error
  | DeleteAgreed "string list"
  | ContainerDeleted "string list"
  | VariableClicked selected_node

text \<open>An item is mounted when all above it are expanded.\<close>

definition mounted :: "tree_state \<Rightarrow> string list \<Rightarrow> bool" where
  "mounted st p = list_all (\<lambda>k. ti_expanded (item_at st (take k p))) [1..<length p]"

definition unmount_below :: "string list \<Rightarrow> tree_state \<Rightarrow> tree_state" where
  "unmount_below p st = filter (\<lambda>(q, _). \<not> (take (length p) q = p \<and> length p < length q)) st"

definition set_item :: "(tree_item \<Rightarrow> tree_item) \<Rightarrow> string list \<Rightarrow> tree_state \<Rightarrow> tree_state" where
  "set_item f p st = (if mounted st p then jset st p (f (item_at st p)) else st)"

text \<open>The request for a new container; only the items below a namespace have a parent.\<close>

definition object_data :: "string list \<Rightarrow> string \<Rightarrow> jsval" where
  "object_data p name =
     JObj ([(''name'', JStr name), (''namespaceId'', JStr (hd p))]
       @ (if tl p = [] then [] else [(''parentObjectNodeId'', JStr (last p))]))"

fun tree_step :: "tree_event \<Rightarrow> tree_state \<Rightarrow> tree_state \<times> selected_node effect list" where
  "tree_step (ItemToggled p) st =
     (if ti_expanded (item_at st p)
      then (unmount_below p (set_item (\<lambda>i. i\<lparr>ti_expanded := False, ti_name := []\<rparr>) p st), [])
      else (set_item (\<lambda>i. i\<lparr>ti_expanded := True\<rparr>) p st, []))"
| "tree_step (AddPressed p) st = (set_item (\<lambda>i. i\<lparr>ti_creating := True, ti_expanded := True\<rparr>) p st, [])"
| "tree_step (ChildNamed p v) st = (set_item (\<lambda>i. i\<lparr>ti_name := v\<rparr>) p st, [])"
| "tree_step (ChildSubmitted p) st =
     (let name = trim (ti_name (item_at st p)) in
      if name = [] then (st, [])
      else (set_item (\<lambda>i. i\<lparr>ti_pending := True\<rparr>) p st,
            [Send (OfNamespaces (CreateObjectNode (object_data p name)))]))"
| "tree_step (ChildCancelled p) st =
     (set_item (\<lambda>i. i\<lparr>ti_creating := False, ti_createError := [], ti_name := []\<rparr>) p st, [])"
| "tree_step (ChildCreated p) st =
     (set_item (\<lambda>i. i\<lparr>ti_creating := False, ti_createError := [], ti_name := [], ti_pending := False,
                     ti_expanded := (tl p \<noteq> [] \<or> ti_expanded i)\<rparr>) p st,
      [Invalidate [''object-nodes'', hd p]])"
| "tree_step (ChildNotCreated p e) st =
     (set_item (\<lambda>i. i\<lparr>ti_createError := error_text ''Failed to create'' e, ti_pending := False\<rparr>) p st, [])"
| "tree_step (DeleteAgreed p) st = (st, [Send (OfNamespaces (DeleteObjectNode (last p)))])"
| "tree_step (ContainerDeleted p) st =
     (st, [Invalidate [''object-nodes'', hd p], Invalidate [''nodes'']])"
| "tree_step (VariableClicked s) st = (st, [Emit s])"

section \<open>The tree\<close>

text \<open>An item with an event for pressing it, its actions and the items under it.\<close>

definition tree_item_view ::
  "string \<Rightarrow> nat \<Rightarrow> bool \<Rightarrow> tree_event \<Rightarrow> tree_event ui list \<Rightarrow> tree_event ui list \<Rightarrow> tree_event ui" where
  "tree_item_view label icon expanded pressed actions children =
     Group [Icon icon, Button label False pressed, Group actions, only_if expanded (Group children)]"

definition inline_create_form :: "string list \<Rightarrow> tree_item \<Rightarrow> tree_event ui" where
  "inline_create_form p i =
     Form [] (ChildSubmitted p)
       [Input [] (ti_name i) (ti_pending i) (ChildNamed p),
        Button [] (ti_pending i \<or> trim (ti_name i) = []) (ChildSubmitted p),
        Button [] (ti_pending i) (ChildCancelled p),
        only_if (ti_createError i \<noteq> []) (Text (ti_createError i))]"

definition create_form_of :: "string list \<Rightarrow> tree_state \<Rightarrow> tree_event ui" where
  "create_form_of p st = only_if (ti_creating (item_at st p)) (inline_create_form p (item_at st p))"

definition variable_item :: "selected_node \<Rightarrow> tree_event ui" where
  "variable_item s = tree_item_view (nd_name (se_node s)) 0x1F539 False (VariableClicked s) [] []"

text \<open>What the items of a namespace share: its name, its index and its variables.\<close>

record tree_context =
  tc_name :: string
  tc_index :: nat
  tc_nodes :: "node_row list"
  tc_state :: tree_state

definition selection :: "tree_context \<Rightarrow> string \<Rightarrow> node_row \<Rightarrow> selected_node" where
  "selection c path n =
     \<lparr>se_node = n, se_namespaceName = tc_name c, se_namespaceIndex = tc_index c, se_objectNodePath = path\<rparr>"

definition variables_in :: "tree_context \<Rightarrow> string option \<Rightarrow> string \<Rightarrow> tree_event ui" where
  "variables_in c container path =
     Group (map (\<lambda>n. variable_item (selection c path n)) (filter (\<lambda>n. nd_object n = container) (tc_nodes c)))"

definition currentPath :: "string \<Rightarrow> string \<Rightarrow> string" where
  "currentPath path name = (if path \<noteq> [] then path @ ''/'' @ name else name)"

definition add_action :: "string list \<Rightarrow> tree_event ui" where
  "add_action p = loading_button ''+'' False False (AddPressed p)"

definition deepest :: nat where
  "deepest = 5"

text \<open>\<open>ObjectNodeTreeItem\<close>: the path of ids to the item over it, the path of names, the depth.\<close>

fun container_item :: "tree_context \<Rightarrow> string list \<Rightarrow> string \<Rightarrow> nat \<Rightarrow> obj_tree \<Rightarrow> tree_event ui" where
  "container_item c over path depth (ObjTree r ts) =
     (let p = over @ [on_id r]; here = currentPath path (on_name r) in
      tree_item_view (on_name r) 0x1F4E6 (ti_expanded (item_at (tc_state c) p)) (ItemToggled p)
        [only_if (depth < deepest) (add_action p), loading_button [] False False (DeleteAgreed p)]
        [Group (map (container_item c p here (Suc depth)) ts), create_form_of p (tc_state c),
         variables_in c (Some (on_id r)) here])"

text \<open>\<open>NamespaceTreeNode\<close>, with the answers of its two queries, which are empty until it is expanded.\<close>

definition namespace_item ::
  "tree_state \<Rightarrow> (string \<Rightarrow> obj_tree list) \<Rightarrow> node_row list \<Rightarrow> nat \<Rightarrow> namespace_row \<Rightarrow> tree_event ui" where
  "namespace_item st trees allNodes index ns =
     (let p = [ns_id ns];
          c = \<lparr>tc_name = ns_name ns, tc_index = index,
               tc_nodes = filter (\<lambda>n. nd_namespace n = ns_id ns) allNodes, tc_state = st\<rparr> in
      tree_item_view (ns_name ns) 0x1F310 (ti_expanded (item_at st p)) (ItemToggled p) [add_action p]
        [Group (map (container_item c p [] 1) (trees (ns_id ns))), create_form_of p st,
         variables_in c None []])"

datatype 'a query_data = QueryLoading | QueryFailed string | QueryData 'a

text \<open>\<open>AddressSpaceTree\<close>; \<open>cmp\<close> is \<open>localeCompare\<close>.\<close>

definition orderedNamespaces :: "(string \<Rightarrow> string \<Rightarrow> int) \<Rightarrow> namespace_row list \<Rightarrow> namespace_row list" where
  "orderedNamespaces cmp nss = sort_by (\<lambda>a b. cmp (ns_name a) (ns_name b)) nss"

fun address_space_tree ::
  "(string \<Rightarrow> string \<Rightarrow> int) \<Rightarrow> namespace_row list query_data \<Rightarrow> (string \<Rightarrow> obj_tree list)
     \<Rightarrow> node_row list \<Rightarrow> tree_state \<Rightarrow> tree_event ui" where
  "address_space_tree cmp QueryLoading trees nodes st = Group [Text ''Loading address space'']"
| "address_space_tree cmp (QueryFailed m) trees nodes st =
     Group [alert ''error'' [Text (''Failed to load address space: '' @ m)] None]"
| "address_space_tree cmp (QueryData nss) trees nodes st =
     (if nss = [] then Group [Text ''No namespaces defined. Create a namespace to get started.'']
      else Group (Text ''Address Space''
             # map (\<lambda>(index, ns). namespace_item st trees nodes (index + 2) ns)
                 (enumerate 0 (orderedNamespaces cmp nss))))"

section \<open>The details\<close>

definition slashes_to :: "string \<Rightarrow> string \<Rightarrow> string" where
  "slashes_to sep s = concat (map (\<lambda>c. if c = CHR ''/'' then sep else [c]) s)"

definition buildOpcUaNodeId :: "nat \<Rightarrow> string \<Rightarrow> string \<Rightarrow> string \<Rightarrow> string" where
  "buildOpcUaNodeId namespaceIndex namespaceName objectNodePath nodeName =
     (let parentPath = (if objectNodePath \<noteq> [] then namespaceName @ ''.'' @ slashes_to ''.'' objectNodePath
                        else namespaceName)
      in ''ns='' @ show_nat namespaceIndex @ '';s='' @ parentPath @ ''.'' @ nodeName)"

definition opcUaNodeId :: "selected_node \<Rightarrow> string" where
  "opcUaNodeId s = buildOpcUaNodeId (se_namespaceIndex s) (se_namespaceName s) (se_objectNodePath s)
     (nd_name (se_node s))"

definition detail_row :: "string \<Rightarrow> 'e ui list \<Rightarrow> bool \<Rightarrow> 'e ui" where
  "detail_row label value unset = Group [Text label, Group (if unset then [Text ''Not set''] else value)]"

definition displayPath :: "selected_node \<Rightarrow> string" where
  "displayPath s =
     (if se_objectNodePath s \<noteq> [] then se_namespaceName s @ '' / '' @ slashes_to '' / '' (se_objectNodePath s)
      else se_namespaceName s)"

text \<open>\<open>str\<close> is \<open>String\<close>; objects are written as JSON. A missing value is a dash.\<close>

definition formattedValue :: "text_of_number \<Rightarrow> (jsval \<Rightarrow> string) \<Rightarrow> jsval option \<Rightarrow> 'e ui" where
  "formattedValue nt str v =
     (case v of
        None \<Rightarrow> Icon 0x2014
      | Some JNull \<Rightarrow> Icon 0x2014
      | Some (JObj ps) \<Rightarrow> Text (json_pretty nt [] (JObj ps))
      | Some (JArr vs) \<Rightarrow> Text (json_pretty nt [] (JArr vs))
      | Some x \<Rightarrow> Text (as_text str x))"

text \<open>\<open>CopyButton\<close> writes its value to the clipboard.\<close>

definition node_detail_panel ::
  "text_of_number \<Rightarrow> (jsval \<Rightarrow> string) \<Rightarrow> (string \<Rightarrow> string) \<Rightarrow> selected_node option \<Rightarrow> string ui" where
  "node_detail_panel nt str date sel =
     (case sel of
        None \<Rightarrow> Group [Text ''Select a node from the tree to view its details.'']
      | Some s \<Rightarrow>
          let n = se_node s; i = opcUaNodeId s in
          Group
            [Text (nd_name n), Text (displayPath s),
             detail_row ''Data Type'' [badge ''blue'' (nd_dataType n)] False,
             detail_row ''Current Value'' [formattedValue nt str (nd_initial n)] False,
             detail_row ''Node ID'' [Text i, Button (''Copy node ID '' @ i) False i] False,
             detail_row ''Namespace'' [Text (se_namespaceName s)] (se_namespaceName s = []),
             detail_row ''Parent Path''
               [Text (if se_objectNodePath s \<noteq> [] then se_objectNodePath s else ''(root)'')] False,
             detail_row ''Description''
               [Text (case nd_description n of None \<Rightarrow> [] | Some d \<Rightarrow> d)] (\<not> truthy_str (nd_description n)),
             Text ''Created'', Text (date (nd_created n)),
             Text ''Updated'', Text (date (nd_updated n))])"

section \<open>The ids the panel shows\<close>

lemma sort_by_sorted_id: "sorted_wrt (\<lambda>a b. cmp a b \<le> 0) xs \<Longrightarrow> sort_by cmp xs = xs"
proof (induction xs)
  case (Cons x xs)
  then have "sort_by cmp (x # xs) = insert_by cmp x xs" by (simp add: sort_by_def)
  also have "\<dots> = x # xs" using Cons.prems by (cases xs) simp_all
  finally show ?case .
qed (simp add: sort_by_def)

lemma sort_by_set: "set (sort_by cmp xs) = set xs"
  by (rule mset_eq_setD [OF sort_by_mset])

lemma slashes_to_join:
  "list_all (\<lambda>s. CHR ''/'' \<notin> set s) parts \<Longrightarrow> slashes_to sep (join ''/'' parts) = join sep parts"
proof (induction "''/''" parts rule: join.induct)
  case (2 x)
  then have "concat (map (\<lambda>c. if c = CHR ''/'' then sep else [c]) x) = x"
    by (induction x) auto
  then show ?case by (simp add: slashes_to_def)
next
  case (3 x y ys)
  then have "concat (map (\<lambda>c. if c = CHR ''/'' then sep else [c]) x) = x"
    by (induction x) auto
  with 3 show ?case by (simp add: slashes_to_def)
qed (simp add: slashes_to_def)

lemma join_Nil_iff: "list_all (\<lambda>s. s \<noteq> []) parts \<Longrightarrow> join sep parts = [] \<longleftrightarrow> parts = []"
  by (induction sep parts rule: join.induct) auto

lemma join_snoc: "parts \<noteq> [] \<Longrightarrow> join sep (parts @ [x]) = join sep parts @ sep @ x"
  by (induction sep parts rule: join.induct) auto

lemma currentPath_join:
  "list_all (\<lambda>s. s \<noteq> []) parts \<Longrightarrow> currentPath (join ''/'' parts) name = join ''/'' (parts @ [name])"
  by (cases "parts = []") (simp_all add: currentPath_def join_Nil_iff join_snoc)

lemma node_id_shown:
  assumes "list_all (\<lambda>s. s \<noteq> [] \<and> CHR ''/'' \<notin> set s) names"
  shows "opcUaNodeId (selection c (join ''/'' names) n)
    = node_id_text (tc_index c) (join ''.'' (tc_name c # names)) (nd_name n)"
proof -
  have ne: "list_all (\<lambda>s. s \<noteq> []) names" and sl: "list_all (\<lambda>s. CHR ''/'' \<notin> set s) names"
    using assms by (simp_all add: list_all_iff)
  show ?thesis
    using slashes_to_join [OF sl, of "''.''"] join_Nil_iff [OF ne, of "''/''"]
    by (cases "names = []")
      (simp_all add: opcUaNodeId_def selection_def buildOpcUaNodeId_def node_id_text_def join_Cons)
qed

text \<open>The names from a root of the tree to a container, as the generator collects them.\<close>

definition names_to :: "object_row list \<Rightarrow> object_row \<Rightarrow> string list \<Rightarrow> bool" where
  "names_to rows r names \<longleftrightarrow>
     r \<in> set rows \<and> set names \<subseteq> on_name ` set rows
     \<and> (\<forall>parts. path_loop rows (Some (on_id r)) parts = Some (names @ parts))"

definition good_rows :: "object_row list \<Rightarrow> bool" where
  "good_rows rows \<longleftrightarrow> distinct (map on_id rows) \<and> (\<forall>r \<in> set rows. on_id r \<noteq> [])"

lemma names_step:
  assumes "good_rows rows" "r \<in> set rows"
  shows "path_loop rows (Some (on_id r)) parts = path_loop rows (on_parent r) (on_name r # parts)"
  using find_object_rev [of rows r] assms
  by (subst path_loop.simps) (simp add: good_rows_def)

lemma names_to_root:
  assumes "good_rows rows" "r \<in> set rows" "is_root rows r"
  shows "names_to rows r [on_name r]"
proof -
  have "path_loop rows (on_parent r) parts = Some parts" for parts
  proof (cases "on_parent r")
    case None
    then show ?thesis by (simp add: path_loop.simps [of rows None])
  next
    case (Some p)
    with assms(3) have "find_object (rev rows) p = None" by (simp add: is_root_def find_object_None)
    then show ?thesis by (subst path_loop.simps) (simp add: Some)
  qed
  with assms show ?thesis by (simp add: names_to_def names_step)
qed

lemma names_to_child:
  assumes "good_rows rows" "names_to rows r names" "c \<in> set (children_of rows r)"
  shows "names_to rows c (names @ [on_name c])"
  using assms by (auto simp: names_to_def names_step children_of_def)

lemma path_here:
  assumes "\<forall>r \<in> set rows. on_name r \<noteq> []" "names_to rows r (names @ [x])" "path = join ''/'' names"
  shows "currentPath path y = join ''/'' (names @ [y])"
proof -
  have "on_name ` set rows \<subseteq> {s. s \<noteq> []}" using assms(1) by auto
  moreover have "set names \<subseteq> on_name ` set rows" using assms(2) by (simp add: names_to_def)
  ultimately have "set names \<subseteq> {s. s \<noteq> []}" by (rule subset_trans [rotated])
  then have "list_all (\<lambda>s. s \<noteq> []) names" by (simp add: list_all_iff subset_iff)
  then show ?thesis unfolding assms(3) by (rule currentPath_join)
qed

text \<open>A container and what is under it offer variables of the containers that are there.\<close>

lemma container_selection:
  assumes good: "good_rows rows" and named: "\<forall>r \<in> set rows. on_name r \<noteq> []"
  shows "names_to rows r (names @ [on_name r]) \<Longrightarrow> path = join ''/'' names \<Longrightarrow>
    offers (container_item c over path depth (subtree k rows r)) (VariableClicked s) \<Longrightarrow>
    \<exists>r' names' n. names_to rows r' names' \<and> n \<in> set (tc_nodes c) \<and> nd_object n = Some (on_id r')
      \<and> s = selection c (join ''/'' names') n"
proof (induction k arbitrary: r names path over depth)
  case 0
  note here = path_here [OF named "0.prems"(1,2)]
  from "0.prems"(3) have "\<exists>n \<in> set (tc_nodes c). nd_object n = Some (on_id r)
      \<and> s = selection c (join ''/'' (names @ [on_name r])) n"
    by (auto simp: Let_def tree_item_view_def add_action_def create_form_of_def inline_create_form_def
        variables_in_def variable_item_def list_ex_iff here only_if_def nothing_def split: if_splits)
  with "0.prems"(1) show ?case by blast
next
  case (Suc k)
  note here = path_here [OF named Suc.prems(1,2)]
  from Suc.prems(3) consider
      (own) n where "n \<in> set (tc_nodes c)" "nd_object n = Some (on_id r)"
        "s = selection c (join ''/'' (names @ [on_name r])) n"
    | (child) q where "q \<in> set (children_of rows r)"
        "offers (container_item c (over @ [on_id r]) (join ''/'' (names @ [on_name r])) (Suc depth)
          (subtree k rows q)) (VariableClicked s)"
    by (auto simp: Let_def tree_item_view_def add_action_def create_form_of_def inline_create_form_def
        variables_in_def variable_item_def list_ex_iff here only_if_def nothing_def split: if_splits)
  then show ?case
  proof cases
    case own
    with Suc.prems(1) show ?thesis by blast
  next
    case child
    from Suc.IH [OF names_to_child [OF good Suc.prems(1) child(1)] refl child(2)] show ?thesis .
  qed
qed

lemma namespace_selection:
  assumes good: "good_rows rows" and named: "\<forall>r \<in> set rows. on_name r \<noteq> []"
    and "trees (ns_id ns) = buildTree rows"
    and "offers (namespace_item st trees nodes index ns) (VariableClicked s)"
  obtains n where "n \<in> set nodes" "nd_namespace n = ns_id ns" "nd_object n = None"
      "s = selection \<lparr>tc_name = ns_name ns, tc_index = index,
        tc_nodes = filter (\<lambda>n. nd_namespace n = ns_id ns) nodes, tc_state = st\<rparr> (join ''/'' []) n"
  | r names n where "n \<in> set nodes" "nd_namespace n = ns_id ns" "nd_object n = Some (on_id r)"
      "names_to rows r names"
      "s = selection \<lparr>tc_name = ns_name ns, tc_index = index,
        tc_nodes = filter (\<lambda>n. nd_namespace n = ns_id ns) nodes, tc_state = st\<rparr> (join ''/'' names) n"
proof -
  let ?c = "\<lparr>tc_name = ns_name ns, tc_index = index,
        tc_nodes = filter (\<lambda>n. nd_namespace n = ns_id ns) nodes, tc_state = st\<rparr>"
  from assms(4) consider
      (own) "offers (variables_in ?c None []) (VariableClicked s)"
    | (container) r where "r \<in> set rows" "is_root rows r"
        "offers (container_item ?c [ns_id ns] [] 1 (subtree (length rows) rows r)) (VariableClicked s)"
    by (auto simp: namespace_item_def Let_def tree_item_view_def add_action_def create_form_of_def
        inline_create_form_def list_ex_iff assms(3) buildTree_def only_if_def nothing_def split: if_splits)
  then show thesis
  proof cases
    case own
    then show ?thesis
      using that(1) by (auto simp: variables_in_def variable_item_def tree_item_view_def list_ex_iff
          only_if_def nothing_def)
  next
    case container
    from names_to_root [OF good container(1,2)] have start: "names_to rows r ([] @ [on_name r])" by simp
    have "[] = join ''/'' []" by simp
    from container_selection [OF good named start this container(3)] show ?thesis
      using that(2) by auto
  qed
qed

section \<open>The answers of the server\<close>

definition fetched :: "(cached option \<Rightarrow> 'a option) \<Rightarrow> (db_error + cached list) \<times> database \<Rightarrow> 'a list" where
  "fetched f r = (case fst r of Inl _ \<Rightarrow> [] | Inr cs \<Rightarrow> List.map_filter (\<lambda>c. f (Some c)) cs)"

fun as_tree :: "cached option \<Rightarrow> obj_tree option" where
  "as_tree (Some (CTree t)) = Some t"
| "as_tree _ = None"

text \<open>The tree on what the repositories answer.\<close>

definition tree_of_server :: "(string \<Rightarrow> string \<Rightarrow> int) \<Rightarrow> database \<Rightarrow> tree_state \<Rightarrow> tree_event ui" where
  "tree_of_server cmp d st =
     address_space_tree cmp (QueryData (map nsp_row (fetched as_namespace (namespace_findAll d))))
       (\<lambda>i. fetched as_tree (findTreeByNamespace i d)) (fetched as_node (node_findAll None d)) st"

lemma map_filter_all:
  "(\<And>x. x \<in> set xs \<Longrightarrow> g (k x) = Some (h x)) \<Longrightarrow> List.map_filter g (map k xs) = map h xs"
  by (induction xs) (simp_all add: map_filter_simps)

lemma fetched_live:
  assumes "db_open d" "db_alive d" "db_accessible d"
  shows "map nsp_row (fetched as_namespace (namespace_findAll d)) = namespace_rows (db_tables d)"
    "fetched as_tree (findTreeByNamespace i d) = buildTree (object_rows i (db_tables d))"
    "fetched as_node (node_findAll None d) = sort_key nd_name (t_nodes (db_tables d))"
proof -
  have read: "fst (readWithCache k q d) = Inr (q (db_tables d))" for k q
    using assms by (simp add: readWithCache_def isAccessible_def Let_def)
  show "map nsp_row (fetched as_namespace (namespace_findAll d)) = namespace_rows (db_tables d)"
    unfolding fetched_def namespace_findAll_def read all_namespaces_query_def namespace_rows_def
    by (simp add: map_filter_all [where h = "counted (db_tables d)"] counted_def rowToNamespace_def o_def)
  show "fetched as_tree (findTreeByNamespace i d) = buildTree (object_rows i (db_tables d))"
    unfolding fetched_def findTreeByNamespace_def read tree_query_def by (simp add: map_filter_all [where h = id])
  show "fetched as_node (node_findAll None d) = sort_key nd_name (t_nodes (db_tables d))"
    unfolding fetched_def node_findAll_def read all_nodes_query_def
    by (simp add: read all_nodes_query_def map_filter_all [where h = id])
qed

lemma configured_variable:
  assumes "objects_ok (db_tables d)" "generate env d = Some (Inr (cfg, warnings))"
    and "(index, ns) \<in> set (enumerate 0 (namespace_rows (db_tables d)))"
    and "n \<in> set (t_nodes (db_tables d))" "nd_namespace n = ns_id ns"
  shows "\<exists>nsc \<in> set (ac_namespaces cfg). \<exists>m \<in> set (nsc_nodes nsc).
    nsc_name nsc = ns_name ns \<and> nc_name m = nd_name n
    \<and> nc_nodeId m = node_id_text (index + 2) (node_path (db_tables d) ns n) (nd_name n)"
proof -
  let ?t = "db_tables d"
  let ?m = "node_config_of (index + 2) (read_mappings (ns_id ns) ?t) n (node_path ?t ns n)"
  have "plain_namespace_config ?t index ns \<in> set (ac_namespaces cfg)"
    unfolding generated [OF assms(1,2)] using assms(3) by force
  moreover have "?m \<in> set (nsc_nodes (plain_namespace_config ?t index ns))"
    using assms(4,5) by (simp add: plain_namespace_config_def node_rows_def)
  moreover have "nsc_name (plain_namespace_config ?t index ns) = ns_name ns"
    by (simp add: plain_namespace_config_def)
  moreover have "nc_name ?m = nd_name n" "nc_nodeId ?m = node_id_text (index + 2) (node_path ?t ns n) (nd_name n)"
    by (simp_all add: node_config_of_def Let_def)
  ultimately show ?thesis by blast
qed

lemma enumerate_in: "(i, x) \<in> set (enumerate k xs) \<Longrightarrow> x \<in> set xs"
  by (auto simp: in_set_enumerate_eq)

text \<open>What a selection of the tree is: a variable of the database in a container of its namespace.\<close>

lemma tree_selection:
  assumes "objects_ok (db_tables d)" "db_open d" "db_alive d" "db_accessible d"
    and "\<forall>r \<in> set (t_objects (db_tables d)). on_name r \<noteq> []"
    and "offers (tree_of_server cmp d st) (VariableClicked s)"
  obtains index ns names n where
      "(index, ns) \<in> set (enumerate 0 (orderedNamespaces cmp (namespace_rows (db_tables d))))"
      "n \<in> set (t_nodes (db_tables d))" "nd_namespace n = ns_id ns"
      "se_node s = n" "se_namespaceName s = ns_name ns"
      "set names \<subseteq> on_name ` set (t_objects (db_tables d))"
      "node_path (db_tables d) ns n = join ''.'' (ns_name ns # names)"
      "s = selection \<lparr>tc_name = ns_name ns, tc_index = index + 2, tc_nodes = [], tc_state = []\<rparr> (join ''/'' names) n"
      "nd_object n = None \<or> (\<exists>r \<in> set (t_objects (db_tables d)). nd_object n = Some (on_id r)
        \<and> on_namespace r = nd_namespace n)"
proof -
  let ?t = "db_tables d"
  obtain index ns where ns: "(index, ns) \<in> set (enumerate 0 (orderedNamespaces cmp (namespace_rows ?t)))"
    and offered: "offers (namespace_item st (\<lambda>i. buildTree (object_rows i ?t))
      (sort_key nd_name (t_nodes ?t)) (index + 2) ns) (VariableClicked s)"
    using assms(6)
    by (auto simp: tree_of_server_def fetched_live [OF assms(2-4)] list_ex_iff split: if_splits)
  let ?rows = "object_rows (ns_id ns) ?t"
  have rows: "?rows = buildObjectNodeTree (ns_id ns) ?t" by (simp add: object_rows_def buildObjectNodeTree_def)
  have good: "good_rows ?rows" using container_rows(2,3) [OF assms(1)] by (simp add: good_rows_def rows)
  have named: "\<forall>r \<in> set ?rows. on_name r \<noteq> []" using assms(5) by (simp add: object_rows_def)
  show thesis
  proof (rule namespace_selection [OF good named _ offered])
    fix n
    assume n: "n \<in> set (sort_key nd_name (t_nodes ?t))" "nd_namespace n = ns_id ns" "nd_object n = None"
      and s: "s = selection \<lparr>tc_name = ns_name ns, tc_index = index + 2, tc_nodes = filter (\<lambda>n.
        nd_namespace n = ns_id ns) (sort_key nd_name (t_nodes ?t)), tc_state = st\<rparr> (join ''/'' []) n"
    have "node_path ?t ns n = join ''.'' (ns_name ns # [])" by (simp add: node_path_def parent_path_def n(3))
    with n s show thesis by (intro that [OF ns, of n "[]"]) (simp_all add: selection_def)
  next
    fix r names n
    assume n: "n \<in> set (sort_key nd_name (t_nodes ?t))" "nd_namespace n = ns_id ns" "nd_object n = Some (on_id r)"
      and names: "names_to ?rows r names"
      and s: "s = selection \<lparr>tc_name = ns_name ns, tc_index = index + 2, tc_nodes = filter (\<lambda>n.
        nd_namespace n = ns_id ns) (sort_key nd_name (t_nodes ?t)), tc_state = st\<rparr> (join ''/'' names) n"
    have r: "on_id r \<noteq> []" "r \<in> set (t_objects ?t)" "on_namespace r = ns_id ns"
      using good names by (simp_all add: good_rows_def names_to_def object_rows_def)
    have path: "node_path ?t ns n = join ''.'' (ns_name ns # names)"
      using n(3) r(1) names by (simp add: node_path_def parent_path_def computeObjectNodePath_def names_to_def rows)
    have "set names \<subseteq> on_name ` set (t_objects ?t)" using names by (auto simp: names_to_def object_rows_def)
    with n r path s show thesis by (intro that [OF ns]) (auto simp: selection_def)
  qed simp
qed

text \<open>
  A variable whose container is in another namespace, which the server accepts, is not in the tree.
\<close>

lemma foreign_container_hidden:
  assumes "objects_ok (db_tables d)" "db_open d" "db_alive d" "db_accessible d"
    and "\<forall>r \<in> set (t_objects (db_tables d)). on_name r \<noteq> []"
    and "nd_object (se_node s) = Some (on_id r)" "r \<in> set (t_objects (db_tables d))"
    and "on_namespace r \<noteq> nd_namespace (se_node s)"
  shows "\<not> offers (tree_of_server cmp d st) (VariableClicked s)"
proof
  assume "offers (tree_of_server cmp d st) (VariableClicked s)"
  then have "\<exists>q \<in> set (t_objects (db_tables d)). on_id q = on_id r \<and> on_namespace q = nd_namespace (se_node s)"
    by (rule tree_selection [OF assms(1-5)]) (use assms(6) in auto)
  then obtain q where q: "q \<in> set (t_objects (db_tables d))" "on_id q = on_id r" "on_namespace q = nd_namespace (se_node s)"
    by blast
  moreover have "distinct (map on_id (t_objects (db_tables d)))"
    using assms(1) by (simp add: objects_ok_def hier_ok_def)
  ultimately have "q = r" using id_inject assms(7) by blast
  with q assms(8) show False by simp
qed

text \<open>C32: The node id the panel shows for a variable selected in the tree, whatever is expanded, is the
  one the configuration gives the runtime for a variable of that name and namespace: the index of
  the namespace and the path are computed a second time in the browser. This needs that the
  browser's order of the namespaces' names is the one of the database, which compares bytes, and
  that no container's name is empty or has a slash.\<close>

theorem shown_node_id_is_configured:
  assumes "objects_ok (db_tables d)" "generate env d = Some (Inr (cfg, warnings))"
    and "list_all (\<lambda>a. list_all (\<lambda>b. a \<le> b \<longrightarrow> cmp a b \<le> 0) (map ns_name (t_namespaces (db_tables d))))
           (map ns_name (t_namespaces (db_tables d)))"
    and "list_all (\<lambda>r. on_name r \<noteq> [] \<and> CHR ''/'' \<notin> set (on_name r)) (t_objects (db_tables d))"
    and "offers (tree_of_server cmp d st) (VariableClicked s)"
  shows "\<exists>nsc \<in> set (ac_namespaces cfg). \<exists>n \<in> set (nsc_nodes nsc).
    nsc_name nsc = se_namespaceName s \<and> nc_name n = nd_name (se_node s) \<and> nc_nodeId n = opcUaNodeId s"
proof -
  let ?t = "db_tables d"
  have live: "db_open d" "db_alive d" "db_accessible d"
    using generate_reached [OF assms(2)] by simp_all
  have "sorted_wrt (\<lambda>a b. cmp (ns_name a) (ns_name b) \<le> 0) (namespace_rows ?t)"
    unfolding namespace_rows_def
    by (rule sorted_wrt_mono_rel [of _ "\<lambda>a b. ns_name a \<le> ns_name b"])
      (use assms(3) in \<open>auto simp: list_all_iff sorted_wrt_map [symmetric] simp del: sorted_wrt_map\<close>)
  then have sorted: "orderedNamespaces cmp (namespace_rows ?t) = namespace_rows ?t"
    by (simp add: orderedNamespaces_def sort_by_sorted_id)
  have named: "\<forall>r \<in> set (t_objects ?t). on_name r \<noteq> []" using assms(4) by (simp add: list_all_iff)
  show ?thesis
  proof (rule tree_selection [OF assms(1) live named assms(5)])
    fix index ns names n
    assume ns: "(index, ns) \<in> set (enumerate 0 (orderedNamespaces cmp (namespace_rows ?t)))"
      and n: "n \<in> set (t_nodes ?t)" "nd_namespace n = ns_id ns" "se_node s = n" "se_namespaceName s = ns_name ns"
      and names: "set names \<subseteq> on_name ` set (t_objects ?t)"
      and path: "node_path ?t ns n = join ''.'' (ns_name ns # names)"
      and s: "s = selection \<lparr>tc_name = ns_name ns, tc_index = index + 2, tc_nodes = [], tc_state = []\<rparr>
        (join ''/'' names) n"
    have "list_all (\<lambda>s. s \<noteq> [] \<and> CHR ''/'' \<notin> set s) names"
      using names assms(4) by (auto simp: list_all_iff dest!: subsetD)
    from node_id_shown [OF this] configured_variable [OF assms(1,2) ns [unfolded sorted] n(1,2)] n(3,4)
    show ?thesis by (auto simp: path s)
  qed
qed

section \<open>Where a container may be added\<close>

text \<open>How deep a container of the tree is, and that its action is there when it is not too deep.\<close>

lemma toggled_depth:
  assumes rows: "set rows \<subseteq> set all"
  shows "r \<in> set rows \<Longrightarrow> at_depth all (on_id r) depth \<Longrightarrow>
    offers (container_item c over path depth (subtree k rows r)) (ItemToggled p) \<Longrightarrow>
    \<exists>n ids. p = over @ ids \<and> ids \<noteq> [] \<and> at_depth all (last p) n
      \<and> (n < deepest \<longrightarrow> offers (container_item c over path depth (subtree k rows r)) (AddPressed p))"
proof (induction k arbitrary: r path over depth)
  case 0
  then have "p = over @ [on_id r]"
    by (auto simp: Let_def tree_item_view_def add_action_def create_form_of_def inline_create_form_def
        variables_in_def variable_item_def list_ex_iff only_if_def nothing_def split: if_splits)
  with "0.prems"(2) show ?case
    by (intro exI [of _ depth] exI [of _ "[on_id r]"]) (simp add: Let_def tree_item_view_def add_action_def)
next
  case (Suc k)
  from Suc.prems(3) consider (own) "p = over @ [on_id r]"
    | (child) q where "q \<in> set (children_of rows r)"
        "ti_expanded (item_at (tc_state c) (over @ [on_id r]))"
        "offers (container_item c (over @ [on_id r]) (currentPath path (on_name r)) (Suc depth) (subtree k rows q))
          (ItemToggled p)"
    by (auto simp: Let_def tree_item_view_def add_action_def create_form_of_def inline_create_form_def
        variables_in_def variable_item_def list_ex_iff only_if_def nothing_def split: if_splits)
  then show ?case
  proof cases
    case own
    with Suc.prems(2) show ?thesis
      by (intro exI [of _ depth] exI [of _ "[on_id r]"]) (simp add: Let_def tree_item_view_def add_action_def)
  next
    case child
    then have q: "q \<in> set rows" "on_parent q = Some (on_id r)" by (auto simp: children_of_def)
    have "at_depth all (on_id q) (Suc depth)"
      using q rows Suc.prems(2) by (intro at_depth.child) auto
    from Suc.IH [OF q(1) this child(3)] obtain n ids where "p = (over @ [on_id r]) @ ids" "at_depth all (last p) n"
      "n < deepest \<longrightarrow> offers (container_item c (over @ [on_id r]) (currentPath path (on_name r))
        (Suc depth) (subtree k rows q)) (AddPressed p)"
      by blast
    with child(1,2) show ?thesis
      by (intro exI [of _ n] exI [of _ "on_id r # ids"]) (auto simp: Let_def tree_item_view_def list_ex_iff only_if_def)
  qed
qed

lemma added_depth:
  assumes rows: "set rows \<subseteq> set all"
  shows "r \<in> set rows \<Longrightarrow> at_depth all (on_id r) depth \<Longrightarrow>
    offers (container_item c over path depth (subtree k rows r)) (AddPressed p) \<Longrightarrow>
    \<exists>n < deepest. at_depth all (last p) n"
proof (induction k arbitrary: r path over depth)
  case 0
  then show ?case
    by (auto simp: Let_def tree_item_view_def add_action_def create_form_of_def inline_create_form_def
        variables_in_def variable_item_def list_ex_iff only_if_def nothing_def split: if_splits)
next
  case (Suc k)
  from Suc.prems(3) consider (own) "p = over @ [on_id r]" "depth < deepest"
    | (child) q where "q \<in> set (children_of rows r)"
        "offers (container_item c (over @ [on_id r]) (currentPath path (on_name r)) (Suc depth) (subtree k rows q))
          (AddPressed p)"
    by (auto simp: Let_def tree_item_view_def add_action_def create_form_of_def inline_create_form_def
        variables_in_def variable_item_def list_ex_iff only_if_def nothing_def split: if_splits)
  then show ?case
  proof cases
    case own
    with Suc.prems(2) show ?thesis by auto
  next
    case child
    then have q: "q \<in> set rows" "on_parent q = Some (on_id r)" by (auto simp: children_of_def)
    have "at_depth all (on_id q) (Suc depth)"
      using q rows Suc.prems(2) by (intro at_depth.child) auto
    from Suc.IH [OF q(1) this child(2)] show ?thesis .
  qed
qed

definition parents_at_home :: "tables \<Rightarrow> bool" where
  "parents_at_home t \<longleftrightarrow>
     list_all (\<lambda>r. case on_parent r of None \<Rightarrow> True
       | Some p \<Rightarrow> list_ex (\<lambda>q. on_id q = p \<and> on_namespace q = on_namespace r) (t_objects t)) (t_objects t)"

lemma root_depth:
  assumes "parents_at_home t" "r \<in> set (object_rows ns t)" "is_root (object_rows ns t) r"
  shows "at_depth (t_objects t) (on_id r) 1"
proof -
  have r: "r \<in> set (t_objects t)" "on_namespace r = ns" using assms(2) by (simp_all add: object_rows_def)
  have "on_parent r = None"
  proof (rule ccontr)
    assume "on_parent r \<noteq> None"
    then obtain p where p: "on_parent r = Some p" by blast
    with assms(1) r obtain q where "q \<in> set (object_rows ns t)" "on_id q = p"
      by (fastforce simp: parents_at_home_def list_all_iff list_ex_iff object_rows_def)
    with assms(3) p show False by (auto simp: is_root_def find_object_None)
  qed
  with r(1) show ?thesis using at_depth.root by fastforce
qed

definition of_item :: "string list \<Rightarrow> tree_event \<Rightarrow> bool" where
  "of_item p e \<longleftrightarrow> e = ItemToggled p \<or> e = AddPressed p"

lemma offers_tree_item:
  "offers (tree_item_view label icon x pressed actions children) e \<longleftrightarrow>
     e = pressed \<or> list_ex (\<lambda>u. offers u e) actions \<or> x \<and> list_ex (\<lambda>u. offers u e) children"
  by (auto simp: tree_item_view_def)

lemma of_item_not:
  assumes "of_item p e"
  shows "\<not> offers (create_form_of q st) e" "\<not> offers (variables_in c i path) e"
  using assms
  by (auto simp: of_item_def create_form_of_def inline_create_form_def variables_in_def variable_item_def
      offers_tree_item list_ex_iff)

lemma namespace_item_split:
  assumes "of_item p e" "tl p \<noteq> []"
  shows "offers (namespace_item st trees nodes index ns) e \<longleftrightarrow>
    ti_expanded (item_at st [ns_id ns]) \<and>
    (\<exists>u \<in> set (trees (ns_id ns)). offers (container_item \<lparr>tc_name = ns_name ns, tc_index = index,
       tc_nodes = filter (\<lambda>n. nd_namespace n = ns_id ns) nodes, tc_state = st\<rparr> [ns_id ns] [] 1 u) e)"
proof -
  have ne: "e \<noteq> ItemToggled [ns_id ns]" "e \<noteq> AddPressed [ns_id ns]" using assms by (auto simp: of_item_def)
  show ?thesis
    using ne by (simp add: namespace_item_def Let_def offers_tree_item of_item_not [OF assms(1)] add_action_def list_ex_iff)
qed

lemma tree_depths:
  assumes "db_open d" "db_alive d" "db_accessible d" "parents_at_home (db_tables d)" "tl p \<noteq> []"
  shows "offers (tree_of_server cmp d st) (ItemToggled p) \<Longrightarrow>
      \<exists>n. at_depth (t_objects (db_tables d)) (last p) n
        \<and> list_ex (\<lambda>r. ns_id r = hd p) (t_namespaces (db_tables d))
        \<and> (n < deepest \<longrightarrow> offers (tree_of_server cmp d st) (AddPressed p))"
    and "offers (tree_of_server cmp d st) (AddPressed p) \<Longrightarrow>
      \<exists>n < deepest. at_depth (t_objects (db_tables d)) (last p) n"
proof -
  let ?t = "db_tables d" and ?nss = "orderedNamespaces cmp (namespace_rows (db_tables d))"
  let ?c = "\<lambda>index ns. \<lparr>tc_name = ns_name ns, tc_index = index + 2,
    tc_nodes = filter (\<lambda>n. nd_namespace n = ns_id ns) (sort_key nd_name (t_nodes ?t)), tc_state = st\<rparr>"
  let ?item = "\<lambda>index ns r. container_item (?c index ns) [ns_id ns] [] 1
    (subtree (length (object_rows (ns_id ns) ?t)) (object_rows (ns_id ns) ?t) r)"
  let ?under = "\<lambda>e. \<exists>(index, ns) \<in> set (enumerate 0 ?nss). ti_expanded (item_at st [ns_id ns])
    \<and> (\<exists>r \<in> set (object_rows (ns_id ns) ?t). is_root (object_rows (ns_id ns) ?t) r \<and> offers (?item index ns r) e)"
  have split: "offers (tree_of_server cmp d st) e \<longleftrightarrow> ?under e" if "of_item p e" for e
  proof (cases "namespace_rows ?t = []")
    case True
    then show ?thesis
      by (simp add: tree_of_server_def fetched_live [OF assms(1-3)] orderedNamespaces_def sort_by_def)
  next
    case False
    then have "offers (tree_of_server cmp d st) e \<longleftrightarrow> (\<exists>x \<in> set (enumerate 0 ?nss).
        offers (namespace_item st (\<lambda>i. buildTree (object_rows i ?t)) (sort_key nd_name (t_nodes ?t)) (fst x + 2) (snd x)) e)"
      by (simp add: tree_of_server_def fetched_live [OF assms(1-3)] list_ex_iff split_beta)
    also have "\<dots> \<longleftrightarrow> ?under e"
      unfolding namespace_item_split [OF that assms(5)] buildTree_def by (simp add: split_beta Bex_def)
    finally show ?thesis .
  qed
  have sub: "set (object_rows ns ?t) \<subseteq> set (t_objects ?t)" for ns by (auto simp: object_rows_def)
  note root = root_depth [OF assms(4)]
  show "\<exists>n. at_depth (t_objects ?t) (last p) n \<and> list_ex (\<lambda>r. ns_id r = hd p) (t_namespaces ?t)
        \<and> (n < deepest \<longrightarrow> offers (tree_of_server cmp d st) (AddPressed p))"
    if "offers (tree_of_server cmp d st) (ItemToggled p)"
  proof -
    from that obtain index ns r where at: "(index, ns) \<in> set (enumerate 0 ?nss)" "ti_expanded (item_at st [ns_id ns])"
      "r \<in> set (object_rows (ns_id ns) ?t)" "is_root (object_rows (ns_id ns) ?t) r" "offers (?item index ns r) (ItemToggled p)"
      by (auto simp: split of_item_def)
    from toggled_depth [OF sub at(3) root [OF at(3,4)] at(5)] obtain n ids where n: "p = [ns_id ns] @ ids"
      "at_depth (t_objects ?t) (last p) n" "n < deepest \<longrightarrow> offers (?item index ns r) (AddPressed p)"
      by blast
    have "ns \<in> set (t_namespaces ?t)"
      using enumerate_in [OF at(1)] by (simp add: orderedNamespaces_def namespace_rows_def sort_by_set)
    moreover have "hd p = ns_id ns" using n(1) by simp
    ultimately have "list_ex (\<lambda>r. ns_id r = hd p) (t_namespaces ?t)" by (auto simp: list_ex_iff)
    moreover have "offers (tree_of_server cmp d st) (AddPressed p)" if "n < deepest"
    proof (subst split)
      show "of_item p (AddPressed p)" by (simp add: of_item_def)
      show "?under (AddPressed p)" using at(1-4) n(3) that by blast
    qed
    ultimately show ?thesis using n(2) by blast
  qed
  show "\<exists>n < deepest. at_depth (t_objects ?t) (last p) n" if "offers (tree_of_server cmp d st) (AddPressed p)"
    using that added_depth [OF sub _ root] by (auto simp: split of_item_def)
qed

text \<open>C33: For every container that is in sight in the tree, the tree offers to add a container in it
  exactly if the server, asked for that, would not refuse it for its depth: the browser counts
  levels as it draws them, the server walks up the rows. This needs that the containers of a
  namespace have their parents in that namespace.\<close>

theorem add_offered_iff_room:
  assumes "objects_ok (db_tables d)" "db_works d" "parents_at_home (db_tables d)"
    and "offers (tree_of_server cmp d st) (ItemToggled p)" "tl p \<noteq> []"
  shows "offers (tree_of_server cmp d st) (AddPressed p) \<longleftrightarrow>
    create_object_body i now (hd p) (Some (last p)) name (db_tables d) \<noteq> Some (Inl too_deep, db_tables d)"
proof -
  let ?t = "db_tables d"
  have live: "db_open d" "db_alive d" "db_accessible d" using assms(2) by (simp_all add: db_works_def)
  have h: "distinct (map on_id (t_objects ?t))" "\<forall>r \<in> set (t_objects ?t). on_id r \<noteq> []"
    using assms(1) by (simp_all add: objects_ok_def hier_ok_def)
  note depths = tree_depths [OF live assms(3,5), of cmp st]
  from depths(1) [OF assms(4)] obtain n where n: "at_depth (t_objects ?t) (last p) n"
    "list_ex (\<lambda>r. ns_id r = hd p) (t_namespaces ?t)"
    "n < deepest \<longrightarrow> offers (tree_of_server cmp d st) (AddPressed p)"
    by blast
  have "offers (tree_of_server cmp d st) (AddPressed p) \<longleftrightarrow> n < deepest"
    using depths(2) at_depth_unique [OF h(1) n(1)] n(3) by blast
  moreover have "computeDepth (t_objects ?t) (last p) = Some n"
    using depth_loop_ends [OF h n(1), of 1] by (simp add: computeDepth_def)
  moreover have "find_object (t_objects ?t) (last p) \<noteq> None"
    using at_depth_row [OF n(1)] unfolding find_object_None by (metis image_eqI)
  moreover have "insert_object i now (hd p) (Some (last p)) name ?t \<noteq> (Inl too_deep, ?t)"
    by (auto simp: insert_object_def execute_def too_deep_def duplicate_object_def Let_def split: sum.split)
  ultimately show ?thesis
    using n(2) by (auto simp: create_object_body_def MAX_DEPTH_def deepest_def not_le)
qed

section \<open>Runs\<close>

definition expanded_item :: tree_item where
  "expanded_item = first_item\<lparr>ti_expanded := True\<rparr>"

definition demo_tree :: tree_state where
  "demo_tree = [([''ns''], expanded_item), ([''ns'', ''a''], expanded_item), ([''ns'', ''a'', ''b''], expanded_item)]"

definition demo_speed :: node_row where
  "demo_speed = demo_variable ''v'' ''Speed'' (Some ''b'')"

definition demo_selected :: selected_node where
  "demo_selected = \<lparr>se_node = demo_speed, se_namespaceName = ''Plant'', se_namespaceIndex = 2,
     se_objectNodePath = ''Pump/Pump''\<rparr>"

lemma demo_tree_offers:
  "offers (tree_of_server (\<lambda>_ _. 0) (demo_plant [demo_speed]) demo_tree) (VariableClicked demo_selected)"
  "offers (tree_of_server (\<lambda>_ _. 0) (demo_plant [demo_speed]) demo_tree) (ItemToggled [''ns'', ''a'', ''b''])"
  using demo_plant_facts(2-4) [of "[demo_speed]"]
  by (simp_all add: tree_of_server_def fetched_live namespace_rows_def object_rows_def demo_plant_def
      demo_objects_def fresh_tables_def buildTree_def orderedNamespaces_def sort_by_def namespace_item_def Let_def
      offers_tree_item demo_tree_def item_at_def expanded_item_def first_item_def is_root_def children_of_def
      find_object_def variables_in_def variable_item_def selection_def demo_selected_def demo_speed_def
      demo_variable_def currentPath_def)

lemma shown_node_id_is_configured_witness:
  "\<exists>cfg warnings. generate plant_env (demo_plant [demo_speed]) = Some (Inr (cfg, warnings))
     \<and> (\<exists>nsc \<in> set (ac_namespaces cfg). \<exists>n \<in> set (nsc_nodes nsc). nc_nodeId n = ''ns=2;s=Plant.Pump.Pump.Speed'')"
proof -
  have id: "opcUaNodeId demo_selected = ''ns=2;s=Plant.Pump.Pump.Speed''" by code_simp
  obtain cfg w where g: "generate plant_env (demo_plant [demo_speed]) = Some (Inr (cfg, w))"
    using generate_ends [OF demo_plant_facts, of plant_env] by blast
  from shown_node_id_is_configured [OF demo_plant_facts(1) g _ _ demo_tree_offers(1)] g id show ?thesis
    by (auto simp: demo_plant_def demo_objects_def)
qed

lemma add_offered_iff_room_witness:
  "offers (tree_of_server (\<lambda>_ _. 0) (demo_plant [demo_speed]) demo_tree) (AddPressed [''ns'', ''a'', ''b''])
     \<longleftrightarrow> create_object_body ''c'' ''now'' ''ns'' (Some ''b'') ''Valve'' (db_tables (demo_plant [demo_speed]))
           \<noteq> Some (Inl too_deep, db_tables (demo_plant [demo_speed]))"
proof -
  have "db_works (demo_plant [demo_speed])" using demo_plant_facts(2-4) by (simp add: db_works_def)
  moreover have "parents_at_home (db_tables (demo_plant [demo_speed]))"
    by (simp add: parents_at_home_def demo_plant_def demo_objects_def)
  ultimately show ?thesis
    using add_offered_iff_room [OF demo_plant_facts(1) _ _ demo_tree_offers(2), of "''c''" "''now''" "''Valve''"] by simp
qed

end
