(* ===== verification/EventStream.thy ===== *)
theory EventStream
  imports WebUi SseHub
begin

text \<open>
  \<open>web/src/hooks/useSSE.ts\<close> and \<open>useLogStream.ts\<close>: the browser's side of the stream of events whose
  server side is \<open>SseHub\<close>. The effect of the hook is a state machine over the variables of its
  closure, the timers that are pending and the \<open>EventSource\<close> objects that are not closed. Of the
  browser's \<open>EventSource\<close> the model has what its specification says: it retries by itself until it
  gives up, an object that is closed has no more events, and a text is read in lines.
\<close>

section \<open>The state of the hook\<close>

datatype connection_state = SseConnecting | SseConnected | SseDisconnected

datatype ready_state = EsConnecting | EsOpen

datatype sse_timer = RetryTimer | GiveUpTimer

text \<open>
  A timer's variable keeps its number after the timer has fired. \<open>ss_sources\<close> are the objects that
  may still have events; one that has failed for good is taken out.
\<close>

record sse_state =
  ss_connection :: connection_state
  ss_eventSource :: "nat option"
  ss_reconnectTimer :: "nat option"
  ss_disconnectTimer :: "nat option"
  ss_disposed :: bool
  ss_sources :: "(nat \<times> ready_state) list"
  ss_timers :: "(nat \<times> sse_timer) list"
  ss_next :: nat
  ss_polling :: "(string list, int option) jmap"
  ss_data :: "(string list, jsval) jmap"
  ss_published :: "jsval list"

section \<open>Polling instead\<close>

text \<open>The intervals in milliseconds of the second effect, which runs when the state changes.\<close>

definition polling_intervals :: "(string list \<times> int) list" where
  "polling_intervals =
     [([''serverStatus''], 5000), ([''server-status''], 5000), ([''server'', ''clients''], 3000),
      ([''connectors-status''], 5000), ([''connectors-values''], 2000)]"

fun polling_effect ::
  "connection_state \<Rightarrow> (string list, int option) jmap \<Rightarrow> (string list, int option) jmap" where
  "polling_effect SseDisconnected m = foldl (\<lambda>m (k, n). jset m k (Some n)) m polling_intervals"
| "polling_effect SseConnected m = foldl (\<lambda>m (k, n). jset m k None) m polling_intervals"
| "polling_effect SseConnecting m = m"

definition setConnectionState :: "connection_state \<Rightarrow> sse_state \<Rightarrow> sse_state" where
  "setConnectionState c s =
     (if c = ss_connection s then s
      else s\<lparr>ss_connection := c, ss_polling := polling_effect c (ss_polling s)\<rparr>)"

section \<open>The connection\<close>

definition clear_timeout :: "nat option \<Rightarrow> (nat \<times> sse_timer) list \<Rightarrow> (nat \<times> sse_timer) list" where
  "clear_timeout t ts = (case t of None \<Rightarrow> ts | Some i \<Rightarrow> filter (\<lambda>(j, _). j \<noteq> i) ts)"

definition clearTimers :: "sse_state \<Rightarrow> sse_state" where
  "clearTimers s =
     s\<lparr>ss_timers := clear_timeout (ss_disconnectTimer s) (clear_timeout (ss_reconnectTimer s) (ss_timers s)),
       ss_reconnectTimer := None, ss_disconnectTimer := None\<rparr>"

definition close_source :: "sse_state \<Rightarrow> sse_state" where
  "close_source s =
     (case ss_eventSource s of
        None \<Rightarrow> s
      | Some i \<Rightarrow> s\<lparr>ss_sources := filter (\<lambda>(j, _). j \<noteq> i) (ss_sources s), ss_eventSource := None\<rparr>)"

definition set_disconnect_timer :: "sse_state \<Rightarrow> sse_state" where
  "set_disconnect_timer s =
     s\<lparr>ss_timers := ss_timers s @ [(ss_next s, GiveUpTimer)], ss_disconnectTimer := Some (ss_next s),
       ss_next := Suc (ss_next s)\<rparr>"

definition new_source :: "sse_state \<Rightarrow> sse_state" where
  "new_source s =
     s\<lparr>ss_sources := ss_sources s @ [(ss_next s, EsConnecting)], ss_eventSource := Some (ss_next s),
       ss_next := Suc (ss_next s)\<rparr>"

definition connect_sse :: "sse_state \<Rightarrow> sse_state" where
  "connect_sse s =
     (if ss_disposed s then s
      else set_disconnect_timer (setConnectionState SseConnecting (new_source (close_source (clearTimers s)))))"

definition onopen :: "sse_state \<Rightarrow> sse_state" where
  "onopen s =
     (if ss_disposed s then s
      else setConnectionState SseConnected
        (s\<lparr>ss_timers := clear_timeout (ss_disconnectTimer s) (ss_timers s), ss_disconnectTimer := None\<rparr>))"

text \<open>\<open>gone\<close>: the browser has given up.\<close>

definition onerror :: "bool \<Rightarrow> sse_state \<Rightarrow> sse_state" where
  "onerror gone s =
     (if ss_disposed s then s
      else if gone then
        (let s1 = setConnectionState SseDisconnected s in
         s1\<lparr>ss_eventSource := None, ss_timers := ss_timers s1 @ [(ss_next s1, RetryTimer)],
            ss_reconnectTimer := Some (ss_next s1), ss_next := Suc (ss_next s1)\<rparr>)
      else if ss_disconnectTimer s = None then set_disconnect_timer s
      else s)"

fun timer_fires :: "sse_timer \<Rightarrow> sse_state \<Rightarrow> sse_state" where
  "timer_fires GiveUpTimer s = (if ss_disposed s then s else setConnectionState SseDisconnected s)"
| "timer_fires RetryTimer s = (if ss_disposed s then s else connect_sse s)"

definition dispose_sse :: "sse_state \<Rightarrow> sse_state" where
  "dispose_sse s = close_source (clearTimers (s\<lparr>ss_disposed := True\<rparr>))"

section \<open>Messages\<close>

text \<open>The caches an event's data goes to; \<open>parse\<close> is \<open>JSON.parse\<close>, \<open>None\<close> if it throws.\<close>

definition cache_keys :: "string \<Rightarrow> string list list" where
  "cache_keys ty =
     (if ty = ''server:status'' then [[''serverStatus''], [''server-status'']]
      else if ty = ''server:clients'' then [[''server'', ''clients'']]
      else if ty = ''connector:status'' then [[''connectors-status'']]
      else if ty = ''connector:values'' then [[''connectors-values'']]
      else [])"

definition on_message :: "(string \<Rightarrow> jsval option) \<Rightarrow> string \<times> string \<Rightarrow> sse_state \<Rightarrow> sse_state" where
  "on_message parse m s =
     (case parse (snd m) of
        None \<Rightarrow> s
      | Some v \<Rightarrow>
          if fst m = ''log:entry'' then s\<lparr>ss_published := ss_published s @ [v]\<rparr>
          else s\<lparr>ss_data := foldl (\<lambda>d k. jset d k v) (ss_data s) (cache_keys (fst m))\<rparr>)"

text \<open>
  What the browser makes of a text whose lines end with line feeds: a line is a field and its
  value, without one blank before it; an empty line ends a message, which counts if it has data.
\<close>

fun cut_colon :: "string \<Rightarrow> string \<times> string" where
  "cut_colon [] = ([], [])"
| "cut_colon (c # cs) = (if c = CHR '':'' then ([], cs) else (let (f, v) = cut_colon cs in (c # f, v)))"

definition stream_field :: "string \<Rightarrow> string \<times> string" where
  "stream_field line =
     (let (f, v) = cut_colon line in (f, case v of c # cs \<Rightarrow> if c = CHR '' '' then cs else v | [] \<Rightarrow> []))"

fun read_lines :: "string \<Rightarrow> string \<Rightarrow> string list \<Rightarrow> (string \<times> string) list" where
  "read_lines ty ds [] = []"
| "read_lines ty ds (l # ls) =
     (if l = [] then
        (if ds = [] then [] else [(if ty = [] then ''message'' else ty, butlast ds)]) @ read_lines [] [] ls
      else (let (f, v) = stream_field l in
        if f = ''event'' then read_lines v ds ls
        else if f = ''data'' then read_lines ty (ds @ v @ [lf]) ls
        else read_lines ty ds ls))"

definition read_stream :: "string \<Rightarrow> (string \<times> string) list" where
  "read_stream text = read_lines [] [] (butlast (split_on lf text))"

section \<open>Any order of events\<close>

datatype sse_event =
    SourceOpened nat
  | SourceLost nat
  | SourceFailed nat
  | SourceText nat string
  | TimerFired nat
  | Unmounted

text \<open>An event of an object or a timer that is no longer there does nothing.\<close>

fun sse_step :: "(string \<Rightarrow> jsval option) \<Rightarrow> sse_event \<Rightarrow> sse_state \<Rightarrow> sse_state" where
  "sse_step parse (SourceOpened i) s =
     (if map_of (ss_sources s) i = Some EsConnecting
      then onopen (s\<lparr>ss_sources := AList.update i EsOpen (ss_sources s)\<rparr>) else s)"
| "sse_step parse (SourceLost i) s =
     (if map_of (ss_sources s) i = None then s
      else onerror False (s\<lparr>ss_sources := AList.update i EsConnecting (ss_sources s)\<rparr>))"
| "sse_step parse (SourceFailed i) s =
     (if map_of (ss_sources s) i = None then s
      else onerror True (s\<lparr>ss_sources := filter (\<lambda>(j, _). j \<noteq> i) (ss_sources s)\<rparr>))"
| "sse_step parse (SourceText i text) s =
     (if map_of (ss_sources s) i = Some EsOpen then fold (on_message parse) (read_stream text) s else s)"
| "sse_step parse (TimerFired i) s =
     (case map_of (ss_timers s) i of
        None \<Rightarrow> s
      | Some t \<Rightarrow> timer_fires t (s\<lparr>ss_timers := filter (\<lambda>(j, _). j \<noteq> i) (ss_timers s)\<rparr>))"
| "sse_step parse Unmounted s = (if ss_disposed s then s else dispose_sse s)"

definition mounted_sse :: sse_state where
  "mounted_sse = connect_sse
     \<lparr>ss_connection = SseConnecting, ss_eventSource = None, ss_reconnectTimer = None,
      ss_disconnectTimer = None, ss_disposed = False, ss_sources = [], ss_timers = [], ss_next = 0,
      ss_polling = [], ss_data = [], ss_published = []\<rparr>"

inductive sse_reach :: "(string \<Rightarrow> jsval option) \<Rightarrow> sse_state \<Rightarrow> bool" for parse where
  start: "sse_reach parse mounted_sse"
| step: "sse_reach parse s \<Longrightarrow> sse_reach parse (sse_step parse e s)"

section \<open>Never without a way back\<close>

text \<open>
  Either there is one object, and no reconnection is scheduled; or there is none, and one is. The
  state that is shown is true, or a timer that will correct it is pending.
\<close>

definition disconnect_pending :: "sse_state \<Rightarrow> bool" where
  "disconnect_pending s \<longleftrightarrow>
     list_ex (\<lambda>(j, t). t = GiveUpTimer \<and> ss_disconnectTimer s = Some j) (ss_timers s)"

fun shown_fits :: "connection_state \<Rightarrow> ready_state \<Rightarrow> bool \<Rightarrow> bool \<Rightarrow> bool" where
  "shown_fits SseConnected r none pending = (r = EsOpen \<and> none \<or> r = EsConnecting \<and> pending)"
| "shown_fits SseConnecting r none pending = (r = EsConnecting \<and> pending)"
| "shown_fits SseDisconnected r none pending = (r = EsConnecting)"

definition live_ok :: "sse_state \<Rightarrow> bool" where
  "live_ok s \<longleftrightarrow>
     (\<exists>i r. ss_eventSource s = Some i \<and> ss_sources s = [(i, r)]
        \<and> (\<forall>(j, t) \<in> set (ss_timers s). t = GiveUpTimer \<and> ss_disconnectTimer s = Some j)
        \<and> shown_fits (ss_connection s) r (ss_disconnectTimer s = None) (disconnect_pending s))"

definition waiting_ok :: "sse_state \<Rightarrow> bool" where
  "waiting_ok s \<longleftrightarrow>
     ss_eventSource s = None \<and> ss_sources s = [] \<and> ss_connection s = SseDisconnected
     \<and> (\<exists>i. ss_reconnectTimer s = Some i \<and> map_of (ss_timers s) i = Some RetryTimer)
     \<and> (\<forall>(j, t) \<in> set (ss_timers s). ss_reconnectTimer s = Some j \<or> ss_disconnectTimer s = Some j)"

fun polling_fits :: "connection_state \<Rightarrow> (string list, int option) jmap \<Rightarrow> bool" where
  "polling_fits SseDisconnected m = list_all (\<lambda>(k, n). jget m k = Some (Some n)) polling_intervals"
| "polling_fits SseConnected m = list_all (\<lambda>(k, n). jget m k = Some None) polling_intervals"
| "polling_fits SseConnecting m = True"

definition polling_ok :: "sse_state \<Rightarrow> bool" where
  "polling_ok s = polling_fits (ss_connection s) (ss_polling s)"

definition sse_ok :: "sse_state \<Rightarrow> bool" where
  "sse_ok s \<longleftrightarrow>
     (if ss_disposed s then ss_sources s = [] \<and> ss_timers s = []
      else (live_ok s \<or> waiting_ok s) \<and> polling_ok s
        \<and> (\<forall>j \<in> fst ` set (ss_timers s). j < ss_next s)
        \<and> distinct (map fst (ss_timers s)))"

definition tracked :: "sse_state \<Rightarrow> bool" where
  "tracked s \<longleftrightarrow>
     (\<forall>(j, t) \<in> set (ss_timers s). ss_reconnectTimer s = Some j \<or> ss_disconnectTimer s = Some j)
     \<and> (\<forall>(j, r) \<in> set (ss_sources s). ss_eventSource s = Some j)"

lemma ok_tracked: "live_ok s \<or> waiting_ok s \<Longrightarrow> tracked s"
  by (auto simp: live_ok_def waiting_ok_def tracked_def)

lemma set_connection_fields [simp]:
  "ss_eventSource (setConnectionState c s) = ss_eventSource s"
  "ss_reconnectTimer (setConnectionState c s) = ss_reconnectTimer s"
  "ss_disconnectTimer (setConnectionState c s) = ss_disconnectTimer s"
  "ss_disposed (setConnectionState c s) = ss_disposed s"
  "ss_sources (setConnectionState c s) = ss_sources s"
  "ss_timers (setConnectionState c s) = ss_timers s"
  "ss_next (setConnectionState c s) = ss_next s"
  "ss_connection (setConnectionState c s) = c"
  by (simp_all add: setConnectionState_def)

lemma polling_effect_fits: "c \<noteq> SseConnecting \<Longrightarrow> polling_fits c (polling_effect c m)"
  by (cases c) (simp_all add: polling_intervals_def)

lemma set_connection_polling: "polling_ok s \<Longrightarrow> polling_ok (setConnectionState c s)"
  using polling_effect_fits [of c "ss_polling s"]
  by (cases "c = SseConnecting") (auto simp: polling_ok_def setConnectionState_def)

lemma no_pairs: "\<forall>a b. (a, b) \<notin> set xs \<Longrightarrow> xs = []"
  by (cases xs) auto

lemma clearTimers_tracked: "tracked s \<Longrightarrow> ss_timers (clearTimers s) = []"
  by (auto dest!: no_pairs simp: tracked_def clearTimers_def clear_timeout_def filter_empty_conv split: option.split)

lemma close_tracked:
  "tracked s \<Longrightarrow> ss_sources (close_source (clearTimers s)) = [] \<and> ss_eventSource (close_source (clearTimers s)) = None"
  by (auto simp: tracked_def clearTimers_def close_source_def filter_empty_conv split: option.splits)
    (cases "ss_sources s"; fastforce)+

lemma close_other:
  "ss_timers (close_source s) = ss_timers s" "ss_disposed (close_source s) = ss_disposed s"
  "ss_connection (close_source s) = ss_connection s" "ss_polling (close_source s) = ss_polling s"
  by (simp_all add: close_source_def split: option.split)

lemma clear_other:
  "ss_disposed (clearTimers s) = ss_disposed s" "ss_connection (clearTimers s) = ss_connection s"
  "ss_polling (clearTimers s) = ss_polling s" "ss_eventSource (clearTimers s) = ss_eventSource s"
  "ss_sources (clearTimers s) = ss_sources s"
  by (simp_all add: clearTimers_def)

lemma connect_ok:
  assumes "tracked s" "\<not> ss_disposed s" "polling_ok s"
  shows "sse_ok (connect_sse s)"
proof -
  let ?s = "close_source (clearTimers s)"
  have f: "ss_sources ?s = []" "ss_timers ?s = []" "\<not> ss_disposed ?s"
    using close_tracked [OF assms(1)] clearTimers_tracked [OF assms(1)] assms(2)
    by (simp_all add: close_other clear_other)
  have "polling_ok ?s"
    using assms(3) by (simp add: polling_ok_def close_other clear_other)
  then have "polling_ok (setConnectionState SseConnecting (new_source ?s))"
    by (intro set_connection_polling) (simp add: polling_ok_def new_source_def)
  then have "polling_ok (connect_sse s)"
    using assms(2) by (simp add: connect_sse_def polling_ok_def set_disconnect_timer_def)
  moreover have "live_ok (connect_sse s)"
    using f assms(2)
    by (simp add: connect_sse_def live_ok_def set_disconnect_timer_def new_source_def disconnect_pending_def)
  ultimately show ?thesis
    using f assms(2)
    by (simp add: sse_ok_def connect_sse_def set_disconnect_timer_def new_source_def)
qed

lemma mounted_ok: "sse_ok mounted_sse"
  unfolding mounted_sse_def by (rule connect_ok) (simp_all add: tracked_def polling_ok_def)

lemma dispose_ok:
  assumes "tracked s"
  shows "sse_ok (dispose_sse s)"
proof -
  have t: "tracked (s\<lparr>ss_disposed := True\<rparr>)" using assms by (simp add: tracked_def)
  show ?thesis
    using close_tracked [OF t] clearTimers_tracked [OF t]
    by (simp add: sse_ok_def dispose_sse_def close_other clear_other)
qed

lemma messages_keep:
  "ss_connection (fold (on_message parse) ms s) = ss_connection s"
  "ss_eventSource (fold (on_message parse) ms s) = ss_eventSource s"
  "ss_reconnectTimer (fold (on_message parse) ms s) = ss_reconnectTimer s"
  "ss_disconnectTimer (fold (on_message parse) ms s) = ss_disconnectTimer s"
  "ss_disposed (fold (on_message parse) ms s) = ss_disposed s"
  "ss_sources (fold (on_message parse) ms s) = ss_sources s"
  "ss_timers (fold (on_message parse) ms s) = ss_timers s"
  "ss_next (fold (on_message parse) ms s) = ss_next s"
  "ss_polling (fold (on_message parse) ms s) = ss_polling s"
  by (induction ms arbitrary: s) (simp_all add: on_message_def split: option.split)

lemma messages_ok: "sse_ok s \<Longrightarrow> sse_ok (fold (on_message parse) ms s)"
  by (simp only: sse_ok_def live_ok_def waiting_ok_def polling_ok_def disconnect_pending_def messages_keep)

lemma live_source:
  assumes "sse_ok s" "map_of (ss_sources s) i = Some r"
  shows "\<not> ss_disposed s" "live_ok s" "ss_sources s = [(i, r)]" "ss_eventSource s = Some i" "polling_ok s"
  using assms by (auto simp: sse_ok_def live_ok_def waiting_ok_def split: if_splits)

lemma no_timer: "live_ok s \<Longrightarrow> ss_disconnectTimer s = None \<Longrightarrow> ss_timers s = []"
  by (rule no_pairs) (auto simp: live_ok_def)

lemma opened_ok:
  assumes "sse_ok s" "map_of (ss_sources s) i = Some EsConnecting"
  shows "sse_ok (onopen (s\<lparr>ss_sources := AList.update i EsOpen (ss_sources s)\<rparr>))"
proof -
  note l = live_source [OF assms]
  have none: "clear_timeout (ss_disconnectTimer s) (ss_timers s) = []"
    by (cases "ss_disconnectTimer s")
      (use l(2) no_timer [OF l(2)] in \<open>auto simp: live_ok_def clear_timeout_def filter_empty_conv\<close>)
  have "polling_ok (setConnectionState SseConnected (s\<lparr>ss_sources := [(i, EsOpen)], ss_timers := [],
      ss_disconnectTimer := None\<rparr>))"
    using l(5) by (intro set_connection_polling) (simp add: polling_ok_def)
  then show ?thesis
    using l none by (simp add: onopen_def sse_ok_def live_ok_def)
qed

lemma lost_ok:
  assumes "sse_ok s" "map_of (ss_sources s) i = Some r"
  shows "sse_ok (onerror False (s\<lparr>ss_sources := AList.update i EsConnecting (ss_sources s)\<rparr>))"
proof -
  note l = live_source [OF assms]
  have next': "\<forall>j \<in> fst ` set (ss_timers s). j < ss_next s" "distinct (map fst (ss_timers s))"
    using assms(1) l(1) by (simp_all add: sse_ok_def)
  show ?thesis
  proof (cases "ss_disconnectTimer s")
    case None
    with no_timer [OF l(2)] l show ?thesis
      by (auto simp: onerror_def sse_ok_def live_ok_def set_disconnect_timer_def disconnect_pending_def
          polling_ok_def elim: shown_fits.elims)
  next
    case (Some t)
    with l next' show ?thesis
      by (auto simp: onerror_def sse_ok_def live_ok_def disconnect_pending_def polling_ok_def
          elim: shown_fits.elims)
  qed
qed

lemma failed_ok:
  assumes "sse_ok s" "map_of (ss_sources s) i = Some r"
  shows "sse_ok (onerror True (s\<lparr>ss_sources := filter (\<lambda>(j, _). j \<noteq> i) (ss_sources s)\<rparr>))"
proof -
  note l = live_source [OF assms]
  let ?s = "s\<lparr>ss_sources := []\<rparr>"
  let ?t = "setConnectionState SseDisconnected ?s"
  have next': "\<forall>j \<in> fst ` set (ss_timers s). j < ss_next s" "distinct (map fst (ss_timers s))"
    using assms(1) l(1) by (simp_all add: sse_ok_def)
  have p: "polling_ok ?t" using l(5) by (intro set_connection_polling) (simp add: polling_ok_def)
  have new: "map_of (ss_timers s @ [(ss_next s, RetryTimer)]) (ss_next s) = Some RetryTimer"
  proof -
    have "map_of (ss_timers s) (ss_next s) = None" using next'(1) by (force simp: map_of_eq_None_iff)
    then show ?thesis by (simp add: map_add_def)
  qed
  have tracked: "\<forall>(j, t) \<in> set (ss_timers s). ss_disconnectTimer s = Some j"
    using l(2) by (auto simp: live_ok_def)
  have "waiting_ok (onerror True ?s)"
    using l new tracked by (auto simp: waiting_ok_def onerror_def Let_def)
  moreover have "polling_ok (onerror True ?s)"
    using p l(1) by (simp add: onerror_def Let_def polling_ok_def)
  ultimately show ?thesis
    using l next' by (auto simp: sse_ok_def onerror_def Let_def)
qed

lemma map_of_other: "k \<noteq> i \<Longrightarrow> map_of (filter (\<lambda>(j, _). j \<noteq> i) xs) k = map_of xs k"
  by (induction xs) auto

lemma timer_ok:
  assumes "sse_ok s" "map_of (ss_timers s) i = Some t"
  shows "sse_ok (timer_fires t (s\<lparr>ss_timers := filter (\<lambda>(j, _). j \<noteq> i) (ss_timers s)\<rparr>))"
proof -
  let ?s = "s\<lparr>ss_timers := filter (\<lambda>(j, _). j \<noteq> i) (ss_timers s)\<rparr>"
  have d: "\<not> ss_disposed s" using assms by (auto simp: sse_ok_def)
  have ok: "live_ok s \<or> waiting_ok s" "polling_ok s" "\<forall>j \<in> fst ` set (ss_timers s). j < ss_next s"
    "distinct (map fst (ss_timers s))"
    using assms(1) d by (simp_all add: sse_ok_def)
  have p: "polling_ok ?s" using ok(2) by (simp add: polling_ok_def)
  have tr: "tracked ?s" using ok_tracked [OF ok(1)] by (auto simp: tracked_def)
  have mem: "(i, t) \<in> set (ss_timers s)" using assms(2) by (rule map_of_SomeD)
  have dist: "distinct (map fst (ss_timers ?s))" using ok(4) by (simp add: distinct_map_filter)
  show ?thesis
  proof (cases t)
    case RetryTimer
    with connect_ok [OF tr _ p] d show ?thesis by simp
  next
    case GiveUpTimer
    have p': "polling_ok (setConnectionState SseDisconnected ?s)" using p by (rule set_connection_polling)
    from ok(1) have "live_ok (setConnectionState SseDisconnected ?s) \<or> waiting_ok (setConnectionState SseDisconnected ?s)"
    proof
      assume live: "live_ok s"
      then obtain k r where k: "ss_eventSource s = Some k" "ss_sources s = [(k, r)]"
        "\<forall>(j, t) \<in> set (ss_timers s). t = GiveUpTimer \<and> ss_disconnectTimer s = Some j"
        "shown_fits (ss_connection s) r (ss_disconnectTimer s = None) (disconnect_pending s)"
        by (auto simp: live_ok_def)
      have "ss_disconnectTimer s = Some i" using k(3) mem by auto
      with k(4) have "r = EsConnecting" by (cases "ss_connection s") simp_all
      with k show ?thesis by (auto simp: live_ok_def)
    next
      assume "waiting_ok s"
      then obtain k where k: "ss_reconnectTimer s = Some k" "map_of (ss_timers s) k = Some RetryTimer"
        by (auto simp: waiting_ok_def)
      then have "k \<noteq> i" using assms(2) GiveUpTimer by auto
      then have "map_of (filter (\<lambda>(j, _). j \<noteq> i) (ss_timers s)) k = Some RetryTimer"
        using k(2) by (simp add: map_of_other)
      with \<open>waiting_ok s\<close> k show ?thesis by (auto simp: waiting_ok_def)
    qed
    with p' d ok(3) dist GiveUpTimer show ?thesis by (auto simp: sse_ok_def)
  qed
qed

lemma step_ok:
  assumes ok: "sse_ok s"
  shows "sse_ok (sse_step parse e s)"
proof (cases e)
  case (SourceText i x)
  with ok show ?thesis by (simp add: messages_ok)
next
  case Unmounted
  with ok show ?thesis using ok_tracked dispose_ok by (auto simp: sse_ok_def)
next
  case (SourceOpened i)
  with ok show ?thesis by (simp add: opened_ok)
next
  case (SourceLost i)
  with ok show ?thesis by (auto simp: lost_ok)
next
  case (SourceFailed i)
  with ok show ?thesis by (auto simp: failed_ok)
next
  case (TimerFired i)
  with ok show ?thesis by (auto simp: timer_ok split: option.split)
qed

lemma reach_ok: "sse_reach parse s \<Longrightarrow> sse_ok s"
  by (induction rule: sse_reach.induct) (simp_all add: mounted_ok step_ok)

text \<open>C34: However the stream and the timers behave, the hook never gives up and never shows a state that
  stays wrong. Until it is unmounted it has one stream, which the browser opens again by itself, or
  a reconnection is scheduled. It shows a connection only if the stream is open, or lost with a
  timer pending that will say so; it shows that it is connecting only while that timer is pending;
  and when it shows that there is no connection, every query of the stream is polled instead.
  After it is unmounted it has neither streams nor timers.\<close>

theorem stream_never_stuck:
  assumes "sse_reach parse s"
  shows "if ss_disposed s then ss_sources s = [] \<and> ss_timers s = []
    else ((\<exists>i r. ss_eventSource s = Some i \<and> ss_sources s = [(i, r)])
          \<or> (\<exists>i. ss_reconnectTimer s = Some i \<and> map_of (ss_timers s) i = Some RetryTimer))
      \<and> (case ss_connection s of
            SseConnected \<Rightarrow> EsOpen \<in> snd ` set (ss_sources s) \<or> disconnect_pending s
          | SseConnecting \<Rightarrow> disconnect_pending s
          | SseDisconnected \<Rightarrow>
              list_all (\<lambda>(k, n). jget (ss_polling s) k = Some (Some n)) polling_intervals)"
  using reach_ok [OF assms]
  by (cases "ss_connection s") (auto simp: sse_ok_def live_ok_def waiting_ok_def polling_ok_def)

text \<open>A stream that is opened, lost, not found again in time, given up and opened anew.\<close>

definition demo_parse :: "string \<Rightarrow> jsval option" where
  "demo_parse t = (if t = [] then None else Some (JStr t))"

fun sse_run :: "(string \<Rightarrow> jsval option) \<Rightarrow> sse_event list \<Rightarrow> sse_state \<Rightarrow> sse_state" where
  "sse_run parse [] s = s"
| "sse_run parse (e # es) s = sse_run parse es (sse_step parse e s)"

lemma sse_run_reach: "sse_reach parse s \<Longrightarrow> sse_reach parse (sse_run parse es s)"
  by (induction es arbitrary: s) (simp_all add: sse_reach.step)

definition lost_run :: "sse_event list" where
  "lost_run = [SourceOpened 0, SourceLost 0, TimerFired 2, SourceFailed 0]"

lemma stream_never_stuck_witness:
  "let s = sse_run demo_parse lost_run mounted_sse in
     ss_connection s = SseDisconnected \<and> map_of (ss_timers s) 3 = Some RetryTimer
     \<and> ss_reconnectTimer s = Some 3 \<and> jget (ss_polling s) [''connectors-values''] = Some (Some 2000)"
proof -
  let ?s = "sse_run demo_parse lost_run mounted_sse"
  have r: "sse_reach demo_parse ?s" by (rule sse_run_reach, rule sse_reach.start)
  have "\<not> ss_disposed ?s \<and> ss_connection ?s = SseDisconnected \<and> ss_sources ?s = [] \<and> ss_reconnectTimer ?s = Some 3"
    by code_simp
  with stream_never_stuck [OF r] show ?thesis by (auto simp: polling_intervals_def Let_def)
qed

section \<open>From the server to the caches\<close>

lemma split_on_append: "c \<notin> set xs \<Longrightarrow> split_on c (xs @ c # ys) = xs # split_on c ys"
  by (induction xs) auto

lemma split_block: "c \<notin> set xs \<Longrightarrow> c \<notin> set ys \<Longrightarrow> split_on c (xs @ c # ys @ [c, c]) = [xs, ys, [], []]"
  by (simp add: split_on_append)

lemma cut_colon_append: "CHR '':'' \<notin> set f \<Longrightarrow> cut_colon (f @ CHR '':'' # v) = (f, v)"
  by (induction f) auto

lemma stream_field_of: "CHR '':'' \<notin> set f \<Longrightarrow> stream_field (f @ '': '' @ v) = (f, v)"
  using cut_colon_append [of f "CHR '' '' # v"] by (simp add: stream_field_def)

lemma read_formatted:
  assumes "one_line_numbers nt" "lf \<notin> set ty" "ty \<noteq> []"
  shows "read_stream (formatEvent nt ty d) = [(ty, json nt d)]"
proof -
  have "formatEvent nt ty d = (''event'' @ '': '' @ ty) @ lf # (''data'' @ '': '' @ json nt d) @ [lf, lf]"
    by (simp add: formatEvent_def)
  moreover have "split_on lf ((''event'' @ '': '' @ ty) @ lf # (''data'' @ '': '' @ json nt d) @ [lf, lf])
      = [''event'' @ '': '' @ ty, ''data'' @ '': '' @ json nt d, [], []]"
    by (rule split_block) (simp_all add: assms(2) json_one_line(1) [OF assms(1)])
  ultimately have "read_stream (formatEvent nt ty d)
      = read_lines [] [] [''event'' @ '': '' @ ty, ''data'' @ '': '' @ json nt d, []]"
    by (simp add: read_stream_def)
  moreover have "stream_field (''event'' @ '': '' @ ty) = (''event'', ty)"
    "stream_field (''data'' @ '': '' @ json nt d) = (''data'', json nt d)"
    by (rule stream_field_of, simp)+
  ultimately show ?thesis using assms(3) by (simp del: append_Cons append.simps) simp
qed

lemma heartbeat_unread: "read_stream heartbeat_text = []"
  by code_simp

lemma write_to_keeps: "x \<in> set (hub_written h) \<Longrightarrow> x \<in> set (hub_written (write_to throws p h e))"
  by (simp add: write_to_def removeClient_def emit_def)

lemma writes_keep: "x \<in> set (hub_written h) \<Longrightarrow> x \<in> set (hub_written (foldl (write_to throws p) h es))"
  by (induction es arbitrary: h) (simp_all add: write_to_keeps)

lemma written_to:
  "e \<in> set es \<Longrightarrow> \<not> throws (sc_res (snd e)) \<Longrightarrow> (sc_res (snd e), p) \<in> set (hub_written (foldl (write_to throws p) h es))"
proof (induction es arbitrary: h)
  case (Cons x es)
  have "(sc_res (snd e), p) \<in> set (hub_written (write_to throws p h e))"
    using Cons.prems(2) by (simp add: write_to_def)
  from writes_keep [OF this] Cons show ?case by (cases "x = e") simp_all
qed simp

definition stream_types :: "string list" where
  "stream_types = [''server:status'', ''server:clients'', ''connector:status'', ''connector:values'', ''log:entry'']"

lemma stream_types_all:
  "list_all (\<lambda>ty. \<not> List.member ty lf \<and> ty \<noteq> [] \<and> (ty = ''log:entry'' \<or> cache_keys ty \<noteq> [])) stream_types"
  by code_simp

lemma stream_types_ok:
  "ty \<in> set stream_types \<Longrightarrow> lf \<notin> set ty \<and> ty \<noteq> [] \<and> (ty = ''log:entry'' \<or> cache_keys ty \<noteq> [])"
  using stream_types_all by (simp add: list_all_iff)

lemma jget_foldl_jset:
  "k \<in> set ks \<Longrightarrow> jget (foldl (\<lambda>d k. jset d k v) m ks) k = Some v"
proof (induction ks rule: rev_induct)
  case (snoc x xs)
  then show ?case by (cases "k = x") simp_all
qed simp

text \<open>C35: What the server broadcasts arrives: for each of the five kinds of event, the text the hub
  writes to a client that can be written to is read by the browser as exactly one message of that
  kind, and the value that was sent is then in every cache of the query it belongs to, or handed
  to the log.\<close>

theorem broadcast_reaches_cache:
  assumes "one_line_numbers nt" "parse (json nt d) = Some v" "map_of (ss_sources s) i = Some EsOpen"
    and "ty \<in> set stream_types" "e \<in> set (hub_clients h)" "\<not> throws (sc_res (snd e))"
  shows "\<exists>text. (sc_res (snd e), text) \<in> set (hub_written (broadcast throws nt ty d h)) \<and>
    (let s' = sse_step parse (SourceText i text) s in
     if ty = ''log:entry'' then ss_published s' = ss_published s @ [v]
     else cache_keys ty \<noteq> [] \<and> list_all (\<lambda>k. jget (ss_data s') k = Some v) (cache_keys ty))"
proof (intro exI conjI)
  show "(sc_res (snd e), formatEvent nt ty d) \<in> set (hub_written (broadcast throws nt ty d h))"
    unfolding broadcast_def using written_to assms(5,6) by blast
  have "read_stream (formatEvent nt ty d) = [(ty, json nt d)]"
    using read_formatted assms(1) stream_types_ok [OF assms(4)] by blast
  then show "let s' = sse_step parse (SourceText i (formatEvent nt ty d)) s in
      if ty = ''log:entry'' then ss_published s' = ss_published s @ [v]
      else cache_keys ty \<noteq> [] \<and> list_all (\<lambda>k. jget (ss_data s') k = Some v) (cache_keys ty)"
    using stream_types_ok [OF assms(4)] assms(2,3)
    by (auto simp: Let_def on_message_def list_all_iff jget_foldl_jset)
qed

lemma broadcast_reaches_cache_witness:
  "\<exists>text. (7, text) \<in> set (hub_written (broadcast (\<lambda>_. False) (\<lambda>_. ''1'') ''connector:status'' (JArr [])
       (addClient ''c'' 7 0 new_hub)))
     \<and> jget (ss_data (sse_step demo_parse (SourceText 0 text) (sse_step demo_parse (SourceOpened 0) mounted_sse)))
         [''connectors-status''] = Some (JStr ''[]'')"
proof -
  let ?s = "sse_step demo_parse (SourceOpened 0) mounted_sse"
  have open': "map_of (ss_sources ?s) 0 = Some EsOpen" by code_simp
  have parsed: "demo_parse (json (\<lambda>_. ''1'') (JArr [])) = Some (JStr ''[]'')" by code_simp
  have lines: "one_line_numbers (\<lambda>_. ''1'')" by (simp add: one_line_numbers_def)
  have client: "(''c'', \<lparr>sc_id = ''c'', sc_res = 7, sc_connectedAt = 0\<rparr>) \<in> set (hub_clients (addClient ''c'' 7 0 new_hub))"
    by (simp add: addClient_def new_hub_def emit_def)
  have ty: "''connector:status'' \<in> set stream_types" by (simp add: stream_types_def)
  have k: "cache_keys ''connector:status'' = [[''connectors-status'']]" by code_simp
  from broadcast_reaches_cache [where nt = "\<lambda>_. ''1''" and parse = demo_parse and d = "JArr []" and s = ?s
      and throws = "\<lambda>_. False", OF lines parsed open' ty client] show ?thesis
    by (simp add: Let_def k del: sse_step.simps)
qed

end
