(* ===== verification/ConnectionForm.thy ===== *)
theory ConnectionForm
  imports WebUi ConnectorRoutes
begin

text \<open>
  \<open>web/src/screens/connectors/ConnectionForm.tsx\<close>: the form for a connection, drawn from the schema
  of the protocol's parameters, or as pairs of keys and values where there is none; and what the
  check of the server says to what it sends. \<open>str\<close> is \<open>String\<close> on values other than texts.
\<close>

section \<open>Parameters and texts\<close>

text \<open>What the form knows of a field beside what the server's check needs.\<close>

record form_param = param_field +
  fp_default :: jsval
  fp_optionLabels :: "string list"
  fp_description :: "string option"

type_synonym form_values = "(string, string) jmap"

text \<open>\<open>Object.entries\<close> of a value, none where it has no members.\<close>

definition entries_of :: "jsval \<Rightarrow> (string \<times> jsval) list" where
  "entries_of v =
     (case v of
        JObj ps \<Rightarrow> ps
      | JArr vs \<Rightarrow> map (\<lambda>(i, x). (show_nat i, x)) (enumerate 0 vs)
      | JStr s \<Rightarrow> map (\<lambda>(i, c). (show_nat i, JStr [c])) (enumerate 0 s)
      | _ \<Rightarrow> [])"

definition initial_value :: "(jsval \<Rightarrow> string) \<Rightarrow> (string \<times> jsval) list option \<Rightarrow> form_param \<Rightarrow> string" where
  "initial_value str params f =
     (let existing = (case params of None \<Rightarrow> JUndefined | Some ps \<Rightarrow> getprop ps (pf_key f)) in
      if existing \<noteq> JUndefined then as_text str existing
      else if fp_default f \<noteq> JUndefined then as_text str (fp_default f)
      else [])"

definition getInitialSchemaValues ::
  "(jsval \<Rightarrow> string) \<Rightarrow> form_param list \<Rightarrow> (string \<times> jsval) list option \<Rightarrow> form_values" where
  "getInitialSchemaValues str schema params =
     foldl (\<lambda>m f. jset m (pf_key f) (initial_value str params f)) [] schema"

definition getInitialKeyValuePairs ::
  "(jsval \<Rightarrow> string) \<Rightarrow> (string \<times> jsval) list option \<Rightarrow> (string \<times> string) list" where
  "getInitialKeyValuePairs str params =
     (case params of
        None \<Rightarrow> [([], [])]
      | Some ps \<Rightarrow> if ps = [] then [([], [])] else map (\<lambda>(k, v). (k, as_text str v)) ps)"

definition field_raw :: "form_values \<Rightarrow> string \<Rightarrow> string" where
  "field_raw m k = (case jget m k of None \<Rightarrow> [] | Some s \<Rightarrow> s)"

definition param_of_text :: "field_type \<Rightarrow> string \<Rightarrow> jsval" where
  "param_of_text ty raw =
     (case ty of
        TNumber \<Rightarrow> if raw = [] then JUndefined else JNum (Number_of raw)
      | TBoolean \<Rightarrow> JBool (raw = ''true'')
      | _ \<Rightarrow> JStr raw)"

definition buildParamsFromSchema :: "form_param list \<Rightarrow> form_values \<Rightarrow> (string, jsval) jmap" where
  "buildParamsFromSchema schema m =
     foldl (\<lambda>ps f. jset ps (pf_key f) (param_of_text (pf_type f) (field_raw m (pf_key f)))) [] schema"

definition value_of_text :: "string \<Rightarrow> jsval" where
  "value_of_text s =
     (let n = Number_of s in
      if n \<noteq> NaN \<and> trim s \<noteq> [] then JNum n
      else if s = ''true'' then JBool True
      else if s = ''false'' then JBool False
      else JStr s)"

definition buildParamsFromKeyValues :: "(string \<times> string) list \<Rightarrow> (string, jsval) jmap" where
  "buildParamsFromKeyValues pairs =
     foldl (\<lambda>ps (k, s). if trim k \<noteq> [] then jset ps (trim k) (value_of_text s) else ps) [] pairs"

section \<open>The form\<close>

record connection_form =
  cf_name :: string
  cf_polling :: string
  cf_reconnect :: string
  cf_fields :: form_values
  cf_pairs :: "(string \<times> string) list"
  cf_error :: string

datatype connection_form_event =
    ConnNameTyped string
  | ParamChanged string string
  | PollingTyped string
  | ReconnectTyped string
  | PairKeyTyped nat string
  | PairValueTyped nat string
  | PairAdded
  | PairRemoved nat
  | ConnSubmitted
  | ConnCancelled

datatype connection_form_report = ConnData jsval | ConnFormCancelled

text \<open>The schema the form is drawn from; \<open>None\<close> and the empty one are the same.\<close>

definition has_schema :: "form_param list option \<Rightarrow> bool" where
  "has_schema schema \<longleftrightarrow> schema \<noteq> None \<and> the schema \<noteq> []"

definition interval_text :: "int \<Rightarrow> string" where
  "interval_text n = show_int n"

definition initial_connection_form ::
  "(jsval \<Rightarrow> string) \<Rightarrow> form_param list option \<Rightarrow> connection_config option \<Rightarrow> connection_form" where
  "initial_connection_form str schema editing =
     (let params = map_option (\<lambda>c. entries_of (cfg_params c)) editing in
      \<lparr>cf_name = (case editing of None \<Rightarrow> [] | Some c \<Rightarrow> cfg_name c),
       cf_polling = interval_text (case editing of None \<Rightarrow> 1000 | Some c \<Rightarrow> cfg_pollingIntervalMs c),
       cf_reconnect = interval_text (case editing of None \<Rightarrow> 5000 | Some c \<Rightarrow> cfg_reconnectIntervalMs c),
       cf_fields = (if has_schema schema then getInitialSchemaValues str (the schema) params else []),
       cf_pairs = (if \<not> has_schema schema then getInitialKeyValuePairs str params else []),
       cf_error = []\<rparr>)"

definition interval_of_text :: "string \<Rightarrow> jsval" where
  "interval_of_text s = (case parseInt10 s of None \<Rightarrow> JNum NaN | Some n \<Rightarrow> jint n)"

definition requiredMissing :: "form_param list \<Rightarrow> form_values \<Rightarrow> form_param option" where
  "requiredMissing schema m = find (\<lambda>f. pf_required f \<and> trim (field_raw m (pf_key f)) = []) schema"

definition connection_params :: "form_param list option \<Rightarrow> connection_form \<Rightarrow> (string, jsval) jmap" where
  "connection_params schema f =
     (if has_schema schema then buildParamsFromSchema (the schema) (cf_fields f)
      else buildParamsFromKeyValues (cf_pairs f))"

definition connection_data ::
  "string \<Rightarrow> form_param list option \<Rightarrow> connection_config option \<Rightarrow> connection_form \<Rightarrow> jsval" where
  "connection_data ty schema editing f =
     JObj [(''type'', JStr ty), (''name'', JStr (trim (cf_name f))),
           (''params'', JObj (connection_params schema f)),
           (''pollingIntervalMs'', interval_of_text (cf_polling f)),
           (''reconnectIntervalMs'', interval_of_text (cf_reconnect f)),
           (''enabled'', JBool (case editing of None \<Rightarrow> True | Some c \<Rightarrow> cfg_enabled c))]"

definition connection_submit ::
  "string \<Rightarrow> form_param list option \<Rightarrow> connection_config option \<Rightarrow> connection_form
     \<Rightarrow> connection_form \<times> connection_form_report effect list" where
  "connection_submit ty schema editing f =
     (if trim (cf_name f) = [] then (f\<lparr>cf_error := ''Name is required''\<rparr>, [])
      else case (if has_schema schema then requiredMissing (the schema) (cf_fields f) else None) of
             Some m \<Rightarrow> (f\<lparr>cf_error := pf_label m @ '' is required''\<rparr>, [])
           | None \<Rightarrow> (f\<lparr>cf_error := []\<rparr>, [Emit (ConnData (connection_data ty schema editing f))]))"

definition set_pair :: "nat \<Rightarrow> (string \<times> string \<Rightarrow> string \<times> string) \<Rightarrow> (string \<times> string) list \<Rightarrow> (string \<times> string) list" where
  "set_pair n g ps = map (\<lambda>(i, p). if i = n then g p else p) (enumerate 0 ps)"

definition remove_pair :: "nat \<Rightarrow> (string \<times> string) list \<Rightarrow> (string \<times> string) list" where
  "remove_pair n ps = map snd (filter (\<lambda>(i, p). i \<noteq> n) (enumerate 0 ps))"

fun connection_form_step ::
  "string \<Rightarrow> form_param list option \<Rightarrow> connection_config option \<Rightarrow> connection_form_event
     \<Rightarrow> connection_form \<Rightarrow> connection_form \<times> connection_form_report effect list" where
  "connection_form_step ty schema editing (ConnNameTyped v) f = (f\<lparr>cf_name := v\<rparr>, [])"
| "connection_form_step ty schema editing (ParamChanged k v) f =
     (f\<lparr>cf_fields := jset (cf_fields f) k v\<rparr>, [])"
| "connection_form_step ty schema editing (PollingTyped v) f = (f\<lparr>cf_polling := v\<rparr>, [])"
| "connection_form_step ty schema editing (ReconnectTyped v) f = (f\<lparr>cf_reconnect := v\<rparr>, [])"
| "connection_form_step ty schema editing (PairKeyTyped n v) f =
     (f\<lparr>cf_pairs := set_pair n (\<lambda>(_, s). (v, s)) (cf_pairs f)\<rparr>, [])"
| "connection_form_step ty schema editing (PairValueTyped n v) f =
     (f\<lparr>cf_pairs := set_pair n (\<lambda>(k, _). (k, v)) (cf_pairs f)\<rparr>, [])"
| "connection_form_step ty schema editing PairAdded f = (f\<lparr>cf_pairs := cf_pairs f @ [([], [])]\<rparr>, [])"
| "connection_form_step ty schema editing (PairRemoved n) f =
     (f\<lparr>cf_pairs := remove_pair n (cf_pairs f)\<rparr>, [])"
| "connection_form_step ty schema editing ConnSubmitted f = connection_submit ty schema editing f"
| "connection_form_step ty schema editing ConnCancelled f = (f, [Emit ConnFormCancelled])"

definition bool_text :: "bool \<Rightarrow> string" where
  "bool_text b = (if b then ''true'' else ''false'')"

text \<open>A field of the schema; a check box reports the negation of what it shows.\<close>

definition param_input :: "connection_form \<Rightarrow> form_param \<Rightarrow> connection_form_event ui" where
  "param_input f p =
     (let i = ''conn-'' @ pf_key p; v = field_raw (cf_fields f) (pf_key p) in
      form_field i (pf_label p) False None (fp_description p)
        [if pf_type p = TBoolean then
           Checkbox i (v = ''true'') False (ParamChanged (pf_key p) (bool_text (v \<noteq> ''true'')))
         else if pf_type p = TSelect \<and> pf_options p \<noteq> None then
           Choice i v False (([], ''Select'') # zip (the (pf_options p)) (fp_optionLabels p)) (ParamChanged (pf_key p))
         else Input i v False (ParamChanged (pf_key p))])"

definition pair_row :: "nat \<Rightarrow> nat \<times> string \<times> string \<Rightarrow> connection_form_event ui" where
  "pair_row n_pairs = (\<lambda>(n, k, s).
     Group [Input [] k False (PairKeyTyped n), Input [] s False (PairValueTyped n),
            loading_button [] (n_pairs \<le> 1) False (PairRemoved n)])"

definition connection_form_view ::
  "string \<Rightarrow> form_param list option \<Rightarrow> string option \<Rightarrow> connection_config option \<Rightarrow> bool
     \<Rightarrow> connection_form \<Rightarrow> connection_form_event ui" where
  "connection_form_view ty schema protocolLabel editing isSubmitting f =
     (let label = (case protocolLabel of None \<Rightarrow> ty | Some l \<Rightarrow> l);
          title = (if editing \<noteq> None then ''Edit '' @ label @ '' Connection'' else ''New '' @ label @ '' Connection'') in
      Group [Text title, only_if (cf_error f \<noteq> []) (Text (cf_error f)),
        Form title ConnSubmitted
          [form_field ''conn-name'' ''Name'' False None None [Input ''conn-name'' (cf_name f) False ConnNameTyped],
           only_if (has_schema schema) (Group (map (param_input f) (the schema))),
           form_field ''conn-polling'' ''Polling (ms)'' False None None
             [Input ''conn-polling'' (cf_polling f) False PollingTyped],
           form_field ''conn-reconnect'' ''Reconnect (ms)'' False None None
             [Input ''conn-reconnect'' (cf_reconnect f) False ReconnectTyped],
           only_if (\<not> has_schema schema)
             (Group (Text ''Parameters'' # map (pair_row (length (cf_pairs f))) (enumerate 0 (cf_pairs f))
               @ [loading_button ''+ Add Parameter'' False False PairAdded])),
           loading_button (if editing \<noteq> None then ''Update'' else ''Create'') False isSubmitting ConnSubmitted,
           loading_button ''Cancel'' False False ConnCancelled]])"

section \<open>What the server's check says\<close>

lemma jget_foldl_fields:
  "distinct (map k fs) \<Longrightarrow> f \<in> set fs \<Longrightarrow> jget (foldl (\<lambda>m f. jset m (k f) (g f)) m fs) (k f) = Some (g f)"
proof (induction fs rule: rev_induct)
  case (snoc x xs)
  then show ?case by (cases "f = x") (auto simp: rev_image_eqI image_iff)
qed simp

text \<open>The fields as the server's answer has them.\<close>

definition server_field :: "form_param \<Rightarrow> param_field" where
  "server_field f = param_field.truncate f"

lemma server_field_simps [simp]:
  "pf_key (server_field f) = pf_key f" "pf_type (server_field f) = pf_type f"
  "pf_required (server_field f) = pf_required f" "pf_pattern (server_field f) = pf_pattern f"
  "pf_options (server_field f) = pf_options f" "pf_min (server_field f) = pf_min f"
  "pf_max (server_field f) = pf_max f"
  by (simp_all add: server_field_def param_field.truncate_def)

lemma jget_foldl_other:
  "x \<notin> set (map k fs) \<Longrightarrow> map_of (foldl (\<lambda>m f. jset m (k f) (g f)) [] fs) x = None"
  by (induction fs rule: rev_induct) auto

text \<open>
  What a field of the page holds: the browser's number fields give a number in their range or
  nothing, a choice one of its options or nothing. Nothing restricts a text, nor a choice that the
  schema gives no options, which is drawn as a text.
\<close>

definition entered :: "form_param \<Rightarrow> string \<Rightarrow> bool" where
  "entered f raw \<longleftrightarrow>
     raw = [] \<or>
     (case pf_type f of
        TNumber \<Rightarrow> (case Number_of raw of Fin q \<Rightarrow> in_range (server_field f) (Fin q) | _ \<Rightarrow> False)
      | TSelect \<Rightarrow> (case pf_options f of None \<Rightarrow> True | Some os \<Rightarrow> List.member os raw)
      | _ \<Rightarrow> True)"

text \<open>What the page does not check: the pattern of a text, and the choice without options.\<close>

definition refused_field :: "pattern_test \<Rightarrow> form_values \<Rightarrow> form_param \<Rightarrow> bool" where
  "refused_field rt m f \<longleftrightarrow>
     (let raw = field_raw m (pf_key f) in
      raw \<noteq> []
      \<and> (case pf_type f of
           TText \<Rightarrow> (case pf_pattern f of None \<Rightarrow> False | Some p \<Rightarrow> p \<noteq> [] \<and> \<not> rt p raw)
         | TSelect \<Rightarrow> pf_options f = None
         | _ \<Rightarrow> False))"

lemma map_of_copy_members:
  "map_of (copy_members ps) k =
     (case map_of (filter (\<lambda>p. snd p \<noteq> JUndefined) ps) k of None \<Rightarrow> None | Some v \<Rightarrow> Some (json_copy v))"
  by (induction ps) auto

lemma map_of_filter_snd:
  "distinct (map fst xs) \<Longrightarrow> map_of (filter (\<lambda>p. P (snd p)) xs) k =
     (case map_of xs k of None \<Rightarrow> None | Some v \<Rightarrow> if P v then Some v else None)"
  by (induction xs) (auto simp: map_of_eq_None_iff split: option.split)

lemma copied_param:
  assumes "distinct (map pf_key schema)" "f \<in> set schema"
  shows "getprop (copy_members (buildParamsFromSchema schema m)) (pf_key f) =
    (let v = param_of_text (pf_type f) (field_raw m (pf_key f)) in if v = JUndefined then JUndefined else json_copy v)"
proof -
  let ?ps = "buildParamsFromSchema schema m" and ?v = "param_of_text (pf_type f) (field_raw m (pf_key f))"
  have v: "map_of ?ps (pf_key f) = Some ?v"
    unfolding buildParamsFromSchema_def by (rule jget_foldl_fields [OF assms])
  have "distinct (map fst ?ps)"
    unfolding buildParamsFromSchema_def
    by (induction schema rule: rev_induct) (simp_all add: distinct_update)
  then have "map_of (filter (\<lambda>p. snd p \<noteq> JUndefined) ?ps) (pf_key f) = (if ?v = JUndefined then None else Some ?v)"
    using v map_of_filter_snd [of ?ps "\<lambda>v. v \<noteq> JUndefined"] by simp
  then show ?thesis by (simp add: getprop_def map_of_copy_members Let_def)
qed

lemma copied_absent:
  assumes "distinct (map pf_key schema)" "f \<in> set schema"
  shows "getprop (copy_members (buildParamsFromSchema schema m)) (pf_key f) =
    (case pf_type f of
       TNumber \<Rightarrow> if field_raw m (pf_key f) = [] then JUndefined
                  else (case Number_of (field_raw m (pf_key f)) of Fin q \<Rightarrow> JNum (Fin q) | _ \<Rightarrow> JNull)
     | TBoolean \<Rightarrow> JBool (field_raw m (pf_key f) = ''true'')
     | _ \<Rightarrow> JStr (field_raw m (pf_key f)))"
  using copied_param [OF assms, of m] by (simp add: Let_def param_of_text_def split: field_type.split)

lemma concat_filtered:
  "(\<And>x. x \<in> set xs \<Longrightarrow> map g (f x) = (if P x then [h x] else [])) \<Longrightarrow>
    map g (concat (map f xs)) = map h (filter P xs)"
  by (induction xs) auto

text \<open>C36: What the server's check finds in what the form for a connection sends is exactly what the
  page does not check. If the schema's keys are distinct, nothing required is empty (which the form
  checks), every number is in its range and every choice one of its options (which the browser
  checks), the check has one error for each non-empty text that does not match its pattern and for
  each non-empty choice without options in the schema, in the schema's order, and no other; it
  passes if there are none. The form turns texts into values; the server checks the values after
  they have been through JSON.\<close>

theorem form_passes_check:
  assumes "distinct (map pf_key schema)" "requiredMissing schema (cf_fields f) = None"
    and "list_all (\<lambda>p. entered p (field_raw (cf_fields f) (pf_key p))) schema"
  shows "let v = validateParams rt nt (copy_members (connection_params (Some schema) f)) (map server_field schema) in
    map fe_field (vr_errors v) = map pf_key (filter (refused_field rt (cf_fields f)) schema)
    \<and> (vr_valid v \<longleftrightarrow> filter (refused_field rt (cf_fields f)) schema = [])"
proof (cases "schema = []")
  case True
  then show ?thesis by (simp add: validateParams_def)
next
  case False
  then have ps: "connection_params (Some schema) f = buildParamsFromSchema schema (cf_fields f)"
    by (simp add: connection_params_def has_schema_def)
  let ?sent = "copy_members (buildParamsFromSchema schema (cf_fields f))"
  let ?check = "\<lambda>p. validate_field rt nt ?sent (server_field p)"
  have one: "map fe_field (?check p) = (if refused_field rt (cf_fields f) p then [pf_key p] else [])"
    if p: "p \<in> set schema" for p
  proof -
    let ?raw = "field_raw (cf_fields f) (pf_key p)"
    have req: "pf_required p \<Longrightarrow> ?raw \<noteq> []"
      using assms(2) p by (auto simp: requiredMissing_def find_None_iff)
    have ok: "entered p ?raw" using assms(3) p by (simp add: list_all_iff)
    show ?thesis
      unfolding validate_field_def Let_def server_field_simps copied_absent [OF assms(1) p]
      using req ok
      by (cases "pf_type p"; cases "?raw = []")
        (auto simp: absent_def entered_def refused_field_def validateText_def validateNumber_def range_errors_def
          in_range_def validateBoolean_def validateSelect_def ParamsValidator.field_error_def Let_def
          split: jsnum.splits option.splits)
  qed
  have "map fe_field (concat (map ?check schema)) = map pf_key (filter (refused_field rt (cf_fields f)) schema)"
    by (rule concat_filtered [OF one])
  moreover from this have "concat (map ?check schema) = [] \<longleftrightarrow> filter (refused_field rt (cf_fields f)) schema = []"
    by (metis map_is_Nil_conv)
  ultimately show ?thesis by (simp add: ps validateParams_def Let_def o_def)
qed

section \<open>Saving without a change\<close>

definition kept_value :: "(jsval \<Rightarrow> string) \<Rightarrow> (string \<times> jsval) list \<Rightarrow> form_param \<Rightarrow> jsval" where
  "kept_value str ps f =
     (if getprop ps (pf_key f) \<noteq> JUndefined then getprop ps (pf_key f)
      else if fp_default f \<noteq> JUndefined then fp_default f
      else param_of_text (pf_type f) [])"

lemma find_in: "find P xs = Some x \<Longrightarrow> x \<in> set xs \<and> P x"
  by (induction xs) (auto split: if_splits)

text \<open>A value of a field's type whose text reads back as the value.\<close>

definition readable :: "(jsval \<Rightarrow> string) \<Rightarrow> form_param \<Rightarrow> jsval \<Rightarrow> bool" where
  "readable str f v \<longleftrightarrow>
     v = JUndefined \<or>
     (case pf_type f of
        TNumber \<Rightarrow> (case v of JNum n \<Rightarrow> str v \<noteq> [] \<and> Number_of (str v) = n | _ \<Rightarrow> False)
      | TBoolean \<Rightarrow> (case v of JBool b \<Rightarrow> str v = bool_text b | _ \<Rightarrow> False)
      | _ \<Rightarrow> (case v of JStr s \<Rightarrow> True | _ \<Rightarrow> False))"

lemma readable_round:
  "readable str f v \<Longrightarrow> v \<noteq> JUndefined \<Longrightarrow> param_of_text (pf_type f) (as_text str v) = v"
  by (cases "pf_type f"; cases v) (auto simp: readable_def param_of_text_def as_text_def bool_text_def)

text \<open>Opening the form of a connection and saving it without a change sends the parameters the
  connection has: every parameter of the schema keeps its value, and one that was not there
  becomes the default of the schema, or the value of an empty field. This needs values of the
  types the schema names; a parameter the schema does not name is not sent at all.\<close>

lemma unchanged_form_keeps_params:
  assumes "distinct (map pf_key schema)" "schema \<noteq> []"
    and "list_all (\<lambda>f. readable str f (getprop (entries_of (cfg_params c)) (pf_key f)) \<and> readable str f (fp_default f)) schema"
  shows "getprop (connection_params (Some schema) (initial_connection_form str (Some schema) (Some c))) k =
    (case find (\<lambda>f. pf_key f = k) schema of None \<Rightarrow> JUndefined | Some f \<Rightarrow> kept_value str (entries_of (cfg_params c)) f)"
proof -
  let ?m = "getInitialSchemaValues str schema (Some (entries_of (cfg_params c)))"
  have ps: "connection_params (Some schema) (initial_connection_form str (Some schema) (Some c))
      = buildParamsFromSchema schema ?m"
    using assms(2) by (simp add: connection_params_def has_schema_def initial_connection_form_def)
  show ?thesis
  proof (cases "find (\<lambda>f. pf_key f = k) schema")
    case None
    then have "k \<notin> set (map pf_key schema)" by (auto simp: find_None_iff)
    then have "map_of (buildParamsFromSchema schema ?m) k = None"
      unfolding buildParamsFromSchema_def by (rule jget_foldl_other)
    with None show ?thesis by (simp add: ps getprop_def)
  next
    case (Some f)
    have f: "f \<in> set schema" "pf_key f = k" using find_in [OF Some] by simp_all
    let ?v = "getprop (entries_of (cfg_params c)) k"
    have r: "readable str f ?v" "readable str f (fp_default f)" using assms(3) f by (auto simp: list_all_iff)
    have raw: "field_raw ?m k = initial_value str (Some (entries_of (cfg_params c))) f"
      using jget_foldl_fields [OF assms(1) f(1), of "initial_value str (Some (entries_of (cfg_params c)))"] f(2)
      by (simp add: getInitialSchemaValues_def field_raw_def)
    have "map_of (buildParamsFromSchema schema ?m) k = Some (param_of_text (pf_type f) (field_raw ?m k))"
      using jget_foldl_fields [OF assms(1) f(1), of "\<lambda>f. param_of_text (pf_type f) (field_raw ?m (pf_key f))"] f(2)
      by (simp add: buildParamsFromSchema_def)
    moreover have "param_of_text (pf_type f) (initial_value str (Some (entries_of (cfg_params c))) f) = kept_value str (entries_of (cfg_params c)) f"
      using readable_round [OF r(1)] readable_round [OF r(2)] f(2)
      by (simp add: initial_value_def kept_value_def Let_def)
    ultimately show ?thesis using Some by (simp add: ps getprop_def raw)
  qed
qed

text \<open>
  When the protocols arrive after the form has been opened, its fields start empty instead of with
  the values of the connection: saving then takes the values away.
\<close>

lemma late_schema_empties:
  assumes "distinct (map pf_key schema)" "schema \<noteq> []" "f \<in> set schema"
  shows "getprop (connection_params (Some schema) (initial_connection_form str None (Some c))) (pf_key f)
    = param_of_text (pf_type f) []"
  using assms(2) jget_foldl_fields [OF assms(1,3), of "\<lambda>f. param_of_text (pf_type f) []"]
  by (simp add: connection_params_def has_schema_def initial_connection_form_def buildParamsFromSchema_def
      field_raw_def getprop_def)

text \<open>In the form without a schema, a text that reads as a number becomes one.\<close>

lemma digits_become_number:
  assumes "Number_of s \<noteq> NaN" "trim s \<noteq> []" "cf_pairs f = [(k, s)]" "trim k = k" "k \<noteq> []"
  shows "getprop (connection_params None f) k = JNum (Number_of s)"
  using assms
  by (simp add: connection_params_def has_schema_def buildParamsFromKeyValues_def value_of_text_def getprop_def)

section \<open>Runs\<close>

definition host_field :: form_param where
  "host_field = \<lparr>pf_key = ''host'', pf_label = ''Host'', pf_type = TText, pf_required = True, pf_min = None,
     pf_max = None, pf_options = None, pf_pattern = None, pf_patternMessage = None,
     fp_default = JUndefined, fp_optionLabels = [], fp_description = None\<rparr>"

definition port_field :: form_param where
  "port_field = host_field\<lparr>pf_key := ''port'', pf_label := ''Port'', pf_type := TNumber, pf_required := False,
     pf_min := Some 1, pf_max := Some 65535, fp_default := JNum (Fin 502)\<rparr>"

definition demo_schema :: "form_param list" where
  "demo_schema = [host_field, port_field]"

definition demo_text :: "jsval \<Rightarrow> string" where
  "demo_text v = (if v = JNum (Fin 502) then ''502'' else ''1502'')"

definition demo_connection :: connection_config where
  "demo_connection = \<lparr>cfg_id = ''c'', cfg_type = ''modbus-tcp'', cfg_name = ''Press'',
     cfg_params = JObj [(''host'', JStr ''10.0.0.5''), (''old'', JBool True)], cfg_pollingIntervalMs = 1000,
     cfg_reconnectIntervalMs = 5000, cfg_enabled = True, cfg_createdAt = []\<rparr>"

definition demo_connection_form :: connection_form where
  "demo_connection_form = initial_connection_form demo_text (Some demo_schema) (Some demo_connection)"

lemma demo_form_fields: "cf_fields demo_connection_form = [(''host'', ''10.0.0.5''), (''port'', ''502'')]"
proof -
  have "cf_fields demo_connection_form = getInitialSchemaValues demo_text demo_schema (Some (entries_of (cfg_params demo_connection)))"
    by (simp add: demo_connection_form_def initial_connection_form_def has_schema_def demo_schema_def)
  also have "\<dots> = [(''host'', ''10.0.0.5''), (''port'', ''502'')]" by code_simp
  finally show ?thesis .
qed

lemma demo_number: "Number_of ''502'' = Fin 502"
  by (simp add: Number_of_def trim_def js_ws_def unsigned_decimal_def exponent_def pow10_def Let_def
      is_digit_def dec_val_def digit_val_def)

text \<open>A pattern that only the server looks at: the form sends the host, and it is refused.\<close>

lemma form_passes_check_witness:
  "let v = validateParams (\<lambda>_ _. False) (\<lambda>_. [])
       (copy_members (connection_params (Some [host_field\<lparr>pf_pattern := Some ''^plc''\<rparr>, port_field]) demo_connection_form))
       (map server_field [host_field\<lparr>pf_pattern := Some ''^plc''\<rparr>, port_field])
   in map fe_field (vr_errors v) = [''host''] \<and> \<not> vr_valid v"
proof -
  let ?schema = "[host_field\<lparr>pf_pattern := Some ''^plc''\<rparr>, port_field]"
  have d: "distinct (map pf_key ?schema)" by code_simp
  have m: "requiredMissing ?schema (cf_fields demo_connection_form) = None"
    unfolding demo_form_fields
    by (simp add: requiredMissing_def host_field_def port_field_def field_raw_def trim_def js_ws_def)
  have e: "list_all (\<lambda>p. entered p (field_raw (cf_fields demo_connection_form) (pf_key p))) ?schema"
    unfolding demo_form_fields
    by (simp add: host_field_def port_field_def field_raw_def entered_def demo_number
        in_range_def server_field_def param_field.truncate_def)
  have r: "filter (refused_field (\<lambda>_ _. False) (cf_fields demo_connection_form)) ?schema
      = [host_field\<lparr>pf_pattern := Some ''^plc''\<rparr>]"
    unfolding demo_form_fields
    by (simp add: refused_field_def host_field_def port_field_def field_raw_def)
  show ?thesis
    using form_passes_check [OF d m e, of "\<lambda>_ _. False" "\<lambda>_. []"] unfolding r
    by (simp add: Let_def host_field_def)
qed

lemma unchanged_form_keeps_params_witness:
  "getprop (connection_params (Some demo_schema) demo_connection_form) ''port'' = JNum (Fin 502)
   \<and> getprop (connection_params (Some demo_schema) demo_connection_form) ''old'' = JUndefined"
proof -
  have d: "distinct (map pf_key demo_schema)" "demo_schema \<noteq> []" by code_simp+
  have r: "list_all (\<lambda>f. readable demo_text f (getprop (entries_of (cfg_params demo_connection)) (pf_key f))
      \<and> readable demo_text f (fp_default f)) demo_schema"
    by (simp add: demo_schema_def host_field_def port_field_def readable_def demo_connection_def getprop_def
        entries_of_def demo_text_def demo_number)
  have k: "kept_value demo_text (entries_of (cfg_params demo_connection)) port_field = JNum (Fin 502)" by code_simp
  have f: "find (\<lambda>f. pf_key f = ''port'') demo_schema = Some port_field" "find (\<lambda>f. pf_key f = ''old'') demo_schema = None"
    by code_simp+
  from unchanged_form_keeps_params [OF d r, of "''port''"] unchanged_form_keeps_params [OF d r, of "''old''"]
  show ?thesis by (simp add: f k demo_connection_form_def)
qed

end
