(* ===== verification/ConnectorScreens.thy ===== *)
theory ConnectorScreens
  imports ConnectionForm SpaceTree
begin

text \<open>
  \<open>web/src/screens/connectors/\<close>: the list of connections with its cards, the table of a connection's
  mappings, the choice of a protocol, and import and export as CSV. Connections, mappings, statuses
  and values are the records of the server's model, as its answers list them. A variable a mapping
  may refer to is its id with the path \<open>useNodePaths.ts\<close> computes for it.
\<close>

section \<open>Paths of variables\<close>

text \<open>\<open>walk\<close>: the paths of the containers of a namespace, by id.\<close>

fun walk_paths :: "string \<Rightarrow> obj_tree list \<Rightarrow> string \<Rightarrow> (string, string) jmap \<Rightarrow> (string, string) jmap" where
  "walk_paths ns [] pre m = m"
| "walk_paths ns (ObjTree r cs # ts) pre m =
     (let p = (if pre \<noteq> [] then pre @ '' / '' @ on_name r else on_name r)
      in walk_paths ns ts pre (walk_paths ns cs p (jset m (on_id r) (ns @ '' / '' @ p))))"

text \<open>The trees are fetched one after the other; one that cannot be fetched is left out.\<close>

definition object_paths_map ::
  "(string \<Rightarrow> obj_tree list option) \<Rightarrow> namespace_row list \<Rightarrow> (string, string) jmap" where
  "object_paths_map fetch nss =
     foldl (\<lambda>m ns. case fetch (ns_id ns) of None \<Rightarrow> m | Some ts \<Rightarrow> walk_paths (ns_name ns) ts [] m) [] nss"

definition getNodePath :: "namespace_row list \<Rightarrow> (string, string) jmap \<Rightarrow> node_row \<Rightarrow> string" where
  "getNodePath nss paths n =
     (let nsName = (case find (\<lambda>ns. ns_id ns = nd_namespace n) nss of None \<Rightarrow> [] | Some ns \<Rightarrow> ns_name ns) in
      case (if truthy_str (nd_object n) then jget paths (the (nd_object n)) else None) of
        None \<Rightarrow> nsName @ '' / '' @ nd_name n
      | Some op \<Rightarrow> (if op \<noteq> [] then op else nsName) @ '' / '' @ nd_name n)"

section \<open>The table of mappings\<close>

record mapping_table =
  mt_newNodeId :: string
  mt_newDeviceAddress :: string
  mt_isAdding :: bool
  mt_addError :: string
  mt_editingId :: "string option"
  mt_editNodeId :: string
  mt_editDeviceAddress :: string
  mt_isUpdating :: bool
  mt_deleteConfirmId :: "string option"

definition new_mapping_table :: mapping_table where
  "new_mapping_table =
     \<lparr>mt_newNodeId = [], mt_newDeviceAddress = [], mt_isAdding = False, mt_addError = [],
      mt_editingId = None, mt_editNodeId = [], mt_editDeviceAddress = [], mt_isUpdating = False,
      mt_deleteConfirmId = None\<rparr>"

datatype mapping_table_event =
    NewAddressTyped string
  | NewNodeChosen string
  | MappingAdd
  | MappingAdded
  | MappingNotAdded call_error
  | EditStarted mapping
  | EditCancelled
  | EditAddressTyped string
  | EditNodeChosen string
  | MappingSave
  | MappingSaved
  | MappingNotSaved call_error
  | RemoveRequested string
  | RemoveConfirmed
  | RemoveCancelled

datatype mapping_report = OnAddMapping jsval | OnUpdateMapping string jsval | OnRemoveMapping string

definition new_mapping_data :: "string \<Rightarrow> mapping_table \<Rightarrow> jsval" where
  "new_mapping_data connectionId t =
     JObj [(''connectionId'', JStr connectionId), (''nodeId'', or_undefined (mt_newNodeId t)),
           (''deviceAddress'', JStr (trim (mt_newDeviceAddress t)))]"

definition mapping_update_data :: "mapping_table \<Rightarrow> jsval" where
  "mapping_update_data t =
     JObj [(''nodeId'', or_undefined (mt_editNodeId t)),
           (''deviceAddress'', JStr (trim (mt_editDeviceAddress t)))]"

definition end_edit :: "mapping_table \<Rightarrow> mapping_table" where
  "end_edit t = t\<lparr>mt_editingId := None, mt_editNodeId := [], mt_editDeviceAddress := []\<rparr>"

fun mapping_table_step ::
  "string \<Rightarrow> mapping_table_event \<Rightarrow> mapping_table \<Rightarrow> mapping_table \<times> mapping_report effect list" where
  "mapping_table_step c (NewAddressTyped v) t = (t\<lparr>mt_newDeviceAddress := v\<rparr>, [])"
| "mapping_table_step c (NewNodeChosen v) t = (t\<lparr>mt_newNodeId := v\<rparr>, [])"
| "mapping_table_step c MappingAdd t =
     (if trim (mt_newDeviceAddress t) = [] then (t, [])
      else (t\<lparr>mt_isAdding := True, mt_addError := []\<rparr>, [Emit (OnAddMapping (new_mapping_data c t))]))"
| "mapping_table_step c MappingAdded t =
     (t\<lparr>mt_newNodeId := [], mt_newDeviceAddress := [], mt_isAdding := False\<rparr>, [])"
| "mapping_table_step c (MappingNotAdded e) t =
     (t\<lparr>mt_addError := error_message e, mt_isAdding := False\<rparr>, [])"
| "mapping_table_step c (EditStarted m) t =
     (t\<lparr>mt_editingId := Some (map_id m),
        mt_editNodeId := (case map_nodeId m of None \<Rightarrow> [] | Some n \<Rightarrow> n),
        mt_editDeviceAddress := map_deviceAddress m\<rparr>, [])"
| "mapping_table_step c EditCancelled t = (end_edit t, [])"
| "mapping_table_step c (EditAddressTyped v) t = (t\<lparr>mt_editDeviceAddress := v\<rparr>, [])"
| "mapping_table_step c (EditNodeChosen v) t = (t\<lparr>mt_editNodeId := v\<rparr>, [])"
| "mapping_table_step c MappingSave t =
     (case mt_editingId t of
        None \<Rightarrow> (t, [])
      | Some i \<Rightarrow>
          if i = [] \<or> trim (mt_editDeviceAddress t) = [] then (t, [])
          else (t\<lparr>mt_isUpdating := True\<rparr>, [Emit (OnUpdateMapping i (mapping_update_data t))]))"
| "mapping_table_step c MappingSaved t = ((end_edit t)\<lparr>mt_isUpdating := False\<rparr>, [])"
| "mapping_table_step c (MappingNotSaved e) t =
     (t\<lparr>mt_addError := error_message e, mt_isUpdating := False\<rparr>, [])"
| "mapping_table_step c (RemoveRequested i) t = (t\<lparr>mt_deleteConfirmId := Some i\<rparr>, [])"
| "mapping_table_step c RemoveConfirmed t =
     (case mt_deleteConfirmId t of
        None \<Rightarrow> (t, [])
      | Some i \<Rightarrow> if i = [] then (t, []) else (t\<lparr>mt_deleteConfirmId := None\<rparr>, [Emit (OnRemoveMapping i)]))"
| "mapping_table_step c RemoveCancelled t = (t\<lparr>mt_deleteConfirmId := None\<rparr>, [])"

definition getValueForMapping :: "current_value list \<Rightarrow> mapping \<Rightarrow> current_value option" where
  "getValueForMapping vs m =
     find (\<lambda>v. cv_connectionId v = map_connectionId m \<and> cv_deviceAddress v = map_deviceAddress m) vs"

definition getNodeName :: "(string \<times> string) list \<Rightarrow> string option \<Rightarrow> string" where
  "getNodeName nodes i =
     (if \<not> truthy_str i then ''-''
      else case map_of nodes (the i) of None \<Rightarrow> the i | Some name \<Rightarrow> name)"

definition node_choices :: "(string \<times> string) list \<Rightarrow> (string \<times> string) list" where
  "node_choices nodes = ([], ''Select node...'') # nodes"

definition value_cell :: "(jsval \<Rightarrow> string) \<Rightarrow> current_value option \<Rightarrow> 'e ui" where
  "value_cell str v =
     (case v of
        None \<Rightarrow> Icon 0x2014
      | Some x \<Rightarrow> if cv_value x = JUndefined \<or> cv_value x = JNull then Icon 0x2014
                  else Text (as_text str (cv_value x)))"

definition quality_cell :: "current_value option \<Rightarrow> 'e ui" where
  "quality_cell v = (case v of None \<Rightarrow> Icon 0x2014 | Some x \<Rightarrow> Text (quality_text (cv_quality x)))"

definition mapping_row_view ::
  "(jsval \<Rightarrow> string) \<Rightarrow> current_value list \<Rightarrow> (string \<times> string) list \<Rightarrow> mapping_table \<Rightarrow> mapping
     \<Rightarrow> mapping_table_event ui" where
  "mapping_row_view str vs nodes t m =
     (if mt_editingId t = Some (map_id m) then
        Group [Input ''Edit device address'' (mt_editDeviceAddress t) False EditAddressTyped,
               Choice ''Edit mapped node'' (mt_editNodeId t) False (node_choices nodes) EditNodeChosen,
               loading_button ''Save mapping'' (trim (mt_editDeviceAddress t) = [] \<or> mt_isUpdating t)
                 (mt_isUpdating t) MappingSave,
               Button ''Cancel edit'' False EditCancelled]
      else let v = getValueForMapping vs m in
        Group [Text (map_deviceAddress m),
               Text (if truthy_str (map_nodeId m) then getNodeName nodes (map_nodeId m) else ''unmapped''),
               value_cell str v, quality_cell v,
               Button ''Edit mapping'' False (EditStarted m),
               Button ''Remove mapping'' False (RemoveRequested (map_id m))])"

definition mapping_table_view ::
  "(jsval \<Rightarrow> string) \<Rightarrow> mapping list \<Rightarrow> current_value list \<Rightarrow> (string \<times> string) list \<Rightarrow> mapping_table
     \<Rightarrow> mapping_table_event ui" where
  "mapping_table_view str ms vs nodes t =
     Group
       [Text (''Mappings ('' @ show_nat (length ms) @ '')''),
        only_if (mt_addError t \<noteq> []) (Text (mt_addError t)),
        only_if (ms = []) (Text ''No mappings configured. Use the row below to add one.''),
        Group (map (mapping_row_view str vs nodes t) ms),
        Input ''New mapping device address'' (mt_newDeviceAddress t) False NewAddressTyped,
        Choice ''Select OPC UA node for new mapping'' (mt_newNodeId t) False (node_choices nodes) NewNodeChosen,
        loading_button ''Add mapping'' (trim (mt_newDeviceAddress t) = [] \<or> mt_isAdding t) (mt_isAdding t) MappingAdd,
        confirm_dialog (truthy_str (mt_deleteConfirmId t)) ''Delete Mapping?''
          (''Delete mapping '' @ dquoted (case find (\<lambda>m. Some (map_id m) = mt_deleteConfirmId t) ms of
             None \<Rightarrow> ''undefined'' | Some m \<Rightarrow> map_deviceAddress m) @ ''?'')
          ''Confirm'' False RemoveConfirmed RemoveCancelled]"

section \<open>The card of a connection\<close>

definition PROTOCOL_BADGES :: "(string \<times> string \<times> string) list" where
  "PROTOCOL_BADGES =
     [(''s7'', ''S7'', ''blue''), (''modbus-tcp'', ''Modbus TCP'', ''green''),
      (''ethernet-ip'', ''EtherNet/IP'', ''yellow''), (''pccc'', ''PCCC'', ''gray'')]"

definition getProtocolBadge :: "string \<Rightarrow> string \<times> string" where
  "getProtocolBadge ty = (case map_of PROTOCOL_BADGES ty of None \<Rightarrow> (ty, ''gray'') | Some b \<Rightarrow> b)"

fun getStatusVariant :: "conn_state option \<Rightarrow> string" where
  "getStatusVariant (Some Connected) = ''green''"
| "getStatusVariant (Some ConnError) = ''red''"
| "getStatusVariant _ = ''gray''"

text \<open>The host, with its port unless that is one of the three usual ones; \<open>nt\<close> writes a number.\<close>

definition getConnectionHost :: "(rat \<Rightarrow> string) \<Rightarrow> (string \<times> jsval) list \<Rightarrow> string option" where
  "getConnectionHost nt ps =
     (case getprop ps ''host'' of
        JStr host \<Rightarrow>
          if trim host = [] then None
          else (case getprop ps ''port'' of
                  JNum (Fin q) \<Rightarrow>
                    Some (if q \<noteq> 502 \<and> q \<noteq> 44818 \<and> q \<noteq> 102 then host @ '':'' @ nt q else host)
                | _ \<Rightarrow> Some host)
      | _ \<Rightarrow> None)"

record connection_card =
  cc_expanded :: bool
  cc_isDeleteOpen :: bool
  cc_toggling :: bool

datatype connection_card_event =
    EnabledToggled
  | ToggleDone
  | ToggleFailed
  | CardExpanded
  | CardEdit
  | CardDelete
  | CardDeleteConfirmed
  | CardDeleteCancelled

datatype connection_card_report = OnEdit | OnDelete

definition toggle_data :: "connection_config \<Rightarrow> jsval" where
  "toggle_data c = JObj [(''enabled'', JBool (\<not> cfg_enabled c))]"

fun connection_card_step ::
  "connection_config \<Rightarrow> connection_card_event \<Rightarrow> connection_card
     \<Rightarrow> connection_card \<times> connection_card_report effect list" where
  "connection_card_step c EnabledToggled s =
     (s\<lparr>cc_toggling := True\<rparr>, [Send (OfConnectors (UpdateConnection (cfg_id c) (toggle_data c)))])"
| "connection_card_step c ToggleDone s = (s\<lparr>cc_toggling := False\<rparr>, [Invalidate [''connectors-connections'']])"
| "connection_card_step c ToggleFailed s = (s\<lparr>cc_toggling := False\<rparr>, [])"
| "connection_card_step c CardExpanded s = (s\<lparr>cc_expanded := \<not> cc_expanded s\<rparr>, [])"
| "connection_card_step c CardEdit s = (s, [Emit OnEdit])"
| "connection_card_step c CardDelete s = (s\<lparr>cc_isDeleteOpen := True\<rparr>, [])"
| "connection_card_step c CardDeleteConfirmed s = (s\<lparr>cc_isDeleteOpen := False\<rparr>, [Emit OnDelete])"
| "connection_card_step c CardDeleteCancelled s = (s\<lparr>cc_isDeleteOpen := False\<rparr>, [])"

text \<open>
  The table of mappings, which is shown when the card is expanded, is a component of its own.
  Drawing the card throws where the parameters are \<open>null\<close>, whose host it reads.
\<close>

definition connection_card_view ::
  "(rat \<Rightarrow> string) \<Rightarrow> connection_config \<Rightarrow> connection_status option \<Rightarrow> mapping list \<Rightarrow> connection_card
     \<Rightarrow> string + connection_card_event ui" where
  "connection_card_view nt c status ms s =
     (let n = length ms in
      if cfg_params c = JNull then Inl null_params else Inr (Group
        [Text (cfg_name c),
         (case getConnectionHost nt (members (cfg_params c)) of None \<Rightarrow> nothing | Some h \<Rightarrow> Text h),
         Text (''Poll '' @ show_int (cfg_pollingIntervalMs c) @ ''ms''),
         only_if (n > 0) (Text (show_nat n @ '' mapping'' @ (if n \<noteq> 1 then ''s'' else []))),
         badge (snd (getProtocolBadge (cfg_type c))) (fst (getProtocolBadge (cfg_type c))),
         badge (getStatusVariant (map_option cs_state status))
           (case status of None \<Rightarrow> ''disconnected'' | Some st \<Rightarrow> state_text (cs_state st)),
         (case status of None \<Rightarrow> nothing
          | Some st \<Rightarrow> only_if (truthy_str (cs_errorMessage st)) (Text (the (cs_errorMessage st)))),
         Checkbox ''Enable connection'' (cfg_enabled c) (cc_toggling s) EnabledToggled,
         loading_button (if cc_expanded s then ''Collapse mappings'' else ''Expand mappings'') False False CardExpanded,
         loading_button ''Edit'' False False CardEdit,
         loading_button ''Delete'' False False CardDelete,
         confirm_dialog (cc_isDeleteOpen s) (''Delete '' @ dquoted (cfg_name c) @ ''?'')
           ''Delete this connection and all its mappings? This cannot be undone.'' ''Confirm'' False
           CardDeleteConfirmed CardDeleteCancelled]))"

section \<open>All connections\<close>

definition PROTOCOL_TABS :: "(string \<times> string) list" where
  "PROTOCOL_TABS =
     [(''All'', []), (''S7'', ''s7''), (''Modbus TCP'', ''modbus-tcp''), (''EtherNet/IP'', ''ethernet-ip''),
      (''PCCC'', ''pccc'')]"

record connectors_manager =
  cm_filter :: string
  cm_showProtocolSelector :: bool
  cm_selectedProtocol :: "string option"
  cm_editingConnection :: "connection_config option"
  cm_submitting :: bool

definition new_connectors_manager :: connectors_manager where
  "new_connectors_manager =
     \<lparr>cm_filter = [], cm_showProtocolSelector = False, cm_selectedProtocol = None,
      cm_editingConnection = None, cm_submitting = False\<rparr>"

datatype connectors_event =
    FilterChosen string
  | NewPressed
  | ProtocolSelected string
  | ConnectionFormDone connection_form_report
  | ConnectionSaved
  | ConnectionNotSaved
  | ConnectionEdit connection_config
  | ConnectionDelete string
  | ConnectionDeleted
  | MappingReport mapping_report
  | MappingsChanged

definition cm_resetForm :: "connectors_manager \<Rightarrow> connectors_manager" where
  "cm_resetForm s =
     s\<lparr>cm_showProtocolSelector := False, cm_selectedProtocol := None, cm_editingConnection := None\<rparr>"

definition handleCreateOrUpdate :: "jsval \<Rightarrow> connectors_manager \<Rightarrow> client_call" where
  "handleCreateOrUpdate data s =
     OfConnectors (case cm_editingConnection s of
        Some c \<Rightarrow> UpdateConnection (cfg_id c) data
      | None \<Rightarrow> CreateConnection data)"

fun mapping_call :: "mapping_report \<Rightarrow> connectors_call" where
  "mapping_call (OnAddMapping v) = CreateMapping v"
| "mapping_call (OnUpdateMapping i v) = UpdateMapping i v"
| "mapping_call (OnRemoveMapping i) = DeleteMapping i"

fun connectors_step ::
  "connectors_event \<Rightarrow> connectors_manager \<Rightarrow> connectors_manager \<times> unit effect list" where
  "connectors_step (FilterChosen v) s = (s\<lparr>cm_filter := v\<rparr>, [])"
| "connectors_step NewPressed s =
     (if cm_showProtocolSelector s then cm_resetForm s else s\<lparr>cm_showProtocolSelector := True\<rparr>, [])"
| "connectors_step (ProtocolSelected ty) s = (s\<lparr>cm_selectedProtocol := Some ty\<rparr>, [])"
| "connectors_step (ConnectionFormDone (ConnData v)) s =
     (s\<lparr>cm_submitting := True\<rparr>, [Send (handleCreateOrUpdate v s)])"
| "connectors_step (ConnectionFormDone ConnFormCancelled) s = (cm_resetForm s, [])"
| "connectors_step ConnectionSaved s =
     ((cm_resetForm s)\<lparr>cm_submitting := False\<rparr>, [Invalidate [''connectors-connections'']])"
| "connectors_step ConnectionNotSaved s = (s\<lparr>cm_submitting := False\<rparr>, [])"
| "connectors_step (ConnectionEdit c) s =
     (s\<lparr>cm_editingConnection := Some c, cm_selectedProtocol := Some (cfg_type c),
        cm_showProtocolSelector := True\<rparr>, [])"
| "connectors_step (ConnectionDelete i) s = (s, [Send (OfConnectors (connectors_call.DeleteConnection i))])"
| "connectors_step ConnectionDeleted s =
     (s, [Invalidate [''connectors-connections''], Invalidate [''connectors-mappings'']])"
| "connectors_step (MappingReport r) s = (s, [Send (OfConnectors (mapping_call r))])"
| "connectors_step MappingsChanged s = (s, [Invalidate [''connectors-mappings'']])"

text \<open>The form that is shown, with the type and the connection it is opened for.\<close>

definition shown_form :: "connectors_manager \<Rightarrow> (string \<times> connection_config option) option" where
  "shown_form s =
     (if cm_selectedProtocol s \<noteq> None \<or> cm_editingConnection s \<noteq> None
      then Some (case cm_selectedProtocol s of Some ty \<Rightarrow> ty | None \<Rightarrow> cfg_type (the (cm_editingConnection s)),
                 cm_editingConnection s)
      else None)"

definition selector_shown :: "connectors_manager \<Rightarrow> bool" where
  "selector_shown s \<longleftrightarrow>
     cm_showProtocolSelector s \<and> cm_selectedProtocol s = None \<and> cm_editingConnection s = None"

text \<open>The choice of a protocol, from a query that may be loading or have failed.\<close>

record protocol_choice =
  pc_type :: string
  pc_displayName :: string
  pc_schema :: "form_param list"

fun protocol_selector :: "protocol_choice list query_data \<Rightarrow> connectors_event ui" where
  "protocol_selector QueryLoading = Group [Text ''Select Protocol'', Text ''Loading available protocols'']"
| "protocol_selector (QueryFailed _) =
     Group [Text ''Select Protocol'', Text ''Failed to load protocols. Please try again.'',
            loading_button ''Cancel'' False False (ConnectionFormDone ConnFormCancelled)]"
| "protocol_selector (QueryData ps) =
     Group (Text ''Select Protocol''
       # map (\<lambda>p. Button (pc_displayName p) False (ProtocolSelected (pc_type p))) ps
       @ [loading_button ''Cancel'' False False (ConnectionFormDone ConnFormCancelled)])"

text \<open>The schema the form is given: that of the protocol, if the protocols are there.\<close>

definition form_schema :: "protocol_choice list \<Rightarrow> string \<Rightarrow> form_param list option" where
  "form_schema ps ty = map_option pc_schema (find (\<lambda>p. pc_type p = ty) ps)"

text \<open>The cards and the form are components of their own; what they report are events here.\<close>

definition connectors_view ::
  "connection_config list query_data \<Rightarrow> protocol_choice list query_data \<Rightarrow> connectors_manager
     \<Rightarrow> connectors_event ui" where
  "connectors_view conns protocols s =
     (case conns of
        QueryLoading \<Rightarrow> Group [Text ''Loading connections...'']
      | _ \<Rightarrow>
          let cs = (case conns of QueryData cs \<Rightarrow> cs | _ \<Rightarrow> []) in
          Group
            [Text ''Connectors'',
             Group (map (\<lambda>(label, v). Button label False (FilterChosen v)) PROTOCOL_TABS),
             loading_button (if cm_showProtocolSelector s then ''Cancel'' else ''+ New Connection'') False False NewPressed,
             only_if (selector_shown s) (protocol_selector protocols),
             (if cs = [] \<and> \<not> cm_showProtocolSelector s then
                Group [Text ''No connections configured'', loading_button ''+ New Connection'' False False NewPressed]
              else Group (map (\<lambda>c. Group [Text (cfg_name c),
                     Button ''Edit'' False (ConnectionEdit c),
                     Button ''Delete'' False (ConnectionDelete (cfg_id c))]) cs))])"

section \<open>Import and export\<close>

record import_row =
  ir_row :: nat
  ir_success :: bool
  ir_label :: string
  ir_error :: string

record import_result =
  im_total :: nat
  im_succeeded :: nat
  im_failed :: nat
  im_results :: "import_row list"

record csv_panel =
  cp_isExporting :: bool
  cp_isImporting :: bool
  cp_importResult :: "import_result option"
  cp_importError :: string

datatype csv_event =
    ExportPressed
  | ExportDone string
  | ExportFailed call_error
  | FileChosen string
  | ImportDone import_result
  | ImportFailed call_error
  | ResultDismissed
  | ErrorDismissed

datatype csv_report = Download string string | OnImportComplete

text \<open>The mappings; the same panel serves the variables, with other calls and another file name.\<close>

fun csv_step ::
  "client_call \<Rightarrow> (string \<Rightarrow> client_call) \<Rightarrow> string \<Rightarrow> csv_event \<Rightarrow> csv_panel \<Rightarrow> csv_panel \<times> csv_report effect list" where
  "csv_step export import' file ExportPressed s = (s\<lparr>cp_isExporting := True\<rparr>, [Send export])"
| "csv_step export import' file (ExportDone csv) s = (s\<lparr>cp_isExporting := False\<rparr>, [Emit (Download csv file)])"
| "csv_step export import' file (ExportFailed e) s =
     (s\<lparr>cp_isExporting := False\<rparr>, [MessageBox (''Export failed: '' @ error_message e)])"
| "csv_step export import' file (FileChosen content) s =
     (s\<lparr>cp_isImporting := True, cp_importResult := None, cp_importError := []\<rparr>, [Send (import' content)])"
| "csv_step export import' file (ImportDone r) s =
     (s\<lparr>cp_isImporting := False, cp_importResult := Some r\<rparr>, [Emit OnImportComplete])"
| "csv_step export import' file (ImportFailed e) s =
     (s\<lparr>cp_isImporting := False, cp_importError := error_message e\<rparr>, [])"
| "csv_step export import' file ResultDismissed s = (s\<lparr>cp_importResult := None\<rparr>, [])"
| "csv_step export import' file ErrorDismissed s = (s\<lparr>cp_importError := []\<rparr>, [])"

definition import_line :: "import_row \<Rightarrow> string" where
  "import_line r = ''Row '' @ show_nat (ir_row r) @ (if ir_label r \<noteq> [] then '' ('' @ ir_label r @ '')'' else [])
     @ '': '' @ ir_error r"

definition import_alert :: "import_result \<Rightarrow> csv_event ui" where
  "import_alert r =
     alert (if im_failed r > 0 then ''warning'' else ''success'')
       [Text (''Import complete: '' @ show_nat (im_succeeded r) @ '' succeeded, '' @ show_nat (im_failed r)
          @ '' failed out of '' @ show_nat (im_total r) @ '' rows.''),
        only_if (im_failed r > 0) (Group (map (\<lambda>x. Text (import_line x)) (filter (\<lambda>x. \<not> ir_success x) (im_results r))))]
       (Some ResultDismissed)"

definition csv_view :: "csv_panel \<Rightarrow> csv_event ui" where
  "csv_view s =
     Group
       [loading_button (if cp_isExporting s then ''Exporting...'' else ''Export CSV'') (cp_isExporting s) False ExportPressed,
        file_button (if cp_isImporting s then ''Importing...'' else ''Import CSV'') (cp_isImporting s) FileChosen,
        (case cp_importResult s of None \<Rightarrow> nothing | Some r \<Rightarrow> import_alert r),
        only_if (cp_importError s \<noteq> []) (alert ''error'' [Text (cp_importError s)] (Some ErrorDismissed))]"

definition csv_import_export :: "csv_event \<Rightarrow> csv_panel \<Rightarrow> csv_panel \<times> csv_report effect list" where
  "csv_import_export =
     csv_step (OfConnectors ExportConnectorMappingsCsv) (\<lambda>csv. OfConnectors (ImportConnectorMappingsCsv csv))
       ''connector-mappings.csv''"

section \<open>What the screens keep\<close>

text \<open>
  The form that is shown is of the protocol of the connection it changes, and as long as there is
  one the button at the top closes it.
\<close>

definition manager_ok :: "connectors_manager \<Rightarrow> bool" where
  "manager_ok s \<longleftrightarrow>
     (cm_selectedProtocol s \<noteq> None \<longrightarrow> cm_showProtocolSelector s) \<and>
     (case cm_editingConnection s of None \<Rightarrow> True | Some c \<Rightarrow> cm_selectedProtocol s = Some (cfg_type c))"

text \<open>What can happen in a state: the selector only offers protocols while it is shown.\<close>

definition connectors_can :: "connectors_event \<Rightarrow> connectors_manager \<Rightarrow> bool" where
  "connectors_can e s \<longleftrightarrow>
     (case e of
        ProtocolSelected _ \<Rightarrow> selector_shown s
      | ConnectionFormDone (ConnData _) \<Rightarrow> shown_form s \<noteq> None
      | _ \<Rightarrow> True)"

inductive connectors_reach :: "connectors_manager \<Rightarrow> bool" where
  start: "connectors_reach new_connectors_manager"
| step: "connectors_reach s \<Longrightarrow> connectors_can e s \<Longrightarrow> connectors_reach (fst (connectors_step e s))"

lemma manager_step: "manager_ok s \<Longrightarrow> connectors_can e s \<Longrightarrow> manager_ok (fst (connectors_step e s))"
  by (cases "(e, s)" rule: connectors_step.cases)
    (auto simp: manager_ok_def connectors_can_def cm_resetForm_def selector_shown_def split: option.splits)

lemma manager_reach: "connectors_reach s \<Longrightarrow> manager_ok s"
  by (induction rule: connectors_reach.induct)
    (simp_all add: manager_step, simp add: manager_ok_def new_connectors_manager_def)

text \<open>In every state the screen of the connections can reach, at most one of the choice of a protocol
  and the form is shown, a form for a connection is of that connection's protocol, and what it
  submits is sent as a change of the connection it was opened for, or as a new connection if it
  was opened for none; closing it leaves nothing of it behind.\<close>

lemma form_submits_for_its_connection:
  assumes "connectors_reach s" "shown_form s = Some (ty, editing)"
  shows "\<not> selector_shown s \<and> cm_showProtocolSelector s
    \<and> (case editing of None \<Rightarrow> True | Some c \<Rightarrow> ty = cfg_type c)
    \<and> snd (connectors_step (ConnectionFormDone (ConnData v)) s) =
        [Send (OfConnectors (case editing of None \<Rightarrow> CreateConnection v | Some c \<Rightarrow> UpdateConnection (cfg_id c) v))]
    \<and> shown_form (fst (connectors_step NewPressed s)) = None"
  using manager_reach [OF assms(1)] assms(2)
  by (auto simp: shown_form_def selector_shown_def manager_ok_def handleCreateOrUpdate_def cm_resetForm_def
      split: option.splits if_splits)

lemma form_submits_for_its_connection_witness:
  "let s = fst (connectors_step (ConnectionEdit demo_connection) new_connectors_manager) in
     shown_form s = Some (''modbus-tcp'', Some demo_connection)
   \<and> snd (connectors_step (ConnectionFormDone (ConnData JNull)) s) =
       [Send (OfConnectors (UpdateConnection ''c'' JNull))]"
proof -
  let ?s = "fst (connectors_step (ConnectionEdit demo_connection) new_connectors_manager)"
  have r: "connectors_reach ?s"
    by (rule connectors_reach.step [OF connectors_reach.start]) (simp add: connectors_can_def)
  have f: "shown_form ?s = Some (''modbus-tcp'', Some demo_connection)"
    by (simp add: shown_form_def demo_connection_def)
  from form_submits_for_its_connection [OF r f, of JNull] f show ?thesis
    by (simp add: Let_def demo_connection_def del: connectors_step.simps)
qed

text \<open>
  The end of an earlier request closes whatever form is open by then: a form that was cancelled
  while its request was under way, and the next one, share the same callback.
\<close>

lemma late_answer_closes_form: "shown_form (fst (connectors_step ConnectionSaved s)) = None"
  by (simp add: shown_form_def cm_resetForm_def)

lemma late_answer_ends_edit: "mt_editingId (fst (mapping_table_step c MappingSaved t)) = None"
  by (simp add: end_edit_def)

section \<open>Changing a mapping\<close>

text \<open>Saving the row of a mapping stores the address and the variable it shows; but the choice of no
  variable is not sent, so the mapping keeps the variable it has: a mapping cannot be taken off
  its variable in the web interface, although the server would accept it.\<close>

lemma mapping_edit_stores:
  assumes "mt_editingId t = Some i" "i \<noteq> []" "trim (mt_editDeviceAddress t) \<noteq> []"
  shows "snd (mapping_table_step c MappingSave t) = [Emit (OnUpdateMapping i (mapping_update_data t))] \<and>
    (\<exists>r. update_mapping_request_of (json_copy (mapping_update_data t)) = Some r \<and>
       set_mapping r m =
         m\<lparr>map_deviceAddress := trim (mt_editDeviceAddress t),
           map_nodeId := (if mt_editNodeId t = [] then map_nodeId m else Some (mt_editNodeId t))\<rparr>)"
  using assms
  by (cases "mt_editNodeId t = []")
    (simp_all add: mapping_update_data_def update_mapping_request_of_def or_undefined_def optional_text_def
      nullable_text_def getprop_def set_mapping_def upd_def)

definition edited_mapping :: mapping where
  "edited_mapping = \<lparr>map_id = ''m'', map_connectionId = ''c'', map_nodeId = Some ''v'',
     map_deviceAddress = ''HR:1:1'', map_description = None, map_createdAt = []\<rparr>"

definition demo_edit :: mapping_table where
  "demo_edit = fst (mapping_table_step ''c'' (EditNodeChosen []) (fst (mapping_table_step ''c''
     (EditAddressTyped ''HR:2:1'') (fst (mapping_table_step ''c'' (EditStarted edited_mapping) new_mapping_table)))))"

lemma mapping_edit_stores_witness:
  "\<exists>r. update_mapping_request_of (json_copy (mapping_update_data demo_edit)) = Some r
     \<and> map_nodeId (set_mapping r edited_mapping) = Some ''v'' \<and> map_deviceAddress (set_mapping r edited_mapping) = ''HR:2:1''"
proof -
  have e: "mt_editingId demo_edit = Some ''m''" "mt_editNodeId demo_edit = []" "trim (mt_editDeviceAddress demo_edit) = ''HR:2:1''"
    by code_simp+
  from mapping_edit_stores [of demo_edit "''m''" c edited_mapping] show ?thesis
    by (auto simp: e) (simp add: edited_mapping_def)
qed

end
