(* ===== verification/SpaceScreens.thy ===== *)
theory SpaceScreens
  imports ConnectorScreens
begin

text \<open>
  \<open>web/src/screens/address-space/NamespaceManager.tsx\<close> and \<open>AddressSpaceSection.tsx\<close>: the list of
  namespaces with its form, and the screen that puts it together with the tree, the details of a
  variable, the form of variables and the import and export. A namespace is one of the server's
  model, with its number of variables.
\<close>

section \<open>Namespaces\<close>

record namespace_manager =
  nm_showForm :: bool
  nm_editing :: "namespace option"
  nm_deleteConfirmId :: "string option"
  nm_name :: string
  nm_description :: string
  nm_uri :: string
  nm_fieldErrors :: "(string, string) jmap"
  nm_generalError :: string
  nm_creating :: bool
  nm_updating :: bool
  nm_deleting :: bool

definition new_namespace_manager :: namespace_manager where
  "new_namespace_manager =
     \<lparr>nm_showForm = False, nm_editing = None, nm_deleteConfirmId = None, nm_name = [],
      nm_description = [], nm_uri = [], nm_fieldErrors = [], nm_generalError = [],
      nm_creating = False, nm_updating = False, nm_deleting = False\<rparr>"

datatype namespace_event =
    NsStartCreate
  | NsStartEdit namespace
  | NsNameTyped string
  | NsUriTyped string
  | NsDescriptionTyped string
  | NsSubmitted
  | NsCreated
  | NsNotCreated call_error
  | NsUpdated
  | NsNotUpdated call_error
  | NsCancelled
  | NsDeleteAsked string
  | NsDeleteCancelled
  | NsDeleteConfirmed
  | NsDeleted
  | NsNotDeleted call_error

definition set_namespace_form :: "string \<Rightarrow> string \<Rightarrow> string \<Rightarrow> namespace_manager \<Rightarrow> namespace_manager" where
  "set_namespace_form name desc uri s =
     s\<lparr>nm_name := name, nm_description := desc, nm_uri := uri, nm_fieldErrors := [], nm_generalError := []\<rparr>"

definition nm_resetForm :: "namespace_manager \<Rightarrow> namespace_manager" where
  "nm_resetForm s = (set_namespace_form [] [] [] s)\<lparr>nm_showForm := False, nm_editing := None\<rparr>"

definition startCreate :: "namespace_manager \<Rightarrow> namespace_manager" where
  "startCreate s = (set_namespace_form [] [] [] s)\<lparr>nm_editing := None, nm_showForm := True\<rparr>"

definition startEdit :: "namespace \<Rightarrow> namespace_manager \<Rightarrow> namespace_manager" where
  "startEdit n s =
     (set_namespace_form (ns_name (nsp_row n))
        (case ns_description (nsp_row n) of None \<Rightarrow> [] | Some d \<Rightarrow> d) (ns_uri (nsp_row n)) s)
     \<lparr>nm_editing := Some n, nm_showForm := True\<rparr>"

definition namespace_form_errors :: "namespace_manager \<Rightarrow> (string, string) jmap" where
  "namespace_form_errors s =
     (if trim (nm_name s) = [] then [(''name'', ''Name is required'')] else []) @
     (if trim (nm_uri s) = [] then [(''uri'', ''URI is required'')] else [])"

text \<open>What a new namespace and a change are sent as.\<close>

definition namespace_data :: "namespace_manager \<Rightarrow> jsval" where
  "namespace_data s =
     JObj [(''name'', JStr (trim (nm_name s))), (''description'', or_undefined (trim (nm_description s))),
           (''uri'', JStr (trim (nm_uri s)))]"

definition namespace_submit :: "namespace_manager \<Rightarrow> namespace_manager \<times> unit effect list" where
  "namespace_submit s =
     (let s1 = s\<lparr>nm_fieldErrors := namespace_form_errors s, nm_generalError := []\<rparr> in
      if namespace_form_errors s \<noteq> [] then (s1, [])
      else case nm_editing s1 of
        Some n \<Rightarrow> (s1\<lparr>nm_updating := True\<rparr>,
                   [Send (OfNamespaces (UpdateNamespace (ns_id (nsp_row n)) (namespace_data s1)))])
      | None \<Rightarrow> (s1\<lparr>nm_creating := True\<rparr>, [Send (OfNamespaces (CreateNamespace (namespace_data s1)))]))"

definition namespace_refused :: "call_error \<Rightarrow> namespace_manager \<Rightarrow> namespace_manager" where
  "namespace_refused e s =
     (let (fields, general) = handleApiError e (nm_fieldErrors s, nm_generalError s)
      in s\<lparr>nm_fieldErrors := fields, nm_generalError := general\<rparr>)"

fun namespace_step ::
  "namespace_event \<Rightarrow> namespace_manager \<Rightarrow> namespace_manager \<times> unit effect list" where
  "namespace_step NsStartCreate s = (startCreate s, [])"
| "namespace_step (NsStartEdit n) s = (startEdit n s, [])"
| "namespace_step (NsNameTyped v) s = (s\<lparr>nm_name := v\<rparr>, [])"
| "namespace_step (NsUriTyped v) s = (s\<lparr>nm_uri := v\<rparr>, [])"
| "namespace_step (NsDescriptionTyped v) s = (s\<lparr>nm_description := v\<rparr>, [])"
| "namespace_step NsSubmitted s = namespace_submit s"
| "namespace_step NsCreated s = ((nm_resetForm s)\<lparr>nm_creating := False\<rparr>, [Invalidate [''namespaces'']])"
| "namespace_step (NsNotCreated e) s = ((namespace_refused e s)\<lparr>nm_creating := False\<rparr>, [])"
| "namespace_step NsUpdated s = ((nm_resetForm s)\<lparr>nm_updating := False\<rparr>, [Invalidate [''namespaces'']])"
| "namespace_step (NsNotUpdated e) s = ((namespace_refused e s)\<lparr>nm_updating := False\<rparr>, [])"
| "namespace_step NsCancelled s = (nm_resetForm s, [])"
| "namespace_step (NsDeleteAsked i) s = (s\<lparr>nm_deleteConfirmId := Some i\<rparr>, [])"
| "namespace_step NsDeleteCancelled s = (s\<lparr>nm_deleteConfirmId := None\<rparr>, [])"
| "namespace_step NsDeleteConfirmed s =
     (if truthy_str (nm_deleteConfirmId s)
      then (s\<lparr>nm_deleting := True\<rparr>, [Send (OfNamespaces (namespaces_call.DeleteNamespace (the (nm_deleteConfirmId s))))])
      else (s, []))"
| "namespace_step NsDeleted s =
     (s\<lparr>nm_deleting := False, nm_deleteConfirmId := None\<rparr>, [Invalidate [''namespaces''], Invalidate [''nodes'']])"
| "namespace_step (NsNotDeleted e) s =
     (s\<lparr>nm_deleting := False, nm_generalError := error_text ''Failed to delete namespace'' e,
        nm_deleteConfirmId := None\<rparr>, [])"

definition namespace_entry :: "namespace \<Rightarrow> namespace_event ui" where
  "namespace_entry n =
     (let r = nsp_row n; k = (case nsp_nodeCount n of None \<Rightarrow> 0 | Some k \<Rightarrow> k) in
      Group [Text (ns_name r), Text (ns_uri r),
        only_if (truthy_str (ns_description r)) (Text (case ns_description r of None \<Rightarrow> [] | Some d \<Rightarrow> d)),
        Text (show_nat k @ '' node'' @ (if k \<noteq> 1 then ''s'' else [])),
        Button ''Edit'' False (NsStartEdit n), Button ''Delete'' False (NsDeleteAsked (ns_id r))])"

definition namespace_form_view :: "namespace_manager \<Rightarrow> namespace_event ui" where
  "namespace_form_view s =
     (let err = jget (nm_fieldErrors s); busy = nm_creating s \<or> nm_updating s in
      Form (if nm_editing s \<noteq> None then ''Edit Namespace'' else ''New Namespace'') NsSubmitted
        [only_if (nm_generalError s \<noteq> []) (alert ''error'' [Text (nm_generalError s)] None),
         form_field ''ns-name'' ''Name'' True (err ''name'') None [Input ''ns-name'' (nm_name s) False NsNameTyped],
         form_field ''ns-uri'' ''URI'' True (err ''uri'') None [Input ''ns-uri'' (nm_uri s) False NsUriTyped],
         form_field ''ns-description'' ''Description'' False (err ''description'') None
           [Input ''ns-description'' (nm_description s) False NsDescriptionTyped],
         loading_button (if nm_editing s \<noteq> None then ''Update Namespace'' else ''Create Namespace'') False busy
           NsSubmitted,
         loading_button ''Cancel'' busy False NsCancelled])"

fun namespace_manager_view :: "namespace list query_data \<Rightarrow> namespace_manager \<Rightarrow> namespace_event ui" where
  "namespace_manager_view QueryLoading s = Text ''Loading namespaces...''"
| "namespace_manager_view q s =
     (let ns = (case q of QueryData ns \<Rightarrow> ns | _ \<Rightarrow> []);
          target = find (\<lambda>n. Some (ns_id (nsp_row n)) = nm_deleteConfirmId s) ns in
      Group
        [Text ''Namespaces'',
         only_if (\<not> nm_showForm s) (Button ''Add Namespace'' False NsStartCreate),
         only_if (nm_generalError s \<noteq> [] \<and> \<not> nm_showForm s) (alert ''error'' [Text (nm_generalError s)] None),
         only_if (ns = [] \<and> \<not> nm_showForm s) (Text ''No namespaces defined yet.''),
         Group (map namespace_entry ns),
         confirm_dialog (truthy_str (nm_deleteConfirmId s)) ''Delete this namespace?''
           (''This will permanently delete '' @ dquoted (case target of None \<Rightarrow> [] | Some n \<Rightarrow> ns_name (nsp_row n))
             @ '' and all its object nodes and variable nodes. This action cannot be undone.'')
           (if nm_deleting s then ''Deleting...'' else ''Yes, Delete'') (nm_deleting s) NsDeleteConfirmed NsDeleteCancelled,
         only_if (nm_showForm s) (namespace_form_view s)])"

section \<open>The screen\<close>

text \<open>
  The form of variables takes its state when it appears; it is kept here while it is shown. So is
  the menu beside the button for a new variable, which is there when the form is not.
\<close>

record space_section =
  as_selected :: "selected_node option"
  as_showNodeForm :: bool
  as_editing :: "selected_node option"
  as_showDeleteConfirm :: bool
  as_deleting :: bool
  as_csv :: csv_panel
  as_menu :: bool
  as_form :: node_form

definition form_shown :: "space_section \<Rightarrow> bool" where
  "form_shown s \<longleftrightarrow> as_showNodeForm s \<or> as_editing s \<noteq> None"

definition new_csv_panel :: csv_panel where
  "new_csv_panel =
     \<lparr>cp_isExporting = False, cp_isImporting = False, cp_importResult = None, cp_importError = []\<rparr>"

definition new_space_section :: "(jsval \<Rightarrow> string) \<Rightarrow> space_section" where
  "new_space_section str =
     \<lparr>as_selected = None, as_showNodeForm = False, as_editing = None, as_showDeleteConfirm = False,
      as_deleting = False, as_csv = new_csv_panel, as_menu = False, as_form = initial_node_form str None\<rparr>"

text \<open>A form that is no longer shown still reports when its variable has been saved.\<close>

datatype section_event =
    NodeSelected selected_node
  | EditPressed
  | DeletePressed
  | DeleteAgreedTo
  | DeleteDismissed
  | NodeDeleted
  | NodeNotDeleted
  | CreateVariablePressed
  | CreateObjectPressed
  | MenuToggled
  | FormEvent node_form_event
  | EarlierFormSaved
  | CsvEvent csv_event
  | TextCopied string

definition edited :: "space_section \<Rightarrow> node_row option" where
  "edited s = map_option se_node (as_editing s)"

text \<open>What appears or goes when the condition of the form has changed.\<close>

definition remount :: "(jsval \<Rightarrow> string) \<Rightarrow> space_section \<Rightarrow> space_section \<Rightarrow> space_section" where
  "remount str old s =
     (if form_shown s \<and> \<not> form_shown old then s\<lparr>as_form := initial_node_form str (edited s), as_menu := False\<rparr>
      else s)"

definition close_form :: "space_section \<Rightarrow> space_section" where
  "close_form s = s\<lparr>as_showNodeForm := False, as_editing := None\<rparr>"

definition nodes_csv :: "csv_event \<Rightarrow> csv_panel \<Rightarrow> csv_panel \<times> csv_report effect list" where
  "nodes_csv = csv_step (OfNodes ExportNodesCsv) (\<lambda>csv. OfNodes (ImportNodesCsv csv)) ''nodes.csv''"

fun form_report :: "node_form_report effect \<Rightarrow> space_section \<Rightarrow> space_section" where
  "form_report (Emit FormDone) s = (close_form s)\<lparr>as_selected := None\<rparr>"
| "form_report (Emit FormCancelled) s = close_form s"
| "form_report _ s = s"

fun csv_effect :: "csv_report effect \<Rightarrow> csv_report effect list" where
  "csv_effect (Emit OnImportComplete) = saved_effects"
| "csv_effect e = [e]"

fun form_effect :: "node_form_report effect \<Rightarrow> csv_report effect list" where
  "form_effect (Send c) = [Send c]"
| "form_effect (Invalidate k) = [Invalidate k]"
| "form_effect _ = []"

fun section_act :: "section_event \<Rightarrow> space_section \<Rightarrow> space_section \<times> csv_report effect list" where
  "section_act (NodeSelected n) s = ((close_form s)\<lparr>as_selected := Some n\<rparr>, [])"
| "section_act EditPressed s = (s\<lparr>as_editing := as_selected s\<rparr>, [])"
| "section_act DeletePressed s =
     (if as_selected s = None then s else s\<lparr>as_showDeleteConfirm := True\<rparr>, [])"
| "section_act DeleteAgreedTo s =
     (case as_selected s of
        None \<Rightarrow> (s, [])
      | Some n \<Rightarrow> (s\<lparr>as_deleting := True\<rparr>, [Send (OfNodes (nodes_call.DeleteNode (nd_id (se_node n))))]))"
| "section_act DeleteDismissed s = (s\<lparr>as_showDeleteConfirm := False\<rparr>, [])"
| "section_act NodeDeleted s =
     (s\<lparr>as_deleting := False, as_selected := None, as_showDeleteConfirm := False\<rparr>, saved_effects)"
| "section_act NodeNotDeleted s = (s\<lparr>as_deleting := False\<rparr>, [])"
| "section_act CreateVariablePressed s =
     (s\<lparr>as_showNodeForm := True, as_selected := None, as_menu := False\<rparr>, [])"
| "section_act CreateObjectPressed s = (s\<lparr>as_menu := False\<rparr>,
     [MessageBox (''Use the '' @ dquoted ''+'' @ '' button on a namespace or object node in the tree above to create an object node (subfolder).'')])"
| "section_act MenuToggled s = (s\<lparr>as_menu := \<not> as_menu s\<rparr>, [])"
| "section_act (FormEvent e) s =
     (let (f, effs) = node_form_step (edited s) e (as_form s)
      in (foldl (\<lambda>t x. form_report x t) (s\<lparr>as_form := f\<rparr>) effs, concat (map form_effect effs)))"
| "section_act EarlierFormSaved s = ((close_form s)\<lparr>as_selected := None\<rparr>, saved_effects)"
| "section_act (CsvEvent e) s =
     (let (c, effs) = nodes_csv e (as_csv s) in (s\<lparr>as_csv := c\<rparr>, concat (map csv_effect effs)))"
| "section_act (TextCopied v) s = (s, [])"

definition section_step ::
  "(jsval \<Rightarrow> string) \<Rightarrow> section_event \<Rightarrow> space_section \<Rightarrow> space_section \<times> csv_report effect list" where
  "section_step str e s = (let (s1, effs) = section_act e s in (remount str s s1, effs))"

definition create_menu :: "space_section \<Rightarrow> section_event ui" where
  "create_menu s =
     Group
       [Button ''Create Variable Node'' False CreateVariablePressed, Button [] False MenuToggled,
        only_if (as_menu s)
          (Group [Button ''Create Variable Node'' False CreateVariablePressed,
                  Button ''Create Object Node (subfolder)'' False CreateObjectPressed])]"

text \<open>The list of namespaces and the tree are components of their own beside this.\<close>

definition section_view ::
  "text_of_number \<Rightarrow> (jsval \<Rightarrow> string) \<Rightarrow> (string \<Rightarrow> string) \<Rightarrow> (string \<times> string) list
     \<Rightarrow> obj_tree list \<Rightarrow> space_section \<Rightarrow> section_event ui" where
  "section_view nt str date namespaces tree s =
     (let c = as_csv s in
      Group
        [if form_shown s then map_ui FormEvent (node_form_view (edited s) True namespaces tree (as_form s))
         else Group
           [map_ui TextCopied (node_detail_panel nt str date (as_selected s)),
            only_if (as_selected s \<noteq> None)
              (Group [Button ''Edit Node'' False EditPressed,
                      loading_button ''Delete Node'' False (as_deleting s) DeletePressed])],
         only_if (\<not> form_shown s)
           (Group
             [create_menu s,
              Button (if cp_isExporting c then ''Exporting...'' else ''Export CSV'') (cp_isExporting c)
                (CsvEvent ExportPressed),
              file_button (if cp_isImporting c then ''Importing...'' else ''Import CSV'') (cp_isImporting c)
                (\<lambda>x. CsvEvent (FileChosen x))]),
         (case cp_importResult c of None \<Rightarrow> nothing | Some r \<Rightarrow> map_ui CsvEvent (import_alert r)),
         only_if (cp_importError c \<noteq> [])
           (alert ''error'' [Text (cp_importError c)] (Some (CsvEvent ErrorDismissed))),
         confirm_dialog (as_showDeleteConfirm s) ''Delete Variable Node?''
           (''Delete variable node '' @ dquoted (case as_selected s of None \<Rightarrow> [] | Some n \<Rightarrow> nd_name (se_node n))
             @ ''? This cannot be undone.'')
           ''Delete'' (as_deleting s) DeleteAgreedTo DeleteDismissed])"

section \<open>A namespace that is saved\<close>

definition namespace_request :: "namespace_manager \<Rightarrow> create_namespace_request" where
  "namespace_request s =
     \<lparr>cn_name = trim (nm_name s),
      cn_description = (if trim (nm_description s) \<noteq> [] then Some (trim (nm_description s)) else None),
      cn_uri = trim (nm_uri s)\<rparr>"

lemma namespace_data_read:
  assumes "namespace_form_errors s = []"
  shows "create_namespace_errors (json_copy (namespace_data s)) = []"
    "create_namespace_body (json_copy (namespace_data s)) = Some (namespace_request s)"
  using assms
  by (cases "trim (nm_description s) = []";
      simp add: namespace_form_errors_def namespace_data_def create_namespace_errors_def trim_trim
        create_namespace_body_def namespace_request_def or_undefined_def required_text_def getprop_def
        split: if_splits)+

text \<open>The form for a new namespace is submitted, and the answer of the server's handler comes back.\<close>

definition namespace_round ::
  "api_env \<Rightarrow> reader \<Rightarrow> string \<Rightarrow> string \<Rightarrow> namespace_manager \<Rightarrow> database
     \<Rightarrow> ((namespace_manager \<times> unit effect list) \<times> database) option" where
  "namespace_round env rd i now s d =
     (case namespace_step NsSubmitted s of
        (s1, [Send (OfNamespaces (CreateNamespace v))]) \<Rightarrow>
          map_option
            (\<lambda>(rs, d1). (namespace_step (case read_by rd rs of Inr _ \<Rightarrow> NsCreated | Inl e \<Rightarrow> NsNotCreated e) s1, d1))
            (post_namespace env i now (json_copy v) d)
      | r \<Rightarrow> Some (r, d))"

lemma namespace_answer_db [simp]: "snd (namespace_answer env st ok (r, d)) = d"
  by (simp add: namespace_answer_def split: sum.split)

lemma namespace_round_answer:
  assumes "namespace_form_errors s = []" "nm_editing s = None"
    and "namespace_create i now (namespace_request s) d = (r, d')"
  shows "namespace_round env rd i now s d =
    Some (namespace_step
      (case read_by rd (fst (namespace_answer env (\<lambda>code. if code = ''DUPLICATE_ERROR'' then 409 else 400)
               (\<lambda>n. respond 201 (namespace_json n)) (r, d'))) of
         Inr _ \<Rightarrow> NsCreated | Inl e \<Rightarrow> NsNotCreated e)
      (s\<lparr>nm_fieldErrors := [], nm_generalError := [], nm_creating := True\<rparr>), d')"
proof -
  let ?s = "s\<lparr>nm_fieldErrors := [], nm_generalError := []\<rparr>"
  have v: "namespace_data ?s = namespace_data s" by (simp add: namespace_data_def)
  show ?thesis
    using assms namespace_data_read [OF assms(1)]
    by (simp add: namespace_round_def namespace_submit_def v Let_def post_namespace_def
        split_beta)
qed

lemma taken_shown:
  assumes "e = name_taken n \<and> field = ''name'' \<or> e = uri_taken n \<and> field = ''uri''"
  shows "\<exists>c. read_by rd (domain_response 409 e) = Inl c \<and>
    (let s1 = fst (namespace_step (NsNotCreated c) s) in
     jget (nm_fieldErrors s1) field = Some (snd (hd (de_details e))) \<and> nm_showForm s1 = nm_showForm s)"
proof -
  have r: "read_by rd (domain_response 409 e)
      = Inl (ApiError 409 (JStr (de_code e)) (de_message e) (JArr (map detail_json (de_details e))))"
    using assms by (intro read_domain_response) (auto simp: name_taken_def uri_taken_def)
  have d: "de_details e = [(field, snd (hd (de_details e)))]"
    using assms by (auto simp: name_taken_def uri_taken_def)
  have "detail_errors (map detail_json (de_details e)) = [(field, snd (hd (de_details e)))]"
    unfolding detail_errors_json by (subst d) (simp add: set_errors_def)
  then show ?thesis unfolding r by (simp add: Let_def namespace_refused_def)
qed


text \<open>The three kinds of answers, and what the form makes of them.\<close>

definition created_event :: "api_env \<Rightarrow> reader \<Rightarrow> namespace answer \<Rightarrow> namespace_event" where
  "created_event env rd r =
     (case read_by rd (fst (namespace_answer env (\<lambda>code. if code = ''DUPLICATE_ERROR'' then 409 else 400)
               (\<lambda>n. respond 201 (namespace_json n)) r)) of
        Inr _ \<Rightarrow> NsCreated | Inl e \<Rightarrow> NsNotCreated e)"

lemma taken_round:
  assumes "e = name_taken n \<and> field = ''name'' \<or> e = uri_taken n \<and> field = ''uri''"
  shows "\<exists>s1. namespace_step (created_event env rd (Inr (Inl e), d)) s = (s1, [])
    \<and> jget (nm_fieldErrors s1) field = Some (snd (hd (de_details e))) \<and> nm_showForm s1 = nm_showForm s"
proof -
  have "de_code e = ''DUPLICATE_ERROR''" using assms by (auto simp: name_taken_def uri_taken_def)
  then have "created_event env rd (Inr (Inl e), d)
      = (case read_by rd (domain_response 409 e) of Inr _ \<Rightarrow> NsCreated | Inl e \<Rightarrow> NsNotCreated e)"
    by (simp add: created_event_def namespace_answer_def)
  moreover obtain c where "read_by rd (domain_response 409 e) = Inl c"
    "jget (nm_fieldErrors (fst (namespace_step (NsNotCreated c) s))) field = Some (snd (hd (de_details e)))"
    "nm_showForm (fst (namespace_step (NsNotCreated c) s)) = nm_showForm s"
    using taken_shown [OF assms, of rd s] by (auto simp: Let_def)
  ultimately show ?thesis by simp
qed

lemma fault_round:
  assumes "thrown_message (ap_sql env) e \<noteq> []"
  shows "\<exists>s1. namespace_step (created_event env rd (Inl e, d)) s = (s1, [])
    \<and> nm_generalError s1 \<noteq> [] \<and> nm_showForm s1 = nm_showForm s"
  using assms
  by (simp add: created_event_def namespace_answer_def internal_error_def read_by_def read_error_response
      namespace_refused_def)

lemma stored_round:
  "\<exists>s1. namespace_step (created_event env rd (Inr (Inr n), d)) s = (s1, [Invalidate [''namespaces'']])
    \<and> \<not> nm_showForm s1"
  by (simp add: created_event_def namespace_answer_def read_by_def read_success nm_resetForm_def
      set_namespace_form_def)

text \<open>Submitting the form for a new namespace, with a name and a URI, ends in one of four ways. If the
  name or the URI is taken, the message is shown at that field of the form, which stays open, and
  nothing is stored. If the fresh id is taken, a general error is shown and nothing is stored.
  Otherwise exactly the namespace described is stored, without blanks around its texts, the form
  closes and the list is fetched again.\<close>

lemma namespace_form_saves:
  assumes "integrity (db_tables d)" "db_works d" "namespace_form_errors s = []" "nm_editing s = None"
    and "nm_showForm s" "\<And>e. ap_sql env e \<noteq> []"
  shows "\<exists>s1 effs d1. namespace_round env rd i now s d = Some ((s1, effs), d1) \<and>
    (if trim (nm_name s) \<in> ns_name ` set (t_namespaces (db_tables d)) then
       jget (nm_fieldErrors s1) ''name'' =
         Some (''Namespace name '' @ dquoted (trim (nm_name s)) @ '' is already in use'')
       \<and> nm_showForm s1 \<and> effs = [] \<and> db_tables d1 = db_tables d
     else if trim (nm_uri s) \<in> ns_uri ` set (t_namespaces (db_tables d)) then
       jget (nm_fieldErrors s1) ''uri'' =
         Some (''Namespace URI '' @ dquoted (trim (nm_uri s)) @ '' is already in use'')
       \<and> nm_showForm s1 \<and> effs = [] \<and> db_tables d1 = db_tables d
     else if i \<in> ns_id ` set (t_namespaces (db_tables d)) then
       nm_generalError s1 \<noteq> [] \<and> nm_showForm s1 \<and> effs = [] \<and> db_tables d1 = db_tables d
     else \<not> nm_showForm s1 \<and> effs = [Invalidate [''namespaces'']] \<and>
       db_tables d1 = (db_tables d)\<lparr>t_namespaces := t_namespaces (db_tables d)
         @ [new_namespace i now (namespace_request s)]\<rparr>)"
proof -
  let ?t = "db_tables d" and ?q = "namespace_request s"
  let ?s = "s\<lparr>nm_fieldErrors := [], nm_generalError := [], nm_creating := True\<rparr>"
  obtain r d1 where c: "namespace_create i now ?q d = (r, d1)" by (cases "namespace_create i now ?q d")
  have d: "db_open d" "db_alive d" "db_accessible d" using assms(2) by (simp_all add: db_works_def)
  have q: "cn_name ?q = trim (nm_name s)" "cn_uri ?q = trim (nm_uri s)" by (simp_all add: namespace_request_def)
  have round: "namespace_round env rd i now s d = Some (namespace_step (created_event env rd (r, d1)) ?s, d1)"
    using namespace_round_answer [OF assms(3,4) c] by (simp add: created_event_def)
  note out = namespace_create_outcome [OF assms(1) d, of i now ?q, unfolded c Let_def prod.case q]
  consider (name) "trim (nm_name s) \<in> ns_name ` set (t_namespaces ?t)"
    | (uri) "trim (nm_name s) \<notin> ns_name ` set (t_namespaces ?t)" "trim (nm_uri s) \<in> ns_uri ` set (t_namespaces ?t)"
    | (fault) "trim (nm_name s) \<notin> ns_name ` set (t_namespaces ?t)"
        "trim (nm_uri s) \<notin> ns_uri ` set (t_namespaces ?t)" "i \<in> ns_id ` set (t_namespaces ?t)"
    | (stored) "trim (nm_name s) \<notin> ns_name ` set (t_namespaces ?t)"
        "trim (nm_uri s) \<notin> ns_uri ` set (t_namespaces ?t)" "i \<notin> ns_id ` set (t_namespaces ?t)"
    by blast
  then show ?thesis
  proof cases
    case name
    with out have "r = Inr (Inl (name_taken (trim (nm_name s))))" "db_tables d1 = ?t" by (simp_all only: if_True)
    with name round assms(5) taken_round [of "name_taken (trim (nm_name s))" _ "''name''" env rd d1 ?s]
    show ?thesis by (auto simp: name_taken_def)
  next
    case uri
    with out have "r = Inr (Inl (uri_taken (trim (nm_uri s))))" "db_tables d1 = ?t"
      by (simp_all only: if_True if_False)
    with uri round assms(5) taken_round [of "uri_taken (trim (nm_uri s))" _ "''uri''" env rd d1 ?s]
    show ?thesis by (auto simp: uri_taken_def)
  next
    case fault
    with out obtain e where "r = Inl (SqlError e)" "db_tables d1 = ?t"
      by (auto simp only: if_True if_False)
    with fault round assms(5,6) fault_round [of env "SqlError e" rd d1 ?s]
    show ?thesis by auto
  next
    case stored
    with out have "r = Inr (Inr \<lparr>nsp_row = new_namespace i now ?q, nsp_nodeCount = Some 0\<rparr>)"
      "db_tables d1 = ?t\<lparr>t_namespaces := t_namespaces ?t @ [new_namespace i now ?q]\<rparr>"
      by (simp_all only: if_False)
    with stored round
      stored_round [of env rd "\<lparr>nsp_row = new_namespace i now ?q, nsp_nodeCount = Some 0\<rparr>" d1 ?s]
    show ?thesis by auto
  qed
qed

definition line_form :: namespace_manager where
  "line_form = (startCreate new_namespace_manager)\<lparr>nm_name := '' Line '', nm_uri := ''urn:l''\<rparr>"

definition demo_api_env :: api_env where
  "demo_api_env = \<lparr>ap_parse = (\<lambda>_. None), ap_number = (\<lambda>_. []), ap_sql = (\<lambda>_. ''error''), ap_gone = ''gone''\<rparr>"

lemma namespace_form_saves_witness:
  "\<exists>s1 d1. namespace_round demo_api_env demo_reader ''n2'' ''now'' line_form plant_db
       = Some ((s1, [Invalidate [''namespaces'']]), d1)
     \<and> map ns_name (t_namespaces (db_tables d1)) = [''Plant'', ''Line'']"
proof -
  have d: "integrity (db_tables plant_db)" "db_works plant_db"
    by (simp_all add: plant_db_def integrity_def notnull_ok_def unique_ok_def foreign_ok_def fresh_tables_def
        db_works_def)
  have f: "namespace_form_errors line_form = []" by code_simp
  have f': "nm_editing line_form = None" "nm_showForm line_form"
    by (simp_all add: line_form_def startCreate_def)
  have t: "map ns_name (t_namespaces (db_tables plant_db)) = [''Plant'']"
    "map ns_uri (t_namespaces (db_tables plant_db)) = [''urn:p'']"
    "map ns_id (t_namespaces (db_tables plant_db)) = [''ns'']"
    by (simp_all add: plant_db_def)
  have "trim (nm_name line_form) = ''Line''" "trim (nm_uri line_form) = ''urn:l''" by code_simp+
  moreover have "set (map ns_name (t_namespaces (db_tables plant_db))) = {''Plant''}"
    "set (map ns_uri (t_namespaces (db_tables plant_db))) = {''urn:p''}"
    "set (map ns_id (t_namespaces (db_tables plant_db))) = {''ns''}"
    by (simp_all only: t) simp_all
  ultimately show ?thesis
    using namespace_form_saves [OF d f f', of demo_api_env demo_reader "''n2''" "''now''"] t(1)
    by (auto simp: demo_api_env_def new_namespace_def namespace_request_def)
qed

text \<open>
  Changing a namespace stores the name and the URI the form shows; an emptied description is not
  sent and stays.
\<close>

lemma namespace_edit_stores:
  assumes "namespace_form_errors s = []"
  shows "\<exists>r. update_namespace_errors (json_copy (namespace_data s)) = []
    \<and> update_namespace_body_of (json_copy (namespace_data s)) = Some r
    \<and> set_namespace now r row row = row\<lparr>ns_name := trim (nm_name s), ns_uri := trim (nm_uri s),
        ns_description := (if trim (nm_description s) = [] then ns_description row else Some (trim (nm_description s))),
        ns_updated := now\<rparr>"
  using assms
  by (cases "trim (nm_description s) = []")
    (auto simp: namespace_form_errors_def namespace_data_def update_namespace_errors_def
      update_namespace_body_of_def optional_text_def or_undefined_def getprop_def trim_trim set_namespace_def
      upd_def split: if_splits)

text \<open>
  The list stays in reach while a request is under way: the end of a request closes the form that
  is open by then.
\<close>

lemma late_answer_closes_namespace: "\<not> nm_showForm (fst (namespace_step NsUpdated (startEdit n s)))"
  by (simp add: nm_resetForm_def set_namespace_form_def)

section \<open>The variable that is edited\<close>

fun typing :: "node_form_event \<Rightarrow> bool" where
  "typing (NameTyped _) = True"
| "typing (TypeChosen _) = True"
| "typing (NamespaceChosen _) = True"
| "typing (ParentChosen _) = True"
| "typing (ValueTyped _) = True"
| "typing (DescriptionTyped _) = True"
| "typing (NamespacesLoaded _) = True"
| "typing _ = False"

text \<open>What can happen while a form is filled in: typing, the end of a deletion, import and export.\<close>

fun beside_form :: "section_event \<Rightarrow> bool" where
  "beside_form (FormEvent e) = typing e"
| "beside_form NodeDeleted = True"
| "beside_form NodeNotDeleted = True"
| "beside_form DeleteDismissed = True"
| "beside_form (CsvEvent _) = True"
| "beside_form (TextCopied _) = True"
| "beside_form _ = False"

fun form_event :: "section_event \<Rightarrow> node_form_event option" where
  "form_event (FormEvent e) = Some e"
| "form_event _ = None"

definition section_run ::
  "(jsval \<Rightarrow> string) \<Rightarrow> section_event list \<Rightarrow> space_section \<Rightarrow> space_section" where
  "section_run str es s = foldl (\<lambda>s e. fst (section_step str e s)) s es"

definition filled_in :: "node_row option \<Rightarrow> node_form_event list \<Rightarrow> node_form \<Rightarrow> node_form" where
  "filled_in n es f = foldl (\<lambda>f e. fst (node_form_step n e f)) f es"

lemma typing_step: "typing e \<Longrightarrow> snd (node_form_step n e f) = []"
  by (cases e) auto

lemma beside_step:
  assumes "beside_form e" "form_shown s"
  shows "as_editing (fst (section_step str e s)) = as_editing s
    \<and> as_showNodeForm (fst (section_step str e s)) = as_showNodeForm s
    \<and> as_form (fst (section_step str e s)) =
        (case form_event e of None \<Rightarrow> as_form s | Some x \<Rightarrow> fst (node_form_step (edited s) x (as_form s)))"
  using assms
proof (cases e)
  case (FormEvent x)
  with assms typing_step [of x "edited s" "as_form s"] show ?thesis
    by (simp add: section_step_def remount_def form_shown_def split_beta Let_def)
qed (auto simp: section_step_def remount_def form_shown_def split_beta Let_def)

lemma beside_run:
  assumes "list_all beside_form es" "form_shown s"
  shows "as_editing (section_run str es s) = as_editing s
    \<and> as_showNodeForm (section_run str es s) = as_showNodeForm s
    \<and> as_form (section_run str es s) = filled_in (edited s) (List.map_filter form_event es) (as_form s)"
  using assms
proof (induction es arbitrary: s)
  case (Cons e es)
  let ?s = "fst (section_step str e s)"
  have step: "as_editing ?s = as_editing s" "as_showNodeForm ?s = as_showNodeForm s"
    "as_form ?s = (case form_event e of None \<Rightarrow> as_form s | Some x \<Rightarrow> fst (node_form_step (edited s) x (as_form s)))"
    using beside_step [of e s str] Cons.prems by simp_all
  then have "form_shown ?s" "edited ?s = edited s" using Cons.prems(2) by (simp_all add: form_shown_def edited_def)
  with Cons.IH [of ?s] Cons.prems(1) step show ?case
    by (simp add: section_run_def filled_in_def map_filter_simps split: option.split)
qed (simp add: section_run_def filled_in_def map_filter_simps)

text \<open>
  The form that was open before may still be waiting for its answer. When that comes the section
  shows no form and no variable, and typing or the end of other requests does not bring them back.
\<close>

lemma closed_step:
  assumes "beside_form e \<or> e = EarlierFormSaved" "\<not> form_shown s" "as_selected s = None"
  shows "\<not> form_shown (fst (section_step str e s)) \<and> as_selected (fst (section_step str e s)) = None"
  using assms
proof (cases e)
  case (FormEvent x)
  with assms typing_step [of x "edited s" "as_form s"] show ?thesis
    by (simp add: section_step_def remount_def form_shown_def split_beta Let_def)
qed (auto simp: section_step_def remount_def form_shown_def close_form_def split_beta Let_def)

lemma closed_run:
  assumes "list_all (\<lambda>e. beside_form e \<or> e = EarlierFormSaved) es" "\<not> form_shown s" "as_selected s = None"
  shows "\<not> form_shown (section_run str es s) \<and> as_selected (section_run str es s) = None"
  using assms
proof (induction es arbitrary: s)
  case (Cons e es)
  with closed_step [of e s str] Cons.IH [of "fst (section_step str e s)"] show ?case
    by (simp add: section_run_def)
qed (simp add: section_run_def)

lemma earlier_answer_closes:
  assumes "list_all (\<lambda>e. beside_form e \<or> e = EarlierFormSaved) es" "EarlierFormSaved \<in> set es"
  shows "\<not> form_shown (section_run str es s) \<and> as_selected (section_run str es s) = None"
proof -
  obtain us vs where es: "es = us @ EarlierFormSaved # vs" using assms(2) by (auto dest: split_list)
  let ?s = "fst (section_step str EarlierFormSaved (section_run str us s))"
  have "section_run str es s = section_run str vs ?s" by (simp add: section_run_def es)
  moreover have "\<not> form_shown ?s" "as_selected ?s = None"
    by (simp_all add: section_step_def remount_def form_shown_def close_form_def)
  ultimately show ?thesis using closed_run [of vs ?s str] assms(1) es by simp
qed

text \<open>C40: Editing starts from the variable whose details are shown, and what is saved is a change of
  that very variable: pressing the button opens the form with its values, and after any typing and
  the end of any deletion, import or export, submitting sends exactly one change, for its id, with
  its values as changed, or nothing if a required field is blank. The one exception is the late
  answer to a form left while its request was under way: when it comes among these events, the form
  is closed and the selection gone, whatever was typed before or after, so that the edit is lost.\<close>

theorem edited_variable_is_saved:
  assumes "as_selected s = Some n" "\<not> form_shown s"
    and "list_all (\<lambda>e. beside_form e \<or> e = EarlierFormSaved) es"
  shows "let s1 = section_run str (EditPressed # es) s;
             f = filled_in (Some (se_node n)) (List.map_filter form_event es)
                   (initial_node_form str (Some (se_node n))) in
    if EarlierFormSaved \<in> set es then \<not> form_shown s1 \<and> as_selected s1 = None
    else form_shown s1 \<and> as_form s1 = f \<and>
      snd (section_step str (FormEvent NodeSubmitted) s1) =
        (if node_form_errors f = []
         then [Send (OfNodes (UpdateNode (nd_id (se_node n)) (node_update_data f)))] else [])"
proof (cases "EarlierFormSaved \<in> set es")
  case True
  then show ?thesis
    using earlier_answer_closes [OF assms(3), of str "fst (section_step str EditPressed s)"]
    by (simp add: Let_def section_run_def)
next
  case False
  let ?s = "fst (section_step str EditPressed s)"
  have open': "form_shown ?s" "as_form ?s = initial_node_form str (Some (se_node n))"
    "as_editing ?s = Some n" "as_showNodeForm ?s = as_showNodeForm s"
    using assms(1,2) by (simp_all add: section_step_def remount_def form_shown_def edited_def)
  have run: "section_run str (EditPressed # es) s = section_run str es ?s" by (simp add: section_run_def)
  have e: "edited ?s = Some (se_node n)" by (simp add: edited_def open'(3))
  have beside: "list_all beside_form es" using assms(3) False by (auto simp: list_all_iff)
  note r = beside_run [OF beside open'(1), of str, unfolded e open'(2,3)]
  have d: "node_update_data (f\<lparr>nf_fieldErrors := x, nf_generalError := y\<rparr>) = node_update_data f" for f x y
    by (simp add: node_update_data_def)
  show ?thesis
    unfolding run Let_def using r False
    by (simp add: form_shown_def section_step_def split_beta node_form_submit_def validateForm_def edited_def d Let_def)
qed

lemma edited_variable_is_saved_witness:
  "snd (section_step (\<lambda>_. []) (FormEvent NodeSubmitted)
      (section_run (\<lambda>_. []) [EditPressed, FormEvent (NameTyped ''Pace''), NodeDeleted]
         ((new_space_section (\<lambda>_. []))\<lparr>as_selected := Some demo_selected\<rparr>)))
    = [Send (OfNodes (UpdateNode (nd_id demo_speed)
        (node_update_data ((initial_node_form (\<lambda>_. []) (Some demo_speed))\<lparr>nf_name := ''Pace''\<rparr>))))]"
proof -
  let ?s = "(new_space_section (\<lambda>_. []))\<lparr>as_selected := Some demo_selected\<rparr>"
  have n: "se_node demo_selected = demo_speed" by (simp add: demo_selected_def)
  have s: "as_selected ?s = Some demo_selected" "\<not> form_shown ?s"
    by (simp_all add: form_shown_def new_space_section_def)
  have v: "node_form_errors ((initial_node_form (\<lambda>_. []) (Some demo_speed))\<lparr>nf_name := ''Pace''\<rparr>) = []"
    by code_simp
  have "list_all (\<lambda>e. beside_form e \<or> e = EarlierFormSaved) [FormEvent (NameTyped ''Pace''), NodeDeleted]"
    by simp
  from edited_variable_is_saved [OF s this, of "\<lambda>_. []"] v show ?thesis
    by (simp add: Let_def n filled_in_def map_filter_simps)
qed

text \<open>
  The end of a deletion takes away the selection and the question about another variable that have
  been made since.
\<close>

lemma late_deletion_deselects:
  "let s1 = fst (section_step str NodeDeleted (fst (section_step str DeletePressed
       (fst (section_step str (NodeSelected n) s))))) in
   as_selected s1 = None \<and> \<not> as_showDeleteConfirm s1"
  by (simp add: section_step_def remount_def Let_def split_beta)

end
