(* ===== verification/SecurityScreens.thy ===== *)
theory SecurityScreens
  imports SpaceTree
begin

text \<open>
  \<open>web/src/screens/security/\<close>: the cards for the security mode, for generating, naming and showing
  the server's certificate, and the list of client certificates; with \<open>utils/sanValidation.ts\<close>, the
  browser's check of the names of a certificate, against the server's.
\<close>

section \<open>Names of a certificate\<close>

definition MAX_SAN_ENTRIES :: nat where
  "MAX_SAN_ENTRIES = 20"

definition san_isValidDnsName :: "string \<Rightarrow> bool" where
  "san_isValidDnsName dns =
     (let trimmed = trim dns in
      if trimmed = [] \<or> length trimmed > 253 then False
      else rx_test (Plus (Cls host_char)) trimmed)"

text \<open>The number is read by \<open>Number\<close> and compared, whatever the text is.\<close>

definition san_octet :: "string \<Rightarrow> bool" where
  "san_octet part =
     (let num = Number_of part in
      rx_test (upto_times 3 (Cls is_digit)) part \<and> \<not> num_lt num (Fin 0) \<and> num \<noteq> NaN
        \<and> \<not> num_lt (Fin 255) num)"

definition san_isValidIpv4 :: "string \<Rightarrow> bool" where
  "san_isValidIpv4 ip =
     (let parts = split_on CHR ''.'' (trim ip)
      in if length parts \<noteq> 4 then False else list_all san_octet parts)"

definition san_isValidIpv6 :: "string \<Rightarrow> bool" where
  "san_isValidIpv6 ip =
     (let trimmed = trim ip in
      if \<not> List.member trimmed CHR '':'' then False
      else let parts = split_on CHR '':'' trimmed; doubles = length (split_double trimmed) - 1 in
        if length parts < 2 \<or> length parts > 8 then False
        else if doubles > 1 then False
        else list_all (\<lambda>part. part = [] \<or> hex_group part) parts)"

definition san_isValidIpAddress :: "string \<Rightarrow> bool" where
  "san_isValidIpAddress ip \<longleftrightarrow> san_isValidIpv4 ip \<or> san_isValidIpv6 ip"

text \<open>\<open>split(/[,\n]/)\<close>\<close>

definition parseMultiInput :: "string \<Rightarrow> string list" where
  "parseMultiInput v =
     filter (\<lambda>s. length s > 0) (map trim (concat (map (split_on lf) (split_on CHR '','' v))))"

section \<open>Generating a certificate\<close>

record generate_card =
  gc_dns :: string
  gc_ips :: string
  gc_prefilled :: bool
  gc_dnsError :: "string option"
  gc_ipError :: "string option"
  gc_error :: "string option"
  gc_success :: bool
  gc_showConfirm :: bool
  gc_pending :: bool

definition new_generate_card :: generate_card where
  "new_generate_card =
     \<lparr>gc_dns = [], gc_ips = [], gc_prefilled = False, gc_dnsError = None, gc_ipError = None,
      gc_error = None, gc_success = False, gc_showConfirm = False, gc_pending = False\<rparr>"

text \<open>The names the server suggests, once they are there: DNS names and addresses.\<close>

type_synonym suggestion = "(string list \<times> string list) option"

definition suggested_texts :: "suggestion \<Rightarrow> string \<times> string" where
  "suggested_texts sans =
     (case sans of None \<Rightarrow> ([], []) | Some (dns, ips) \<Rightarrow> (join '', '' dns, join '', '' ips))"

definition prefill :: "suggestion \<Rightarrow> generate_card \<Rightarrow> generate_card" where
  "prefill sans s =
     (if sans = None \<or> gc_prefilled s then s
      else (if trim (gc_dns s) = [] \<and> trim (gc_ips s) = []
            then s\<lparr>gc_dns := fst (suggested_texts sans), gc_ips := snd (suggested_texts sans)\<rparr>
            else s)\<lparr>gc_prefilled := True\<rparr>)"

definition list_error :: "string \<Rightarrow> (string \<Rightarrow> bool) \<Rightarrow> string \<Rightarrow> string \<Rightarrow> string option" where
  "list_error kind ok message v =
     (if trim v = [] then None
      else let entries = parseMultiInput v; invalid = filter (\<lambda>e. \<not> ok e) entries in
        if length entries > MAX_SAN_ENTRIES
        then Some (''Maximum '' @ show_nat MAX_SAN_ENTRIES @ '' '' @ kind @ '' entries allowed'')
        else if invalid \<noteq> [] then Some (message @ join '', '' invalid)
        else None)"

definition dns_error :: "generate_card \<Rightarrow> string option" where
  "dns_error s = list_error ''DNS'' san_isValidDnsName ''Invalid DNS name(s): '' (gc_dns s)"

definition ip_error :: "generate_card \<Rightarrow> string option" where
  "ip_error s = list_error ''IP'' san_isValidIpAddress ''Invalid IP address(es): '' (gc_ips s)"

definition generate_options :: "bool \<Rightarrow> generate_card \<Rightarrow> jsval" where
  "generate_options force s =
     (let dns = parseMultiInput (gc_dns s); ips = parseMultiInput (gc_ips s) in
      JObj ((if dns \<noteq> [] then [(''dnsNames'', JArr (map JStr dns))] else []) @
            (if ips \<noteq> [] then [(''ipAddresses'', JArr (map JStr ips))] else []) @
            (if force then [(''force'', JBool True)] else [])))"

datatype generate_event =
    GcDnsTyped string
  | GcIpsTyped string
  | GcSubmitted
  | GcOverwriteAgreed
  | GcOverwriteCancelled
  | GcGenerated
  | GcNotGenerated call_error
  | GcSuccessOver
  | GcSuggested

definition send_generate :: "bool \<Rightarrow> generate_card \<Rightarrow> generate_card \<times> unit effect list" where
  "send_generate force s =
     (s\<lparr>gc_pending := True\<rparr>, [Send (OfSecurity (GenerateCertificate (generate_options force s)))])"

definition generate_submit :: "bool \<Rightarrow> generate_card \<Rightarrow> generate_card \<times> unit effect list" where
  "generate_submit hasCertificate s =
     (let s1 = s\<lparr>gc_error := None, gc_success := False, gc_dnsError := dns_error s, gc_ipError := ip_error s\<rparr> in
      if dns_error s \<noteq> None \<or> ip_error s \<noteq> None then (s1, [])
      else if hasCertificate then (s1\<lparr>gc_showConfirm := True\<rparr>, [])
      else send_generate False s1)"

fun generate_act ::
  "suggestion \<Rightarrow> bool \<Rightarrow> generate_event \<Rightarrow> generate_card \<Rightarrow> generate_card \<times> unit effect list" where
  "generate_act sans has (GcDnsTyped v) s = (s\<lparr>gc_dns := v, gc_dnsError := None\<rparr>, [])"
| "generate_act sans has (GcIpsTyped v) s = (s\<lparr>gc_ips := v, gc_ipError := None\<rparr>, [])"
| "generate_act sans has GcSubmitted s = generate_submit has s"
| "generate_act sans has GcOverwriteAgreed s = send_generate True (s\<lparr>gc_showConfirm := False\<rparr>)"
| "generate_act sans has GcOverwriteCancelled s = (s\<lparr>gc_showConfirm := False\<rparr>, [])"
| "generate_act sans has GcGenerated s =
     (s\<lparr>gc_dns := fst (suggested_texts sans), gc_ips := snd (suggested_texts sans), gc_error := None,
        gc_dnsError := None, gc_ipError := None, gc_success := True, gc_pending := False\<rparr>,
      [Invalidate [''security'']])"
| "generate_act sans has (GcNotGenerated e) s =
     (s\<lparr>gc_success := False, gc_error := Some (error_text ''Failed to generate certificate'' e),
        gc_pending := False\<rparr>, [])"
| "generate_act sans has GcSuccessOver s = (s\<lparr>gc_success := False\<rparr>, [])"
| "generate_act sans has GcSuggested s = (s, [])"

text \<open>The effect that fills in the suggestions runs after every change.\<close>

definition generate_step ::
  "suggestion \<Rightarrow> bool \<Rightarrow> generate_event \<Rightarrow> generate_card \<Rightarrow> generate_card \<times> unit effect list" where
  "generate_step sans has e s = apfst (prefill sans) (generate_act sans has e s)"

definition generate_view :: "generate_card \<Rightarrow> generate_event ui" where
  "generate_view s =
     Group
       [Form ''Generate Certificate'' GcSubmitted
          [only_if (truthy_str (gc_error s)) (alert ''error'' [Text (the (gc_error s))] None),
           only_if (gc_success s) (alert ''success'' [Text ''Certificate generated successfully!''] None),
           form_field ''dnsNames'' ''DNS Names'' False (gc_dnsError s)
             (Some ''Optional, comma-separated or one per line'') [Input ''dnsNames'' (gc_dns s) False GcDnsTyped],
           form_field ''ipAddresses'' ''IP Addresses'' False (gc_ipError s)
             (Some ''Optional, comma-separated or one per line'') [Input ''ipAddresses'' (gc_ips s) False GcIpsTyped],
           loading_button (if gc_pending s then ''Generating...'' else ''Generate Certificate'') False (gc_pending s)
             GcSubmitted],
        confirm_dialog (gc_showConfirm s) ''Overwrite Existing Certificate?''
          ''A certificate already exists. Generating a new certificate will overwrite the existing certificate and private key files. This action cannot be undone.''
          ''Overwrite Certificate'' False GcOverwriteAgreed GcOverwriteCancelled]"

section \<open>The security mode\<close>

definition SECURITY_MODES :: "(string \<times> string \<times> string) list" where
  "SECURITY_MODES =
     [(''None'', ''None'', ''No signing or encryption (development/testing only)''),
      (''Sign'', ''Sign'', ''Messages are signed for integrity, but not encrypted''),
      (''SignAndEncrypt'', ''Sign & Encrypt'', ''Full confidentiality and integrity (recommended for production)'')]"

text \<open>\<open>md_applying\<close> is the mode the mutation that generates first was called with.\<close>

record mode_card =
  md_error :: "string option"
  md_pendingMode :: "string option"
  md_policyPending :: bool
  md_applying :: "string option"

definition new_mode_card :: mode_card where
  "new_mode_card = \<lparr>md_error = None, md_pendingMode = None, md_policyPending = False, md_applying = None\<rparr>"

datatype mode_event =
    ModeChosen string
  | GenerateAndApply
  | PendingCancelled
  | PolicyStored
  | PolicyNotStored call_error
  | FirstGenerated
  | ModeApplied
  | NotApplied call_error

definition mutate_policy :: "string \<Rightarrow> mode_card \<Rightarrow> mode_card \<times> unit effect list" where
  "mutate_policy mode s = (s\<lparr>md_policyPending := True\<rparr>, [Send (OfSecurity (UpdateSecurityPolicy mode))])"

definition handleModeChange :: "bool \<Rightarrow> string \<Rightarrow> mode_card \<Rightarrow> mode_card \<times> unit effect list" where
  "handleModeChange hasCertificate mode s =
     (let s1 = s\<lparr>md_error := None\<rparr> in
      if mode = ''None'' then mutate_policy mode s1
      else if \<not> hasCertificate then (s1\<lparr>md_pendingMode := Some mode\<rparr>, [])
      else mutate_policy mode s1)"

definition no_force :: jsval where
  "no_force = JObj [(''force'', JBool False)]"

fun mode_step :: "bool \<Rightarrow> mode_event \<Rightarrow> mode_card \<Rightarrow> mode_card \<times> unit effect list" where
  "mode_step has (ModeChosen mode) s = handleModeChange has mode s"
| "mode_step has GenerateAndApply s =
     (if truthy_str (md_pendingMode s)
      then (s\<lparr>md_applying := md_pendingMode s\<rparr>, [Send (OfSecurity (GenerateCertificate no_force))])
      else (s, []))"
| "mode_step has PendingCancelled s = (s\<lparr>md_pendingMode := None\<rparr>, [])"
| "mode_step has PolicyStored s =
     (s\<lparr>md_policyPending := False, md_error := None, md_pendingMode := None\<rparr>, [Invalidate [''security'']])"
| "mode_step has (PolicyNotStored e) s =
     (s\<lparr>md_policyPending := False, md_error := Some (error_text ''Failed to update security policy'' e)\<rparr>, [])"
| "mode_step has FirstGenerated s =
     (case md_applying s of None \<Rightarrow> (s, []) | Some mode \<Rightarrow> (s, [Send (OfSecurity (UpdateSecurityPolicy mode))]))"
| "mode_step has ModeApplied s =
     (s\<lparr>md_applying := None, md_error := None, md_pendingMode := None\<rparr>, [Invalidate [''security'']])"
| "mode_step has (NotApplied e) s =
     (s\<lparr>md_applying := None,
        md_error := Some (error_text ''Failed to generate certificate and apply policy'' e)\<rparr>, [])"

definition mode_view :: "string option \<Rightarrow> bool \<Rightarrow> mode_card \<Rightarrow> mode_event ui" where
  "mode_view currentMode has s =
     (let isWorking = md_policyPending s \<or> md_applying s \<noteq> None in
      Group
        [Text ''Security Mode'',
         only_if (truthy_str (md_error s)) (alert ''error'' [Text (the (md_error s))] None),
         only_if (truthy_str (md_pendingMode s) \<and> \<not> has)
           (Group [Text ''Certificate required'',
                   Text (the (md_pendingMode s) @ '' mode requires a server certificate. Generate one now with auto-detected settings?''),
                   loading_button ''Generate & Apply'' False (md_applying s \<noteq> None) GenerateAndApply,
                   Button ''Cancel'' False PendingCancelled]),
         Group (map (\<lambda>(v, label, desc).
             Group [Checkbox label (currentMode = Some v) isWorking (ModeChosen v),
                    only_if (v \<noteq> ''None'' \<and> \<not> has) (Text ''requires certificate''), Text desc]) SECURITY_MODES),
         only_if isWorking
           (Text (if md_applying s \<noteq> None then ''Generating certificate and restarting runtime...''
                  else ''Updating security mode and restarting runtime...''))])"

section \<open>The browser's check and the server's\<close>

lemma Number_of_digits:
  assumes "s \<noteq> []" "\<forall>c \<in> set s. is_digit c"
  shows "Number_of s = Fin (of_nat (dec_val s))"
proof -
  obtain c cs where s: "s = c # cs" using assms(1) by (cases s) auto
  have d: "is_digit c" "\<forall>x \<in> set cs. is_digit x" using assms(2) s by simp_all
  have ws: "\<not> js_ws x" if "is_digit x" for x
    using that by (auto simp: js_ws_def is_digit_def)
  have "dropWhile js_ws s = s" by (rule dropWhile_fixed) (simp add: s ws d(1))
  moreover have "dropWhile js_ws (rev s) = rev s"
    by (rule dropWhile_fixed) (use assms ws in \<open>simp add: hd_rev\<close>)
  ultimately have "trim s = s" by (simp add: trim_def)
  moreover have "takeWhile is_digit s = s" "dropWhile is_digit s = []"
    using assms(2) by (simp_all add: takeWhile_eq_all_conv dropWhile_eq_Nil_conv)
  moreover have "s \<noteq> ''Infinity''" "c \<noteq> CHR ''-''" "c \<noteq> CHR ''+''"
    using d(1) s by (auto simp: is_digit_def)
  moreover have "lower_char (hd cs) \<noteq> CHR ''x'' \<and> lower_char (hd cs) \<noteq> CHR ''o'' \<and> lower_char (hd cs) \<noteq> CHR ''b''"
    if "cs \<noteq> []"
    using d(2) that by (cases cs) (auto simp: lower_char_def is_digit_def)
  ultimately show ?thesis
    using assms(1) unfolding s Number_of_def Let_def
    by (auto simp add: unsigned_decimal_def exponent_def pow10_def)
qed

lemma san_octet_iff:
  "san_octet part \<longleftrightarrow>
     1 \<le> length part \<and> length part \<le> 3 \<and> (\<forall>c \<in> set part. is_digit c) \<and> dec_val part \<le> 255"
proof (cases "part \<noteq> [] \<and> (\<forall>c \<in> set part. is_digit c)")
  case True
  with Number_of_digits [of part] show ?thesis
    by (auto simp: san_octet_def rx_test_upto_times_Cls Let_def)
qed (auto simp: san_octet_def rx_test_upto_times_Cls Let_def)

lemma show_dec_val:
  assumes "s \<noteq> []" "\<forall>c \<in> set s. is_digit c" "s = ''0'' \<or> hd s \<noteq> CHR ''0''"
  shows "show_nat (dec_val s) = s"
  using assms
proof (induction s rule: rev_induct)
  case (snoc c s)
  show ?case
  proof (cases "s = []")
    case True
    with snoc.prems show ?thesis by (simp add: show_nat.simps dec_val_def)
  next
    case False
    with snoc.prems have h: "hd s \<noteq> CHR ''0''" and c: "is_digit c" by (auto simp: hd_append)
    with snoc False have IH: "show_nat (dec_val s) = s" by simp
    have "dec_val s \<noteq> 0"
    proof
      assume "dec_val s = 0"
      with IH have "s = show_nat 0" by simp
      moreover have "show_nat 0 = ''0''" by code_simp
      ultimately show False using h by simp
    qed
    with IH c show ?thesis by (subst show_nat.simps) simp
  qed
qed simp

lemma hd_show_nat: "hd (show_nat n) = CHR ''0'' \<Longrightarrow> n = 0"
proof (induction n rule: show_nat.induct)
  case (1 n)
  show ?case
  proof (cases "n < 10")
    case True
    have "digit_val (digit_char n) = n" using True by simp
    moreover have "digit_char n = CHR ''0''" using 1(2) True by (simp add: show_nat.simps [of n])
    ultimately show ?thesis by (simp add: digit_val_def)
  next
    case False
    have "show_nat (n div 10) \<noteq> []" by (subst show_nat.simps) simp
    with 1 False show ?thesis by (simp add: show_nat.simps [of n] hd_append)
  qed
qed

definition no_leading_zero :: "string \<Rightarrow> bool" where
  "no_leading_zero part \<longleftrightarrow> part = ''0'' \<or> part = [] \<or> hd part \<noteq> CHR ''0''"

lemma octet_alike: "octet_ok part \<longleftrightarrow> san_octet part \<and> no_leading_zero part"
proof
  assume "octet_ok part"
  then obtain n where n: "n \<le> 255" "part = show_nat n" by (auto simp: octet_ok_iff)
  have "no_leading_zero part"
    using hd_show_nat [of n] n(2) by (cases "n = 0") (auto simp: no_leading_zero_def show_nat.simps [of 0] digit_char_def)
  moreover have "san_octet part"
    using \<open>octet_ok part\<close> n by (auto simp: octet_ok_def san_octet_iff rx_test_upto_times_Cls)
  ultimately show "san_octet part \<and> no_leading_zero part" by simp
next
  assume a: "san_octet part \<and> no_leading_zero part"
  then have "part \<noteq> []" "\<forall>c \<in> set part. is_digit c" "dec_val part \<le> 255" by (auto simp: san_octet_iff)
  with a have "show_nat (dec_val part) = part"
    using show_dec_val [of part] by (auto simp: no_leading_zero_def)
  with \<open>dec_val part \<le> 255\<close> have "\<exists>n \<le> 255. part = show_nat n" by metis
  then show "octet_ok part" by (auto simp: octet_ok_iff)
qed

text \<open>An IPv4 address passes the server's check exactly if it passes the browser's and no part of it
  has a leading zero.\<close>

lemma ipv4_alike:
  "isValidIpv4 (trim ip) \<longleftrightarrow> san_isValidIpv4 ip \<and> list_all no_leading_zero (split_on CHR ''.'' (trim ip))"
  by (auto simp: isValidIpv4_def san_isValidIpv4_def Let_def list_all_iff octet_alike)

lemma dns_alike: "san_isValidDnsName s = validateDnsName s"
  by (simp add: san_isValidDnsName_def validateDnsName_def Let_def)

text \<open>The addresses the two do not agree on.\<close>

lemma addresses_differ:
  "san_isValidIpAddress ''1:2'' \<and> \<not> validateIpAddress ''1:2''"
  "\<not> san_isValidIpAddress ''1:2:3:4:5:6:7::'' \<and> validateIpAddress ''1:2:3:4:5:6:7::''"
  by (code_simp)+

lemma leading_zero_differs:
  "san_isValidIpAddress ''10.0.0.01'' \<and> \<not> validateIpAddress ''10.0.0.01''"
proof -
  have "trim ''10.0.0.01'' = ''10.0.0.01''" "split_on CHR ''.'' ''10.0.0.01'' = [''10'', ''0'', ''0'', ''01'']"
    by code_simp+
  then have "san_isValidIpv4 ''10.0.0.01''"
    by (simp add: san_isValidIpv4_def san_octet_iff is_digit_def dec_val_def digit_val_def)
  moreover have "\<not> validateIpAddress ''10.0.0.01''" by code_simp
  ultimately show ?thesis by (simp add: san_isValidIpAddress_def)
qed

section \<open>What the server makes of the form for a certificate\<close>

lemma split_on_subset: "p \<in> set (split_on c s) \<Longrightarrow> set p \<subseteq> set s"
proof (induction s arbitrary: p)
  case (Cons x xs)
  obtain q qs where q: "split_on c xs = q # qs" by (cases "split_on c xs") auto
  with Cons.IH [of q] Cons.IH [of p] Cons.prems show ?case by (auto split: if_splits)
qed simp

lemma parse_blank:
  assumes "trim v = []"
  shows "parseMultiInput v = []"
proof -
  have "trim q = []" if "q \<in> set (concat (map (split_on lf) (split_on CHR '','' v)))" for q
  proof -
    from that obtain p where "p \<in> set (split_on CHR '','' v)" "q \<in> set (split_on lf p)" by auto
    then have "set q \<subseteq> set v" using split_on_subset by blast
    with assms show ?thesis by (auto simp: trim_eq_Nil)
  qed
  then show ?thesis by (auto simp: parseMultiInput_def filter_empty_conv)
qed

lemma parse_trimmed: "p \<in> set (parseMultiInput v) \<Longrightarrow> trim p = p"
  by (auto simp: parseMultiInput_def trim_trim)

lemma listed_ok:
  "list_error kind ok m v = None \<Longrightarrow> list_all ok (parseMultiInput v)"
  by (cases "trim v = []") (auto simp: list_error_def parse_blank Let_def list_all_iff filter_empty_conv split: if_splits)

lemma options_fields:
  "body_field (json_copy (generate_options force s)) ''dnsNames'' =
     (if parseMultiInput (gc_dns s) = [] then JUndefined else JArr (map JStr (parseMultiInput (gc_dns s))))"
  "body_field (json_copy (generate_options force s)) ''ipAddresses'' =
     (if parseMultiInput (gc_ips s) = [] then JUndefined else JArr (map JStr (parseMultiInput (gc_ips s))))"
  "body_field (json_copy (generate_options force s)) ''force'' = (if force then JBool True else JUndefined)"
  "body_field (json_copy (generate_options force s)) ''commonName'' = JUndefined"
  "body_field (json_copy (generate_options force s)) ''organization'' = JUndefined"
  "body_field (json_copy (generate_options force s)) ''country'' = JUndefined"
  by (simp_all add: generate_options_def Let_def getprop_def comp_def)

lemma check_list_texts:
  "check_list field ok m (JArr (map JStr xs)) = [] \<longleftrightarrow> list_all (\<lambda>s. ok (trim s)) xs"
proof -
  have "concat (map (\<lambda>(i, x). case x of
              JStr s \<Rightarrow> (let trimmed = trim s in if \<not> ok trimmed then [(field, m i)] else [])
            | _ \<Rightarrow> []) (enumerate n (map JStr xs))) = [] \<longleftrightarrow> list_all (\<lambda>s. ok (trim s)) xs" for n
    by (induction xs arbitrary: n) (auto simp: Let_def)
  then show ?thesis by (simp add: check_list_def)
qed

lemma check_list_field: "e \<in> set (check_list field ok m v) \<Longrightarrow> fst e = field"
  by (auto simp: check_list_def Let_def split: jsval.splits if_splits)

definition sent_list :: "string list \<Rightarrow> jsval" where
  "sent_list xs = (if xs = [] then JUndefined else JArr (map JStr xs))"

lemma sent_trimmed: "(\<And>p. p \<in> set xs \<Longrightarrow> trim p = p) \<Longrightarrow> trim_values (sent_list xs) = sent_list xs"
  by (auto simp: sent_list_def trim_values_def trim_value_def comp_def)

lemma check_sent:
  assumes "\<And>p. p \<in> set xs \<Longrightarrow> trim p = p"
  shows "check_list field ok m (sent_list xs) = [] \<longleftrightarrow> list_all ok xs"
  using check_list_texts [of field ok m xs] assms
  by (cases "xs = []") (auto simp: sent_list_def check_list_def list_all_iff)

lemma options_body:
  "trimmed_body (json_copy (generate_options force s)) =
     \<lparr>gr_commonName = JUndefined, gr_organization = JUndefined, gr_country = JUndefined,
      gr_dnsNames = sent_list (parseMultiInput (gc_dns s)), gr_ipAddresses = sent_list (parseMultiInput (gc_ips s))\<rparr>"
  using sent_trimmed [OF parse_trimmed]
  by (simp add: trimmed_body_def options_fields trim_value_def flip: sent_list_def)

text \<open>C38: What the form for a certificate sends, once the browser lets it through, has no field the
  server objects to but the addresses: every DNS name passes the server's check, and the server
  refuses exactly if one of the addresses, which the browser has accepted, fails it.\<close>

theorem submitted_names_checked:
  assumes "dns_error s = None" "ip_error s = None"
  shows "\<exists>es. validateGenerateRequest (trimmed_body (json_copy (generate_options force s))) = Inr es
    \<and> (es = [] \<longleftrightarrow> list_all validateIpAddress (parseMultiInput (gc_ips s)))
    \<and> list_all (\<lambda>e. fst e = ''ipAddresses'') es
    \<and> list_all san_isValidIpAddress (parseMultiInput (gc_ips s))"
proof -
  have "list_all validateDnsName (parseMultiInput (gc_dns s))"
    using listed_ok [OF assms(1) [unfolded dns_error_def]] by (simp add: list_all_iff dns_alike)
  then have dns: "check_list ''dnsNames'' validateDnsName m (sent_list (parseMultiInput (gc_dns s))) = []" for m
    using check_sent [OF parse_trimmed] by simp
  show ?thesis
    using listed_ok [OF assms(2) [unfolded ip_error_def]] check_list_field
    by (auto simp: options_body validateGenerateRequest_def check_text_def dns check_sent [OF parse_trimmed] list_all_iff)
qed

lemma submitted_names_checked_witness:
  "let s = new_generate_card\<lparr>gc_dns := ''opcua.local, plc-1'', gc_ips := ''10.0.0.1''\<rparr> in
     validateGenerateRequest (trimmed_body (json_copy (generate_options False s))) = Inr []"
proof -
  let ?s = "new_generate_card\<lparr>gc_dns := ''opcua.local, plc-1'', gc_ips := ''10.0.0.1''\<rparr>"
  have p: "parseMultiInput ''10.0.0.1'' = [''10.0.0.1'']" "trim ''10.0.0.1'' = ''10.0.0.1''"
    by code_simp+
  have v: "validateIpAddress ''10.0.0.1''" "isValidIpv4 ''10.0.0.1''" by code_simp+
  have "san_isValidIpAddress ''10.0.0.1''"
    using v(2) p(2) ipv4_alike [of "''10.0.0.1''"] by (simp add: san_isValidIpAddress_def)
  then have i: "ip_error ?s = None"
    by (simp add: ip_error_def list_error_def p Let_def MAX_SAN_ENTRIES_def)
  have d: "dns_error ?s = None" by code_simp
  from submitted_names_checked [OF d i, of False] p(1) v(1) show ?thesis by (auto simp: Let_def)
qed

text \<open>A request without \<open>force\<close> changes nothing once there is a certificate.\<close>

lemma unforced_keeps:
  assumes "body_field b ''force'' \<noteq> JBool True" "hs_files h (generated_cert_path env) \<noteq> None"
  shows "snd (post_generate env b h) = h"
  using assms by (auto simp: post_generate_def Let_def split: sum.splits list.splits)

lemma mode_card_unforced:
  "Send (OfSecurity (GenerateCertificate v)) \<in> set (snd (mode_step has e s)) \<Longrightarrow> v = no_force"
  by (cases e) (auto simp: handleModeChange_def mutate_policy_def Let_def split: if_splits option.splits)

lemma generate_card_unforced:
  assumes "Send (OfSecurity (GenerateCertificate v)) \<in> set (snd (generate_step sans has e s))"
  shows "e = GcOverwriteAgreed \<or> (\<not> has \<and> (\<exists>s1. v = generate_options False s1))"
  using assms
  by (cases e) (auto simp: generate_step_def generate_submit_def send_generate_def Let_def split: if_splits)

text \<open>C37: A certificate is only overwritten by a user who was asked: the two cards that generate one ask
  the server to overwrite only when the question about it is agreed to, which can be done only
  while it is shown; whatever else they send leaves the server as it is if a certificate file is
  there, and the form sends nothing at all without the question if it knows of a certificate.\<close>

theorem overwrites_only_when_agreed:
  assumes "hs_files h (generated_cert_path env) \<noteq> None" "sent = Send (OfSecurity (GenerateCertificate v))"
  shows "(sent \<in> set (snd (mode_step has' e' m)) \<longrightarrow> snd (post_generate env (json_copy v) h) = h)
    \<and> (sent \<in> set (snd (generate_step sans has e s)) \<longrightarrow>
        e = GcOverwriteAgreed \<or> (\<not> has \<and> snd (post_generate env (json_copy v) h) = h))
    \<and> (offers (generate_view s) GcOverwriteAgreed \<longleftrightarrow> gc_showConfirm s)"
proof (intro conjI impI)
  assume "sent \<in> set (snd (mode_step has' e' m))"
  then have "v = no_force" using mode_card_unforced assms(2) by blast
  then show "snd (post_generate env (json_copy v) h) = h"
    using unforced_keeps [OF _ assms(1), of "json_copy no_force"] by (simp add: no_force_def getprop_def)
next
  assume "sent \<in> set (snd (generate_step sans has e s))"
  then show "e = GcOverwriteAgreed \<or> (\<not> has \<and> snd (post_generate env (json_copy v) h) = h)"
    using generate_card_unforced [of v sans has e s] unforced_keeps [OF _ assms(1)] assms(2)
    by (auto simp: options_fields)
next
  show "offers (generate_view s) GcOverwriteAgreed \<longleftrightarrow> gc_showConfirm s"
    by (auto simp: generate_view_def confirm_dialog_def form_field_def alert_def nothing_def)
qed

lemma overwrites_only_when_agreed_witness:
  "let h = (demo_host (demo_plant []))\<lparr>hs_files := (\<lambda>_. Some \<lparr>f_data = [], f_mode = 0\<rparr>)\<rparr>;
       m = new_mode_card\<lparr>md_pendingMode := Some ''Sign''\<rparr> in
     snd (mode_step False GenerateAndApply m) = [Send (OfSecurity (GenerateCertificate no_force))]
     \<and> snd (post_generate (demo_host_env (demo_os True (\<lambda>_. None))) (json_copy no_force) h) = h"
proof -
  let ?h = "(demo_host (demo_plant []))\<lparr>hs_files := (\<lambda>_. Some \<lparr>f_data = [], f_mode = 0\<rparr>)\<rparr>"
  let ?m = "new_mode_card\<lparr>md_pendingMode := Some ''Sign''\<rparr>"
  have h: "hs_files ?h (generated_cert_path (demo_host_env (demo_os True (\<lambda>_. None)))) \<noteq> None" by simp
  have m: "snd (mode_step False GenerateAndApply ?m) = [Send (OfSecurity (GenerateCertificate no_force))]" by simp
  from overwrites_only_when_agreed [OF h refl, of no_force False GenerateAndApply ?m] m show ?thesis
    by (simp add: Let_def del: mode_step.simps)
qed

text \<open>
  The card for the mode generates first and then applies: if the second call fails, the first has
  left a certificate, so that the same attempt is refused from then on.
\<close>

lemma second_attempt_refused:
  assumes "hs_files h (generated_cert_path env) \<noteq> None"
  shows "post_generate env (json_copy no_force) h =
    (error_response 400 ''VALIDATION_ERROR'' ''Certificate already exists. Set force=true to overwrite.'', h)"
  using assms
  by (auto simp: no_force_def post_generate_def trimmed_body_def trim_value_def trim_values_def getprop_def
      validateGenerateRequest_def check_text_def check_list_def)

end
