(* ===== verification/CertificateScreens.thy ===== *)
theory CertificateScreens
  imports SecurityScreens
begin

text \<open>
  The other cards of \<open>web/src/screens/security/\<close>: naming a certificate that is there, what is shown of
  it, and the list of the client certificates; and what the server makes of what the cards send.
\<close>

section \<open>Naming a certificate\<close>

record upload_card =
  uc_certificatePath :: string
  uc_privateKeyPath :: string
  uc_error :: "string option"
  uc_pending :: bool

definition new_upload_card :: upload_card where
  "new_upload_card =
     \<lparr>uc_certificatePath = [], uc_privateKeyPath = [], uc_error = None, uc_pending = False\<rparr>"

text \<open>The answer to browsing has the path that was selected, or \<open>null\<close>.\<close>

datatype upload_event =
    UcCertificateTyped string
  | UcKeyTyped string
  | UcBrowseCertificate
  | UcBrowseKey
  | UcCertificateFound "string option"
  | UcKeyFound "string option"
  | UcSubmitted
  | UcStored
  | UcNotStored call_error

definition browse_options :: "string list \<Rightarrow> jsval" where
  "browse_options extensions = JObj [(''extensions'', JArr (map JStr extensions))]"

fun upload_step :: "upload_event \<Rightarrow> upload_card \<Rightarrow> upload_card \<times> unit effect list" where
  "upload_step (UcCertificateTyped v) s = (s\<lparr>uc_certificatePath := v\<rparr>, [])"
| "upload_step (UcKeyTyped v) s = (s\<lparr>uc_privateKeyPath := v\<rparr>, [])"
| "upload_step UcBrowseCertificate s =
     (s, [Send (OfSecurity (BrowseFiles (Some (browse_options [''.der'', ''.pem'', ''.crt'']))))])"
| "upload_step UcBrowseKey s =
     (s, [Send (OfSecurity (BrowseFiles (Some (browse_options [''.key'', ''.pem'']))))])"
| "upload_step (UcCertificateFound p) s =
     (case p of None \<Rightarrow> s | Some v \<Rightarrow> s\<lparr>uc_certificatePath := v\<rparr>, [])"
| "upload_step (UcKeyFound p) s = (case p of None \<Rightarrow> s | Some v \<Rightarrow> s\<lparr>uc_privateKeyPath := v\<rparr>, [])"
| "upload_step UcSubmitted s =
     (if trim (uc_certificatePath s) = [] \<or> trim (uc_privateKeyPath s) = []
      then (s\<lparr>uc_error := Some ''Both certificate path and private key path are required''\<rparr>, [])
      else (s\<lparr>uc_error := None, uc_pending := True\<rparr>,
            [Send (OfSecurity (UploadCertificate (uc_certificatePath s) (uc_privateKeyPath s)))]))"
| "upload_step UcStored s =
     (s\<lparr>uc_certificatePath := [], uc_privateKeyPath := [], uc_error := None, uc_pending := False\<rparr>,
      [Invalidate [''security'']])"
| "upload_step (UcNotStored e) s =
     (s\<lparr>uc_error := Some (error_text ''Failed to upload certificate'' e), uc_pending := False\<rparr>, [])"

definition upload_view :: "upload_card \<Rightarrow> upload_event ui" where
  "upload_view s =
     Form ''Upload Certificate'' UcSubmitted
       [only_if (truthy_str (uc_error s)) (alert ''error'' [Text (the (uc_error s))] None),
        form_field ''certificatePath'' ''Certificate file path'' False None None
          [Input ''certificatePath'' (uc_certificatePath s) False UcCertificateTyped,
           Button ''Browse'' False UcBrowseCertificate],
        form_field ''privateKeyPath'' ''Private key file path'' False None None
          [Input ''privateKeyPath'' (uc_privateKeyPath s) False UcKeyTyped, Button ''Browse'' False UcBrowseKey],
        loading_button ''Upload Certificate'' False (uc_pending s) UcSubmitted]"

section \<open>What is shown of the certificate\<close>

datatype format_event = FormatChosen string | DownloadPressed

text \<open>The format of the download, which the browser fetches by itself.\<close>

fun status_card_step :: "format_event \<Rightarrow> string \<Rightarrow> string \<times> string option" where
  "status_card_step (FormatChosen f) fmt = (f, None)"
| "status_card_step DownloadPressed fmt =
     (fmt, Some (getCertificateDownloadUrl (if fmt = ''pem'' then Some ''pem'' else None)))"

definition status_card_view :: "security_config \<Rightarrow> string \<Rightarrow> format_event ui" where
  "status_card_view c fmt =
     (let path = truthy_str (sv_certificatePath c); valid = (sv_certificateValid c = Some True) in
      Group
        [Text ''Certificate Status'',
         Text ''Certificate:'',
         Text (if path then (if valid then ''Valid'' else ''Invalid'') else ''Not configured''),
         Text ''Private Key:'', Text (if sv_privateKeyConfigured c then ''Configured'' else ''Not configured''),
         only_if path (Group [Text ''Path:'', Text (the (sv_certificatePath c))]),
         Choice ''Certificate format'' fmt (\<not> path \<or> \<not> valid) [(''der'', ''DER''), (''pem'', ''PEM'')] FormatChosen,
         only_if (path \<and> valid) (Button ''Download Certificate'' False DownloadPressed)])"

definition expiry_card_view :: "security_config \<Rightarrow> 'e ui" where
  "expiry_card_view c =
     (case (sv_expiresAt c, sv_remainingDays c) of
        (Some at', Some days) \<Rightarrow>
          Group
            [Text ''Certificate Expiry'', Text ''Remaining Days:'',
             (if days = 0 then Text ''Expired''
              else if days < 30 then Group [Text (show_int days), Text ''(expires soon - critical)'']
              else if days \<le> 90 then Group [Text (show_int days), Text ''(expiring soon - warning)'']
              else Text (show_int days)),
             Text ''Expires At:'', Text (hd (split_on CHR ''T'' at'))]
      | _ \<Rightarrow> Group [Text ''Certificate Expiry'', Text ''No certificate expiry data available''])"

section \<open>Client certificates\<close>

record certificate_panel =
  ct_confirmingDelete :: "string option"
  ct_actionError :: "string option"
  ct_rejecting :: bool
  ct_trusting :: bool
  ct_deleting :: bool

definition new_certificate_panel :: certificate_panel where
  "new_certificate_panel =
     \<lparr>ct_confirmingDelete = None, ct_actionError = None, ct_rejecting = False, ct_trusting = False,
      ct_deleting = False\<rparr>"

datatype panel_event =
    RejectPressed string
  | CertRejected
  | CertNotRejected call_error
  | TrustPressed string
  | CertTrusted
  | CertNotTrusted call_error
  | CertDeletePressed string
  | CertDeleteAgreed
  | CertDeleteCancelled
  | CertDeleted
  | CertNotDeleted call_error

definition certificates_changed :: "unit effect list" where
  "certificates_changed = [Invalidate [''pki-certificates'']]"

fun panel_step :: "panel_event \<Rightarrow> certificate_panel \<Rightarrow> certificate_panel \<times> unit effect list" where
  "panel_step (RejectPressed t) s = (s\<lparr>ct_rejecting := True\<rparr>, [Send (OfPki (RejectPkiCertificate t))])"
| "panel_step CertRejected s = (s\<lparr>ct_rejecting := False, ct_actionError := None\<rparr>, certificates_changed)"
| "panel_step (CertNotRejected e) s =
     (s\<lparr>ct_rejecting := False, ct_actionError := Some (error_text ''Failed to reject certificate'' e)\<rparr>, [])"
| "panel_step (TrustPressed t) s = (s\<lparr>ct_trusting := True\<rparr>, [Send (OfPki (TrustPkiCertificate t))])"
| "panel_step CertTrusted s = (s\<lparr>ct_trusting := False, ct_actionError := None\<rparr>, certificates_changed)"
| "panel_step (CertNotTrusted e) s =
     (s\<lparr>ct_trusting := False, ct_actionError := Some (error_text ''Failed to trust certificate'' e)\<rparr>, [])"
| "panel_step (CertDeletePressed t) s = (s\<lparr>ct_confirmingDelete := Some t\<rparr>, [])"
| "panel_step CertDeleteAgreed s =
     (if truthy_str (ct_confirmingDelete s)
      then (s\<lparr>ct_deleting := True\<rparr>, [Send (OfPki (DeletePkiCertificate (the (ct_confirmingDelete s))))])
      else (s, []))"
| "panel_step CertDeleteCancelled s = (s\<lparr>ct_confirmingDelete := None\<rparr>, [])"
| "panel_step CertDeleted s =
     (s\<lparr>ct_deleting := False, ct_actionError := None, ct_confirmingDelete := None\<rparr>, certificates_changed)"
| "panel_step (CertNotDeleted e) s =
     (s\<lparr>ct_deleting := False, ct_confirmingDelete := None,
        ct_actionError := Some (error_text ''Failed to delete certificate'' e)\<rparr>, [])"

text \<open>\<open>date\<close> is \<open>formatDate\<close>, the local date of a time.\<close>

definition certificate_row :: "(string \<Rightarrow> string) \<Rightarrow> certificate_panel \<Rightarrow> certificate_info \<Rightarrow> panel_event ui" where
  "certificate_row date s c =
     Group
       [Text (take 16 (ci_thumbprint c)), Text (ci_subject c),
        badge (if ci_status c = ''trusted'' then ''green'' else ''red'')
          (if ci_status c = ''trusted'' then ''Trusted'' else ''Rejected''),
        Text (date (ci_notAfter c)),
        only_if (ci_status c = ''trusted'') (Button ''Reject'' (ct_rejecting s) (RejectPressed (ci_thumbprint c))),
        only_if (ci_status c = ''rejected'') (Button ''Trust'' (ct_trusting s) (TrustPressed (ci_thumbprint c))),
        Button ''Delete'' (ct_deleting s) (CertDeletePressed (ci_thumbprint c))]"

fun panel_view ::
  "(string \<Rightarrow> string) \<Rightarrow> certificate_info list query_data \<Rightarrow> certificate_panel \<Rightarrow> panel_event ui" where
  "panel_view date QueryLoading s = Group [Text ''Client Certificates'', Text ''Loading certificates...'']"
| "panel_view date (QueryFailed m) s =
     Group [Text ''Client Certificates'', alert ''error'' [Text (''Failed to load certificates: '' @ m)] None]"
| "panel_view date (QueryData cs) s =
     (if cs = [] then
        Group [Text ''Client Certificates'', Text ''No client certificates have been received yet.'']
      else Group
        [Text ''Client Certificates'',
         only_if (truthy_str (ct_actionError s)) (alert ''error'' [Text (the (ct_actionError s))] None),
         Group (map (certificate_row date s) cs),
         confirm_dialog (truthy_str (ct_confirmingDelete s)) ''Delete Certificate?''
           (''Are you sure you want to delete certificate ''
             @ (case ct_confirmingDelete s of None \<Rightarrow> [] | Some t \<Rightarrow> take 16 t) @ ''...?'')
           (if ct_deleting s then ''Deleting...'' else ''Delete'') (ct_deleting s) CertDeleteAgreed
           CertDeleteCancelled])"

section \<open>The screen\<close>

text \<open>The cards, and whether there is a certificate, from the configuration the server answers.\<close>

record security_screen =
  sc_mode :: mode_card
  sc_format :: string
  sc_generate :: generate_card
  sc_upload :: upload_card
  sc_panel :: certificate_panel

datatype security_event =
    OfModeCard mode_event
  | OfStatusCard format_event
  | OfGenerateCard generate_event
  | OfUploadCard upload_event
  | OfPanel panel_event

definition has_certificate :: "security_config option \<Rightarrow> bool" where
  "has_certificate c = (case c of None \<Rightarrow> False | Some c \<Rightarrow> truthy_str (sv_certificatePath c))"

definition new_security_screen :: security_screen where
  "new_security_screen =
     \<lparr>sc_mode = new_mode_card, sc_format = ''der'', sc_generate = new_generate_card,
      sc_upload = new_upload_card, sc_panel = new_certificate_panel\<rparr>"

fun security_screen_step ::
  "suggestion \<Rightarrow> security_config option \<Rightarrow> security_event \<Rightarrow> security_screen
     \<Rightarrow> security_screen \<times> unit effect list" where
  "security_screen_step sans c (OfModeCard e) s =
     apfst (\<lambda>x. s\<lparr>sc_mode := x\<rparr>) (mode_step (has_certificate c) e (sc_mode s))"
| "security_screen_step sans c (OfStatusCard e) s = (s\<lparr>sc_format := fst (status_card_step e (sc_format s))\<rparr>, [])"
| "security_screen_step sans c (OfGenerateCard e) s =
     apfst (\<lambda>x. s\<lparr>sc_generate := x\<rparr>) (generate_step sans (has_certificate c) e (sc_generate s))"
| "security_screen_step sans c (OfUploadCard e) s = apfst (\<lambda>x. s\<lparr>sc_upload := x\<rparr>) (upload_step e (sc_upload s))"
| "security_screen_step sans c (OfPanel e) s = apfst (\<lambda>x. s\<lparr>sc_panel := x\<rparr>) (panel_step e (sc_panel s))"

fun security_settings ::
  "(string \<Rightarrow> string) \<Rightarrow> certificate_info list query_data \<Rightarrow> security_config query_data \<Rightarrow> security_screen
     \<Rightarrow> security_event ui" where
  "security_settings date cs QueryLoading s = Text ''Loading security configuration...''"
| "security_settings date cs (QueryFailed m) s =
     alert ''error'' [Text (''Failed to load security configuration: '' @ m)] None"
| "security_settings date cs (QueryData c) s =
     Group
       [Text ''Security Settings'',
        Text ''Configure OPC UA transport security between clients and the runtime.'',
        map_ui OfModeCard (mode_view (Some (sv_mode c)) (has_certificate (Some c)) (sc_mode s)),
        map_ui OfStatusCard (status_card_view c (sc_format s)), expiry_card_view c,
        map_ui OfGenerateCard (generate_view (sc_generate s)), map_ui OfUploadCard (upload_view (sc_upload s)),
        map_ui OfPanel (panel_view date cs (sc_panel s))]"

section \<open>What can be done\<close>

text \<open>Each certificate offers the action that fits its state.\<close>

lemma row_offers:
  "offers (certificate_row date s c) (RejectPressed t) \<longleftrightarrow>
     ci_status c = ''trusted'' \<and> \<not> ct_rejecting s \<and> t = ci_thumbprint c"
  "offers (certificate_row date s c) (TrustPressed t) \<longleftrightarrow>
     ci_status c = ''rejected'' \<and> \<not> ct_trusting s \<and> t = ci_thumbprint c"
  by (auto simp: certificate_row_def badge_def)

text \<open>
  The server's answer to browsing lists a directory and never selects anything, so that the two
  buttons leave the paths as they are.
\<close>

lemma browse_selects_nothing:
  assumes "read_by rd (post_browse env b) = Inr v"
  shows "body_field v ''selectedPath'' = JNull"
proof -
  have "\<not> 200 \<le> rs_status (post_browse env b) \<or> \<not> rs_status (post_browse env b) < 300
      \<or> (\<exists>es path. post_browse env b = browse_response es path)"
    by (auto simp: post_browse_def list_directory_def Let_def error_response_def internal_error_def invalid_start_def
        respond_def split: jsval.splits option.splits sum.splits entry_kind.splits)
  then show ?thesis
    using assms
    by (auto simp: read_by_def read_answer_def succeeded_def browse_response_def respond_def getprop_def)
qed

end
