(* ===== verification/Dashboard.thy ===== *)
theory Dashboard
  imports CertificateScreens EventStream SpaceScreens
begin

text \<open>
  \<open>web/src/layout/\<close>, \<open>web/src/screens/dashboard/\<close> and the hooks they use: the frame of the web
  interface with its status bar and log, the panels of the first screen, and starting and stopping
  the runtime. The status of the server is the value the query or the stream put into the cache.
\<close>

section \<open>Times\<close>

definition js_rem :: "rat \<Rightarrow> rat \<Rightarrow> rat" where
  "js_rem a b = a - b * of_int (if 0 \<le> a / b then \<lfloor>a / b\<rfloor> else \<lceil>a / b\<rceil>)"

definition unit_part :: "int \<Rightarrow> string \<Rightarrow> string list" where
  "unit_part n u = (if n > 0 then [show_int n @ u] else [])"

definition formatUptime :: "rat \<Rightarrow> string" where
  "formatUptime seconds =
     (let days = \<lfloor>seconds / 86400\<rfloor>;
          hours = \<lfloor>js_rem seconds 86400 / 3600\<rfloor>;
          minutes = \<lfloor>js_rem seconds 3600 / 60\<rfloor>;
          secs = \<lfloor>js_rem seconds 60\<rfloor>
      in join '' '' (unit_part days ''d'' @ unit_part hours ''h'' @ unit_part minutes ''m''
           @ [show_int secs @ ''s'']))"

text \<open>\<open>elapsed\<close> in milliseconds; \<open>None\<close> if the text is no time.\<close>

definition formatRelativeDuration :: "int option \<Rightarrow> string" where
  "formatRelativeDuration elapsed =
     (case elapsed of
        None \<Rightarrow> ''just now''
      | Some ms \<Rightarrow>
          if ms < 1000 then ''just now''
          else let total = ms div 1000;
                   parts = unit_part (total div 86400) ''d'' @ unit_part (total mod 86400 div 3600) ''h''
                     @ unit_part (total mod 3600 div 60) ''m'' @ unit_part (total mod 60) ''s''
               in if parts = [] then ''just now'' else join '' '' (take 2 parts))"

section \<open>The log\<close>

text \<open>\<open>LogStream\<close>: a set of listeners, in the order they subscribed.\<close>

definition log_subscribe :: "nat \<Rightarrow> nat list \<Rightarrow> nat list" where
  "log_subscribe l ls = (if l \<in> set ls then ls else ls @ [l])"

definition log_unsubscribe :: "nat \<Rightarrow> nat list \<Rightarrow> nat list" where
  "log_unsubscribe l ls = filter (\<lambda>k. k \<noteq> l) ls"

definition log_publish :: "jsval \<Rightarrow> nat list \<Rightarrow> (nat \<times> jsval) list" where
  "log_publish entry ls = map (\<lambda>l. (l, entry)) ls"

record log_panel =
  lp_logs :: "jsval list"
  lp_autoScroll :: bool
  lp_activeLevels :: "string list"

definition new_log_panel :: log_panel where
  "new_log_panel = \<lparr>lp_logs = [], lp_autoScroll = True, lp_activeLevels = [''info'', ''warn'', ''error'']\<rparr>"

text \<open>Scrolling reports whether the end of the list is near.\<close>

datatype log_event =
    LogArrived jsval
  | LogScrolled bool
  | LevelToggled string
  | AutoScrollPressed
  | LogCleared
  | LogClosed

fun log_panel_step :: "log_event \<Rightarrow> log_panel \<Rightarrow> log_panel" where
  "log_panel_step (LogArrived entry) s =
     (let next = lp_logs s @ [entry] in
      s\<lparr>lp_logs := (if length next > 1000 then drop (length next - 1000) next else next)\<rparr>)"
| "log_panel_step (LogScrolled near) s = s\<lparr>lp_autoScroll := near\<rparr>"
| "log_panel_step (LevelToggled lv) s =
     s\<lparr>lp_activeLevels := (if lv \<in> set (lp_activeLevels s) then filter (\<lambda>k. k \<noteq> lv) (lp_activeLevels s)
                           else lp_activeLevels s @ [lv])\<rparr>"
| "log_panel_step AutoScrollPressed s = s\<lparr>lp_autoScroll := True\<rparr>"
| "log_panel_step LogCleared s = s\<lparr>lp_logs := []\<rparr>"
| "log_panel_step LogClosed s = s"

definition LOG_LEVELS :: "string list" where
  "LOG_LEVELS = [''debug'', ''info'', ''warn'', ''error'']"

definition level_active :: "log_panel \<Rightarrow> jsval \<Rightarrow> bool" where
  "level_active s e = (case body_field e ''level'' of JStr lv \<Rightarrow> lv \<in> set (lp_activeLevels s) | _ \<Rightarrow> False)"

definition filteredLogs :: "log_panel \<Rightarrow> jsval list" where
  "filteredLogs s = filter (level_active s) (lp_logs s)"

text \<open>\<open>time\<close> is the local time of a timestamp.\<close>

definition log_panel_view :: "(jsval \<Rightarrow> string) \<Rightarrow> (jsval \<Rightarrow> string) \<Rightarrow> bool \<Rightarrow> log_panel \<Rightarrow> log_event ui" where
  "log_panel_view str time open' s =
     only_if open'
       (Group
         [Text ''System Log'', Group (map (\<lambda>lv. Button lv False (LevelToggled lv)) LOG_LEVELS),
          Text (show_nat (length (filteredLogs s)) @ '' entries''),
          only_if (\<not> lp_autoScroll s) (Button ''Auto-scroll'' False AutoScrollPressed),
          Button ''Clear'' False LogCleared, Button [] False LogClosed,
          (if filteredLogs s = [] then Text ''No log entries matching the selected filters.''
           else Group (map (\<lambda>e. Group [Text (''['' @ time (body_field e ''timestamp'') @ '']''),
                  Text (as_text str (body_field e ''source'')), Text (as_text str (body_field e ''message''))])
                (filteredLogs s)))])"

section \<open>The status bar\<close>

definition getCertificateHealthColor :: "int \<Rightarrow> string" where
  "getCertificateHealthColor days =
     (if days > 90 then ''green'' else if days \<ge> 30 then ''yellow'' else ''red'')"

definition getRuntimeDotColor :: "string \<Rightarrow> bool \<Rightarrow> string" where
  "getRuntimeDotColor state backendDown =
     (if backendDown then ''gray'' else if state = ''running'' then ''green''
      else if state = ''error'' then ''red'' else ''yellow'')"

definition getRuntimeLabel :: "string \<Rightarrow> bool \<Rightarrow> string" where
  "getRuntimeLabel state backendDown =
     (if backendDown then ''Unknown'' else if state = ''running'' then ''Running''
      else if state = ''error'' then ''Error'' else ''Stopped'')"

fun getBackendDotColor :: "connection_state option \<Rightarrow> string" where
  "getBackendDotColor (Some SseConnected) = ''green''"
| "getBackendDotColor (Some SseConnecting) = ''yellow''"
| "getBackendDotColor _ = ''red''"

fun getBackendLabel :: "connection_state option \<Rightarrow> string" where
  "getBackendLabel (Some SseConnected) = ''Connected''"
| "getBackendLabel (Some SseConnecting) = ''Connecting...''"
| "getBackendLabel _ = ''Disconnected''"

definition text_at :: "(jsval \<Rightarrow> string) \<Rightarrow> jsval option \<Rightarrow> string \<Rightarrow> string option" where
  "text_at str v k =
     (case v of None \<Rightarrow> None
      | Some x \<Rightarrow> if nullish (body_field x k) then None else Some (as_text str (body_field x k)))"

definition clients_text :: "(jsval \<Rightarrow> string) \<Rightarrow> jsval option \<Rightarrow> string" where
  "clients_text str status =
     (let n = (case text_at str status ''connectedClients'' of None \<Rightarrow> ''0'' | Some n \<Rightarrow> n)
      in n @ '' client'' @ (if n \<noteq> ''1'' then ''s'' else []))"

fun uptime_text :: "jsval \<Rightarrow> string option" where
  "uptime_text (JNum (Fin q)) = Some (formatUptime q)"
| "uptime_text _ = None"

text \<open>The bar; the event opens and closes the log.\<close>

definition status_bar ::
  "(jsval \<Rightarrow> string) \<Rightarrow> connection_state option \<Rightarrow> jsval option \<Rightarrow> security_config option \<Rightarrow> 'e \<Rightarrow> 'e ui" where
  "status_bar str conn status security toggle =
     (let down = (conn = Some SseDisconnected);
          state = (case text_at str status ''state'' of None \<Rightarrow> ''unknown'' | Some t \<Rightarrow> t);
          running = (text_at str status ''state'' = Some ''running'');
          lastError = text_at str status ''lastError'' in
      Group
        [Text (''Backend: '' @ getBackendLabel conn), Text (''Runtime: '' @ getRuntimeLabel state down),
         (if \<not> down \<and> running then
            case uptime_text (body_field (the status) ''uptime'') of None \<Rightarrow> nothing | Some t \<Rightarrow> Text t
          else nothing),
         only_if (\<not> down \<and> running) (Text (clients_text str status)),
         (case security of None \<Rightarrow> nothing
          | Some c \<Rightarrow> (case sv_remainingDays c of None \<Rightarrow> nothing
              | Some d \<Rightarrow> Text (if d = 0 then ''Expired'' else show_int d @ ''d''))),
         Button ''Log'' False toggle,
         only_if (truthy_str lastError \<and> \<not> down) (Text (the lastError))])"

section \<open>Starting and stopping the runtime\<close>

record control =
  co_pending :: bool
  co_error :: "string option"

datatype control_name = StartIt | StopIt | ReloadIt

datatype control_event = ControlPressed control_name | ControlDone control_name | ControlFailed control_name call_error

type_synonym controls = "control_name \<Rightarrow> control"

definition new_controls :: controls where
  "new_controls = (\<lambda>_. \<lparr>co_pending = False, co_error = None\<rparr>)"

fun control_call :: "control_name \<Rightarrow> server_call" where
  "control_call StartIt = StartServer"
| "control_call StopIt = StopServer"
| "control_call ReloadIt = ReloadServer"

text \<open>A mutation forgets its error when it is called again.\<close>

fun control_step :: "control_event \<Rightarrow> controls \<Rightarrow> controls \<times> unit effect list" where
  "control_step (ControlPressed n) s =
     (s(n := \<lparr>co_pending = True, co_error = None\<rparr>), [Send (OfServer (control_call n))])"
| "control_step (ControlDone n) s =
     (s(n := \<lparr>co_pending = False, co_error = None\<rparr>),
      [Invalidate [''serverStatus''], Invalidate [''server'', ''clients'']])"
| "control_step (ControlFailed n e) s =
     (s(n := \<lparr>co_pending = False, co_error = Some (error_message e)\<rparr>), [])"

definition isMutating :: "controls \<Rightarrow> bool" where
  "isMutating s \<longleftrightarrow> co_pending (s StartIt) \<or> co_pending (s StopIt) \<or> co_pending (s ReloadIt)"

definition control_error :: "controls \<Rightarrow> string option" where
  "control_error s =
     (case co_error (s StartIt) of Some m \<Rightarrow> Some m
      | None \<Rightarrow> (case co_error (s StopIt) of Some m \<Rightarrow> Some m | None \<Rightarrow> co_error (s ReloadIt)))"

fun server_state_label :: "string \<Rightarrow> string" where
  "server_state_label s = (if s = ''running'' then ''Running'' else if s = ''stopped'' then ''Stopped'' else ''Error'')"

definition server_identity_strip :: "(jsval \<Rightarrow> string) \<Rightarrow> jsval \<Rightarrow> controls \<Rightarrow> control_event ui" where
  "server_identity_strip str status s =
     (let at' = text_at str (Some status); state = at' ''state''; running = (state = Some ''running'') in
      Group
        [Text (server_state_label (case state of None \<Rightarrow> [] | Some t \<Rightarrow> t)),
         only_if (truthy (body_field status ''pid'')) (Text (''PID '' @ (case at' ''pid'' of None \<Rightarrow> [] | Some t \<Rightarrow> t))),
         (if running then case uptime_text (body_field status ''uptime'') of None \<Rightarrow> nothing | Some t \<Rightarrow> Text t
          else nothing),
         only_if running (Text (clients_text str (Some status))),
         loading_button ''Start'' (running \<or> isMutating s) (co_pending (s StartIt)) (ControlPressed StartIt),
         loading_button ''Stop'' (state = Some ''stopped'' \<or> isMutating s) (co_pending (s StopIt)) (ControlPressed StopIt),
         loading_button ''Reload'' (\<not> running \<or> isMutating s) (co_pending (s ReloadIt)) (ControlPressed ReloadIt),
         only_if (state = Some ''error'' \<and> truthy_str (at' ''lastError'')) (Text (the (at' ''lastError''))),
         only_if (truthy_str (control_error s)) (Text (the (control_error s)))])"

section \<open>Panels\<close>

text \<open>A status by connection; the last one listed for a connection wins.\<close>

definition status_map :: "connection_status list \<Rightarrow> (string, connection_status) jmap" where
  "status_map ss = foldl (\<lambda>m s. jset m (cs_connectionId s) s) [] ss"

fun connector_state_label :: "conn_state \<Rightarrow> string" where
  "connector_state_label Connected = ''Connected''"
| "connector_state_label Disconnected = ''Disconnected''"
| "connector_state_label ConnError = ''Error''"

definition connector_row :: "(string, connection_status) jmap \<Rightarrow> connection_config \<Rightarrow> 'e ui" where
  "connector_row m c =
     (let state = (case jget m (cfg_id c) of None \<Rightarrow> Disconnected | Some s \<Rightarrow> cs_state s) in
      Group [Text (cfg_name c), Text (''('' @ cfg_type c @ '')''),
             badge (getStatusVariant (Some state)) (connector_state_label state)])"

fun connector_health_panel ::
  "connection_config list query_data \<Rightarrow> connection_status list \<Rightarrow> 'e ui" where
  "connector_health_panel QueryLoading ss = card_placeholder ''Connectors'' ''Loading...''"
| "connector_health_panel (QueryFailed m) ss = card_placeholder ''Connectors'' ''Unable to load connectors''"
| "connector_health_panel (QueryData cs) ss =
     (if cs = [] then card_placeholder ''Connectors'' ''No connectors configured''
      else Group
        [Text ''Connectors'', Group (map (connector_row (status_map ss)) cs),
         Text (show_nat (length (filter (\<lambda>s. cs_state s = Connected) ss)) @ ''/'' @ show_nat (length cs)
           @ '' connected'')])"

definition getCertBadgeVariant :: "int option \<Rightarrow> string" where
  "getCertBadgeVariant days =
     (case days of None \<Rightarrow> ''gray''
      | Some d \<Rightarrow> if d > 90 then ''green'' else if d \<ge> 30 then ''yellow'' else ''red'')"

definition getCertLabel :: "int option \<Rightarrow> string" where
  "getCertLabel days =
     (case days of None \<Rightarrow> ''Not configured''
      | Some d \<Rightarrow> if d = 0 then ''Expired'' else show_int d @ '' days remaining'')"

fun certificate_health_panel :: "security_config query_data \<Rightarrow> 'e ui" where
  "certificate_health_panel QueryLoading = card_placeholder ''Security'' ''Loading...''"
| "certificate_health_panel (QueryFailed m) = card_placeholder ''Security'' ''Unable to load security config''"
| "certificate_health_panel (QueryData c) =
     Group
       [Text ''Security'', info_row ''Mode'' (Text (sv_mode c)),
        info_row ''Certificate'' (badge (getCertBadgeVariant (sv_remainingDays c)) (getCertLabel (sv_remainingDays c))),
        (case sv_certificateValid c of None \<Rightarrow> nothing
         | Some v \<Rightarrow> info_row ''Valid'' (badge (if v then ''green'' else ''red'') (if v then ''Yes'' else ''No'')))]"

fun loading :: "'a query_data \<Rightarrow> bool" where
  "loading QueryLoading = True"
| "loading _ = False"

fun failed_query :: "'a query_data \<Rightarrow> bool" where
  "failed_query (QueryFailed _) = True"
| "failed_query _ = False"

fun data_of :: "'a list query_data \<Rightarrow> 'a list" where
  "data_of (QueryData xs) = xs"
| "data_of _ = []"

definition address_space_summary :: "node_row list query_data \<Rightarrow> namespace list query_data \<Rightarrow> 'e ui" where
  "address_space_summary nodes ns =
     (if loading nodes \<or> loading ns then card_placeholder ''Address Space'' ''Loading...''
      else if failed_query nodes \<or> failed_query ns
        then card_placeholder ''Address Space'' ''Unable to load address space''
      else Group [Text ''Address Space'', info_row ''Nodes'' (Text (show_nat (length (data_of nodes)))),
                  info_row ''Namespaces'' (Text (show_nat (length (data_of ns))))])"

definition getEndpointUrl :: "string \<Rightarrow> string \<Rightarrow> string" where
  "getEndpointUrl hostname port = ''opc.tcp://'' @ hostname @ '':'' @ port"

text \<open>The page's own address, as \<open>window.location\<close> has it.\<close>

record page_location =
  pl_protocol :: string
  pl_hostname :: string
  pl_port :: string

definition getApiUrl :: "page_location \<Rightarrow> string" where
  "getApiUrl l =
     pl_protocol l @ ''//'' @ pl_hostname l @ (if pl_port l \<noteq> [] then '':'' @ pl_port l else [])"

definition detectAuthMode :: "string option \<Rightarrow> string" where
  "detectAuthMode apiKey = (if truthy_str apiKey then ''API Key'' else ''None'')"

definition shown_endpoint :: "(jsval \<Rightarrow> string) \<Rightarrow> page_location \<Rightarrow> jsval option \<Rightarrow> string" where
  "shown_endpoint str l status =
     getEndpointUrl (case text_at str status ''hostname'' of None \<Rightarrow> pl_hostname l | Some h \<Rightarrow> h)
       (case text_at str status ''opcuaPort'' of None \<Rightarrow> ''4840'' | Some p \<Rightarrow> p)"

text \<open>The event is the text that is copied.\<close>

definition system_info_panel ::
  "(jsval \<Rightarrow> string) \<Rightarrow> page_location \<Rightarrow> string option \<Rightarrow> jsval query_data \<Rightarrow> security_config query_data
     \<Rightarrow> string ui" where
  "system_info_panel str l key status security =
     (if loading status \<or> loading security then card_placeholder ''System Info'' ''Loading...''
      else let st = (case status of QueryData v \<Rightarrow> Some v | _ \<Rightarrow> None);
               url = shown_endpoint str l st in
        Group
          [Text ''System Info'',
           Group [Text ''OPC UA Endpoint'', Text url, Button ''Copy OPC UA Endpoint'' False url],
           Group [Text ''Control API'', Text (getApiUrl l)],
           Group [Text ''Auth Mode'', Text (detectAuthMode key)],
           Group [Text ''Security Mode'', case security of QueryData c \<Rightarrow> Text (sv_mode c) | _ \<Rightarrow> Icon 0x2014],
           (case st of None \<Rightarrow> nothing
            | Some v \<Rightarrow> only_if (truthy (body_field v ''pid''))
                (Group [Text ''Runtime PID'', Text (as_text str (body_field v ''pid''))]))])"

fun session_text :: "session_state \<Rightarrow> string" where
  "session_text SCreated = ''Created''"
| "session_text SActivated = ''Activated''"
| "session_text SClosing = ''Closing''"

text \<open>\<open>elapsed\<close> is the time since a timestamp.\<close>

definition connected_clients_table :: "(string \<Rightarrow> int option) \<Rightarrow> client_session list \<Rightarrow> 'e ui" where
  "connected_clients_table elapsed ss =
     (if ss = [] then Text ''No clients connected''
      else Group (map (\<lambda>s. Group
        [Text (cl_applicationName s), Text (cl_applicationUri s), Text (cl_securityPolicyUri s),
         Text (cl_clientAddress s), Text (formatRelativeDuration (elapsed (cl_connectTime s))),
         Text (session_text (cl_sessionState s))]) ss))"

section \<open>The first screen\<close>

record dashboard_data =
  dd_status :: "jsval query_data"
  dd_clients :: "client_session list"
  dd_connections :: "connection_config list query_data"
  dd_statuses :: "connection_status list"
  dd_security :: "security_config query_data"
  dd_nodes :: "node_row list query_data"
  dd_namespaces :: "namespace list query_data"

datatype dashboard_event = OfControls control_event | OfSystemInfo string

definition dashboard_view ::
  "(jsval \<Rightarrow> string) \<Rightarrow> page_location \<Rightarrow> string option \<Rightarrow> (string \<Rightarrow> int option) \<Rightarrow> dashboard_data \<Rightarrow> controls
     \<Rightarrow> dashboard_event ui" where
  "dashboard_view str l key elapsed d s =
     (case dd_status d of
        QueryLoading \<Rightarrow> Text ''Loading server status...''
      | QueryFailed m \<Rightarrow> alert ''error'' [Text ''Failed to fetch server status. Is the Control API running?''] None
      | QueryData status \<Rightarrow>
          Group
            [map_ui OfControls (server_identity_strip str status s),
             connector_health_panel (dd_connections d) (dd_statuses d),
             certificate_health_panel (dd_security d),
             address_space_summary (dd_nodes d) (dd_namespaces d),
             map_ui OfSystemInfo (system_info_panel str l key (dd_status d) (dd_security d)),
             only_if (text_at str (Some status) ''state'' = Some ''running'')
               (Group [Text ''Connected Clients'',
                       only_if (dd_clients d \<noteq> []) (Text (''('' @ show_nat (length (dd_clients d)) @ '')'')),
                       connected_clients_table elapsed (dd_clients d)])])"

section \<open>The frame\<close>

definition NAV_ITEMS :: "(string \<times> string) list" where
  "NAV_ITEMS =
     [(''dashboard'', ''Dashboard''), (''address-space'', ''Address Space''), (''security'', ''Security''),
      (''connectors'', ''Connectors'')]"

text \<open>
  The screen that is shown keeps its state; leaving it loses it. Nothing is shown of a section that
  does not exist.
\<close>

datatype shown_screen =
    DashboardScreen controls
  | AddressSpaceScreen namespace_manager tree_state space_section
  | SecurityScreen security_screen
  | ConnectorsScreen connectors_manager
  | NoScreen

record app_frame =
  fr_activeSection :: string
  fr_screen :: shown_screen
  fr_logOpen :: bool
  fr_log :: log_panel
  fr_stream :: sse_state

definition fresh_screen :: "(jsval \<Rightarrow> string) \<Rightarrow> string \<Rightarrow> shown_screen" where
  "fresh_screen str section =
     (if section = ''dashboard'' then DashboardScreen new_controls
      else if section = ''address-space'' then AddressSpaceScreen new_namespace_manager [] (new_space_section str)
      else if section = ''security'' then SecurityScreen new_security_screen
      else if section = ''connectors'' then ConnectorsScreen new_connectors_manager
      else NoScreen)"

definition new_app :: "(jsval \<Rightarrow> string) \<Rightarrow> app_frame" where
  "new_app str =
     \<lparr>fr_activeSection = ''dashboard'', fr_screen = fresh_screen str ''dashboard'', fr_logOpen = False,
      fr_log = new_log_panel, fr_stream = mounted_sse\<rparr>"

datatype frame_event =
    NavPressed string
  | LogToggled
  | OfLog log_event
  | OfStream sse_event

definition setActiveSection :: "(jsval \<Rightarrow> string) \<Rightarrow> string \<Rightarrow> app_frame \<Rightarrow> app_frame" where
  "setActiveSection str section s =
     (if section = fr_activeSection s then s
      else s\<lparr>fr_activeSection := section, fr_screen := fresh_screen str section\<rparr>)"

text \<open>The handler of the event that other components raise; an empty name is passed over.\<close>

definition on_navigate :: "(jsval \<Rightarrow> string) \<Rightarrow> string \<Rightarrow> app_frame \<Rightarrow> app_frame" where
  "on_navigate str section s = (if section \<noteq> [] then setActiveSection str section s else s)"

text \<open>What the stream publishes is handed to the log at once, open or not.\<close>

fun frame_step :: "(jsval \<Rightarrow> string) \<Rightarrow> (string \<Rightarrow> jsval option) \<Rightarrow> frame_event \<Rightarrow> app_frame \<Rightarrow> app_frame" where
  "frame_step str parse (NavPressed section) s = setActiveSection str section s"
| "frame_step str parse LogToggled s = s\<lparr>fr_logOpen := \<not> fr_logOpen s\<rparr>"
| "frame_step str parse (OfLog e) s =
     s\<lparr>fr_log := log_panel_step e (fr_log s), fr_logOpen := (if e = LogClosed then False else fr_logOpen s)\<rparr>"
| "frame_step str parse (OfStream e) s =
     (let st = sse_step parse e (fr_stream s) in
      s\<lparr>fr_stream := st,
        fr_log := foldl (\<lambda>l x. log_panel_step (LogArrived x) l) (fr_log s)
                    (drop (length (ss_published (fr_stream s))) (ss_published st))\<rparr>)"

definition frame_view :: "app_frame \<Rightarrow> frame_event ui" where
  "frame_view s =
     Group
       [Text ''OPC UA Light Server'', Group (map (\<lambda>(i, label). Button label False (NavPressed i)) NAV_ITEMS),
        only_if (ss_connection (fr_stream s) = SseDisconnected)
          (Text ''Connection lost - The data displayed may be outdated. Reconnecting to server...'')]"

section \<open>The log shows what was published last\<close>

text \<open>The entries of the stream since the log was cleared.\<close>

fun entries_after :: "log_event \<Rightarrow> jsval list \<Rightarrow> jsval list" where
  "entries_after (LogArrived x) es = es @ [x]"
| "entries_after LogCleared es = []"
| "entries_after _ es = es"

fun since_clear :: "frame_event list \<Rightarrow> (string \<Rightarrow> jsval option) \<Rightarrow> sse_state \<Rightarrow> jsval list \<Rightarrow> jsval list" where
  "since_clear [] parse st es = es"
| "since_clear (OfLog l # fs) parse st es = since_clear fs parse st (entries_after l es)"
| "since_clear (OfStream e # fs) parse st es =
     (let st' = sse_step parse e st in
      since_clear fs parse st' (es @ drop (length (ss_published st)) (ss_published st')))"
| "since_clear (NavPressed _ # fs) parse st es = since_clear fs parse st es"
| "since_clear (LogToggled # fs) parse st es = since_clear fs parse st es"

definition last_of :: "nat \<Rightarrow> 'a list \<Rightarrow> 'a list" where
  "last_of n xs = drop (length xs - n) xs"

text \<open>A listener of the log stream hears an entry once while it is subscribed, however often it did so, and
  not at all once it has left.\<close>

lemma log_listener_hears:
  assumes "distinct ls"
  shows "filter (\<lambda>p. fst p = l) (log_publish e (log_subscribe l ls)) = [(l, e)]"
    "filter (\<lambda>p. fst p = l) (log_publish e (log_unsubscribe l ls)) = []"
    "distinct (log_subscribe l ls)" "distinct (log_unsubscribe l ls)"
proof -
  have once: "filter (\<lambda>k. k = l) ks = [l]" if "distinct ks" "l \<in> set ks" for ks :: "nat list"
    using that by (induction ks) (auto simp: filter_empty_conv)
  show "distinct (log_subscribe l ls)" "distinct (log_unsubscribe l ls)"
    using assms by (auto simp: log_subscribe_def log_unsubscribe_def)
  then show "filter (\<lambda>p. fst p = l) (log_publish e (log_subscribe l ls)) = [(l, e)]"
    using once [of "log_subscribe l ls"]
    by (simp add: log_publish_def filter_map o_def) (simp add: log_subscribe_def)
  show "filter (\<lambda>p. fst p = l) (log_publish e (log_unsubscribe l ls)) = []"
    by (auto simp: log_publish_def log_unsubscribe_def filter_empty_conv)
qed

lemma last_of_snoc: "0 < n \<Longrightarrow> last_of n (last_of n xs @ ys) = last_of n (xs @ ys)"
  by (cases "length xs \<le> n") (auto simp: last_of_def add.commute)

lemma arrived_logs: "lp_logs (log_panel_step (LogArrived x) s) = last_of 1000 (lp_logs s @ [x])"
  by (simp add: last_of_def Let_def)

lemma arrived_all:
  "lp_logs (foldl (\<lambda>l x. log_panel_step (LogArrived x) l) s xs) = last_of 1000 (lp_logs s @ xs)
    \<or> xs = []"
proof (induction xs arbitrary: s)
  case (Cons x xs)
  show ?case
  proof (cases "xs = []")
    case False
    with Cons [of "log_panel_step (LogArrived x) s"] show ?thesis
      using last_of_snoc [of 1000 "lp_logs s @ [x]" xs] by (simp only: foldl.simps arrived_logs) simp
  qed (simp only: foldl.simps arrived_logs, simp)
qed simp

lemma arrived_kept:
  "lp_logs s = last_of 1000 es \<Longrightarrow>
    lp_logs (foldl (\<lambda>l x. log_panel_step (LogArrived x) l) s xs) = last_of 1000 (es @ xs)"
  using arrived_all [of s xs] last_of_snoc [of 1000 es xs] by (cases "xs = []") auto

lemma log_step_entries:
  "lp_logs s = last_of 1000 xs \<Longrightarrow> lp_logs (log_panel_step l s) = last_of 1000 (entries_after l xs)"
  using arrived_kept [of s xs "[x]" for x] by (cases l) (auto simp: last_of_def)

lemma frame_logs:
  "lp_logs (fr_log s) = last_of 1000 xs \<Longrightarrow>
    lp_logs (fr_log (foldl (\<lambda>s e. frame_step str parse e s) s es)) = last_of 1000 (since_clear es parse (fr_stream s) xs)"
proof (induction es arbitrary: s xs)
  case (Cons e es)
  show ?case
  proof (cases e)
    case (NavPressed x)
    with Cons show ?thesis by (simp add: setActiveSection_def)
  next
    case LogToggled
    with Cons show ?thesis by simp
  next
    case (OfLog l)
    let ?s = "frame_step str parse e s"
    have "lp_logs (fr_log ?s) = last_of 1000 (entries_after l xs)" "fr_stream ?s = fr_stream s"
      using OfLog log_step_entries [OF Cons.prems] by simp_all
    with Cons.IH [of ?s] OfLog show ?thesis by simp
  next
    case (OfStream x)
    with Cons arrived_kept [OF Cons.prems] show ?thesis by (simp add: Let_def)
  qed
qed simp

text \<open>However the user and the stream behave, the log holds the last 1000 of the entries the stream has
  published since it was cleared, in order, whether or not it was open meanwhile, and shows those
  of them whose level is switched on.\<close>

lemma log_shows_last_published:
  "let s = foldl (\<lambda>s e. frame_step str parse e s) (new_app str) es;
       published = since_clear es parse mounted_sse [] in
   filteredLogs (fr_log s) = filter (level_active (fr_log s)) (drop (length published - 1000) published)"
proof -
  have "lp_logs (fr_log (new_app str)) = last_of 1000 []" by (simp add: new_app_def new_log_panel_def last_of_def)
  from frame_logs [OF this, of str parse es] show ?thesis
    by (simp add: Let_def filteredLogs_def last_of_def new_app_def)
qed

section \<open>The endpoint that is shown\<close>

lemma status_keys: "cache_keys ''server:status'' = [[''serverStatus''], [''server-status'']]"
  by code_simp

text \<open>C39: The endpoint of the OPC UA server that is shown has the port the server answers with, but only until
  the stream reports a change of the state: what is pushed lacks the port, replaces the answer in
  the cache, and the default port is shown instead.\<close>

theorem pushed_status_forgets_port:
  assumes "st = pm_getStatus (he_pm env) (hs_pm h)" "d = JObj (server_status_fields st)"
    and "one_line_numbers nt" "parse (json nt d) = Some (json_copy d)" "map_of (ss_sources s) i = Some EsOpen"
  shows "\<exists>v. read_by rd (ServerRoutes.get_status env h) = Inr v
    \<and> shown_endpoint str l (Some v) = ''opc.tcp://'' @ st_hostname st @ '':'' @ str (jint (he_port env))
    \<and> shown_endpoint str l
        (jget (ss_data (sse_step parse (SourceText i (formatEvent nt ''server:status'' d)) s)) [''serverStatus''])
      = ''opc.tcp://'' @ st_hostname st @ '':4840''"
proof -
  have fields: "getprop (copy_members (server_status_fields st @ ps)) ''hostname'' = JStr (st_hostname st)"
    "getprop (copy_members (server_status_fields st @ ps)) ''opcuaPort'' = getprop (copy_members ps) ''opcuaPort''" for ps
    by (auto simp: server_status_fields_def getprop_def split: option.splits jsnum.splits)
  have "read_stream (formatEvent nt ''server:status'' d) = [(''server:status'', json nt d)]"
    using read_formatted [of nt "''server:status''"] assms(3) stream_types_ok [of "''server:status''"]
    by (simp add: stream_types_def)
  then have "jget (ss_data (sse_step parse (SourceText i (formatEvent nt ''server:status'' d)) s)) [''serverStatus'']
      = Some (json_copy d)"
    using assms(4,5) by (simp add: on_message_def status_keys)
  moreover have "read_by rd (ServerRoutes.get_status env h) =
      Inr (json_copy (JObj (server_status_fields st @ [(''opcuaPort'', jint (he_port env))])))"
    using assms(1) by (simp add: read_by_def ServerRoutes.get_status_def read_success)
  ultimately show ?thesis
    using fields [of "[]"] fields [of "[(''opcuaPort'', jint (he_port env))]"] assms(2)
    by (simp add: shown_endpoint_def text_at_def getEndpointUrl_def nullish_def as_text_def getprop_def)
qed

lemma opened_source: "map_of (ss_sources (sse_step parse (SourceOpened 0) mounted_sse)) 0 = Some EsOpen"
proof -
  have "sse_step parse (SourceOpened 0) mounted_sse = sse_step demo_parse (SourceOpened 0) mounted_sse" by simp
  moreover have "map_of (ss_sources (sse_step demo_parse (SourceOpened 0) mounted_sse)) 0 = Some EsOpen" by code_simp
  ultimately show ?thesis by simp
qed

lemma pushed_status_forgets_port_witness:
  "let env = (demo_host_env (demo_os True (\<lambda>_. None)))\<lparr>he_port := 4850\<rparr>; h = demo_host (demo_plant []);
       st = pm_getStatus (he_pm env) (hs_pm h); d = JObj (server_status_fields st);
       parse = (\<lambda>_. Some (json_copy d));
       s = sse_step parse (SourceText 0 (formatEvent (\<lambda>_. ''1'') ''server:status'' d))
             (sse_step parse (SourceOpened 0) mounted_sse);
       l = \<lparr>pl_protocol = ''http:'', pl_hostname = ''gateway'', pl_port = []\<rparr> in
   \<exists>v. read_by demo_reader (ServerRoutes.get_status env h) = Inr v
     \<and> shown_endpoint (\<lambda>_. ''4850'') l (Some v) = ''opc.tcp://'' @ st_hostname st @ '':4850''
     \<and> shown_endpoint (\<lambda>_. ''4850'') l (jget (ss_data s) [''serverStatus'']) = ''opc.tcp://'' @ st_hostname st @ '':4840''"
proof -
  have lines: "one_line_numbers (\<lambda>_. ''1'')" by (simp add: one_line_numbers_def)
  let ?env = "(demo_host_env (demo_os True (\<lambda>_. None)))\<lparr>he_port := 4850\<rparr>" and ?h = "demo_host (demo_plant [])"
  let ?d = "JObj (server_status_fields (pm_getStatus (he_pm ?env) (hs_pm ?h)))"
  show ?thesis
    unfolding Let_def
    using pushed_status_forgets_port [where env = ?env and h = ?h and d = ?d and parse = "\<lambda>_. Some (json_copy ?d)"
        and str = "\<lambda>_. ''4850''" and rd = demo_reader and nt = "\<lambda>_. ''1''" and i = 0
        and s = "sse_step (\<lambda>_. Some (json_copy ?d)) (SourceOpened 0) mounted_sse"
        and l = "\<lparr>pl_protocol = ''http:'', pl_hostname = ''gateway'', pl_port = []\<rparr>",
        OF refl refl lines refl opened_source]
    by (simp del: sse_step.simps)
qed

section \<open>Days and times\<close>

lemma js_rem_nat: "0 < m \<Longrightarrow> js_rem (of_nat n) (of_nat m) = of_nat (n mod m)"
proof -
  assume "0 < m"
  have "\<lfloor>(of_nat n :: rat) / of_nat m\<rfloor> = int (n div m)" by (simp add: floor_divide_of_nat_eq)
  moreover have "(of_nat n :: rat) = of_nat m * of_nat (n div m) + of_nat (n mod m)"
    by (metis mult_div_mod_eq of_nat_add of_nat_mult)
  ultimately show ?thesis by (simp add: js_rem_def)
qed

text \<open>The parts of an uptime are days, hours below 24, minutes and seconds below 60.\<close>

lemma formatUptime_parts:
  "formatUptime (of_nat n) = join '' ''
     (unit_part (int (n div 86400)) ''d'' @ unit_part (int (n mod 86400 div 3600)) ''h''
      @ unit_part (int (n mod 3600 div 60)) ''m'' @ [show_int (int (n mod 60)) @ ''s''])"
proof -
  have r: "js_rem (of_nat n) 86400 = of_nat (n mod 86400)" "js_rem (of_nat n) 3600 = of_nat (n mod 3600)"
    "js_rem (of_nat n) 60 = of_nat (n mod 60)"
    using js_rem_nat [of 86400 n] js_rem_nat [of 3600 n] js_rem_nat [of 60 n] by simp_all
  have f: "\<lfloor>(of_nat k :: rat) / 86400\<rfloor> = int (k div 86400)" "\<lfloor>(of_nat k :: rat) / 3600\<rfloor> = int (k div 3600)"
    "\<lfloor>(of_nat k :: rat) / 60\<rfloor> = int (k div 60)" for k
    using floor_divide_of_nat_eq [of k 86400, where 'a = rat] floor_divide_of_nat_eq [of k 3600, where 'a = rat]
      floor_divide_of_nat_eq [of k 60, where 'a = rat] by simp_all
  show ?thesis unfolding formatUptime_def Let_def r f by simp
qed

text \<open>The days a certificate has left are rounded down: on its last day it is shown as expired.\<close>

lemma last_day_expired:
  assumes "readFileSync (ce_os env) p fs = Inr bs" "fg_parse (ce_forge env) bs = Some (created, expires)"
    and "0 < expires - ce_now env" "expires - ce_now env < 24 * 60 * 60 * 1000"
  shows "\<exists>x. readCertificateExpiry env fs p = Some x \<and> getCertLabel (Some (cx_remainingDays x)) = ''Expired''"
  using assms by (simp add: readCertificateExpiry_def getCertLabel_def)

text \<open>Of the errors of the three actions the one of starting hides the others, however old it is.\<close>

lemma start_error_hides:
  "co_error (s StartIt) = Some m \<Longrightarrow> n \<noteq> StartIt \<Longrightarrow> control_error (fst (control_step (ControlFailed n e) s)) = Some m"
  by (simp add: control_error_def)

end
