(* ===== verification/Spec2Isabelle.thy ===== *)
theory Spec2Isabelle
  imports Prelude ConnectorCore Lifecycle ProtocolSteps S7 ModbusTcp EthernetIp Pccc Regex Handshakes
    Csv ParamsValidator Json SseHub LogService Registry Connectors PluginLoader ProcessManager
    Database ObjectNodes Nodes Namespaces ConnectorRepository SecurityRepository Repositories
    ConfigGenerator IpcBridge Http Auth Tofu NodeRoutes
    SpaceRoutes ConnectorRoutes ConnectorSync CertUtils CertValidation Network CertGenerator
    Host SecurityRoutes ServerRoutes Startup FileRoutes Application WebClient ClientServer
    WebUi NodeForm SpaceTree EventStream ConnectionForm ConnectorScreens
    SpaceScreens SecurityScreens CertificateScreens Dashboard
begin

text \<open>
  A model of the TypeScript part of OPC UA Light Server (\<open>src/\<close>): a service that keeps the
  address space of an OPC UA server in a database, polls PLCs through protocol connectors, and
  runs the server itself as a child process.

  \<^bold>\<open>Parts.\<close>
  \<^item> \<open>Prelude\<close>: JavaScript values, numbers (\<open>jsnum\<close>), \<open>Map\<close>s as association lists in insertion
    order (\<open>jmap\<close>, behind the locale \<open>keyed_store\<close>), strings (\<open>split\<close>, \<open>trim\<close>, \<open>parseInt\<close>), and
    bounded logs (locale \<open>capped_log\<close>). \<open>Regex\<close> and \<open>Json\<close> serve the theories that need them.
  \<^item> \<open>ConnectorCore\<close>: \<open>src/connectors/core/base-connector.ts\<close>. A connector is a record; a managed
    connection is a cell of its heap, because callbacks keep references to cells that are no
    longer in the table. The event loop is part of the state: timers, timeouts, handshakes and
    reads that are pending. An \<open>event\<close> is an API call or a callback, \<open>conn_step\<close> one of them,
    \<open>reach\<close> any sequence of those that satisfy a condition. The abstract methods are a \<open>vtable\<close>.
  \<^item> \<open>S7\<close>, \<open>ModbusTcp\<close>, \<open>EthernetIp\<close>, \<open>Pccc\<close>: \<open>src/connectors/protocols/\<close>, the overrides. Client
    libraries are a list of the calls made to them and the events they answer with.
  \<^item> \<open>Lifecycle\<close>: the contract of a protocol as two locales, \<open>protocol\<close> (every method keeps the
    invariant \<open>linv\<close>) and \<open>calm_protocol\<close> (the laws for \<open>progress\<close>); \<open>ProtocolSteps\<close> has what the
    protocols share. Both locales are interpreted by all four protocols.
  \<^item> \<open>Registry\<close>, \<open>Connectors\<close>: \<open>connector-registry.ts\<close> over any connectors (locale
    \<open>stoppable_connector\<close>), and the instance of the program. \<open>PluginLoader\<close>, \<open>ParamsValidator\<close>:
    \<open>plugin-loader.ts\<close>, with what a plugin throws outside of the \<open>try\<close> blocks, and
    \<open>params-validator.ts\<close>. The parameters of a connection are any JSON value: an update may store
    \<open>null\<close>, which no protocol and no generation of the configuration can read.
  \<^item> \<open>SseHub\<close>, \<open>LogService\<close>, \<open>Csv\<close>: \<open>src/api/sse-hub.ts\<close>, \<open>src/log/index.ts\<close>, \<open>src/utils/csv.ts\<close>.
  \<^item> \<open>ProcessManager\<close>: \<open>src/process-manager/\<close>, the child process as events in any order.
  \<^item> \<open>Database\<close>: \<open>src/db/schema.sql\<close> and \<open>src/db/database.ts\<close>. The tables are lists of rows;
    \<open>integrity\<close> is what the constraints demand, \<open>checked\<close> what SQLite does with a statement, the
    \<open>drop\<close> functions are the foreign key actions, those of a namespace in the order in which SQLite
    takes the containers, so that deleting one can fail. \<open>ObjectNodes\<close>, \<open>Nodes\<close>, \<open>Namespaces\<close>,
    \<open>ConnectorRepository\<close>, \<open>SecurityRepository\<close>: \<open>src/db/repositories/\<close>, a method each;
    \<open>Repositories\<close>: their calls in any order (\<open>repo_reach\<close>), and the queries they cache as an
    interpretation of the locale \<open>cached_queries\<close>.
  \<^item> \<open>ConfigGenerator\<close>, \<open>IpcBridge\<close>: \<open>src/config-generator/\<close>, the file the runtime is started
    with, and \<open>connectors/core/ipc-bridge.ts\<close>, which translates reported values for it; what the
    bridge needs of the process manager is the locale \<open>runtime_port\<close>.
  \<^item> \<open>Http\<close>, \<open>Auth\<close>, \<open>Tofu\<close>, \<open>NodeRoutes\<close>: requests and answers, \<open>src/auth/\<close>, the client
    certificates the runtime trusts (\<open>src/tofu-manager/\<close> and \<open>src/api/routes/pki.ts\<close>, over any
    \<open>runtime_port\<close>), and \<open>src/api/routes/nodes.ts\<close> with the import and export as CSV.
  \<^item> \<open>SpaceRoutes\<close>, \<open>ConnectorRoutes\<close>: \<open>src/api/routes/namespaces.ts\<close>, \<open>object-nodes.ts\<close> and
    \<open>connectors.ts\<close>, handlers on the database and, for connections and mappings, the registry.
    \<open>ConnectorSync\<close>: what the registered connectors hold, against the rows.
  \<^item> \<open>CertUtils\<close>, \<open>CertValidation\<close>, \<open>Network\<close>, \<open>CertGenerator\<close>: \<open>src/cert-generator/\<close> and
    \<open>src/utils/network.ts\<close>. Bytes are \<open>8 word\<close>s; files have a mode, and an environment says which
    operations of the system fail; what node-forge encodes is a parameter.
  \<^item> \<open>Host\<close>: the process as a whole, a record of the components' states, with the history of what the
    runtime was told and what the files were at that moment. \<open>SecurityRoutes\<close>,
    \<open>ServerRoutes\<close>, \<open>FileRoutes\<close>: \<open>src/api/routes/security.ts\<close>, \<open>server.ts\<close>, \<open>events.ts\<close>,
    \<open>files.ts\<close> and \<open>src/api/app.ts\<close>; a handler that waits for the child process is cut at the
    wait. \<open>Startup\<close>: \<open>src/api/server.ts\<close>, the start, a crash of the runtime, and the end.
  \<^item> \<open>Application\<close>: \<open>src/api/app.ts\<close>, the routes of all routers behind the reading of the body (the
    package's, a parameter) and authentication, and the hook after a change. \<open>WebClient\<close>: \<open>web/src/api/\<close>, the calls of the web interface. \<open>ClientServer\<close>: the two
    together, a call with its answer.
  \<^item> \<open>WebUi\<close>: \<open>web/src/components/\<close>, elements that carry what a user can cause. A screen is a record
    of its state, a datatype of events, a step function whose effects are calls of the API, and a
    view: \<open>NodeForm\<close>, \<open>SpaceTree\<close>: \<open>web/src/screens/address-space/\<close>, with what the server makes of
    what they send, and \<open>SpaceScreens\<close>, the rest of that directory; \<open>ConnectionForm\<close>,
    \<open>ConnectorScreens\<close>: \<open>web/src/screens/connectors/\<close> and \<open>web/src/hooks/useNodePaths.ts\<close>;
    \<open>SecurityScreens\<close>, \<open>CertificateScreens\<close>: \<open>web/src/screens/security/\<close>.
  \<^item> \<open>EventStream\<close>: \<open>web/src/hooks/useSSE.ts\<close>, the browser's end of \<open>SseHub\<close>: its objects and timers
    under any order of events. \<open>Dashboard\<close>: \<open>web/src/screens/dashboard/\<close>, \<open>web/src/layout/\<close> and the
    other hooks, the frame that shows one screen at a time beside the log and the status bar.

  \<^bold>\<open>What is shown.\<close> Connectors: \<open>linv\<close> holds in every reachable state of each protocol; under
  calm events no enabled connection is abandoned (\<open>progress\<close>), and the four runs of \<open>S7\<close> show
  what goes wrong outside them. Process manager: an invariant over all orders of events, what
  an exit does. Database: migrations, the depth of the object hierarchy and that walks up it
  end, the tree a namespace shows, the outcome of creating a variable or a namespace and what deleting a
  namespace takes with it; over all calls of all repositories, that the tables keep their
  constraints and that no cached read is stale. Configuration: generating it ends, every variable
  has a parent in it, node ids are distinct, encryption is only asked for with all it needs; and
  the bridge sends values under exactly these node ids. Round trips of CSV fields,
  of the exported variables, of rejecting and trusting a certificate, and of Modbus addresses; who is
  let in with an API key; that a refused request changes no table, and that the connectors manage
  exactly the connections the database has; validation of parameters against what the connectors
  accept. Certificates: the conversions between DER and PEM are inverse, the check of IPv4
  addresses against the dotted decimals, what a generation leaves on the disk whatever fails.
  The process: when it starts and what it then manages, that a change of the address space reaches
  the runtime, that a crash stops the polling, and that no request stores a security mode without
  the files it needs. The web interface: its calls reach the routes meant for them, what the forms
  send passes the server's checks and is what they show, the tree shows the node ids of the
  configuration, a certificate is overwritten only by a user who was asked, and the stream of
  events is never given up and delivers what the hub sends, the port of the endpoint excepted.

  \<^bold>\<open>Loops.\<close> The walk up the hierarchy is a \<open>partial_function\<close> and is shown to end on every state
  that can be reached, as is the one that computes paths; the recursion of \<open>buildTree\<close> has the number of rows as fuel, which the
  tree theorem shows to be enough; migrations end by a measure.

  \<^bold>\<open>Not modelled.\<close> Of the web interface styling, the elements that are only that, the
  library that caches queries (its data are arguments, the end of a call is an event) and the
  clipboard; the C runtime, a separate program; node-forge's encodings; the HTTP and TLS servers
  themselves and the static files they serve; requests whose fields have types the handlers neither
  check nor expect. File system, network, clock and fresh ids are
  arguments or events.
\<close>

section \<open>The four connectors\<close>

text \<open>C2: In every state any of the four connectors can reach by API calls and by callbacks of the
  event loop in any order and with any outcome, the connection table, the cells, the timers and
  the pending reads agree: each timer of the event loop is the one its connection holds, a
  connected connection has a client and a polling timer, and a stopped connector's connections
  hold neither timer nor client.\<close>

theorem connectors_stay_consistent:
  "(reach s7_vtable (\<lambda>_ _. True) s7_new s1 \<longrightarrow> linv s1) \<and>
   (reach modbus_vtable (\<lambda>_ _. True) modbus_new s2 \<longrightarrow> linv s2) \<and>
   (reach eip_vtable (\<lambda>_ _. True) eip_new s3 \<longrightarrow> linv s3) \<and>
   (reach pccc_vtable (\<lambda>_ _. True) pccc_new s4 \<longrightarrow> linv s4)"
  using s7.reach_linv [OF _ s7_new_linv] modbus.reach_linv [OF _ modbus_new_linv]
    eip.reach_linv [OF _ eip_new_linv] pccc.reach_linv [OF _ pccc_new_linv]
  by blast

lemma connectors_stay_consistent_witness:
  "\<exists>s. reach s7_vtable (\<lambda>_ _. True) s7_new s \<and> linv s
     \<and> \<not> running s \<and> connections s = [] \<and> intervals s \<noteq> []"
proof -
  have "run_ends s7_vtable removed_run s7_new
      (\<lambda>s. \<not> running s \<and> connections s = [] \<and> intervals s \<noteq> [])"
    by (simp add: s7_run removed_run_def)
  from run_ends_reach [OF this] obtain s where
    s: "reach s7_vtable (\<lambda>_ _. True) s7_new s" "\<not> running s \<and> connections s = [] \<and> intervals s \<noteq> []"
    by (elim exE conjE) (rule that, simp_all)
  from connectors_stay_consistent s(1) have "linv s" by blast
  with s show ?thesis by blast
qed

text \<open>C1: While every callback comes from the client its connection has now, every read returns
  to a connection that is still connected, and no update is refused for its parameters, no
  enabled connection of a running connector is abandoned: it is connected, or it is connecting
  and the handshake of the client it holds is pending, or its reconnection is scheduled. This
  holds of all four connectors.\<close>

theorem connectors_make_progress:
  "(reach s7_vtable (calm s7_vtable) s7_new s1 \<longrightarrow> progress s1 \<and> awaiting s1) \<and>
   (reach modbus_vtable (calm modbus_vtable) modbus_new s2 \<longrightarrow> progress s2 \<and> awaiting s2) \<and>
   (reach eip_vtable (calm eip_vtable) eip_new s3 \<longrightarrow> progress s3 \<and> awaiting s3) \<and>
   (reach pccc_vtable (calm pccc_vtable) pccc_new s4 \<longrightarrow> progress s4 \<and> awaiting s4)"
proof -
  have start: "progress s7_new" "progress modbus_new" "progress eip_new" "progress pccc_new"
    by (simp_all add: s7_new_def modbus_new_def eip_new_def pccc_new_def progress_new_connector)
  have idle: "awaiting s7_new" "awaiting modbus_new" "awaiting eip_new" "awaiting pccc_new"
    by (simp_all add: s7_new_def modbus_new_def eip_new_def pccc_new_def new_managed_def
        awaiting_new_connector)
  show ?thesis
    using s7_calm.calm_reach_progress [OF _ s7_new_linv start(1)]
      modbus_calm.calm_reach_progress [OF _ modbus_new_linv start(2)]
      eip_calm.calm_reach_progress [OF _ eip_new_linv start(3)]
      pccc_calm.calm_reach_progress [OF _ pccc_new_linv start(4)]
      s7_handshakes.calm_reach_awaiting [OF _ s7_new_linv start(1) idle(1)]
      modbus_handshakes.calm_reach_awaiting [OF _ modbus_new_linv start(2) idle(2)]
      eip_handshakes.calm_reach_awaiting [OF _ eip_new_linv start(3) idle(3)]
      pccc_handshakes.calm_reach_awaiting [OF _ pccc_new_linv start(4) idle(4)]
    by blast
qed

text \<open>A connection whose read fails, and whose reconnection succeeds.\<close>

definition calm_run :: "event list" where
  "calm_run =
     [ApiCall (AddConnection demo_config), ApiCall (AddMapping demo_mapping), ApiCall Start,
      HandshakeDone 0 0 None, ReadDone (PendAll 0) (ReadFailed OtherErr plc_error),
      ReconnectTimer 2 0, HandshakeDone 0 3 None]"

lemma connectors_make_progress_witness:
  "\<exists>s. reach s7_vtable (calm s7_vtable) s7_new s \<and> progress s \<and> running s
     \<and> m_state (heap s 0) = Connected \<and> m_connecting (heap s 0) = False"
proof -
  have "case run s7_vtable (calm s7_vtable) calm_run s7_new of None \<Rightarrow> False
      | Some s \<Rightarrow> running s \<and> m_state (heap s 0) = Connected \<and> m_connecting (heap s 0) = False"
    by (simp add: s7_run calm_run_def calm_def)
  then obtain s where s: "run s7_vtable (calm s7_vtable) calm_run s7_new = Some s"
    "running s \<and> m_state (heap s 0) = Connected \<and> m_connecting (heap s 0) = False"
    by (auto split: option.splits)
  from s(1) have r: "reach s7_vtable (calm s7_vtable) s7_new s" by (rule run_reach)
  with connectors_make_progress have "progress s" by blast
  with r s(2) show ?thesis by blast
qed

end
